(* ===== verification/Prelude.thy ===== *)
theory Prelude
  imports Main "HOL-Library.Word" "HOL-Library.Char_ord" "HOL-Library.List_Lexorder"
    "HOL-Library.Product_Lexorder"
begin

text \<open>
  Shared vocabulary of the development: the exceptions the Python code raises and the result
  type that carries them, the bind of that type with its inversion rules, and the relational
  table operations (a table is the list of its rows, keyed by a projection) that the control
  plane's SQL statements are made of, with the facts about them that every component uses.
\<close>

section \<open>Results: a value or a raised exception\<close>

text \<open>
  The exception classes raised by the modelled code. \<open>ValueError\<close>, \<open>TypeError\<close>,
  \<open>OverflowError\<close>, \<open>InvalidOperation\<close> (of \<open>decimal\<close>), \<open>KeyError\<close>, \<open>RuntimeError\<close>, \<open>OSError\<close>,
  \<open>FileNotFoundError\<close> and \<open>AssertionError\<close> are Python's; \<open>IntegrityError\<close> is what the
  database driver raises when a statement violates a constraint; \<open>NoResultFound\<close> is
  what SQLAlchemy's \<open>one()\<close> raises on an empty result and
  \<open>MultipleResultsFound\<close> on several rows; \<open>SparkJobError\<close> stands for what Spark raises in the driver when
  a task of a job failed, which is no \<open>ValueError\<close> whatever the task raised. The remaining ones are classes of the
  repository. Messages are not part of an exception's identity here.
\<close>

datatype py_error =
    ValueError
  | TypeError
  | OverflowError
  | InvalidOperation
  | KeyError
  | IntegrityError
  | DataError
  | NoResultFound
  | MultipleResultsFound
  | StateTransitionError
  | StaleSourcePlanError
  | RuntimeError
  | OSError
  | FileNotFoundError
  | AssertionError
  | MutationConflict
  | ReplayConflict
  | CompletionConflict
  | SourcePlanningError
  | SourceConfigurationError
  | SourceContractError
  | SourceLineageError
  | SourceBaselineError
  | SourceSnapshotBlockedError int string
  | AnalysisException
  | IllegalArgumentException
  | SparkJobError
  | StopIteration
  | AttributeError
  | ZeroDivisionError
  | IndexError

type_synonym 'a result = "py_error + 'a"

named_theorems result_simps \<open>inversion rules for results\<close>
named_theorems table_simps \<open>facts about table operations\<close>

definition rbind :: "'a result \<Rightarrow> ('a \<Rightarrow> 'b result) \<Rightarrow> 'b result" where
  "rbind m f = (case m of Inl e \<Rightarrow> Inl e | Inr x \<Rightarrow> f x)"

definition ensure :: "bool \<Rightarrow> py_error \<Rightarrow> unit result" where
  "ensure b e = (if b then Inr () else Inl e)"

fun rmap :: "('a \<Rightarrow> 'b result) \<Rightarrow> 'a list \<Rightarrow> 'b list result" where
  "rmap f [] = Inr []"
| "rmap f (x # xs) = rbind (f x) (\<lambda>y. rbind (rmap f xs) (\<lambda>ys. Inr (y # ys)))"

fun rfold :: "('a \<Rightarrow> 's \<Rightarrow> 's result) \<Rightarrow> 'a list \<Rightarrow> 's \<Rightarrow> 's result" where
  "rfold f [] s = Inr s"
| "rfold f (x # xs) s = rbind (f x s) (rfold f xs)"

lemma rbind_simps [simp]: "rbind (Inl e) f = Inl e" "rbind (Inr x) f = f x"
  by (simp_all add: rbind_def)

lemma rbind_Inr_iff [result_simps]: "rbind m f = Inr y \<longleftrightarrow> (\<exists>x. m = Inr x \<and> f x = Inr y)"
  by (cases m) auto

lemma rbind_Inl_iff:
  "rbind m f = Inl e \<longleftrightarrow> m = Inl e \<or> (\<exists>x. m = Inr x \<and> f x = Inl e)"
  by (cases m) auto

lemma ensure_simps [simp]: "ensure True e = Inr ()" "ensure False e = Inl e"
  by (simp_all add: ensure_def)

lemma ensure_Inr_iff [result_simps]: "ensure b e = Inr u \<longleftrightarrow> b"
  by (simp add: ensure_def)

lemma ensure_Inl_iff: "ensure b e = Inl e' \<longleftrightarrow> \<not> b \<and> e' = e"
  by (auto simp: ensure_def)

lemma rmap_Inr_iff: "rmap f xs = Inr ys \<longleftrightarrow> list_all2 (\<lambda>x y. f x = Inr y) xs ys"
proof (induction xs arbitrary: ys)
  case Nil
  then show ?case by auto
next
  case (Cons x xs)
  then show ?case by (cases ys) (auto simp: rbind_Inr_iff)
qed

lemma rmap_Inr_mem: "rmap f xs = Inr ys \<Longrightarrow> y \<in> set ys \<Longrightarrow> \<exists>x\<in>set xs. f x = Inr y"
  by (induction xs arbitrary: ys) (auto simp: rbind_Inr_iff)

lemma rfold_append: "rfold f (xs @ ys) s = rbind (rfold f xs s) (rfold f ys)"
proof (induction xs arbitrary: s)
  case Nil
  then show ?case by simp
next
  case (Cons x xs)
  then show ?case by (cases "f x s") simp_all
qed

lemma rfold_invariant:
  assumes "rfold f xs s = Inr s'" and "P s"
    and "\<And>x t t'. x \<in> set xs \<Longrightarrow> P t \<Longrightarrow> f x t = Inr t' \<Longrightarrow> P t'"
  shows "P s'"
  using assms
proof (induction xs arbitrary: s)
  case Nil
  then show ?case by simp
next
  case (Cons x xs)
  from Cons.prems(1) obtain t where t: "f x s = Inr t" "rfold f xs t = Inr s'"
    by (auto simp: rbind_Inr_iff)
  show ?case
  proof (rule Cons.IH [OF t(2)])
    show "P t" using Cons.prems(2) t(1) by (rule Cons.prems(3) [rotated]) simp
  qed (use Cons.prems(3) in auto)
qed

section \<open>Tables\<close>

text \<open>
  A table is the list of its rows. \<open>update_where\<close> is \<open>UPDATE \<dots> WHERE\<close>,
  \<open>count_where\<close> its row count, \<open>exists_where\<close> is \<open>EXISTS (SELECT \<dots>)\<close>,
  \<open>delete_where\<close> is \<open>DELETE \<dots> WHERE\<close>, \<open>insert_new\<close> is
  \<open>INSERT \<dots> ON CONFLICT (key) DO NOTHING\<close>, and \<open>lookup_by\<close> reads the row of a
  primary key. \<open>unique_by\<close> is a uniqueness constraint over the rows a partial index covers.
\<close>

definition update_where :: "('r \<Rightarrow> bool) \<Rightarrow> ('r \<Rightarrow> 'r) \<Rightarrow> 'r list \<Rightarrow> 'r list" where
  "update_where p f t = map (\<lambda>r. if p r then f r else r) t"

definition count_where :: "('r \<Rightarrow> bool) \<Rightarrow> 'r list \<Rightarrow> nat" where
  "count_where p t = length (filter p t)"

definition exists_where :: "('r \<Rightarrow> bool) \<Rightarrow> 'r list \<Rightarrow> bool" where
  "exists_where p t = list_ex p t"

definition delete_where :: "('r \<Rightarrow> bool) \<Rightarrow> 'r list \<Rightarrow> 'r list" where
  "delete_where p t = filter (\<lambda>r. \<not> p r) t"

definition lookup_by :: "('r \<Rightarrow> 'k) \<Rightarrow> 'k \<Rightarrow> 'r list \<Rightarrow> 'r option" where
  "lookup_by key k t = find (\<lambda>r. key r = k) t"

definition insert_new :: "('r \<Rightarrow> 'k) \<Rightarrow> 'r \<Rightarrow> 'r list \<Rightarrow> 'r list" where
  "insert_new key r t = (if exists_where (\<lambda>x. key x = key r) t then t else t @ [r])"

definition unique_by :: "('r \<Rightarrow> bool) \<Rightarrow> ('r \<Rightarrow> 'k) \<Rightarrow> 'r list \<Rightarrow> bool" where
  "unique_by p key t = distinct (map key (filter p t))"

abbreviation unique_key :: "('r \<Rightarrow> 'k) \<Rightarrow> 'r list \<Rightarrow> bool" where
  "unique_key key t \<equiv> unique_by (\<lambda>_. True) key t"

lemma exists_where_iff [table_simps]: "exists_where p t \<longleftrightarrow> (\<exists>r\<in>set t. p r)"
  by (simp add: exists_where_def list_ex_iff)

lemma update_where_Nil [simp]: "update_where p f [] = []"
  by (simp add: update_where_def)

lemma update_where_append: "update_where p f (s @ t) = update_where p f s @ update_where p f t"
  by (simp add: update_where_def)

lemma set_update_where [table_simps]:
  "set (update_where p f t) = (\<lambda>r. if p r then f r else r) ` set t"
  by (simp add: update_where_def)

lemma length_update_where [simp]: "length (update_where p f t) = length t"
  by (simp add: update_where_def)

lemma update_where_none: "(\<And>r. r \<in> set t \<Longrightarrow> \<not> p r) \<Longrightarrow> update_where p f t = t"
  unfolding update_where_def by (induction t) auto

lemma map_update_where:
  "(\<And>r. r \<in> set t \<Longrightarrow> p r \<Longrightarrow> key (f r) = key r) \<Longrightarrow> map key (update_where p f t) = map key t"
  unfolding update_where_def by (induction t) auto

lemma set_delete_where [table_simps]: "set (delete_where p t) = {r \<in> set t. \<not> p r}"
  by (simp add: delete_where_def)

lemma count_where_0_iff: "count_where p t = 0 \<longleftrightarrow> (\<forall>r\<in>set t. \<not> p r)"
  by (simp add: count_where_def filter_empty_conv)

lemma unique_by_Cons:
  "unique_by p key (r # t) \<longleftrightarrow>
     (p r \<longrightarrow> (\<forall>x\<in>set t. p x \<longrightarrow> key x \<noteq> key r)) \<and> unique_by p key t"
  by (auto simp: unique_by_def image_iff)

lemma unique_by_append:
  "unique_by p key (s @ t) \<longleftrightarrow> unique_by p key s \<and> unique_by p key t \<and>
     (\<forall>x\<in>set s. \<forall>y\<in>set t. p x \<longrightarrow> p y \<longrightarrow> key x \<noteq> key y)"
  by (auto simp: unique_by_def)

lemma unique_byD:
  "unique_by p key t \<Longrightarrow> x \<in> set t \<Longrightarrow> y \<in> set t \<Longrightarrow> p x \<Longrightarrow> p y \<Longrightarrow> key x = key y \<Longrightarrow> x = y"
  by (induction t) (auto simp: unique_by_Cons)

lemma unique_by_filter: "unique_by p key t \<Longrightarrow> unique_by p key (filter q t)"
  by (induction t) (auto simp: unique_by_Cons)

lemma unique_by_subset:
  assumes "unique_by p key t" and "map key' t = map key' t'" and "distinct (map key' t)"
    and "\<And>x y. x \<in> set t \<Longrightarrow> y \<in> set t' \<Longrightarrow> key' x = key' y \<Longrightarrow> q y \<Longrightarrow> p x \<and> key x = keyq y"
  shows "unique_by q keyq t'"
  using assms
proof (induction t arbitrary: t')
  case Nil
  then show ?case by (simp add: unique_by_def)
next
  case (Cons r t)
  from Cons.prems(2) obtain r' u where t': "t' = r' # u" "key' r' = key' r" "map key' t = map key' u"
    by (cases t') auto
  have IH: "unique_by q keyq u"
  proof (rule Cons.IH [OF _ t'(3)])
    show "unique_by p key t" using Cons.prems(1) by (simp add: unique_by_Cons)
    show "distinct (map key' t)" using Cons.prems(3) by simp
    show "p x \<and> key x = keyq y" if "x \<in> set t" "y \<in> set u" "key' x = key' y" "q y" for x y
      using Cons.prems(4) [of x y] that t'(1) by simp
  qed
  have "keyq y \<noteq> keyq r'" if y: "y \<in> set u" "q y" "q r'" for y
  proof -
    from y(1) t'(3) obtain x where x: "x \<in> set t" "key' x = key' y"
      by (metis (no_types, lifting) image_iff list.set_map)
    have "p r \<and> key r = keyq r'" using Cons.prems(4) [of r r'] t' y(3) by simp
    moreover have "p x \<and> key x = keyq y" using Cons.prems(4) [of x y] t' x y(1,2) by simp
    ultimately show ?thesis using Cons.prems(1) x(1) by (auto simp: unique_by_Cons)
  qed
  with IH show ?case by (auto simp: t' unique_by_Cons)
qed

lemma lookup_by_Some_iff:
  assumes "unique_key key t"
  shows "lookup_by key k t = Some r \<longleftrightarrow> r \<in> set t \<and> key r = k"
proof
  assume "lookup_by key k t = Some r"
  then show "r \<in> set t \<and> key r = k"
    by (auto simp: lookup_by_def find_Some_iff)
next
  assume r: "r \<in> set t \<and> key r = k"
  then obtain r' where r': "lookup_by key k t = Some r'"
    by (cases "lookup_by key k t") (auto simp: lookup_by_def find_None_iff)
  then have "r' \<in> set t \<and> key r' = k"
    by (auto simp: lookup_by_def find_Some_iff)
  with r assms have "r' = r" by (auto dest: unique_byD)
  with r' show "lookup_by key k t = Some r" by simp
qed

lemma lookup_by_SomeD: "lookup_by key k t = Some r \<Longrightarrow> r \<in> set t \<and> key r = k"
  by (auto simp: lookup_by_def find_Some_iff)

lemma lookup_by_None_iff: "lookup_by key k t = None \<longleftrightarrow> (\<forall>r\<in>set t. key r \<noteq> k)"
  by (auto simp: lookup_by_def find_None_iff)

lemma lookup_by_update_where:
  assumes "\<And>r. r \<in> set t \<Longrightarrow> p r \<Longrightarrow> key (f r) = key r"
  shows "lookup_by key k (update_where p f t) =
    map_option (\<lambda>r. if p r then f r else r) (lookup_by key k t)"
  using assms by (induction t) (auto simp: update_where_def lookup_by_def)

lemma lookup_by_append:
  "lookup_by key k (s @ t) = (case lookup_by key k s of Some r \<Rightarrow> Some r | None \<Rightarrow> lookup_by key k t)"
  by (induction s) (auto simp: lookup_by_def)

lemma lookup_by_insert_new:
  "lookup_by key k (insert_new key r t) =
     (if k = key r \<and> lookup_by key k t = None then Some r else lookup_by key k t)"
proof (cases "lookup_by key (key r) t")
  case None
  then have "insert_new key r t = t @ [r]"
    by (auto simp: insert_new_def exists_where_iff lookup_by_None_iff)
  with None show ?thesis
    by (auto simp: lookup_by_append split: option.splits) (auto simp: lookup_by_def)
next
  case (Some x)
  then have "insert_new key r t = t"
    by (auto simp: insert_new_def exists_where_iff dest: lookup_by_SomeD)
  with Some show ?thesis by auto
qed

lemma unique_key_insert_new: "unique_key key t \<Longrightarrow> unique_key key (insert_new key r t)"
  by (auto simp: insert_new_def unique_by_append exists_where_iff unique_by_def)

lemma set_insert_new: "set (insert_new key r t) \<subseteq> insert r (set t)"
  by (auto simp: insert_new_def)

lemma insert_new_alt: "insert_new key r t = (if key r \<in> key ` set t then t else t @ [r])"
proof -
  have "exists_where (\<lambda>x. key x = key r) t \<longleftrightarrow> key r \<in> key ` set t"
    unfolding exists_where_iff by (metis image_iff)
  then show ?thesis by (simp add: insert_new_def)
qed

lemma insert_new_cases:
  assumes "x \<in> set (insert_new key r t)"
  obtains "x \<in> set t" | "x = r" "key r \<notin> key ` set t"
  using assms unfolding insert_new_alt by (auto split: if_splits)

lemma exists_where_update:
  "(\<And>r. q (f r) = q r) \<Longrightarrow> exists_where q (update_where p f t) = exists_where q t"
  by (auto simp: exists_where_iff update_where_def)

lemma image_update_where:
  assumes "\<And>r. r \<in> set t \<Longrightarrow> p r \<Longrightarrow> key (f r) = key r"
  shows "key ` set (update_where p f t) = key ` set t"
proof -
  have "map key (update_where p f t) = map key t" by (rule map_update_where) (rule assms)
  from arg_cong [OF this, of set] show ?thesis by simp
qed

lemma set_update_key:
  assumes "unique_key key t" and "r \<in> set t"
  shows "set (update_where (\<lambda>x. key x = key r) f t) = insert (f r) (set t - {r})"
proof -
  have only: "x = r" if "x \<in> set t" "key x = key r" for x
    using unique_byD [OF assms(1) that(1) assms(2)] that(2) by simp
  show ?thesis unfolding set_update_where
  proof (intro equalityI subsetI)
    fix y assume "y \<in> (\<lambda>x. if key x = key r then f x else x) ` set t"
    then obtain x where x: "x \<in> set t" "y = (if key x = key r then f x else x)" by auto
    show "y \<in> insert (f r) (set t - {r})"
      using x only [OF x(1)] by (cases "key x = key r") auto
  next
    fix y assume "y \<in> insert (f r) (set t - {r})"
    then consider "y = f r" | "y \<in> set t" "y \<noteq> r" by auto
    then show "y \<in> (\<lambda>x. if key x = key r then f x else x) ` set t"
    proof cases
      case 1
      with assms(2) show ?thesis by (intro image_eqI [of _ _ r]) auto
    next
      case 2
      with only show ?thesis by (intro image_eqI [of _ _ y]) auto
    qed
  qed
qed

section \<open>Dictionaries\<close>

text \<open>
  A Python dictionary built from a sequence of pairs: a later pair replaces an earlier one with the
  same key. \<open>dict_eq\<close> is the comparison of two such dictionaries.
\<close>

definition dict_get :: "('k \<times> 'v) list \<Rightarrow> 'k \<Rightarrow> 'v option" where
  "dict_get ps = map_of (rev ps)"

definition dict_eq :: "('k \<times> 'v) list \<Rightarrow> ('k \<times> 'v) list \<Rightarrow> bool" where
  "dict_eq ps qs = list_all (\<lambda>k. dict_get ps k = dict_get qs k) (map fst ps @ map fst qs)"

lemma dict_get_None_iff: "dict_get ps k = None \<longleftrightarrow> k \<notin> fst ` set ps"
  by (simp add: dict_get_def map_of_eq_None_iff)

lemma dict_eq_iff: "dict_eq ps qs \<longleftrightarrow> dict_get ps = dict_get qs"
proof
  assume eq: "dict_eq ps qs"
  show "dict_get ps = dict_get qs"
  proof
    fix k
    show "dict_get ps k = dict_get qs k"
    proof (cases "k \<in> set (map fst ps @ map fst qs)")
      case True
      with eq show ?thesis by (simp add: dict_eq_def list_all_iff)
    next
      case False
      then have "dict_get ps k = None" "dict_get qs k = None" by (auto simp: dict_get_None_iff)
      then show ?thesis by simp
    qed
  qed
qed (simp add: dict_eq_def list_all_iff)

lemma dict_get_distinct: "distinct (map fst ps) \<Longrightarrow> dict_get ps = map_of ps"
  by (simp add: dict_get_def map_of_inject_set rev_map [symmetric])

lemma append_sep_eq:
  assumes "a @ c # x = b @ c # y" and "c \<notin> set a" and "c \<notin> set b"
  shows "a = b \<and> x = y"
  using assms
proof (induction a arbitrary: b)
  case Nil
  then show ?case by (cases b) auto
next
  case (Cons h a)
  then show ?case by (cases b) auto
qed

end
