(* ===== verification/Pytext.thy ===== *)
theory Pytext
  imports Prelude
begin

text \<open>
  The parts of Python's \<open>str\<close>, \<open>int\<close>, \<open>bytes\<close> and \<open>uuid\<close> that the modelled code
  uses. A Python string is a \<open>string\<close> whose characters are the code points U+0000 to U+00FF:
  white space, case mapping, \<open>int()\<close> parsing and UTF-8 encoding are exact on that range, and
  strings with other code points are outside the model. A UUID is its 128-bit integer.
\<close>

type_synonym byte = "8 word"
type_synonym bytes = "8 word list"
type_synonym uuid = "128 word"

abbreviation code :: "char \<Rightarrow> nat" where
  "code c \<equiv> of_char c"

section \<open>Strings\<close>

definition is_space :: "char \<Rightarrow> bool" where
  "is_space c = (code c \<in> {9, 10, 11, 12, 13, 28, 29, 30, 31, 32, 133, 160})"

definition strip_where :: "(char \<Rightarrow> bool) \<Rightarrow> string \<Rightarrow> string" where
  "strip_where p s = rev (dropWhile p (rev (dropWhile p s)))"

definition py_strip :: "string \<Rightarrow> string" where
  "py_strip s = strip_where is_space s"

definition rstrip_char :: "char \<Rightarrow> string \<Rightarrow> string" where
  "rstrip_char c s = rev (dropWhile (\<lambda>x. x = c) (rev s))"

definition lower_char :: "char \<Rightarrow> char" where
  "lower_char c =
     (if 65 \<le> code c \<and> code c \<le> 90 \<or> 192 \<le> code c \<and> code c \<le> 222 \<and> code c \<noteq> 215
      then char_of (code c + 32) else c)"

definition py_lower :: "string \<Rightarrow> string" where
  "py_lower s = map lower_char s"

definition is_blank :: "string \<Rightarrow> bool" where
  "is_blank s = (py_strip s = [])"

fun has_prefix :: "string \<Rightarrow> string \<Rightarrow> bool" where
  "has_prefix [] s = True"
| "has_prefix (p # ps) [] = False"
| "has_prefix (p # ps) (c # s) = (p = c \<and> has_prefix ps s)"

definition has_suffix :: "string \<Rightarrow> string \<Rightarrow> bool" where
  "has_suffix p s = has_prefix (rev p) (rev s)"

function remove_all :: "string \<Rightarrow> string \<Rightarrow> string" where
  "remove_all p [] = []"
| "remove_all p (c # s) =
     (if p \<noteq> [] \<and> has_prefix p (c # s) then remove_all p (drop (length p) (c # s))
      else c # remove_all p s)"
  by pat_completeness auto
termination
  by (relation "measure (\<lambda>(p, s). length s)") auto

fun split_on :: "char \<Rightarrow> string \<Rightarrow> string list" where
  "split_on d [] = [[]]"
| "split_on d (c # s) =
     (if c = d then [] # split_on d s
      else (case split_on d s of [] \<Rightarrow> [[c]] | p # ps \<Rightarrow> (c # p) # ps))"

fun join_with :: "char \<Rightarrow> string list \<Rightarrow> string" where
  "join_with d [] = []"
| "join_with d [p] = p"
| "join_with d (p # ps) = p @ d # join_with d ps"

section \<open>Integers as text\<close>

definition digit_char :: "nat \<Rightarrow> char" where
  "digit_char n = ''0123456789abcdef'' ! n"

fun show_nat :: "nat \<Rightarrow> string" where
  "show_nat n = (if n < 10 then [digit_char n] else show_nat (n div 10) @ [digit_char (n mod 10)])"

declare show_nat.simps [simp del]

definition show_int :: "int \<Rightarrow> string" where
  "show_int i = (if i < 0 then CHR ''-'' # show_nat (nat (- i)) else show_nat (nat i))"

definition digit_value :: "char \<Rightarrow> nat option" where
  "digit_value c =
     (if 48 \<le> code c \<and> code c \<le> 57 then Some (code c - 48)
      else if 97 \<le> code c \<and> code c \<le> 122 then Some (code c - 87)
      else if 65 \<le> code c \<and> code c \<le> 90 then Some (code c - 55)
      else None)"

text \<open>\<open>digits_value b prev acc s\<close> reads digits in base \<open>b\<close>; single underscores may separate them.\<close>

fun digits_value :: "nat \<Rightarrow> bool \<Rightarrow> nat \<Rightarrow> string \<Rightarrow> nat option" where
  "digits_value b prev acc [] = (if prev then Some acc else None)"
| "digits_value b prev acc (c # s) =
     (if c = CHR ''_'' then (if prev then digits_value b False acc s else None)
      else (case digit_value c of
              None \<Rightarrow> None
            | Some d \<Rightarrow> if d < b then digits_value b True (acc * b + d) s else None))"

definition int_space :: "char \<Rightarrow> bool" where
  "int_space c = (code c \<in> {9, 10, 11, 12, 13, 32, 133, 160})"

definition unsigned_body :: "nat \<Rightarrow> string \<Rightarrow> string" where
  "unsigned_body b s =
     (if b = 16 \<and> (has_prefix ''0x'' s \<or> has_prefix ''0X'' s)
      then (let r = drop 2 s in if has_prefix ''_'' r then drop 1 r else r)
      else s)"

text \<open>\<open>int(s, b)\<close>; \<open>None\<close> is the \<open>ValueError\<close>. Base ten refuses more than 4300 digits.\<close>

definition py_int :: "nat \<Rightarrow> string \<Rightarrow> int option" where
  "py_int b s =
     (let t = strip_where int_space s;
          neg = has_prefix ''-'' t;
          u = (if neg \<or> has_prefix ''+'' t then drop 1 t else t);
          d = unsigned_body b u
      in if b = 10 \<and> 4300 < length (filter (\<lambda>c. c \<noteq> CHR ''_'') d) then None
         else map_option (\<lambda>n. if neg then - int n else int n) (digits_value b False 0 d))"

section \<open>Bytes\<close>

definition utf8_char :: "char \<Rightarrow> bytes" where
  "utf8_char c =
     (if code c < 128 then [of_nat (code c)]
      else [of_nat (192 + code c div 64), of_nat (128 + code c mod 64)])"

definition utf8 :: "string \<Rightarrow> bytes" where
  "utf8 s = concat (map utf8_char s)"

text \<open>\<open>be_bytes k n\<close> is the \<open>k\<close>-byte big-endian encoding of \<open>n\<close>.\<close>

fun be_bytes :: "nat \<Rightarrow> nat \<Rightarrow> bytes" where
  "be_bytes 0 n = []"
| "be_bytes (Suc k) n = be_bytes k (n div 256) @ [of_nat (n mod 256)]"

fun be_value :: "bytes \<Rightarrow> nat" where
  "be_value [] = 0"
| "be_value (b # bs) = unat b * 256 ^ length bs + be_value bs"

text \<open>\<open>bytes.hex()\<close> and \<open>bytes.fromhex\<close> (which skips ASCII white space between bytes).\<close>

definition hex_of_bytes :: "bytes \<Rightarrow> string" where
  "hex_of_bytes bs = concat (map (\<lambda>b. [digit_char (unat b div 16), digit_char (unat b mod 16)]) bs)"

definition hex_value :: "char \<Rightarrow> nat option" where
  "hex_value c = (case digit_value c of Some d \<Rightarrow> if d < 16 then Some d else None | None \<Rightarrow> None)"

fun bytes_fromhex :: "string \<Rightarrow> bytes option" where
  "bytes_fromhex [] = Some []"
| "bytes_fromhex (c # s) =
     (if code c \<in> {9, 10, 11, 12, 13, 32} then bytes_fromhex s
      else (case s of
              [] \<Rightarrow> None
            | d # s' \<Rightarrow>
                (case (hex_value c, hex_value d) of
                   (Some x, Some y) \<Rightarrow> map_option ((#) (of_nat (16 * x + y))) (bytes_fromhex s')
                 | _ \<Rightarrow> None)))"

section \<open>UUIDs\<close>

fun hex_pad :: "nat \<Rightarrow> nat \<Rightarrow> string" where
  "hex_pad 0 n = []"
| "hex_pad (Suc k) n = hex_pad k (n div 16) @ [digit_char (n mod 16)]"

text \<open>\<open>str(u)\<close>.\<close>

definition uuid_str :: "uuid \<Rightarrow> string" where
  "uuid_str u =
     (let h = hex_pad 32 (unat u)
      in take 8 h @ ''-'' @ take 4 (drop 8 h) @ ''-'' @ take 4 (drop 12 h) @ ''-'' @
         take 4 (drop 16 h) @ ''-'' @ drop 20 h)"

text \<open>\<open>uuid.UUID(s)\<close>.\<close>

definition uuid_parse :: "string \<Rightarrow> uuid result" where
  "uuid_parse s =
     (let h = remove_all ''uuid:'' (remove_all ''urn:'' s);
          h = filter (\<lambda>c. c \<noteq> CHR ''-'') (strip_where (\<lambda>c. c = CHR ''{'' \<or> c = CHR ''}'') h)
      in if length h \<noteq> 32 then Inl ValueError
         else (case py_int 16 h of
                 None \<Rightarrow> Inl ValueError
               | Some i \<Rightarrow> if 0 \<le> i \<and> i < 2 ^ 128 then Inr (word_of_int i) else Inl ValueError))"

text \<open>
  \<open>uuid.uuid5(ns, name)\<close>: the first 16 bytes of the SHA-1 of the namespace bytes and the UTF-8
  name, with the variant and version bits set. SHA-1 itself (OpenSSL, through \<open>hashlib\<close>) is the
  parameter \<open>sha1\<close>.
\<close>

unbundle bit_operations_syntax

definition uuid5 :: "(bytes \<Rightarrow> bytes) \<Rightarrow> uuid \<Rightarrow> string \<Rightarrow> uuid" where
  "uuid5 sha1 ns name =
     (let h = take 16 (sha1 (be_bytes 16 (unat ns) @ utf8 name));
          i = (word_of_nat (be_value h) :: uuid);
          i = (i AND NOT (push_bit 48 0xC000)) OR push_bit 48 0x8000;
          i = (i AND NOT (push_bit 64 0xF000)) OR push_bit 76 5
      in i)"

section \<open>Facts about text\<close>

lemma digit_char_code_all:
  "\<forall>n < 16. code (digit_char n) = (if n < 10 then 48 + n else 87 + n)"
  by code_simp

lemma digit_char_code:
  "n < 16 \<Longrightarrow> code (digit_char n) = (if n < 10 then 48 + n else 87 + n)"
  using digit_char_code_all by blast

lemma digit_char_inj: "m < 16 \<Longrightarrow> n < 16 \<Longrightarrow> digit_char m = digit_char n \<longleftrightarrow> m = n"
proof
  assume "m < 16" "n < 16" and eq: "digit_char m = digit_char n"
  have "code (digit_char m) = code (digit_char n)" by (simp only: eq)
  then show "m = n"
    using \<open>m < 16\<close> \<open>n < 16\<close> by (simp add: digit_char_code split: if_splits)
qed simp

lemma digit_value_digit_char [simp]: "n < 16 \<Longrightarrow> digit_value (digit_char n) = Some n"
  by (auto simp: digit_value_def digit_char_code)

lemma digit_char_neq:
  "n < 16 \<Longrightarrow> code c < 48 \<or> 57 < code c \<and> code c < 97 \<or> 102 < code c \<Longrightarrow> digit_char n \<noteq> c"
  by (auto simp: digit_char_code split: if_splits)

subsection \<open>Decimal text\<close>

lemma show_nat_nonempty [simp]: "show_nat n \<noteq> []"
  by (subst show_nat.simps) simp

lemma set_show_nat: "c \<in> set (show_nat n) \<Longrightarrow> 48 \<le> code c \<and> code c \<le> 57"
proof (induction n rule: show_nat.induct)
  case (1 n)
  show ?case
  proof (cases "n < 10")
    case True
    with "1.prems" show ?thesis by (auto simp: show_nat.simps [of n] digit_char_code)
  next
    case False
    have "n mod 10 < 10" by simp
    then show ?thesis
      using False 1 by (auto simp: show_nat.simps [of n] digit_char_code)
  qed
qed

lemma show_nat_inj: "show_nat m = show_nat n \<Longrightarrow> m = n"
proof (induction m arbitrary: n rule: show_nat.induct)
  case (1 m)
  have small: "x < 10 \<Longrightarrow> y < 10 \<Longrightarrow> digit_char x = digit_char y \<Longrightarrow> x = y" for x y
    by (simp add: digit_char_inj)
  show ?case
  proof (cases "m < 10"; cases "n < 10")
    assume "\<not> m < 10" "\<not> n < 10"
    with "1.prems" have "show_nat (m div 10) = show_nat (n div 10)"
      and "m mod 10 = n mod 10"
      by (auto simp: show_nat.simps [of m] show_nat.simps [of n] small)
    with "1.IH" [OF \<open>\<not> m < 10\<close>] show ?thesis by (metis div_mult_mod_eq)
  next
    assume "m < 10" "\<not> n < 10"
    with "1.prems" have "length (show_nat (n div 10)) = 0"
      by (simp add: show_nat.simps [of m] show_nat.simps [of n])
    then show ?thesis by simp
  next
    assume "\<not> m < 10" "n < 10"
    with "1.prems" have "length (show_nat (m div 10)) = 0"
      by (simp add: show_nat.simps [of m] show_nat.simps [of n])
    then show ?thesis by simp
  next
    assume "m < 10" "n < 10"
    with "1.prems" small show ?thesis by (simp add: show_nat.simps [of m] show_nat.simps [of n])
  qed
qed

lemma show_nat_eq_iff [simp]: "show_nat m = show_nat n \<longleftrightarrow> m = n"
  using show_nat_inj by blast

lemma minus_notin_show_nat: "CHR ''-'' \<notin> set (show_nat n)"
  using set_show_nat by fastforce

lemma show_int_inj [simp]: "show_int i = show_int j \<longleftrightarrow> i = j"
proof
  assume eq: "show_int i = show_int j"
  have neq: "CHR ''-'' # s \<noteq> show_nat n" for s n
    using minus_notin_show_nat [of n] by (metis list.set_intros(1))
  from eq show "i = j"
    using neq neq [symmetric] by (auto simp: show_int_def split: if_splits)
qed simp

lemma set_show_int: "c \<in> set (show_int i) \<Longrightarrow> c = CHR ''-'' \<or> 48 \<le> code c \<and> code c \<le> 57"
  using set_show_nat by (auto simp: show_int_def split: if_splits)

lemma digits_value_append:
  "s \<noteq> [] \<Longrightarrow> \<forall>c\<in>set s. c \<noteq> CHR ''_'' \<Longrightarrow>
   digits_value b prev acc (s @ t) =
     (case digits_value b prev acc s of None \<Rightarrow> None | Some n \<Rightarrow> digits_value b True n t)"
proof (induction s arbitrary: prev acc)
  case Nil
  then show ?case by simp
next
  case (Cons c s)
  then show ?case by (cases s) (auto split: option.splits)
qed

lemma digits_value_show_nat: "digits_value 10 False 0 (show_nat n) = Some n"
proof (induction n rule: show_nat.induct)
  case (1 n)
  have us: "x < 10 \<Longrightarrow> digit_char x \<noteq> CHR ''_''" for x
    by (rule digit_char_neq) auto
  show ?case
  proof (cases "n < 10")
    case True
    then show ?thesis using us [of n] by (simp add: show_nat.simps [of n])
  next
    case False
    have nu: "\<forall>c\<in>set (show_nat (n div 10)). c \<noteq> CHR ''_''"
      using set_show_nat by fastforce
    have "n mod 10 < 10" by simp
    with False us [of "n mod 10"] show ?thesis
      by (simp add: show_nat.simps [of n] digits_value_append [OF _ nu] 1)
  qed
qed

lemma dropWhile_none: "(\<forall>c\<in>set s. \<not> p c) \<Longrightarrow> dropWhile p s = s"
  by (cases s) auto

lemma strip_where_none: "(\<forall>c\<in>set s. \<not> p c) \<Longrightarrow> strip_where p s = s"
  by (simp add: strip_where_def dropWhile_none)

lemma show_int_no_space: "strip_where int_space (show_int i) = show_int i"
proof (rule strip_where_none, rule ballI)
  fix c assume "c \<in> set (show_int i)"
  then have "c = CHR ''-'' \<or> 48 \<le> code c \<and> code c \<le> 57" by (rule set_show_int)
  then show "\<not> int_space c" by (auto simp: int_space_def)
qed

lemma has_prefix_iff: "has_prefix p s \<longleftrightarrow> (\<exists>t. s = p @ t)"
  by (induction p s rule: has_prefix.induct) auto

lemma py_int_show_nat_limit:
  "py_int 10 (show_nat n) = (if 4300 < length (show_nat n) then None else Some (int n))"
proof -
  have sp: "strip_where int_space (show_nat n) = show_nat n"
    using show_int_no_space [of "int n"] by (simp add: show_int_def)
  have hd: "\<not> has_prefix [c] (show_nat n)" if "c = CHR ''-'' \<or> c = CHR ''+''" for c
    using set_show_nat [of c n] that by (fastforce simp: has_prefix_iff)
  have "filter (\<lambda>c. c \<noteq> CHR ''_'') (show_nat n) = show_nat n"
    using set_show_nat by (fastforce intro: filter_True)
  then show ?thesis
    by (simp add: py_int_def sp hd unsigned_body_def digits_value_show_nat Let_def)
qed

lemma py_int_show_nat: "length (show_nat n) \<le> 4300 \<Longrightarrow> py_int 10 (show_nat n) = Some (int n)"
  by (simp add: py_int_show_nat_limit)

text \<open>Decimal digits without a leading zero are the text of their value.\<close>

lemma show_nat_of_digits:
  "g \<noteq> [] \<Longrightarrow> hd g \<in> set ''123456789'' \<Longrightarrow> list_all (\<lambda>c. c \<in> set ''0123456789'') g \<Longrightarrow> \<exists>n>0. show_nat n = g"
proof (induction g rule: rev_induct)
  case (snoc c g)
  have "c \<in> set ''0123456789''" using snoc.prems(3) by simp
  then have "c \<in> digit_char ` {0..<10}" unfolding digit_char_def by (simp add: atLeast0_lessThan_Suc numeral_eq_Suc) auto
  then obtain d where d: "d < 10" "c = digit_char d" by auto
  show ?case
  proof (cases "g = []")
    case True
    have "digit_char 0 \<notin> set ''123456789''" by (simp add: digit_char_def)
    moreover have "digit_char d \<in> set ''123456789''" using snoc.prems(2) unfolding d(2) True by simp
    ultimately have "d \<noteq> 0" by metis
    with d True show ?thesis by (intro exI [of _ d]) (simp add: show_nat.simps [of d])
  next
    case False
    with snoc obtain m where m: "m > 0" "show_nat m = g" by auto
    with d have "show_nat (10 * m + d) = g @ [c]" by (subst show_nat.simps) simp
    with m show ?thesis by (intro exI [of _ "10 * m + d"]) simp
  qed
qed simp

lemma strip_where_Nil_iff: "strip_where p s = [] \<longleftrightarrow> (\<forall>c\<in>set s. p c)"
proof
  assume "strip_where p s = []"
  then have "\<forall>c\<in>set (dropWhile p s). p c" by (simp add: strip_where_def dropWhile_eq_Nil_conv)
  then have "dropWhile p s = []" by (metis hd_dropWhile list.set_sel(1))
  then show "\<forall>c\<in>set s. p c" by (simp add: dropWhile_eq_Nil_conv)
qed (auto simp: strip_where_def dropWhile_eq_Nil_conv dest: set_dropWhileD)

subsection \<open>Bytes\<close>

lemma length_be_bytes [simp]: "length (be_bytes k n) = k"
  by (induction k arbitrary: n) auto

lemma be_value_append: "be_value (xs @ ys) = be_value xs * 256 ^ length ys + be_value ys"
  by (induction xs) (auto simp: algebra_simps power_add)

lemma unat_of_nat_byte: "unat (of_nat m :: byte) = m mod 256"
  by (simp add: unat_of_nat)

lemma be_value_be_bytes: "be_value (be_bytes k n) = n mod 256 ^ k"
proof (induction k arbitrary: n)
  case 0
  then show ?case by simp
next
  case (Suc k)
  have "be_value (be_bytes (Suc k) n) = (n div 256) mod 256 ^ k * 256 + n mod 256"
    by (simp add: be_value_append Suc unat_of_nat_byte)
  also have "\<dots> = n mod 256 ^ Suc k"
    by (simp add: mod_mult2_eq mult.commute)
  finally show ?case .
qed

lemma be_bytes_inj: "m < 256 ^ k \<Longrightarrow> n < 256 ^ k \<Longrightarrow> be_bytes k m = be_bytes k n \<Longrightarrow> m = n"
  by (metis be_value_be_bytes mod_less)

lemma utf8_char_cases:
  obtains "code c < 128" "utf8_char c = [of_nat (code c)]"
  | "128 \<le> code c" "utf8_char c = [of_nat (192 + code c div 64), of_nat (128 + code c mod 64)]"
  by (cases "code c < 128") (simp_all add: utf8_char_def)

lemma utf8_char_nonempty [simp]: "utf8_char c \<noteq> []"
  by (simp add: utf8_char_def)

lemma utf8_char_prefix_free: "utf8_char c @ xs = utf8_char d @ ys \<Longrightarrow> c = d \<and> xs = ys"
proof -
  assume eq: "utf8_char c @ xs = utf8_char d @ ys"
  have c: "code c < 256" and d: "code d < 256"
    using of_char_mod_256 [of c] of_char_mod_256 [of d] by (metis mod_less_divisor zero_less_numeral)+
  have w: "(of_nat m :: byte) = of_nat n \<Longrightarrow> m < 256 \<Longrightarrow> n < 256 \<Longrightarrow> m = n" for m n
    by (metis unat_of_nat_byte mod_less)
  have dm: "x div 64 = y div 64 \<Longrightarrow> x mod 64 = y mod 64 \<Longrightarrow> x = y" for x y :: nat
    by (metis div_mult_mod_eq)
  show ?thesis
  proof (cases c rule: utf8_char_cases; cases d rule: utf8_char_cases)
    assume "utf8_char c = [of_nat (code c)]" "utf8_char d = [of_nat (code d)]"
    with eq have "(of_nat (code c) :: byte) = of_nat (code d)" "xs = ys" by simp_all
    with w [OF this(1) c d] show ?thesis by simp
  next
    assume a: "code c < 128" "utf8_char c = [of_nat (code c)]"
      "utf8_char d = [of_nat (192 + code d div 64), of_nat (128 + code d mod 64)]"
    with eq have "(of_nat (code c) :: byte) = of_nat (192 + code d div 64)" by simp
    with w [OF this] a(1) d have False by (simp add: div_less_iff_less_mult)
    then show ?thesis ..
  next
    assume a: "utf8_char c = [of_nat (192 + code c div 64), of_nat (128 + code c mod 64)]"
      "code d < 128" "utf8_char d = [of_nat (code d)]"
    with eq have "(of_nat (192 + code c div 64) :: byte) = of_nat (code d)" by simp
    with w [OF this] a(2) c have False by (simp add: div_less_iff_less_mult)
    then show ?thesis ..
  next
    assume "utf8_char c = [of_nat (192 + code c div 64), of_nat (128 + code c mod 64)]"
      and "utf8_char d = [of_nat (192 + code d div 64), of_nat (128 + code d mod 64)]"
    with eq have "(of_nat (192 + code c div 64) :: byte) = of_nat (192 + code d div 64)"
      "(of_nat (128 + code c mod 64) :: byte) = of_nat (128 + code d mod 64)" "xs = ys"
      by (simp_all only: append_Cons append_Nil list.inject)
    moreover have "code c div 64 < 64" "code d div 64 < 64" "code c mod 64 < 64" "code d mod 64 < 64"
      using c d by (simp_all add: div_less_iff_less_mult less_trans [of _ 256])
    ultimately show ?thesis
      using w [of "192 + code c div 64" "192 + code d div 64"]
        w [of "128 + code c mod 64" "128 + code d mod 64"] dm [of "code c" "code d"]
      by simp
  qed
qed

lemma utf8_inj [simp]: "utf8 s = utf8 t \<longleftrightarrow> s = t"
proof
  show "utf8 s = utf8 t \<Longrightarrow> s = t"
  proof (induction s arbitrary: t)
    case Nil
    then show ?case by (cases t) (auto simp: utf8_def)
  next
    case (Cons c s)
    then obtain d u where t: "t = d # u" by (cases t) (auto simp: utf8_def)
    with Cons.prems have "c = d \<and> utf8 s = utf8 u"
      by (auto simp: utf8_def dest: utf8_char_prefix_free)
    with Cons.IH t show ?case by simp
  qed
qed simp

lemma bytes_fromhex_hex: "bytes_fromhex (hex_of_bytes bs) = Some bs"
proof (induction bs)
  case Nil
  then show ?case by (simp add: hex_of_bytes_def)
next
  case (Cons b bs)
  have b: "unat b < 256" using unsigned_less [where ?'a = nat, of b] by simp
  then have lt: "unat b div 16 < 16" "unat b mod 16 < 16" by auto
  have ns: "code (digit_char (unat b div 16)) \<notin> {9, 10, 11, 12, 13, 32}"
    using digit_char_code [OF lt(1)] by auto
  have hv: "hex_value (digit_char n) = Some n" if "n < 16" for n
    using that by (simp add: hex_value_def)
  have "(of_nat (16 * (unat b div 16) + unat b mod 16) :: byte) = b" by simp
  with Cons ns hv lt show ?case by (simp add: hex_of_bytes_def)
qed

subsection \<open>UUID text\<close>

lemma length_hex_pad [simp]: "length (hex_pad k n) = k"
  by (induction k arbitrary: n) auto

lemma set_hex_pad: "c \<in> set (hex_pad k n) \<Longrightarrow> \<exists>d < 16. c = digit_char d"
proof (induction k arbitrary: n)
  case (Suc k)
  have "n mod 16 < 16" by simp
  with Suc.IH Suc.prems show ?case by (metis Un_iff empty_iff empty_set hex_pad.simps(2) set_ConsD set_append)
qed simp

lemma hex_pad_plain:
  assumes "c \<in> set (hex_pad k n)"
  shows "c \<noteq> CHR ''_'' \<and> c \<noteq> CHR ''-'' \<and> c \<noteq> CHR ''u'' \<and> c \<noteq> CHR ''{'' \<and> c \<noteq> CHR ''}'' \<and>
    c \<noteq> CHR ''x'' \<and> c \<noteq> CHR ''X'' \<and> c \<noteq> CHR ''+'' \<and> c \<noteq> CHR ''/'' \<and> \<not> int_space c"
proof -
  from set_hex_pad [OF assms] obtain d where d: "d < 16" "c = digit_char d" by blast
  then have "48 \<le> code c \<and> code c \<le> 57 \<or> 97 \<le> code c \<and> code c \<le> 102"
    using digit_char_code [OF d(1)] by (auto split: if_splits)
  then show ?thesis by (auto simp: int_space_def)
qed

lemma digits_value_hex_pad:
  "0 < k \<Longrightarrow> digits_value 16 False 0 (hex_pad k n) = Some (n mod 16 ^ k)"
proof (induction k arbitrary: n)
  case 0
  then show ?case by simp
next
  case (Suc k)
  have lt: "n mod 16 < 16" by simp
  have us: "digit_char (n mod 16) \<noteq> CHR ''_''" by (rule digit_char_neq) auto
  show ?case
  proof (cases "k = 0")
    case True
    with lt us show ?thesis by simp
  next
    case False
    then have ne: "hex_pad k (n div 16) \<noteq> []" by (metis length_hex_pad list.size(3))
    have nu: "\<forall>c\<in>set (hex_pad k (n div 16)). c \<noteq> CHR ''_''" using hex_pad_plain by blast
    from False Suc.IH [of "n div 16"]
    have "digits_value 16 False 0 (hex_pad (Suc k) n) = Some ((n div 16 mod 16 ^ k) * 16 + n mod 16)"
      using us lt by (simp add: digits_value_append [OF ne nu])
    also have "(n div 16 mod 16 ^ k) * 16 + n mod 16 = n mod 16 ^ Suc k"
      by (simp add: mod_mult2_eq mult.commute)
    finally show ?thesis .
  qed
qed

lemma remove_all_absent:
  "c \<in> set p \<Longrightarrow> c \<notin> set s \<Longrightarrow> remove_all p s = s"
proof (induction p s rule: remove_all.induct)
  case (1 p)
  then show ?case by simp
next
  case (2 p d s)
  have "\<not> has_prefix p (d # s)"
  proof
    assume "has_prefix p (d # s)"
    then obtain t where "d # s = p @ t" by (auto simp: has_prefix_iff)
    then have "set p \<subseteq> set (d # s)" by simp
    with 2 show False by blast
  qed
  with 2 show ?case by auto
qed

lemma set_uuid_str: "c \<in> set (uuid_str u) \<Longrightarrow> c = CHR ''-'' \<or> c \<in> set (hex_pad 32 (unat u))"
  by (auto simp: uuid_str_def Let_def dest: in_set_takeD in_set_dropD)

lemma uuid_str_plain:
  assumes "c \<in> set (uuid_str u)"
  shows "c \<noteq> CHR ''u'' \<and> c \<noteq> CHR ''{'' \<and> c \<noteq> CHR ''}'' \<and> c \<noteq> CHR ''/'' \<and> c \<noteq> CHR '':''"
  using set_uuid_str [OF assms]
proof
  assume "c \<in> set (hex_pad 32 (unat u))"
  moreover from set_hex_pad [OF this] have "c \<noteq> CHR '':''"
    using digit_char_neq [of _ "CHR '':''"] by auto
  ultimately show ?thesis using hex_pad_plain by blast
qed simp

lemma length_uuid_str [simp]: "length (uuid_str u) = 36"
  by (simp add: uuid_str_def Let_def)

lemma filter_uuid_str: "filter (\<lambda>c. c \<noteq> CHR ''-'') (uuid_str u) = hex_pad 32 (unat u)"
proof -
  let ?h = "hex_pad 32 (unat u)"
  have keep: "filter (\<lambda>c. c \<noteq> CHR ''-'') s = s" if "set s \<subseteq> set ?h" for s
    using that hex_pad_plain by (intro filter_True) blast
  have sub: "set (take k (drop n ?h)) \<subseteq> set ?h" for k n
    by (meson in_set_dropD in_set_takeD subsetI)
  have step: "take k (drop n ?h) @ drop (n + k) ?h = drop n ?h" for k n
    by (metis add.commute append_take_drop_id drop_drop)
  have parts: "take 8 ?h @ take 4 (drop 8 ?h) @ take 4 (drop 12 ?h) @ take 4 (drop 16 ?h) @ drop 20 ?h = ?h"
    using step [of 8 0] step [of 4 8] step [of 4 12] step [of 4 16] by simp
  then show ?thesis
    using keep [OF sub [of 8 0]] keep [OF sub [of 4 8]] keep [OF sub [of 4 12]] keep [OF sub [of 4 16]]
      keep [OF set_drop_subset [of 20 ?h]]
    by (simp add: uuid_str_def Let_def)
qed

lemma py_int_hex_pad: "py_int 16 (hex_pad 32 n) = Some (int (n mod 16 ^ 32))"
proof -
  let ?h = "hex_pad 32 n"
  have sp: "strip_where int_space ?h = ?h"
    using hex_pad_plain by (intro strip_where_none) blast
  have pre: "\<not> has_prefix ''-'' ?h" "\<not> has_prefix ''+'' ?h"
    "\<not> has_prefix ''0x'' ?h" "\<not> has_prefix ''0X'' ?h"
    using hex_pad_plain [of "CHR ''-''" 32 n] hex_pad_plain [of "CHR ''+''" 32 n]
      hex_pad_plain [of "CHR ''x''" 32 n] hex_pad_plain [of "CHR ''X''" 32 n]
    by (metis has_prefix_iff append_Cons list.set_intros)+
  show ?thesis
    using pre by (simp add: py_int_def sp unsigned_body_def digits_value_hex_pad)
qed

lemma uuid_parse_str: "uuid_parse (uuid_str u) = Inr u"
proof -
  have nou: "CHR ''u'' \<notin> set (uuid_str u)" using uuid_str_plain by blast
  have r1: "remove_all ''urn:'' (uuid_str u) = uuid_str u"
    by (rule remove_all_absent [OF _ nou]) simp
  have r2: "remove_all ''uuid:'' (uuid_str u) = uuid_str u"
    by (rule remove_all_absent [OF _ nou]) simp
  have st: "strip_where (\<lambda>c. c = CHR ''{'' \<or> c = CHR ''}'') (uuid_str u) = uuid_str u"
    using uuid_str_plain by (intro strip_where_none) blast
  have lt: "unat u < 16 ^ 32" using unsigned_less [where ?'a = nat, of u] by simp
  have "uint u < 2 ^ 128" using uint_lt2p [of u] by simp
  then have "int (unat u) < 2 ^ 128" by simp
  moreover have "(word_of_int (int (unat u)) :: uuid) = u" by simp
  ultimately show ?thesis
    using lt by (simp add: uuid_parse_def r1 r2 st filter_uuid_str py_int_hex_pad Let_def)
qed

lemma uuid_str_inj [simp]: "uuid_str u = uuid_str v \<longleftrightarrow> u = v"
  by (metis sum.inject(2) uuid_parse_str)

end
