(* ===== verification/Identity.thy ===== *)
theory Identity
  imports Pytext
begin

text \<open>
  Identities of the control plane: routing segments (\<open>routing.py\<close>), the routing identity, the
  registered Iceberg source, the deterministic UUIDv5 derivations and the Lance URIs of
  \<open>state/types.py\<close>, and the URI ownership test of \<open>state/repository.py\<close>. SHA-1 is the parameter
  \<open>sha1\<close> of every derivation. Durations and instants are integers in microseconds.
\<close>

section \<open>Name patterns\<close>

definition is_alpha :: "char \<Rightarrow> bool" where
  "is_alpha c = (65 \<le> code c \<and> code c \<le> 90 \<or> 97 \<le> code c \<and> code c \<le> 122)"

definition is_digit :: "char \<Rightarrow> bool" where
  "is_digit c = (48 \<le> code c \<and> code c \<le> 57)"

text \<open>A pattern \<open>[first][rest]{0,n}\<close> matched against the whole string.\<close>

definition name_pattern :: "(char \<Rightarrow> bool) \<Rightarrow> (char \<Rightarrow> bool) \<Rightarrow> nat \<Rightarrow> string \<Rightarrow> bool" where
  "name_pattern first rest n s =
     (case s of [] \<Rightarrow> False | c # cs \<Rightarrow> first c \<and> list_all rest cs \<and> length cs \<le> n)"

definition ROUTING_SEGMENT_PATTERN :: "string \<Rightarrow> bool" where
  "ROUTING_SEGMENT_PATTERN s =
     (list_all (\<lambda>c. is_alpha c \<or> is_digit c \<or> c = CHR ''_'' \<or> c = CHR ''-'') s \<and>
      1 \<le> length s \<and> length s \<le> 128)"

definition SOURCE_NAME_PATTERN :: "string \<Rightarrow> bool" where
  "SOURCE_NAME_PATTERN =
     name_pattern is_alpha (\<lambda>c. is_alpha c \<or> is_digit c \<or> c = CHR ''_'' \<or> c = CHR ''-'') 127"

definition IDENTIFIER_PATTERN :: "string \<Rightarrow> bool" where
  "IDENTIFIER_PATTERN =
     name_pattern (\<lambda>c. is_alpha c \<or> c = CHR ''_'') (\<lambda>c. is_alpha c \<or> is_digit c \<or> c = CHR ''_'') 127"

definition TABLE_NAMESPACE_PATTERN :: "string \<Rightarrow> bool" where
  "TABLE_NAMESPACE_PATTERN =
     name_pattern (\<lambda>c. is_alpha c \<or> c = CHR ''_'')
       (\<lambda>c. is_alpha c \<or> is_digit c \<or> c = CHR ''_'' \<or> c = CHR ''.'') 255"

definition validate_routing_segment :: "string \<Rightarrow> string result" where
  "validate_routing_segment value =
     rbind (ensure (ROUTING_SEGMENT_PATTERN value) ValueError) (\<lambda>_. Inr value)"

section \<open>Routing identity\<close>

record routing_identity =
  tenant_id :: string
  namespace :: string
  org_id :: string

definition RoutingIdentity_validate :: "routing_identity \<Rightarrow> routing_identity result" where
  "RoutingIdentity_validate r =
     rbind (validate_routing_segment (tenant_id r)) (\<lambda>_.
     rbind (validate_routing_segment (namespace r)) (\<lambda>_.
     rbind (validate_routing_segment (org_id r)) (\<lambda>_. Inr r)))"

definition length_prefixed :: "string \<Rightarrow> string" where
  "length_prefixed v = show_nat (length v) @ '':'' @ v"

definition RoutingIdentity_canonical :: "routing_identity \<Rightarrow> string result" where
  "RoutingIdentity_canonical r =
     rbind (RoutingIdentity_validate r) (\<lambda>_.
       Inr (concat (map length_prefixed [tenant_id r, namespace r, org_id r])))"

section \<open>Registered Iceberg source\<close>

datatype source_lifecycle = SOURCE_DRAFT | SOURCE_ACTIVE | SOURCE_PAUSED

record iceberg_source =
  source_id :: uuid
  source_name :: string
  spark_catalog :: string
  table_namespace :: string
  table_name :: string
  table_uuid :: uuid
  lance_base_uri :: string
  lifecycle_state :: source_lifecycle
  default_spec_id :: uuid
  canonical_baseline_snapshot_id :: "int option"
  replay_horizon :: int

definition spark_table :: "iceberg_source \<Rightarrow> string" where
  "spark_table s = spark_catalog s @ ''.'' @ table_namespace s @ ''.'' @ table_name s"

definition IcebergSource_validate :: "iceberg_source \<Rightarrow> iceberg_source result" where
  "IcebergSource_validate s =
     rbind (ensure (SOURCE_NAME_PATTERN (source_name s)) ValueError) (\<lambda>_.
     rbind (ensure (IDENTIFIER_PATTERN (spark_catalog s)) ValueError) (\<lambda>_.
     rbind (ensure (TABLE_NAMESPACE_PATTERN (table_namespace s)) ValueError) (\<lambda>_.
     rbind (ensure (IDENTIFIER_PATTERN (table_name s)) ValueError) (\<lambda>_.
     rbind (ensure (\<not> is_blank (lance_base_uri s)) ValueError) (\<lambda>_.
     rbind (ensure (case canonical_baseline_snapshot_id s of None \<Rightarrow> True | Some b \<Rightarrow> 0 \<le> b)
              ValueError) (\<lambda>_.
     rbind (ensure (0 < replay_horizon s) ValueError) (\<lambda>_. Inr s)))))))"

definition parse_source_table :: "string \<Rightarrow> (string \<times> string \<times> string) result" where
  "parse_source_table t =
     (let components = split_on CHR ''.'' t
      in if length components < 3 \<or> list_ex (\<lambda>c. c = []) components then Inl ValueError
         else Inr (hd components, join_with CHR ''.'' (butlast (tl components)), last components))"

section \<open>Deterministic identities\<close>

definition DATASET_ID_NAMESPACE :: uuid where
  "DATASET_ID_NAMESPACE = 0x8fdbb20ca9804caba544b22b699f8a4e"

definition WORK_ID_NAMESPACE :: uuid where
  "WORK_ID_NAMESPACE = 0xc73b952168b9479faa197f646f129091"

definition PUBLICATION_ID_NAMESPACE :: uuid where
  "PUBLICATION_ID_NAMESPACE = 0xb6348ee2861d4a42a8ae8135204f5c40"

definition NAMESPACE_URL :: uuid where
  "NAMESPACE_URL = 0x6ba7b8119dad11d180b400c04fd430c8"

definition derive_source_id :: "(bytes \<Rightarrow> bytes) \<Rightarrow> string \<Rightarrow> uuid" where
  "derive_source_id sha1 name = uuid5 sha1 NAMESPACE_URL (''lance-etl:'' @ name)"

definition dataset_id_name :: "uuid \<Rightarrow> routing_identity \<Rightarrow> string result" where
  "dataset_id_name src r =
     rbind (RoutingIdentity_canonical r) (\<lambda>c. Inr (uuid_str src @ '':'' @ c))"

definition deterministic_dataset_id :: "(bytes \<Rightarrow> bytes) \<Rightarrow> uuid \<Rightarrow> routing_identity \<Rightarrow> uuid result" where
  "deterministic_dataset_id sha1 src r =
     rbind (dataset_id_name src r) (\<lambda>n. Inr (uuid5 sha1 DATASET_ID_NAMESPACE n))"

definition ingest_work_name :: "uuid \<Rightarrow> int \<Rightarrow> string" where
  "ingest_work_name d seq = ''INGEST:'' @ uuid_str d @ '':'' @ show_int seq"

definition publish_work_name :: "uuid \<Rightarrow> int \<Rightarrow> uuid \<Rightarrow> string" where
  "publish_work_name d seq rv = ''PUBLISH:'' @ uuid_str d @ '':'' @ show_int seq @ '':'' @ uuid_str rv"

definition rebuild_work_name :: "uuid \<Rightarrow> uuid \<Rightarrow> string" where
  "rebuild_work_name d req = ''REBUILD:'' @ uuid_str d @ '':'' @ uuid_str req"

definition deterministic_ingest_work_id :: "(bytes \<Rightarrow> bytes) \<Rightarrow> uuid \<Rightarrow> int \<Rightarrow> uuid result" where
  "deterministic_ingest_work_id sha1 d seq =
     rbind (ensure (1 \<le> seq) ValueError) (\<lambda>_. Inr (uuid5 sha1 WORK_ID_NAMESPACE (ingest_work_name d seq)))"

definition deterministic_publish_work_id :: "(bytes \<Rightarrow> bytes) \<Rightarrow> uuid \<Rightarrow> int \<Rightarrow> uuid \<Rightarrow> uuid" where
  "deterministic_publish_work_id sha1 d seq rv = uuid5 sha1 WORK_ID_NAMESPACE (publish_work_name d seq rv)"

definition deterministic_rebuild_work_id :: "(bytes \<Rightarrow> bytes) \<Rightarrow> uuid \<Rightarrow> uuid \<Rightarrow> uuid" where
  "deterministic_rebuild_work_id sha1 d req = uuid5 sha1 WORK_ID_NAMESPACE (rebuild_work_name d req)"

definition deterministic_publication_id :: "(bytes \<Rightarrow> bytes) \<Rightarrow> uuid \<Rightarrow> uuid" where
  "deterministic_publication_id sha1 w = uuid5 sha1 PUBLICATION_ID_NAMESPACE (uuid_str w)"

section \<open>Lance URIs\<close>

definition ingest_uri :: "string \<Rightarrow> uuid \<Rightarrow> string result" where
  "ingest_uri base d =
     (let n = rstrip_char CHR ''/'' base
      in rbind (ensure (n \<noteq> []) ValueError) (\<lambda>_. Inr (n @ ''/'' @ uuid_str d @ ''.lance'')))"

definition rebuild_uri :: "string \<Rightarrow> uuid \<Rightarrow> uuid \<Rightarrow> string result" where
  "rebuild_uri base d w =
     (let n = rstrip_char CHR ''/'' base
      in rbind (ensure (n \<noteq> []) ValueError) (\<lambda>_.
           Inr (n @ ''/rebuild/'' @ uuid_str d @ ''/'' @ uuid_str w @ ''.lance'')))"

definition is_work_segment :: "string \<Rightarrow> bool" where
  "is_work_segment seg =
     (if seg = [] \<or> CHR ''/'' \<in> set seg then False
      else (case uuid_parse seg of Inl e \<Rightarrow> False | Inr u \<Rightarrow> uuid_str u = seg))"

definition dataset_uri_matches_root :: "string \<Rightarrow> uuid \<Rightarrow> string \<Rightarrow> bool result" where
  "dataset_uri_matches_root base d candidate =
     rbind (ingest_uri base d) (\<lambda>own.
       if candidate = own then Inr True
       else let prefix = rstrip_char CHR ''/'' base @ ''/rebuild/'' @ uuid_str d @ ''/''
            in if \<not> has_prefix prefix candidate \<or> \<not> has_suffix ''.lance'' candidate then Inr False
               else let seg = take (length candidate - length prefix - length ''.lance'')
                                (drop (length prefix) candidate)
                    in Inr (is_work_segment seg))"

section \<open>Facts\<close>

lemma code_colon_show_nat: "CHR '':'' \<notin> set (show_nat n)"
  using set_show_nat by fastforce

lemma length_prefixed_append:
  assumes "length_prefixed u @ x = length_prefixed v @ y"
  shows "u = v \<and> x = y"
proof -
  from assms have "show_nat (length u) @ CHR '':'' # (u @ x) = show_nat (length v) @ CHR '':'' # (v @ y)"
    by (simp add: length_prefixed_def)
  from append_sep_eq [OF this code_colon_show_nat code_colon_show_nat]
  show ?thesis by auto
qed

lemma RoutingIdentity_validate_Inr: "RoutingIdentity_validate r = Inr r' \<Longrightarrow> r' = r"
  by (auto simp: RoutingIdentity_validate_def rbind_Inr_iff)

lemma canonical_inj:
  assumes "RoutingIdentity_canonical r = Inr c" and "RoutingIdentity_canonical r' = Inr c"
  shows "r = r'"
proof -
  let ?enc = "\<lambda>r. length_prefixed (tenant_id r) @ length_prefixed (namespace r) @ length_prefixed (org_id r)"
  from assms have "?enc r = ?enc r'"
    by (auto simp: RoutingIdentity_canonical_def rbind_Inr_iff)
  then have "tenant_id r = tenant_id r' \<and> namespace r = namespace r' \<and>
      length_prefixed (org_id r) @ [] = length_prefixed (org_id r') @ []"
    by (auto dest!: length_prefixed_append)
  moreover from this have "org_id r = org_id r'"
    using length_prefixed_append [of "org_id r" "[]" "org_id r'" "[]"] by simp
  ultimately show ?thesis by simp
qed

lemma dataset_id_name_inj:
  assumes "dataset_id_name src r = Inr n" and "dataset_id_name src' r' = Inr n"
  shows "src = src' \<and> r = r'"
proof -
  from assms obtain c c' where c: "RoutingIdentity_canonical r = Inr c"
    "RoutingIdentity_canonical r' = Inr c'" and "uuid_str src @ '':'' @ c = uuid_str src' @ '':'' @ c'"
    by (auto simp: dataset_id_name_def rbind_Inr_iff)
  then have "uuid_str src = uuid_str src' \<and> c = c'" by (simp add: append_eq_append_conv)
  with c canonical_inj show ?thesis by auto
qed

lemma ingest_work_name_inj: "ingest_work_name d s = ingest_work_name d' s' \<longleftrightarrow> d = d' \<and> s = s'"
  by (auto simp: ingest_work_name_def append_eq_append_conv)

lemma colon_notin_show_int: "CHR '':'' \<notin> set (show_int i)"
  using set_show_int by fastforce

lemma publish_work_name_inj:
  "publish_work_name d s v = publish_work_name d' s' v' \<longleftrightarrow> d = d' \<and> s = s' \<and> v = v'"
proof
  assume "publish_work_name d s v = publish_work_name d' s' v'"
  then have "uuid_str d @ CHR '':'' # show_int s @ CHR '':'' # uuid_str v =
      uuid_str d' @ CHR '':'' # show_int s' @ CHR '':'' # uuid_str v'"
    by (simp add: publish_work_name_def)
  then have "d = d'" and "show_int s @ CHR '':'' # uuid_str v = show_int s' @ CHR '':'' # uuid_str v'"
    by (simp_all add: append_eq_append_conv)
  from append_sep_eq [OF this(2) colon_notin_show_int colon_notin_show_int] \<open>d = d'\<close>
  show "d = d' \<and> s = s' \<and> v = v'" by simp
qed simp

lemma rebuild_work_name_inj: "rebuild_work_name d q = rebuild_work_name d' q' \<longleftrightarrow> d = d' \<and> q = q'"
  by (auto simp: rebuild_work_name_def append_eq_append_conv)

lemma work_names_disjoint:
  "ingest_work_name d s \<noteq> publish_work_name d' s' v'"
  "ingest_work_name d s \<noteq> rebuild_work_name d' q'"
  "publish_work_name d s v \<noteq> rebuild_work_name d' q'"
  by (simp_all add: ingest_work_name_def publish_work_name_def rebuild_work_name_def)

lemmas work_name_inj = ingest_work_name_inj publish_work_name_inj rebuild_work_name_inj

lemma has_suffix_iff: "has_suffix p s \<longleftrightarrow> (\<exists>t. s = t @ p)"
  by (auto simp: has_suffix_def has_prefix_iff) (metis rev_append rev_rev_ident)

lemma uuid_canonical_iff:
  "(case uuid_parse s of Inl e \<Rightarrow> False | Inr u \<Rightarrow> uuid_str u = s) \<longleftrightarrow> (\<exists>u. s = uuid_str u)"
  by (auto split: sum.splits simp: uuid_parse_str)

lemma prefix_suffix_segment:
  assumes "c = p @ t" and "c = x @ s" and "CHR ''/'' \<notin> set s" and "p \<noteq> []" and "last p = CHR ''/''"
  shows "t = take (length c - length p - length s) (drop (length p) c) @ s"
proof -
  have "length p \<le> length x"
  proof (rule ccontr)
    assume "\<not> length p \<le> length x"
    then have lt: "length x \<le> length p - 1" "length p - 1 < length p" using assms(4) by auto
    have "c ! (length p - 1) = CHR ''/''"
      using assms(1,4,5) lt by (simp add: nth_append last_conv_nth)
    moreover have "length p - 1 < length c" using assms(1) lt(2) by simp
    ultimately have "CHR ''/'' \<in> set s"
      using assms(2) lt(1)
      by (metis add_diff_inverse_nat length_append linorder_not_less nat_add_left_cancel_less nth_append nth_mem)
    with assms(3) show False ..
  qed
  then obtain y where y: "x = p @ y"
    using assms(1,2) by (metis append_eq_append_conv_if append_take_drop_id)
  then have "t = y @ s" using assms(1,2) by simp
  then show ?thesis using assms(1) by simp
qed

lemma is_work_segment_iff: "is_work_segment seg \<longleftrightarrow> (\<exists>w. seg = uuid_str w)"
proof -
  have "uuid_str w \<noteq> [] \<and> CHR ''/'' \<notin> set (uuid_str w)" for w
    using uuid_str_plain [of _ w] length_uuid_str [of w] by fastforce
  note ok = this [THEN conjunct1] this [THEN conjunct1, symmetric] this [THEN conjunct2]
  then show ?thesis by (auto simp: is_work_segment_def uuid_parse_str split: sum.splits)
qed

lemma dataset_uri_matches_root_iff:
  assumes "rstrip_char CHR ''/'' base \<noteq> []"
  shows "dataset_uri_matches_root base d c =
    Inr (ingest_uri base d = Inr c \<or> (\<exists>w. rebuild_uri base d w = Inr c))"
proof -
  define p where "p = rstrip_char CHR ''/'' base @ ''/rebuild/'' @ uuid_str d @ ''/''"
  define seg where "seg = take (length c - length p - length ''.lance'') (drop (length p) c)"
  have p: "p \<noteq> []" "last p = CHR ''/''" by (simp_all add: p_def)
  have build: "rebuild_uri base d w = Inr c \<longleftrightarrow> c = p @ uuid_str w @ ''.lance''" for w
    using assms by (auto simp: rebuild_uri_def Let_def p_def)
  have unf: "dataset_uri_matches_root base d c =
      Inr (ingest_uri base d = Inr c \<or>
           has_prefix p c \<and> has_suffix ''.lance'' c \<and> is_work_segment seg)"
    using assms unfolding dataset_uri_matches_root_def ingest_uri_def seg_def p_def by (auto simp: Let_def)
  show ?thesis
  proof (cases "has_prefix p c \<and> has_suffix ''.lance'' c")
    case False
    then have "\<not> (\<exists>w. rebuild_uri base d w = Inr c)"
      unfolding build by (auto simp: has_prefix_iff has_suffix_iff)
    with False show ?thesis unfolding unf by auto
  next
    case True
    then obtain t x where t: "c = p @ t" "c = x @ ''.lance''"
      unfolding has_prefix_iff has_suffix_iff by blast
    have "t = seg @ ''.lance''"
      unfolding seg_def by (rule prefix_suffix_segment [OF t]) (simp_all add: p)
    then have "(\<exists>w. rebuild_uri base d w = Inr c) \<longleftrightarrow> is_work_segment seg"
      unfolding build is_work_segment_iff using t(1) by simp
    with True show ?thesis unfolding unf by simp
  qed
qed

end
