(* ===== verification/Specs.thy ===== *)
theory Specs
  imports Complex_Main Identity
begin

text \<open>
  What the specification decoder (\<open>state/specs.py\<close>) reads: database rows with dynamically typed
  values, the typed column readers, and the enumerations. A row is the ordered list of its columns. A
  Python float is represented by the rational number that its shortest decimal text denotes.
\<close>

section \<open>Dynamically typed values and rows\<close>

datatype py_obj =
    PNone
  | PBool bool
  | PInt int
  | PFloat rat
  | PStr string
  | PBytes bytes
  | PUuid uuid

type_synonym rowmap = "(string \<times> py_obj) list"

definition row_value :: "rowmap \<Rightarrow> string \<Rightarrow> py_obj result" where
  "row_value r key = (case map_of r key of None \<Rightarrow> Inl ValueError | Some v \<Rightarrow> Inr v)"

definition row_uuid :: "rowmap \<Rightarrow> string \<Rightarrow> uuid result" where
  "row_uuid r key = rbind (row_value r key) (\<lambda>v. case v of PUuid u \<Rightarrow> Inr u | _ \<Rightarrow> Inl ValueError)"

definition row_optional_uuid :: "rowmap \<Rightarrow> string \<Rightarrow> uuid option result" where
  "row_optional_uuid r key = rbind (row_value r key)
     (\<lambda>v. case v of PNone \<Rightarrow> Inr None | PUuid u \<Rightarrow> Inr (Some u) | _ \<Rightarrow> Inl ValueError)"

definition row_string :: "rowmap \<Rightarrow> string \<Rightarrow> string result" where
  "row_string r key = rbind (row_value r key) (\<lambda>v. case v of PStr s \<Rightarrow> Inr s | _ \<Rightarrow> Inl ValueError)"

definition row_optional_string :: "rowmap \<Rightarrow> string \<Rightarrow> string option result" where
  "row_optional_string r key = rbind (row_value r key)
     (\<lambda>v. case v of PNone \<Rightarrow> Inr None | PStr s \<Rightarrow> Inr (Some s) | _ \<Rightarrow> Inl ValueError)"

definition row_int :: "rowmap \<Rightarrow> string \<Rightarrow> int result" where
  "row_int r key = rbind (row_value r key) (\<lambda>v. case v of PInt i \<Rightarrow> Inr i | _ \<Rightarrow> Inl ValueError)"

definition row_optional_int :: "rowmap \<Rightarrow> string \<Rightarrow> int option result" where
  "row_optional_int r key = rbind (row_value r key)
     (\<lambda>v. case v of PNone \<Rightarrow> Inr None | PInt i \<Rightarrow> Inr (Some i) | _ \<Rightarrow> Inl ValueError)"

definition row_bool :: "rowmap \<Rightarrow> string \<Rightarrow> bool result" where
  "row_bool r key = rbind (row_value r key) (\<lambda>v. case v of PBool b \<Rightarrow> Inr b | _ \<Rightarrow> Inl ValueError)"

text \<open>
  \<open>float(value)\<close> of a numeric column. A text, bytes, uuid or null value raises; the columns read
  through this function are \<open>NUMERIC\<close>, for which the driver never returns text.
\<close>

definition row_float :: "rowmap \<Rightarrow> string \<Rightarrow> rat result" where
  "row_float r key = rbind (row_value r key)
     (\<lambda>v. case v of PFloat x \<Rightarrow> Inr x | PInt i \<Rightarrow> Inr (of_int i) | _ \<Rightarrow> Inl ValueError)"

definition row_bytes :: "rowmap \<Rightarrow> string \<Rightarrow> bytes result" where
  "row_bytes r key = rbind (row_value r key) (\<lambda>v. case v of PBytes b \<Rightarrow> Inr b | _ \<Rightarrow> Inl ValueError)"

definition row_enum :: "rowmap \<Rightarrow> string \<Rightarrow> (string \<times> 'e) list \<Rightarrow> 'e result" where
  "row_enum r key members = rbind (row_string r key)
     (\<lambda>s. case map_of members s of None \<Rightarrow> Inl ValueError | Some e \<Rightarrow> Inr e)"

section \<open>Enumerations\<close>

text \<open>A string-backed enumeration is a datatype with the list of its values by text.\<close>

datatype spec_revision_state = SPEC_DRAFT | SPEC_ACTIVE | SPEC_RETIRED
datatype field_role = KEY | EVENT_TIME | VECTOR | TEXT | METADATA | TOMBSTONE | LINEAGE
datatype source_kind = DIRECT | MAP_KEY | DERIVED
datatype index_type = IVF_RQ | BTREE | BITMAP | ZONEMAP | INVERTED
datatype vector_metric = L2 | COSINE | DOT
datatype compaction_mode = TRY_BINARY_COPY | REENCODE

definition spec_revision_states :: "(string \<times> spec_revision_state) list" where
  "spec_revision_states = [(''DRAFT'', SPEC_DRAFT), (''ACTIVE'', SPEC_ACTIVE), (''RETIRED'', SPEC_RETIRED)]"

definition field_roles :: "(string \<times> field_role) list" where
  "field_roles = [(''KEY'', KEY), (''EVENT_TIME'', EVENT_TIME), (''VECTOR'', VECTOR), (''TEXT'', TEXT),
     (''METADATA'', METADATA), (''TOMBSTONE'', TOMBSTONE), (''LINEAGE'', LINEAGE)]"

definition source_kinds :: "(string \<times> source_kind) list" where
  "source_kinds = [(''DIRECT'', DIRECT), (''MAP_KEY'', MAP_KEY), (''DERIVED'', DERIVED)]"

definition index_types :: "(string \<times> index_type) list" where
  "index_types = [(''IVF_RQ'', IVF_RQ), (''BTREE'', BTREE), (''BITMAP'', BITMAP), (''ZONEMAP'', ZONEMAP),
     (''INVERTED'', INVERTED)]"

definition vector_metrics :: "(string \<times> vector_metric) list" where
  "vector_metrics = [(''l2'', L2), (''cosine'', COSINE), (''dot'', DOT)]"

definition compaction_modes :: "(string \<times> compaction_mode) list" where
  "compaction_modes = [(''try_binary_copy'', TRY_BINARY_COPY), (''reencode'', REENCODE)]"

text \<open>\<open>member.value\<close>: the text of a member of an enumeration.\<close>

definition enum_text :: "(string \<times> 'e) list \<Rightarrow> 'e \<Rightarrow> string" where
  "enum_text members e = (case find (\<lambda>m. snd m = e) members of None \<Rightarrow> [] | Some m \<Rightarrow> fst m)"

text \<open>The identity of the bundled default specification.\<close>

definition DEFAULT_SPEC_ID :: uuid where "DEFAULT_SPEC_ID = 1"

end
