(* ===== verification/Tables.thy ===== *)
theory Tables
  imports Specs
begin

text \<open>
  The PostgreSQL control plane of \<open>state/tables.py\<close>: the enumerations of \<open>state/types.py\<close>, one
  record per table row, the database as the record of its tables, and every constraint the schema
  declares (primary keys, unique and partial unique indexes, foreign keys, check constraints) as one
  executable predicate. A statement that changes a table commits through \<open>checked\<close>, which raises
  \<open>IntegrityError\<close> when the resulting database would violate a constraint. Instants are integers in
  microseconds. The ranges of \<open>BIGINT\<close> and \<open>INTEGER\<close> columns and \<open>VARCHAR\<close> lengths other than
  those of the bounded diagnostics are not modelled.
\<close>

section \<open>Enumerations\<close>

datatype dataset_lifecycle = DATASET_ACTIVE | DATASET_PAUSED | DATASET_BLOCKED
datatype snapshot_kind = BASELINE | APPEND | TRUSTED_MAINTENANCE | REJECTED
datatype snapshot_state = SEALED | COMPLETE | SNAPSHOT_BLOCKED
datatype work_kind = INGEST | PUBLISH | REBUILD
datatype work_state = PENDING | RUNNING | RETRY_WAIT | SUCCEEDED | WORK_BLOCKED
datatype work_phase = PH_INGEST | PH_COMPACT | PH_INDEX | PH_VALIDATE | PH_PREWARM | PH_PUBLISH
datatype work_launcher = LOCAL

fun PHASE_ORDER :: "work_phase \<Rightarrow> nat" where
  "PHASE_ORDER PH_INGEST = 0"
| "PHASE_ORDER PH_COMPACT = 1"
| "PHASE_ORDER PH_INDEX = 2"
| "PHASE_ORDER PH_VALIDATE = 3"
| "PHASE_ORDER PH_PREWARM = 4"
| "PHASE_ORDER PH_PUBLISH = 5"

section \<open>Rows\<close>

record source_row =
  r_id :: uuid
  r_name :: string
  r_catalog :: string
  r_namespace :: string
  r_table :: string
  r_table_uuid :: uuid
  r_base_uri :: string
  r_lifecycle :: source_lifecycle
  r_default_spec :: uuid
  r_baseline :: "int option"
  r_replay_seconds :: int
  r_epoch :: int
  r_created :: int
  r_updated :: int

record dataset_row =
  d_id :: uuid
  d_source :: uuid
  d_route :: routing_identity
  d_lifecycle :: dataset_lifecycle
  d_desired :: uuid
  d_materialized :: "uuid option"
  d_last_seq :: "int option"
  d_uri :: string
  d_version :: "int option"
  d_active :: "uuid option"
  d_fence :: int
  d_created :: int
  d_updated :: int

record snapshot_row =
  s_seq :: int
  s_source :: uuid
  s_snapshot :: int
  s_parent :: "int option"
  s_iceberg_seq :: int
  s_partition_spec :: int
  s_committed :: int
  s_operation :: string
  s_kind :: snapshot_kind
  s_state :: snapshot_state
  s_error_code :: "string option"
  s_error_message :: "string option"
  s_created :: int
  s_updated :: int

record work_row =
  w_id :: uuid
  w_dataset :: uuid
  w_source :: uuid
  w_seq :: int
  w_spec :: uuid
  w_kind :: work_kind
  w_state :: work_state
  w_phase :: work_phase
  w_token :: "uuid option"
  w_expires :: "int option"
  w_attempts :: int
  w_launcher :: work_launcher
  w_next_at :: int
  w_exp_uri :: string
  w_exp_version :: "int option"
  w_exp_active :: "uuid option"
  w_cand_uri :: "string option"
  w_cand_version :: "int option"
  w_applied_at :: "int option"
  w_row_count :: "int option"
  w_source_digest :: "bytes option"
  w_manifest_uri :: "string option"
  w_manifest_digest :: "bytes option"
  w_error_code :: "string option"
  w_error_message :: "string option"
  w_created :: int
  w_updated :: int

record publication_row =
  p_id :: uuid
  p_dataset :: uuid
  p_work :: uuid
  p_spec :: uuid
  p_seq :: int
  p_uri :: string
  p_version :: int
  p_schema_digest :: bytes
  p_total :: int
  p_distinct :: int
  p_live :: int
  p_distinct_live :: int
  p_fragments :: int
  p_manifest_uri :: string
  p_manifest_digest :: bytes
  p_published :: int
  p_retired :: "int option"

record pubindex_row =
  x_publication :: uuid
  x_spec :: uuid
  x_index :: uuid
  x_type :: index_type
  x_indexed :: int
  x_unindexed :: int
  x_digest :: "bytes option"

text \<open>
  The specification tables keep the dynamically typed rows their decoder reads. \<open>next_seq\<close> is the
  next value of the identity column of \<open>source_snapshots\<close>.
\<close>

record db =
  t_sources :: "source_row list"
  t_datasets :: "dataset_row list"
  t_snapshots :: "snapshot_row list"
  t_work :: "work_row list"
  t_publications :: "publication_row list"
  t_pubindexes :: "pubindex_row list"
  t_specs :: "rowmap list"
  t_fields :: "rowmap list"
  t_indexes :: "rowmap list"
  next_seq :: int

section \<open>Row constraints\<close>

definition source_check :: "source_row \<Rightarrow> bool" where
  "source_check r =
     (SOURCE_NAME_PATTERN (r_name r) \<and> IDENTIFIER_PATTERN (r_catalog r) \<and>
      TABLE_NAMESPACE_PATTERN (r_namespace r) \<and> IDENTIFIER_PATTERN (r_table r) \<and>
      r_base_uri r \<noteq> [] \<and> (case r_baseline r of None \<Rightarrow> True | Some b \<Rightarrow> 0 \<le> b) \<and>
      0 < r_replay_seconds r \<and> 0 \<le> r_epoch r)"

definition dataset_check :: "dataset_row \<Rightarrow> bool" where
  "dataset_check d =
     (ROUTING_SEGMENT_PATTERN (tenant_id (d_route d)) \<and> ROUTING_SEGMENT_PATTERN (namespace (d_route d)) \<and>
      ROUTING_SEGMENT_PATTERN (org_id (d_route d)) \<and> d_uri d \<noteq> [] \<and>
      (case d_version d of None \<Rightarrow> True | Some v \<Rightarrow> 0 \<le> v) \<and> 0 \<le> d_fence d)"

definition snapshot_check :: "snapshot_row \<Rightarrow> bool" where
  "snapshot_check s =
     (0 \<le> s_snapshot s \<and> (case s_parent s of None \<Rightarrow> True | Some p \<Rightarrow> 0 \<le> p) \<and> 0 \<le> s_iceberg_seq s \<and>
      0 \<le> s_partition_spec s \<and> s_operation s \<noteq> [] \<and>
      (s_kind s = BASELINE \<or> s_kind s = REJECTED \<or> s_parent s \<noteq> None))"

definition work_check :: "work_row \<Rightarrow> bool" where
  "work_check w =
     ((w_state w = RUNNING) = (w_token w \<noteq> None \<and> w_expires w \<noteq> None) \<and> 0 \<le> w_attempts w \<and>
      w_exp_uri w \<noteq> [] \<and> (case w_exp_version w of None \<Rightarrow> True | Some v \<Rightarrow> 0 \<le> v) \<and>
      (w_cand_uri w = None) = (w_cand_version w = None) \<and>
      (case w_cand_version w of None \<Rightarrow> True | Some v \<Rightarrow> 0 \<le> v) \<and>
      (case w_row_count w of None \<Rightarrow> True | Some n \<Rightarrow> 0 \<le> n) \<and>
      (case w_source_digest w of None \<Rightarrow> True | Some b \<Rightarrow> length b = 32) \<and>
      (case w_manifest_digest w of None \<Rightarrow> True | Some b \<Rightarrow> length b = 32) \<and>
      (w_manifest_uri w \<noteq> None \<or> w_manifest_digest w = None))"

definition publication_check :: "publication_row \<Rightarrow> bool" where
  "publication_check p =
     (p_uri p \<noteq> [] \<and> 0 \<le> p_version p \<and> length (p_schema_digest p) = 32 \<and> 0 \<le> p_total p \<and>
      p_distinct p = p_total p \<and> 0 \<le> p_live p \<and> p_live p \<le> p_total p \<and>
      p_distinct_live p = p_live p \<and> 0 \<le> p_fragments p \<and> p_manifest_uri p \<noteq> [] \<and>
      length (p_manifest_digest p) = 32 \<and>
      (case p_retired p of None \<Rightarrow> True | Some t \<Rightarrow> p_published p \<le> t))"

definition pubindex_check :: "pubindex_row \<Rightarrow> bool" where
  "pubindex_check x =
     (0 \<le> x_indexed x \<and> x_unindexed x = 0 \<and>
      (case x_digest x of None \<Rightarrow> True | Some b \<Rightarrow> length b = 32))"

section \<open>Keys and references\<close>

abbreviation col :: "string \<Rightarrow> rowmap \<Rightarrow> py_obj option" where
  "col key r \<equiv> map_of r key"

definition spec_exists :: "uuid \<Rightarrow> rowmap list \<Rightarrow> bool" where
  "spec_exists u t = exists_where (\<lambda>r. col ''spec_revision_id'' r = Some (PUuid u)) t"

definition open_publish :: "work_row \<Rightarrow> bool" where
  "open_publish w = (w_kind w = PUBLISH \<and> w_state w \<in> {PENDING, RUNNING, RETRY_WAIT})"

definition source_keys :: "source_row list \<Rightarrow> bool" where
  "source_keys t = (unique_key r_id t \<and> unique_key r_name t \<and> unique_key r_table_uuid t \<and> list_all source_check t)"

definition dataset_keys :: "dataset_row list \<Rightarrow> bool" where
  "dataset_keys t = (unique_key d_id t \<and> unique_key d_route t \<and> list_all dataset_check t)"

definition snapshot_keys :: "snapshot_row list \<Rightarrow> bool" where
  "snapshot_keys t =
     (unique_key s_seq t \<and> unique_key (\<lambda>s. (s_source s, s_snapshot s)) t \<and>
      unique_key (\<lambda>s. (s_source s, s_iceberg_seq s)) t \<and> list_all snapshot_check t)"

definition work_keys :: "work_row list \<Rightarrow> bool" where
  "work_keys t =
     (unique_key w_id t \<and>
      unique_by (\<lambda>w. w_kind w \<noteq> REBUILD) (\<lambda>w. (w_dataset w, w_seq w, w_kind w)) t \<and>
      unique_by (\<lambda>w. w_state w = RUNNING) w_dataset t \<and>
      unique_by open_publish w_dataset t \<and> list_all work_check t)"

definition publication_keys :: "publication_row list \<Rightarrow> bool" where
  "publication_keys t =
     (unique_key p_id t \<and> unique_key p_work t \<and>
      unique_key (\<lambda>p. (p_dataset p, p_uri p, p_version p)) t \<and> list_all publication_check t)"

definition pubindex_keys :: "pubindex_row list \<Rightarrow> bool" where
  "pubindex_keys t = (unique_key (\<lambda>x. (x_publication x, x_index x)) t \<and> list_all pubindex_check t)"

definition spec_keys :: "rowmap list \<Rightarrow> bool" where
  "spec_keys t =
     (unique_key (col ''spec_revision_id'') t \<and>
      unique_key (\<lambda>r. (col ''spec_id'' r, col ''revision_number'' r)) t \<and>
      unique_key (\<lambda>r. (col ''spec_id'' r, col ''configuration_digest'' r)) t \<and>
      unique_by (\<lambda>r. col ''state'' r = Some (PStr ''ACTIVE'')) (col ''spec_id'') t \<and>
      list_all (\<lambda>r. (col ''state'' r = Some (PStr ''DRAFT'')) = (col ''activated_at'' r = Some PNone)) t \<and>
      list_all (\<lambda>r. col ''supersedes_revision_id'' r = Some PNone \<or>
        exists_where (\<lambda>q. col ''spec_id'' q = col ''spec_id'' r \<and>
          col ''spec_revision_id'' q = col ''supersedes_revision_id'' r) t \<and>
        col ''supersedes_revision_id'' r \<noteq> col ''spec_revision_id'' r) t)"

definition field_keys :: "rowmap list \<Rightarrow> rowmap list \<Rightarrow> bool" where
  "field_keys specs t =
     (unique_key (col ''field_id'') t \<and>
      unique_key (\<lambda>r. (col ''spec_revision_id'' r, col ''ordinal'' r)) t \<and>
      unique_key (\<lambda>r. (col ''spec_revision_id'' r, col ''target_name'' r)) t \<and>
      list_all (\<lambda>r. exists_where (\<lambda>q. col ''spec_revision_id'' q = col ''spec_revision_id'' r) specs) t)"

definition index_keys :: "rowmap list \<Rightarrow> rowmap list \<Rightarrow> bool" where
  "index_keys fs t =
     (unique_key (col ''index_definition_id'') t \<and>
      unique_key (\<lambda>r. (col ''spec_revision_id'' r, col ''ordinal'' r)) t \<and>
      unique_key (\<lambda>r. (col ''spec_revision_id'' r, col ''index_name'' r)) t \<and>
      unique_key (\<lambda>r. (col ''spec_revision_id'' r, col ''field_id'' r, col ''index_type'' r)) t \<and>
      list_all (\<lambda>r. exists_where (\<lambda>q. col ''spec_revision_id'' q = col ''spec_revision_id'' r \<and>
          col ''field_id'' q = col ''field_id'' r) fs) t)"

definition dataset_refs :: "db \<Rightarrow> bool" where
  "dataset_refs s = list_all (\<lambda>d.
     exists_where (\<lambda>r. r_id r = d_source d) (t_sources s) \<and> spec_exists (d_desired d) (t_specs s) \<and>
     (case d_materialized d of None \<Rightarrow> True | Some u \<Rightarrow> spec_exists u (t_specs s)) \<and>
     (case d_last_seq d of None \<Rightarrow> True | Some q \<Rightarrow> exists_where (\<lambda>x. s_seq x = q) (t_snapshots s)) \<and>
     (case d_active d of None \<Rightarrow> True
      | Some p \<Rightarrow> exists_where (\<lambda>x. p_dataset x = d_id d \<and> p_id x = p) (t_publications s)))
     (t_datasets s)"

definition snapshot_refs :: "db \<Rightarrow> bool" where
  "snapshot_refs s = list_all (\<lambda>x. exists_where (\<lambda>r. r_id r = s_source x) (t_sources s)) (t_snapshots s)"

definition work_refs :: "db \<Rightarrow> bool" where
  "work_refs s = list_all (\<lambda>w.
     exists_where (\<lambda>d. d_id d = w_dataset w \<and> d_source d = w_source w) (t_datasets s) \<and>
     exists_where (\<lambda>x. s_seq x = w_seq w \<and> s_source x = w_source w) (t_snapshots s) \<and>
     spec_exists (w_spec w) (t_specs s)) (t_work s)"

definition publication_refs :: "db \<Rightarrow> bool" where
  "publication_refs s = list_all (\<lambda>p.
     exists_where (\<lambda>w. w_dataset w = p_dataset p \<and> w_id w = p_work p \<and> w_spec w = p_spec p \<and>
        w_seq w = p_seq p) (t_work s) \<and>
     exists_where (\<lambda>x. s_seq x = p_seq p) (t_snapshots s)) (t_publications s)"

definition pubindex_refs :: "db \<Rightarrow> bool" where
  "pubindex_refs s = list_all (\<lambda>x.
     exists_where (\<lambda>p. p_id p = x_publication x \<and> p_spec p = x_spec x) (t_publications s) \<and>
     exists_where (\<lambda>r. col ''spec_revision_id'' r = Some (PUuid (x_spec x)) \<and>
        col ''index_definition_id'' r = Some (PUuid (x_index x)) \<and>
        col ''index_type'' r = Some (PStr (enum_text index_types (x_type x)))) (t_indexes s)) (t_pubindexes s)"

definition constraints_ok :: "db \<Rightarrow> bool" where
  "constraints_ok s =
     (source_keys (t_sources s) \<and> dataset_keys (t_datasets s) \<and> snapshot_keys (t_snapshots s) \<and>
      work_keys (t_work s) \<and> publication_keys (t_publications s) \<and> pubindex_keys (t_pubindexes s) \<and>
      spec_keys (t_specs s) \<and> field_keys (t_specs s) (t_fields s) \<and> index_keys (t_fields s) (t_indexes s) \<and>
      dataset_refs s \<and> snapshot_refs s \<and> work_refs s \<and> publication_refs s \<and> pubindex_refs s)"

definition checked :: "db \<Rightarrow> db result" where
  "checked s = rbind (ensure (constraints_ok s) IntegrityError) (\<lambda>_. Inr s)"

lemma checked_Inr_iff [result_simps]: "checked s = Inr s' \<longleftrightarrow> s' = s \<and> constraints_ok s"
  by (auto simp: checked_def rbind_Inr_iff ensure_Inr_iff)

lemma checked_Inl_iff: "checked s = Inl e \<longleftrightarrow> e = IntegrityError \<and> \<not> constraints_ok s"
  by (auto simp: checked_def rbind_Inl_iff ensure_Inl_iff)

end
