(* ===== verification/Enqueue.thy ===== *)
theory Enqueue
  imports Tables
begin

text \<open>
  Source registration and snapshot planning in \<open>state/repository.py\<close>: registering a source,
  sealing an Iceberg snapshot with its INGEST work, recording a rejected snapshot, and the source
  gate (block and retry of a checkpoint). A method that opens a transaction takes the database and
  returns its value with the committed database; a raised exception rolls the transaction back, so
  the result carries no database. \<open>now\<close> is the instant the method reads from the clock, which is also the
  \<open>now()\<close> of column defaults.
\<close>

section \<open>Diagnostics\<close>

definition ERROR_CODE_LIMIT :: nat where "ERROR_CODE_LIMIT = 128"
definition ERROR_MESSAGE_LIMIT :: nat where "ERROR_MESSAGE_LIMIT = 2000"

definition bounded_error :: "string option \<Rightarrow> nat \<Rightarrow> string option" where
  "bounded_error v limit = map_option (take limit) v"

section \<open>Sources\<close>

definition source_from_row :: "source_row \<Rightarrow> iceberg_source result" where
  "source_from_row r = IcebergSource_validate
     \<lparr> source_id = r_id r, source_name = r_name r, spark_catalog = r_catalog r,
       table_namespace = r_namespace r, table_name = r_table r, table_uuid = r_table_uuid r,
       lance_base_uri = r_base_uri r, lifecycle_state = r_lifecycle r, default_spec_id = r_default_spec r,
       canonical_baseline_snapshot_id = r_baseline r, replay_horizon = r_replay_seconds r * 1000000 \<rparr>"

definition source_registration_matches ::
    "iceberg_source \<Rightarrow> string \<Rightarrow> uuid \<Rightarrow> int option \<Rightarrow> string \<Rightarrow> bool" where
  "source_registration_matches s tbl tu baseline base =
     (spark_table s = tbl \<and> table_uuid s = tu \<and>
      (baseline = None \<or> canonical_baseline_snapshot_id s = baseline) \<and>
      rstrip_char CHR ''/'' (lance_base_uri s) = rstrip_char CHR ''/'' base)"

definition source_by_name :: "string \<Rightarrow> db \<Rightarrow> iceberg_source option result" where
  "source_by_name name s =
     (case lookup_by r_name name (t_sources s) of
        None \<Rightarrow> Inr None
      | Some r \<Rightarrow> rbind (source_from_row r) (\<lambda>x. Inr (Some x)))"


definition spec_is_active :: "uuid \<Rightarrow> rowmap \<Rightarrow> bool" where
  "spec_is_active u r = (col ''spec_id'' r = Some (PUuid u) \<and> col ''state'' r = Some (PStr ''ACTIVE''))"

definition ensure_source_registration ::
    "(bytes \<Rightarrow> bytes) \<Rightarrow> string \<Rightarrow> string \<Rightarrow> uuid \<Rightarrow> int option \<Rightarrow> string \<Rightarrow> int \<Rightarrow> db \<Rightarrow>
     (iceberg_source \<times> db) result" where
  "ensure_source_registration sha1 name tbl tu baseline base now s =
     rbind (ensure (rstrip_char CHR ''/'' base \<noteq> []) ValueError) (\<lambda>_.
     rbind (parse_source_table tbl) (\<lambda>(catalog, ns, tname).
     rbind (ensure (exists_where (spec_is_active DEFAULT_SPEC_ID) (t_specs s)) StateTransitionError) (\<lambda>_.
     let row = \<lparr> r_id = derive_source_id sha1 name, r_name = name, r_catalog = catalog, r_namespace = ns,
                 r_table = tname, r_table_uuid = tu, r_base_uri = rstrip_char CHR ''/'' base,
                 r_lifecycle = SOURCE_ACTIVE, r_default_spec = DEFAULT_SPEC_ID, r_baseline = baseline,
                 r_replay_seconds = 2592000, r_epoch = 0, r_created = now, r_updated = now \<rparr>
     in rbind (checked (s\<lparr> t_sources := insert_new r_name row (t_sources s) \<rparr>)) (\<lambda>s1.
     case lookup_by r_name name (t_sources s1) of
       None \<Rightarrow> Inl NoResultFound
     | Some r \<Rightarrow> rbind (source_from_row r) (\<lambda>src.
         rbind (ensure (source_registration_matches src tbl tu baseline base) StateTransitionError) (\<lambda>_.
         Inr (src, s1)))))))"

section \<open>Snapshot plans\<close>

record snapshot_plan =
  pl_source :: uuid
  pl_snapshot :: int
  pl_parent :: "int option"
  pl_iceberg_seq :: int
  pl_partition_spec :: int
  pl_committed :: int
  pl_committed_aware :: bool
  pl_operation :: string
  pl_kind :: snapshot_kind
  pl_epoch :: "int option"

definition SourceSnapshotPlan_validate :: "snapshot_plan \<Rightarrow> snapshot_plan result" where
  "SourceSnapshotPlan_validate p =
     rbind (ensure (0 \<le> min (pl_snapshot p) (min (pl_iceberg_seq p) (pl_partition_spec p))) ValueError) (\<lambda>_.
     rbind (ensure (case pl_parent p of None \<Rightarrow> True | Some x \<Rightarrow> 0 \<le> x) ValueError) (\<lambda>_.
     rbind (ensure (case pl_epoch p of None \<Rightarrow> True | Some x \<Rightarrow> 0 \<le> x) ValueError) (\<lambda>_.
     rbind (ensure (pl_kind p \<in> {BASELINE, REJECTED} \<or> pl_parent p \<noteq> None) ValueError) (\<lambda>_.
     rbind (ensure (\<not> is_blank (pl_operation p)) ValueError) (\<lambda>_.
     rbind (ensure (pl_committed_aware p) ValueError) (\<lambda>_. Inr p))))))"

definition DatasetPlan_validate :: "routing_identity \<Rightarrow> routing_identity result" where
  "DatasetPlan_validate p = rbind (RoutingIdentity_validate p) (\<lambda>_. Inr p)"

section \<open>Planning guards\<close>

definition active_spec_revision_id :: "uuid \<Rightarrow> db \<Rightarrow> uuid result" where
  "active_spec_revision_id spec s =
     (case find (spec_is_active spec) (t_specs s) of
        None \<Rightarrow> Inl StateTransitionError
      | Some r \<Rightarrow> (case col ''spec_revision_id'' r of Some (PUuid u) \<Rightarrow> Inr u | _ \<Rightarrow> Inl StateTransitionError))"

definition lock_source_for_planning :: "uuid \<Rightarrow> db \<Rightarrow> source_row result" where
  "lock_source_for_planning src s =
     (case lookup_by r_id src (t_sources s) of None \<Rightarrow> Inl NoResultFound | Some r \<Rightarrow> Inr r)"

definition snapshot_known :: "uuid \<Rightarrow> int \<Rightarrow> db \<Rightarrow> bool" where
  "snapshot_known src snap s = exists_where (\<lambda>x. s_source x = src \<and> s_snapshot x = snap) (t_snapshots s)"

definition source_gated :: "uuid \<Rightarrow> db \<Rightarrow> bool" where
  "source_gated src s = exists_where (\<lambda>x. s_source x = src \<and> s_state x = SNAPSHOT_BLOCKED) (t_snapshots s)"

definition assert_source_gate_allows_snapshot :: "uuid \<Rightarrow> int \<Rightarrow> db \<Rightarrow> unit result" where
  "assert_source_gate_allows_snapshot src snap s =
     (if \<not> source_gated src s then Inr ()
      else ensure (snapshot_known src snap s) StateTransitionError)"

text \<open>\<open>ORDER BY key DESC LIMIT 1\<close>: the first row that no other row exceeds.\<close>

fun max_row :: "('r \<Rightarrow> int) \<Rightarrow> 'r list \<Rightarrow> 'r option" where
  "max_row key [] = None"
| "max_row key (x # xs) =
     (case max_row key xs of None \<Rightarrow> Some x | Some y \<Rightarrow> if key x < key y then Some y else Some x)"

definition latest_snapshot :: "uuid \<Rightarrow> db \<Rightarrow> snapshot_row option" where
  "latest_snapshot src s = max_row s_iceberg_seq (filter (\<lambda>x. s_source x = src) (t_snapshots s))"

definition assert_new_snapshot_extends_latest :: "snapshot_plan \<Rightarrow> db \<Rightarrow> unit result" where
  "assert_new_snapshot_extends_latest p s =
     (if snapshot_known (pl_source p) (pl_snapshot p) s then Inr ()
      else case latest_snapshot (pl_source p) s of
             None \<Rightarrow> ensure (pl_kind p \<in> {BASELINE, REJECTED}) StateTransitionError
           | Some x \<Rightarrow>
               rbind (ensure (pl_kind p \<noteq> BASELINE) StateTransitionError) (\<lambda>_.
               rbind (ensure (pl_kind p = REJECTED \<or> pl_partition_spec p = s_partition_spec x)
                        StateTransitionError) (\<lambda>_.
               ensure (pl_parent p = Some (s_snapshot x) \<and> s_iceberg_seq x < pl_iceberg_seq p)
                 StateTransitionError)))"

section \<open>Inserts\<close>

definition snapshot_of_plan ::
    "snapshot_plan \<Rightarrow> snapshot_state \<Rightarrow> string option \<Rightarrow> string option \<Rightarrow> int \<Rightarrow> int \<Rightarrow> snapshot_row" where
  "snapshot_of_plan p st ec em seq now =
     \<lparr> s_seq = seq, s_source = pl_source p, s_snapshot = pl_snapshot p, s_parent = pl_parent p,
       s_iceberg_seq = pl_iceberg_seq p, s_partition_spec = pl_partition_spec p,
       s_committed = pl_committed p, s_operation = pl_operation p, s_kind = pl_kind p, s_state = st,
       s_error_code = bounded_error ec ERROR_CODE_LIMIT,
       s_error_message = bounded_error em ERROR_MESSAGE_LIMIT, s_created = now, s_updated = now \<rparr>"

definition snapshot_key :: "snapshot_row \<Rightarrow> uuid \<times> int" where
  "snapshot_key x = (s_source x, s_snapshot x)"

definition snapshot_matches_plan :: "snapshot_row \<Rightarrow> snapshot_plan \<Rightarrow> bool" where
  "snapshot_matches_plan x p =
     ((s_parent x, s_iceberg_seq x, s_partition_spec x, s_committed x, s_operation x, s_kind x) =
      (pl_parent p, pl_iceberg_seq p, pl_partition_spec p, pl_committed p, pl_operation p, pl_kind p))"

definition insert_or_validate_snapshot ::
    "snapshot_plan \<Rightarrow> snapshot_state \<Rightarrow> string option \<Rightarrow> string option \<Rightarrow> int \<Rightarrow> db \<Rightarrow>
     ((int \<times> bool) \<times> db) result" where
  "insert_or_validate_snapshot p st ec em now s =
     (let inserted = \<not> snapshot_known (pl_source p) (pl_snapshot p) s;
          row = snapshot_of_plan p st ec em (next_seq s) now
      in rbind (checked (s\<lparr> t_snapshots := insert_new snapshot_key row (t_snapshots s),
                            next_seq := next_seq s + 1 \<rparr>)) (\<lambda>s1.
         case lookup_by snapshot_key (pl_source p, pl_snapshot p) (t_snapshots s1) of
           None \<Rightarrow> Inl NoResultFound
         | Some x \<Rightarrow> rbind (ensure (snapshot_matches_plan x p) StateTransitionError) (\<lambda>_.
             Inr ((s_seq x, inserted), s1))))"

definition new_dataset :: "uuid \<Rightarrow> uuid \<Rightarrow> routing_identity \<Rightarrow> uuid \<Rightarrow> string \<Rightarrow> int \<Rightarrow> dataset_row" where
  "new_dataset did src route spec uri now =
     \<lparr> d_id = did, d_source = src, d_route = route, d_lifecycle = DATASET_ACTIVE, d_desired = spec,
       d_materialized = None, d_last_seq = None, d_uri = uri, d_version = None, d_active = None,
       d_fence = 0, d_created = now, d_updated = now \<rparr>"

definition insert_or_validate_dataset ::
    "(bytes \<Rightarrow> bytes) \<Rightarrow> iceberg_source \<Rightarrow> routing_identity \<Rightarrow> uuid \<Rightarrow> int \<Rightarrow> db \<Rightarrow>
     (dataset_row \<times> db) result" where
  "insert_or_validate_dataset sha1 src route spec now s =
     rbind (deterministic_dataset_id sha1 (source_id src) route) (\<lambda>did.
     rbind (ingest_uri (lance_base_uri src) did) (\<lambda>uri.
     rbind (checked (s\<lparr> t_datasets :=
              insert_new d_id (new_dataset did (source_id src) route spec uri now) (t_datasets s) \<rparr>)) (\<lambda>s1.
     case lookup_by d_id did (t_datasets s1) of
       None \<Rightarrow> Inl NoResultFound
     | Some d \<Rightarrow>
         rbind (ensure (d_source d = source_id src \<and> d_route d = route) StateTransitionError) (\<lambda>_.
         rbind (ensure (d_lifecycle d = DATASET_ACTIVE) StateTransitionError) (\<lambda>_.
         Inr (d, s1))))))"

text \<open>
  A new work row: the columns every insert leaves to their defaults, with the expectations frozen
  from the live dataset (\<open>frozen_expectations\<close>).
\<close>

definition new_work ::
    "uuid \<Rightarrow> dataset_row \<Rightarrow> int \<Rightarrow> uuid \<Rightarrow> work_kind \<Rightarrow> work_phase \<Rightarrow> int \<Rightarrow> work_row" where
  "new_work wid d seq spec kind phase now =
     \<lparr> w_id = wid, w_dataset = d_id d, w_source = d_source d, w_seq = seq, w_spec = spec, w_kind = kind,
       w_state = PENDING, w_phase = phase, w_token = None, w_expires = None, w_attempts = 0,
       w_launcher = LOCAL, w_next_at = now, w_exp_uri = d_uri d, w_exp_version = d_version d,
       w_exp_active = d_active d, w_cand_uri = None, w_cand_version = None, w_applied_at = None,
       w_row_count = None, w_source_digest = None, w_manifest_uri = None, w_manifest_digest = None,
       w_error_code = None, w_error_message = None, w_created = now, w_updated = now \<rparr>"

definition same_frozen_inputs :: "work_row \<Rightarrow> work_row \<Rightarrow> bool" where
  "same_frozen_inputs w v =
     ((w_dataset w, w_source w, w_seq w, w_spec w, w_kind w, w_exp_uri w, w_exp_version w, w_exp_active w) =
      (w_dataset v, w_source v, w_seq v, w_spec v, w_kind v, w_exp_uri v, w_exp_version v, w_exp_active v))"

definition insert_ingest_work :: "(bytes \<Rightarrow> bytes) \<Rightarrow> dataset_row \<Rightarrow> int \<Rightarrow> int \<Rightarrow> db \<Rightarrow> db result" where
  "insert_ingest_work sha1 d seq now s =
     rbind (deterministic_ingest_work_id sha1 (d_id d) seq) (\<lambda>wid.
     let row = new_work wid d seq (d_desired d) INGEST PH_INGEST now
     in rbind (checked (s\<lparr> t_work := insert_new w_id row (t_work s) \<rparr>)) (\<lambda>s1.
        case lookup_by w_id wid (t_work s1) of
          None \<Rightarrow> Inl NoResultFound
        | Some w \<Rightarrow> rbind (ensure (same_frozen_inputs w row) StateTransitionError) (\<lambda>_. Inr s1)))"

section \<open>Snapshot operations\<close>

text \<open>The opening of both enqueue methods: the locked ACTIVE source, the epoch fence and the guards.\<close>

definition enqueue_guards :: "snapshot_plan \<Rightarrow> db \<Rightarrow> source_row result" where
  "enqueue_guards p s =
     rbind (lock_source_for_planning (pl_source p) s) (\<lambda>src.
     rbind (ensure (r_lifecycle src = SOURCE_ACTIVE) StateTransitionError) (\<lambda>_.
     rbind (ensure (snapshot_known (pl_source p) (pl_snapshot p) s \<or> pl_epoch p = None \<or>
              pl_epoch p = Some (r_epoch src)) StaleSourcePlanError) (\<lambda>_.
     rbind (assert_source_gate_allows_snapshot (pl_source p) (pl_snapshot p) s) (\<lambda>_.
     rbind (assert_new_snapshot_extends_latest p s) (\<lambda>_. Inr src)))))"

definition mark_snapshot_complete :: "int \<Rightarrow> int \<Rightarrow> db \<Rightarrow> db result" where
  "mark_snapshot_complete seq now s =
     checked (s\<lparr> t_snapshots := update_where (\<lambda>x. s_seq x = seq \<and> s_state x \<noteq> SNAPSHOT_BLOCKED)
       (\<lambda>x. x\<lparr> s_state := COMPLETE, s_updated := now \<rparr>) (t_snapshots s) \<rparr>)"

definition enqueue_dataset ::
    "(bytes \<Rightarrow> bytes) \<Rightarrow> source_row \<Rightarrow> uuid \<Rightarrow> int \<Rightarrow> int \<Rightarrow> routing_identity \<Rightarrow> db \<Rightarrow> db result" where
  "enqueue_dataset sha1 src spec seq now route s =
     rbind (source_from_row src) (\<lambda>x.
     rbind (insert_or_validate_dataset sha1 x route spec now s) (\<lambda>(d, s1).
     insert_ingest_work sha1 d seq now s1))"

definition ingest_dataset_ids :: "int \<Rightarrow> db \<Rightarrow> uuid list" where
  "ingest_dataset_ids seq s = map w_dataset (filter (\<lambda>w. w_seq w = seq \<and> w_kind w = INGEST) (t_work s))"

text \<open>The replay of a known snapshot and the filling of a new one, the two ends of the enqueue method.\<close>

definition replay_snapshot :: "uuid list \<Rightarrow> int \<Rightarrow> int \<Rightarrow> db \<Rightarrow> (int \<times> db) result" where
  "replay_snapshot expected seq now s =
     rbind (ensure (set (ingest_dataset_ids seq s) = set expected) StateTransitionError) (\<lambda>_.
     if expected = [] then rbind (mark_snapshot_complete seq now s) (\<lambda>s1. Inr (seq, s1))
     else Inr (seq, s))"

definition fill_snapshot ::
    "(bytes \<Rightarrow> bytes) \<Rightarrow> source_row \<Rightarrow> routing_identity list \<Rightarrow> uuid list \<Rightarrow> int \<Rightarrow> int \<Rightarrow> db \<Rightarrow> (int \<times> db) result" where
  "fill_snapshot sha1 src validated expected seq now s =
     rbind (active_spec_revision_id (r_default_spec src) s) (\<lambda>spec.
     rbind (rfold (enqueue_dataset sha1 src spec seq now) validated s) (\<lambda>s1.
     if expected = [] then rbind (mark_snapshot_complete seq now s1) (\<lambda>s2. Inr (seq, s2))
     else Inr (seq, s1)))"

definition enqueue_source_snapshot ::
    "(bytes \<Rightarrow> bytes) \<Rightarrow> snapshot_plan \<Rightarrow> routing_identity list \<Rightarrow> int \<Rightarrow> db \<Rightarrow> (int \<times> db) result" where
  "enqueue_source_snapshot sha1 p routes now s =
     rbind (SourceSnapshotPlan_validate p) (\<lambda>_.
     rbind (ensure (pl_kind p \<noteq> REJECTED) ValueError) (\<lambda>_.
     rbind (rmap DatasetPlan_validate routes) (\<lambda>validated.
     rbind (ensure (\<not> (pl_kind p = TRUSTED_MAINTENANCE \<and> validated \<noteq> [])) StateTransitionError) (\<lambda>_.
     rbind (enqueue_guards p s) (\<lambda>src.
     rbind (insert_or_validate_snapshot p SEALED None None now s) (\<lambda>((seq, inserted), s1).
     rbind (rmap (deterministic_dataset_id sha1 (pl_source p)) validated) (\<lambda>expected.
     if \<not> inserted then replay_snapshot expected seq now s1
     else fill_snapshot sha1 src validated expected seq now s1)))))))"

definition bump_epoch :: "uuid \<Rightarrow> int \<Rightarrow> db \<Rightarrow> db result" where
  "bump_epoch src now s =
     checked (s\<lparr> t_sources := update_where (\<lambda>r. r_id r = src)
       (\<lambda>r. r\<lparr> r_epoch := r_epoch r + 1, r_updated := now \<rparr>) (t_sources s) \<rparr>)"

definition enqueue_blocked_source_snapshot ::
    "snapshot_plan \<Rightarrow> string \<Rightarrow> string option \<Rightarrow> int \<Rightarrow> db \<Rightarrow> (int \<times> db) result" where
  "enqueue_blocked_source_snapshot p ec em now s =
     rbind (SourceSnapshotPlan_validate p) (\<lambda>_.
     rbind (ensure (pl_kind p = REJECTED) ValueError) (\<lambda>_.
     rbind (enqueue_guards p s) (\<lambda>src.
     rbind (insert_or_validate_snapshot p SNAPSHOT_BLOCKED (Some ec) em now s) (\<lambda>((seq, inserted), s1).
     if inserted then rbind (bump_epoch (pl_source p) now s1) (\<lambda>s2. Inr (seq, s2))
     else (case lookup_by s_seq seq (t_snapshots s1) of
             None \<Rightarrow> Inl NoResultFound
           | Some x \<Rightarrow>
               rbind (ensure ((s_state x, s_error_code x, s_error_message x) =
                   (SNAPSHOT_BLOCKED, bounded_error (Some ec) ERROR_CODE_LIMIT,
                    bounded_error em ERROR_MESSAGE_LIMIT)) StateTransitionError) (\<lambda>_.
               Inr (seq, s1)))))))"

record snapshot_view =
  v_row :: snapshot_row
  v_table_uuid :: uuid
  v_epoch :: int
  v_blocked :: bool

definition latest_source_snapshot :: "uuid option \<Rightarrow> db \<Rightarrow> snapshot_view option result" where
  "latest_source_snapshot src s =
     rbind (case src of
              Some u \<Rightarrow> Inr (Some u)
            | None \<Rightarrow> (let ids = take 2 (map r_id (t_sources s))
                       in rbind (ensure (length ids \<le> 1) StateTransitionError) (\<lambda>_.
                          Inr (case ids of [] \<Rightarrow> None | u # _ \<Rightarrow> Some u)))) (\<lambda>sel.
     case sel of
       None \<Rightarrow> Inr None
     | Some u \<Rightarrow>
         (case lookup_by r_id u (t_sources s) of
            None \<Rightarrow> Inr None
          | Some r \<Rightarrow> Inr (map_option (\<lambda>x. \<lparr> v_row = x, v_table_uuid = r_table_uuid r,
              v_epoch = r_epoch r, v_blocked = source_gated u s \<rparr>) (latest_snapshot u s))))"

definition block_ingest_from :: "uuid \<Rightarrow> int \<Rightarrow> string option \<Rightarrow> string option \<Rightarrow> int \<Rightarrow> db \<Rightarrow> db result" where
  "block_ingest_from src seq ec em now s =
     checked (s\<lparr> t_work := update_where
       (\<lambda>w. w_source w = src \<and> seq \<le> w_seq w \<and> w_kind w = INGEST \<and> w_state w \<in> {PENDING, RETRY_WAIT})
       (\<lambda>w. w\<lparr> w_state := WORK_BLOCKED, w_token := None, w_expires := None, w_error_code := ec,
               w_error_message := em, w_updated := now \<rparr>) (t_work s) \<rparr>)"

definition set_snapshot_state ::
    "int \<Rightarrow> snapshot_state \<Rightarrow> string option \<Rightarrow> string option \<Rightarrow> int \<Rightarrow> db \<Rightarrow> db result" where
  "set_snapshot_state seq st ec em now s =
     checked (s\<lparr> t_snapshots := update_where (\<lambda>x. s_seq x = seq)
       (\<lambda>x. x\<lparr> s_state := st, s_error_code := ec, s_error_message := em, s_updated := now \<rparr>)
       (t_snapshots s) \<rparr>)"

definition block_source_snapshot ::
    "int \<Rightarrow> string \<Rightarrow> string option \<Rightarrow> int option \<Rightarrow> int \<Rightarrow> db \<Rightarrow> (bool \<times> db) result" where
  "block_source_snapshot seq ec em expected_epoch now s =
     (let pc = bounded_error (Some ec) ERROR_CODE_LIMIT;
          pm = bounded_error em ERROR_MESSAGE_LIMIT
      in case lookup_by s_seq seq (t_snapshots s) of
           None \<Rightarrow> Inr (False, s)
         | Some x \<Rightarrow>
             rbind (lock_source_for_planning (s_source x) s) (\<lambda>src.
             let same = (s_state x = SNAPSHOT_BLOCKED \<and> (s_error_code x, s_error_message x) = (pc, pm))
             in rbind (ensure (expected_epoch = None \<or> expected_epoch = Some (r_epoch src) \<or> same)
                         StaleSourcePlanError) (\<lambda>_.
                rbind (ensure (\<not> (s_state x = SNAPSHOT_BLOCKED \<and>
                          (s_error_code x, s_error_message x) \<noteq> (pc, pm))) StateTransitionError) (\<lambda>_.
                rbind (block_ingest_from (s_source x) seq pc pm now s) (\<lambda>s1.
                rbind (set_snapshot_state seq SNAPSHOT_BLOCKED pc pm now s1) (\<lambda>s2.
                if s_state x \<noteq> SNAPSHOT_BLOCKED
                then rbind (bump_epoch (s_source x) now s2) (\<lambda>s3. Inr (True, s3))
                else Inr (True, s2)))))))"

definition incomplete_ingest :: "int \<Rightarrow> db \<Rightarrow> bool" where
  "incomplete_ingest seq s =
     exists_where (\<lambda>w. w_seq w = seq \<and> w_kind w = INGEST \<and> w_state w \<noteq> SUCCEEDED) (t_work s)"

definition retry_blocked_source_snapshot :: "int \<Rightarrow> int \<Rightarrow> db \<Rightarrow> (bool \<times> db) result" where
  "retry_blocked_source_snapshot seq now s =
     (case lookup_by s_seq seq (t_snapshots s) of
        None \<Rightarrow> Inr (False, s)
      | Some x \<Rightarrow>
          rbind (lock_source_for_planning (s_source x) s) (\<lambda>_.
          if s_state x \<noteq> SNAPSHOT_BLOCKED then Inr (False, s)
          else rbind (ensure (s_kind x \<noteq> REJECTED) StateTransitionError) (\<lambda>_.
               rbind (set_snapshot_state seq (if incomplete_ingest seq s then SEALED else COMPLETE)
                        None None now s) (\<lambda>s1.
               rbind (bump_epoch (s_source x) now s1) (\<lambda>s2. Inr (True, s2))))))"

definition can_retry_blocked_source_snapshot :: "int \<Rightarrow> db \<Rightarrow> bool result" where
  "can_retry_blocked_source_snapshot seq s =
     (case lookup_by s_seq seq (t_snapshots s) of
        None \<Rightarrow> Inr False
      | Some x \<Rightarrow>
          if s_state x \<noteq> SNAPSHOT_BLOCKED then Inr False
          else rbind (ensure (s_kind x \<noteq> REJECTED) StateTransitionError) (\<lambda>_. Inr True))"

end
