(* ===== verification/Lease.thy ===== *)
theory Lease
  imports Enqueue
begin

text \<open>
  Fenced leases of \<open>state/repository.py\<close>: the claim query and its loop, lease expiry, the stale-work
  sweep, and the operations a worker performs under a claim (context, renewal, phase checkpoint,
  retry, block) with the operator's retry of blocked work. \<open>tok\<close> gives the random lease token drawn
  for a work row; \<open>lockw\<close> and \<open>lockd\<close> tell which work and dataset rows another transaction holds
  locked, which \<open>SKIP LOCKED\<close> passes over.
\<close>

record work_claim =
  c_work :: uuid
  c_dataset :: uuid
  c_kind :: work_kind
  c_phase :: work_phase
  c_token :: uuid
  c_fence :: int
  c_attempts :: int
  c_seq :: int
  c_spec :: uuid
  c_uri :: string
  c_version :: "int option"
  c_expires :: "int option"

section \<open>Predicates of the claim query\<close>

definition due_predicate :: "int \<Rightarrow> work_row \<Rightarrow> bool" where
  "due_predicate now w = (w_state w \<in> {PENDING, RETRY_WAIT} \<and> w_next_at w \<le> now)"

definition source_snapshot_allows_work :: "db \<Rightarrow> work_row \<Rightarrow> bool" where
  "source_snapshot_allows_work s w = (w_kind w \<noteq> INGEST \<or> \<not> source_gated (w_source w) s)"

definition kind_rank :: "work_kind \<Rightarrow> nat" where
  "kind_rank k = (if k = INGEST then 0 else 1)"

definition frozen_expectations_match_dataset :: "work_row \<Rightarrow> dataset_row \<Rightarrow> bool" where
  "frozen_expectations_match_dataset w d =
     (w_exp_uri w = d_uri d \<and> w_exp_version w = d_version d \<and> w_exp_active w = d_active d)"

definition precedes :: "work_row \<Rightarrow> work_row \<Rightarrow> bool" where
  "precedes e w = (w_seq e < w_seq w \<or> w_seq e = w_seq w \<and> kind_rank (w_kind e) < kind_rank (w_kind w))"

definition lane_order_predicate :: "db \<Rightarrow> dataset_row \<Rightarrow> work_row \<Rightarrow> bool" where
  "lane_order_predicate s d w =
     (\<not> exists_where (\<lambda>e. w_dataset e = w_dataset w \<and> w_id e \<noteq> w_id w \<and> w_state e \<noteq> SUCCEEDED \<and>
          (w_kind e = INGEST \<or> frozen_expectations_match_dataset e d) \<and> precedes e w) (t_work s))"

definition expected_state_predicate :: "dataset_row \<Rightarrow> work_row \<Rightarrow> bool" where
  "expected_state_predicate d w = (w_kind w = INGEST \<or> frozen_expectations_match_dataset w d)"

section \<open>Expiry and sweep\<close>

definition lease_expired :: "int \<Rightarrow> work_row \<Rightarrow> bool" where
  "lease_expired now w = (w_state w = RUNNING \<and> (case w_expires w of None \<Rightarrow> False | Some t \<Rightarrow> t \<le> now))"

definition release_expired_leases :: "int \<Rightarrow> db \<Rightarrow> db result" where
  "release_expired_leases now s =
     checked (s\<lparr> t_work := update_where (lease_expired now)
       (\<lambda>w. w\<lparr> w_state := RETRY_WAIT, w_token := None, w_expires := None, w_next_at := now,
               w_error_code := Some ''LEASE_EXPIRED'',
               w_error_message := Some ''previous worker lease expired'', w_updated := now \<rparr>)
       (t_work s) \<rparr>)"

definition stale_work :: "db \<Rightarrow> work_row \<Rightarrow> bool" where
  "stale_work s w =
     (w_kind w \<noteq> INGEST \<and> w_state w \<in> {PENDING, RETRY_WAIT} \<and>
      exists_where (\<lambda>d. d_id d = w_dataset w \<and> \<not> frozen_expectations_match_dataset w d) (t_datasets s))"

definition sweep_stale_work :: "int \<Rightarrow> db \<Rightarrow> db result" where
  "sweep_stale_work now s =
     checked (s\<lparr> t_work := update_where (stale_work s)
       (\<lambda>w. w\<lparr> w_state := WORK_BLOCKED, w_token := None, w_expires := None,
               w_error_code := bounded_error (Some ''EXPECTATION_STALE'') ERROR_CODE_LIMIT,
               w_error_message := bounded_error (Some
                 ''work frozen expectations no longer match dataset state after a newer generation published'')
                 ERROR_MESSAGE_LIMIT,
               w_updated := now \<rparr>)
       (t_work s) \<rparr>)"

section \<open>Claiming\<close>

definition claimable :: "int \<Rightarrow> db \<Rightarrow> work_row \<Rightarrow> bool" where
  "claimable now s w =
     exists_where (\<lambda>d. d_id d = w_dataset w \<and> due_predicate now w \<and> source_snapshot_allows_work s w \<and>
       lane_order_predicate s d w \<and> expected_state_predicate d w \<and> d_lifecycle d = DATASET_ACTIVE)
       (t_datasets s)"

definition claim_key :: "work_row \<Rightarrow> int \<times> nat \<times> int \<times> uuid" where
  "claim_key w = (w_seq w, kind_rank (w_kind w), w_created w, w_id w)"

definition claim_candidates :: "int \<Rightarrow> (uuid \<Rightarrow> bool) \<Rightarrow> nat \<Rightarrow> db \<Rightarrow> work_row list" where
  "claim_candidates now lockw limit s =
     take (limit * 4) (filter (\<lambda>w. \<not> lockw (w_id w))
       (sort_key claim_key (filter (claimable now s) (t_work s))))"

definition claim_work_row :: "uuid \<Rightarrow> int \<Rightarrow> int \<Rightarrow> int \<Rightarrow> dataset_row \<Rightarrow> work_row \<Rightarrow> work_row" where
  "claim_work_row token expires attempts now d w =
     (let w1 = w\<lparr> w_state := RUNNING, w_token := Some token, w_expires := Some expires,
                  w_attempts := attempts, w_error_code := None, w_error_message := None,
                  w_launcher := LOCAL, w_updated := now \<rparr>
      in if w_kind w = INGEST
         then w1\<lparr> w_exp_uri := d_uri d, w_exp_version := d_version d, w_exp_active := d_active d \<rparr>
         else w1)"

definition claim_locked_row ::
    "uuid \<Rightarrow> work_row \<Rightarrow> dataset_row \<Rightarrow> int \<Rightarrow> int \<Rightarrow> db \<Rightarrow> (work_claim option \<times> db) result" where
  "claim_locked_row token w d now duration s =
     (if w_state w \<notin> {PENDING, RETRY_WAIT} then Inr (None, s)
      else
        let fence = d_fence d + 1;
            attempts = w_attempts w + 1;
            expires = now + duration;
            p = (\<lambda>x. w_id x = w_id w \<and> w_state x \<in> {PENDING, RETRY_WAIT})
        in rbind (checked (s\<lparr> t_datasets := update_where (\<lambda>x. d_id x = w_dataset w)
                    (\<lambda>x. x\<lparr> d_fence := fence, d_updated := now \<rparr>) (t_datasets s) \<rparr>)) (\<lambda>s1.
           rbind (checked (s1\<lparr> t_work := update_where p
                    (claim_work_row token expires attempts now d) (t_work s1) \<rparr>)) (\<lambda>s2.
           rbind (ensure (count_where p (t_work s1) = 1) StateTransitionError) (\<lambda>_.
           Inr (Some \<lparr> c_work = w_id w, c_dataset = w_dataset w, c_kind = w_kind w, c_phase = w_phase w,
                       c_token = token, c_fence = fence, c_attempts = attempts, c_seq = w_seq w,
                       c_spec = w_spec w, c_uri = d_uri d, c_version = d_version d,
                       c_expires = Some expires \<rparr>, s2)))))"

fun claim_loop ::
    "(uuid \<Rightarrow> uuid) \<Rightarrow> (uuid \<Rightarrow> bool) \<Rightarrow> nat \<Rightarrow> int \<Rightarrow> int \<Rightarrow> work_row list \<Rightarrow> work_claim list \<Rightarrow> db \<Rightarrow>
     (work_claim list \<times> db) result" where
  "claim_loop tok lockd limit now duration [] claims s = Inr (claims, s)"
| "claim_loop tok lockd limit now duration (w # ws) claims s =
     (if limit \<le> length claims then Inr (claims, s)
      else if w_dataset w \<in> set (map c_dataset claims)
      then claim_loop tok lockd limit now duration ws claims s
      else (case (if lockd (w_dataset w) then None else lookup_by d_id (w_dataset w) (t_datasets s)) of
              None \<Rightarrow> claim_loop tok lockd limit now duration ws claims s
            | Some d \<Rightarrow>
                rbind (claim_locked_row (tok (w_id w)) w d now duration s) (\<lambda>(c, s1).
                claim_loop tok lockd limit now duration ws
                  (case c of None \<Rightarrow> claims | Some x \<Rightarrow> claims @ [x]) s1)))"

definition claim_due_work ::
    "(uuid \<Rightarrow> uuid) \<Rightarrow> (uuid \<Rightarrow> bool) \<Rightarrow> (uuid \<Rightarrow> bool) \<Rightarrow> int \<Rightarrow> int \<Rightarrow> int \<Rightarrow> db \<Rightarrow>
     (work_claim list \<times> db) result" where
  "claim_due_work tok lockw lockd limit duration now s =
     rbind (ensure (1 \<le> limit \<and> 0 < duration) ValueError) (\<lambda>_.
     rbind (release_expired_leases now s) (\<lambda>s1.
     rbind (sweep_stale_work now s1) (\<lambda>s2.
     claim_loop tok lockd (nat limit) now duration (claim_candidates now lockw (nat limit) s2) [] s2)))"

section \<open>Operations under a claim\<close>

definition lease_is_current :: "work_claim \<Rightarrow> int \<Rightarrow> db \<Rightarrow> work_row \<Rightarrow> bool" where
  "lease_is_current c now s w =
     (w_id w = c_work c \<and> w_dataset w = c_dataset c \<and> w_state w = RUNNING \<and> w_token w = Some (c_token c) \<and>
      (case w_expires w of None \<Rightarrow> False | Some t \<Rightarrow> now < t) \<and>
      exists_where (\<lambda>d. d_id d = c_dataset c \<and> d_fence d = c_fence c) (t_datasets s))"

text \<open>An \<open>UPDATE\<close> guarded by the lease predicate, returning whether exactly one row changed.\<close>

definition fenced_update :: "work_claim \<Rightarrow> int \<Rightarrow> (work_row \<Rightarrow> work_row) \<Rightarrow> db \<Rightarrow> (bool \<times> db) result" where
  "fenced_update c now f s =
     rbind (checked (s\<lparr> t_work := update_where (lease_is_current c now s) f (t_work s) \<rparr>)) (\<lambda>s1.
     Inr (count_where (lease_is_current c now s) (t_work s) = 1, s1))"

definition renew_lease :: "work_claim \<Rightarrow> int \<Rightarrow> int \<Rightarrow> db \<Rightarrow> (bool \<times> db) result" where
  "renew_lease c duration now s =
     rbind (ensure (0 < duration) ValueError) (\<lambda>_.
     fenced_update c now (\<lambda>w. w\<lparr> w_expires := Some (now + duration), w_updated := now \<rparr>) s)"

definition set_checkpoint ::
    "work_phase \<Rightarrow> string option \<Rightarrow> int option \<Rightarrow> string option \<Rightarrow> bytes option \<Rightarrow> int \<Rightarrow> work_row \<Rightarrow> work_row" where
  "set_checkpoint phase uri version manifest digest now w =
     (let w1 = w\<lparr> w_phase := phase, w_updated := now \<rparr>;
          w2 = (if uri \<noteq> None then w1\<lparr> w_cand_uri := uri, w_cand_version := version \<rparr> else w1);
          w3 = (if manifest \<noteq> None then w2\<lparr> w_manifest_uri := manifest \<rparr> else w2)
      in if digest \<noteq> None then w3\<lparr> w_manifest_digest := digest \<rparr> else w3)"

definition advance_phase ::
    "work_claim \<Rightarrow> work_phase \<Rightarrow> string option \<Rightarrow> int option \<Rightarrow> string option \<Rightarrow> bytes option \<Rightarrow> int \<Rightarrow> db \<Rightarrow>
     (bool \<times> db) result" where
  "advance_phase c phase uri version manifest digest now s =
     rbind (ensure (PHASE_ORDER (c_phase c) \<le> PHASE_ORDER phase) StateTransitionError) (\<lambda>_.
     rbind (ensure ((uri = None) = (version = None)) ValueError) (\<lambda>_.
     rbind (ensure (case digest of None \<Rightarrow> True | Some b \<Rightarrow> manifest \<noteq> None \<and> length b = 32) ValueError) (\<lambda>_.
     case lookup_by w_id (c_work c) (t_work s) of
       None \<Rightarrow> Inr (False, s)
     | Some w \<Rightarrow>
         if PHASE_ORDER phase < PHASE_ORDER (w_phase w) then Inr (False, s)
         else fenced_update c now (set_checkpoint phase uri version manifest digest now) s)))"

definition retry_work ::
    "work_claim \<Rightarrow> int \<Rightarrow> string \<Rightarrow> string \<Rightarrow> int \<Rightarrow> int \<Rightarrow> db \<Rightarrow> (bool \<times> db) result" where
  "retry_work c delay ec em max_attempts now s =
     rbind (ensure (0 \<le> delay) ValueError) (\<lambda>_.
     let exhausted = (max_attempts \<le> c_attempts c);
         pc = (if exhausted then ''MAX_ATTEMPTS_EXHAUSTED'' else ec);
         pm = (if exhausted then ec @ '': '' @ em else em)
     in fenced_update c now
          (\<lambda>w. w\<lparr> w_state := (if exhausted then WORK_BLOCKED else RETRY_WAIT), w_token := None,
                  w_expires := None, w_next_at := (if exhausted then now else now + delay),
                  w_error_code := bounded_error (Some pc) ERROR_CODE_LIMIT,
                  w_error_message := bounded_error (Some pm) ERROR_MESSAGE_LIMIT,
                  w_updated := now \<rparr>) s)"

definition block_work :: "work_claim \<Rightarrow> string \<Rightarrow> string \<Rightarrow> int \<Rightarrow> db \<Rightarrow> (bool \<times> db) result" where
  "block_work c ec em now s =
     fenced_update c now
       (\<lambda>w. w\<lparr> w_state := WORK_BLOCKED, w_token := None, w_expires := None,
               w_error_code := bounded_error (Some ec) ERROR_CODE_LIMIT,
               w_error_message := bounded_error (Some em) ERROR_MESSAGE_LIMIT, w_updated := now \<rparr>) s"

section \<open>Operator retry\<close>

definition retryable :: "uuid \<Rightarrow> db \<Rightarrow> work_row \<Rightarrow> bool" where
  "retryable wid s w = (w_id w = wid \<and> w_state w = WORK_BLOCKED \<and> source_snapshot_allows_work s w)"

definition retry_blocked_work :: "uuid \<Rightarrow> int \<Rightarrow> db \<Rightarrow> (bool \<times> db) result" where
  "retry_blocked_work wid now s =
     rbind (checked (s\<lparr> t_work := update_where (retryable wid s)
       (\<lambda>w. w\<lparr> w_state := PENDING, w_token := None, w_expires := None, w_next_at := now,
               w_error_code := None, w_error_message := None, w_updated := now \<rparr>) (t_work s) \<rparr>)) (\<lambda>s1.
     Inr (count_where (retryable wid s) (t_work s) = 1, s1))"

definition can_retry_blocked_work :: "uuid \<Rightarrow> db \<Rightarrow> bool" where
  "can_retry_blocked_work wid s = exists_where (retryable wid s) (t_work s)"

end
