(* ===== verification/Terminal.thy ===== *)
theory Terminal
  imports Lease
begin

text \<open>
  Terminal transitions of \<open>state/repository.py\<close>: completing an ingest (which advances the mutable
  dataset state and enqueues its publication), publishing a qualified candidate (which swaps the
  serving pointer), and the enqueueing of rebuilds.
\<close>

section \<open>Publication evidence\<close>

record index_evidence =
  e_index :: uuid
  e_type :: index_type
  e_indexed :: int
  e_unindexed :: int
  e_digest :: "bytes option"

record publication_evidence =
  ev_schema_digest :: bytes
  ev_total :: int
  ev_distinct :: int
  ev_live :: int
  ev_distinct_live :: int
  ev_fragments :: int
  ev_indexes :: "index_evidence list"

definition PublicationIndexEvidence_validate :: "index_evidence \<Rightarrow> unit result" where
  "PublicationIndexEvidence_validate e =
     rbind (ensure (0 \<le> min (e_indexed e) (e_unindexed e)) ValueError) (\<lambda>_.
     rbind (ensure (e_unindexed e = 0) ValueError) (\<lambda>_.
     ensure (case e_digest e of None \<Rightarrow> True | Some b \<Rightarrow> length b = 32) ValueError))"

fun validate_index_evidence :: "index_evidence list \<Rightarrow> uuid list \<Rightarrow> unit result" where
  "validate_index_evidence [] seen = Inr ()"
| "validate_index_evidence (e # es) seen =
     rbind (PublicationIndexEvidence_validate e) (\<lambda>_.
     rbind (ensure (e_index e \<notin> set seen) ValueError) (\<lambda>_.
     validate_index_evidence es (e_index e # seen)))"

definition PublicationEvidence_validate :: "publication_evidence \<Rightarrow> unit result" where
  "PublicationEvidence_validate ev =
     rbind (ensure (length (ev_schema_digest ev) = 32) ValueError) (\<lambda>_.
     rbind (ensure (0 \<le> Min {ev_total ev, ev_distinct ev, ev_live ev, ev_distinct_live ev, ev_fragments ev})
              ValueError) (\<lambda>_.
     rbind (ensure (ev_distinct ev = ev_total ev) ValueError) (\<lambda>_.
     rbind (ensure (ev_live ev \<le> ev_total ev) ValueError) (\<lambda>_.
     rbind (ensure (ev_distinct_live ev = ev_live ev) ValueError) (\<lambda>_.
     validate_index_evidence (ev_indexes ev) [])))))"

definition validate_publication_request ::
    "work_claim \<Rightarrow> int \<Rightarrow> string \<Rightarrow> bytes \<Rightarrow> publication_evidence \<Rightarrow> unit result" where
  "validate_publication_request c version manifest digest ev =
     rbind (ensure (c_kind c \<in> {PUBLISH, REBUILD}) ValueError) (\<lambda>_.
     rbind (ensure (0 \<le> version \<and> manifest \<noteq> [] \<and> length digest = 32) ValueError) (\<lambda>_.
     PublicationEvidence_validate ev))"

section \<open>Shared guards\<close>

definition assert_expectations_match :: "work_row \<Rightarrow> dataset_row \<Rightarrow> unit result" where
  "assert_expectations_match w d =
     ensure ((w_exp_uri w, w_exp_version w, w_exp_active w) = (d_uri d, d_version d, d_active d))
       StateTransitionError"

definition lock_work_and_state :: "work_claim \<Rightarrow> db \<Rightarrow> (work_row \<times> dataset_row) option" where
  "lock_work_and_state c s =
     (case (lookup_by w_id (c_work c) (t_work s), lookup_by d_id (c_dataset c) (t_datasets s)) of
        (Some w, Some d) \<Rightarrow> Some (w, d)
      | _ \<Rightarrow> None)"

definition locked_lease_matches :: "work_row \<Rightarrow> dataset_row \<Rightarrow> work_claim \<Rightarrow> int \<Rightarrow> bool" where
  "locked_lease_matches w d c now =
     (w_state w = RUNNING \<and> w_token w = Some (c_token c) \<and> d_fence d = c_fence c \<and>
      (case w_expires w of None \<Rightarrow> False | Some t \<Rightarrow> now < t))"

section \<open>Ingest completion\<close>

definition completed_ingest_matches ::
    "work_row \<Rightarrow> dataset_row \<Rightarrow> int \<Rightarrow> int \<Rightarrow> bytes \<Rightarrow> bool result" where
  "completed_ingest_matches w d version rows digest =
     (if w_state w \<noteq> SUCCEEDED then Inr False
      else rbind (ensure ((w_cand_version w, w_row_count w, w_source_digest w) =
                    (Some version, Some rows, Some digest) \<and>
                  (case d_last_seq d of None \<Rightarrow> False | Some q \<Rightarrow> w_seq w \<le> q)) StateTransitionError) (\<lambda>_.
           Inr True))"

definition publish_work_row ::
    "uuid \<Rightarrow> uuid \<Rightarrow> uuid \<Rightarrow> int \<Rightarrow> uuid \<Rightarrow> string \<Rightarrow> int \<Rightarrow> uuid option \<Rightarrow> int \<Rightarrow> work_row" where
  "publish_work_row wid did src seq spec uri version active now =
     \<lparr> w_id = wid, w_dataset = did, w_source = src, w_seq = seq, w_spec = spec, w_kind = PUBLISH,
       w_state = PENDING, w_phase = PH_COMPACT, w_token = None, w_expires = None, w_attempts = 0,
       w_launcher = LOCAL, w_next_at = now, w_exp_uri = uri, w_exp_version = Some version,
       w_exp_active = active, w_cand_uri = Some uri, w_cand_version = Some version, w_applied_at = None,
       w_row_count = None, w_source_digest = None, w_manifest_uri = None, w_manifest_digest = None,
       w_error_code = None, w_error_message = None, w_created = now, w_updated = now \<rparr>"

definition has_open_publication :: "uuid \<Rightarrow> db \<Rightarrow> bool" where
  "has_open_publication did s = exists_where (\<lambda>w. w_dataset w = did \<and> open_publish w) (t_work s)"

definition enqueue_publish_work ::
    "(bytes \<Rightarrow> bytes) \<Rightarrow> uuid \<Rightarrow> uuid \<Rightarrow> int \<Rightarrow> uuid \<Rightarrow> string \<Rightarrow> int \<Rightarrow> uuid option \<Rightarrow> int \<Rightarrow> db \<Rightarrow> db result" where
  "enqueue_publish_work sha1 did src seq spec uri version active now s =
     rbind (ensure (\<not> has_open_publication did s) StateTransitionError) (\<lambda>_.
     let wid = deterministic_publish_work_id sha1 did seq spec
     in checked (s\<lparr> t_work := insert_new w_id
          (publish_work_row wid did src seq spec uri version active now) (t_work s) \<rparr>))"

definition complete_snapshot_if_applied :: "int \<Rightarrow> int \<Rightarrow> db \<Rightarrow> db result" where
  "complete_snapshot_if_applied seq now s =
     checked (s\<lparr> t_snapshots := update_where
       (\<lambda>x. s_seq x = seq \<and> s_state x \<noteq> SNAPSHOT_BLOCKED \<and> \<not> incomplete_ingest seq s)
       (\<lambda>x. x\<lparr> s_state := COMPLETE, s_updated := now \<rparr>) (t_snapshots s) \<rparr>)"

definition complete_ingest ::
    "(bytes \<Rightarrow> bytes) \<Rightarrow> work_claim \<Rightarrow> int \<Rightarrow> int \<Rightarrow> bytes \<Rightarrow> int \<Rightarrow> db \<Rightarrow> (bool \<times> db) result" where
  "complete_ingest sha1 c version rows digest now s =
     rbind (ensure (c_kind c = INGEST) ValueError) (\<lambda>_.
     rbind (ensure (0 \<le> version \<and> 0 \<le> rows \<and> length digest = 32) ValueError) (\<lambda>_.
     case lock_work_and_state c s of
       None \<Rightarrow> Inr (False, s)
     | Some (w, d) \<Rightarrow>
         rbind (completed_ingest_matches w d version rows digest) (\<lambda>done.
         if done then Inr (True, s)
         else if \<not> locked_lease_matches w d c now then Inr (False, s)
         else
           rbind (assert_expectations_match w d) (\<lambda>_.
           rbind (checked (s\<lparr> t_datasets := update_where (\<lambda>x. d_id x = c_dataset c)
             (\<lambda>x. x\<lparr> d_materialized := Some (w_spec w), d_last_seq := Some (w_seq w),
                     d_uri := w_exp_uri w, d_version := Some version, d_updated := now \<rparr>)
             (t_datasets s) \<rparr>)) (\<lambda>s1.
           rbind (checked (s1\<lparr> t_work := update_where (\<lambda>x. w_id x = c_work c)
             (\<lambda>x. x\<lparr> w_state := SUCCEEDED, w_token := None, w_expires := None, w_applied_at := Some now,
                     w_row_count := Some rows, w_source_digest := Some digest,
                     w_cand_uri := Some (w_exp_uri w), w_cand_version := Some version,
                     w_updated := now \<rparr>)
             (t_work s1) \<rparr>)) (\<lambda>s2.
           rbind (enqueue_publish_work sha1 (c_dataset c) (w_source w) (w_seq w) (w_spec w) (w_exp_uri w)
             version (d_active d) now s2) (\<lambda>s3.
           rbind (complete_snapshot_if_applied (w_seq w) now s3) (\<lambda>s4. Inr (True, s4)))))))))"

section \<open>Publication\<close>

definition source_for_dataset :: "uuid \<Rightarrow> db \<Rightarrow> iceberg_source result" where
  "source_for_dataset did s =
     (case lookup_by d_id did (t_datasets s) of
        None \<Rightarrow> Inl NoResultFound
      | Some d \<Rightarrow> (case lookup_by r_id (d_source d) (t_sources s) of
                     None \<Rightarrow> Inl NoResultFound
                   | Some r \<Rightarrow> source_from_row r))"

definition validate_live_publication ::
    "work_claim \<Rightarrow> work_row \<Rightarrow> dataset_row \<Rightarrow> string \<Rightarrow> int \<Rightarrow> db \<Rightarrow> int result" where
  "validate_live_publication c w d uri version s =
     rbind (assert_expectations_match w d) (\<lambda>_.
     rbind (source_for_dataset (c_dataset c) s) (\<lambda>src.
     rbind (dataset_uri_matches_root (lance_base_uri src) (c_dataset c) uri) (\<lambda>own.
     rbind (ensure own StateTransitionError) (\<lambda>_.
     rbind (ensure (w_cand_uri w = None \<or> (w_cand_uri w, w_cand_version w) = (Some uri, Some version))
              StateTransitionError) (\<lambda>_.
     Inr (w_seq w))))))"

definition validate_publication_indexes :: "uuid \<Rightarrow> publication_evidence \<Rightarrow> db \<Rightarrow> unit result" where
  "validate_publication_indexes spec ev s =
     (let configured = map (\<lambda>r. (col ''index_definition_id'' r, col ''index_type'' r))
            (filter (\<lambda>r. col ''spec_revision_id'' r = Some (PUuid spec)) (t_indexes s));
          actual = map (\<lambda>e. (Some (PUuid (e_index e)), Some (PStr (enum_text index_types (e_type e)))))
            (ev_indexes ev)
      in ensure (dict_eq actual configured) StateTransitionError)"

definition validate_completed_publication ::
    "publication_row \<Rightarrow> dataset_row \<Rightarrow> string \<Rightarrow> int \<Rightarrow> string \<Rightarrow> bytes \<Rightarrow> publication_evidence \<Rightarrow> db \<Rightarrow>
     unit result" where
  "validate_completed_publication p d uri version manifest digest ev s =
     rbind (ensure ((p_uri p, p_version p, p_manifest_uri p, p_manifest_digest p, p_schema_digest p,
                     p_total p, p_distinct p, p_live p, p_distinct_live p, p_fragments p) =
                    (uri, version, manifest, digest, ev_schema_digest ev,
                     ev_total ev, ev_distinct ev, ev_live ev, ev_distinct_live ev, ev_fragments ev) \<and>
                    d_active d = Some (p_id p)) StateTransitionError) (\<lambda>_.
     let stored = map (\<lambda>x. (x_index x, (x_type x, x_indexed x, x_unindexed x, x_digest x)))
           (filter (\<lambda>x. x_publication x = p_id p) (t_pubindexes s));
         replayed = map (\<lambda>e. (e_index e, (e_type e, e_indexed e, e_unindexed e, e_digest e))) (ev_indexes ev)
     in ensure (dict_eq stored replayed) StateTransitionError)"

definition publication_of ::
    "uuid \<Rightarrow> work_claim \<Rightarrow> work_row \<Rightarrow> int \<Rightarrow> string \<Rightarrow> int \<Rightarrow> string \<Rightarrow> bytes \<Rightarrow> publication_evidence \<Rightarrow> int \<Rightarrow>
     publication_row" where
  "publication_of pid c w seq uri version manifest digest ev now =
     \<lparr> p_id = pid, p_dataset = c_dataset c, p_work = c_work c, p_spec = w_spec w, p_seq = seq, p_uri = uri,
       p_version = version, p_schema_digest = ev_schema_digest ev, p_total = ev_total ev,
       p_distinct = ev_distinct ev, p_live = ev_live ev, p_distinct_live = ev_distinct_live ev,
       p_fragments = ev_fragments ev, p_manifest_uri = manifest, p_manifest_digest = digest,
       p_published = now, p_retired = None \<rparr>"

definition insert_publication_index :: "uuid \<Rightarrow> uuid \<Rightarrow> index_evidence \<Rightarrow> db \<Rightarrow> db result" where
  "insert_publication_index pid spec e s =
     checked (s\<lparr> t_pubindexes := t_pubindexes s @
       [\<lparr> x_publication = pid, x_spec = spec, x_index = e_index e, x_type = e_type e,
          x_indexed = e_indexed e, x_unindexed = e_unindexed e, x_digest = e_digest e \<rparr>] \<rparr>)"

definition retire_publication :: "uuid option \<Rightarrow> int \<Rightarrow> db \<Rightarrow> db result" where
  "retire_publication prev now s =
     (case prev of
        None \<Rightarrow> Inr s
      | Some pid \<Rightarrow> checked (s\<lparr> t_publications := update_where (\<lambda>p. p_id p = pid)
          (\<lambda>p. p\<lparr> p_retired := Some now \<rparr>) (t_publications s) \<rparr>))"

definition swap_pointer ::
    "work_claim \<Rightarrow> work_row \<Rightarrow> uuid \<Rightarrow> string \<Rightarrow> int \<Rightarrow> int \<Rightarrow> dataset_row \<Rightarrow> dataset_row" where
  "swap_pointer c w pid uri version now x =
     (let x1 = x\<lparr> d_active := Some pid, d_updated := now \<rparr>
      in if c_kind c = REBUILD
         then x1\<lparr> d_uri := uri, d_version := Some version, d_materialized := Some (w_spec w) \<rparr>
         else x1)"

definition publish_dataset ::
    "(bytes \<Rightarrow> bytes) \<Rightarrow> work_claim \<Rightarrow> string \<Rightarrow> int \<Rightarrow> string \<Rightarrow> bytes \<Rightarrow> publication_evidence \<Rightarrow> int \<Rightarrow> db \<Rightarrow>
     (bool \<times> db) result" where
  "publish_dataset sha1 c uri version manifest digest ev now s =
     rbind (validate_publication_request c version manifest digest ev) (\<lambda>_.
     case lock_work_and_state c s of
       None \<Rightarrow> Inr (False, s)
     | Some (w, d) \<Rightarrow>
         let pid = deterministic_publication_id sha1 (c_work c)
         in case lookup_by p_id pid (t_publications s) of
              Some p \<Rightarrow>
                rbind (validate_completed_publication p d uri version manifest digest ev s) (\<lambda>_. Inr (True, s))
            | None \<Rightarrow>
                if \<not> locked_lease_matches w d c now then Inr (False, s)
                else
                  rbind (validate_live_publication c w d uri version s) (\<lambda>seq.
                  rbind (validate_publication_indexes (w_spec w) ev s) (\<lambda>_.
                  rbind (checked (s\<lparr> t_publications := t_publications s @
                    [publication_of pid c w seq uri version manifest digest ev now] \<rparr>)) (\<lambda>s1.
                  rbind (rfold (insert_publication_index pid (w_spec w)) (ev_indexes ev) s1) (\<lambda>s2.
                  rbind (retire_publication (d_active d) now s2) (\<lambda>s3.
                  rbind (checked (s3\<lparr> t_datasets := update_where (\<lambda>x. d_id x = c_dataset c)
                    (swap_pointer c w pid uri version now) (t_datasets s3) \<rparr>)) (\<lambda>s4.
                  rbind (checked (s4\<lparr> t_work := update_where (\<lambda>x. w_id x = c_work c)
                    (\<lambda>x. x\<lparr> w_state := SUCCEEDED, w_phase := PH_PUBLISH, w_token := None, w_expires := None,
                            w_cand_uri := Some uri, w_cand_version := Some version,
                            w_manifest_uri := Some manifest, w_manifest_digest := Some digest,
                            w_updated := now \<rparr>)
                    (t_work s4) \<rparr>)) (\<lambda>s5.
                  Inr (True, s5)))))))))"

section \<open>Rebuilds\<close>

definition dataset_and_state_for_identity :: "routing_identity \<Rightarrow> db \<Rightarrow> dataset_row result" where
  "dataset_and_state_for_identity route s =
     (case take 2 (filter (\<lambda>d. d_route d = route \<and> d_lifecycle d = DATASET_ACTIVE \<and>
             exists_where (\<lambda>r. r_id r = d_source d \<and> r_lifecycle r = SOURCE_ACTIVE) (t_sources s))
             (t_datasets s)) of
        [d] \<Rightarrow> Inr d
      | _ \<Rightarrow> Inl StateTransitionError)"

definition rebuild_work_row :: "uuid \<Rightarrow> dataset_row \<Rightarrow> int \<Rightarrow> uuid \<Rightarrow> string \<Rightarrow> int \<Rightarrow> work_row" where
  "rebuild_work_row wid d seq spec uri now =
     (new_work wid d seq spec REBUILD PH_COMPACT now)\<lparr> w_cand_uri := Some uri, w_cand_version := Some 0 \<rparr>"

definition enqueue_rebuild ::
    "(bytes \<Rightarrow> bytes) \<Rightarrow> routing_identity \<Rightarrow> uuid \<Rightarrow> int \<Rightarrow> db \<Rightarrow> (uuid \<times> db) result" where
  "enqueue_rebuild sha1 route req now s =
     rbind (RoutingIdentity_validate route) (\<lambda>_.
     rbind (dataset_and_state_for_identity route s) (\<lambda>d.
     case (d_last_seq d, d_version d) of
       (Some seq, Some _) \<Rightarrow>
         rbind (ensure (\<not> has_open_publication (d_id d) s) StateTransitionError) (\<lambda>_.
         let wid = deterministic_rebuild_work_id sha1 (d_id d) req
         in rbind (source_for_dataset (d_id d) s) (\<lambda>src.
            rbind (rebuild_uri (lance_base_uri src) (d_id d) wid) (\<lambda>uri.
            rbind (checked (s\<lparr> t_work := insert_new w_id
              (rebuild_work_row wid d seq (d_desired d) uri now) (t_work s) \<rparr>)) (\<lambda>s1.
            Inr (wid, s1)))))
     | _ \<Rightarrow> Inl StateTransitionError))"

definition assign_dataset_spec_revision ::
    "(bytes \<Rightarrow> bytes) \<Rightarrow> uuid \<Rightarrow> uuid \<Rightarrow> int \<Rightarrow> db \<Rightarrow> (uuid option \<times> db) result" where
  "assign_dataset_spec_revision sha1 did spec now s =
     (case lookup_by d_id did (t_datasets s) of
        None \<Rightarrow> Inl StateTransitionError
      | Some d \<Rightarrow>
          (case lookup_by (col ''spec_revision_id'') (Some (PUuid spec)) (t_specs s) of
             None \<Rightarrow> Inl StateTransitionError
           | Some r \<Rightarrow>
               rbind (ensure (col ''state'' r = Some (PStr ''ACTIVE'')) StateTransitionError) (\<lambda>_.
               rbind (checked (s\<lparr> t_datasets := update_where (\<lambda>x. d_id x = did)
                        (\<lambda>x. x\<lparr> d_desired := spec, d_updated := now \<rparr>) (t_datasets s) \<rparr>)) (\<lambda>s1.
               if d_materialized d = Some spec then Inr (None, s1)
               else (case (d_last_seq d, d_version d) of
                   (Some seq, Some _) \<Rightarrow>
                     if has_open_publication did s1 then Inr (None, s1)
                     else
                       let wid = deterministic_rebuild_work_id sha1 did spec
                       in rbind (source_for_dataset did s1) (\<lambda>src.
                          rbind (rebuild_uri (lance_base_uri src) did wid) (\<lambda>uri.
                          let row = rebuild_work_row wid d seq spec uri now
                          in rbind (checked (s1\<lparr> t_work := insert_new w_id row (t_work s1) \<rparr>)) (\<lambda>s2.
                             case lookup_by w_id wid (t_work s2) of
                               None \<Rightarrow> Inl NoResultFound
                             | Some w \<Rightarrow>
                                 rbind (ensure (same_frozen_inputs w row \<and> w_cand_uri w = w_cand_uri row)
                                   StateTransitionError) (\<lambda>_. Inr (Some wid, s2)))))
                 | _ \<Rightarrow> Inr (None, s1))))))"

end
