(* ===== verification/Retention.thy ===== *)
theory Retention
  imports Terminal
begin

text \<open>
  Read models and retention of \<open>state/repository.py\<close>: the serving catalogue, the Iceberg retention
  floor, the operational status, and the two-step cleanup of retired publications with the audit
  deletion. Publications with equal publication instants are ranked by \<open>tie\<close>, since the query leaves
  their order open.
\<close>

section \<open>Serving\<close>

record serving_dataset =
  sv_dataset :: uuid
  sv_route :: routing_identity
  sv_uri :: string
  sv_version :: int
  sv_publication :: uuid

definition serving_rows :: "routing_identity \<Rightarrow> db \<Rightarrow> (dataset_row \<times> publication_row) list" where
  "serving_rows route s =
     [(d, p). d \<leftarrow> t_datasets s, p \<leftarrow> t_publications s, r \<leftarrow> t_sources s,
        p_dataset p = d_id d \<and> d_active d = Some (p_id p) \<and> r_id r = d_source d \<and>
        d_route d = route \<and> d_lifecycle d = DATASET_ACTIVE \<and> r_lifecycle r = SOURCE_ACTIVE]"

definition resolve_serving_dataset :: "routing_identity \<Rightarrow> db \<Rightarrow> serving_dataset option result" where
  "resolve_serving_dataset route s =
     rbind (RoutingIdentity_validate route) (\<lambda>_.
     case take 2 (serving_rows route s) of
       [] \<Rightarrow> Inr None
     | [(d, p)] \<Rightarrow> Inr (Some \<lparr> sv_dataset = d_id d, sv_route = route, sv_uri = p_uri p,
                               sv_version = p_version p, sv_publication = p_id p \<rparr>)
     | _ \<Rightarrow> Inl StateTransitionError)"

section \<open>Retention floor and status\<close>

definition in_replay_horizon :: "int \<Rightarrow> db \<Rightarrow> snapshot_row \<Rightarrow> bool" where
  "in_replay_horizon now s x =
     exists_where (\<lambda>r. r_id r = s_source x \<and> now - r_replay_seconds r * 1000000 \<le> s_created x) (t_sources s)"

definition retention_candidates :: "int \<Rightarrow> db \<Rightarrow> int list" where
  "retention_candidates now s =
     map s_seq (filter (\<lambda>x. s_state x = SNAPSHOT_BLOCKED) (t_snapshots s)) @
     map w_seq (filter (\<lambda>w. w_state w \<noteq> SUCCEEDED) (t_work s)) @
     map s_seq (filter (in_replay_horizon now s) (t_snapshots s))"

definition sql_min :: "int list \<Rightarrow> int option" where
  "sql_min xs = (case xs of [] \<Rightarrow> None | y # ys \<Rightarrow> Some (fold min ys y))"

definition select_retention_floor :: "int \<Rightarrow> db \<Rightarrow> snapshot_row option" where
  "select_retention_floor now s =
     (case sql_min (retention_candidates now s) of
        None \<Rightarrow> None
      | Some q \<Rightarrow> lookup_by s_seq q (t_snapshots s))"

definition retention_floor :: "int \<Rightarrow> db \<Rightarrow> snapshot_row option" where
  "retention_floor now s = select_retention_floor now s"

record control_plane_status_view =
  st_pending :: nat
  st_running :: nat
  st_retry_wait :: nat
  st_blocked :: nat
  st_due :: nat
  st_blocked_snapshots :: nat
  st_oldest_open :: "int option"
  st_floor_seq :: "int option"
  st_floor_snapshot :: "int option"
  st_floor_parent :: "int option"
  st_floor_state :: "snapshot_state option"
  st_floor_created :: "int option"

definition control_plane_status :: "int \<Rightarrow> db \<Rightarrow> control_plane_status_view" where
  "control_plane_status now s =
     (let n = (\<lambda>st. count_where (\<lambda>w. w_state w = st) (t_work s));
          fl = select_retention_floor now s
      in \<lparr> st_pending = n PENDING, st_running = n RUNNING, st_retry_wait = n RETRY_WAIT,
           st_blocked = n WORK_BLOCKED, st_due = count_where (due_predicate now) (t_work s),
           st_blocked_snapshots = count_where (\<lambda>x. s_state x = SNAPSHOT_BLOCKED) (t_snapshots s),
           st_oldest_open = sql_min (map w_created (filter (\<lambda>w. w_state w \<noteq> SUCCEEDED) (t_work s))),
           st_floor_seq = map_option s_seq fl, st_floor_snapshot = map_option s_snapshot fl,
           st_floor_parent = Option.bind fl s_parent, st_floor_state = map_option s_state fl,
           st_floor_created = map_option s_created fl \<rparr>)"

section \<open>Publication cleanup\<close>

record publication_cleanup =
  k_publication :: uuid
  k_work :: uuid
  k_dataset :: uuid
  k_uri :: string
  k_version :: int
  k_manifest :: string
  k_pin :: string

definition PIN_PATTERN :: "string \<Rightarrow> bool" where
  "PIN_PATTERN v = (has_prefix ''candidate-'' v \<and> length v = 42 \<and>
     list_all (\<lambda>c. is_digit c \<or> c \<in> set ''abcdef'') (drop 10 v))"

definition candidate_pin_name :: "uuid \<Rightarrow> string result" where
  "candidate_pin_name w =
     (let name = ''candidate-'' @ hex_pad 32 (unat w)
      in rbind (ensure (PIN_PATTERN name) ValueError) (\<lambda>_. Inr name))"

definition publication_rank :: "(uuid \<Rightarrow> nat) \<Rightarrow> db \<Rightarrow> publication_row \<Rightarrow> nat" where
  "publication_rank tie s p =
     Suc (count_where (\<lambda>q. p_dataset q = p_dataset p \<and>
       (p_published p < p_published q \<or> p_published q = p_published p \<and> tie (p_id q) < tie (p_id p)))
       (t_publications s))"

definition publication_active :: "uuid \<Rightarrow> db \<Rightarrow> bool" where
  "publication_active pid s = exists_where (\<lambda>d. d_active d = Some pid) (t_datasets s)"

definition cleanup_due :: "(uuid \<Rightarrow> nat) \<Rightarrow> int \<Rightarrow> db \<Rightarrow> publication_row \<Rightarrow> bool" where
  "cleanup_due tie now s p =
     exists_where (\<lambda>r. col ''spec_revision_id'' r = Some (PUuid (p_spec p)) \<and>
       (case (p_retired p, col ''artifact_retention_seconds'' r, col ''retained_publications'' r) of
          (Some t, Some (PInt sec), Some (PInt keep)) \<Rightarrow>
            t + sec * 1000000 \<le> now \<and> keep < int (publication_rank tie s p) \<and>
            \<not> publication_active (p_id p) s
        | _ \<Rightarrow> False)) (t_specs s)"

definition cleanup_key :: "publication_row \<Rightarrow> int \<times> uuid" where
  "cleanup_key p = ((case p_retired p of None \<Rightarrow> 0 | Some t \<Rightarrow> t), p_id p)"

definition cleanup_of :: "publication_row \<Rightarrow> publication_cleanup result" where
  "cleanup_of p =
     rbind (candidate_pin_name (p_work p)) (\<lambda>pin.
     Inr \<lparr> k_publication = p_id p, k_work = p_work p, k_dataset = p_dataset p, k_uri = p_uri p,
           k_version = p_version p, k_manifest = p_manifest_uri p, k_pin = pin \<rparr>)"

definition claim_publication_cleanup ::
    "(uuid \<Rightarrow> nat) \<Rightarrow> int \<Rightarrow> int \<Rightarrow> db \<Rightarrow> publication_cleanup list result" where
  "claim_publication_cleanup tie now limit s =
     rbind (ensure (1 \<le> limit) ValueError) (\<lambda>_.
     rmap cleanup_of (take (nat limit) (sort_key cleanup_key
       (filter (cleanup_due tie now s) (t_publications s)))))"

definition finalize_publication_cleanup :: "publication_cleanup \<Rightarrow> db \<Rightarrow> (bool \<times> db) result" where
  "finalize_publication_cleanup k s =
     (case lookup_by p_id (k_publication k) (t_publications s) of
        None \<Rightarrow> Inr (True, s)
      | Some p \<Rightarrow>
          rbind (ensure ((p_work p, p_dataset p, p_uri p, p_version p, p_manifest_uri p) =
                         (k_work k, k_dataset k, k_uri k, k_version k, k_manifest k) \<and>
                         p_retired p \<noteq> None) StateTransitionError) (\<lambda>_.
          let active = publication_active (k_publication k) s;
              victim = (\<lambda>q. p_id q = k_publication k \<and> \<not> active)
          in rbind (checked (s\<lparr> t_pubindexes := delete_where
                      (\<lambda>x. x_publication x = k_publication k \<and> \<not> active) (t_pubindexes s) \<rparr>)) (\<lambda>s1.
             rbind (checked (s1\<lparr> t_publications := delete_where victim (t_publications s1) \<rparr>)) (\<lambda>s2.
             Inr (count_where victim (t_publications s1) = 1, s2)))))"

section \<open>Audit deletion\<close>

definition audit_victim :: "int \<Rightarrow> db \<Rightarrow> work_row \<Rightarrow> bool" where
  "audit_victim before s w =
     (w_state w = SUCCEEDED \<and> w_kind w = PUBLISH \<and> w_updated w < before \<and>
      \<not> exists_where (\<lambda>p. p_work p = w_id w) (t_publications s))"

definition audit_work_ids :: "int \<Rightarrow> int \<Rightarrow> db \<Rightarrow> uuid list" where
  "audit_work_ids before limit s =
     map w_id (take (nat limit) (sort_key (\<lambda>w. (w_updated w, w_id w)) (filter (audit_victim before s) (t_work s))))"

definition delete_completed_audit :: "int \<Rightarrow> int \<Rightarrow> db \<Rightarrow> ((nat \<times> nat) \<times> db) result" where
  "delete_completed_audit before limit s =
     rbind (ensure (1 \<le> limit) ValueError) (\<lambda>_.
     let gone = (\<lambda>w. w_id w \<in> set (audit_work_ids before limit s))
     in rbind (checked (s\<lparr> t_work := delete_where gone (t_work s) \<rparr>)) (\<lambda>s1.
        Inr ((count_where gone (t_work s), 0), s1)))"

end
