(* ===== verification/Protocol.thy ===== *)
theory Protocol
  imports Retention
begin

text \<open>
  The abstract protocol the control plane implements: a step relation on databases whose rules are
  the state changes a committed transaction is made of, with exactly the guards the correctness
  arguments need, and the invariants every reachable database satisfies. The refinement of the
  concrete methods is proved in the theory \<open>Refinement\<close>.
\<close>

section \<open>Steps\<close>

definition work_identity :: "work_row \<Rightarrow> uuid \<times> uuid \<times> uuid \<times> int \<times> uuid \<times> work_kind" where
  "work_identity w = (w_id w, w_dataset w, w_source w, w_seq w, w_spec w, w_kind w)"

definition quiet :: "work_row \<Rightarrow> work_row \<Rightarrow> bool" where
  "quiet w w' =
     (work_identity w' = work_identity w \<and> w_attempts w' = w_attempts w \<and>
      PHASE_ORDER (w_phase w) \<le> PHASE_ORDER (w_phase w') \<and>
      (w_state w' = RUNNING \<longrightarrow> w_state w = RUNNING \<and> w_token w' = w_token w) \<and>
      (w_state w = SUCCEEDED \<or> w_state w' = SUCCEEDED \<longrightarrow> w' = w))"

definition earlier_ingests_done :: "db \<Rightarrow> work_row \<Rightarrow> bool" where
  "earlier_ingests_done s w =
     list_all (\<lambda>e. w_dataset e = w_dataset w \<and> w_kind e = INGEST \<and> w_seq e < w_seq w \<longrightarrow>
       w_state e = SUCCEEDED) (t_work s)"

definition claim_db :: "uuid \<Rightarrow> int \<Rightarrow> int \<Rightarrow> dataset_row \<Rightarrow> work_row \<Rightarrow> db \<Rightarrow> db" where
  "claim_db token expires now d w s =
     s\<lparr> t_datasets := update_where (\<lambda>x. d_id x = w_dataset w)
          (\<lambda>x. x\<lparr> d_fence := d_fence d + 1, d_updated := now \<rparr>) (t_datasets s),
        t_work := update_where (\<lambda>x. w_id x = w_id w \<and> w_state x \<in> {PENDING, RETRY_WAIT})
          (claim_work_row token expires (w_attempts w + 1) now d) (t_work s) \<rparr>"

definition ingested_row :: "int \<Rightarrow> int \<Rightarrow> bytes \<Rightarrow> int \<Rightarrow> work_row \<Rightarrow> work_row \<Rightarrow> work_row" where
  "ingested_row version rows digest now w x =
     x\<lparr> w_state := SUCCEEDED, w_token := None, w_expires := None, w_applied_at := Some now,
        w_row_count := Some rows, w_source_digest := Some digest,
        w_cand_uri := Some (w_exp_uri w), w_cand_version := Some version, w_updated := now \<rparr>"

lemma ingested_row_simps [simp]:
  "w_id (ingested_row v n g now w x) = w_id x" "w_dataset (ingested_row v n g now w x) = w_dataset x"
  "w_seq (ingested_row v n g now w x) = w_seq x" "w_kind (ingested_row v n g now w x) = w_kind x"
  "w_state (ingested_row v n g now w x) = SUCCEEDED"
  by (simp_all add: ingested_row_def)

definition ingest_db :: "(bytes \<Rightarrow> bytes) \<Rightarrow> int \<Rightarrow> int \<Rightarrow> bytes \<Rightarrow> int \<Rightarrow> dataset_row \<Rightarrow> work_row \<Rightarrow> db \<Rightarrow> db" where
  "ingest_db sha1 version rows digest now d w s =
     (let s1 = s\<lparr> t_datasets := update_where (\<lambda>x. d_id x = w_dataset w)
            (\<lambda>x. x\<lparr> d_materialized := Some (w_spec w), d_last_seq := Some (w_seq w),
                    d_uri := w_exp_uri w, d_version := Some version, d_updated := now \<rparr>) (t_datasets s),
          t_work := insert_new w_id
            (publish_work_row (deterministic_publish_work_id sha1 (w_dataset w) (w_seq w) (w_spec w))
               (w_dataset w) (w_source w) (w_seq w) (w_spec w) (w_exp_uri w) version (d_active d) now)
            (update_where (\<lambda>x. w_id x = w_id w)
              (ingested_row version rows digest now w) (t_work s)) \<rparr>
      in s1\<lparr> t_snapshots := update_where
           (\<lambda>x. s_seq x = w_seq w \<and> s_state x \<noteq> SNAPSHOT_BLOCKED \<and> \<not> incomplete_ingest (w_seq w) s1)
           (\<lambda>x. x\<lparr> s_state := COMPLETE, s_updated := now \<rparr>) (t_snapshots s) \<rparr>)"

definition published_row :: "string \<Rightarrow> int \<Rightarrow> string \<Rightarrow> bytes \<Rightarrow> int \<Rightarrow> work_row \<Rightarrow> work_row" where
  "published_row uri version manifest digest now x =
     x\<lparr> w_state := SUCCEEDED, w_phase := PH_PUBLISH, w_token := None, w_expires := None,
        w_cand_uri := Some uri, w_cand_version := Some version,
        w_manifest_uri := Some manifest, w_manifest_digest := Some digest, w_updated := now \<rparr>"

text \<open>
  The rules: \<open>quietly\<close> changes work rows without starting or finishing any; \<open>claims\<close> starts one;
  \<open>ingests\<close> and \<open>publishes\<close> finish one; the others add or remove rows and move the gates.
\<close>

inductive cp_step :: "db \<Rightarrow> db \<Rightarrow> bool" where
  quietly:
    "\<lbrakk> s' = s\<lparr> t_work := map f (t_work s) \<rparr>; \<forall>w\<in>set (t_work s). quiet w (f w); constraints_ok s' \<rbrakk>
     \<Longrightarrow> cp_step s s'"
| claims:
    "\<lbrakk> w \<in> set (t_work s); w_state w \<in> {PENDING, RETRY_WAIT}; d \<in> set (t_datasets s);
       d_id d = w_dataset w; earlier_ingests_done s w; source_snapshot_allows_work s w;
       s' = claim_db token expires now d w s; constraints_ok s' \<rbrakk>
     \<Longrightarrow> cp_step s s'"
| ingests:
    "\<lbrakk> w \<in> set (t_work s); w_state w = RUNNING; w_kind w = INGEST; d \<in> set (t_datasets s);
       d_id d = w_dataset w; frozen_expectations_match_dataset w d;
       s' = ingest_db sha1 version rows digest now d w s; constraints_ok s' \<rbrakk>
     \<Longrightarrow> cp_step s s'"
| publishes:
    "\<lbrakk> w \<in> set (t_work s); w_state w = RUNNING; w_kind w \<noteq> INGEST; d \<in> set (t_datasets s);
       d_id d = w_dataset w; frozen_expectations_match_dataset w d;
       p_id p \<notin> p_id ` set (t_publications s); p_dataset p = w_dataset w; p_work p = w_id w;
       p_seq p = w_seq w; p_spec p = w_spec w; p_retired p = None;
       s' = s\<lparr> t_publications := (case d_active d of None \<Rightarrow> t_publications s @ [p]
                 | Some q \<Rightarrow> update_where (\<lambda>x. p_id x = q) (\<lambda>x. x\<lparr> p_retired := Some now \<rparr>)
                     (t_publications s @ [p])),
               t_pubindexes := xs,
               t_datasets := update_where (\<lambda>x. d_id x = w_dataset w) g (t_datasets s),
               t_work := update_where (\<lambda>x. w_id x = w_id w)
                 (published_row uri version manifest digest now) (t_work s) \<rparr>;
       \<forall>x. d_active (g x) = Some (p_id p) \<and> d_id (g x) = d_id x \<and> d_fence (g x) = d_fence x \<and>
         d_last_seq (g x) = d_last_seq x \<and> d_source (g x) = d_source x;
       constraints_ok s' \<rbrakk>
     \<Longrightarrow> cp_step s s'"
| allocates:
    "\<lbrakk> s' = s\<lparr> next_seq := next_seq s + 1 \<rparr>; constraints_ok s' \<rbrakk> \<Longrightarrow> cp_step s s'"
| seals:
    "\<lbrakk> \<not> snapshot_known (pl_source p) (pl_snapshot p) s;
       assert_source_gate_allows_snapshot (pl_source p) (pl_snapshot p) s = Inr ();
       assert_new_snapshot_extends_latest p s = Inr (); st \<noteq> COMPLETE;
       pl_kind p = REJECTED \<longleftrightarrow> st = SNAPSHOT_BLOCKED;
       s' = s\<lparr> t_snapshots := t_snapshots s @ [snapshot_of_plan p st ec em (next_seq s) now],
               next_seq := next_seq s + 1 \<rparr>; constraints_ok s' \<rbrakk>
     \<Longrightarrow> cp_step s s'"
| gates:
    "\<lbrakk> x \<in> set (t_snapshots s); s_seq x = seq;
       st = COMPLETE \<longrightarrow> \<not> incomplete_ingest seq s;
       s_kind x = REJECTED \<longrightarrow> st = s_state x;
       s' = s\<lparr> t_snapshots := update_where (\<lambda>y. s_seq y = seq)
         (\<lambda>y. y\<lparr> s_state := st, s_error_code := ec, s_error_message := em, s_updated := now \<rparr>)
         (t_snapshots s) \<rparr>; constraints_ok s' \<rbrakk>
     \<Longrightarrow> cp_step s s'"
| opens_dataset:
    "\<lbrakk> d_id d \<notin> d_id ` set (t_datasets s); d_last_seq d = None; d_active d = None; d_fence d = 0;
       s' = s\<lparr> t_datasets := t_datasets s @ [d] \<rparr>; constraints_ok s' \<rbrakk>
     \<Longrightarrow> cp_step s s'"
| opens_ingest:
    "\<lbrakk> w_id w \<notin> w_id ` set (t_work s); w_kind w = INGEST; w_state w = PENDING;
       \<forall>x\<in>set (t_snapshots s). s_seq x \<le> w_seq w \<and> (s_seq x = w_seq w \<longrightarrow> s_state x \<noteq> COMPLETE);
       s' = s\<lparr> t_work := t_work s @ [w] \<rparr>; constraints_ok s' \<rbrakk>
     \<Longrightarrow> cp_step s s'"
| opens_rebuild:
    "\<lbrakk> w_id w \<notin> w_id ` set (t_work s); w_kind w = REBUILD; w_state w = PENDING;
       s' = s\<lparr> t_work := t_work s @ [w] \<rparr>; constraints_ok s' \<rbrakk>
     \<Longrightarrow> cp_step s s'"
| desires:
    "\<lbrakk> s' = s\<lparr> t_datasets := map f (t_datasets s) \<rparr>;
       \<forall>x. \<exists>u t. f x = x\<lparr> d_desired := u, d_updated := t \<rparr>; constraints_ok s' \<rbrakk>
     \<Longrightarrow> cp_step s s'"
| configures:
    "\<lbrakk> s' = s\<lparr> t_sources := src, t_specs := spx, t_fields := fs, t_indexes := ix \<rparr>;
       \<forall>r\<in>set (t_sources s). \<exists>r'\<in>set src. r_id r' = r_id r \<and> r_epoch r \<le> r_epoch r'; constraints_ok s' \<rbrakk>
     \<Longrightarrow> cp_step s s'"
| forgets_publication:
    "\<lbrakk> \<not> publication_active pid s;
       s' = s\<lparr> t_pubindexes := delete_where (\<lambda>x. x_publication x = pid) (t_pubindexes s),
               t_publications := delete_where (\<lambda>p. p_id p = pid) (t_publications s) \<rparr>; constraints_ok s' \<rbrakk>
     \<Longrightarrow> cp_step s s'"
| forgets_work:
    "\<lbrakk> \<forall>w\<in>set (t_work s). q w \<longrightarrow> w_state w = SUCCEEDED \<and> w_kind w = PUBLISH;
       s' = s\<lparr> t_work := delete_where q (t_work s) \<rparr>; constraints_ok s' \<rbrakk>
     \<Longrightarrow> cp_step s s'"

text \<open>An empty control plane: only specifications and the unused snapshot sequence.\<close>

definition initial_db :: "db \<Rightarrow> bool" where
  "initial_db s =
     (t_sources s = [] \<and> t_datasets s = [] \<and> t_snapshots s = [] \<and> t_work s = [] \<and>
      t_publications s = [] \<and> t_pubindexes s = [] \<and> next_seq s = 1 \<and> constraints_ok s)"

abbreviation cp_steps :: "db \<Rightarrow> db \<Rightarrow> bool" where
  "cp_steps \<equiv> cp_step\<^sup>*\<^sup>*"

definition reachable_db :: "db \<Rightarrow> bool" where
  "reachable_db s = (\<exists>s0. initial_db s0 \<and> cp_steps s0 s)"

section \<open>What the constraints give\<close>

lemma constraints_ok_keys:
  assumes "constraints_ok s"
  shows "unique_key w_id (t_work s)" "unique_key d_id (t_datasets s)" "unique_key s_seq (t_snapshots s)"
    "unique_key p_id (t_publications s)" "unique_key r_id (t_sources s)"
    "unique_by (\<lambda>w. w_state w = RUNNING) w_dataset (t_work s)"
    "unique_key (\<lambda>x. (s_source x, s_iceberg_seq x)) (t_snapshots s)"
  using assms
  by (simp_all add: constraints_ok_def work_keys_def dataset_keys_def snapshot_keys_def
      publication_keys_def source_keys_def)

lemma work_row_unique: "constraints_ok s \<Longrightarrow> w \<in> set (t_work s) \<Longrightarrow> v \<in> set (t_work s) \<Longrightarrow> w_id w = w_id v \<Longrightarrow> w = v"
  by (rule unique_byD [OF constraints_ok_keys(1)]) auto

lemma dataset_row_unique:
  "constraints_ok s \<Longrightarrow> d \<in> set (t_datasets s) \<Longrightarrow> e \<in> set (t_datasets s) \<Longrightarrow> d_id d = d_id e \<Longrightarrow> d = e"
  by (rule unique_byD [OF constraints_ok_keys(2)]) auto

lemma snapshot_row_unique:
  "constraints_ok s \<Longrightarrow> x \<in> set (t_snapshots s) \<Longrightarrow> y \<in> set (t_snapshots s) \<Longrightarrow> s_seq x = s_seq y \<Longrightarrow> x = y"
  by (rule unique_byD [OF constraints_ok_keys(3)]) auto

lemma publication_row_unique:
  "constraints_ok s \<Longrightarrow> p \<in> set (t_publications s) \<Longrightarrow> q \<in> set (t_publications s) \<Longrightarrow> p_id p = p_id q \<Longrightarrow> p = q"
  by (rule unique_byD [OF constraints_ok_keys(4)]) auto

lemma work_refD:
  assumes "constraints_ok s" and "w \<in> set (t_work s)"
  shows "\<exists>d\<in>set (t_datasets s). d_id d = w_dataset w" "\<exists>x\<in>set (t_snapshots s). s_seq x = w_seq w"
  using assms by (auto simp: constraints_ok_def work_refs_def list_all_iff exists_where_iff)

lemma publication_refD:
  assumes "constraints_ok s" and "p \<in> set (t_publications s)"
  shows "\<exists>w\<in>set (t_work s). w_id w = p_work p \<and> w_dataset w = p_dataset p"
  using assms by (auto simp: constraints_ok_def publication_refs_def list_all_iff exists_where_iff)

lemma active_refD:
  assumes "constraints_ok s" and "d \<in> set (t_datasets s)" and "d_active d = Some q"
  shows "\<exists>p\<in>set (t_publications s). p_id p = q \<and> p_dataset p = d_id d"
  using assms by (fastforce simp: constraints_ok_def dataset_refs_def list_all_iff exists_where_iff)

lemma work_lease_shape:
  assumes "constraints_ok s" and "w \<in> set (t_work s)" and "w_state w = RUNNING"
  shows "w_token w \<noteq> None" "w_expires w \<noteq> None"
  using assms by (auto simp: constraints_ok_def work_keys_def list_all_iff work_check_def)

lemma cp_step_constraints: "cp_step s s' \<Longrightarrow> constraints_ok s'"
  by (induction rule: cp_step.induct) simp_all

lemma claim_db_simps [simp]:
  "t_sources (claim_db token ex now d w s) = t_sources s"
  "t_snapshots (claim_db token ex now d w s) = t_snapshots s"
  "t_publications (claim_db token ex now d w s) = t_publications s"
  "next_seq (claim_db token ex now d w s) = next_seq s"
  by (simp_all add: claim_db_def)

lemma ingest_db_simps [simp]:
  "t_sources (ingest_db sha1 v n g now d w s) = t_sources s"
  "t_publications (ingest_db sha1 v n g now d w s) = t_publications s"
  "next_seq (ingest_db sha1 v n g now d w s) = next_seq s"
  by (simp_all add: ingest_db_def Let_def)

lemma claim_work_row_simps [simp]:
  "work_identity (claim_work_row token ex n now d w) = work_identity w"
  "w_state (claim_work_row token ex n now d w) = RUNNING"
  "w_token (claim_work_row token ex n now d w) = Some token"
  "w_attempts (claim_work_row token ex n now d w) = n"
  "w_phase (claim_work_row token ex n now d w) = w_phase w"
  by (simp_all add: claim_work_row_def work_identity_def Let_def)

lemma claim_work_row_identity [simp]:
  "w_id (claim_work_row token ex n now d w) = w_id w"
  "w_dataset (claim_work_row token ex n now d w) = w_dataset w"
  "w_seq (claim_work_row token ex n now d w) = w_seq w"
  "w_kind (claim_work_row token ex n now d w) = w_kind w"
  by (simp_all add: claim_work_row_def Let_def)

lemma quiet_identity:
  assumes "quiet w w'"
  shows "w_id w' = w_id w" "w_dataset w' = w_dataset w" "w_seq w' = w_seq w" "w_kind w' = w_kind w"
proof -
  from assms have "work_identity w' = work_identity w" by (simp only: quiet_def)
  then show "w_id w' = w_id w" "w_dataset w' = w_dataset w" "w_seq w' = w_seq w" "w_kind w' = w_kind w"
    by (simp_all add: work_identity_def)
qed

lemma quiet_state:
  assumes "quiet w w'"
  shows "w_state w' = SUCCEEDED \<longleftrightarrow> w_state w = SUCCEEDED"
    "w_state w' = RUNNING \<Longrightarrow> w_state w = RUNNING \<and> w_token w' = w_token w"
    "w_state w = SUCCEEDED \<Longrightarrow> w' = w"
  using assms unfolding quiet_def by metis+

text \<open>
  How one step changes the rows of the work table, as the rules leave it: every row of the new table
  is an old row changed by one of the permitted row transitions, or a new unstarted row.
\<close>

inductive row_change :: "db \<Rightarrow> db \<Rightarrow> work_row \<Rightarrow> work_row \<Rightarrow> bool" for s s' where
  kept: "row_change s s' w w"
| moved: "quiet w w' \<Longrightarrow> row_change s s' w w'"
| started: "\<lbrakk> w_state w \<in> {PENDING, RETRY_WAIT}; earlier_ingests_done s w; source_snapshot_allows_work s w;
    work_identity w' = work_identity w; w_state w' = RUNNING; w_attempts w' = w_attempts w + 1;
    w_phase w' = w_phase w;
    \<forall>d\<in>set (t_datasets s). \<forall>d'\<in>set (t_datasets s'). d_id d = w_dataset w \<and> d_id d' = w_dataset w \<longrightarrow>
      d_fence d' = d_fence d + 1 \<rbrakk> \<Longrightarrow> row_change s s' w w'"
| finished: "\<lbrakk> w_state w = RUNNING; work_identity w' = work_identity w; w_state w' = SUCCEEDED;
    w_attempts w' = w_attempts w; PHASE_ORDER (w_phase w) \<le> PHASE_ORDER (w_phase w') \<rbrakk>
    \<Longrightarrow> row_change s s' w w'"

definition fresh_work :: "db \<Rightarrow> work_row \<Rightarrow> bool" where
  "fresh_work s w = (w_id w \<notin> w_id ` set (t_work s) \<and> w_state w = PENDING \<and>
     (w_kind w = INGEST \<longrightarrow>
        (\<forall>x\<in>set (t_snapshots s). s_seq x \<le> w_seq w \<and> (s_seq x = w_seq w \<longrightarrow> s_state x \<noteq> COMPLETE))))"

lemma work_identity_iff:
  "work_identity v = work_identity w \<longleftrightarrow>
     w_id v = w_id w \<and> w_dataset v = w_dataset w \<and> w_source v = w_source w \<and> w_seq v = w_seq w \<and>
     w_spec v = w_spec w \<and> w_kind v = w_kind w"
  by (simp add: work_identity_def)

lemma quiet_work_identity: "quiet w w' \<Longrightarrow> work_identity w' = work_identity w"
  by (simp only: quiet_def)

lemma row_change_identity: "row_change s s' w w' \<Longrightarrow> work_identity w' = work_identity w"
  by (induction rule: row_change.induct) (simp_all add: quiet_work_identity)

lemma ingest_db_work:
  "t_work (ingest_db sha1 v n g now d w s) =
     insert_new w_id
       (publish_work_row (deterministic_publish_work_id sha1 (w_dataset w) (w_seq w) (w_spec w))
          (w_dataset w) (w_source w) (w_seq w) (w_spec w) (w_exp_uri w) v (d_active d) now)
       (update_where (\<lambda>x. w_id x = w_id w) (ingested_row v n g now w) (t_work s))"
  by (simp add: ingest_db_def Let_def)

lemma incomplete_ingest_cong: "t_work s = t_work t \<Longrightarrow> incomplete_ingest q s = incomplete_ingest q t"
  by (simp add: incomplete_ingest_def)

lemma ingest_db_snapshots:
  "t_snapshots (ingest_db sha1 v n g now d w s) =
     update_where (\<lambda>x. s_seq x = w_seq w \<and> s_state x \<noteq> SNAPSHOT_BLOCKED \<and>
         \<not> incomplete_ingest (w_seq w) (ingest_db sha1 v n g now d w s))
       (\<lambda>x. x\<lparr> s_state := COMPLETE, s_updated := now \<rparr>) (t_snapshots s)"
proof -
  have "incomplete_ingest (w_seq w) (x\<lparr> t_snapshots := y \<rparr>) = incomplete_ingest (w_seq w) x" for x y
    by (rule incomplete_ingest_cong) simp
  then show ?thesis by (simp add: ingest_db_def Let_def)
qed

lemma work_change:
  assumes "cp_step s s'" and "constraints_ok s" and "w' \<in> set (t_work s')"
  shows "fresh_work s w' \<or> (\<exists>w\<in>set (t_work s). row_change s s' w w')"
  using assms(1)
proof cases
  case (quietly f)
  then obtain w where "w \<in> set (t_work s)" "w' = f w" using assms(3) by auto
  with quietly show ?thesis by (auto intro: row_change.moved)
next
  case (claims w d token expires now)
  from claims(7) assms(3) obtain x where x: "x \<in> set (t_work s)"
    "w' = (if w_id x = w_id w \<and> w_state x \<in> {PENDING, RETRY_WAIT}
           then claim_work_row token expires (w_attempts w + 1) now d x else x)"
    by (auto simp: claim_db_def set_update_where)
  show ?thesis
  proof (cases "w_id x = w_id w \<and> w_state x \<in> {PENDING, RETRY_WAIT}")
    case True
    then have "x = w" using work_row_unique [OF assms(2) x(1) claims(1)] by simp
    moreover have "d_fence f' = d_fence f + 1"
      if f: "f \<in> set (t_datasets s)" "f' \<in> set (t_datasets s')" "d_id f = w_dataset w" "d_id f' = w_dataset w" for f f'
    proof -
      from dataset_row_unique [OF assms(2) f(1) claims(3)] f(3) claims(4) have "f = d" by simp
      moreover from f(2,4) claims(7) have "d_fence f' = d_fence d + 1"
        by (auto simp: claim_db_def set_update_where split: if_splits)
      ultimately show ?thesis by simp
    qed
    ultimately show ?thesis using x claims
      by (intro disjI2 bexI [of _ x] row_change.started) auto
  next
    case False
    with x show ?thesis by (auto intro: row_change.kept)
  qed
next
  case (ingests w d sha1 version rows digest now)
  from ingests(7) assms(3) have "w' \<in> set (t_work (ingest_db sha1 version rows digest now d w s))" by simp
  then show ?thesis unfolding ingest_db_work
  proof (cases rule: insert_new_cases)
    case 1
    then obtain x where x: "x \<in> set (t_work s)"
      "w' = (if w_id x = w_id w then ingested_row version rows digest now w x else x)"
      by (auto simp: set_update_where)
    show ?thesis
    proof (cases "w_id x = w_id w")
      case True
      then have "x = w" using work_row_unique [OF assms(2) x(1) ingests(1)] by simp
      with x ingests show ?thesis
        by (intro disjI2 bexI [of _ x] row_change.finished) (auto simp: work_identity_def ingested_row_def)
    next
      case False
      with x show ?thesis by (auto intro: row_change.kept)
    qed
  next
    case 2
    then show ?thesis
      by (simp add: fresh_work_def publish_work_row_def image_update_where ingested_row_def)
  qed
next
  case (publishes w d p uri version manifest digest now g xs)
  then obtain x where x: "x \<in> set (t_work s)"
    "w' = (if w_id x = w_id w then published_row uri version manifest digest now x else x)"
    using assms(3) by (auto simp: set_update_where)
  show ?thesis
  proof (cases "w_id x = w_id w")
    case True
    then have "x = w" using work_row_unique [OF assms(2) x(1) publishes(1)] by simp
    moreover have "PHASE_ORDER ph \<le> 5" for ph by (cases ph) simp_all
    ultimately show ?thesis using x publishes
      by (intro disjI2 bexI [of _ x] row_change.finished) (auto simp: work_identity_def published_row_def)
  next
    case False
    with x show ?thesis by (auto intro: row_change.kept)
  qed
next
  case (opens_ingest w)
  then show ?thesis using assms(3) by (auto simp: fresh_work_def intro: row_change.kept)
next
  case (opens_rebuild w)
  then show ?thesis using assms(3) by (auto simp: fresh_work_def intro: row_change.kept)
next
  case (forgets_work q)
  then show ?thesis using assms(3) by (auto simp: set_delete_where intro: row_change.kept)
qed (use assms(3) in \<open>auto intro: row_change.kept\<close>)

section \<open>Ordered ingestion\<close>

text \<open>Within a dataset an INGEST runs or has succeeded only after every earlier one succeeded.\<close>

definition lane_inv :: "db \<Rightarrow> bool" where
  "lane_inv s =
     (\<forall>e\<in>set (t_work s). \<forall>w\<in>set (t_work s).
        w_dataset e = w_dataset w \<and> w_kind e = INGEST \<and> w_kind w = INGEST \<and> w_seq e < w_seq w \<and>
        w_state w \<in> {RUNNING, SUCCEEDED} \<longrightarrow> w_state e = SUCCEEDED)"

lemma row_change_succeeded: "row_change s s' w w' \<Longrightarrow> w_state w = SUCCEEDED \<Longrightarrow> w' = w"
  by (induction rule: row_change.induct) (auto dest: quiet_state(3))

lemma row_change_active:
  assumes "row_change s s' w w'" and "w_state w' \<in> {RUNNING, SUCCEEDED}"
  shows "w_state w \<in> {RUNNING, SUCCEEDED} \<or> earlier_ingests_done s w"
  using assms by (induction rule: row_change.induct) (simp_all, metis quiet_state)

lemma lane_inv_step:
  assumes "cp_step s s'" and "constraints_ok s" and "lane_inv s"
  shows "lane_inv s'"
  unfolding lane_inv_def
proof (intro ballI impI)
  fix e' w'
  assume e': "e' \<in> set (t_work s')" and w': "w' \<in> set (t_work s')"
    and h: "w_dataset e' = w_dataset w' \<and> w_kind e' = INGEST \<and> w_kind w' = INGEST \<and>
      w_seq e' < w_seq w' \<and> w_state w' \<in> {RUNNING, SUCCEEDED}"
  from work_change [OF assms(1,2) w'] h obtain w where w: "w \<in> set (t_work s)" "row_change s s' w w'"
    by (auto simp: fresh_work_def)
  note idw = row_change_identity [OF w(2), unfolded work_identity_iff]
  from work_change [OF assms(1,2) e'] consider "fresh_work s e'" | e where "e \<in> set (t_work s)" "row_change s s' e e'"
    by auto
  then show "w_state e' = SUCCEEDED"
  proof cases
    case 1
    from work_refD(2) [OF assms(2) w(1)] 1 h have "w_seq w \<le> w_seq e'" by (auto simp: fresh_work_def)
    with h idw show ?thesis by simp
  next
    case 2
    note ide = row_change_identity [OF 2(2), unfolded work_identity_iff]
    have "w_state w \<in> {RUNNING, SUCCEEDED} \<or> earlier_ingests_done s w"
      using row_change_active [OF w(2)] h by blast
    then have "w_state e = SUCCEEDED"
    proof
      assume "w_state w \<in> {RUNNING, SUCCEEDED}"
      then show ?thesis using assms(3) 2(1) w(1) h idw ide unfolding lane_inv_def by metis
    next
      assume "earlier_ingests_done s w"
      then show ?thesis using 2(1) h idw ide by (simp add: earlier_ingests_done_def list_all_iff)
    qed
    with row_change_succeeded [OF 2(2)] show ?thesis by simp
  qed
qed

text \<open>The dataset's applied sequence is the greatest one whose INGEST succeeded.\<close>

definition applied :: "db \<Rightarrow> uuid \<Rightarrow> int set" where
  "applied s did =
     w_seq ` {w \<in> set (t_work s). w_dataset w = did \<and> w_kind w = INGEST \<and> w_state w = SUCCEEDED}"

definition last_inv :: "db \<Rightarrow> bool" where
  "last_inv s =
     (\<forall>d\<in>set (t_datasets s). case d_last_seq d of
        None \<Rightarrow> applied s (d_id d) = {}
      | Some q \<Rightarrow> q \<in> applied s (d_id d) \<and> (\<forall>x\<in>applied s (d_id d). x \<le> q))"

lemma applied_iff:
  "q \<in> applied s did \<longleftrightarrow>
     (\<exists>w\<in>set (t_work s). w_dataset w = did \<and> w_kind w = INGEST \<and> w_state w = SUCCEEDED \<and> w_seq w = q)"
  by (auto simp: applied_def)

lemma applied_cong:
  assumes "\<And>w. w_kind w = INGEST \<Longrightarrow> w_state w = SUCCEEDED \<Longrightarrow> w \<in> set (t_work s') \<longleftrightarrow> w \<in> set (t_work s)"
  shows "applied s' did = applied s did"
  using assms by (auto simp: applied_def)

lemma applied_claim:
  shows "applied (claim_db token ex now d w s) did = applied s did"
proof (rule applied_cong)
  fix x :: work_row
  assume "w_kind x = INGEST" "w_state x = SUCCEEDED"
  then show "x \<in> set (t_work (claim_db token ex now d w s)) \<longleftrightarrow> x \<in> set (t_work s)"
    by (auto simp: claim_db_def set_update_where image_iff)
qed

lemma applied_quiet:
  assumes "\<forall>w\<in>set (t_work s). quiet w (f w)"
  shows "applied (s\<lparr> t_work := map f (t_work s) \<rparr>) did = applied s did"
proof (rule applied_cong)
  fix x :: work_row
  assume "w_state x = SUCCEEDED"
  with assms show "x \<in> set (t_work (s\<lparr> t_work := map f (t_work s) \<rparr>)) \<longleftrightarrow> x \<in> set (t_work s)"
    by (auto simp: image_iff) (metis quiet_state(1,3), metis quiet_state(3))
qed

lemma applied_ingest:
  assumes "constraints_ok s" and "w \<in> set (t_work s)" and "w_kind w = INGEST"
  shows "applied (ingest_db sha1 v n g now d w s) did =
    (if did = w_dataset w then insert (w_seq w) (applied s did) else applied s did)"
proof -
  let ?u = "update_where (\<lambda>x. w_id x = w_id w) (ingested_row v n g now w) (t_work s)"
  have "applied (ingest_db sha1 v n g now d w s) did =
      w_seq ` {x \<in> set ?u. w_dataset x = did \<and> w_kind x = INGEST \<and> w_state x = SUCCEEDED}"
    unfolding applied_def ingest_db_work insert_new_alt by (auto simp: publish_work_row_def)
  also have "set ?u = insert (ingested_row v n g now w w) (set (t_work s) - {w})"
    by (rule set_update_key [OF constraints_ok_keys(1) [OF assms(1)] assms(2)])
  finally have eq: "applied (ingest_db sha1 v n g now d w s) did = w_seq ` {x \<in>
      insert (ingested_row v n g now w w) (set (t_work s) - {w}).
      w_dataset x = did \<and> w_kind x = INGEST \<and> w_state x = SUCCEEDED}" .
  show ?thesis
  proof (cases "did = w_dataset w")
    case True
    then have "applied s did \<subseteq> insert (w_seq w) (w_seq ` {x \<in> set (t_work s) - {w}.
        w_dataset x = did \<and> w_kind x = INGEST \<and> w_state x = SUCCEEDED})"
      (is "_ \<subseteq> insert _ ?A")
      unfolding applied_def by blast
    moreover have "?A \<subseteq> applied s did" unfolding applied_def by blast
    moreover have "applied (ingest_db sha1 v n g now d w s) did = insert (w_seq w) ?A"
      unfolding eq using True assms(3)
      by (auto intro: image_eqI [of _ _ "ingested_row v n g now w w"])
    ultimately show ?thesis using True by auto
  next
    case False
    with assms(2) have "applied (ingest_db sha1 v n g now d w s) did = applied s did"
      unfolding eq by (auto simp: applied_def)
    with False show ?thesis by simp
  qed
qed

lemma applied_publish:
  assumes "constraints_ok s" and "w \<in> set (t_work s)" and "w_kind w \<noteq> INGEST"
    and "t_work s' = update_where (\<lambda>x. w_id x = w_id w) (published_row uri version manifest digest now) (t_work s)"
  shows "applied s' did = applied s did"
proof (rule applied_cong)
  fix x :: work_row
  assume x: "w_kind x = INGEST"
  have "set (t_work s') = insert (published_row uri version manifest digest now w) (set (t_work s) - {w})"
    unfolding assms(4) by (rule set_update_key [OF constraints_ok_keys(1) [OF assms(1)] assms(2)])
  then show "x \<in> set (t_work s') \<longleftrightarrow> x \<in> set (t_work s)"
    using x assms(3) by (auto simp: published_row_def)
qed

lemma dataset_change:
  assumes "cp_step s s'" and "constraints_ok s" and "d' \<in> set (t_datasets s')"
  shows "(d_id d' \<notin> d_id ` set (t_datasets s) \<and> d_last_seq d' = None \<and> d_active d' = None \<and>
      d_fence d' = 0 \<and> t_work s' = t_work s) \<or>
    (\<exists>d\<in>set (t_datasets s). d_id d' = d_id d \<and> d_source d' = d_source d \<and> d_fence d \<le> d_fence d' \<and>
       (d_last_seq d' = d_last_seq d \<and> applied s' (d_id d) = applied s (d_id d) \<or>
        (\<exists>w\<in>set (t_work s). w_dataset w = d_id d \<and> w_kind w = INGEST \<and> w_state w = RUNNING \<and>
           d_last_seq d' = Some (w_seq w) \<and> applied s' (d_id d) = insert (w_seq w) (applied s (d_id d)))))"
    (is "?new \<or> ?old")
  using assms(1)
proof cases
  case (quietly f)
  then show ?thesis using assms(3) applied_quiet [of s f] by (intro disjI2 bexI [of _ d']) auto
next
  case (claims w d token expires now)
  from claims(7) assms(3) obtain x where x: "x \<in> set (t_datasets s)"
    "d' = (if d_id x = w_dataset w then x\<lparr> d_fence := d_fence d + 1, d_updated := now \<rparr> else x)"
    by (auto simp: claim_db_def set_update_where)
  moreover have "x = d" if "d_id x = w_dataset w"
    using that dataset_row_unique [OF assms(2) x(1) claims(3)] claims(4) by simp
  ultimately show ?thesis using claims(7) applied_claim [of token expires now d w s]
    by (intro disjI2 bexI [of _ x]) auto
next
  case (ingests w d sha1 version rows digest now)
  from ingests(7) assms(3) obtain x where x: "x \<in> set (t_datasets s)"
    "d' = (if d_id x = w_dataset w then x\<lparr> d_materialized := Some (w_spec w), d_last_seq := Some (w_seq w),
                    d_uri := w_exp_uri w, d_version := Some version, d_updated := now \<rparr> else x)"
    by (auto simp: ingest_db_def Let_def set_update_where)
  with ingests applied_ingest [OF assms(2) ingests(1,3), of sha1 version rows digest now d]
  show ?thesis by (intro disjI2 bexI [of _ x]) auto
next
  case (publishes w d p uri version manifest digest now g xs)
  from publishes(13) assms(3) obtain x where x: "x \<in> set (t_datasets s)"
    "d' = (if d_id x = w_dataset w then g x else x)"
    by (auto simp: set_update_where)
  have "applied s' did = applied s did" for did
    by (rule applied_publish [OF assms(2) publishes(1,3)]) (simp add: publishes(13))
  with x publishes(14) show ?thesis by (intro disjI2 bexI [of _ x]) auto
next
  case (opens_dataset d)
  then show ?thesis using assms(3) by (auto simp: applied_def)
next
  case (opens_ingest w)
  then have "applied s' did = applied s did" for did by (auto simp: applied_def)
  with opens_ingest assms(3) show ?thesis by (intro disjI2 bexI [of _ d']) auto
next
  case (opens_rebuild w)
  then have "applied s' did = applied s did" for did by (auto simp: applied_def)
  with opens_rebuild assms(3) show ?thesis by (intro disjI2 bexI [of _ d']) auto
next
  case (desires f)
  from desires(1) assms(3) obtain x where x: "x \<in> set (t_datasets s)" "d' = f x" by auto
  moreover from desires(2) obtain u t where "f x = x\<lparr> d_desired := u, d_updated := t \<rparr>" by blast
  moreover have "applied s' did = applied s did" for did using desires(1) by (simp add: applied_def)
  ultimately show ?thesis by (intro disjI2 bexI [of _ x]) auto
next
  case (forgets_work q)
  have "applied s' did = applied s did" for did
    using forgets_work(1) unfolding forgets_work(2) by (intro applied_cong) (auto simp: set_delete_where)
  with forgets_work assms(3) show ?thesis by (intro disjI2 bexI [of _ d']) auto
qed (use assms(3) in \<open>auto simp: applied_def\<close>)

lemma last_inv_step:
  assumes "cp_step s s'" and "constraints_ok s" and "lane_inv s" and "last_inv s"
  shows "last_inv s'"
  unfolding last_inv_def
proof
  fix d' assume d': "d' \<in> set (t_datasets s')"
  show "case d_last_seq d' of None \<Rightarrow> applied s' (d_id d') = {}
      | Some q \<Rightarrow> q \<in> applied s' (d_id d') \<and> (\<forall>x\<in>applied s' (d_id d'). x \<le> q)"
    using dataset_change [OF assms(1,2) d']
  proof (elim disjE bexE conjE)
    assume "d_id d' \<notin> d_id ` set (t_datasets s)" "d_last_seq d' = None" "t_work s' = t_work s"
    moreover have "w_dataset w \<noteq> d_id d'" if "w \<in> set (t_work s)" for w
      using work_refD(1) [OF assms(2) that] \<open>d_id d' \<notin> _\<close> by (metis imageI)
    ultimately show ?thesis by (auto simp: applied_def)
  next
    fix d assume "d \<in> set (t_datasets s)" "d_id d' = d_id d" "d_last_seq d' = d_last_seq d"
      "applied s' (d_id d) = applied s (d_id d)"
    then show ?thesis using assms(4) by (auto simp: last_inv_def split: option.splits)
  next
    fix d w assume d: "d \<in> set (t_datasets s)" "d_id d' = d_id d"
      and w: "w \<in> set (t_work s)" "w_dataset w = d_id d" "w_kind w = INGEST" "w_state w = RUNNING"
      and eff: "d_last_seq d' = Some (w_seq w)" "applied s' (d_id d) = insert (w_seq w) (applied s (d_id d))"
    have "q \<le> w_seq w" if "q \<in> applied s (d_id d)" for q
    proof (rule ccontr)
      assume "\<not> q \<le> w_seq w"
      with that w have "w_state w = SUCCEEDED"
        using assms(3) unfolding applied_iff lane_inv_def by (metis insertCI linorder_not_le)
      with w(4) show False by simp
    qed
    then show ?thesis using d(2) eff by simp
  qed
qed

section \<open>Completed snapshots\<close>

definition complete_inv :: "db \<Rightarrow> bool" where
  "complete_inv s = (\<forall>x\<in>set (t_snapshots s). s_state x = COMPLETE \<longrightarrow> \<not> incomplete_ingest (s_seq x) s)"

lemma incomplete_ingest_iff:
  "incomplete_ingest q s \<longleftrightarrow> (\<exists>w\<in>set (t_work s). w_seq w = q \<and> w_kind w = INGEST \<and> w_state w \<noteq> SUCCEEDED)"
  by (simp add: incomplete_ingest_def exists_where_iff)

lemma incomplete_ingest_step:
  assumes "cp_step s s'" and "constraints_ok s" and "incomplete_ingest q s'"
  shows "incomplete_ingest q s \<or> (\<exists>w. fresh_work s w \<and> w_kind w = INGEST \<and> w_seq w = q)"
proof -
  from assms(3) obtain w' where w': "w' \<in> set (t_work s')" "w_seq w' = q" "w_kind w' = INGEST" "w_state w' \<noteq> SUCCEEDED"
    by (auto simp: incomplete_ingest_iff)
  from work_change [OF assms(1,2) w'(1)] show ?thesis
  proof
    assume "\<exists>w\<in>set (t_work s). row_change s s' w w'"
    then obtain w where w: "w \<in> set (t_work s)" "row_change s s' w w'" by blast
    moreover have "w_state w \<noteq> SUCCEEDED" using row_change_succeeded [OF w(2)] w'(4) by auto
    ultimately show ?thesis
      using w' row_change_identity [OF w(2)] unfolding incomplete_ingest_iff work_identity_iff by auto
  qed (use w' in blast)
qed

text \<open>A snapshot that is complete after a step was complete before, or the step found no open INGEST of it.\<close>

lemma complete_change:
  assumes "cp_step s s'" and "x' \<in> set (t_snapshots s')" and "s_state x' = COMPLETE"
  shows "\<not> incomplete_ingest (s_seq x') s' \<or>
    (\<exists>x\<in>set (t_snapshots s). s_seq x = s_seq x' \<and> s_state x = COMPLETE)"
  using assms(1)
proof cases
  case (ingests w d sha1 version rows digest now)
  from ingests(7) assms(2,3) show ?thesis
    by (auto simp: ingest_db_def Let_def set_update_where incomplete_ingest_def split: if_splits)
next
  case (seals p st ec em now)
  then show ?thesis using assms(2,3) by (auto simp: snapshot_of_plan_def)
next
  case (gates x seq st now em ec)
  then show ?thesis using assms(2,3)
    by (auto simp: set_update_where incomplete_ingest_def split: if_splits)
qed (use assms(2,3) in \<open>auto simp: claim_db_def\<close>)

lemma complete_inv_step:
  assumes "cp_step s s'" and "constraints_ok s" and "complete_inv s"
  shows "complete_inv s'"
  unfolding complete_inv_def
proof (intro ballI impI notI)
  fix x' assume x': "x' \<in> set (t_snapshots s')" "s_state x' = COMPLETE" and inc: "incomplete_ingest (s_seq x') s'"
  from complete_change [OF assms(1) x'] inc obtain x where x: "x \<in> set (t_snapshots s)"
    "s_seq x = s_seq x'" "s_state x = COMPLETE" by auto
  from incomplete_ingest_step [OF assms(1,2) inc] x assms(3) show False
    by (auto simp: complete_inv_def fresh_work_def)
qed

end
