(* ===== verification/Transition.thy ===== *)
theory Transition
  imports Main
begin

text \<open>
  The two contracts the control plane's correctness arguments rest on. An \<open>invariant_system\<close> is a step
  relation with a predicate every step keeps. A \<open>fenced_system\<close> adds ownership tokens: \<open>held s c\<close> says
  that the token \<open>c\<close> is honoured in \<open>s\<close>, \<open>reached s c\<close> that the fence of \<open>c\<close> has been passed out; a
  token that is not honoured once its fence is out is not honoured after the next step either.
\<close>

locale invariant_system =
  fixes step :: "'s \<Rightarrow> 's \<Rightarrow> bool" and inv :: "'s \<Rightarrow> bool"
  assumes inv_step: "step s t \<Longrightarrow> inv s \<Longrightarrow> inv t"
begin

lemma inv_steps:
  assumes "step\<^sup>*\<^sup>* s t" and "inv s"
  shows "inv t"
  using assms by (induction rule: rtranclp_induct) (auto intro: inv_step)

lemma relates_steps:
  assumes "step\<^sup>*\<^sup>* s t" and "inv s"
    and "\<And>u. R u u" and "\<And>u v w. R u v \<Longrightarrow> R v w \<Longrightarrow> R u w"
    and "\<And>u v. step u v \<Longrightarrow> inv u \<Longrightarrow> R u v"
  shows "R s t"
  using assms(1)
proof (induction rule: rtranclp_induct)
  case base
  then show ?case by (rule assms(3))
next
  case (step t u)
  then show ?case using inv_steps [OF step(1) assms(2)] assms(4,5) by blast
qed

end

locale fenced_system = invariant_system step inv
  for step :: "'s \<Rightarrow> 's \<Rightarrow> bool" and inv :: "'s \<Rightarrow> bool" +
  fixes held :: "'s \<Rightarrow> 'c \<Rightarrow> bool" and reached :: "'s \<Rightarrow> 'c \<Rightarrow> bool"
  assumes reached_step: "step s t \<Longrightarrow> inv s \<Longrightarrow> reached s c \<Longrightarrow> reached t c"
    and lost_step: "step s t \<Longrightarrow> inv s \<Longrightarrow> reached s c \<Longrightarrow> \<not> held s c \<Longrightarrow> \<not> held t c"
begin

lemma reached_steps:
  assumes "step\<^sup>*\<^sup>* s t" and "inv s" and "reached s c"
  shows "reached t c"
  using assms(3) relates_steps [OF assms(1,2), of "\<lambda>u v. reached u c \<longrightarrow> reached v c"] reached_step by blast

lemma lost_steps:
  assumes "step\<^sup>*\<^sup>* s t" and "inv s" and "reached s c" and "\<not> held s c"
  shows "\<not> held t c"
  using assms(3,4) relates_steps [OF assms(1,2), of "\<lambda>u v. reached u c \<and> \<not> held u c \<longrightarrow> reached v c \<and> \<not> held v c"]
    reached_step lost_step by blast

end

end
