(* ===== verification/Protocol_Invariants.thy ===== *)
theory Protocol_Invariants
  imports Protocol Transition
begin

text \<open>
  The remaining invariants of the abstract protocol: publications and the serving pointer, the
  lineage of durable source snapshots, the terminal state of work and the monotonicity of fences,
  collected in \<open>cp_inv\<close>, which holds in every reachable database.
\<close>

section \<open>Publications\<close>

definition publication_inv :: "db \<Rightarrow> bool" where
  "publication_inv s =
     (\<forall>p\<in>set (t_publications s). (p_retired p = None \<longleftrightarrow> publication_active (p_id p) s) \<and>
        (\<forall>w\<in>set (t_work s). w_id w = p_work p \<longrightarrow> w_state w = SUCCEEDED))"

lemma publication_active_iff: "publication_active pid s \<longleftrightarrow> (\<exists>d\<in>set (t_datasets s). d_active d = Some pid)"
  by (simp add: publication_active_def exists_where_iff)

lemma publication_active_step:
  assumes "t_datasets s' = map f (t_datasets s)" and "\<And>d. d \<in> set (t_datasets s) \<Longrightarrow> d_active (f d) = d_active d"
  shows "publication_active pid s' = publication_active pid s"
  using assms by (auto simp: publication_active_iff)

lemma publication_active_update:
  assumes "t_datasets s' = update_where q f (t_datasets s)" and "\<And>d. d_active (f d) = d_active d"
  shows "publication_active pid s' = publication_active pid s"
  using assms by (intro publication_active_step [of _ "\<lambda>r. if q r then f r else r"]) (auto simp: update_where_def)

lemma publication_work_step:
  assumes "cp_step s s'" and "constraints_ok s" and "publication_inv s"
    and "p \<in> set (t_publications s)" and "w' \<in> set (t_work s')" and "w_id w' = p_work p"
  shows "w_state w' = SUCCEEDED"
  using work_change [OF assms(1,2,5)]
proof
  assume "fresh_work s w'"
  moreover from publication_refD [OF assms(2,4)] assms(6) have "w_id w' \<in> w_id ` set (t_work s)" by force
  ultimately show ?thesis by (simp add: fresh_work_def)
next
  assume "\<exists>w\<in>set (t_work s). row_change s s' w w'"
  then obtain w where w: "w \<in> set (t_work s)" "row_change s s' w w'" by blast
  then have "w_id w = p_work p" using row_change_identity [OF w(2)] assms(6) by (simp add: work_identity_iff)
  with assms(3,4) w(1) have "w_state w = SUCCEEDED" by (simp add: publication_inv_def)
  with row_change_succeeded [OF w(2)] show ?thesis by simp
qed

lemma active_owner_unique:
  assumes "constraints_ok s" and "d \<in> set (t_datasets s)" and "e \<in> set (t_datasets s)"
    and "d_active d = Some q" and "d_active e = Some q"
  shows "e = d"
proof -
  from active_refD [OF assms(1,2,4)] obtain p where p: "p \<in> set (t_publications s)" "p_id p = q" "p_dataset p = d_id d"
    by blast
  from active_refD [OF assms(1,3,5)] obtain p' where p': "p' \<in> set (t_publications s)" "p_id p' = q" "p_dataset p' = d_id e"
    by blast
  from publication_row_unique [OF assms(1) p(1) p'(1)] p p' have "d_id e = d_id d" by simp
  then show ?thesis using dataset_row_unique [OF assms(1,3,2)] by simp
qed

lemma publication_retired_step:
  assumes "cp_step s s'" and "constraints_ok s" and "publication_inv s" and "p' \<in> set (t_publications s')"
  shows "p_retired p' = None \<longleftrightarrow> publication_active (p_id p') s'"
  using assms(1)
proof cases
  case (claims w d token expires now)
  have "publication_active pid s' = publication_active pid s" for pid
    unfolding claims(7) claim_db_def
    by (rule publication_active_update [where q = "\<lambda>x. d_id x = w_dataset w"
        and f = "\<lambda>x. x\<lparr> d_fence := d_fence d + 1, d_updated := now \<rparr>"]) simp_all
  with claims(7) assms(3,4) show ?thesis by (simp add: publication_inv_def)
next
  case (ingests w d sha1 version rows digest now)
  have "publication_active pid s' = publication_active pid s" for pid
    unfolding ingests(7) ingest_db_def Let_def
    by (rule publication_active_update [where q = "\<lambda>x. d_id x = w_dataset w"
        and f = "\<lambda>x. x\<lparr> d_materialized := Some (w_spec w), d_last_seq := Some (w_seq w),
          d_uri := w_exp_uri w, d_version := Some version, d_updated := now \<rparr>"]) simp_all
  with ingests(7) assms(3,4) show ?thesis by (simp add: publication_inv_def)
next
  case (publishes w d p uri version manifest digest now g xs)
  have ds: "set (t_datasets s') = insert (g d) (set (t_datasets s) - {d})"
    unfolding publishes(13)
    using set_update_key [OF constraints_ok_keys(2) [OF assms(2)] publishes(4), of g] publishes(5) by simp
  have act: "publication_active pid s' \<longleftrightarrow>
      pid = p_id p \<or> publication_active pid s \<and> d_active d \<noteq> Some pid" for pid
    using publishes(4,14) active_owner_unique [OF assms(2) publishes(4)]
    unfolding publication_active_iff ds by auto
  have new: "\<not> publication_active (p_id p) s"
    using publishes(7) active_refD [OF assms(2)] unfolding publication_active_iff by (metis image_eqI)
  have "set (t_publications s') = (\<lambda>q. if Some (p_id q) = d_active d
      then q\<lparr> p_retired := Some now \<rparr> else q) ` insert p (set (t_publications s))"
    unfolding publishes(13) by (cases "d_active d") (simp_all add: set_update_where)
  then obtain q where q: "q \<in> insert p (set (t_publications s))"
    "p' = (if Some (p_id q) = d_active d then q\<lparr> p_retired := Some now \<rparr> else q)"
    using assms(4) by blast
  have nd: "d_active d \<noteq> Some (p_id p)" using new publishes(4) by (auto simp: publication_active_iff)
  show ?thesis
  proof (cases "q = p")
    case True
    with q nd publishes(12) show ?thesis by (simp add: act)
  next
    case False
    with q have q': "q \<in> set (t_publications s)" by simp
    then have "p_id q \<noteq> p_id p" using publishes(7) by (metis imageI)
    with q q' assms(3) show ?thesis by (auto simp: act publication_inv_def)
  qed
next
  case (opens_dataset d)
  then show ?thesis using assms(3,4) by (auto simp: publication_inv_def publication_active_iff)
next
  case (desires f)
  have "publication_active pid s' = publication_active pid s" for pid
  proof (rule publication_active_step)
    show "t_datasets s' = map f (t_datasets s)" using desires(1) by simp
    show "d_active (f d) = d_active d" for d
    proof -
      from desires(2) obtain u t where "f d = d\<lparr> d_desired := u, d_updated := t \<rparr>" by blast
      then show ?thesis by simp
    qed
  qed
  with desires(1) assms(3,4) show ?thesis by (simp add: publication_inv_def)
next
  case (forgets_publication pid)
  then show ?thesis using assms(3,4) by (auto simp: publication_inv_def publication_active_def set_delete_where)
qed (use assms(3,4) in \<open>auto simp: publication_inv_def publication_active_def\<close>)

lemma publication_inv_step:
  assumes "cp_step s s'" and "constraints_ok s" and "publication_inv s"
  shows "publication_inv s'"
  unfolding publication_inv_def
proof (intro ballI conjI impI)
  fix p' assume p': "p' \<in> set (t_publications s')"
  show "p_retired p' = None \<longleftrightarrow> publication_active (p_id p') s'"
    by (rule publication_retired_step [OF assms p'])
  fix w' assume w': "w' \<in> set (t_work s')" "w_id w' = p_work p'"
  show "w_state w' = SUCCEEDED"
  proof (cases "\<exists>p\<in>set (t_publications s). p_work p = p_work p'")
    case True
    then show ?thesis using publication_work_step [OF assms _ w'(1)] w'(2) by metis
  next
    case False
    from assms(1) show ?thesis
    proof cases
      case (publishes w d p uri version manifest digest now g xs)
      have "p_work p' = w_id w"
        using p' False publishes(9,13) by (auto simp: set_update_where split: option.splits if_splits)
      then show ?thesis using w' publishes(13) by (auto simp: set_update_where published_row_def split: if_splits)
    qed (use p' False in \<open>auto simp: claim_db_def set_delete_where\<close>)
  qed
qed

section \<open>Source lineage\<close>

definition extends_snapshot :: "snapshot_row \<Rightarrow> snapshot_row \<Rightarrow> bool" where
  "extends_snapshot x y =
     (s_parent y = Some (s_snapshot x) \<and> s_iceberg_seq x < s_iceberg_seq y \<and> s_seq x < s_seq y \<and>
      s_kind x \<noteq> REJECTED \<and> s_kind y \<noteq> BASELINE \<and>
      (s_kind y = REJECTED \<or> s_partition_spec y = s_partition_spec x))"

definition lineage_of :: "uuid \<Rightarrow> db \<Rightarrow> snapshot_row list" where
  "lineage_of src s = filter (\<lambda>x. s_source x = src) (t_snapshots s)"

definition linear_lineage :: "snapshot_row list \<Rightarrow> bool" where
  "linear_lineage l = (successively extends_snapshot l \<and> (l = [] \<or> s_kind (hd l) \<in> {BASELINE, REJECTED}))"

definition lineage_inv :: "db \<Rightarrow> bool" where
  "lineage_inv s =
     ((\<forall>src. linear_lineage (lineage_of src s)) \<and> 1 \<le> next_seq s \<and>
      (\<forall>x\<in>set (t_snapshots s). (s_kind x = REJECTED \<longrightarrow> s_state x = SNAPSHOT_BLOCKED) \<and>
         1 \<le> s_seq x \<and> s_seq x < next_seq s))"

lemma max_row_append:
  assumes "\<And>x. x \<in> set xs \<Longrightarrow> key x < key y"
  shows "max_row key (xs @ [y]) = Some y"
  using assms by (induction xs) auto

lemma max_row_None [simp]: "max_row key xs = None \<longleftrightarrow> xs = []"
  by (cases xs) (auto split: option.splits)

lemma latest_snapshot_last:
  assumes "linear_lineage (lineage_of src s)"
  shows "latest_snapshot src s = (if lineage_of src s = [] then None else Some (last (lineage_of src s)))"
proof (cases "lineage_of src s" rule: rev_cases)
  case Nil
  then show ?thesis by (simp add: latest_snapshot_def lineage_of_def)
next
  case (snoc ys y)
  have "successively (\<lambda>a b. s_iceberg_seq a < s_iceberg_seq b) (ys @ [y])"
    using assms unfolding linear_lineage_def snoc by (auto elim!: successively_mono simp: extends_snapshot_def)
  then have "sorted_wrt (\<lambda>a b. s_iceberg_seq a < s_iceberg_seq b) (ys @ [y])"
    by (subst (asm) successively_conv_sorted_wrt) (auto intro: transpI)
  then have "max_row s_iceberg_seq (ys @ [y]) = Some y"
    by (intro max_row_append) (auto simp: sorted_wrt_append)
  then show ?thesis using snoc by (simp add: latest_snapshot_def lineage_of_def)
qed

definition same_lineage_fields :: "snapshot_row \<Rightarrow> snapshot_row \<Rightarrow> bool" where
  "same_lineage_fields x y =
     ((s_seq x, s_source x, s_snapshot x, s_parent x, s_iceberg_seq x, s_partition_spec x, s_kind x) =
      (s_seq y, s_source y, s_snapshot y, s_parent y, s_iceberg_seq y, s_partition_spec y, s_kind y))"

lemma linear_lineage_map:
  assumes "\<And>x. x \<in> set l \<Longrightarrow> same_lineage_fields (h x) x"
  shows "linear_lineage (map h l) = linear_lineage l"
proof -
  have "extends_snapshot (h x) (h y) = extends_snapshot x y" if "x \<in> set l" "y \<in> set l" for x y
    using assms [OF that(1)] assms [OF that(2)] by (simp add: extends_snapshot_def same_lineage_fields_def)
  then have "successively extends_snapshot (map h l) = successively extends_snapshot l"
    unfolding successively_map by (intro successively_cong) auto
  moreover have "l \<noteq> [] \<Longrightarrow> s_kind (hd (map h l)) = s_kind (hd l)"
    using assms by (cases l) (auto simp: same_lineage_fields_def)
  ultimately show ?thesis by (cases l) (auto simp: linear_lineage_def)
qed

lemma lineage_inv_map:
  assumes "lineage_inv s" and "t_snapshots s' = map h (t_snapshots s)" and "next_seq s' = next_seq s"
    and "\<And>x. x \<in> set (t_snapshots s) \<Longrightarrow> same_lineage_fields (h x) x"
    and "\<And>x. x \<in> set (t_snapshots s) \<Longrightarrow> s_kind x = REJECTED \<Longrightarrow> s_state (h x) = s_state x"
  shows "lineage_inv s'"
proof -
  have eq: "lineage_of src s' = map h (lineage_of src s)" for src
  proof -
    have "filter (\<lambda>x. s_source x = src) (map h l) = map h (filter (\<lambda>x. s_source x = src) l)"
      if "\<And>x. x \<in> set l \<Longrightarrow> same_lineage_fields (h x) x" for l
      using that by (induction l) (auto simp: same_lineage_fields_def)
    then show ?thesis using assms(2,4) by (simp add: lineage_of_def)
  qed
  have "linear_lineage (lineage_of src s')" for src
    unfolding eq using assms(1,4) by (subst linear_lineage_map) (auto simp: lineage_of_def lineage_inv_def)
  with assms show ?thesis by (auto simp: lineage_inv_def same_lineage_fields_def)
qed

lemma lineage_inv_update:
  assumes "lineage_inv s" and "t_snapshots s' = update_where q f (t_snapshots s)" and "next_seq s' = next_seq s"
    and "\<And>x. same_lineage_fields (f x) x"
    and "\<And>x. x \<in> set (t_snapshots s) \<Longrightarrow> q x \<Longrightarrow> s_kind x = REJECTED \<Longrightarrow> s_state (f x) = s_state x"
  shows "lineage_inv s'"
proof (rule lineage_inv_map [OF assms(1)])
  show "t_snapshots s' = map (\<lambda>r. if q r then f r else r) (t_snapshots s)"
    using assms(2) by (simp add: update_where_def)
qed (use assms in \<open>auto simp: same_lineage_fields_def\<close>)

lemma lineage_inv_seal:
  assumes inv: "lineage_inv s" and new: "\<not> snapshot_known (pl_source p) (pl_snapshot p) s"
    and gate: "assert_source_gate_allows_snapshot (pl_source p) (pl_snapshot p) s = Inr ()"
    and ext: "assert_new_snapshot_extends_latest p s = Inr ()"
    and rej: "pl_kind p = REJECTED \<longleftrightarrow> st = SNAPSHOT_BLOCKED"
    and s': "s' = s\<lparr> t_snapshots := t_snapshots s @ [snapshot_of_plan p st ec em (next_seq s) now],
                     next_seq := next_seq s + 1 \<rparr>"
  shows "lineage_inv s'"
proof -
  let ?y = "snapshot_of_plan p st ec em (next_seq s) now"
  let ?l = "lineage_of (pl_source p) s"
  from gate new have ungated: "\<not> source_gated (pl_source p) s"
    by (auto simp: assert_source_gate_allows_snapshot_def split: if_splits)
  have lin: "linear_lineage ?l" using inv by (simp add: lineage_inv_def)
  have "linear_lineage (?l @ [?y])"
  proof (cases "?l = []")
    case True
    with ext new latest_snapshot_last [OF lin] show ?thesis
      by (auto simp: assert_new_snapshot_extends_latest_def linear_lineage_def snapshot_of_plan_def ensure_Inr_iff)
  next
    case False
    let ?x = "last ?l"
    from False have x: "?x \<in> set ?l" by simp
    then have x': "?x \<in> set (t_snapshots s)" "s_source ?x = pl_source p" unfolding lineage_of_def by auto
    then have "s_kind ?x \<noteq> REJECTED" using inv ungated
      by (auto simp: lineage_inv_def source_gated_def exists_where_iff)
    moreover have "s_seq ?x < next_seq s" using inv x'(1) by (simp add: lineage_inv_def)
    ultimately have "extends_snapshot ?x ?y"
      using ext new False latest_snapshot_last [OF lin]
      by (auto simp: assert_new_snapshot_extends_latest_def extends_snapshot_def snapshot_of_plan_def
          rbind_Inr_iff ensure_Inr_iff)
    with lin False show ?thesis by (auto simp: linear_lineage_def successively_append_iff)
  qed
  moreover have "lineage_of src s' = (if src = pl_source p then ?l @ [?y] else lineage_of src s)" for src
    using s' by (auto simp: lineage_of_def snapshot_of_plan_def)
  moreover have "s_state ?y = st" "s_kind ?y = pl_kind p" "s_seq ?y = next_seq s"
    by (simp_all add: snapshot_of_plan_def)
  ultimately show ?thesis using inv rej s' by (auto simp: lineage_inv_def)
qed

lemma lineage_inv_step:
  assumes "cp_step s s'" and "constraints_ok s" and "lineage_inv s"
  shows "lineage_inv s'"
  using assms(1)
proof cases
  case (ingests w d sha1 version rows digest now)
  have "lineage_inv (ingest_db sha1 version rows digest now d w s)"
    by (rule lineage_inv_update [OF assms(3) ingest_db_snapshots])
      (use assms(3) in \<open>auto simp: same_lineage_fields_def lineage_inv_def\<close>)
  with ingests(7) show ?thesis by simp
next
  case (seals p st ec em now)
  then show ?thesis using lineage_inv_seal [OF assms(3)] by blast
next
  case (gates x seq st now em ec)
  have "s_state y = st" if "y \<in> set (t_snapshots s)" "s_seq y = seq" "s_kind y = REJECTED" for y
    using snapshot_row_unique [OF assms(2) that(1) gates(1)] that gates(2,4) by simp
  then show ?thesis unfolding gates(5)
    by (intro lineage_inv_update [OF assms(3), where q = "\<lambda>y. s_seq y = seq"
        and f = "\<lambda>y. y\<lparr> s_state := st, s_error_code := ec, s_error_message := em, s_updated := now \<rparr>"])
      (auto simp: same_lineage_fields_def)
qed (use assms(3) in \<open>auto simp: lineage_inv_def lineage_of_def claim_db_def\<close>)

section \<open>The invariant of reachable databases\<close>

definition cp_inv :: "db \<Rightarrow> bool" where
  "cp_inv s = (constraints_ok s \<and> lane_inv s \<and> last_inv s \<and> complete_inv s \<and> publication_inv s \<and> lineage_inv s)"

lemma cp_inv_step: "cp_step s s' \<Longrightarrow> cp_inv s \<Longrightarrow> cp_inv s'"
  using cp_step_constraints lane_inv_step last_inv_step complete_inv_step publication_inv_step lineage_inv_step
  unfolding cp_inv_def by blast

lemma cp_inv_initial: "initial_db s \<Longrightarrow> cp_inv s"
  by (simp add: cp_inv_def initial_db_def lane_inv_def last_inv_def complete_inv_def publication_inv_def
      lineage_inv_def lineage_of_def linear_lineage_def)

interpretation cp: invariant_system cp_step cp_inv
  by unfold_locales (rule cp_inv_step)

lemmas cp_inv_steps = cp.inv_steps

lemma cp_inv_reachable: "reachable_db s \<Longrightarrow> cp_inv s"
  unfolding reachable_db_def using cp_inv_steps cp_inv_initial by blast

section \<open>Fences\<close>

definition claim_held :: "db \<Rightarrow> work_claim \<Rightarrow> bool" where
  "claim_held s c =
     (exists_where (\<lambda>w. w_id w = c_work c \<and> w_dataset w = c_dataset c \<and> w_state w = RUNNING \<and>
        w_token w = Some (c_token c)) (t_work s) \<and>
      exists_where (\<lambda>d. d_id d = c_dataset c \<and> d_fence d = c_fence c) (t_datasets s))"

definition fence_reached :: "db \<Rightarrow> work_claim \<Rightarrow> bool" where
  "fence_reached s c = exists_where (\<lambda>d. d_id d = c_dataset c \<and> c_fence c \<le> d_fence d) (t_datasets s)"

lemma datasets_kept:
  assumes "cp_step s s'"
  shows "d_id ` set (t_datasets s) \<subseteq> d_id ` set (t_datasets s')"
  using assms
proof cases
  case (claims w e token expires now)
  then show ?thesis by (simp add: claim_db_def image_update_where)
next
  case (ingests w e sha1 version rows digest now)
  then show ?thesis by (simp add: ingest_db_def Let_def image_update_where)
next
  case (publishes w e p uri version manifest digest now g xs)
  then show ?thesis by (simp add: image_update_where)
next
  case (desires f)
  have "d_id (f d) = d_id d" for d
  proof -
    from desires(2) obtain u t where "f d = d\<lparr> d_desired := u, d_updated := t \<rparr>" by blast
    then show ?thesis by simp
  qed
  then show ?thesis using desires(1) by (simp add: image_image)
qed auto

lemma dataset_old:
  assumes "cp_step s s'" and "constraints_ok s" and "d' \<in> set (t_datasets s')"
    and "d_id d' \<in> d_id ` set (t_datasets s)"
  shows "\<exists>d\<in>set (t_datasets s). d_id d' = d_id d \<and> d_source d' = d_source d \<and> d_fence d \<le> d_fence d'"
  using dataset_change [OF assms(1-3)]
proof (elim disjE bexE conjE)
  assume "d_id d' \<notin> d_id ` set (t_datasets s)"
  with assms(4) show ?thesis by simp
qed (intro bexI conjI; assumption)+

lemma fence_step:
  assumes "cp_step s s'" and "constraints_ok s" and "d \<in> set (t_datasets s)"
  obtains d' where "d' \<in> set (t_datasets s')" "d_id d' = d_id d" "d_fence d \<le> d_fence d'" "d_source d' = d_source d"
proof -
  from datasets_kept [OF assms(1)] assms(3) obtain d' where d': "d' \<in> set (t_datasets s')" "d_id d' = d_id d"
    by (metis (no_types, lifting) imageE imageI subsetD)
  have "d_id d' \<in> d_id ` set (t_datasets s)" using assms(3) d'(2) by (metis imageI)
  from dataset_old [OF assms(1,2) d'(1) this] obtain e where e: "e \<in> set (t_datasets s)" "d_id d' = d_id e"
    "d_source d' = d_source e" "d_fence e \<le> d_fence d'" by metis
  have "e = d" by (rule dataset_row_unique [OF assms(2) e(1) assms(3)]) (use e(2) d'(2) in metis)
  show ?thesis by (rule that [OF d']) (use e(3,4) \<open>e = d\<close> in blast)+
qed

lemma fence_reached_step:
  assumes "cp_step s s'" and "constraints_ok s" and "fence_reached s c"
  shows "fence_reached s' c"
proof -
  from assms(3) obtain d where d: "d \<in> set (t_datasets s)" "d_id d = c_dataset c" "c_fence c \<le> d_fence d"
    by (auto simp: fence_reached_def exists_where_iff)
  from fence_step [OF assms(1,2) d(1)] d(2,3) show ?thesis
    unfolding fence_reached_def exists_where_iff by (metis order_trans)
qed

text \<open>A claim that is not held, at a dataset whose fence has reached its epoch, is never held again.\<close>

lemma not_held_step:
  assumes "cp_step s s'" and "constraints_ok s" and "fence_reached s c" and "\<not> claim_held s c"
  shows "\<not> claim_held s' c"
proof
  assume "claim_held s' c"
  then obtain w' d' where w': "w' \<in> set (t_work s')" "w_id w' = c_work c" "w_dataset w' = c_dataset c"
      "w_state w' = RUNNING" "w_token w' = Some (c_token c)"
    and d': "d' \<in> set (t_datasets s')" "d_id d' = c_dataset c" "d_fence d' = c_fence c"
    by (auto simp: claim_held_def exists_where_iff)
  from assms(3) obtain d where d: "d \<in> set (t_datasets s)" "d_id d = c_dataset c" "c_fence c \<le> d_fence d"
    by (auto simp: fence_reached_def exists_where_iff)
  from fence_step [OF assms(1,2) d(1)] obtain e where e: "e \<in> set (t_datasets s')" "d_id e = d_id d" "d_fence d \<le> d_fence e"
    by blast
  with dataset_row_unique [OF cp_step_constraints [OF assms(1)] e(1) d'(1)] d d' have fence: "d_fence d = c_fence c"
    by simp
  from work_change [OF assms(1,2) w'(1)] w'(4) obtain w where w: "w \<in> set (t_work s)" "row_change s s' w w'"
    by (auto simp: fresh_work_def)
  note ids = row_change_identity [OF w(2), unfolded work_identity_iff]
  have unheld: "\<not> (w_state w = RUNNING \<and> w_token w = w_token w')"
    using assms(4) w(1) w' ids d fence by (auto simp: claim_held_def exists_where_iff)
  from w(2) show False
  proof cases
    case started
    then show False using d d' w'(3) ids fence by auto
  qed (use w'(4) unheld quiet_state(2) in auto)
qed

interpretation fence: fenced_system cp_step cp_inv claim_held fence_reached
  by unfold_locales (auto simp: cp_inv_def intro: fence_reached_step dest: not_held_step)

section \<open>Terminal work and applied sequence\<close>

lemma succeeded_step:
  assumes "cp_step s s'" and "constraints_ok s" and "w \<in> set (t_work s)" and "w_state w = SUCCEEDED"
  shows "w \<in> set (t_work s') \<or> w_kind w = PUBLISH \<and> w_id w \<notin> w_id ` set (t_work s')"
  using assms(1)
proof cases
  case (quietly f)
  have "f w = w" by (rule quiet_state(3)) (use quietly(2) assms(3,4) in auto)
  then show ?thesis using assms(3) quietly(1) by (intro disjI1) (simp, metis imageI)
next
  case (claims v e token expires now)
  then show ?thesis using assms(3,4) by (auto simp: claim_db_def set_update_where image_iff)
next
  case (ingests v e sha1 version rows digest now)
  have "w_id w \<noteq> w_id v" using work_row_unique [OF assms(2,3) ingests(1)] assms(4) ingests(2) by auto
  then show ?thesis using assms(3) unfolding ingests(7) ingest_db_work insert_new_alt
    by (auto simp: set_update_where image_iff)
next
  case (publishes v e p uri version manifest digest now g xs)
  have "w_id w \<noteq> w_id v" using work_row_unique [OF assms(2,3) publishes(1)] assms(4) publishes(2) by auto
  then show ?thesis using assms(3) publishes(13) by (auto simp: set_update_where image_iff)
next
  case (forgets_work q)
  have set': "set (t_work s') = {v \<in> set (t_work s). \<not> q v}" using forgets_work(2) by (simp add: set_delete_where)
  show ?thesis
  proof (cases "q w")
    case True
    have "w_id v \<noteq> w_id w" if "v \<in> set (t_work s')" for v
      using that set' True work_row_unique [OF assms(2) _ assms(3)] by blast
    with True assms(3) forgets_work(1) show ?thesis by (metis imageE)
  next
    case False
    with assms(3) set' show ?thesis by blast
  qed
qed (use assms(3) in auto)

end
