(* ===== verification/Refinement.thy ===== *)
theory Refinement
  imports Protocol_Invariants
begin

text \<open>
  Every transaction of the control plane is a sequence of abstract protocol steps: a method that
  returns with a database has moved it along \<open>cp_steps\<close>. The invariants of the protocol therefore hold
  after every committed transaction.
\<close>

named_theorems refines \<open>the refinement lemmas of the operations\<close>

section \<open>Work updates\<close>

lemma quiet_refl [simp]: "quiet w w"
  by (simp add: quiet_def)

lemma step_update_work:
  assumes "constraints_ok (s\<lparr> t_work := update_where p f (t_work s) \<rparr>)"
    and "\<And>w. w \<in> set (t_work s) \<Longrightarrow> p w \<Longrightarrow> quiet w (f w)"
  shows "cp_step s (s\<lparr> t_work := update_where p f (t_work s) \<rparr>)"
proof (rule cp_step.quietly)
  show "s\<lparr> t_work := update_where p f (t_work s) \<rparr> = s\<lparr> t_work := map (\<lambda>r. if p r then f r else r) (t_work s) \<rparr>"
    by (simp add: update_where_def)
qed (use assms in auto)

lemma quiet_touch:
  assumes "work_identity w' = work_identity w" and "w_attempts w' = w_attempts w"
    and "PHASE_ORDER (w_phase w) \<le> PHASE_ORDER (w_phase w')" and "w_state w \<noteq> SUCCEEDED"
    and "w_state w' \<noteq> SUCCEEDED" and "w_state w' = RUNNING \<Longrightarrow> w_state w = RUNNING \<and> w_token w' = w_token w"
  shows "quiet w w'"
  using assms unfolding quiet_def by blast

lemma lease_is_current_running: "lease_is_current c now s w \<Longrightarrow> w_state w = RUNNING"
  by (simp add: lease_is_current_def)

lemma fenced_update_refines:
  assumes "fenced_update c now f s = Inr (b, s')"
    and "\<And>w. w \<in> set (t_work s) \<Longrightarrow> lease_is_current c now s w \<Longrightarrow> quiet w (f w)"
  shows "cp_steps s s'"
proof -
  from assms(1) have "s' = s\<lparr> t_work := update_where (lease_is_current c now s) f (t_work s) \<rparr>" "constraints_ok s'"
    by (auto simp: fenced_update_def rbind_Inr_iff checked_Inr_iff)
  with assms(2) show ?thesis by (auto intro!: r_into_rtranclp step_update_work)
qed

lemma renew_lease_refines [refines]: "renew_lease c duration now s = Inr (b, s') \<Longrightarrow> cp_steps s s'"
  unfolding renew_lease_def rbind_Inr_iff ensure_Inr_iff
  by (elim exE conjE, erule fenced_update_refines, rule quiet_touch)
    (auto simp: work_identity_def lease_is_current_def)

lemma set_checkpoint_simps [simp]:
  "work_identity (set_checkpoint ph u v m g now w) = work_identity w"
  "w_attempts (set_checkpoint ph u v m g now w) = w_attempts w"
  "w_phase (set_checkpoint ph u v m g now w) = ph"
  "w_state (set_checkpoint ph u v m g now w) = w_state w"
  "w_token (set_checkpoint ph u v m g now w) = w_token w"
  by (simp_all add: set_checkpoint_def work_identity_def Let_def)

lemma advance_phase_refines [refines]:
  assumes "advance_phase c ph u v m g now s = Inr (b, s')" and "constraints_ok s"
  shows "cp_steps s s'"
proof (cases "lookup_by w_id (c_work c) (t_work s)")
  case None
  with assms(1) show ?thesis by (auto simp: advance_phase_def rbind_Inr_iff)
next
  case (Some w)
  show ?thesis
  proof (cases "PHASE_ORDER ph < PHASE_ORDER (w_phase w)")
    case True
    with Some assms(1) show ?thesis by (auto simp: advance_phase_def rbind_Inr_iff)
  next
    case False
    with Some assms(1) have upd: "fenced_update c now (set_checkpoint ph u v m g now) s = Inr (b, s')"
      by (auto simp: advance_phase_def rbind_Inr_iff)
    show ?thesis
    proof (rule fenced_update_refines [OF upd])
      fix x assume x: "x \<in> set (t_work s)" "lease_is_current c now s x"
      from lookup_by_SomeD [OF Some] have w: "w \<in> set (t_work s)" "w_id w = c_work c" by simp_all
      have "x = w" by (rule work_row_unique [OF assms(2) x(1) w(1)]) (use x(2) w(2) in \<open>simp add: lease_is_current_def\<close>)
      with False x show "quiet x (set_checkpoint ph u v m g now x)"
        by (intro quiet_touch) (auto simp: lease_is_current_def)
    qed
  qed
qed

lemma retry_work_refines [refines]: "retry_work c delay ec em n now s = Inr (b, s') \<Longrightarrow> cp_steps s s'"
  unfolding retry_work_def rbind_Inr_iff ensure_Inr_iff Let_def
  by (elim exE conjE, erule fenced_update_refines, rule quiet_touch)
    (auto simp: work_identity_def lease_is_current_def split: if_splits)

lemma block_work_refines [refines]: "block_work c ec em now s = Inr (b, s') \<Longrightarrow> cp_steps s s'"
  unfolding block_work_def
  by (erule fenced_update_refines, rule quiet_touch) (auto simp: work_identity_def lease_is_current_def)

lemma retry_blocked_work_refines [refines]:
  assumes "retry_blocked_work wid now s = Inr (b, s')"
  shows "cp_steps s s'"
proof -
  from assms have "s' = s\<lparr> t_work := update_where (retryable wid s)
       (\<lambda>w. w\<lparr> w_state := PENDING, w_token := None, w_expires := None, w_next_at := now,
               w_error_code := None, w_error_message := None, w_updated := now \<rparr>) (t_work s) \<rparr>" "constraints_ok s'"
    by (auto simp: retry_blocked_work_def rbind_Inr_iff checked_Inr_iff)
  then show ?thesis
    by (auto intro!: r_into_rtranclp step_update_work quiet_touch simp: work_identity_def retryable_def)
qed

lemma release_expired_refines:
  assumes "release_expired_leases now s = Inr s'"
  shows "cp_step s s'"
  using assms unfolding release_expired_leases_def checked_Inr_iff
  by (auto intro!: step_update_work quiet_touch simp: work_identity_def lease_expired_def)

lemma sweep_stale_refines:
  assumes "sweep_stale_work now s = Inr s'"
  shows "cp_step s s'"
  using assms unfolding sweep_stale_work_def checked_Inr_iff
  by (auto intro!: step_update_work quiet_touch simp: work_identity_def stale_work_def)

section \<open>Claims\<close>

definition ready :: "db \<Rightarrow> work_row \<Rightarrow> bool" where
  "ready s w = (w \<in> set (t_work s) \<and> w_state w \<in> {PENDING, RETRY_WAIT} \<and> earlier_ingests_done s w \<and>
     source_snapshot_allows_work s w)"

lemma claimable_ready:
  assumes "claimable now s w" and "w \<in> set (t_work s)" and "constraints_ok s"
  shows "ready s w"
proof -
  from assms obtain d where d: "due_predicate now w" "source_snapshot_allows_work s w" "lane_order_predicate s d w"
    by (auto simp: claimable_def exists_where_iff)
  have "w_state e = SUCCEEDED"
    if "e \<in> set (t_work s)" "w_dataset e = w_dataset w" "w_kind e = INGEST" "w_seq e < w_seq w" for e
  proof -
    have "w_id e \<noteq> w_id w" using work_row_unique [OF assms(3) that(1) assms(2)] that(4) by blast
    with d(3) that show ?thesis by (auto simp: lane_order_predicate_def exists_where_iff precedes_def)
  qed
  with d assms(2) show ?thesis by (auto simp: ready_def due_predicate_def earlier_ingests_done_def list_all_iff)
qed

lemma claim_candidates_ready: "w \<in> set (claim_candidates now lockw n s) \<Longrightarrow> constraints_ok s \<Longrightarrow> ready s w"
  by (auto simp: claim_candidates_def intro: claimable_ready dest!: in_set_takeD)

definition claim_of :: "uuid \<Rightarrow> int \<Rightarrow> dataset_row \<Rightarrow> work_row \<Rightarrow> work_claim" where
  "claim_of token expires d w =
     \<lparr> c_work = w_id w, c_dataset = w_dataset w, c_kind = w_kind w, c_phase = w_phase w, c_token = token,
       c_fence = d_fence d + 1, c_attempts = w_attempts w + 1, c_seq = w_seq w, c_spec = w_spec w,
       c_uri = d_uri d, c_version = d_version d, c_expires = Some expires \<rparr>"

lemma claim_locked_row_Inr:
  assumes "claim_locked_row token w d now duration s = Inr (r, s')" and "w_state w \<in> {PENDING, RETRY_WAIT}"
  shows "r = Some (claim_of token (now + duration) d w)" "s' = claim_db token (now + duration) now d w s"
    "constraints_ok s'"
  using assms
  by (auto simp: claim_locked_row_def Let_def rbind_Inr_iff checked_Inr_iff ensure_Inr_iff claim_of_def claim_db_def)

lemma claim_db_other:
  assumes "w_dataset v \<noteq> w_dataset w" and "w \<in> set (t_work s)" and "constraints_ok s"
  shows "v \<in> set (t_work (claim_db token ex now d w s)) \<longleftrightarrow> v \<in> set (t_work s)"
proof -
  have "w_dataset x = w_dataset w" if "x \<in> set (t_work s)" "w_id x = w_id w" for x
    using work_row_unique [OF assms(3) that(1) assms(2) that(2)] by simp
  then show ?thesis using assms(1) by (auto simp: claim_db_def set_update_where image_iff)
qed

lemma claim_db_ready:
  assumes "ready s v" and "w_dataset v \<noteq> w_dataset w" and "w \<in> set (t_work s)" and "constraints_ok s"
  shows "ready (claim_db token ex now d w s) v"
proof -
  have "earlier_ingests_done (claim_db token ex now d w s) v"
    unfolding earlier_ingests_done_def list_all_iff
  proof (intro ballI impI)
    fix e assume e: "e \<in> set (t_work (claim_db token ex now d w s))"
      and h: "w_dataset e = w_dataset v \<and> w_kind e = INGEST \<and> w_seq e < w_seq v"
    from e h assms(2) claim_db_other [OF _ assms(3,4), of e] have "e \<in> set (t_work s)" by metis
    with assms(1) h show "w_state e = SUCCEEDED" by (simp add: ready_def earlier_ingests_done_def list_all_iff)
  qed
  moreover have "v \<in> set (t_work (claim_db token ex now d w s))"
    using assms claim_db_other [OF assms(2-4)] by (simp add: ready_def)
  moreover have "source_snapshot_allows_work (claim_db token ex now d w s) v"
    using assms(1) by (simp add: ready_def source_snapshot_allows_work_def source_gated_def)
  ultimately show ?thesis using assms(1) by (simp add: ready_def)
qed

lemma claim_step:
  assumes "claim_locked_row token w d now duration s = Inr (r, s')" and "ready s w"
    and "d \<in> set (t_datasets s)" and "d_id d = w_dataset w"
  shows "cp_step s s'"
proof -
  have st: "w_state w \<in> {PENDING, RETRY_WAIT}" using assms(2) by (simp add: ready_def)
  note eff = claim_locked_row_Inr [OF assms(1) st]
  show ?thesis
    by (rule cp_step.claims [where w = w and d = d]) (use assms eff st in \<open>auto simp: ready_def\<close>)
qed

lemma claim_loop_refines:
  assumes "claim_loop tok lockd n now duration ws cs s = Inr (cs', s')" and "constraints_ok s"
    and "\<forall>w\<in>set ws. w_dataset w \<notin> set (map c_dataset cs) \<longrightarrow> ready s w"
  shows "cp_steps s s'"
  using assms
proof (induction ws arbitrary: cs s)
  case Nil
  then show ?case by simp
next
  case (Cons w ws)
  show ?case
  proof (cases "n \<le> length cs \<or> w_dataset w \<in> set (map c_dataset cs)")
    case True
    then show ?thesis using Cons by (auto split: if_splits)
  next
    case fresh: False
    show ?thesis
    proof (cases "if lockd (w_dataset w) then None else lookup_by d_id (w_dataset w) (t_datasets s)")
      case None
      then show ?thesis using Cons fresh by (auto split: if_splits)
    next
      case (Some d)
      then have d: "d \<in> set (t_datasets s)" "d_id d = w_dataset w"
        by (auto split: if_splits dest: lookup_by_SomeD)
      have rw: "ready s w" using Cons.prems(3) fresh by simp
      then have st: "w_state w \<in> {PENDING, RETRY_WAIT}" "w \<in> set (t_work s)" by (simp_all add: ready_def)
      from Cons.prems(1) Some fresh obtain r s1 where r: "claim_locked_row (tok (w_id w)) w d now duration s = Inr (r, s1)"
        and rest: "claim_loop tok lockd n now duration ws (case r of None \<Rightarrow> cs | Some x \<Rightarrow> cs @ [x]) s1 = Inr (cs', s')"
        by (auto simp: rbind_Inr_iff)
      note eff = claim_locked_row_Inr [OF r st(1)]
      have "cp_steps s1 s'"
      proof (rule Cons.IH [OF rest eff(3)], intro ballI impI)
        fix v assume v: "v \<in> set ws" "w_dataset v \<notin> set (map c_dataset (case r of None \<Rightarrow> cs | Some x \<Rightarrow> cs @ [x]))"
        then have "w_dataset v \<noteq> w_dataset w" "ready s v"
          using eff(1) Cons.prems(3) by (auto simp: claim_of_def)
        then show "ready s1 v" unfolding eff(2) using claim_db_ready st(2) Cons.prems(2) by blast
      qed
      with claim_step [OF r rw d] show ?thesis by (rule converse_rtranclp_into_rtranclp)
    qed
  qed
qed

lemma claim_due_work_refines [refines]:
  assumes "claim_due_work tok lockw lockd limit duration now s = Inr (cs, s')"
  shows "cp_steps s s'"
proof -
  from assms obtain s1 s2 where s1: "release_expired_leases now s = Inr s1" and s2: "sweep_stale_work now s1 = Inr s2"
    and loop: "claim_loop tok lockd (nat limit) now duration (claim_candidates now lockw (nat limit) s2) [] s2 = Inr (cs, s')"
    by (auto simp: claim_due_work_def rbind_Inr_iff)
  have "cp_step s s1" "cp_step s1 s2"
    using release_expired_refines [OF s1] sweep_stale_refines [OF s2] .
  moreover have "cp_steps s2 s'"
    by (rule claim_loop_refines [OF loop]) (use calculation cp_step_constraints claim_candidates_ready in blast)+
  ultimately show ?thesis by (meson converse_rtranclp_into_rtranclp)
qed

section \<open>Terminal transitions\<close>

text \<open>
  The terminal methods find the dataset through the claim and check only state, token, fence and
  expiry. A claim whose token still sits on a running row names that row's dataset and kind:
\<close>

definition claim_matches :: "db \<Rightarrow> work_claim \<Rightarrow> bool" where
  "claim_matches s c =
     list_all (\<lambda>w. w_id w = c_work c \<and> w_state w = RUNNING \<and> w_token w = Some (c_token c) \<longrightarrow>
       w_dataset w = c_dataset c \<and> w_kind w = c_kind c) (t_work s)"

lemma lock_work_and_state_Some:
  assumes "lock_work_and_state c s = Some (w, d)"
  shows "w \<in> set (t_work s)" "w_id w = c_work c" "d \<in> set (t_datasets s)" "d_id d = c_dataset c"
  using assms by (auto simp: lock_work_and_state_def split: option.splits dest!: lookup_by_SomeD)

lemma locked_claim_matches:
  assumes "claim_matches s c" and "w \<in> set (t_work s)" and "w_id w = c_work c" and "locked_lease_matches w d c now"
  shows "w_dataset w = c_dataset c" "w_kind w = c_kind c" "w_state w = RUNNING"
  using assms by (auto simp: claim_matches_def list_all_iff locked_lease_matches_def)

lemma assert_expectations_Inr: "assert_expectations_match w d = Inr u \<longleftrightarrow> frozen_expectations_match_dataset w d"
  by (auto simp: assert_expectations_match_def frozen_expectations_match_dataset_def ensure_Inr_iff)

lemma complete_ingest_cases:
  assumes "complete_ingest sha1 c version rows digest now s = Inr (b, s')"
  obtains (unchanged) "s' = s"
  | (ingested) w d where "lock_work_and_state c s = Some (w, d)" "w_state w \<noteq> SUCCEEDED"
      "locked_lease_matches w d c now" "frozen_expectations_match_dataset w d" "b"
      "\<not> has_open_publication (c_dataset c) (s\<lparr> t_work :=
         update_where (\<lambda>x. w_id x = c_work c) (ingested_row version rows digest now w) (t_work s) \<rparr>)"
      "w_dataset w = c_dataset c \<Longrightarrow> s' = ingest_db sha1 version rows digest now d w s" "constraints_ok s'"
proof (cases "lock_work_and_state c s")
  case None
  with assms have "s' = s" by (auto simp: complete_ingest_def rbind_Inr_iff)
  then show thesis by (rule unchanged)
next
  case (Some p)
  then obtain w d where wd: "lock_work_and_state c s = Some (w, d)" by (cases p) auto
  show thesis
  proof (cases "s' = s")
    case True
    then show thesis by (rule unchanged)
  next
    case False
    have wid: "c_work c = w_id w" using lock_work_and_state_Some [OF wd] by simp
    from assms wd False show thesis
      by (auto simp: complete_ingest_def rbind_Inr_iff completed_ingest_matches_def ensure_Inr_iff
          assert_expectations_Inr checked_Inr_iff enqueue_publish_work_def Let_def
          complete_snapshot_if_applied_def has_open_publication_def wid
          ingested_row_def [symmetric] ingest_db_def intro!: ingested [of w d] split: if_splits)
  qed
qed

lemma complete_ingest_refines [refines]:
  assumes "complete_ingest sha1 c version rows digest now s = Inr (b, s')" and "claim_matches s c"
  shows "cp_steps s s'"
  using assms(1)
proof (cases rule: complete_ingest_cases)
  case (ingested w d)
  note l = lock_work_and_state_Some [OF ingested(1)]
  note m = locked_claim_matches [OF assms(2) l(1,2) ingested(3)]
  have "c_kind c = INGEST" using assms(1) by (auto simp: complete_ingest_def rbind_Inr_iff ensure_Inr_iff)
  then have "cp_step s s'"
    using l m ingested by (intro cp_step.ingests [where w = w and d = d]) auto
  then show ?thesis by (rule r_into_rtranclp)
qed simp

lemma insert_indexes_effect:
  assumes "rfold (insert_publication_index pid spec) es s = Inr s'"
  shows "\<exists>xs. s' = s\<lparr> t_pubindexes := xs \<rparr>"
proof (rule rfold_invariant [OF assms])
  have "s = s\<lparr> t_pubindexes := t_pubindexes s \<rparr>" by simp
  then show "\<exists>xs. s = s\<lparr> t_pubindexes := xs \<rparr>" by blast
next
  fix e t t' assume "\<exists>xs. t = s\<lparr> t_pubindexes := xs \<rparr>" and "insert_publication_index pid spec e t = Inr t'"
  then show "\<exists>xs. t' = s\<lparr> t_pubindexes := xs \<rparr>"
    by (auto simp: insert_publication_index_def checked_Inr_iff)
qed

definition publish_db ::
    "uuid \<Rightarrow> work_claim \<Rightarrow> string \<Rightarrow> int \<Rightarrow> string \<Rightarrow> bytes \<Rightarrow> publication_evidence \<Rightarrow> int \<Rightarrow> work_row \<Rightarrow> dataset_row \<Rightarrow>
     pubindex_row list \<Rightarrow> db \<Rightarrow> db" where
  "publish_db pid c uri version manifest digest ev now w d xs s =
     s\<lparr> t_publications := (case d_active d of
            None \<Rightarrow> t_publications s @ [publication_of pid c w (w_seq w) uri version manifest digest ev now]
          | Some q \<Rightarrow> update_where (\<lambda>x. p_id x = q) (\<lambda>x. x\<lparr> p_retired := Some now \<rparr>)
              (t_publications s @ [publication_of pid c w (w_seq w) uri version manifest digest ev now])),
        t_pubindexes := xs,
        t_datasets := update_where (\<lambda>x. d_id x = c_dataset c) (swap_pointer c w pid uri version now) (t_datasets s),
        t_work := update_where (\<lambda>x. w_id x = c_work c) (published_row uri version manifest digest now) (t_work s) \<rparr>"

lemma publish_dataset_cases:
  assumes "publish_dataset sha1 c uri version manifest digest ev now s = Inr (b, s')"
  obtains (unchanged) "s' = s"
  | (published) w d xs where "lock_work_and_state c s = Some (w, d)" "locked_lease_matches w d c now"
      "lookup_by p_id (deterministic_publication_id sha1 (c_work c)) (t_publications s) = None"
      "frozen_expectations_match_dataset w d" "b"
      "validate_live_publication c w d uri version s = Inr (w_seq w)"
      "validate_publication_indexes (w_spec w) ev s = Inr ()"
      "s' = publish_db (deterministic_publication_id sha1 (c_work c)) c uri version manifest digest ev now w d xs s"
      "constraints_ok s'"
proof (cases "lock_work_and_state c s")
  case None
  with assms have "s' = s" by (auto simp: publish_dataset_def rbind_Inr_iff)
  then show thesis by (rule unchanged)
next
  case (Some p)
  then obtain w d where wd: "lock_work_and_state c s = Some (w, d)" by (cases p) auto
  let ?pid = "deterministic_publication_id sha1 (c_work c)"
  show thesis
  proof (cases "s' = s")
    case True
    then show thesis by (rule unchanged)
  next
    case False
    with assms wd have new: "lookup_by p_id ?pid (t_publications s) = None" and lease: "locked_lease_matches w d c now"
      by (auto simp: publish_dataset_def rbind_Inr_iff Let_def split: option.splits if_splits)
    from assms wd new lease obtain seq s1 s2 s3 where
      live: "validate_live_publication c w d uri version s = Inr seq"
      and idx: "validate_publication_indexes (w_spec w) ev s = Inr ()"
      and s1: "s1 = s\<lparr> t_publications := t_publications s @ [publication_of ?pid c w seq uri version manifest digest ev now] \<rparr>"
      and s2: "rfold (insert_publication_index ?pid (w_spec w)) (ev_indexes ev) s1 = Inr s2"
      and s3: "retire_publication (d_active d) now s2 = Inr s3"
      and s5: "s' = s3\<lparr> t_datasets := update_where (\<lambda>x. d_id x = c_dataset c)
                    (swap_pointer c w ?pid uri version now) (t_datasets s3),
                  t_work := update_where (\<lambda>x. w_id x = c_work c)
                    (published_row uri version manifest digest now) (t_work s3) \<rparr>"
      and ok: "constraints_ok s'" and b
      by (auto simp: publish_dataset_def rbind_Inr_iff Let_def checked_Inr_iff published_row_def [symmetric])
    from live have seq: "seq = w_seq w" and ex: "frozen_expectations_match_dataset w d"
      by (auto simp: validate_live_publication_def rbind_Inr_iff assert_expectations_Inr)
    from insert_indexes_effect [OF s2] obtain xs where xs: "s2 = s1\<lparr> t_pubindexes := xs \<rparr>" by blast
    from s3 have "s3 = s2\<lparr> t_publications := (case d_active d of None \<Rightarrow> t_publications s2
        | Some q \<Rightarrow> update_where (\<lambda>x. p_id x = q) (\<lambda>x. x\<lparr> p_retired := Some now \<rparr>) (t_publications s2)) \<rparr>"
      by (auto simp: retire_publication_def checked_Inr_iff split: option.splits)
    with s5 xs s1 seq have "s' = publish_db ?pid c uri version manifest digest ev now w d xs s"
      by (cases "d_active d") (simp_all add: publish_db_def)
    with live idx ex seq wd lease new ok \<open>b\<close> show thesis by (intro published) auto
  qed
qed

lemma swap_pointer_simps [simp]:
  "d_active (swap_pointer c w pid uri version now x) = Some pid"
  "d_id (swap_pointer c w pid uri version now x) = d_id x"
  "d_fence (swap_pointer c w pid uri version now x) = d_fence x"
  "d_last_seq (swap_pointer c w pid uri version now x) = d_last_seq x"
  "d_source (swap_pointer c w pid uri version now x) = d_source x"
  "d_route (swap_pointer c w pid uri version now x) = d_route x"
  "d_lifecycle (swap_pointer c w pid uri version now x) = d_lifecycle x"
  by (simp_all add: swap_pointer_def Let_def)

lemma publish_dataset_refines [refines]:
  assumes "publish_dataset sha1 c uri version manifest digest ev now s = Inr (b, s')" and "claim_matches s c"
  shows "cp_steps s s'"
  using assms(1)
proof (cases rule: publish_dataset_cases)
  case (published w d xs)
  let ?pid = "deterministic_publication_id sha1 (c_work c)"
  note l = lock_work_and_state_Some [OF published(1)]
  note m = locked_claim_matches [OF assms(2) l(1,2) published(2)]
  have kind: "c_kind c \<noteq> INGEST" using assms(1)
    by (auto simp: publish_dataset_def validate_publication_request_def rbind_Inr_iff ensure_Inr_iff)
  have new: "?pid \<notin> p_id ` set (t_publications s)" using published(3) by (auto simp: lookup_by_None_iff)
  have "cp_step s s'"
    by (rule cp_step.publishes [where w = w and d = d and g = "swap_pointer c w ?pid uri version now"
          and p = "publication_of ?pid c w (w_seq w) uri version manifest digest ev now"])
      (use l m kind new published in \<open>simp_all add: publication_of_def publish_db_def\<close>)
  then show ?thesis by (rule r_into_rtranclp)
qed simp

end
