(* ===== verification/Refinement_Planning.thy ===== *)
theory Refinement_Planning
  imports Refinement
begin

text \<open>
  Refinement of the planning and maintenance transactions: rebuild requests, revision assignment,
  publication cleanup, audit deletion, source registration, snapshot enqueueing and the source gate.
\<close>

section \<open>Rebuilds, assignment, cleanup\<close>

lemma rebuild_work_row_simps [simp]:
  "w_id (rebuild_work_row wid d q spec uri now) = wid"
  "w_kind (rebuild_work_row wid d q spec uri now) = REBUILD"
  "w_state (rebuild_work_row wid d q spec uri now) = PENDING"
  by (simp_all add: rebuild_work_row_def new_work_def)

lemma insert_rebuild_refines:
  assumes "checked (s\<lparr> t_work := insert_new w_id (rebuild_work_row wid d q spec uri now) (t_work s) \<rparr>) = Inr s'"
  shows "cp_steps s s'"
proof (cases "wid \<in> w_id ` set (t_work s)")
  case True
  with assms show ?thesis by (simp add: checked_Inr_iff insert_new_alt)
next
  case False
  with assms have "cp_step s s'"
    by (intro cp_step.opens_rebuild [where w = "rebuild_work_row wid d q spec uri now"])
      (simp_all add: checked_Inr_iff insert_new_alt)
  then show ?thesis by (rule r_into_rtranclp)
qed

lemma enqueue_rebuild_refines [refines]:
  assumes "enqueue_rebuild sha1 route req now s = Inr (wid, s')"
  shows "cp_steps s s'"
  using assms
  by (auto simp: enqueue_rebuild_def rbind_Inr_iff Let_def split: option.splits intro: insert_rebuild_refines)

lemma desire_refines:
  assumes "checked (s\<lparr> t_datasets := update_where (\<lambda>x. d_id x = did)
    (\<lambda>x. x\<lparr> d_desired := spec, d_updated := now \<rparr>) (t_datasets s) \<rparr>) = Inr s'"
  shows "cp_steps s s'"
proof -
  let ?f = "\<lambda>x. if d_id x = did then x\<lparr> d_desired := spec, d_updated := now \<rparr> else x"
  have "\<exists>u t. ?f x = x\<lparr> d_desired := u, d_updated := t \<rparr>" for x
  proof (cases "d_id x = did")
    case False
    then have "?f x = x\<lparr> d_desired := d_desired x, d_updated := d_updated x \<rparr>" by simp
    then show ?thesis by blast
  qed auto
  then have all: "\<forall>x. \<exists>u t. ?f x = x\<lparr> d_desired := u, d_updated := t \<rparr>" by (rule allI)
  have "cp_step s s'"
    by (rule cp_step.desires [OF _ all]) (use assms in \<open>simp_all add: checked_Inr_iff update_where_def\<close>)
  then show ?thesis by (rule r_into_rtranclp)
qed

lemma assign_dataset_spec_revision_refines [refines]:
  assumes "assign_dataset_spec_revision sha1 did spec now s = Inr (r, s')"
  shows "cp_steps s s'"
proof -
  from assms obtain s1 where s1: "checked (s\<lparr> t_datasets := update_where (\<lambda>x. d_id x = did)
      (\<lambda>x. x\<lparr> d_desired := spec, d_updated := now \<rparr>) (t_datasets s) \<rparr>) = Inr s1"
    and rest: "s' = s1 \<or> (\<exists>wid d q uri. checked (s1\<lparr> t_work := insert_new w_id
      (rebuild_work_row wid d q spec uri now) (t_work s1) \<rparr>) = Inr s')"
    by (auto simp: assign_dataset_spec_revision_def rbind_Inr_iff Let_def split: option.splits if_splits) blast+
  show ?thesis
    using desire_refines [OF s1] rest insert_rebuild_refines rtranclp_trans [of cp_step s s1 s'] by blast
qed

lemma finalize_publication_cleanup_refines [refines]:
  assumes "finalize_publication_cleanup k s = Inr (b, s')" and "constraints_ok s"
  shows "cp_steps s s'"
proof (cases "publication_active (k_publication k) s \<or> s' = s")
  case True
  then show ?thesis
    using assms by (auto simp: finalize_publication_cleanup_def rbind_Inr_iff checked_Inr_iff Let_def
        delete_where_def split: option.splits)
next
  case False
  with assms have "s' = s\<lparr> t_pubindexes := delete_where (\<lambda>x. x_publication x = k_publication k) (t_pubindexes s),
      t_publications := delete_where (\<lambda>p. p_id p = k_publication k) (t_publications s) \<rparr>" "constraints_ok s'"
    by (auto simp: finalize_publication_cleanup_def rbind_Inr_iff checked_Inr_iff Let_def split: option.splits)
  with False have "cp_step s s'" by (intro cp_step.forgets_publication [where pid = "k_publication k"]) auto
  then show ?thesis by (rule r_into_rtranclp)
qed

lemma audit_work_ids_succeeded:
  assumes "w \<in> set (t_work s)" and "w_id w \<in> set (audit_work_ids before limit s)" and "constraints_ok s"
  shows "audit_victim before s w"
proof -
  from assms(2) obtain v where v: "w_id v = w_id w" "v \<in> set (t_work s)" "audit_victim before s v"
    by (auto simp: audit_work_ids_def dest!: in_set_takeD)
  have "v = w" by (rule work_row_unique [OF assms(3) v(2) assms(1) v(1)])
  with v(3) show ?thesis by simp
qed

lemma delete_completed_audit_refines [refines]:
  assumes "delete_completed_audit before limit s = Inr (n, s')" and "constraints_ok s"
  shows "cp_steps s s'"
proof -
  let ?q = "\<lambda>w. w_id w \<in> set (audit_work_ids before limit s)"
  from assms(1) have "s' = s\<lparr> t_work := delete_where ?q (t_work s) \<rparr>" "constraints_ok s'"
    by (auto simp: delete_completed_audit_def rbind_Inr_iff checked_Inr_iff Let_def)
  moreover have "\<forall>w\<in>set (t_work s). ?q w \<longrightarrow> w_state w = SUCCEEDED \<and> w_kind w = PUBLISH"
    using audit_work_ids_succeeded [OF _ _ assms(2)] by (auto simp: audit_victim_def)
  ultimately have "cp_step s s'" by (intro cp_step.forgets_work [where q = ?q]) auto
  then show ?thesis by (rule r_into_rtranclp)
qed

section \<open>Sources\<close>

lemma step_sources:
  assumes "constraints_ok (s\<lparr> t_sources := src \<rparr>)"
    and "\<And>r. r \<in> set (t_sources s) \<Longrightarrow> \<exists>r'\<in>set src. r_id r' = r_id r \<and> r_epoch r \<le> r_epoch r'"
  shows "cp_step s (s\<lparr> t_sources := src \<rparr>)"
  by (rule cp_step.configures [where src = src and spx = "t_specs s" and fs = "t_fields s" and ix = "t_indexes s"])
    (use assms in auto)

lemma ensure_source_registration_refines [refines]:
  assumes "ensure_source_registration sha1 name tbl tu baseline base now s = Inr (src, s')"
  shows "cp_steps s s'"
proof -
  from assms obtain row where row: "s' = s\<lparr> t_sources := insert_new r_name row (t_sources s) \<rparr>" "constraints_ok s'"
    by (auto simp: ensure_source_registration_def rbind_Inr_iff checked_Inr_iff Let_def split: option.splits)
  have "cp_step s s'" unfolding row(1)
    by (rule step_sources) (use row in \<open>auto simp: insert_new_alt\<close>)
  then show ?thesis by (rule r_into_rtranclp)
qed

lemma bump_epoch_refines:
  assumes "bump_epoch src now s = Inr s'"
  shows "cp_step s s'"
proof -
  let ?u = "update_where (\<lambda>r. r_id r = src) (\<lambda>r. r\<lparr> r_epoch := r_epoch r + 1, r_updated := now \<rparr>) (t_sources s)"
  from assms have s': "s' = s\<lparr> t_sources := ?u \<rparr>" "constraints_ok s'"
    by (simp_all add: bump_epoch_def checked_Inr_iff)
  show ?thesis unfolding s'(1)
  proof (rule step_sources)
    fix r assume "r \<in> set (t_sources s)"
    then have "(if r_id r = src then r\<lparr> r_epoch := r_epoch r + 1, r_updated := now \<rparr> else r) \<in> set ?u"
      unfolding set_update_where by blast
    then show "\<exists>r'\<in>set ?u. r_id r' = r_id r \<and> r_epoch r \<le> r_epoch r'"
      by (rule bexI [rotated]) simp
  qed (use s' in simp)
qed

lemma block_ingest_from_refines:
  assumes "block_ingest_from src q ec em now s = Inr s'"
  shows "cp_step s s'"
  using assms unfolding block_ingest_from_def checked_Inr_iff
  by (auto intro!: step_update_work quiet_touch simp: work_identity_def)

lemma set_snapshot_state_refines:
  assumes "set_snapshot_state q st ec em now s = Inr s'" and "x \<in> set (t_snapshots s)" and "s_seq x = q"
    and "st = COMPLETE \<Longrightarrow> \<not> incomplete_ingest q s" and "s_kind x = REJECTED \<Longrightarrow> st = s_state x"
  shows "cp_step s s'"
  using assms unfolding set_snapshot_state_def checked_Inr_iff by (intro cp_step.gates [where x = x]) auto

lemma mark_snapshot_complete_refines:
  assumes "mark_snapshot_complete q now s = Inr s'" and "x \<in> set (t_snapshots s)" and "s_seq x = q"
    and "\<not> incomplete_ingest q s" and "s_kind x \<noteq> REJECTED" and "constraints_ok s"
  shows "cp_steps s s'"
proof -
  have only: "y = x" if "y \<in> set (t_snapshots s)" "s_seq y = q" for y
    by (rule snapshot_row_unique [OF assms(6) that(1) assms(2)]) (use that assms(3) in simp)
  from assms(1) have s': "s' = s\<lparr> t_snapshots := update_where (\<lambda>x. s_seq x = q \<and> s_state x \<noteq> SNAPSHOT_BLOCKED)
       (\<lambda>x. x\<lparr> s_state := COMPLETE, s_updated := now \<rparr>) (t_snapshots s) \<rparr>" "constraints_ok s'"
    by (auto simp: mark_snapshot_complete_def checked_Inr_iff)
  show ?thesis
  proof (cases "s_state x = SNAPSHOT_BLOCKED")
    case True
    have "update_where (\<lambda>x. s_seq x = q \<and> s_state x \<noteq> SNAPSHOT_BLOCKED)
       (\<lambda>x. x\<lparr> s_state := COMPLETE, s_updated := now \<rparr>) (t_snapshots s) = t_snapshots s"
      by (rule update_where_none) (use only True in blast)
    with s' show ?thesis by simp
  next
    case False
    have "update_where (\<lambda>x. s_seq x = q \<and> s_state x \<noteq> SNAPSHOT_BLOCKED)
       (\<lambda>x. x\<lparr> s_state := COMPLETE, s_updated := now \<rparr>) (t_snapshots s) =
      update_where (\<lambda>x. s_seq x = q) (\<lambda>y. y\<lparr> s_state := COMPLETE, s_error_code := s_error_code x,
        s_error_message := s_error_message x, s_updated := now \<rparr>) (t_snapshots s)"
      unfolding update_where_def by (rule map_cong [OF refl]) (use only False in auto)
    with s' have "cp_step s s'" using assms(2-5)
      by (intro cp_step.gates [where x = x and st = COMPLETE]) auto
    then show ?thesis by (rule r_into_rtranclp)
  qed
qed

section \<open>Enqueueing snapshots\<close>

lemma enqueue_guards_Inr:
  assumes "enqueue_guards p s = Inr src"
  shows "assert_source_gate_allows_snapshot (pl_source p) (pl_snapshot p) s = Inr ()"
    "assert_new_snapshot_extends_latest p s = Inr ()" "src \<in> set (t_sources s)" "r_id src = pl_source p"
    "r_lifecycle src = SOURCE_ACTIVE"
    "snapshot_known (pl_source p) (pl_snapshot p) s \<or> pl_epoch p = None \<or> pl_epoch p = Some (r_epoch src)"
  using assms
  by (auto simp: enqueue_guards_def rbind_Inr_iff ensure_Inr_iff lock_source_for_planning_def
      split: option.splits dest!: lookup_by_SomeD)

lemma snapshot_key_known:
  "(pl_source p, pl_snapshot p) \<in> snapshot_key ` set (t_snapshots s) \<longleftrightarrow> snapshot_known (pl_source p) (pl_snapshot p) s"
  unfolding snapshot_known_def exists_where_iff snapshot_key_def image_iff by (simp add: eq_commute)

lemma snapshot_of_plan_key: "snapshot_key (snapshot_of_plan p st ec em q now) = (pl_source p, pl_snapshot p)"
  by (simp add: snapshot_key_def snapshot_of_plan_def)

lemma insert_or_validate_snapshot_Inr:
  assumes "insert_or_validate_snapshot p st ec em now s = Inr ((q, inserted), s1)"
  shows "inserted = (\<not> snapshot_known (pl_source p) (pl_snapshot p) s)" "constraints_ok s1"
    "s1 = (if inserted then s\<lparr> t_snapshots := t_snapshots s @ [snapshot_of_plan p st ec em (next_seq s) now],
                               next_seq := next_seq s + 1 \<rparr>
           else s\<lparr> next_seq := next_seq s + 1 \<rparr>)"
    "inserted \<Longrightarrow> q = next_seq s"
    "\<exists>x\<in>set (t_snapshots s1). s_source x = pl_source p \<and> s_snapshot x = pl_snapshot p \<and> s_seq x = q \<and>
       snapshot_matches_plan x p"
proof -
  let ?row = "snapshot_of_plan p st ec em (next_seq s) now"
  from assms obtain x where ins: "inserted = (\<not> snapshot_known (pl_source p) (pl_snapshot p) s)"
    and s1: "s1 = s\<lparr> t_snapshots := insert_new snapshot_key ?row (t_snapshots s), next_seq := next_seq s + 1 \<rparr>"
    and ok: "constraints_ok s1" and m: "snapshot_matches_plan x p"
    and x: "lookup_by snapshot_key (pl_source p, pl_snapshot p) (t_snapshots s1) = Some x" "q = s_seq x"
    by (auto simp: insert_or_validate_snapshot_def Let_def rbind_Inr_iff checked_Inr_iff ensure_Inr_iff
        split: option.splits)
  show "inserted = (\<not> snapshot_known (pl_source p) (pl_snapshot p) s)" "constraints_ok s1" by fact+
  show s1': "s1 = (if inserted then s\<lparr> t_snapshots := t_snapshots s @ [?row], next_seq := next_seq s + 1 \<rparr>
           else s\<lparr> next_seq := next_seq s + 1 \<rparr>)"
    using s1 by (simp add: ins insert_new_alt snapshot_of_plan_key snapshot_key_known)
  show "\<exists>x\<in>set (t_snapshots s1). s_source x = pl_source p \<and> s_snapshot x = pl_snapshot p \<and> s_seq x = q \<and>
       snapshot_matches_plan x p"
    using lookup_by_SomeD [OF x(1)] m x(2) by (auto simp: snapshot_key_def)
  show "q = next_seq s" if "inserted"
  proof -
    have "lookup_by snapshot_key (pl_source p, pl_snapshot p) (t_snapshots s) = None"
      using that ins unfolding snapshot_key_known [symmetric] lookup_by_None_iff by (metis imageI)
    then have "x = ?row" using x(1) s1 by (simp add: lookup_by_insert_new snapshot_of_plan_key)
    then show ?thesis using x(2) by (simp add: snapshot_of_plan_def)
  qed
qed

lemma insert_or_validate_snapshot_refines:
  assumes "insert_or_validate_snapshot p st ec em now s = Inr ((q, inserted), s1)"
    and "enqueue_guards p s = Inr src" and "st \<noteq> COMPLETE" and "pl_kind p = REJECTED \<longleftrightarrow> st = SNAPSHOT_BLOCKED"
  shows "cp_step s s1"
proof -
  note eff = insert_or_validate_snapshot_Inr [OF assms(1)]
  show ?thesis
  proof (cases inserted)
    case True
    with eff enqueue_guards_Inr [OF assms(2)] assms(3,4) show ?thesis
      by (intro cp_step.seals [where p = p and st = st]) auto
  next
    case False
    with eff show ?thesis by (intro cp_step.allocates) auto
  qed
qed

text \<open>While a new snapshot is filled with its INGEST work, the snapshot table does not change.\<close>

definition newest_open :: "int \<Rightarrow> db \<Rightarrow> bool" where
  "newest_open q s = list_all (\<lambda>x. s_seq x \<le> q \<and> (s_seq x = q \<longrightarrow> s_state x \<noteq> COMPLETE)) (t_snapshots s)"

lemma insert_or_validate_dataset_refines:
  assumes "insert_or_validate_dataset sha1 src route spec now s = Inr (d, s')"
  shows "cp_steps s s' \<and> t_snapshots s' = t_snapshots s \<and> t_work s' = t_work s \<and> d \<in> set (t_datasets s')"
proof -
  from assms obtain did uri where
    s': "s' = s\<lparr> t_datasets := insert_new d_id (new_dataset did (source_id src) route spec uri now) (t_datasets s) \<rparr>"
      "constraints_ok s'" and d: "lookup_by d_id did (t_datasets s') = Some d"
    by (auto simp: insert_or_validate_dataset_def rbind_Inr_iff checked_Inr_iff split: option.splits)
  have "cp_steps s s'"
  proof (cases "did \<in> d_id ` set (t_datasets s)")
    case True
    with s' show ?thesis by (simp add: insert_new_alt new_dataset_def)
  next
    case False
    with s' have "cp_step s s'"
      by (intro cp_step.opens_dataset [where d = "new_dataset did (source_id src) route spec uri now"])
        (simp_all add: insert_new_alt new_dataset_def)
    then show ?thesis by (rule r_into_rtranclp)
  qed
  with s' lookup_by_SomeD [OF d] show ?thesis by simp
qed

lemma insert_ingest_work_refines:
  assumes "insert_ingest_work sha1 d q now s = Inr s'" and "newest_open q s"
  shows "cp_steps s s' \<and> t_snapshots s' = t_snapshots s"
proof -
  from assms(1) obtain wid where
    s': "s' = s\<lparr> t_work := insert_new w_id (new_work wid d q (d_desired d) INGEST PH_INGEST now) (t_work s) \<rparr>"
      "constraints_ok s'"
    by (auto simp: insert_ingest_work_def Let_def rbind_Inr_iff checked_Inr_iff split: option.splits)
  have "cp_steps s s'"
  proof (cases "wid \<in> w_id ` set (t_work s)")
    case True
    with s' show ?thesis by (simp add: insert_new_alt new_work_def)
  next
    case False
    with s' assms(2) have "cp_step s s'"
      by (intro cp_step.opens_ingest [where w = "new_work wid d q (d_desired d) INGEST PH_INGEST now"])
        (simp_all add: insert_new_alt new_work_def newest_open_def list_all_iff)
    then show ?thesis by (rule r_into_rtranclp)
  qed
  with s' show ?thesis by simp
qed

lemma enqueue_dataset_refines:
  assumes "enqueue_dataset sha1 src spec q now route s = Inr s'" and "newest_open q s"
  shows "cp_steps s s' \<and> t_snapshots s' = t_snapshots s"
proof -
  from assms(1) obtain x d s1 where
    s1: "insert_or_validate_dataset sha1 x route spec now s = Inr (d, s1)" and w: "insert_ingest_work sha1 d q now s1 = Inr s'"
    by (auto simp: enqueue_dataset_def rbind_Inr_iff)
  note r = insert_or_validate_dataset_refines [OF s1]
  have "newest_open q s1" using assms(2) r by (simp add: newest_open_def)
  from insert_ingest_work_refines [OF w this] r show ?thesis by (auto intro: rtranclp_trans)
qed

lemma enqueue_datasets_refines:
  assumes "rfold (enqueue_dataset sha1 src spec q now) routes s = Inr s'" and "newest_open q s"
  shows "cp_steps s s' \<and> t_snapshots s' = t_snapshots s"
  using assms
proof (induction routes arbitrary: s)
  case Nil
  then show ?case by simp
next
  case (Cons route routes)
  from Cons.prems(1) obtain s1 where s1: "enqueue_dataset sha1 src spec q now route s = Inr s1"
    and rest: "rfold (enqueue_dataset sha1 src spec q now) routes s1 = Inr s'"
    by (auto simp: rbind_Inr_iff)
  note r = enqueue_dataset_refines [OF s1 Cons.prems(2)]
  have "newest_open q s1" using Cons.prems(2) r by (simp add: newest_open_def)
  from Cons.IH [OF rest this] r show ?case by (auto intro: rtranclp_trans)
qed

lemma rmap_empty_iff: "rmap f xs = Inr ys \<Longrightarrow> (ys = []) = (xs = [])"
  by (auto simp: rmap_Inr_iff)

lemma newest_open_seal:
  assumes "cp_inv s"
  shows "newest_open (next_seq s) (s\<lparr> t_snapshots := t_snapshots s @ [snapshot_of_plan p SEALED ec em (next_seq s) now],
    next_seq := next_seq s + 1 \<rparr>)"
  using assms by (auto simp: newest_open_def list_all_iff cp_inv_def lineage_inv_def snapshot_of_plan_def)

lemma fresh_seq_complete:
  assumes "cp_inv s" and "t_work s' = t_work s"
  shows "\<not> incomplete_ingest (next_seq s) s'"
proof -
  have "w_seq w < next_seq s" if "w \<in> set (t_work s)" for w
    using assms(1) work_refD(2) [OF _ that] by (auto simp: cp_inv_def lineage_inv_def)
  then show ?thesis unfolding incomplete_ingest_iff assms(2) by (metis less_irrefl)
qed

lemma replay_snapshot_refines:
  assumes "replay_snapshot expected q now s = Inr (q', s')" and "constraints_ok s"
    and "x \<in> set (t_snapshots s)" and "s_seq x = q" and "s_kind x \<noteq> REJECTED"
  shows "cp_steps s s' \<and> q' = q"
proof (cases "expected = []")
  case True
  with assms(1) have "ingest_dataset_ids q s = []" and m: "mark_snapshot_complete q now s = Inr s'" "q' = q"
    by (auto simp: replay_snapshot_def rbind_Inr_iff ensure_Inr_iff)
  then have "\<not> incomplete_ingest q s"
    by (auto simp: ingest_dataset_ids_def incomplete_ingest_iff filter_empty_conv)
  with mark_snapshot_complete_refines [OF m(1) assms(3,4) _ assms(5,2)] m(2) show ?thesis by simp
next
  case False
  with assms(1) show ?thesis by (auto simp: replay_snapshot_def rbind_Inr_iff)
qed

lemma fill_snapshot_refines:
  assumes "fill_snapshot sha1 src validated expected q now s = Inr (q', s')" and "newest_open q s"
    and "validated = [] \<longleftrightarrow> expected = []" and "\<not> incomplete_ingest q s" and "constraints_ok s"
    and "x \<in> set (t_snapshots s)" and "s_seq x = q" and "s_kind x \<noteq> REJECTED"
  shows "cp_steps s s' \<and> q' = q"
proof -
  from assms(1) obtain spec s2 where s2: "rfold (enqueue_dataset sha1 src spec q now) validated s = Inr s2"
    and last: "if expected = [] then mark_snapshot_complete q now s2 = Inr s' else s' = s2" and q: "q' = q"
    by (auto simp: fill_snapshot_def rbind_Inr_iff split: if_splits)
  show ?thesis
  proof (cases "expected = []")
    case True
    with s2 assms(3) last have "mark_snapshot_complete q now s = Inr s'" by simp
    from mark_snapshot_complete_refines [OF this assms(6,7,4,8,5)] q show ?thesis by simp
  next
    case False
    with last enqueue_datasets_refines [OF s2 assms(2)] q show ?thesis by simp
  qed
qed

lemma enqueue_source_snapshot_refines [refines]:
  assumes "enqueue_source_snapshot sha1 p routes now s = Inr (q, s')" and "cp_inv s"
  shows "cp_steps s s'"
proof -
  from assms(1) obtain src validated q0 s1 inserted expected where kind: "pl_kind p \<noteq> REJECTED"
    and guards: "enqueue_guards p s = Inr src"
    and ins: "insert_or_validate_snapshot p SEALED None None now s = Inr ((q0, inserted), s1)"
    and expd: "rmap (deterministic_dataset_id sha1 (pl_source p)) validated = Inr expected"
    and tail: "(if \<not> inserted then replay_snapshot expected q0 now s1
       else fill_snapshot sha1 src validated expected q0 now s1) = Inr (q, s')"
    by (auto simp: enqueue_source_snapshot_def rbind_Inr_iff ensure_Inr_iff) (metis rmap.simps(1))
  have step: "cp_step s s1"
    by (rule insert_or_validate_snapshot_refines [OF ins guards]) (use kind in simp_all)
  note eff = insert_or_validate_snapshot_Inr [OF ins]
  from eff(5) kind obtain x where x: "x \<in> set (t_snapshots s1)" "s_seq x = q0" "s_kind x \<noteq> REJECTED"
    by (auto simp: snapshot_matches_plan_def)
  have "cp_steps s1 s'"
  proof (cases inserted)
    case False
    with tail replay_snapshot_refines [OF _ eff(2) x] show ?thesis by simp
  next
    case True
    have "newest_open q0 s1" using eff(3,4) True newest_open_seal [OF assms(2)] by simp
    moreover have "\<not> incomplete_ingest q0 s1"
      using fresh_seq_complete [OF assms(2), of s1] eff(3,4) True by simp
    ultimately show ?thesis
      using fill_snapshot_refines [OF _ _ _ _ eff(2) x] tail True rmap_empty_iff [OF expd] by fastforce
  qed
  with step show ?thesis by (rule converse_rtranclp_into_rtranclp)
qed

lemma enqueue_blocked_source_snapshot_refines [refines]:
  assumes "enqueue_blocked_source_snapshot p ec em now s = Inr (q, s')"
  shows "cp_steps s s'"
proof -
  from assms obtain src q0 s1 inserted where kind: "pl_kind p = REJECTED"
    and guards: "enqueue_guards p s = Inr src"
    and ins: "insert_or_validate_snapshot p SNAPSHOT_BLOCKED (Some ec) em now s = Inr ((q0, inserted), s1)"
    and tail: "if inserted then bump_epoch (pl_source p) now s1 = Inr s' else s' = s1"
    by (auto simp: enqueue_blocked_source_snapshot_def rbind_Inr_iff ensure_Inr_iff split: if_splits option.splits)
  have "cp_step s s1"
    by (rule insert_or_validate_snapshot_refines [OF ins guards]) (use kind in simp_all)
  moreover have "cp_steps s1 s'" using tail bump_epoch_refines by (cases inserted) auto
  ultimately show ?thesis by (rule converse_rtranclp_into_rtranclp)
qed

section \<open>The source gate\<close>

lemma block_ingest_from_effect:
  "block_ingest_from src q ec em now s = Inr s1 \<Longrightarrow> t_snapshots s1 = t_snapshots s"
  by (auto simp: block_ingest_from_def checked_Inr_iff)

lemma block_source_snapshot_refines [refines]:
  assumes "block_source_snapshot q ec em epoch now s = Inr (b, s')" and "cp_inv s"
  shows "cp_steps s s'"
proof (cases "lookup_by s_seq q (t_snapshots s)")
  case None
  with assms(1) show ?thesis by (simp add: block_source_snapshot_def Let_def)
next
  case (Some x)
  let ?ec = "bounded_error (Some ec) ERROR_CODE_LIMIT" and ?em = "bounded_error em ERROR_MESSAGE_LIMIT"
  from assms(1) Some obtain s1 s2 where s1: "block_ingest_from (s_source x) q ?ec ?em now s = Inr s1"
    and s2: "set_snapshot_state q SNAPSHOT_BLOCKED ?ec ?em now s1 = Inr s2"
    and s3: "if s_state x \<noteq> SNAPSHOT_BLOCKED then bump_epoch (s_source x) now s2 = Inr s' else s' = s2"
    by (auto simp: block_source_snapshot_def Let_def rbind_Inr_iff split: if_splits)
  from lookup_by_SomeD [OF Some] have x: "x \<in> set (t_snapshots s)" "s_seq x = q" by simp_all
  have "cp_step s s1" by (rule block_ingest_from_refines [OF s1])
  moreover have "cp_step s1 s2"
    by (rule set_snapshot_state_refines [OF s2 _ x(2)])
      (use x assms(2) block_ingest_from_effect [OF s1] in \<open>auto simp: cp_inv_def lineage_inv_def\<close>)
  moreover have "cp_steps s2 s'" using s3 bump_epoch_refines by (cases "s_state x = SNAPSHOT_BLOCKED") auto
  ultimately show ?thesis by (meson converse_rtranclp_into_rtranclp)
qed

lemma retry_blocked_source_snapshot_refines [refines]:
  assumes "retry_blocked_source_snapshot q now s = Inr (b, s')"
  shows "cp_steps s s'"
proof (cases "lookup_by s_seq q (t_snapshots s)")
  case None
  with assms show ?thesis by (simp add: retry_blocked_source_snapshot_def)
next
  case (Some x)
  from lookup_by_SomeD [OF Some] have x: "x \<in> set (t_snapshots s)" "s_seq x = q" by simp_all
  show ?thesis
  proof (cases "s_state x = SNAPSHOT_BLOCKED")
    case False
    with assms Some show ?thesis by (auto simp: retry_blocked_source_snapshot_def rbind_Inr_iff)
  next
    case True
    with assms Some obtain s1 where kind: "s_kind x \<noteq> REJECTED"
      and s1: "set_snapshot_state q (if incomplete_ingest q s then SEALED else COMPLETE) None None now s = Inr s1"
      and s2: "bump_epoch (s_source x) now s1 = Inr s'"
      by (auto simp: retry_blocked_source_snapshot_def rbind_Inr_iff ensure_Inr_iff simp del: if_split)
    have "cp_step s s1"
      by (rule set_snapshot_state_refines [OF s1 x]) (use kind in \<open>auto split: if_splits\<close>)
    with bump_epoch_refines [OF s2] show ?thesis by (meson converse_rtranclp_into_rtranclp r_into_rtranclp)
  qed
qed

end
