(* ===== verification/System.thy ===== *)
theory System
  imports Refinement_Planning
begin

text \<open>
  The control plane as a system: workers, planners and operators issue transactions in any order;
  a worker acts only under a claim the control plane issued, and lease tokens are drawn fresh. The
  theory gives the operations of the system, its step relation, the invariant that ties every running
  row to the claim it was issued under, and the consequences for fencing.
\<close>

section \<open>Only claims move a fence\<close>

definition fence_of :: "db \<Rightarrow> uuid \<Rightarrow> int option" where
  "fence_of s did = map_option d_fence (lookup_by d_id did (t_datasets s))"

definition fences_kept :: "db \<Rightarrow> db \<Rightarrow> bool" where
  "fences_kept s s' =
     ((\<forall>did f. fence_of s did = Some f \<longrightarrow> fence_of s' did = Some f) \<and>
      (\<forall>did f. fence_of s did = None \<and> fence_of s' did = Some f \<longrightarrow> f = 0))"

lemma fences_kept_refl [simp]: "fences_kept s s"
  by (auto simp: fences_kept_def)

lemma fences_kept_trans: "fences_kept s t \<Longrightarrow> fences_kept t u \<Longrightarrow> fences_kept s u"
  unfolding fences_kept_def by (metis not_None_eq)

lemma fences_kept_same: "t_datasets s' = t_datasets s \<Longrightarrow> fences_kept s s'"
  by (auto simp: fences_kept_def fence_of_def)

lemma fences_kept_update:
  assumes "t_datasets s' = update_where p f (t_datasets s)"
    and "\<And>d. d_id (f d) = d_id d" and "\<And>d. d_fence (f d) = d_fence d"
  shows "fences_kept s s'"
proof -
  have "fence_of s' did = fence_of s did" for did
    using assms by (cases "lookup_by d_id did (t_datasets s)") (simp_all add: fence_of_def lookup_by_update_where)
  then show ?thesis by (auto simp: fences_kept_def)
qed

lemma fences_kept_insert:
  assumes "t_datasets s' = insert_new d_id d (t_datasets s)" and "d_fence d = 0"
  shows "fences_kept s s'"
  using assms by (auto simp: fences_kept_def fence_of_def lookup_by_insert_new)

named_theorems fences \<open>operations that leave every fence in place\<close>

lemma fenced_update_datasets: "fenced_update c now f s = Inr (b, s') \<Longrightarrow> t_datasets s' = t_datasets s"
  by (auto simp: fenced_update_def rbind_Inr_iff checked_Inr_iff)

lemma renew_lease_fences [fences]: "renew_lease c duration now s = Inr (b, s') \<Longrightarrow> fences_kept s s'"
  by (auto simp: renew_lease_def rbind_Inr_iff intro!: fences_kept_same dest: fenced_update_datasets)

lemma advance_phase_fences [fences]: "advance_phase c ph u v m g now s = Inr (b, s') \<Longrightarrow> fences_kept s s'"
  by (auto simp: advance_phase_def rbind_Inr_iff split: option.splits if_splits
      intro!: fences_kept_same dest: fenced_update_datasets)

lemma retry_work_fences [fences]: "retry_work c delay ec em n now s = Inr (b, s') \<Longrightarrow> fences_kept s s'"
  by (auto simp: retry_work_def rbind_Inr_iff Let_def intro!: fences_kept_same dest: fenced_update_datasets)

lemma block_work_fences [fences]: "block_work c ec em now s = Inr (b, s') \<Longrightarrow> fences_kept s s'"
  by (auto simp: block_work_def intro!: fences_kept_same dest: fenced_update_datasets)

lemma retry_blocked_work_fences [fences]: "retry_blocked_work wid now s = Inr (b, s') \<Longrightarrow> fences_kept s s'"
  by (auto simp: retry_blocked_work_def rbind_Inr_iff checked_Inr_iff intro!: fences_kept_same)

lemma complete_ingest_fences [fences]:
  assumes "complete_ingest sha1 c version rows digest now s = Inr (b, s')"
  shows "fences_kept s s'"
proof (cases "s' = s")
  case False
  with assms have "\<exists>w :: work_row. t_datasets s' = update_where (\<lambda>x. d_id x = c_dataset c)
      (\<lambda>x. x\<lparr> d_materialized := Some (w_spec w), d_last_seq := Some (w_seq w), d_uri := w_exp_uri w,
        d_version := Some version, d_updated := now \<rparr>) (t_datasets s)"
    by (auto simp: complete_ingest_def rbind_Inr_iff checked_Inr_iff enqueue_publish_work_def Let_def
        complete_snapshot_if_applied_def split: option.splits if_splits) blast
  then show ?thesis by (elim exE) (erule fences_kept_update, simp_all)
qed simp

lemma publish_dataset_fences [fences]:
  assumes "publish_dataset sha1 c uri version manifest digest ev now s = Inr (b, s')"
  shows "fences_kept s s'"
  using assms
proof (cases rule: publish_dataset_cases)
  case (published w d xs)
  then show ?thesis
    by (intro fences_kept_update [where p = "\<lambda>x. d_id x = c_dataset c" and
          f = "swap_pointer c w (deterministic_publication_id sha1 (c_work c)) uri version now"])
      (simp_all add: publish_db_def)
qed simp

lemma enqueue_rebuild_fences [fences]: "enqueue_rebuild sha1 route req now s = Inr (wid, s') \<Longrightarrow> fences_kept s s'"
  by (auto simp: enqueue_rebuild_def rbind_Inr_iff checked_Inr_iff Let_def split: option.splits
      intro!: fences_kept_same)

lemma assign_dataset_spec_revision_fences [fences]:
  assumes "assign_dataset_spec_revision sha1 did spec now s = Inr (r, s')"
  shows "fences_kept s s'"
proof (rule fences_kept_update)
  show "t_datasets s' = update_where (\<lambda>x. d_id x = did)
      (\<lambda>x. x\<lparr> d_desired := spec, d_updated := now \<rparr>) (t_datasets s)"
    using assms by (auto simp: assign_dataset_spec_revision_def rbind_Inr_iff checked_Inr_iff Let_def
        split: option.splits if_splits)
qed simp_all

lemma finalize_publication_cleanup_fences [fences]:
  "finalize_publication_cleanup k s = Inr (b, s') \<Longrightarrow> fences_kept s s'"
  by (auto simp: finalize_publication_cleanup_def rbind_Inr_iff checked_Inr_iff Let_def
      split: option.splits intro!: fences_kept_same)

lemma delete_completed_audit_fences [fences]:
  "delete_completed_audit before limit s = Inr (n, s') \<Longrightarrow> fences_kept s s'"
  by (auto simp: delete_completed_audit_def rbind_Inr_iff checked_Inr_iff Let_def intro!: fences_kept_same)

lemma ensure_source_registration_fences [fences]:
  "ensure_source_registration sha1 name tbl tu baseline base now s = Inr (src, s') \<Longrightarrow> fences_kept s s'"
  by (auto simp: ensure_source_registration_def rbind_Inr_iff checked_Inr_iff Let_def
      split: option.splits intro!: fences_kept_same)

lemma insert_snapshot_fences:
  "insert_or_validate_snapshot p st ec em now s = Inr ((q, i), s1) \<Longrightarrow> fences_kept s s1"
  by (auto simp: insert_or_validate_snapshot_def rbind_Inr_iff checked_Inr_iff Let_def
      split: option.splits intro!: fences_kept_same)

lemma bump_epoch_fences: "bump_epoch src now s = Inr s' \<Longrightarrow> fences_kept s s'"
  by (auto simp: bump_epoch_def checked_Inr_iff intro!: fences_kept_same)

lemma mark_snapshot_complete_fences: "mark_snapshot_complete q now s = Inr s' \<Longrightarrow> fences_kept s s'"
  by (auto simp: mark_snapshot_complete_def checked_Inr_iff intro!: fences_kept_same)

lemma enqueue_dataset_fences:
  assumes "enqueue_dataset sha1 src spec q now route s = Inr s'"
  shows "fences_kept s s'"
proof -
  from assms obtain d where "t_datasets s' = insert_new d_id d (t_datasets s)" "d_fence d = 0"
    by (auto simp: enqueue_dataset_def insert_or_validate_dataset_def insert_ingest_work_def rbind_Inr_iff
        checked_Inr_iff Let_def new_dataset_def split: option.splits)
  then show ?thesis by (rule fences_kept_insert)
qed

lemma enqueue_source_snapshot_fences [fences]:
  assumes "enqueue_source_snapshot sha1 p routes now s = Inr (q, s')"
  shows "fences_kept s s'"
proof -
  from assms obtain src validated q0 s1 i expected where
    ins: "insert_or_validate_snapshot p SEALED None None now s = Inr ((q0, i), s1)"
    and tail: "(if \<not> i then replay_snapshot expected q0 now s1
       else fill_snapshot sha1 src validated expected q0 now s1) = Inr (q, s')"
    by (auto simp: enqueue_source_snapshot_def rbind_Inr_iff)
  have fold: "fences_kept s1 s2" if "rfold (enqueue_dataset sha1 src spec q0 now) validated s1 = Inr s2" for spec s2
    by (rule rfold_invariant [OF that, where P = "fences_kept s1"])
      (simp, rule fences_kept_trans, assumption, erule enqueue_dataset_fences)
  have "fences_kept s1 s'"
    using tail fold mark_snapshot_complete_fences
    by (auto simp: replay_snapshot_def fill_snapshot_def rbind_Inr_iff split: if_splits) (metis fences_kept_trans)
  with insert_snapshot_fences [OF ins] show ?thesis by (rule fences_kept_trans)
qed

lemma enqueue_blocked_source_snapshot_fences [fences]:
  assumes "enqueue_blocked_source_snapshot p ec em now s = Inr (q, s')"
  shows "fences_kept s s'"
  using assms
  by (auto simp: enqueue_blocked_source_snapshot_def rbind_Inr_iff split: if_splits option.splits
      intro: fences_kept_trans insert_snapshot_fences bump_epoch_fences)

lemma block_source_snapshot_fences [fences]:
  "block_source_snapshot q ec em epoch now s = Inr (b, s') \<Longrightarrow> fences_kept s s'"
  by (auto simp: block_source_snapshot_def block_ingest_from_def set_snapshot_state_def bump_epoch_def
      rbind_Inr_iff checked_Inr_iff Let_def split: option.splits if_splits intro!: fences_kept_same)

lemma retry_blocked_source_snapshot_fences [fences]:
  "retry_blocked_source_snapshot q now s = Inr (b, s') \<Longrightarrow> fences_kept s s'"
  by (auto simp: retry_blocked_source_snapshot_def set_snapshot_state_def bump_epoch_def
      rbind_Inr_iff checked_Inr_iff split: option.splits if_splits intro!: fences_kept_same)

section \<open>Where running work comes from\<close>

lemma fence_of_iff:
  assumes "constraints_ok s"
  shows "fence_of s did = Some f \<longleftrightarrow> (\<exists>d\<in>set (t_datasets s). d_id d = did \<and> d_fence d = f)"
  using lookup_by_Some_iff [OF constraints_ok_keys(2) [OF assms]] by (auto simp: fence_of_def)

lemma fence_of_step:
  assumes "cp_step s t" and "constraints_ok s"
  shows "fence_of s did = Some f \<Longrightarrow> \<exists>g. fence_of t did = Some g \<and> f \<le> g"
    and "fence_of s did = None \<Longrightarrow> fence_of t did = Some f \<Longrightarrow> f = 0"
proof -
  note ok = cp_step_constraints [OF assms(1)]
  show "\<exists>g. fence_of t did = Some g \<and> f \<le> g" if "fence_of s did = Some f"
  proof -
    from that obtain d where d: "d \<in> set (t_datasets s)" "d_id d = did" "d_fence d = f"
      unfolding fence_of_iff [OF assms(2)] by blast
    from fence_step [OF assms d(1)] d(2,3) show ?thesis unfolding fence_of_iff [OF ok] by metis
  qed
  show "f = 0" if "fence_of s did = None" "fence_of t did = Some f"
  proof -
    from that(2) obtain d where d: "d \<in> set (t_datasets t)" "d_id d = did" "d_fence d = f"
      unfolding fence_of_iff [OF ok] by blast
    have "d_id d \<notin> d_id ` set (t_datasets s)"
      using that(1) d(2) by (auto simp: fence_of_def lookup_by_None_iff)
    then show ?thesis using dataset_change [OF assms d(1)] d(3) by (elim disjE) auto
  qed
qed

lemma fence_of_steps:
  assumes "cp_steps s t" and "cp_inv s" and "fence_of s did = Some f"
  shows "\<exists>g. fence_of t did = Some g \<and> f \<le> g"
  using assms(1)
proof (induction rule: rtranclp_induct)
  case (step t u)
  from cp_inv_steps [OF step(1) assms(2)] have "constraints_ok t" by (simp add: cp_inv_def)
  with step(3) fence_of_step(1) [OF step(2)] show ?case by (meson order_trans)
qed (use assms(3) in simp)

lemma fences_kept_split:
  assumes "cp_step s t" and "cp_steps t u" and "cp_inv s" and "fences_kept s u"
  shows "fences_kept s t" "fences_kept t u"
proof -
  have ok: "constraints_ok s" using assms(3) by (simp add: cp_inv_def)
  have inv: "cp_inv t" by (rule cp_inv_step [OF assms(1,3)])
  have same: "fence_of t did = Some f \<and> fence_of u did = Some f" if "fence_of s did = Some f" for did f
  proof -
    from fence_of_step(1) [OF assms(1) ok that] obtain g where g: "fence_of t did = Some g" "f \<le> g" by blast
    from fence_of_steps [OF assms(2) inv g(1)] obtain h where h: "fence_of u did = Some h" "g \<le> h" by blast
    have "fence_of u did = Some f" using assms(4) that by (simp add: fences_kept_def)
    with g h show ?thesis by simp
  qed
  have zero: "f = 0" if "fence_of s did = None" "fence_of u did = Some f" for did f
    using assms(4) that unfolding fences_kept_def by blast
  show "fences_kept s t"
    unfolding fences_kept_def using same fence_of_step(2) [OF assms(1) ok] by blast
  show "fences_kept t u"
    unfolding fences_kept_def
  proof (intro conjI allI impI)
    fix did f assume t: "fence_of t did = Some f"
    show "fence_of u did = Some f"
    proof (cases "fence_of s did")
      case None
      then have "f = 0" using t fence_of_step(2) [OF assms(1) ok] by blast
      moreover obtain h where "fence_of u did = Some h" using fence_of_steps [OF assms(2) inv t] by blast
      ultimately show ?thesis using zero [OF None] by blast
    next
      case (Some g)
      with same [OF Some] t show ?thesis by simp
    qed
  next
    fix did f assume "fence_of t did = None \<and> fence_of u did = Some f"
    then show "f = 0" using same zero by (metis not_None_eq option.distinct(1))
  qed
qed

lemma running_kept_step:
  assumes "cp_step s t" and "constraints_ok s" and "fences_kept s t" and "v \<in> set (t_work t)" and "w_state v = RUNNING"
  obtains w where "w \<in> set (t_work s)" "w_state w = RUNNING" "w_token w = w_token v" "work_identity w = work_identity v"
proof -
  from work_change [OF assms(1,2,4)] assms(5) obtain w where w: "w \<in> set (t_work s)" "row_change s t w v"
    by (auto simp: fresh_work_def)
  have id: "work_identity w = work_identity v" using row_change_identity [OF w(2)] by simp
  from w(2) show thesis
  proof cases
    case started
    from work_refD(1) [OF assms(2) w(1)] obtain d where d: "d \<in> set (t_datasets s)" "d_id d = w_dataset w" by blast
    then have "fence_of s (w_dataset w) = Some (d_fence d)" unfolding fence_of_iff [OF assms(2)] by blast
    then have "fence_of t (w_dataset w) = Some (d_fence d)" using assms(3) by (simp add: fences_kept_def)
    then obtain e where e: "e \<in> set (t_datasets t)" "d_id e = w_dataset w" "d_fence e = d_fence d"
      unfolding fence_of_iff [OF cp_step_constraints [OF assms(1)]] by blast
    with started(8) d show thesis by auto
  next
    case kept
    then show thesis by (intro that [OF w(1)]) (use assms(5) in simp_all)
  next
    case moved
    note q = quiet_state(2) [OF moved assms(5)]
    show thesis by (rule that [OF w(1) _ _ id]) (simp_all only: q)
  next
    case finished
    then show thesis using assms(5) by simp
  qed
qed

lemma running_kept_steps:
  assumes "cp_steps s t" and "cp_inv s" and "fences_kept s t" and "v \<in> set (t_work t)" and "w_state v = RUNNING"
  shows "\<exists>w\<in>set (t_work s). w_state w = RUNNING \<and> w_token w = w_token v \<and> work_identity w = work_identity v"
  using assms(1-3)
proof (induction rule: converse_rtranclp_induct)
  case base
  then show ?case using assms(4,5) by blast
next
  case (step s s1)
  note sp = fences_kept_split [OF step(1,2) step(4,5)]
  from step(3) [OF cp_inv_step [OF step(1,4)] sp(2)] obtain w where w: "w \<in> set (t_work s1)" "w_state w = RUNNING"
    "w_token w = w_token v" "work_identity w = work_identity v" by blast
  have "constraints_ok s" using step(4) by (simp add: cp_inv_def)
  from running_kept_step [OF step(1) this sp(1) w(1,2)] w show ?case by metis
qed

end
