(* ===== verification/Claiming.thy ===== *)
theory Claiming
  imports System
begin

text \<open>
  What one call of \<open>claim_due_work\<close> returns: a batch bounded by the limit, at most one claim per
  dataset, every claim held in the committed database, and no running row without the claim that
  started it.
\<close>

lemma claim_db_dataset_other:
  assumes "d_id x \<noteq> w_dataset w"
  shows "x \<in> set (t_datasets (claim_db token ex now d w s)) \<longleftrightarrow> x \<in> set (t_datasets s)"
  using assms by (auto simp: claim_db_def set_update_where image_iff)

lemma claim_loop_unfold:
  assumes "claim_loop tok lockd n now duration (w # ws) cs s = Inr (cs', s')"
  obtains (stop) "n \<le> length cs" "cs' = cs" "s' = s"
  | (skip) "\<not> n \<le> length cs" "claim_loop tok lockd n now duration ws cs s = Inr (cs', s')"
  | (take) d s1 r where "\<not> n \<le> length cs" "w_dataset w \<notin> set (map c_dataset cs)" "\<not> lockd (w_dataset w)"
      "d \<in> set (t_datasets s)" "d_id d = w_dataset w"
      "claim_locked_row (tok (w_id w)) w d now duration s = Inr (r, s1)"
      "claim_loop tok lockd n now duration ws (case r of None \<Rightarrow> cs | Some x \<Rightarrow> cs @ [x]) s1 = Inr (cs', s')"
proof -
  consider "n \<le> length cs" | "\<not> n \<le> length cs" "w_dataset w \<in> set (map c_dataset cs)"
    | "\<not> n \<le> length cs" "w_dataset w \<notin> set (map c_dataset cs)" by blast
  then show thesis
  proof cases
    case 1
    then show thesis by (rule stop) (use assms 1 in simp_all)
  next
    case 2
    show thesis by (rule skip [OF 2(1)]) (use assms 2 in simp)
  next
    case 3
    show thesis
    proof (cases "if lockd (w_dataset w) then None else lookup_by d_id (w_dataset w) (t_datasets s)")
      case None
      show thesis by (rule skip [OF 3(1)]) (use assms 3 None in simp)
    next
      case (Some d)
      then have d: "\<not> lockd (w_dataset w)" "d \<in> set (t_datasets s)" "d_id d = w_dataset w"
        by (auto split: if_splits dest: lookup_by_SomeD)
      from assms 3 Some obtain r s1 where "claim_locked_row (tok (w_id w)) w d now duration s = Inr (r, s1)"
        "claim_loop tok lockd n now duration ws (case r of None \<Rightarrow> cs | Some x \<Rightarrow> cs @ [x]) s1 = Inr (cs', s')"
        by (auto simp: rbind_Inr_iff)
      then show thesis by (rule take [OF 3 d])
    qed
  qed
qed

lemma claim_rest_ready:
  assumes "claim_locked_row token w d now duration s = Inr (r, s1)" and "ready s w" and "constraints_ok s"
    and "\<forall>v\<in>set (w # ws). w_dataset v \<notin> set (map c_dataset cs) \<longrightarrow> ready s v"
  shows "r = Some (claim_of token (now + duration) d w)" "s1 = claim_db token (now + duration) now d w s" "constraints_ok s1"
    "\<forall>v\<in>set ws. w_dataset v \<notin> set (map c_dataset (case r of None \<Rightarrow> cs | Some x \<Rightarrow> cs @ [x])) \<longrightarrow> ready s1 v"
proof -
  have st: "w_state w \<in> {PENDING, RETRY_WAIT}" "w \<in> set (t_work s)" using assms(2) by (simp_all add: ready_def)
  note eff = claim_locked_row_Inr [OF assms(1) st(1)]
  show "r = Some (claim_of token (now + duration) d w)" "s1 = claim_db token (now + duration) now d w s" "constraints_ok s1"
    using eff by simp_all
  show "\<forall>v\<in>set ws. w_dataset v \<notin> set (map c_dataset (case r of None \<Rightarrow> cs | Some x \<Rightarrow> cs @ [x])) \<longrightarrow> ready s1 v"
  proof (intro ballI impI)
    fix v assume v: "v \<in> set ws" "w_dataset v \<notin> set (map c_dataset (case r of None \<Rightarrow> cs | Some x \<Rightarrow> cs @ [x]))"
    then have "w_dataset v \<noteq> w_dataset w" "ready s v" using eff(1) assms(4) by (auto simp: claim_of_def)
    then show "ready s1 v" unfolding eff(2) using claim_db_ready st(2) assms(3) by blast
  qed
qed

lemma claim_loop_frame:
  assumes "claim_loop tok lockd n now duration ws cs s = Inr (cs', s')" and "constraints_ok s"
    and "\<forall>w\<in>set ws. w_dataset w \<notin> set (map c_dataset cs) \<longrightarrow> ready s w" and "\<delta> \<in> set (map c_dataset cs)"
  shows "(\<forall>v. w_dataset v = \<delta> \<longrightarrow> (v \<in> set (t_work s') \<longleftrightarrow> v \<in> set (t_work s))) \<and>
    (\<forall>d. d_id d = \<delta> \<longrightarrow> (d \<in> set (t_datasets s') \<longleftrightarrow> d \<in> set (t_datasets s)))"
  using assms
proof (induction ws arbitrary: cs s)
  case Nil
  then show ?case by simp
next
  case (Cons w ws)
  from Cons.prems(1) show ?case
  proof (cases rule: claim_loop_unfold)
    case skip
    with Cons show ?thesis by simp
  next
    case (take d s1 r)
    have rw: "ready s w" using Cons.prems(3) take(2) by simp
    then have st: "w \<in> set (t_work s)" by (simp add: ready_def)
    note eff = claim_rest_ready [OF take(6) rw Cons.prems(2,3)]
    have ne: "\<delta> \<noteq> w_dataset w" using Cons.prems(4) take(2) by blast
    from Cons.IH [OF take(7) eff(3,4)] Cons.prems(4) eff(1)
    have "(\<forall>v. w_dataset v = \<delta> \<longrightarrow> (v \<in> set (t_work s') \<longleftrightarrow> v \<in> set (t_work s1))) \<and>
        (\<forall>d. d_id d = \<delta> \<longrightarrow> (d \<in> set (t_datasets s') \<longleftrightarrow> d \<in> set (t_datasets s1)))" by auto
    moreover have "v \<in> set (t_work s1) \<longleftrightarrow> v \<in> set (t_work s)" if "w_dataset v = \<delta>" for v
      unfolding eff(2) by (rule claim_db_other) (use that ne st Cons.prems(2) in auto)
    moreover have "x \<in> set (t_datasets s1) \<longleftrightarrow> x \<in> set (t_datasets s)" if "d_id x = \<delta>" for x
      unfolding eff(2) by (rule claim_db_dataset_other) (use that ne in auto)
    ultimately show ?thesis by simp
  qed simp
qed

text \<open>The claim taken at one row is held at once, and stays held for the rest of the loop.\<close>

lemma claim_held_db:
  assumes "constraints_ok s" and "w \<in> set (t_work s)" and "w_state w \<in> {PENDING, RETRY_WAIT}"
    and "d \<in> set (t_datasets s)" and "d_id d = w_dataset w"
  shows "claim_held (claim_db token ex now d w s) (claim_of token ex d w)"
proof -
  have "claim_work_row token ex (w_attempts w + 1) now d w \<in> set (t_work (claim_db token ex now d w s))"
    using assms(2,3) by (auto simp: claim_db_def set_update_where image_iff intro!: bexI [of _ w])
  moreover have "d\<lparr> d_fence := d_fence d + 1, d_updated := now \<rparr> \<in> set (t_datasets (claim_db token ex now d w s))"
    using assms(4,5) by (auto simp: claim_db_def set_update_where image_iff intro!: bexI [of _ d])
  ultimately show ?thesis
    using assms(5) unfolding claim_held_def exists_where_iff
    by (intro conjI bexI [of _ "claim_work_row token ex (w_attempts w + 1) now d w"]
        bexI [of _ "d\<lparr> d_fence := d_fence d + 1, d_updated := now \<rparr>"]) (simp_all add: claim_of_def)
qed

lemma claim_held_cong:
  assumes "claim_held s c"
    and "\<And>v. w_dataset v = c_dataset c \<Longrightarrow> v \<in> set (t_work s') \<longleftrightarrow> v \<in> set (t_work s)"
    and "\<And>d. d_id d = c_dataset c \<Longrightarrow> d \<in> set (t_datasets s') \<longleftrightarrow> d \<in> set (t_datasets s)"
  shows "claim_held s' c"
  using assms unfolding claim_held_def exists_where_iff by blast

definition issued_from :: "(uuid \<Rightarrow> uuid) \<Rightarrow> int \<Rightarrow> db \<Rightarrow> work_row list \<Rightarrow> work_claim \<Rightarrow> bool" where
  "issued_from tok expires s ws c =
     (\<exists>w\<in>set ws. \<exists>d\<in>set (t_datasets s). ready s w \<and> d_id d = w_dataset w \<and> c = claim_of (tok (w_id w)) expires d w)"

definition accounted :: "db \<Rightarrow> work_claim list \<Rightarrow> work_row \<Rightarrow> bool" where
  "accounted s new v =
     ((\<exists>w\<in>set (t_work s). w_state w = RUNNING \<and> w_token w = w_token v \<and> work_identity w = work_identity v) \<or>
      (\<exists>c\<in>set new. w_token v = Some (c_token c) \<and> c_work c = w_id v \<and> c_dataset c = w_dataset v \<and> c_kind c = w_kind v))"

lemma claim_db_accounted:
  assumes "v \<in> set (t_work (claim_db token ex now d w s))" and "w_state v = RUNNING" and "w \<in> set (t_work s)"
    and "constraints_ok s"
  shows "accounted s [claim_of token ex d w] v"
proof -
  from assms(1) obtain x where x: "x \<in> set (t_work s)"
    "v = (if w_id x = w_id w \<and> w_state x \<in> {PENDING, RETRY_WAIT}
          then claim_work_row token ex (w_attempts w + 1) now d x else x)"
    by (auto simp: claim_db_def set_update_where)
  show ?thesis
  proof (cases "w_id x = w_id w \<and> w_state x \<in> {PENDING, RETRY_WAIT}")
    case True
    then have "x = w" using work_row_unique [OF assms(4) x(1) assms(3)] by simp
    with x True show ?thesis by (simp add: accounted_def claim_of_def)
  next
    case False
    with x(2) have "v = x" by (simp only: if_False)
    with x(1) assms(2) show ?thesis unfolding accounted_def by blast
  qed
qed

lemma accounted_trans:
  assumes "accounted s1 new v" and "\<And>x. x \<in> set (t_work s1) \<Longrightarrow> w_state x = RUNNING \<Longrightarrow> accounted s [c] x"
  shows "accounted s (c # new) v"
  using assms(1) unfolding accounted_def [of s1]
proof
  assume "\<exists>w\<in>set (t_work s1). w_state w = RUNNING \<and> w_token w = w_token v \<and> work_identity w = work_identity v"
  then obtain x where x: "x \<in> set (t_work s1)" "w_state x = RUNNING" "w_token x = w_token v"
    "work_identity x = work_identity v" by blast
  from assms(2) [OF x(1,2)] x(3,4) show ?thesis by (auto simp: accounted_def work_identity_iff)
next
  assume "\<exists>c\<in>set new. w_token v = Some (c_token c) \<and> c_work c = w_id v \<and> c_dataset c = w_dataset v \<and> c_kind c = w_kind v"
  then show ?thesis by (auto simp: accounted_def)
qed

lemma issued_from_back:
  assumes "issued_from tok ex (claim_db token ex' now d w s) ws c" and "c_dataset c \<noteq> w_dataset w"
    and "\<forall>v\<in>set ws. w_dataset v = c_dataset c \<longrightarrow> ready s v"
  shows "issued_from tok ex s (w # ws) c"
proof -
  from assms(1) obtain v e where v: "v \<in> set ws" "e \<in> set (t_datasets (claim_db token ex' now d w s))"
    "d_id e = w_dataset v" "c = claim_of (tok (w_id v)) ex e v" by (auto simp: issued_from_def)
  have ds: "c_dataset c = w_dataset v" using v(4) by (simp add: claim_of_def)
  then have "e \<in> set (t_datasets s)"
    using v(2,3) assms(2) claim_db_dataset_other [of e w token ex' now d s] by simp
  with v assms(3) ds show ?thesis unfolding issued_from_def by auto
qed

lemma claim_loop_spec:
  assumes "claim_loop tok lockd n now duration ws cs s = Inr (cs', s')" and "constraints_ok s"
    and "\<forall>w\<in>set ws. w_dataset w \<notin> set (map c_dataset cs) \<longrightarrow> ready s w" and "distinct (map c_dataset cs)"
    and "length cs \<le> n"
  shows "\<exists>new. cs' = cs @ new \<and> distinct (map c_dataset cs') \<and> length cs' \<le> n \<and>
    (\<forall>c\<in>set new. claim_held s' c \<and> issued_from tok (now + duration) s ws c) \<and>
    (\<forall>v\<in>set (t_work s'). w_state v = RUNNING \<longrightarrow> accounted s new v)"
  using assms
proof (induction ws arbitrary: cs s)
  case Nil
  then show ?case by (auto simp: accounted_def)
next
  case (Cons w ws)
  from Cons.prems(1) show ?case
  proof (cases rule: claim_loop_unfold)
    case stop
    with Cons.prems show ?thesis by (intro exI [of _ "[]"]) (auto simp: accounted_def)
  next
    case skip
    from Cons.IH [OF skip(2) Cons.prems(2) _ Cons.prems(4,5)] Cons.prems(3) obtain new where
      "cs' = cs @ new" "distinct (map c_dataset cs')" "length cs' \<le> n"
      "\<forall>c\<in>set new. claim_held s' c \<and> issued_from tok (now + duration) s ws c"
      "\<forall>v\<in>set (t_work s'). w_state v = RUNNING \<longrightarrow> accounted s new v" by auto
    then show ?thesis by (intro exI [of _ new]) (auto simp: issued_from_def)
  next
    case (take d s1 r)
    let ?c = "claim_of (tok (w_id w)) (now + duration) d w"
    have rw: "ready s w" using Cons.prems(3) take(2) by simp
    then have st: "w \<in> set (t_work s)" "w_state w \<in> {PENDING, RETRY_WAIT}" by (simp_all add: ready_def)
    note eff = claim_rest_ready [OF take(6) rw Cons.prems(2,3)]
    have cds: "c_dataset ?c = w_dataset w" by (simp add: claim_of_def)
    have rest: "claim_loop tok lockd n now duration ws (cs @ [?c]) s1 = Inr (cs', s')" using take(7) eff(1) by simp
    have ready1: "\<forall>v\<in>set ws. w_dataset v \<notin> set (map c_dataset (cs @ [?c])) \<longrightarrow> ready s1 v" using eff(1,4) by simp
    have dist: "distinct (map c_dataset (cs @ [?c]))" using Cons.prems(4) take(2) cds by simp
    have len: "length (cs @ [?c]) \<le> n" using take(1) by simp
    from Cons.IH [OF rest eff(3) ready1 dist len] obtain new where new: "cs' = (cs @ [?c]) @ new"
      "distinct (map c_dataset cs')" "length cs' \<le> n"
      "\<forall>c\<in>set new. claim_held s' c \<and> issued_from tok (now + duration) s1 ws c"
      "\<forall>v\<in>set (t_work s'). w_state v = RUNNING \<longrightarrow> accounted s1 new v" by blast
    have held1: "claim_held s1 ?c" unfolding eff(2) by (rule claim_held_db [OF Cons.prems(2) st take(4,5)])
    have "w_dataset w \<in> set (map c_dataset (cs @ [?c]))" using cds by simp
    note frame = claim_loop_frame [OF rest eff(3) ready1 this]
    have held: "claim_held s' ?c" by (rule claim_held_cong [OF held1]) (use frame cds in auto)
    have "issued_from tok (now + duration) s (w # ws) c" if "c \<in> set new" for c
    proof (rule issued_from_back)
      show "issued_from tok (now + duration) (claim_db (tok (w_id w)) (now + duration) now d w s) ws c"
        using new(4) that eff(2) by auto
      have "set (map c_dataset (cs @ [?c])) \<inter> set (map c_dataset new) = {}"
        using new(2) unfolding new(1) map_append distinct_append by blast
      with that have notin: "c_dataset c \<notin> set (map c_dataset (cs @ [?c]))" by (metis disjoint_iff image_eqI list.set_map)
      then show "c_dataset c \<noteq> w_dataset w" using cds by auto
      show "\<forall>v\<in>set ws. w_dataset v = c_dataset c \<longrightarrow> ready s v" using notin Cons.prems(3) by auto
    qed
    moreover have "issued_from tok (now + duration) s (w # ws) ?c"
      unfolding issued_from_def using take(4,5) rw by auto
    moreover have "accounted s (?c # new) v" if "v \<in> set (t_work s')" "w_state v = RUNNING" for v
      by (rule accounted_trans [of s1])
        (use new(5) that claim_db_accounted [OF _ _ st(1) Cons.prems(2)] eff(2) in auto)
    ultimately show ?thesis using new held by (intro exI [of _ "?c # new"]) auto
  qed
qed

lemma claim_due_work_spec:
  assumes "claim_due_work tok lockw lockd limit duration now s = Inr (cs, s')"
  obtains s2 where "cp_steps s s2" "constraints_ok s2" "fences_kept s s2" "distinct (map c_dataset cs)"
    "int (length cs) \<le> limit"
    "\<And>c. c \<in> set cs \<Longrightarrow> claim_held s' c \<and> issued_from tok (now + duration) s2 (claim_candidates now lockw (nat limit) s2) c"
    "\<And>v. v \<in> set (t_work s') \<Longrightarrow> w_state v = RUNNING \<Longrightarrow> accounted s2 cs v"
    "cp_steps s2 s'"
proof -
  from assms obtain s1 s2 where pos: "1 \<le> limit" and s1: "release_expired_leases now s = Inr s1"
    and s2: "sweep_stale_work now s1 = Inr s2"
    and loop: "claim_loop tok lockd (nat limit) now duration (claim_candidates now lockw (nat limit) s2) [] s2 = Inr (cs, s')"
    by (auto simp: claim_due_work_def rbind_Inr_iff ensure_Inr_iff)
  note st = release_expired_refines [OF s1] sweep_stale_refines [OF s2]
  have ok: "constraints_ok s2" by (rule cp_step_constraints [OF st(2)])
  have rd: "\<forall>w\<in>set (claim_candidates now lockw (nat limit) s2). w_dataset w \<notin> set (map c_dataset []) \<longrightarrow> ready s2 w"
    using claim_candidates_ready ok by blast
  have ds: "t_datasets s2 = t_datasets s"
    using s1 s2 by (auto simp: release_expired_leases_def sweep_stale_work_def checked_Inr_iff)
  from claim_loop_spec [OF loop ok rd] obtain new where new: "cs = new" "distinct (map c_dataset cs)" "length cs \<le> nat limit"
    "\<forall>c\<in>set new. claim_held s' c \<and> issued_from tok (now + duration) s2 (claim_candidates now lockw (nat limit) s2) c"
    "\<forall>v\<in>set (t_work s'). w_state v = RUNNING \<longrightarrow> accounted s2 new v" by auto
  show thesis
  proof (rule that [of s2])
    show "cp_steps s s2" using st by (meson converse_rtranclp_into_rtranclp rtranclp.rtrancl_refl)
    show "constraints_ok s2" by (rule ok)
    show "fences_kept s s2" using ds by (rule fences_kept_same)
    show "int (length cs) \<le> limit" using new(3) pos by linarith
    show "cp_steps s2 s'" by (rule claim_loop_refines [OF loop ok rd])
  qed (use new in auto)
qed

end
