(* ===== verification/Json.thy ===== *)
theory Json
  imports Complex_Main Pytext
begin

text \<open>
  The canonical JSON text that \<open>json.dumps(\<dots>, sort_keys=True, separators=(",", ":"),
  ensure_ascii=True)\<close> produces, which the configuration digest of a specification revision is
  computed over. A Python number is an integer, a finite float given by the rational number that its
  shortest decimal text denotes (the two zeros are not distinguished), or one of the non-finite floats;
  the text of a finite float is the parameter \<open>float_repr\<close>. The section on reading shows that the
  text determines the value.
\<close>

section \<open>Values and their text\<close>

datatype py_number = NInt int | NFloat rat | NInf bool | NNan

datatype json =
    JNull
  | JBool bool
  | JNum py_number
  | JStr string
  | JArr "json list"
  | JObj "(string \<times> json) list"

fun json_number :: "(rat \<Rightarrow> string) \<Rightarrow> py_number \<Rightarrow> string" where
  "json_number float_repr (NInt i) = show_int i"
| "json_number float_repr (NFloat x) = float_repr x"
| "json_number float_repr (NInf negative) = (if negative then ''-Infinity'' else ''Infinity'')"
| "json_number float_repr NNan = ''NaN''"

definition json_escape :: "char \<Rightarrow> string" where
  "json_escape c =
     (if c = CHR 0x22 then [CHR 0x5C, CHR 0x22]
      else if c = CHR 0x5C then [CHR 0x5C, CHR 0x5C]
      else if c = CHR 0x0A then [CHR 0x5C, CHR ''n'']
      else if c = CHR 0x0D then [CHR 0x5C, CHR ''r'']
      else if c = CHR 0x09 then [CHR 0x5C, CHR ''t'']
      else if c = CHR 0x0C then [CHR 0x5C, CHR ''f'']
      else if c = CHR 0x08 then [CHR 0x5C, CHR ''b'']
      else if 32 \<le> code c \<and> code c \<le> 126 then [c]
      else CHR 0x5C # CHR ''u'' # hex_pad 4 (code c))"

definition json_string :: "string \<Rightarrow> string" where
  "json_string s = CHR 0x22 # concat (map json_escape s) @ [CHR 0x22]"

fun json_text :: "(rat \<Rightarrow> string) \<Rightarrow> json \<Rightarrow> string" where
  "json_text float_repr JNull = ''null''"
| "json_text float_repr (JBool b) = (if b then ''true'' else ''false'')"
| "json_text float_repr (JNum n) = json_number float_repr n"
| "json_text float_repr (JStr s) = json_string s"
| "json_text float_repr (JArr js) = CHR ''['' # join_with CHR '','' (map (json_text float_repr) js) @ '']''"
| "json_text float_repr (JObj kvs) =
     CHR ''{'' # join_with CHR '','' (map (\<lambda>(k, v). json_string k @ CHR '':'' # json_text float_repr v) kvs) @ ''}''"

fun sort_keys :: "json \<Rightarrow> json" where
  "sort_keys (JArr js) = JArr (map sort_keys js)"
| "sort_keys (JObj kvs) = JObj (sort_key fst (map (\<lambda>(k, v). (k, sort_keys v)) kvs))"
| "sort_keys j = j"

definition json_dumps :: "(rat \<Rightarrow> string) \<Rightarrow> json \<Rightarrow> string" where
  "json_dumps float_repr j = json_text float_repr (sort_keys j)"

text \<open>
  What is documented of \<open>float.__repr__\<close>: distinct floats have distinct texts, and a text consists
  of digits, signs, a point or an exponent mark, at least one of the last two.
\<close>

definition float_text :: "string \<Rightarrow> bool" where
  "float_text s =
     (list_all (\<lambda>c. c \<in> set ''0123456789+-.e'') s \<and> list_ex (\<lambda>c. c \<in> set ''.e'') s)"

definition float_repr_ok :: "(rat \<Rightarrow> string) \<Rightarrow> bool" where
  "float_repr_ok float_repr = (inj float_repr \<and> (\<forall>x. float_text (float_repr x)))"

section \<open>Reading\<close>

subsection \<open>Strings\<close>

lemma hex_pad_inj:
  assumes "hex_pad k m = hex_pad k n" and "m < 16 ^ k" and "n < 16 ^ k" and "0 < k"
  shows "m = n"
proof -
  have "Some (m mod 16 ^ k) = Some (n mod 16 ^ k)"
    unfolding digits_value_hex_pad [OF assms(4), symmetric] assms(1) ..
  with assms(2,3) show ?thesis by simp
qed

lemma hex_pad_code_inj:
  assumes "hex_pad 4 (code c) @ s = hex_pad 4 (code d) @ t"
  shows "c = d \<and> s = t"
proof -
  have eq: "hex_pad 4 (code c) = hex_pad 4 (code d)" "s = t"
    using assms by (simp_all add: append_eq_append_conv del: hex_pad.simps)
  have "code c = code d"
    by (rule hex_pad_inj [OF eq(1)]) (simp_all add: less_trans [OF nat_of_char_less_256])
  with eq(2) show ?thesis by simp
qed

text \<open>An escape is a character other than the backslash, or a backslash, a mark and what the mark asks for.\<close>

lemma json_escape_prefix_free:
  assumes "json_escape c @ s = json_escape d @ t"
  shows "c = d \<and> s = t"
  using assms hex_pad_code_inj [of c s d t] unfolding json_escape_def
  by (auto split: if_splits simp del: hex_pad.simps)

lemma json_escape_hd: "json_escape c \<noteq> [] \<and> hd (json_escape c) \<noteq> CHR 0x22"
  by (simp add: json_escape_def)

lemma json_escape_neq_quote [simp]:
  "json_escape c @ s \<noteq> CHR 0x22 # t" "CHR 0x22 # t \<noteq> json_escape c @ s"
  using json_escape_hd [of c] by (metis hd_append2 list.sel(1))+

lemma json_escapes_prefix_free:
  "concat (map json_escape a) @ CHR 0x22 # s = concat (map json_escape b) @ CHR 0x22 # t \<Longrightarrow> a = b \<and> s = t"
proof (induction a arbitrary: b)
  case Nil
  then show ?case by (cases b) auto
next
  case (Cons c a)
  then show ?case
  proof (cases b)
    case (Cons d b')
    with Cons.prems have "json_escape c @ concat (map json_escape a) @ CHR 0x22 # s =
        json_escape d @ concat (map json_escape b') @ CHR 0x22 # t" by simp
    from json_escape_prefix_free [OF this] Cons.IH [of b'] show ?thesis by (simp add: Cons)
  qed simp
qed

lemma json_string_prefix_free: "json_string a @ s = json_string b @ t \<Longrightarrow> a = b \<and> s = t"
  unfolding json_string_def by (rule json_escapes_prefix_free) simp

subsection \<open>Literals and numbers\<close>

text \<open>
  A literal or a number ends where the text ends or a comma or a closing bracket stands, characters it
  does not contain.
\<close>

definition stop_char :: "char \<Rightarrow> bool" where
  "stop_char c = (c \<in> set '',]}'')"

definition stops :: "string \<Rightarrow> bool" where
  "stops s = (s = [] \<or> stop_char (hd s))"

definition atom_text :: "string \<Rightarrow> bool" where
  "atom_text s = (s \<noteq> [] \<and> list_all (\<lambda>c. \<not> stop_char c) s \<and> hd s \<notin> {CHR 0x22, CHR ''['', CHR ''{''})"

fun is_atom :: "json \<Rightarrow> bool" where
  "is_atom (JStr s) = False"
| "is_atom (JArr js) = False"
| "is_atom (JObj kvs) = False"
| "is_atom j = True"

lemma atom_split:
  assumes "atom_text u" and "atom_text v" and "stops s" and "stops t" and "u @ s = v @ t"
  shows "u = v \<and> s = t"
proof -
  have take: "takeWhile (\<lambda>c. \<not> stop_char c) (w @ r) = w" if "atom_text w" "stops r" for w r
    using that by (cases r) (auto simp: atom_text_def stops_def list_all_iff takeWhile_append2)
  from take [OF assms(1,3)] take [OF assms(2,4)] assms(5) have "u = v" by simp
  with assms(5) show ?thesis by simp
qed

lemma show_int_atom: "atom_text (show_int i)"
proof -
  have ch: "c = CHR ''-'' \<or> 48 \<le> code c \<and> code c \<le> 57" if "c \<in> set (show_int i)" for c
    using set_show_int that by blast
  have "show_int i \<noteq> []" by (simp add: show_int_def)
  with ch [of "hd (show_int i)"] show ?thesis
    unfolding atom_text_def list_all_iff stop_char_def by (auto dest!: ch)
qed

lemma float_char_plain:
  "c \<in> set ''0123456789+-.e'' \<Longrightarrow> \<not> stop_char c \<and> c \<notin> {CHR 0x22, CHR ''['', CHR ''{''}"
  unfolding stop_char_def by auto

lemma float_text_atom:
  assumes "float_text s"
  shows "atom_text s"
proof -
  have mem: "c \<in> set ''0123456789+-.e''" if "c \<in> set s" for c
    using assms that unfolding float_text_def list_all_iff by blast
  have "s \<noteq> []" using assms unfolding float_text_def by (cases s) simp_all
  then show ?thesis
    unfolding atom_text_def list_all_iff using float_char_plain [OF mem] hd_in_set [of s] by blast
qed

lemma float_text_not_int: "float_text s \<Longrightarrow> s \<noteq> show_int i"
  unfolding float_text_def list_ex_iff by (auto dest: set_show_int)

lemma json_number_atom: "float_repr_ok fr \<Longrightarrow> atom_text (json_number fr n)"
  by (cases n) (auto simp: float_repr_ok_def show_int_atom float_text_atom,
      auto simp: atom_text_def stop_char_def)

text \<open>Literals, non-finite words, finite floats and integers are told apart by the characters they contain.\<close>

definition text_class :: "string \<Rightarrow> nat" where
  "text_class s =
     (if list_ex (\<lambda>c. c \<in> set ''ul'') s then 3 else if list_ex (\<lambda>c. c \<in> set ''NI'') s then 2 else if list_ex (\<lambda>c. c \<in> set ''.e'') s then 1 else 0)"

lemma text_class_int: "text_class (show_int i) = 0"
proof -
  have "c \<notin> set ''ul'' \<and> c \<notin> set ''NI'' \<and> c \<notin> set ''.e''" if "c \<in> set (show_int i)" for c
    using set_show_int [OF that] by auto
  then show ?thesis unfolding text_class_def list_ex_iff by metis
qed

lemma text_class_float:
  assumes "float_text s"
  shows "text_class s = 1"
proof -
  have "\<forall>c\<in>set ''0123456789+-.e''. c \<notin> set ''ul'' \<and> c \<notin> set ''NI''" by simp
  with assms show ?thesis unfolding text_class_def float_text_def list_ex_iff list_all_iff by metis
qed

lemma text_class_word: "text_class ''-Infinity'' = 2" "text_class ''Infinity'' = 2" "text_class ''NaN'' = 2"
  "text_class ''null'' = 3" "text_class ''true'' = 3" "text_class ''false'' = 3"
  by (simp_all add: text_class_def)

lemma text_class_of:
  "float_repr_ok fr \<Longrightarrow>
     text_class (json_number fr n) = (case n of NInt i \<Rightarrow> 0 | NFloat x \<Rightarrow> 1 | NInf b \<Rightarrow> 2 | NNan \<Rightarrow> 2)"
  by (cases n) (simp_all add: float_repr_ok_def text_class_int text_class_float text_class_word)

lemma json_number_inj:
  assumes "float_repr_ok fr" and "json_number fr m = json_number fr n"
  shows "m = n"
proof -
  have inj: "inj fr" using assms(1) by (simp add: float_repr_ok_def)
  note cls = arg_cong [OF assms(2), of text_class, unfolded text_class_of [OF assms(1)]]
  from cls assms(2) show ?thesis
    by (cases m; cases n) (simp_all add: inj_eq [OF inj] split: if_splits)
qed

lemma atom_json_text: "float_repr_ok fr \<Longrightarrow> is_atom j \<Longrightarrow> atom_text (json_text fr j)"
  by (cases j) (simp_all add: json_number_atom, auto simp: atom_text_def stop_char_def)

lemma atom_json_text_inj:
  assumes fr: "float_repr_ok fr" and "is_atom j" and "is_atom k" and eq: "json_text fr j = json_text fr k"
  shows "j = k"
proof -
  have cls: "text_class (json_number fr n) \<noteq> 3" for n
    unfolding text_class_of [OF fr] by (cases n) simp_all
  have "json_number fr n \<noteq> w" if "text_class w = 3" for n w using cls [of n] that by metis
  then have num: "json_number fr n \<noteq> ''null''" "json_number fr n \<noteq> ''true''" "json_number fr n \<noteq> ''false''" for n
    by (simp_all add: text_class_word)
  from assms(2-4) json_number_inj [OF fr] show ?thesis
    by (cases j; cases k) (simp_all add: num num [symmetric] split: if_splits)
qed

subsection \<open>Sequences\<close>

lemma join_with_Cons: "join_with d (p # ps) = p @ (case ps of [] \<Rightarrow> [] | _ \<Rightarrow> d # join_with d ps)"
  by (cases ps) simp_all

text \<open>
  A sequence of items between brackets reads back when every item does and no item starts with the
  closing bracket.
\<close>

lemma join_items:
  "join_with CHR '','' (map f (x # xs)) @ e # s =
     f x @ (case xs of [] \<Rightarrow> e # s | _ \<Rightarrow> CHR '','' # join_with CHR '','' (map f xs) @ e # s)"
  by (cases xs) simp_all

lemma stops_rest: "stop_char e \<Longrightarrow> stops (case xs of [] \<Rightarrow> e # s | _ \<Rightarrow> CHR '','' # r)"
  by (cases xs) (simp_all add: stops_def stop_char_def)

lemma items_prefix_free:
  assumes item: "\<And>x y s t. x \<in> set xs \<Longrightarrow> stops s \<Longrightarrow> stops t \<Longrightarrow> f x @ s = f y @ t \<Longrightarrow> x = y \<and> s = t"
    and start: "\<And>x. f x \<noteq> [] \<and> \<not> stop_char (hd (f x))"
    and e: "stop_char e" "e \<noteq> CHR '',''"
    and eq: "join_with CHR '','' (map f xs) @ e # s = join_with CHR '','' (map f ys) @ e # t"
  shows "xs = ys \<and> s = t"
  using item eq
proof (induction xs arbitrary: ys)
  case Nil
  have no: "f y @ r \<noteq> e # s" for y r using start [of y] e(1) by (metis hd_append2 list.sel(1))
  show ?case
  proof (cases ys)
    case (Cons y ys')
    from Nil.prems(2) have "f y @ (case ys' of [] \<Rightarrow> e # t | _ \<Rightarrow> CHR '','' # join_with CHR '','' (map f ys') @ e # t) = e # s"
      unfolding Cons join_items by simp
    with no show ?thesis by blast
  qed (use Nil.prems(2) in simp)
next
  case (Cons x xs)
  note prems = Cons.prems and IH = Cons.IH
  have ne: "f x @ r \<noteq> e # t" for r using start [of x] e(1) by (metis hd_append2 list.sel(1))
  show ?case
  proof (cases ys)
    case Nil
    with prems(2) have "f x @ (case xs of [] \<Rightarrow> e # s | _ \<Rightarrow> CHR '','' # join_with CHR '','' (map f xs) @ e # s) = e # t"
      unfolding join_items by simp
    with ne show ?thesis by blast
  next
    case (Cons y ys')
    from prems(2) have "x = y \<and> (case xs of [] \<Rightarrow> e # s | _ \<Rightarrow> CHR '','' # join_with CHR '','' (map f xs) @ e # s) =
        (case ys' of [] \<Rightarrow> e # t | _ \<Rightarrow> CHR '','' # join_with CHR '','' (map f ys') @ e # t)"
      unfolding Cons join_items by (intro prems(1) stops_rest [OF e(1)]) simp_all
    then have xy: "x = y" and rest: "(case xs of [] \<Rightarrow> e # s | _ \<Rightarrow> CHR '','' # join_with CHR '','' (map f xs) @ e # s) =
        (case ys' of [] \<Rightarrow> e # t | _ \<Rightarrow> CHR '','' # join_with CHR '','' (map f ys') @ e # t)" by blast+
    from rest e(2) consider "xs = []" "ys' = []" "s = t"
      | "join_with CHR '','' (map f xs) @ e # s = join_with CHR '','' (map f ys') @ e # t"
      by (cases xs; cases ys') simp_all
    then show ?thesis
    proof cases
      case 2
      have "xs = ys' \<and> s = t" by (rule IH [OF prems(1) 2]) simp_all
      with xy Cons show ?thesis by simp
    qed (simp add: xy Cons)
  qed
qed

lemma json_text_start: "float_repr_ok fr \<Longrightarrow> json_text fr j \<noteq> [] \<and> \<not> stop_char (hd (json_text fr j))"
proof (cases "is_atom j")
  case True
  assume "float_repr_ok fr"
  from atom_json_text [OF this True] show ?thesis
    unfolding atom_text_def list_all_iff by (metis list.set_sel(1))
next
  case False
  then show ?thesis by (cases j) (simp_all add: json_string_def stop_char_def)
qed

lemma json_text_hd:
  assumes "float_repr_ok fr"
  shows "(hd (json_text fr j) = CHR 0x22) = (\<exists>s. j = JStr s)"
    "(hd (json_text fr j) = CHR ''['') = (\<exists>js. j = JArr js)"
    "(hd (json_text fr j) = CHR ''{'') = (\<exists>kvs. j = JObj kvs)"
  using atom_json_text [OF assms, of j] by (cases j; simp add: atom_text_def json_string_def)+

abbreviation member_text :: "(rat \<Rightarrow> string) \<Rightarrow> string \<times> json \<Rightarrow> string" where
  "member_text fr \<equiv> \<lambda>(k, v). json_string k @ CHR '':'' # json_text fr v"

lemma json_text_same_kind:
  assumes "float_repr_ok fr" and "json_text fr j @ s = json_text fr k @ t"
  shows "hd (json_text fr j) = hd (json_text fr k)"
  using assms json_text_start [OF assms(1), of j] json_text_start [OF assms(1), of k] by (metis hd_append2)

lemma json_text_atoms:
  assumes "float_repr_ok fr" and "is_atom j" and "stops s" and "stops t" and "json_text fr j @ s = json_text fr k @ t"
  shows "j = k \<and> s = t"
proof -
  have at: "atom_text (json_text fr j)" by (rule atom_json_text [OF assms(1,2)])
  then have "is_atom k"
    using json_text_same_kind [OF assms(1,5)] json_text_hd [OF assms(1), of k] by (cases k) (auto simp: atom_text_def)
  with atom_split [OF at atom_json_text [OF assms(1)] assms(3-5)] atom_json_text_inj [OF assms(1,2)] show ?thesis by blast
qed

text \<open>The text of a value determines the value and where it ends.\<close>

lemma json_text_prefix_free:
  assumes "float_repr_ok fr" and "stops s" and "stops t" and "json_text fr j @ s = json_text fr k @ t"
  shows "j = k \<and> s = t"
  using assms(2-4)
proof (induction j arbitrary: k s t)
  case (JArr js)
  note hd = json_text_same_kind [OF assms(1) JArr.prems(3)]
  from hd json_text_hd(2) [OF assms(1), of k] obtain ks where k: "k = JArr ks" by auto
  have "join_with CHR '','' (map (json_text fr) js) @ CHR '']'' # s = join_with CHR '','' (map (json_text fr) ks) @ CHR '']'' # t"
    using JArr.prems(3) unfolding k by simp
  from items_prefix_free [OF _ _ _ _ this] JArr.IH json_text_start [OF assms(1)] show ?case
    unfolding k by (simp add: stop_char_def)
next
  case (JObj kvs)
  note hd = json_text_same_kind [OF assms(1) JObj.prems(3)]
  from hd json_text_hd(3) [OF assms(1), of k] obtain ks where k: "k = JObj ks" by auto
  have eq: "join_with CHR '','' (map (member_text fr) kvs) @ CHR ''}'' # s = join_with CHR '','' (map (member_text fr) ks) @ CHR ''}'' # t"
    using JObj.prems(3) unfolding k by simp
  have item: "x = y \<and> u = w" if x: "x \<in> set kvs" "stops u" "stops w" "member_text fr x @ u = member_text fr y @ w" for x y u w
  proof -
    obtain a v where xx: "x = (a, v)" by (rule prod.exhaust)
    obtain b z where yy: "y = (b, z)" by (rule prod.exhaust)
    have "json_string a @ CHR '':'' # json_text fr v @ u = json_string b @ CHR '':'' # json_text fr z @ w"
      using x(4) unfolding xx yy by simp
    from json_string_prefix_free [OF this] have "a = b" and v: "json_text fr v @ u = json_text fr z @ w" by auto
    moreover have "v = z \<and> u = w"
      by (rule JObj.IH [OF x(1) _ x(2,3) v]) (simp add: xx)
    ultimately show ?thesis by (simp add: xx yy)
  qed
  have "kvs = ks \<and> s = t"
    by (rule items_prefix_free [OF item _ _ _ eq]) (auto simp: stop_char_def json_string_def)
  then show ?case by (simp add: k)
next
  case (JStr a)
  note hd = json_text_same_kind [OF assms(1) JStr.prems(3)]
  from hd json_text_hd(1) [OF assms(1), of k] obtain b where k: "k = JStr b" by (auto simp: json_string_def)
  have "json_string a @ s = json_string b @ t" using JStr.prems(3) unfolding k by simp
  from json_string_prefix_free [OF this] show ?case by (simp add: k)
qed (rule json_text_atoms [OF assms(1)], simp, assumption+)+

lemma json_text_inj: "float_repr_ok fr \<Longrightarrow> json_text fr j = json_text fr k \<Longrightarrow> j = k"
  using json_text_prefix_free [of fr "[]" "[]" j k] by (simp add: stops_def)

end
