(* ===== verification/Spec_Model.thy ===== *)
theory Spec_Model
  imports Specs Json
begin

text \<open>
  Specification revisions (\<open>state/specs.py\<close>): vector and full-text options, fields, indexes and
  revisions with their validation, the accessors the workers use, the canonical configuration document
  with its digest, and the bundled default revision. The type checks of the code (\<open>isinstance\<close>,
  \<open>type(x) is int\<close>) are the types of the records; a setting that may be an \<open>int\<close> or a
  \<open>float\<close> is a \<open>py_number\<close>. SHA-256 is the parameter \<open>sha256\<close>. Every rejection is a
  \<open>ValueError\<close>, a missing key a \<open>KeyError\<close>.
\<close>

section \<open>Shared validations\<close>

definition EMPTY_UUID :: uuid where
  "EMPTY_UUID = 0"

definition validate_uuid :: "uuid \<Rightarrow> unit result" where
  "validate_uuid u = ensure (u \<noteq> EMPTY_UUID) ValueError"

definition validate_identifier :: "string \<Rightarrow> unit result" where
  "validate_identifier s = ensure (IDENTIFIER_PATTERN s) ValueError"

definition validate_optional_text :: "string option \<Rightarrow> nat \<Rightarrow> unit result" where
  "validate_optional_text v maximum_length =
     (case v of None \<Rightarrow> Inr ()
      | Some s \<Rightarrow> ensure (\<not> is_blank s \<and> length s \<le> maximum_length) ValueError)"

definition validate_positive_integers :: "int list \<Rightarrow> unit result" where
  "validate_positive_integers vs = ensure (list_all (\<lambda>v. 1 \<le> v) vs) ValueError"

definition validate_optional_positive :: "int option \<Rightarrow> unit result" where
  "validate_optional_positive v = (case v of None \<Rightarrow> Inr () | Some n \<Rightarrow> ensure (1 \<le> n) ValueError)"

definition validate_unique :: "'a list \<Rightarrow> unit result" where
  "validate_unique vs = ensure (distinct vs) ValueError"

text \<open>\<open>math.isfinite(x)\<close> and the comparison of a number with a bound.\<close>

definition is_finite :: "py_number \<Rightarrow> bool" where
  "is_finite n = (case n of NInt i \<Rightarrow> True | NFloat x \<Rightarrow> True | NInf b \<Rightarrow> False | NNan \<Rightarrow> False)"

definition number_value :: "py_number \<Rightarrow> rat" where
  "number_value n = (case n of NInt i \<Rightarrow> of_int i | NFloat x \<Rightarrow> x | NInf b \<Rightarrow> 0 | NNan \<Rightarrow> 0)"

section \<open>Index options\<close>

record vector_index_options =
  vo_metric :: vector_metric
  vo_num_partitions :: "int option"
  vo_minimum_partitions :: int
  vo_maximum_partitions :: int
  vo_target_rows_per_partition :: int
  vo_minimum_rows :: int
  vo_num_bits :: int
  vo_streaming_sample_rate :: int
  vo_streaming_refine_passes :: int
  vo_retrain_growth_factor :: py_number

definition validate_vector_options :: "vector_index_options \<Rightarrow> unit result" where
  "validate_vector_options o' =
     rbind (validate_positive_integers [vo_minimum_partitions o', vo_maximum_partitions o',
        vo_target_rows_per_partition o', vo_num_bits o', vo_streaming_sample_rate o']) (\<lambda>_.
     rbind (validate_optional_positive (vo_num_partitions o')) (\<lambda>_.
     rbind (ensure (vo_minimum_partitions o' \<le> vo_maximum_partitions o') ValueError) (\<lambda>_.
     rbind (ensure (case vo_num_partitions o' of None \<Rightarrow> True
        | Some n \<Rightarrow> vo_minimum_partitions o' \<le> n \<and> n \<le> vo_maximum_partitions o') ValueError) (\<lambda>_.
     rbind (ensure (0 \<le> vo_minimum_rows o') ValueError) (\<lambda>_.
     rbind (ensure (1 \<le> vo_num_bits o' \<and> vo_num_bits o' \<le> 8) ValueError) (\<lambda>_.
     rbind (ensure (0 \<le> vo_streaming_refine_passes o') ValueError) (\<lambda>_.
     ensure (is_finite (vo_retrain_growth_factor o') \<and> 1 < number_value (vo_retrain_growth_factor o'))
       ValueError)))))))"

text \<open>Values of a document: an optional integer and an optional text.\<close>

definition json_int :: "int \<Rightarrow> json" where
  "json_int i = JNum (NInt i)"

definition json_opt :: "('a \<Rightarrow> json) \<Rightarrow> 'a option \<Rightarrow> json" where
  "json_opt f v = (case v of None \<Rightarrow> JNull | Some x \<Rightarrow> f x)"

definition vector_options_document :: "vector_index_options \<Rightarrow> json" where
  "vector_options_document o' = JObj
     [(''metric'', JStr (enum_text vector_metrics (vo_metric o'))),
      (''num_partitions'', json_opt json_int (vo_num_partitions o')),
      (''minimum_partitions'', json_int (vo_minimum_partitions o')),
      (''maximum_partitions'', json_int (vo_maximum_partitions o')),
      (''target_rows_per_partition'', json_int (vo_target_rows_per_partition o')),
      (''minimum_rows'', json_int (vo_minimum_rows o')),
      (''num_bits'', json_int (vo_num_bits o')),
      (''streaming_sample_rate'', json_int (vo_streaming_sample_rate o')),
      (''streaming_refine_passes'', json_int (vo_streaming_refine_passes o')),
      (''retrain_growth_factor'', JNum (vo_retrain_growth_factor o'))]"

record fts_index_options =
  fo_with_position :: bool
  fo_base_tokenizer :: "string option"
  fo_language :: "string option"
  fo_max_unindexed_fragments :: int

definition validate_fts_options :: "fts_index_options \<Rightarrow> unit result" where
  "validate_fts_options o' =
     rbind (validate_optional_text (fo_base_tokenizer o') 64) (\<lambda>_.
     rbind (validate_optional_text (fo_language o') 32) (\<lambda>_.
     ensure (0 \<le> fo_max_unindexed_fragments o') ValueError))"

definition fts_options_document :: "fts_index_options \<Rightarrow> json" where
  "fts_options_document o' = JObj
     [(''with_position'', JBool (fo_with_position o')),
      (''base_tokenizer'', json_opt JStr (fo_base_tokenizer o')),
      (''language'', json_opt JStr (fo_language o')),
      (''max_unindexed_fragments'', json_int (fo_max_unindexed_fragments o'))]"

section \<open>Fields\<close>

record dataset_field =
  df_field_id :: uuid
  df_spec_revision_id :: uuid
  df_ordinal :: int
  df_target_name :: string
  df_role :: field_role
  df_source_kind :: source_kind
  df_source_column :: string
  df_source_key :: "string option"
  df_data_type :: string
  df_nullable :: bool
  df_required_on_upsert :: bool
  df_vector_dimension :: "int option"

text \<open>\<open>VECTOR_TYPE_PATTERN.fullmatch(data_type)\<close> and its group.\<close>

definition vector_type_group :: "string \<Rightarrow> string option" where
  "vector_type_group s =
     (let prefix = ''fixed_size_list<float32,''; digits = butlast (drop (length prefix) s)
      in if has_prefix prefix s \<and> has_suffix ''>'' s \<and> digits \<noteq> [] \<and> hd digits \<in> set ''123456789'' \<and>
            list_all (\<lambda>c. c \<in> set ''0123456789'') digits
         then Some digits else None)"

definition SCALAR_DATA_TYPES :: "string list" where
  "SCALAR_DATA_TYPES =
     [''string'', ''bool'', ''int32'', ''int64'', ''float32'', ''float64'', ''date32'', ''timestamp[us,UTC]'',
      ''duration[s]'', ''binary[32]'']"

fun map_column :: "field_role \<Rightarrow> string option" where
  "map_column VECTOR = Some ''vectors''"
| "map_column TEXT = Some ''texts''"
| "map_column METADATA = Some ''metadata''"
| "map_column role = None"

fun canonical_direct_column :: "field_role \<Rightarrow> string option" where
  "canonical_direct_column KEY = Some ''record_id''"
| "canonical_direct_column EVENT_TIME = Some ''ts''"
| "canonical_direct_column role = None"

definition validate_source_mapping :: "dataset_field \<Rightarrow> unit result" where
  "validate_source_mapping f =
     rbind (if df_source_kind f = MAP_KEY
            then (case df_source_key f of None \<Rightarrow> Inl ValueError | Some k \<Rightarrow> validate_identifier k)
            else ensure (df_source_key f = None) ValueError) (\<lambda>_.
     rbind (ensure (case map_column (df_role f) of None \<Rightarrow> True
        | Some m \<Rightarrow> df_source_kind f = MAP_KEY \<and> df_source_column f = m) ValueError) (\<lambda>_.
     rbind (ensure (\<not> (df_source_kind f = MAP_KEY \<and> map_column (df_role f) = None)) ValueError) (\<lambda>_.
     rbind (ensure (\<not> (df_source_kind f = MAP_KEY \<and> df_source_key f \<noteq> Some (df_target_name f))) ValueError) (\<lambda>_.
     rbind (ensure (\<not> (df_role f \<in> {TOMBSTONE, LINEAGE} \<and> df_source_kind f \<noteq> DERIVED)) ValueError) (\<lambda>_.
     rbind (ensure (\<not> (df_role f \<in> {KEY, EVENT_TIME} \<and> df_source_kind f \<noteq> DIRECT)) ValueError) (\<lambda>_.
     rbind (ensure (case canonical_direct_column (df_role f) of None \<Rightarrow> True
        | Some m \<Rightarrow> df_target_name f = m \<and> df_source_column f = m) ValueError) (\<lambda>_.
     ensure (\<not> (df_source_kind f = DERIVED \<and> df_source_column f \<noteq> df_target_name f)) ValueError)))))))"

fun required_type :: "field_role \<Rightarrow> string option" where
  "required_type KEY = Some ''string''"
| "required_type EVENT_TIME = Some ''timestamp[us,UTC]''"
| "required_type TEXT = Some ''string''"
| "required_type METADATA = Some ''string''"
| "required_type TOMBSTONE = Some ''bool''"
| "required_type role = None"

fun expected_flags :: "field_role \<Rightarrow> bool \<times> bool" where
  "expected_flags KEY = (False, True)"
| "expected_flags EVENT_TIME = (True, True)"
| "expected_flags VECTOR = (True, True)"
| "expected_flags TEXT = (True, False)"
| "expected_flags METADATA = (True, False)"
| "expected_flags TOMBSTONE = (False, False)"
| "expected_flags LINEAGE = (False, False)"

definition validate_role_type :: "dataset_field \<Rightarrow> unit result" where
  "validate_role_type f =
     rbind (ensure (case required_type (df_role f) of None \<Rightarrow> True | Some t \<Rightarrow> df_data_type f = t) ValueError) (\<lambda>_.
     rbind (if df_role f = VECTOR
            then (case df_vector_dimension f of
                    None \<Rightarrow> Inl ValueError
                  | Some n \<Rightarrow>
                      rbind (ensure (8 \<le> n \<and> n mod 8 = 0) ValueError) (\<lambda>_.
                      rbind (ensure (case vector_type_group (df_data_type f) of None \<Rightarrow> False
                         | Some g \<Rightarrow> py_int 10 g = Some n) ValueError) (\<lambda>_.
                      ensure (df_required_on_upsert f) ValueError)))
            else ensure (df_vector_dimension f = None \<and> vector_type_group (df_data_type f) = None) ValueError) (\<lambda>_.
     rbind (ensure (df_role f = VECTOR \<or> df_data_type f \<in> set SCALAR_DATA_TYPES) ValueError) (\<lambda>_.
     rbind (ensure (\<not> (df_role f \<in> {KEY, EVENT_TIME} \<and> \<not> df_required_on_upsert f)) ValueError) (\<lambda>_.
     rbind (ensure (\<not> (df_role f = KEY \<and> df_nullable f)) ValueError) (\<lambda>_.
     rbind (ensure (\<not> (df_role f \<in> {TOMBSTONE, LINEAGE} \<and> df_nullable f)) ValueError) (\<lambda>_.
     ensure ((df_nullable f, df_required_on_upsert f) = expected_flags (df_role f)) ValueError))))))"

definition validate_field :: "dataset_field \<Rightarrow> unit result" where
  "validate_field f =
     rbind (validate_uuid (df_field_id f)) (\<lambda>_.
     rbind (validate_uuid (df_spec_revision_id f)) (\<lambda>_.
     rbind (ensure (0 \<le> df_ordinal f) ValueError) (\<lambda>_.
     rbind (validate_identifier (df_target_name f)) (\<lambda>_.
     rbind (validate_identifier (df_source_column f)) (\<lambda>_.
     rbind (validate_source_mapping f) (\<lambda>_.
     validate_role_type f))))))"

definition field_document :: "dataset_field \<Rightarrow> json" where
  "field_document f = JObj
     [(''ordinal'', json_int (df_ordinal f)),
      (''target_name'', JStr (df_target_name f)),
      (''role'', JStr (enum_text field_roles (df_role f))),
      (''source_kind'', JStr (enum_text source_kinds (df_source_kind f))),
      (''source_column'', JStr (df_source_column f)),
      (''source_key'', json_opt JStr (df_source_key f)),
      (''data_type'', JStr (df_data_type f)),
      (''nullable'', JBool (df_nullable f)),
      (''required_on_upsert'', JBool (df_required_on_upsert f)),
      (''vector_dimension'', json_opt json_int (df_vector_dimension f))]"

section \<open>Indexes\<close>

record index_definition =
  ix_definition_id :: uuid
  ix_spec_revision_id :: uuid
  ix_field_id :: uuid
  ix_ordinal :: int
  ix_name :: string
  ix_type :: index_type
  ix_vector_options :: "vector_index_options option"
  ix_fts_options :: "fts_index_options option"

definition validate_index :: "index_definition \<Rightarrow> unit result" where
  "validate_index x =
     rbind (validate_uuid (ix_definition_id x)) (\<lambda>_.
     rbind (validate_uuid (ix_spec_revision_id x)) (\<lambda>_.
     rbind (validate_uuid (ix_field_id x)) (\<lambda>_.
     rbind (ensure (0 \<le> ix_ordinal x) ValueError) (\<lambda>_.
     rbind (validate_identifier (ix_name x)) (\<lambda>_.
     rbind (if ix_type x = IVF_RQ
            then (case ix_vector_options x of None \<Rightarrow> Inl ValueError | Some o' \<Rightarrow> validate_vector_options o')
            else ensure (ix_vector_options x = None) ValueError) (\<lambda>_.
     if ix_type x = INVERTED
     then (case ix_fts_options x of None \<Rightarrow> Inl ValueError | Some o' \<Rightarrow> validate_fts_options o')
     else ensure (ix_fts_options x = None) ValueError))))))"

definition index_document :: "string \<Rightarrow> index_definition \<Rightarrow> json" where
  "index_document field_name x = JObj
     [(''field_name'', JStr field_name),
      (''ordinal'', json_int (ix_ordinal x)),
      (''index_name'', JStr (ix_name x)),
      (''index_type'', JStr (enum_text index_types (ix_type x))),
      (''vector_options'', json_opt vector_options_document (ix_vector_options x)),
      (''fts_options'', json_opt fts_options_document (ix_fts_options x))]"

fun allowed_roles :: "index_type \<Rightarrow> field_role set" where
  "allowed_roles IVF_RQ = {VECTOR}"
| "allowed_roles INVERTED = {TEXT}"
| "allowed_roles BTREE = {KEY, EVENT_TIME, METADATA, LINEAGE}"
| "allowed_roles BITMAP = {KEY, METADATA, TOMBSTONE}"
| "allowed_roles ZONEMAP = {EVENT_TIME, LINEAGE}"

definition validate_index_field_compatibility :: "index_definition \<Rightarrow> dataset_field \<Rightarrow> unit result" where
  "validate_index_field_compatibility x f = ensure (df_role f \<in> allowed_roles (ix_type x)) ValueError"

section \<open>Revisions\<close>

record dataset_spec_revision =
  sr_spec_id :: uuid
  sr_spec_revision_id :: uuid
  sr_revision_number :: int
  sr_state :: spec_revision_state
  sr_supersedes_revision_id :: "uuid option"
  sr_configuration_digest :: bytes
  sr_fields :: "dataset_field list"
  sr_indexes :: "index_definition list"
  sr_ingest_shuffle_partitions :: int
  sr_merge_rows_per_chunk :: int
  sr_merge_batch_bytes :: int
  sr_write_rows_per_fragment :: int
  sr_compaction_enabled :: bool
  sr_compaction_mode :: compaction_mode
  sr_target_rows_per_fragment :: int
  sr_max_source_fragments :: "int option"
  sr_compaction_threads :: "int option"
  sr_defer_index_remap :: bool
  sr_materialize_deletions :: bool
  sr_materialize_deletions_threshold :: py_number
  sr_cleanup_older_than_seconds :: "int option"
  sr_retain_versions :: "int option"
  sr_fragments_per_index_task :: int
  sr_max_index_deltas :: int
  sr_max_stale_replans :: int
  sr_prewarm_required :: bool
  sr_retained_publications :: int
  sr_artifact_retention_seconds :: int
  sr_record_retention_seconds :: "int option"

subsection \<open>Accessors\<close>

definition fields_for_role :: "dataset_spec_revision \<Rightarrow> field_role \<Rightarrow> dataset_field list" where
  "fields_for_role r role = sort_key df_ordinal (filter (\<lambda>f. df_role f = role) (sr_fields r))"

definition vector_fields :: "dataset_spec_revision \<Rightarrow> (string \<times> int) list" where
  "vector_fields r = map (\<lambda>f. (df_target_name f, case df_vector_dimension f of None \<Rightarrow> 0 | Some n \<Rightarrow> n))
     (fields_for_role r VECTOR)"

definition text_fields :: "dataset_spec_revision \<Rightarrow> string list" where
  "text_fields r = map df_target_name (fields_for_role r TEXT)"

definition metadata_fields :: "dataset_spec_revision \<Rightarrow> string list" where
  "metadata_fields r = map df_target_name (fields_for_role r METADATA)"

definition index_definitions :: "dataset_spec_revision \<Rightarrow> index_definition list" where
  "index_definitions r = sort_key (\<lambda>x. (ix_ordinal x, ix_name x)) (sr_indexes r)"

definition field_by_name :: "dataset_spec_revision \<Rightarrow> string \<Rightarrow> dataset_field result" where
  "field_by_name r name =
     (case find (\<lambda>f. df_target_name f = name) (sr_fields r) of None \<Rightarrow> Inl KeyError | Some f \<Rightarrow> Inr f)"

definition index_by_name :: "dataset_spec_revision \<Rightarrow> string \<Rightarrow> index_definition result" where
  "index_by_name r name =
     (case find (\<lambda>x. ix_name x = name) (sr_indexes r) of None \<Rightarrow> Inl KeyError | Some x \<Rightarrow> Inr x)"

definition indexes_for_field :: "dataset_spec_revision \<Rightarrow> string \<Rightarrow> index_definition list result" where
  "indexes_for_field r name = rbind (field_by_name r name)
     (\<lambda>f. Inr (filter (\<lambda>x. ix_field_id x = df_field_id f) (index_definitions r)))"

definition field_names_by_id :: "dataset_spec_revision \<Rightarrow> (uuid \<times> string) list" where
  "field_names_by_id r = map (\<lambda>f. (df_field_id f, df_target_name f)) (sr_fields r)"

definition field_name_of :: "dataset_spec_revision \<Rightarrow> uuid \<Rightarrow> string result" where
  "field_name_of r fid =
     (case dict_get (field_names_by_id r) fid of None \<Rightarrow> Inl KeyError | Some n \<Rightarrow> Inr n)"

definition field_names_for_index_type :: "dataset_spec_revision \<Rightarrow> index_type \<Rightarrow> string list result" where
  "field_names_for_index_type r t =
     rmap (\<lambda>x. field_name_of r (ix_field_id x)) (filter (\<lambda>x. ix_type x = t) (index_definitions r))"

definition vector_options_for_field :: "dataset_spec_revision \<Rightarrow> string \<Rightarrow> vector_index_options result" where
  "vector_options_for_field r name = rbind (indexes_for_field r name) (\<lambda>xs.
     case find (\<lambda>x. ix_type x = IVF_RQ \<and> ix_vector_options x \<noteq> None) xs of
       None \<Rightarrow> Inl KeyError
     | Some x \<Rightarrow> (case ix_vector_options x of None \<Rightarrow> Inl KeyError | Some o' \<Rightarrow> Inr o'))"

definition fts_options_for_field :: "dataset_spec_revision \<Rightarrow> string \<Rightarrow> fts_index_options result" where
  "fts_options_for_field r name = rbind (indexes_for_field r name) (\<lambda>xs.
     case find (\<lambda>x. ix_type x = INVERTED \<and> ix_fts_options x \<noteq> None) xs of
       None \<Rightarrow> Inl KeyError
     | Some x \<Rightarrow> (case ix_fts_options x of None \<Rightarrow> Inl KeyError | Some o' \<Rightarrow> Inr o'))"

subsection \<open>Configuration document and digest\<close>

definition ingestion_document :: "dataset_spec_revision \<Rightarrow> json" where
  "ingestion_document r = JObj
     [(''ingest_shuffle_partitions'', json_int (sr_ingest_shuffle_partitions r)),
      (''merge_rows_per_chunk'', json_int (sr_merge_rows_per_chunk r)),
      (''merge_batch_bytes'', json_int (sr_merge_batch_bytes r)),
      (''write_rows_per_fragment'', json_int (sr_write_rows_per_fragment r))]"

definition compaction_document :: "dataset_spec_revision \<Rightarrow> json" where
  "compaction_document r = JObj
     [(''compaction_enabled'', JBool (sr_compaction_enabled r)),
      (''compaction_mode'', JStr (enum_text compaction_modes (sr_compaction_mode r))),
      (''target_rows_per_fragment'', json_int (sr_target_rows_per_fragment r)),
      (''max_source_fragments'', json_opt json_int (sr_max_source_fragments r)),
      (''compaction_threads'', json_opt json_int (sr_compaction_threads r)),
      (''defer_index_remap'', JBool (sr_defer_index_remap r)),
      (''materialize_deletions'', JBool (sr_materialize_deletions r)),
      (''materialize_deletions_threshold'', JNum (sr_materialize_deletions_threshold r)),
      (''cleanup_older_than_seconds'', json_opt json_int (sr_cleanup_older_than_seconds r)),
      (''retain_versions'', json_opt json_int (sr_retain_versions r)),
      (''record_retention_seconds'', json_opt json_int (sr_record_retention_seconds r))]"

definition indexing_document :: "dataset_spec_revision \<Rightarrow> json" where
  "indexing_document r = JObj
     [(''fragments_per_index_task'', json_int (sr_fragments_per_index_task r)),
      (''max_index_deltas'', json_int (sr_max_index_deltas r)),
      (''max_stale_replans'', json_int (sr_max_stale_replans r))]"

definition publication_document :: "dataset_spec_revision \<Rightarrow> json" where
  "publication_document r = JObj
     [(''prewarm_required'', JBool (sr_prewarm_required r)),
      (''retained_publications'', json_int (sr_retained_publications r)),
      (''artifact_retention_seconds'', json_int (sr_artifact_retention_seconds r))]"

definition configuration_document :: "dataset_spec_revision \<Rightarrow> json result" where
  "configuration_document r =
     rbind (rmap (\<lambda>x. rbind (field_name_of r (ix_field_id x)) (\<lambda>n. Inr (index_document n x)))
              (index_definitions r)) (\<lambda>indexes.
     Inr (JObj
       [(''fields'', JArr (map field_document (sort_key (\<lambda>f. (df_ordinal f, df_target_name f)) (sr_fields r)))),
        (''indexes'', JArr indexes),
        (''ingestion'', ingestion_document r),
        (''compaction'', compaction_document r),
        (''indexing'', indexing_document r),
        (''publication'', publication_document r)]))"

definition expected_configuration_digest ::
  "(bytes \<Rightarrow> bytes) \<Rightarrow> (rat \<Rightarrow> string) \<Rightarrow> dataset_spec_revision \<Rightarrow> bytes result" where
  "expected_configuration_digest sha256 float_repr r = rbind (configuration_document r)
     (\<lambda>d. Inr (sha256 (utf8 (json_dumps float_repr d))))"

subsection \<open>Validation\<close>

definition validate_operational_settings :: "dataset_spec_revision \<Rightarrow> unit result" where
  "validate_operational_settings r =
     rbind (validate_positive_integers [sr_ingest_shuffle_partitions r, sr_merge_rows_per_chunk r,
        sr_merge_batch_bytes r, sr_write_rows_per_fragment r, sr_target_rows_per_fragment r,
        sr_fragments_per_index_task r, sr_max_index_deltas r, sr_retained_publications r,
        sr_artifact_retention_seconds r]) (\<lambda>_.
     rbind (validate_optional_positive (sr_max_source_fragments r)) (\<lambda>_.
     rbind (validate_optional_positive (sr_compaction_threads r)) (\<lambda>_.
     rbind (validate_optional_positive (sr_retain_versions r)) (\<lambda>_.
     rbind (validate_optional_positive (sr_record_retention_seconds r)) (\<lambda>_.
     rbind (ensure (case sr_cleanup_older_than_seconds r of None \<Rightarrow> True | Some n \<Rightarrow> 21600 \<le> n) ValueError) (\<lambda>_.
     rbind (ensure (0 \<le> sr_max_stale_replans r) ValueError) (\<lambda>_.
     ensure (is_finite (sr_materialize_deletions_threshold r) \<and>
        0 \<le> number_value (sr_materialize_deletions_threshold r) \<and>
        number_value (sr_materialize_deletions_threshold r) \<le> 1) ValueError)))))))"

definition role_count :: "dataset_spec_revision \<Rightarrow> field_role \<Rightarrow> nat" where
  "role_count r role = length (filter (\<lambda>f. df_role f = role) (sr_fields r))"

definition expected_lineage :: "(string \<times> string) list" where
  "expected_lineage =
     [(''lance_etl_window_seq'', ''int64''), (''lance_etl_source_sequence'', ''int64''),
      (''lance_etl_event_digest'', ''binary[32]'')]"

definition expected_order :: "dataset_spec_revision \<Rightarrow> string list" where
  "expected_order r =
     [''record_id'', ''ts''] @ map df_target_name (fields_for_role r VECTOR) @
     map df_target_name (fields_for_role r TEXT) @ map df_target_name (fields_for_role r METADATA) @
     [''lance_etl_window_seq'', ''lance_etl_source_sequence'', ''lance_etl_event_digest'', ''is_deleted'']"

definition validate_fields :: "dataset_spec_revision \<Rightarrow> unit result" where
  "validate_fields r =
     rbind (ensure (sr_fields r \<noteq> []) ValueError) (\<lambda>_.
     rbind (validate_unique (map df_field_id (sr_fields r))) (\<lambda>_.
     rbind (validate_unique (map df_target_name (sr_fields r))) (\<lambda>_.
     rbind (validate_unique (map df_ordinal (sr_fields r))) (\<lambda>_.
     rbind (rmap (\<lambda>f. rbind (validate_field f)
        (\<lambda>_. ensure (df_spec_revision_id f = sr_spec_revision_id r) ValueError)) (sr_fields r)) (\<lambda>_.
     rbind (validate_unique (map (\<lambda>f. (df_source_kind f, df_source_column f, df_source_key f)) (sr_fields r))) (\<lambda>_.
     rbind (ensure (role_count r KEY = 1) ValueError) (\<lambda>_.
     rbind (ensure (role_count r EVENT_TIME = 1) ValueError) (\<lambda>_.
     rbind (ensure (role_count r TOMBSTONE = 1) ValueError) (\<lambda>_.
     rbind (ensure (dict_eq (map (\<lambda>f. (df_target_name f, df_data_type f)) (fields_for_role r LINEAGE))
        expected_lineage) ValueError) (\<lambda>_.
     rbind (ensure (df_target_name (hd (fields_for_role r TOMBSTONE)) = ''is_deleted'') ValueError) (\<lambda>_.
     ensure (map df_target_name (sort_key df_ordinal (sr_fields r)) = expected_order r \<and>
        sort (map df_ordinal (sr_fields r)) = map int [0..<length (sr_fields r)]) ValueError)))))))))))"

definition validate_indexes :: "dataset_spec_revision \<Rightarrow> unit result" where
  "validate_indexes r =
     rbind (rmap (\<lambda>x.
        rbind (validate_index x) (\<lambda>_.
        rbind (ensure (ix_spec_revision_id x = sr_spec_revision_id r) ValueError) (\<lambda>_.
        case dict_get (map (\<lambda>f. (df_field_id f, f)) (sr_fields r)) (ix_field_id x) of
          None \<Rightarrow> Inl ValueError
        | Some f \<Rightarrow> validate_index_field_compatibility x f))) (sr_indexes r)) (\<lambda>_.
     rbind (validate_unique (map ix_definition_id (sr_indexes r))) (\<lambda>_.
     rbind (validate_unique (map ix_name (sr_indexes r))) (\<lambda>_.
     rbind (validate_unique (map ix_ordinal (sr_indexes r))) (\<lambda>_.
     validate_unique (map (\<lambda>x. (ix_field_id x, ix_type x)) (sr_indexes r))))))"

definition validate_revision ::
  "(bytes \<Rightarrow> bytes) \<Rightarrow> (rat \<Rightarrow> string) \<Rightarrow> dataset_spec_revision \<Rightarrow> dataset_spec_revision result" where
  "validate_revision sha256 float_repr r =
     rbind (validate_uuid (sr_spec_id r)) (\<lambda>_.
     rbind (validate_uuid (sr_spec_revision_id r)) (\<lambda>_.
     rbind (case sr_supersedes_revision_id r of
              None \<Rightarrow> Inr ()
            | Some u \<Rightarrow> rbind (validate_uuid u) (\<lambda>_. ensure (u \<noteq> sr_spec_revision_id r) ValueError)) (\<lambda>_.
     rbind (ensure (1 \<le> sr_revision_number r) ValueError) (\<lambda>_.
     rbind (validate_operational_settings r) (\<lambda>_.
     rbind (validate_fields r) (\<lambda>_.
     rbind (validate_indexes r) (\<lambda>_.
     rbind (ensure (length (sr_configuration_digest r) = 32) ValueError) (\<lambda>_.
     rbind (expected_configuration_digest sha256 float_repr r) (\<lambda>d.
     rbind (ensure (sr_configuration_digest r = d) ValueError) (\<lambda>_. Inr r))))))))))"

section \<open>The default revision\<close>

definition DEFAULT_SPEC_REVISION_ID :: uuid where
  "DEFAULT_SPEC_REVISION_ID = 0x101"

definition DEFAULT_FIELD_IDS :: "(string \<times> uuid) list" where
  "DEFAULT_FIELD_IDS =
     [(''record_id'', 0x1001), (''ts'', 0x1002), (''vector'', 0x1003), (''text'', 0x1004), (''cluster'', 0x1005),
      (''lance_etl_window_seq'', 0x1007), (''lance_etl_source_sequence'', 0x1008),
      (''lance_etl_event_digest'', 0x1009), (''is_deleted'', 0x1010)]"

definition DEFAULT_INDEX_IDS :: "(string \<times> uuid) list" where
  "DEFAULT_INDEX_IDS =
     [(''vector_idx'', 0x2001), (''text_fts_idx'', 0x2002), (''cluster_idx'', 0x2003), (''ts_idx'', 0x2004),
      (''ts_zonemap_idx'', 0x2005), (''is_deleted_bitmap_idx'', 0x2006)]"

definition default_field_definitions ::
  "(string \<times> field_role \<times> source_kind \<times> string \<times> string option \<times> string \<times> bool \<times> bool \<times> int option) list" where
  "default_field_definitions =
     [(''record_id'', KEY, DIRECT, ''record_id'', None, ''string'', False, True, None),
      (''ts'', EVENT_TIME, DIRECT, ''ts'', None, ''timestamp[us,UTC]'', True, True, None),
      (''vector'', VECTOR, MAP_KEY, ''vectors'', Some ''vector'', ''fixed_size_list<float32,128>'', True, True, Some 128),
      (''text'', TEXT, MAP_KEY, ''texts'', Some ''text'', ''string'', True, False, None),
      (''cluster'', METADATA, MAP_KEY, ''metadata'', Some ''cluster'', ''string'', True, False, None),
      (''lance_etl_window_seq'', LINEAGE, DERIVED, ''lance_etl_window_seq'', None, ''int64'', False, False, None),
      (''lance_etl_source_sequence'', LINEAGE, DERIVED, ''lance_etl_source_sequence'', None, ''int64'', False, False, None),
      (''lance_etl_event_digest'', LINEAGE, DERIVED, ''lance_etl_event_digest'', None, ''binary[32]'', False, False, None),
      (''is_deleted'', TOMBSTONE, DERIVED, ''is_deleted'', None, ''bool'', False, False, None)]"

definition production_default_fields :: "dataset_field list result" where
  "production_default_fields = rmap
     (\<lambda>(ordinal, target_name, role, source_kind, source_column, source_key, data_type, nullable, required, dim).
        case map_of DEFAULT_FIELD_IDS target_name of
          None \<Rightarrow> Inl KeyError
        | Some fid \<Rightarrow> Inr \<lparr>df_field_id = fid, df_spec_revision_id = DEFAULT_SPEC_REVISION_ID, df_ordinal = ordinal,
            df_target_name = target_name, df_role = role, df_source_kind = source_kind,
            df_source_column = source_column, df_source_key = source_key, df_data_type = data_type,
            df_nullable = nullable, df_required_on_upsert = required, df_vector_dimension = dim\<rparr>)
     (zip (map int [0..<length default_field_definitions]) default_field_definitions)"

definition production_index ::
  "dataset_field list \<Rightarrow> string \<Rightarrow> string \<Rightarrow> int \<Rightarrow> index_type \<Rightarrow> vector_index_options option \<Rightarrow>
   fts_index_options option \<Rightarrow> index_definition result" where
  "production_index fs index_name field_name ordinal t vo fo =
     (case (map_of DEFAULT_INDEX_IDS index_name, dict_get (map (\<lambda>f. (df_target_name f, f)) fs) field_name) of
        (Some iid, Some f) \<Rightarrow> Inr \<lparr>ix_definition_id = iid, ix_spec_revision_id = DEFAULT_SPEC_REVISION_ID,
          ix_field_id = df_field_id f, ix_ordinal = ordinal, ix_name = index_name, ix_type = t,
          ix_vector_options = vo, ix_fts_options = fo\<rparr>
      | _ \<Rightarrow> Inl KeyError)"

definition default_vector_options :: vector_index_options where
  "default_vector_options = \<lparr>vo_metric = COSINE, vo_num_partitions = None, vo_minimum_partitions = 16,
     vo_maximum_partitions = 32768, vo_target_rows_per_partition = 8192, vo_minimum_rows = 1, vo_num_bits = 1,
     vo_streaming_sample_rate = 32, vo_streaming_refine_passes = 1, vo_retrain_growth_factor = NFloat 4\<rparr>"

definition default_fts_options :: fts_index_options where
  "default_fts_options = \<lparr>fo_with_position = False, fo_base_tokenizer = None, fo_language = None,
     fo_max_unindexed_fragments = 32\<rparr>"

definition default_indexes :: "dataset_field list \<Rightarrow> index_definition list result" where
  "default_indexes fs = rmap (\<lambda>(index_name, field_name, ordinal, t, vo, fo).
       production_index fs index_name field_name ordinal t vo fo)
     [(''vector_idx'', ''vector'', 0, IVF_RQ, Some default_vector_options, None),
      (''text_fts_idx'', ''text'', 1, INVERTED, None, Some default_fts_options),
      (''cluster_idx'', ''cluster'', 2, BTREE, None, None),
      (''ts_idx'', ''ts'', 3, BTREE, None, None),
      (''ts_zonemap_idx'', ''ts'', 4, ZONEMAP, None, None),
      (''is_deleted_bitmap_idx'', ''is_deleted'', 5, BITMAP, None, None)]"

definition default_candidate :: "dataset_field list \<Rightarrow> index_definition list \<Rightarrow> dataset_spec_revision" where
  "default_candidate fs indexes = \<lparr>sr_spec_id = DEFAULT_SPEC_ID, sr_spec_revision_id = DEFAULT_SPEC_REVISION_ID,
     sr_revision_number = 1, sr_state = SPEC_ACTIVE, sr_supersedes_revision_id = None, sr_configuration_digest = [],
     sr_fields = fs, sr_indexes = indexes, sr_ingest_shuffle_partitions = 256, sr_merge_rows_per_chunk = 250000,
     sr_merge_batch_bytes = 268435456, sr_write_rows_per_fragment = 1000000, sr_compaction_enabled = True,
     sr_compaction_mode = TRY_BINARY_COPY, sr_target_rows_per_fragment = 1048576, sr_max_source_fragments = Some 256,
     sr_compaction_threads = None, sr_defer_index_remap = False, sr_materialize_deletions = True,
     sr_materialize_deletions_threshold = NFloat (1 / 10), sr_cleanup_older_than_seconds = Some 216000,
     sr_retain_versions = Some 2, sr_fragments_per_index_task = 8, sr_max_index_deltas = 4, sr_max_stale_replans = 3,
     sr_prewarm_required = True, sr_retained_publications = 2, sr_artifact_retention_seconds = 2592000,
     sr_record_retention_seconds = None\<rparr>"

definition production_default_spec_revision ::
  "(bytes \<Rightarrow> bytes) \<Rightarrow> (rat \<Rightarrow> string) \<Rightarrow> dataset_spec_revision result" where
  "production_default_spec_revision sha256 float_repr =
     rbind production_default_fields (\<lambda>fs.
     rbind (default_indexes fs) (\<lambda>indexes.
     rbind (expected_configuration_digest sha256 float_repr (default_candidate fs indexes)) (\<lambda>d.
     validate_revision sha256 float_repr (default_candidate fs indexes\<lparr>sr_configuration_digest := d\<rparr>))))"

section \<open>Enumerations\<close>

lemma enum_text_lookup:
  assumes "distinct (map fst ms)" and "e \<in> snd ` set ms"
  shows "map_of ms (enum_text ms e) = Some e"
proof -
  obtain m where m: "find (\<lambda>m. snd m = e) ms = Some m"
    using assms(2) by (cases "find (\<lambda>m. snd m = e) ms") (auto simp: find_None_iff)
  then have "m \<in> set ms" "snd m = e" by (auto simp: find_Some_iff)
  with assms(1) have "map_of ms (fst m) = Some e" by (cases m) simp
  with m show ?thesis by (simp add: enum_text_def)
qed

lemma enum_lookups [simp]:
  "map_of spec_revision_states (enum_text spec_revision_states s) = Some s"
  "map_of field_roles (enum_text field_roles f) = Some f"
  "map_of source_kinds (enum_text source_kinds k) = Some k"
  "map_of index_types (enum_text index_types t) = Some t"
  "map_of vector_metrics (enum_text vector_metrics m) = Some m"
  "map_of compaction_modes (enum_text compaction_modes c) = Some c"
proof -
  show "map_of spec_revision_states (enum_text spec_revision_states s) = Some s"
    by (rule enum_text_lookup; cases s) (simp_all add: spec_revision_states_def)
  show "map_of field_roles (enum_text field_roles f) = Some f"
    by (rule enum_text_lookup; cases f) (simp_all add: field_roles_def)
  show "map_of source_kinds (enum_text source_kinds k) = Some k"
    by (rule enum_text_lookup; cases k) (simp_all add: source_kinds_def)
  show "map_of index_types (enum_text index_types t) = Some t"
    by (rule enum_text_lookup; cases t) (simp_all add: index_types_def)
  show "map_of vector_metrics (enum_text vector_metrics m) = Some m"
    by (rule enum_text_lookup; cases m) (simp_all add: vector_metrics_def)
  show "map_of compaction_modes (enum_text compaction_modes c) = Some c"
    by (rule enum_text_lookup; cases c) (simp_all add: compaction_modes_def)
qed

lemma enum_texts_inj [simp]:
  "enum_text field_roles f = enum_text field_roles f' \<longleftrightarrow> f = f'"
  "enum_text source_kinds k = enum_text source_kinds k' \<longleftrightarrow> k = k'"
  "enum_text index_types t = enum_text index_types t' \<longleftrightarrow> t = t'"
  "enum_text vector_metrics m = enum_text vector_metrics m' \<longleftrightarrow> m = m'"
  "enum_text compaction_modes c = enum_text compaction_modes c' \<longleftrightarrow> c = c'"
  by (metis enum_lookups option.inject)+

end
