(* ===== verification/Spec_Rows.thy ===== *)
theory Spec_Rows
  imports Spec_Model Tables
begin

text \<open>
  The normalised storage of a specification: the columns and check constraints of the three
  specification tables (\<open>state/tables.py\<close>), the encoders of the repository
  (\<open>revision_row_values\<close>, \<open>field_row_values\<close>, \<open>index_row_values\<close>) and the decoder
  (\<open>decode_dataset_spec_revision\<close>). A check constraint is evaluated in the three-valued logic of
  SQL, \<open>None\<close> being unknown, and is violated only when it is false. Inserting a row converts and
  range-checks each value for its column type; a value out of range is a \<open>DataError\<close>, a null in a
  non-null column or a violated check an \<open>IntegrityError\<close>.
\<close>

section \<open>Three-valued conditions\<close>

type_synonym sql_bool = "bool option"

fun sql_and :: "sql_bool \<Rightarrow> sql_bool \<Rightarrow> sql_bool" where
  "sql_and (Some False) b = Some False"
| "sql_and a (Some False) = Some False"
| "sql_and (Some True) b = b"
| "sql_and None b = None"

fun sql_or :: "sql_bool \<Rightarrow> sql_bool \<Rightarrow> sql_bool" where
  "sql_or (Some True) b = Some True"
| "sql_or a (Some True) = Some True"
| "sql_or (Some False) b = b"
| "sql_or None b = None"

definition sql_not :: "sql_bool \<Rightarrow> sql_bool" where
  "sql_not a = map_option Not a"

definition sql_iff :: "sql_bool \<Rightarrow> sql_bool \<Rightarrow> sql_bool" where
  "sql_iff a b = (case (a, b) of (Some x, Some y) \<Rightarrow> Some (x = y) | _ \<Rightarrow> None)"

definition sql_all :: "sql_bool list \<Rightarrow> sql_bool" where
  "sql_all bs = foldr sql_and bs (Some True)"

definition sql_any :: "sql_bool list \<Rightarrow> sql_bool" where
  "sql_any bs = foldr sql_or bs (Some False)"

definition check_passes :: "sql_bool \<Rightarrow> bool" where
  "check_passes b = (b \<noteq> Some False)"

definition is_null :: "rowmap \<Rightarrow> string \<Rightarrow> sql_bool" where
  "is_null r k = Some (col k r = Some PNone \<or> col k r = None)"

definition not_null :: "rowmap \<Rightarrow> string \<Rightarrow> sql_bool" where
  "not_null r k = sql_not (is_null r k)"

definition text_is :: "rowmap \<Rightarrow> string \<Rightarrow> (string \<Rightarrow> bool) \<Rightarrow> sql_bool" where
  "text_is r k p = (case col k r of Some (PStr s) \<Rightarrow> Some (p s) | _ \<Rightarrow> None)"

definition int_is :: "rowmap \<Rightarrow> string \<Rightarrow> (int \<Rightarrow> bool) \<Rightarrow> sql_bool" where
  "int_is r k p = (case col k r of Some (PInt i) \<Rightarrow> Some (p i) | _ \<Rightarrow> None)"

definition numeric_is :: "rowmap \<Rightarrow> string \<Rightarrow> (rat \<Rightarrow> bool) \<Rightarrow> sql_bool" where
  "numeric_is r k p = (case col k r of Some (PFloat x) \<Rightarrow> Some (p x) | _ \<Rightarrow> None)"

definition bool_is :: "rowmap \<Rightarrow> string \<Rightarrow> sql_bool" where
  "bool_is r k = (case col k r of Some (PBool b) \<Rightarrow> Some b | _ \<Rightarrow> None)"

definition bytes_is :: "rowmap \<Rightarrow> string \<Rightarrow> (bytes \<Rightarrow> bool) \<Rightarrow> sql_bool" where
  "bytes_is r k p = (case col k r of Some (PBytes b) \<Rightarrow> Some (p b) | _ \<Rightarrow> None)"

definition ints_rel :: "rowmap \<Rightarrow> string \<Rightarrow> string \<Rightarrow> (int \<Rightarrow> int \<Rightarrow> bool) \<Rightarrow> sql_bool" where
  "ints_rel r k l p = (case (col k r, col l r) of (Some (PInt i), Some (PInt j)) \<Rightarrow> Some (p i j) | _ \<Rightarrow> None)"

definition texts_eq :: "rowmap \<Rightarrow> string \<Rightarrow> string \<Rightarrow> sql_bool" where
  "texts_eq r k l = (case (col k r, col l r) of (Some (PStr s), Some (PStr t)) \<Rightarrow> Some (s = t) | _ \<Rightarrow> None)"

abbreviation eq_text :: "rowmap \<Rightarrow> string \<Rightarrow> string \<Rightarrow> sql_bool" where
  "eq_text r k s \<equiv> text_is r k (\<lambda>t. t = s)"

abbreviation in_texts :: "rowmap \<Rightarrow> string \<Rightarrow> string list \<Rightarrow> sql_bool" where
  "in_texts r k ss \<equiv> text_is r k (\<lambda>t. t \<in> set ss)"

section \<open>Column types\<close>

datatype column_type =
    UuidColumn
  | StringColumn nat
  | TextColumn
  | IntegerColumn
  | BigIntegerColumn
  | BooleanColumn
  | NumericColumn nat nat
  | BytesColumn
  | TimestampColumn

text \<open>What the driver and the server make of a value: its stored form, or a \<open>DataError\<close>.\<close>

definition storable_text :: "string \<Rightarrow> bool" where
  "storable_text s = (CHR 0x00 \<notin> set s)"

fun store_value :: "column_type \<Rightarrow> py_obj \<Rightarrow> py_obj result" where
  "store_value t PNone = Inr PNone"
| "store_value UuidColumn (PUuid u) = Inr (PUuid u)"
| "store_value (StringColumn n) (PStr s) = rbind (ensure (storable_text s \<and> length s \<le> n) DataError) (\<lambda>_. Inr (PStr s))"
| "store_value TextColumn (PStr s) = rbind (ensure (storable_text s) DataError) (\<lambda>_. Inr (PStr s))"
| "store_value IntegerColumn (PInt i) = rbind (ensure (- (2 ^ 31) \<le> i \<and> i < 2 ^ 31) DataError) (\<lambda>_. Inr (PInt i))"
| "store_value BigIntegerColumn (PInt i) = rbind (ensure (- (2 ^ 63) \<le> i \<and> i < 2 ^ 63) DataError) (\<lambda>_. Inr (PInt i))"
| "store_value BooleanColumn (PBool b) = Inr (PBool b)"
| "store_value (NumericColumn p s) (PFloat x) =
     rbind (ensure (\<bar>x\<bar> < 10 ^ (p - s)) DataError) (\<lambda>_. Inr (PFloat x))"
| "store_value (NumericColumn p s) (PInt i) =
     rbind (ensure (\<bar>i\<bar> < 10 ^ (p - s)) DataError) (\<lambda>_. Inr (PFloat (of_int i)))"
| "store_value BytesColumn (PBytes b) = Inr (PBytes b)"
| "store_value TimestampColumn (PInt i) = Inr (PInt i)"
| "store_value t v = Inl DataError"

text \<open>
  A column is its name, its type and whether it is nullable. A column without a given value is null.
  The row creation time, which the code never reads, is left out.
\<close>

type_synonym column = "string \<times> column_type \<times> bool"

definition store_row :: "column list \<Rightarrow> (rowmap \<Rightarrow> sql_bool list) \<Rightarrow> rowmap \<Rightarrow> rowmap result" where
  "store_row cols checks vals =
     rbind (rmap (\<lambda>(k, t, nullable).
        rbind (store_value t (case map_of vals k of None \<Rightarrow> PNone | Some v \<Rightarrow> v)) (\<lambda>v. Inr (k, v))) cols) (\<lambda>row.
     rbind (ensure (list_all (\<lambda>(k, t, nullable). nullable \<or> map_of row k \<noteq> Some PNone) cols) IntegrityError) (\<lambda>_.
     rbind (ensure (list_all check_passes (checks row)) IntegrityError) (\<lambda>_. Inr row)))"

definition spec_columns :: "column list" where
  "spec_columns =
     [(''spec_revision_id'', UuidColumn, False), (''spec_id'', UuidColumn, False), (''name'', StringColumn 128, False),
      (''description'', TextColumn, True), (''revision_number'', BigIntegerColumn, False),
      (''state'', StringColumn 16, False), (''supersedes_revision_id'', UuidColumn, True),
      (''configuration_digest'', BytesColumn, False), (''ingest_shuffle_partitions'', IntegerColumn, False),
      (''merge_rows_per_chunk'', BigIntegerColumn, False), (''merge_batch_bytes'', BigIntegerColumn, False),
      (''write_rows_per_fragment'', BigIntegerColumn, False), (''compaction_enabled'', BooleanColumn, False),
      (''compaction_mode'', StringColumn 32, False), (''target_rows_per_fragment'', BigIntegerColumn, False),
      (''max_source_fragments'', IntegerColumn, True), (''compaction_threads'', IntegerColumn, True),
      (''defer_index_remap'', BooleanColumn, False), (''materialize_deletions'', BooleanColumn, False),
      (''materialize_deletions_threshold'', NumericColumn 5 4, False),
      (''cleanup_older_than_seconds'', BigIntegerColumn, True), (''retain_versions'', IntegerColumn, True),
      (''fragments_per_index_task'', IntegerColumn, False), (''max_index_deltas'', IntegerColumn, False),
      (''max_stale_replans'', IntegerColumn, False), (''prewarm_required'', BooleanColumn, False),
      (''retained_publications'', IntegerColumn, False), (''artifact_retention_seconds'', BigIntegerColumn, False),
      (''record_retention_seconds'', BigIntegerColumn, True), (''activated_at'', TimestampColumn, True)]"

definition positive_or_null :: "rowmap \<Rightarrow> string \<Rightarrow> sql_bool" where
  "positive_or_null r k = sql_or (is_null r k) (int_is r k (\<lambda>i. 0 < i))"

definition spec_checks :: "rowmap \<Rightarrow> sql_bool list" where
  "spec_checks r =
     [in_texts r ''state'' [''DRAFT'', ''ACTIVE'', ''RETIRED''],
      text_is r ''name'' SOURCE_NAME_PATTERN,
      sql_or (is_null r ''description'') (text_is r ''description'' (\<lambda>d. strip_where (\<lambda>c. c = CHR '' '') d \<noteq> [])),
      int_is r ''revision_number'' (\<lambda>i. 0 < i),
      bytes_is r ''configuration_digest'' (\<lambda>b. length b = 32),
      sql_or (is_null r ''supersedes_revision_id'')
        (Some (col ''supersedes_revision_id'' r \<noteq> col ''spec_revision_id'' r)),
      sql_iff (eq_text r ''state'' ''DRAFT'') (is_null r ''activated_at''),
      int_is r ''ingest_shuffle_partitions'' (\<lambda>i. 0 < i),
      int_is r ''merge_rows_per_chunk'' (\<lambda>i. 0 < i),
      int_is r ''merge_batch_bytes'' (\<lambda>i. 0 < i),
      int_is r ''write_rows_per_fragment'' (\<lambda>i. 0 < i),
      in_texts r ''compaction_mode'' [''try_binary_copy'', ''reencode''],
      int_is r ''target_rows_per_fragment'' (\<lambda>i. 0 < i),
      positive_or_null r ''max_source_fragments'',
      positive_or_null r ''compaction_threads'',
      numeric_is r ''materialize_deletions_threshold'' (\<lambda>x. 0 \<le> x \<and> x \<le> 1),
      sql_or (is_null r ''cleanup_older_than_seconds'') (int_is r ''cleanup_older_than_seconds'' (\<lambda>i. 21600 \<le> i)),
      positive_or_null r ''retain_versions'',
      int_is r ''fragments_per_index_task'' (\<lambda>i. 0 < i),
      int_is r ''max_index_deltas'' (\<lambda>i. 0 < i),
      int_is r ''max_stale_replans'' (\<lambda>i. 0 \<le> i),
      int_is r ''retained_publications'' (\<lambda>i. 0 < i),
      int_is r ''artifact_retention_seconds'' (\<lambda>i. 0 < i),
      positive_or_null r ''record_retention_seconds'']"

definition field_columns :: "column list" where
  "field_columns =
     [(''field_id'', UuidColumn, False), (''spec_revision_id'', UuidColumn, False), (''ordinal'', IntegerColumn, False),
      (''target_name'', StringColumn 128, False), (''role'', StringColumn 16, False),
      (''source_kind'', StringColumn 16, False), (''source_column'', StringColumn 128, False),
      (''source_key'', StringColumn 128, True), (''data_type'', StringColumn 128, False),
      (''nullable'', BooleanColumn, False), (''required_on_upsert'', BooleanColumn, False),
      (''vector_dimension'', IntegerColumn, True)]"

definition field_checks :: "rowmap \<Rightarrow> sql_bool list" where
  "field_checks r =
     [int_is r ''ordinal'' (\<lambda>i. 0 \<le> i),
      text_is r ''target_name'' IDENTIFIER_PATTERN,
      in_texts r ''role'' (map fst field_roles),
      in_texts r ''source_kind'' (map fst source_kinds),
      text_is r ''source_column'' IDENTIFIER_PATTERN,
      sql_or (is_null r ''source_key'') (text_is r ''source_key'' IDENTIFIER_PATTERN),
      sql_iff (eq_text r ''source_kind'' ''MAP_KEY'') (not_null r ''source_key''),
      sql_or (sql_not (eq_text r ''source_kind'' ''MAP_KEY'')) (texts_eq r ''source_key'' ''target_name''),
      sql_any
        [sql_all [eq_text r ''role'' ''KEY'', eq_text r ''target_name'' ''record_id'',
            eq_text r ''source_kind'' ''DIRECT'', eq_text r ''source_column'' ''record_id''],
         sql_all [eq_text r ''role'' ''EVENT_TIME'', eq_text r ''target_name'' ''ts'',
            eq_text r ''source_kind'' ''DIRECT'', eq_text r ''source_column'' ''ts''],
         sql_all [eq_text r ''role'' ''VECTOR'', eq_text r ''source_kind'' ''MAP_KEY'',
            eq_text r ''source_column'' ''vectors''],
         sql_all [eq_text r ''role'' ''TEXT'', eq_text r ''source_kind'' ''MAP_KEY'',
            eq_text r ''source_column'' ''texts''],
         sql_all [eq_text r ''role'' ''METADATA'', eq_text r ''source_kind'' ''MAP_KEY'',
            eq_text r ''source_column'' ''metadata''],
         sql_all [eq_text r ''role'' ''TOMBSTONE'', eq_text r ''target_name'' ''is_deleted'',
            eq_text r ''source_kind'' ''DERIVED'', texts_eq r ''source_column'' ''target_name''],
         sql_all [eq_text r ''role'' ''LINEAGE'', in_texts r ''target_name'' (map fst expected_lineage),
            eq_text r ''source_kind'' ''DERIVED'', texts_eq r ''source_column'' ''target_name'']],
      text_is r ''data_type'' (\<lambda>t. t \<noteq> []),
      sql_any
        [eq_text r ''role'' ''VECTOR'',
         sql_all [eq_text r ''role'' ''KEY'', eq_text r ''data_type'' ''string''],
         sql_all [eq_text r ''role'' ''EVENT_TIME'', eq_text r ''data_type'' ''timestamp[us,UTC]''],
         sql_all [eq_text r ''role'' ''TEXT'', eq_text r ''data_type'' ''string''],
         sql_all [eq_text r ''role'' ''METADATA'', eq_text r ''data_type'' ''string''],
         sql_all [eq_text r ''role'' ''TOMBSTONE'', eq_text r ''data_type'' ''bool''],
         sql_all [eq_text r ''role'' ''LINEAGE'',
            in_texts r ''target_name'' [''lance_etl_window_seq'', ''lance_etl_source_sequence''],
            eq_text r ''data_type'' ''int64''],
         sql_all [eq_text r ''role'' ''LINEAGE'', eq_text r ''target_name'' ''lance_etl_event_digest'',
            eq_text r ''data_type'' ''binary[32]'']],
      sql_or (sql_and (sql_not (eq_text r ''role'' ''VECTOR'')) (is_null r ''vector_dimension''))
        (sql_all [eq_text r ''role'' ''VECTOR'', int_is r ''vector_dimension'' (\<lambda>n. 8 \<le> n),
           int_is r ''vector_dimension'' (\<lambda>n. n mod 8 = 0),
           (case (col ''data_type'' r, col ''vector_dimension'' r) of
              (Some (PStr t), Some (PInt n)) \<Rightarrow> Some (t = ''fixed_size_list<float32,'' @ show_int n @ ''>'')
            | _ \<Rightarrow> None)]),
      sql_any
        [sql_all [eq_text r ''role'' ''KEY'', sql_not (bool_is r ''nullable''), bool_is r ''required_on_upsert''],
         sql_all [in_texts r ''role'' [''EVENT_TIME'', ''VECTOR''], bool_is r ''nullable'', bool_is r ''required_on_upsert''],
         sql_all [in_texts r ''role'' [''TEXT'', ''METADATA''], bool_is r ''nullable'',
            sql_not (bool_is r ''required_on_upsert'')],
         sql_all [in_texts r ''role'' [''TOMBSTONE'', ''LINEAGE''], sql_not (bool_is r ''nullable''),
            sql_not (bool_is r ''required_on_upsert'')]]]"

text \<open>The partial unique index over the singleton roles of a revision.\<close>

definition singleton_roles :: "rowmap list \<Rightarrow> bool" where
  "singleton_roles t = unique_by (\<lambda>r. \<exists>s \<in> {''KEY'', ''EVENT_TIME'', ''TOMBSTONE''}. col ''role'' r = Some (PStr s))
     (\<lambda>r. (col ''spec_revision_id'' r, col ''role'' r)) t"

definition vector_option_columns :: "column list" where
  "vector_option_columns =
     [(''metric'', StringColumn 16, True), (''num_partitions'', IntegerColumn, True),
      (''minimum_partitions'', IntegerColumn, True), (''maximum_partitions'', IntegerColumn, True),
      (''target_rows_per_partition'', IntegerColumn, True), (''minimum_rows'', BigIntegerColumn, True),
      (''num_bits'', IntegerColumn, True), (''streaming_sample_rate'', IntegerColumn, True),
      (''streaming_refine_passes'', IntegerColumn, True), (''retrain_growth_factor'', NumericColumn 8 4, True)]"

definition fts_option_columns :: "column list" where
  "fts_option_columns =
     [(''with_position'', BooleanColumn, True), (''base_tokenizer'', StringColumn 64, True),
      (''language'', StringColumn 32, True), (''max_unindexed_fragments'', IntegerColumn, True)]"

definition index_columns :: "column list" where
  "index_columns =
     [(''index_definition_id'', UuidColumn, False), (''spec_revision_id'', UuidColumn, False),
      (''field_id'', UuidColumn, False), (''ordinal'', IntegerColumn, False), (''index_name'', StringColumn 128, False),
      (''index_type'', StringColumn 16, False)] @ vector_option_columns @ fts_option_columns"

definition all_null :: "rowmap \<Rightarrow> string list \<Rightarrow> sql_bool" where
  "all_null r ks = sql_all (map (is_null r) ks)"

definition none_null :: "rowmap \<Rightarrow> string list \<Rightarrow> sql_bool" where
  "none_null r ks = sql_all (map (not_null r) ks)"

definition index_checks :: "rowmap \<Rightarrow> sql_bool list" where
  "index_checks r =
     [int_is r ''ordinal'' (\<lambda>i. 0 \<le> i),
      text_is r ''index_name'' IDENTIFIER_PATTERN,
      in_texts r ''index_type'' (map fst index_types),
      sql_any
        [sql_all [eq_text r ''index_type'' ''IVF_RQ'',
            none_null r [''metric'', ''minimum_partitions'', ''maximum_partitions'', ''target_rows_per_partition'',
              ''minimum_rows'', ''num_bits'', ''streaming_sample_rate'', ''streaming_refine_passes'',
              ''retrain_growth_factor''],
            all_null r (map fst fts_option_columns)],
         sql_all [eq_text r ''index_type'' ''INVERTED'', none_null r [''with_position'', ''max_unindexed_fragments''],
            all_null r (map fst vector_option_columns)],
         sql_all [in_texts r ''index_type'' [''BTREE'', ''BITMAP'', ''ZONEMAP''],
            all_null r (map fst vector_option_columns), all_null r (map fst fts_option_columns)]],
      sql_or (is_null r ''metric'') (in_texts r ''metric'' (map fst vector_metrics)),
      positive_or_null r ''num_partitions'',
      positive_or_null r ''minimum_partitions'',
      sql_any [is_null r ''maximum_partitions'', is_null r ''minimum_partitions'',
        ints_rel r ''maximum_partitions'' ''minimum_partitions'' (\<lambda>a b. b \<le> a)],
      sql_or (is_null r ''num_partitions'')
        (sql_and (ints_rel r ''num_partitions'' ''minimum_partitions'' (\<lambda>a b. b \<le> a))
           (ints_rel r ''num_partitions'' ''maximum_partitions'' (\<lambda>a b. a \<le> b))),
      positive_or_null r ''target_rows_per_partition'',
      sql_or (is_null r ''minimum_rows'') (int_is r ''minimum_rows'' (\<lambda>i. 0 \<le> i)),
      positive_or_null r ''num_bits'',
      positive_or_null r ''streaming_sample_rate'',
      sql_or (is_null r ''streaming_refine_passes'') (int_is r ''streaming_refine_passes'' (\<lambda>i. 0 \<le> i)),
      sql_or (is_null r ''retrain_growth_factor'') (numeric_is r ''retrain_growth_factor'' (\<lambda>x. 1 < x)),
      sql_or (is_null r ''base_tokenizer'') (text_is r ''base_tokenizer'' (\<lambda>t. t \<noteq> [])),
      sql_or (is_null r ''language'') (text_is r ''language'' (\<lambda>t. t \<noteq> [])),
      sql_or (is_null r ''max_unindexed_fragments'') (int_is r ''max_unindexed_fragments'' (\<lambda>i. 0 \<le> i))]"

section \<open>Encoding\<close>

text \<open>
  A number handed to the driver. The encoders run on validated revisions, whose numbers are finite; a
  non-finite number becomes a text, which no numeric column takes.
\<close>

fun obj_number :: "py_number \<Rightarrow> py_obj" where
  "obj_number (NInt i) = PInt i"
| "obj_number (NFloat x) = PFloat x"
| "obj_number (NInf negative) = PStr (if negative then ''-Infinity'' else ''Infinity'')"
| "obj_number NNan = PStr ''NaN''"

definition obj_opt :: "('a \<Rightarrow> py_obj) \<Rightarrow> 'a option \<Rightarrow> py_obj" where
  "obj_opt f v = (case v of None \<Rightarrow> PNone | Some x \<Rightarrow> f x)"

definition revision_row_values :: "dataset_spec_revision \<Rightarrow> string \<Rightarrow> string option \<Rightarrow> rowmap" where
  "revision_row_values r name description =
     [(''spec_revision_id'', PUuid (sr_spec_revision_id r)),
      (''spec_id'', PUuid (sr_spec_id r)),
      (''name'', PStr name),
      (''description'', obj_opt PStr description),
      (''revision_number'', PInt (sr_revision_number r)),
      (''state'', PStr (enum_text spec_revision_states (sr_state r))),
      (''supersedes_revision_id'', obj_opt PUuid (sr_supersedes_revision_id r)),
      (''configuration_digest'', PBytes (sr_configuration_digest r)),
      (''ingest_shuffle_partitions'', PInt (sr_ingest_shuffle_partitions r)),
      (''merge_rows_per_chunk'', PInt (sr_merge_rows_per_chunk r)),
      (''merge_batch_bytes'', PInt (sr_merge_batch_bytes r)),
      (''write_rows_per_fragment'', PInt (sr_write_rows_per_fragment r)),
      (''compaction_enabled'', PBool (sr_compaction_enabled r)),
      (''compaction_mode'', PStr (enum_text compaction_modes (sr_compaction_mode r))),
      (''target_rows_per_fragment'', PInt (sr_target_rows_per_fragment r)),
      (''max_source_fragments'', obj_opt PInt (sr_max_source_fragments r)),
      (''compaction_threads'', obj_opt PInt (sr_compaction_threads r)),
      (''defer_index_remap'', PBool (sr_defer_index_remap r)),
      (''materialize_deletions'', PBool (sr_materialize_deletions r)),
      (''materialize_deletions_threshold'', obj_number (sr_materialize_deletions_threshold r)),
      (''cleanup_older_than_seconds'', obj_opt PInt (sr_cleanup_older_than_seconds r)),
      (''retain_versions'', obj_opt PInt (sr_retain_versions r)),
      (''fragments_per_index_task'', PInt (sr_fragments_per_index_task r)),
      (''max_index_deltas'', PInt (sr_max_index_deltas r)),
      (''max_stale_replans'', PInt (sr_max_stale_replans r)),
      (''prewarm_required'', PBool (sr_prewarm_required r)),
      (''retained_publications'', PInt (sr_retained_publications r)),
      (''artifact_retention_seconds'', PInt (sr_artifact_retention_seconds r)),
      (''record_retention_seconds'', obj_opt PInt (sr_record_retention_seconds r))]"

definition field_row_values :: "dataset_field \<Rightarrow> rowmap" where
  "field_row_values f =
     [(''field_id'', PUuid (df_field_id f)),
      (''spec_revision_id'', PUuid (df_spec_revision_id f)),
      (''ordinal'', PInt (df_ordinal f)),
      (''target_name'', PStr (df_target_name f)),
      (''role'', PStr (enum_text field_roles (df_role f))),
      (''source_kind'', PStr (enum_text source_kinds (df_source_kind f))),
      (''source_column'', PStr (df_source_column f)),
      (''source_key'', obj_opt PStr (df_source_key f)),
      (''data_type'', PStr (df_data_type f)),
      (''nullable'', PBool (df_nullable f)),
      (''required_on_upsert'', PBool (df_required_on_upsert f)),
      (''vector_dimension'', obj_opt PInt (df_vector_dimension f))]"

definition vector_row_values :: "vector_index_options \<Rightarrow> rowmap" where
  "vector_row_values o' =
     [(''metric'', PStr (enum_text vector_metrics (vo_metric o'))),
      (''num_partitions'', obj_opt PInt (vo_num_partitions o')),
      (''minimum_partitions'', PInt (vo_minimum_partitions o')),
      (''maximum_partitions'', PInt (vo_maximum_partitions o')),
      (''target_rows_per_partition'', PInt (vo_target_rows_per_partition o')),
      (''minimum_rows'', PInt (vo_minimum_rows o')),
      (''num_bits'', PInt (vo_num_bits o')),
      (''streaming_sample_rate'', PInt (vo_streaming_sample_rate o')),
      (''streaming_refine_passes'', PInt (vo_streaming_refine_passes o')),
      (''retrain_growth_factor'', obj_number (vo_retrain_growth_factor o'))]"

definition fts_row_values :: "fts_index_options \<Rightarrow> rowmap" where
  "fts_row_values o' =
     [(''with_position'', PBool (fo_with_position o')),
      (''base_tokenizer'', obj_opt PStr (fo_base_tokenizer o')),
      (''language'', obj_opt PStr (fo_language o')),
      (''max_unindexed_fragments'', PInt (fo_max_unindexed_fragments o'))]"

text \<open>The option columns are null until the update with the options of the index overrides them.\<close>

definition index_row_values :: "index_definition \<Rightarrow> rowmap" where
  "index_row_values x =
     [(''index_definition_id'', PUuid (ix_definition_id x)),
      (''spec_revision_id'', PUuid (ix_spec_revision_id x)),
      (''field_id'', PUuid (ix_field_id x)),
      (''ordinal'', PInt (ix_ordinal x)),
      (''index_name'', PStr (ix_name x)),
      (''index_type'', PStr (enum_text index_types (ix_type x)))] @
     (case ix_vector_options x of
        None \<Rightarrow> map (\<lambda>(k, t, nullable). (k, PNone)) vector_option_columns
      | Some o' \<Rightarrow> vector_row_values o') @
     (case ix_fts_options x of
        None \<Rightarrow> map (\<lambda>(k, t, nullable). (k, PNone)) fts_option_columns
      | Some o' \<Rightarrow> fts_row_values o')"

section \<open>Decoding\<close>

definition decode_vector_options :: "rowmap \<Rightarrow> vector_index_options result" where
  "decode_vector_options r =
     rbind (row_enum r ''metric'' vector_metrics) (\<lambda>metric.
     rbind (row_optional_int r ''num_partitions'') (\<lambda>num_partitions.
     rbind (row_int r ''minimum_partitions'') (\<lambda>minimum_partitions.
     rbind (row_int r ''maximum_partitions'') (\<lambda>maximum_partitions.
     rbind (row_int r ''target_rows_per_partition'') (\<lambda>target_rows.
     rbind (row_int r ''minimum_rows'') (\<lambda>minimum_rows.
     rbind (row_int r ''num_bits'') (\<lambda>num_bits.
     rbind (row_int r ''streaming_sample_rate'') (\<lambda>sample_rate.
     rbind (row_int r ''streaming_refine_passes'') (\<lambda>refine_passes.
     rbind (row_float r ''retrain_growth_factor'') (\<lambda>growth.
     Inr \<lparr>vo_metric = metric, vo_num_partitions = num_partitions, vo_minimum_partitions = minimum_partitions,
       vo_maximum_partitions = maximum_partitions, vo_target_rows_per_partition = target_rows,
       vo_minimum_rows = minimum_rows, vo_num_bits = num_bits, vo_streaming_sample_rate = sample_rate,
       vo_streaming_refine_passes = refine_passes, vo_retrain_growth_factor = NFloat growth\<rparr>))))))))))"

definition decode_fts_options :: "rowmap \<Rightarrow> fts_index_options result" where
  "decode_fts_options r =
     rbind (row_bool r ''with_position'') (\<lambda>with_position.
     rbind (row_optional_string r ''base_tokenizer'') (\<lambda>base_tokenizer.
     rbind (row_optional_string r ''language'') (\<lambda>language.
     rbind (row_int r ''max_unindexed_fragments'') (\<lambda>unindexed.
     Inr \<lparr>fo_with_position = with_position, fo_base_tokenizer = base_tokenizer, fo_language = language,
       fo_max_unindexed_fragments = unindexed\<rparr>))))"

definition decode_dataset_field :: "rowmap \<Rightarrow> dataset_field result" where
  "decode_dataset_field r =
     rbind (row_uuid r ''field_id'') (\<lambda>fid.
     rbind (row_uuid r ''spec_revision_id'') (\<lambda>rid.
     rbind (row_int r ''ordinal'') (\<lambda>ordinal.
     rbind (row_string r ''target_name'') (\<lambda>target_name.
     rbind (row_enum r ''role'' field_roles) (\<lambda>role.
     rbind (row_enum r ''source_kind'' source_kinds) (\<lambda>source_kind.
     rbind (row_string r ''source_column'') (\<lambda>source_column.
     rbind (row_optional_string r ''source_key'') (\<lambda>source_key.
     rbind (row_string r ''data_type'') (\<lambda>data_type.
     rbind (row_bool r ''nullable'') (\<lambda>nullable.
     rbind (row_bool r ''required_on_upsert'') (\<lambda>required.
     rbind (row_optional_int r ''vector_dimension'') (\<lambda>dim.
     Inr \<lparr>df_field_id = fid, df_spec_revision_id = rid, df_ordinal = ordinal, df_target_name = target_name,
       df_role = role, df_source_kind = source_kind, df_source_column = source_column, df_source_key = source_key,
       df_data_type = data_type, df_nullable = nullable, df_required_on_upsert = required,
       df_vector_dimension = dim\<rparr>))))))))))))"

definition decode_index_definition :: "rowmap \<Rightarrow> index_definition result" where
  "decode_index_definition r =
     rbind (row_enum r ''index_type'' index_types) (\<lambda>t.
     rbind (row_uuid r ''index_definition_id'') (\<lambda>iid.
     rbind (row_uuid r ''spec_revision_id'') (\<lambda>rid.
     rbind (row_uuid r ''field_id'') (\<lambda>fid.
     rbind (row_int r ''ordinal'') (\<lambda>ordinal.
     rbind (row_string r ''index_name'') (\<lambda>name.
     rbind (if t = IVF_RQ then rbind (decode_vector_options r) (\<lambda>v. Inr (Some v)) else Inr None) (\<lambda>vo.
     rbind (if t = INVERTED then rbind (decode_fts_options r) (\<lambda>v. Inr (Some v)) else Inr None) (\<lambda>fo.
     Inr \<lparr>ix_definition_id = iid, ix_spec_revision_id = rid, ix_field_id = fid, ix_ordinal = ordinal, ix_name = name,
       ix_type = t, ix_vector_options = vo, ix_fts_options = fo\<rparr>))))))))"

definition validate_child_revision :: "uuid \<Rightarrow> rowmap \<Rightarrow> unit result" where
  "validate_child_revision rid r =
     rbind (row_uuid r ''spec_revision_id'') (\<lambda>u. ensure (u = rid) ValueError)"

text \<open>The columns of the revision row, read in the order of the code.\<close>

definition decode_revision_columns ::
  "rowmap \<Rightarrow> uuid \<Rightarrow> uuid \<Rightarrow> dataset_field list \<Rightarrow> index_definition list \<Rightarrow> dataset_spec_revision result" where
  "decode_revision_columns r sid rid fs xs =
     rbind (row_int r ''revision_number'') (\<lambda>number.
     rbind (row_enum r ''state'' spec_revision_states) (\<lambda>state.
     rbind (row_optional_uuid r ''supersedes_revision_id'') (\<lambda>supersedes.
     rbind (row_bytes r ''configuration_digest'') (\<lambda>digest.
     rbind (row_int r ''ingest_shuffle_partitions'') (\<lambda>shuffle.
     rbind (row_int r ''merge_rows_per_chunk'') (\<lambda>merge_rows.
     rbind (row_int r ''merge_batch_bytes'') (\<lambda>merge_bytes.
     rbind (row_int r ''write_rows_per_fragment'') (\<lambda>write_rows.
     rbind (row_bool r ''compaction_enabled'') (\<lambda>enabled.
     rbind (row_enum r ''compaction_mode'' compaction_modes) (\<lambda>mode.
     rbind (row_int r ''target_rows_per_fragment'') (\<lambda>target_rows.
     rbind (row_optional_int r ''max_source_fragments'') (\<lambda>max_fragments.
     rbind (row_optional_int r ''compaction_threads'') (\<lambda>threads.
     rbind (row_bool r ''defer_index_remap'') (\<lambda>defer.
     rbind (row_bool r ''materialize_deletions'') (\<lambda>materialize.
     rbind (row_float r ''materialize_deletions_threshold'') (\<lambda>threshold.
     rbind (row_optional_int r ''cleanup_older_than_seconds'') (\<lambda>cleanup.
     rbind (row_optional_int r ''retain_versions'') (\<lambda>retain.
     rbind (row_int r ''fragments_per_index_task'') (\<lambda>per_task.
     rbind (row_int r ''max_index_deltas'') (\<lambda>deltas.
     rbind (row_int r ''max_stale_replans'') (\<lambda>replans.
     rbind (row_bool r ''prewarm_required'') (\<lambda>prewarm.
     rbind (row_int r ''retained_publications'') (\<lambda>retained.
     rbind (row_int r ''artifact_retention_seconds'') (\<lambda>artifacts.
     rbind (row_optional_int r ''record_retention_seconds'') (\<lambda>records.
     Inr \<lparr>sr_spec_id = sid, sr_spec_revision_id = rid, sr_revision_number = number, sr_state = state,
       sr_supersedes_revision_id = supersedes, sr_configuration_digest = digest, sr_fields = fs, sr_indexes = xs,
       sr_ingest_shuffle_partitions = shuffle, sr_merge_rows_per_chunk = merge_rows,
       sr_merge_batch_bytes = merge_bytes, sr_write_rows_per_fragment = write_rows, sr_compaction_enabled = enabled,
       sr_compaction_mode = mode, sr_target_rows_per_fragment = target_rows,
       sr_max_source_fragments = max_fragments, sr_compaction_threads = threads, sr_defer_index_remap = defer,
       sr_materialize_deletions = materialize, sr_materialize_deletions_threshold = NFloat threshold,
       sr_cleanup_older_than_seconds = cleanup, sr_retain_versions = retain,
       sr_fragments_per_index_task = per_task, sr_max_index_deltas = deltas, sr_max_stale_replans = replans,
       sr_prewarm_required = prewarm, sr_retained_publications = retained,
       sr_artifact_retention_seconds = artifacts, sr_record_retention_seconds = records\<rparr>)))))))))))))))))))))))))"

definition decode_dataset_spec_revision ::
  "(bytes \<Rightarrow> bytes) \<Rightarrow> (rat \<Rightarrow> string) \<Rightarrow> rowmap \<Rightarrow> rowmap list \<Rightarrow> rowmap list \<Rightarrow> dataset_spec_revision result" where
  "decode_dataset_spec_revision sha256 float_repr r field_rows index_rows =
     rbind (row_uuid r ''spec_id'') (\<lambda>sid.
     rbind (row_uuid r ''spec_revision_id'') (\<lambda>rid.
     rbind (rmap (validate_child_revision rid) field_rows) (\<lambda>_.
     rbind (rmap (validate_child_revision rid) index_rows) (\<lambda>_.
     rbind (rmap decode_dataset_field field_rows) (\<lambda>fs.
     rbind (rmap decode_index_definition index_rows) (\<lambda>xs.
     rbind (decode_revision_columns r sid rid (sort_key df_ordinal fs) (sort_key ix_ordinal xs)) (\<lambda>v.
     validate_revision sha256 float_repr v)))))))"

section \<open>Numbers after storage\<close>

text \<open>
  A numeric column returns a float. Python's equality of revisions does not tell an integer from the
  float of the same value, so two revisions are the same when these forms agree.
\<close>

definition as_float :: "py_number \<Rightarrow> py_number" where
  "as_float n = (case n of NInt i \<Rightarrow> NFloat (of_int i) | _ \<Rightarrow> n)"

definition float_options :: "vector_index_options \<Rightarrow> vector_index_options" where
  "float_options o' = o'\<lparr>vo_retrain_growth_factor := as_float (vo_retrain_growth_factor o')\<rparr>"

definition float_index :: "index_definition \<Rightarrow> index_definition" where
  "float_index x = x\<lparr>ix_vector_options := map_option float_options (ix_vector_options x)\<rparr>"

definition float_revision :: "dataset_spec_revision \<Rightarrow> dataset_spec_revision" where
  "float_revision r = r\<lparr>sr_materialize_deletions_threshold := as_float (sr_materialize_deletions_threshold r),
     sr_indexes := map float_index (sr_indexes r)\<rparr>"

definition same_revision :: "dataset_spec_revision \<Rightarrow> dataset_spec_revision \<Rightarrow> bool" where
  "same_revision a b = (float_revision a = float_revision b)"

end
