(* ===== verification/Spec_Store.thy ===== *)
theory Spec_Store
  imports Spec_Rows Lease
begin

text \<open>
  The lifecycle of specification revisions in the repository (\<open>state/repository.py\<close>): drafts are
  prepared, stored as normalised rows and read back; an activation retires the active revision of the
  specification in the same transaction; a source is pointed at a specification with an active revision;
  and the execution context of a claim is loaded under its lease. The constraints of the specification
  tables are evaluated after each statement.
\<close>

section \<open>Drafts\<close>

definition validate_database_decimal :: "py_number \<Rightarrow> unit result" where
  "validate_database_decimal n =
     (case n of
        NInf b \<Rightarrow> Inl InvalidOperation
      | NNan \<Rightarrow> Inl ValueError
      | _ \<Rightarrow> rbind (ensure (\<bar>number_value n\<bar> * 10 ^ 4 < 10 ^ 28) InvalidOperation) (\<lambda>_.
              ensure (of_int \<lfloor>number_value n * 10 ^ 4\<rfloor> = number_value n * 10 ^ 4) ValueError))"

definition prepared_draft_revision ::
  "(bytes \<Rightarrow> bytes) \<Rightarrow> (rat \<Rightarrow> string) \<Rightarrow> dataset_spec_revision \<Rightarrow> dataset_spec_revision result" where
  "prepared_draft_revision sha256 float_repr r =
     rbind (ensure (sr_state r = SPEC_DRAFT) ValueError) (\<lambda>_.
     rbind (validate_database_decimal (sr_materialize_deletions_threshold r)) (\<lambda>_.
     rbind (rmap (\<lambda>x. case ix_vector_options x of
                        None \<Rightarrow> Inr ()
                      | Some o' \<Rightarrow> validate_database_decimal (vo_retrain_growth_factor o')) (sr_indexes r)) (\<lambda>_.
     rbind (expected_configuration_digest sha256 float_repr r) (\<lambda>d.
     validate_revision sha256 float_repr (r\<lparr>sr_configuration_digest := d\<rparr>)))))"

definition row_ordinal :: "rowmap \<Rightarrow> int" where
  "row_ordinal r = (case col ''ordinal'' r of Some (PInt i) \<Rightarrow> i | _ \<Rightarrow> 0)"

definition children_of :: "uuid \<Rightarrow> rowmap list \<Rightarrow> rowmap list" where
  "children_of rid t = sort_key row_ordinal (filter (\<lambda>r. col ''spec_revision_id'' r = Some (PUuid rid)) t)"

definition load_spec_revision ::
  "(bytes \<Rightarrow> bytes) \<Rightarrow> (rat \<Rightarrow> string) \<Rightarrow> uuid \<Rightarrow> db \<Rightarrow> dataset_spec_revision result" where
  "load_spec_revision sha256 float_repr rid s =
     (case lookup_by (col ''spec_revision_id'') (Some (PUuid rid)) (t_specs s) of
        None \<Rightarrow> Inl StateTransitionError
      | Some r \<Rightarrow> decode_dataset_spec_revision sha256 float_repr r (children_of rid (t_fields s))
          (children_of rid (t_indexes s)))"

definition SPEC_NAME_PATTERN :: "string \<Rightarrow> bool" where
  "SPEC_NAME_PATTERN = SOURCE_NAME_PATTERN"

definition checked_specs :: "db \<Rightarrow> db result" where
  "checked_specs s =
     rbind (ensure (singleton_roles (t_fields s)) IntegrityError) (\<lambda>_. checked s)"

definition insert_revision ::
  "dataset_spec_revision \<Rightarrow> string \<Rightarrow> string option \<Rightarrow> db \<Rightarrow> db result" where
  "insert_revision r name description s =
     rbind (store_row spec_columns spec_checks (revision_row_values r name description)) (\<lambda>row.
     checked_specs (s\<lparr>t_specs := t_specs s @ [row]\<rparr>))"

definition insert_fields :: "dataset_field list \<Rightarrow> db \<Rightarrow> db result" where
  "insert_fields fs s =
     rbind (rmap (\<lambda>f. store_row field_columns field_checks (field_row_values f)) fs) (\<lambda>rows.
     checked_specs (s\<lparr>t_fields := t_fields s @ rows\<rparr>))"

definition insert_index_definitions :: "index_definition list \<Rightarrow> db \<Rightarrow> db result" where
  "insert_index_definitions xs s =
     rbind (rmap (\<lambda>x. store_row index_columns index_checks (index_row_values x)) xs) (\<lambda>rows.
     checked_specs (s\<lparr>t_indexes := t_indexes s @ rows\<rparr>))"

definition create_draft_spec_revision ::
  "(bytes \<Rightarrow> bytes) \<Rightarrow> (rat \<Rightarrow> string) \<Rightarrow> dataset_spec_revision \<Rightarrow> string \<Rightarrow> string option \<Rightarrow> db \<Rightarrow>
   (dataset_spec_revision \<times> db) result" where
  "create_draft_spec_revision sha256 float_repr r name description s =
     rbind (ensure (SPEC_NAME_PATTERN name) ValueError) (\<lambda>_.
     rbind (ensure (case description of None \<Rightarrow> True | Some d \<Rightarrow> \<not> is_blank d) ValueError) (\<lambda>_.
     rbind (prepared_draft_revision sha256 float_repr r) (\<lambda>c.
     if spec_exists (sr_spec_revision_id c) (t_specs s)
     then rbind (load_spec_revision sha256 float_repr (sr_spec_revision_id c) s) (\<lambda>existing.
          rbind (ensure (same_revision existing c) StateTransitionError) (\<lambda>_. Inr (existing, s)))
     else rbind (insert_revision c name description s) (\<lambda>s1.
          rbind (insert_fields (sr_fields c) s1) (\<lambda>s2.
          rbind (insert_index_definitions (sr_indexes c) s2) (\<lambda>s3.
          rbind (load_spec_revision sha256 float_repr (sr_spec_revision_id c) s3) (\<lambda>persisted.
          rbind (ensure (same_revision persisted c) StateTransitionError) (\<lambda>_. Inr (persisted, s3)))))))))"

section \<open>Activation\<close>

definition set_column :: "string \<Rightarrow> py_obj \<Rightarrow> rowmap \<Rightarrow> rowmap" where
  "set_column k v r = map (\<lambda>(k', w). (k', if k' = k then v else w)) r"

definition retire_active :: "py_obj option \<Rightarrow> rowmap list \<Rightarrow> rowmap list" where
  "retire_active spec t = update_where (\<lambda>r. col ''spec_id'' r = spec \<and> col ''state'' r = Some (PStr ''ACTIVE''))
     (set_column ''state'' (PStr ''RETIRED'')) t"

definition draft_row :: "uuid \<Rightarrow> rowmap \<Rightarrow> bool" where
  "draft_row rid r = (col ''spec_revision_id'' r = Some (PUuid rid) \<and> col ''state'' r = Some (PStr ''DRAFT''))"

definition activate_draft :: "uuid \<Rightarrow> int \<Rightarrow> rowmap list \<Rightarrow> rowmap list" where
  "activate_draft rid now t = update_where (draft_row rid)
     (set_column ''activated_at'' (PInt now) \<circ> set_column ''state'' (PStr ''ACTIVE'')) t"

definition activate_spec_revision ::
  "(bytes \<Rightarrow> bytes) \<Rightarrow> (rat \<Rightarrow> string) \<Rightarrow> uuid \<Rightarrow> int \<Rightarrow> db \<Rightarrow> (dataset_spec_revision \<times> db) result" where
  "activate_spec_revision sha256 float_repr rid now s =
     (case lookup_by (col ''spec_revision_id'') (Some (PUuid rid)) (t_specs s) of
        None \<Rightarrow> Inl StateTransitionError
      | Some row \<Rightarrow>
          if col ''state'' row = Some (PStr ''ACTIVE'')
          then rbind (load_spec_revision sha256 float_repr rid s) (\<lambda>r. Inr (r, s))
          else rbind (ensure (col ''state'' row = Some (PStr ''DRAFT'')) StateTransitionError) (\<lambda>_.
            rbind (load_spec_revision sha256 float_repr rid s) (\<lambda>_.
            rbind (checked_specs (s\<lparr>t_specs := retire_active (col ''spec_id'' row) (t_specs s)\<rparr>)) (\<lambda>s1.
            rbind (checked_specs (s1\<lparr>t_specs := activate_draft rid now (t_specs s1)\<rparr>)) (\<lambda>s2.
            rbind (ensure (count_where (draft_row rid) (t_specs s1) = 1) StateTransitionError) (\<lambda>_.
            rbind (load_spec_revision sha256 float_repr rid s2) (\<lambda>r. Inr (r, s2))))))))"

section \<open>Source defaults\<close>

definition set_source_default_spec :: "uuid \<Rightarrow> uuid \<Rightarrow> db \<Rightarrow> (iceberg_source \<times> db) result" where
  "set_source_default_spec source spec s =
     rbind (ensure (exists_where (\<lambda>r. r_id r = source) (t_sources s)) StateTransitionError) (\<lambda>_.
     rbind (active_spec_revision_id spec s) (\<lambda>_.
     rbind (checked (s\<lparr>t_sources := update_where (\<lambda>r. r_id r = source) (\<lambda>r. r\<lparr>r_default_spec := spec\<rparr>) (t_sources s)\<rparr>)) (\<lambda>s1.
     case lookup_by r_id source (t_sources s1) of
       None \<Rightarrow> Inl NoResultFound
     | Some r \<Rightarrow> rbind (source_from_row r) (\<lambda>src. Inr (src, s1)))))"

section \<open>Execution context\<close>

record work_execution_context =
  xc_claim :: work_claim
  xc_identity :: routing_identity
  xc_source_table :: string
  xc_source :: iceberg_source
  xc_spec_revision :: dataset_spec_revision
  xc_snapshot_id :: int
  xc_parent_snapshot_id :: "int option"
  xc_iceberg_sequence_number :: int
  xc_partition_spec_id :: int
  xc_source_snapshot_kind :: snapshot_kind
  xc_candidate_lance_uri :: "string option"
  xc_candidate_lance_version :: "int option"
  xc_artifact_manifest_uri :: "string option"
  xc_artifact_digest :: "bytes option"

text \<open>
  The joined row: the work under the lease with its dataset, its snapshot of the dataset's source, and
  that source. The keys of the four tables make it unique.
\<close>

definition context_rows :: "work_claim \<Rightarrow> int \<Rightarrow> db \<Rightarrow> (work_row \<times> dataset_row \<times> snapshot_row \<times> source_row) list" where
  "context_rows c now s =
     [(w, d, x, r). w \<leftarrow> t_work s, lease_is_current c now s w, d \<leftarrow> t_datasets s, d_id d = w_dataset w,
        x \<leftarrow> t_snapshots s, s_seq x = w_seq w \<and> s_source x = d_source d, r \<leftarrow> t_sources s, r_id r = d_source d]"

definition work_execution_context_of ::
  "(bytes \<Rightarrow> bytes) \<Rightarrow> (rat \<Rightarrow> string) \<Rightarrow> work_claim \<Rightarrow> int \<Rightarrow> db \<Rightarrow> work_execution_context option result" where
  "work_execution_context_of sha256 float_repr c now s =
     (case context_rows c now s of
        [] \<Rightarrow> Inr None
      | [(w, d, x, r)] \<Rightarrow>
          rbind (source_from_row r) (\<lambda>src.
          rbind (load_spec_revision sha256 float_repr (w_spec w) s) (\<lambda>rev.
          rbind (RoutingIdentity_validate (d_route d)) (\<lambda>identity.
          Inr (Some \<lparr>xc_claim = c, xc_identity = identity, xc_source_table = spark_table src, xc_source = src,
            xc_spec_revision = rev, xc_snapshot_id = s_snapshot x, xc_parent_snapshot_id = s_parent x,
            xc_iceberg_sequence_number = s_iceberg_seq x, xc_partition_spec_id = s_partition_spec x,
            xc_source_snapshot_kind = s_kind x, xc_candidate_lance_uri = w_cand_uri w,
            xc_candidate_lance_version = w_cand_version w, xc_artifact_manifest_uri = w_manifest_uri w,
            xc_artifact_digest = w_manifest_digest w\<rparr>))))
      | _ \<Rightarrow> Inl MultipleResultsFound)"

end
