(* ===== verification/Spec_Roundtrip.thy ===== *)
theory Spec_Roundtrip
  imports Spec_Rows
begin

text \<open>
  Storing and reading specifications. A stored row reads back as the value it was encoded from, up to
  the conversion of integers in numeric columns; a validated revision satisfies every check constraint
  of its tables, so that only value ranges, keys and references can refuse it.
\<close>

section \<open>Stored rows\<close>

fun stored_as :: "column_type \<Rightarrow> py_obj \<Rightarrow> py_obj" where
  "stored_as (NumericColumn p s) (PInt i) = PFloat (of_int i)"
| "stored_as t v = v"

lemma store_value_stored_as: "store_value t v = Inr w \<Longrightarrow> w = stored_as t v"
  by (cases "(t, v)" rule: store_value.cases) (auto simp: rbind_Inr_iff)

definition stored_row :: "column list \<Rightarrow> rowmap \<Rightarrow> rowmap" where
  "stored_row cols vals = map (\<lambda>(k, t, nullable). (k, stored_as t (case map_of vals k of None \<Rightarrow> PNone | Some v \<Rightarrow> v))) cols"

lemma store_row_stored:
  assumes "store_row cols checks vals = Inr row"
  shows "row = stored_row cols vals"
proof -
  from assms have "rmap (\<lambda>(k, t, nullable).
      rbind (store_value t (case map_of vals k of None \<Rightarrow> PNone | Some v \<Rightarrow> v)) (\<lambda>v. Inr (k, v))) cols = Inr row"
    unfolding store_row_def by (auto simp: rbind_Inr_iff ensure_Inr_iff)
  then show ?thesis
    unfolding stored_row_def
    by (induction cols arbitrary: row) (auto simp: rbind_Inr_iff dest: store_value_stored_as)
qed

lemma obj_opt_simps [simp]: "obj_opt f None = PNone" "obj_opt f (Some x) = f x"
  by (simp_all add: obj_opt_def)

lemma stored_as_simps [simp]:
  "stored_as UuidColumn v = v" "stored_as (StringColumn n) v = v" "stored_as TextColumn v = v"
  "stored_as IntegerColumn v = v" "stored_as BigIntegerColumn v = v" "stored_as BooleanColumn v = v"
  "stored_as BytesColumn v = v" "stored_as TimestampColumn v = v"
  by (cases v; simp)+

lemma read_opt [simp]:
  "(case obj_opt PUuid u of PNone \<Rightarrow> Inr None | PUuid x \<Rightarrow> Inr (Some x) | _ \<Rightarrow> Inl e) = Inr u"
  "(case obj_opt PStr s of PNone \<Rightarrow> Inr None | PStr x \<Rightarrow> Inr (Some x) | _ \<Rightarrow> Inl e) = Inr s"
  "(case obj_opt PInt n of PNone \<Rightarrow> Inr None | PInt x \<Rightarrow> Inr (Some x) | _ \<Rightarrow> Inl e) = Inr n"
  by (simp_all add: obj_opt_def split: option.splits)

lemma read_number [simp]:
  "is_finite n \<Longrightarrow> (case stored_as (NumericColumn p s) (obj_number n) of
     PFloat x \<Rightarrow> Inr x | PInt i \<Rightarrow> Inr (of_int i) | _ \<Rightarrow> Inl e) = Inr (number_value n)"
  by (cases n) (simp_all add: is_finite_def number_value_def)

lemma as_float_finite: "is_finite n \<Longrightarrow> NFloat (number_value n) = as_float n"
  by (cases n) (simp_all add: is_finite_def number_value_def as_float_def)

lemmas row_readers = row_uuid_def row_optional_uuid_def row_string_def row_optional_string_def row_int_def
  row_optional_int_def row_bool_def row_float_def row_bytes_def row_enum_def row_value_def

lemma decode_field_row:
  "decode_dataset_field (stored_row field_columns (field_row_values f)) = Inr f"
  by (simp add: decode_dataset_field_def row_readers stored_row_def field_columns_def field_row_values_def)

lemma decode_revision_row:
  assumes "is_finite (sr_materialize_deletions_threshold r)"
  shows "decode_revision_columns (stored_row spec_columns (revision_row_values r name description)) sid rid fs xs =
    Inr (r\<lparr>sr_spec_id := sid, sr_spec_revision_id := rid, sr_fields := fs, sr_indexes := xs,
      sr_materialize_deletions_threshold := as_float (sr_materialize_deletions_threshold r)\<rparr>)"
  using assms
  by (simp add: decode_revision_columns_def row_readers stored_row_def spec_columns_def revision_row_values_def
      as_float_finite)

lemma validate_index_options:
  assumes "validate_index x = Inr ()"
  shows "(ix_type x = IVF_RQ) = (ix_vector_options x \<noteq> None)" "(ix_type x = INVERTED) = (ix_fts_options x \<noteq> None)"
    "\<And>o'. ix_vector_options x = Some o' \<Longrightarrow> validate_vector_options o' = Inr ()"
    "\<And>o'. ix_fts_options x = Some o' \<Longrightarrow> validate_fts_options o' = Inr ()"
  using assms by (auto simp: validate_index_def result_simps split: if_splits option.splits)

lemma vector_growth_finite: "validate_vector_options o' = Inr () \<Longrightarrow> is_finite (vo_retrain_growth_factor o')"
  by (auto simp: validate_vector_options_def result_simps)

lemma decode_index_row:
  assumes "validate_index x = Inr ()"
  shows "decode_index_definition (stored_row index_columns (index_row_values x)) = Inr (float_index x)"
proof (cases "ix_vector_options x")
  case None
  then have t: "ix_type x \<noteq> IVF_RQ" using validate_index_options(1) [OF assms] by simp
  show ?thesis
  proof (cases "ix_fts_options x")
    case no_fts: None
    then have "ix_type x \<noteq> INVERTED" using validate_index_options(2) [OF assms] by simp
    with t None no_fts show ?thesis
      by (simp add: decode_index_definition_def row_readers stored_row_def index_columns_def index_row_values_def
          vector_option_columns_def fts_option_columns_def float_index_def)
  next
    case (Some o')
    then have "ix_type x = INVERTED" using validate_index_options(2) [OF assms] by simp
    with None Some show ?thesis
      by (simp add: decode_index_definition_def decode_fts_options_def row_readers stored_row_def index_columns_def
          index_row_values_def vector_option_columns_def fts_option_columns_def fts_row_values_def float_index_def)
  qed
next
  case (Some o')
  then have t: "ix_type x = IVF_RQ" and fin: "is_finite (vo_retrain_growth_factor o')"
    using validate_index_options(1,3) [OF assms] vector_growth_finite by auto
  then have "ix_fts_options x = None" using validate_index_options(2) [OF assms] by simp
  with t Some fin show ?thesis
    by (simp add: decode_index_definition_def decode_vector_options_def row_readers stored_row_def index_columns_def
        index_row_values_def vector_option_columns_def fts_option_columns_def vector_row_values_def float_index_def
        float_options_def as_float_finite)
qed

section \<open>Refusals of an insert\<close>

lemma store_value_Inl: "store_value t v = Inl e \<Longrightarrow> e = DataError"
  by (cases "(t, v)" rule: store_value.cases) (auto simp: rbind_Inl_iff ensure_Inl_iff)

lemma store_columns:
  "rmap (\<lambda>(k, t, nullable). rbind (store_value t (case map_of vals k of None \<Rightarrow> PNone | Some v \<Rightarrow> v)) (\<lambda>v. Inr (k, v))) cols
     \<in> {Inr (stored_row cols vals), Inl DataError}"
proof (induction cols)
  case (Cons c cols)
  obtain k t n where c: "c = (k, t, n)" by (rule prod_cases3)
  let ?v = "case map_of vals k of None \<Rightarrow> PNone | Some v \<Rightarrow> v"
  show ?case
  proof (cases "store_value t ?v")
    case (Inl e)
    with store_value_Inl [OF Inl] show ?thesis by (simp add: c)
  next
    case (Inr w)
    with Cons store_value_stored_as [OF Inr] show ?thesis by (auto simp: c stored_row_def)
  qed
qed (simp add: stored_row_def)

lemma store_row_cases:
  assumes "list_all (\<lambda>(k, t, nullable). nullable \<or> map_of (stored_row cols vals) k \<noteq> Some PNone) cols"
    and "list_all check_passes (checks (stored_row cols vals))"
  shows "store_row cols checks vals \<in> {Inr (stored_row cols vals), Inl DataError}"
  using store_columns [of vals cols] assms unfolding store_row_def by auto

end
