(* ===== verification/Spec_Checks.thy ===== *)
theory Spec_Checks
  imports Spec_Roundtrip
begin

text \<open>
  Validation implies the schema: what the validation of a draft accepts satisfies every check and
  not-null constraint of the three specification tables, so that the database can refuse it only for a
  value out of range, a key or a reference.
\<close>

section \<open>Evaluating conditions\<close>

lemma sql_and_Some [simp]: "sql_and (Some a) (Some b) = Some (a \<and> b)"
  by (cases a; cases b) simp_all

lemma sql_or_Some [simp]: "sql_or (Some a) (Some b) = Some (a \<or> b)"
  by (cases a; cases b) simp_all

lemma sql_simps [simp]: "sql_not (Some a) = Some (\<not> a)" "sql_iff (Some a) (Some b) = Some (a = b)"
  "check_passes (Some a) = a" "check_passes None"
  by (simp_all add: sql_not_def sql_iff_def check_passes_def)

lemma sql_and_False [simp]: "sql_and b (Some False) = Some False"
  by (cases b) simp_all

lemma stored_row_lookup:
  "map_of (stored_row cols vals) k =
     map_option (\<lambda>(t, nullable). stored_as t (case map_of vals k of None \<Rightarrow> PNone | Some v \<Rightarrow> v)) (map_of cols k)"
  unfolding stored_row_def by (induction cols) auto

lemma optional_checks:
  assumes "col k r = Some (obj_opt PInt v)"
  shows "positive_or_null r k = Some (case v of None \<Rightarrow> True | Some n \<Rightarrow> 0 < n)"
    "sql_or (is_null r k) (int_is r k p) = Some (case v of None \<Rightarrow> True | Some n \<Rightarrow> p n)"
  using assms by (cases v; simp add: positive_or_null_def is_null_def int_is_def)+

lemma optional_text_check:
  assumes "col k r = Some (obj_opt PStr v)"
  shows "sql_or (is_null r k) (text_is r k p) = Some (case v of None \<Rightarrow> True | Some t \<Rightarrow> p t)"
  using assms by (cases v; simp add: is_null_def text_is_def)

lemma validate_optional_positive_iff [result_simps]:
  "validate_optional_positive v = Inr () \<longleftrightarrow> (case v of None \<Rightarrow> True | Some n \<Rightarrow> 1 \<le> n)"
  by (simp add: validate_optional_positive_def ensure_Inr_iff split: option.splits)

lemma validate_unit_iff [result_simps]:
  "validate_uuid u = Inr () \<longleftrightarrow> u \<noteq> 0" "validate_identifier s = Inr () \<longleftrightarrow> IDENTIFIER_PATTERN s"
  "validate_positive_integers vs = Inr () \<longleftrightarrow> (\<forall>v\<in>set vs. 1 \<le> v)" "validate_unique ys = Inr () \<longleftrightarrow> distinct ys"
  by (auto simp: validate_uuid_def EMPTY_UUID_def validate_identifier_def validate_positive_integers_def validate_unique_def
      ensure_Inr_iff list_all_iff)

abbreviation revision_row :: "dataset_spec_revision \<Rightarrow> string \<Rightarrow> string option \<Rightarrow> rowmap" where
  "revision_row r name description \<equiv> stored_row spec_columns (revision_row_values r name description)"

lemma revision_row_cols:
  "col ''state'' (revision_row r n d) = Some (PStr (enum_text spec_revision_states (sr_state r)))"
  "col ''name'' (revision_row r n d) = Some (PStr n)"
  "col ''description'' (revision_row r n d) = Some (obj_opt PStr d)"
  "col ''spec_revision_id'' (revision_row r n d) = Some (PUuid (sr_spec_revision_id r))"
  "col ''spec_id'' (revision_row r n d) = Some (PUuid (sr_spec_id r))"
  "col ''revision_number'' (revision_row r n d) = Some (PInt (sr_revision_number r))"
  "col ''supersedes_revision_id'' (revision_row r n d) = Some (obj_opt PUuid (sr_supersedes_revision_id r))"
  "col ''configuration_digest'' (revision_row r n d) = Some (PBytes (sr_configuration_digest r))"
  "col ''activated_at'' (revision_row r n d) = Some PNone"
  "col ''ingest_shuffle_partitions'' (revision_row r n d) = Some (PInt (sr_ingest_shuffle_partitions r))"
  "col ''merge_rows_per_chunk'' (revision_row r n d) = Some (PInt (sr_merge_rows_per_chunk r))"
  "col ''merge_batch_bytes'' (revision_row r n d) = Some (PInt (sr_merge_batch_bytes r))"
  "col ''write_rows_per_fragment'' (revision_row r n d) = Some (PInt (sr_write_rows_per_fragment r))"
  "col ''compaction_mode'' (revision_row r n d) = Some (PStr (enum_text compaction_modes (sr_compaction_mode r)))"
  "col ''target_rows_per_fragment'' (revision_row r n d) = Some (PInt (sr_target_rows_per_fragment r))"
  "col ''max_source_fragments'' (revision_row r n d) = Some (obj_opt PInt (sr_max_source_fragments r))"
  "col ''compaction_threads'' (revision_row r n d) = Some (obj_opt PInt (sr_compaction_threads r))"
  "col ''materialize_deletions_threshold'' (revision_row r n d) =
     Some (stored_as (NumericColumn 5 4) (obj_number (sr_materialize_deletions_threshold r)))"
  "col ''cleanup_older_than_seconds'' (revision_row r n d) = Some (obj_opt PInt (sr_cleanup_older_than_seconds r))"
  "col ''retain_versions'' (revision_row r n d) = Some (obj_opt PInt (sr_retain_versions r))"
  "col ''fragments_per_index_task'' (revision_row r n d) = Some (PInt (sr_fragments_per_index_task r))"
  "col ''max_index_deltas'' (revision_row r n d) = Some (PInt (sr_max_index_deltas r))"
  "col ''max_stale_replans'' (revision_row r n d) = Some (PInt (sr_max_stale_replans r))"
  "col ''retained_publications'' (revision_row r n d) = Some (PInt (sr_retained_publications r))"
  "col ''artifact_retention_seconds'' (revision_row r n d) = Some (PInt (sr_artifact_retention_seconds r))"
  "col ''record_retention_seconds'' (revision_row r n d) = Some (obj_opt PInt (sr_record_retention_seconds r))"
  by (simp_all add: stored_row_lookup spec_columns_def revision_row_values_def)

lemma number_check:
  assumes "col k r = Some (stored_as (NumericColumn p s) (obj_number n))" and "is_finite n"
  shows "numeric_is r k q = Some (q (number_value n))"
  using assms by (cases n) (simp_all add: numeric_is_def is_finite_def number_value_def)

lemma stored_number_not_null [simp]: "is_finite n \<Longrightarrow> stored_as (NumericColumn p s) (obj_number n) \<noteq> PNone"
  by (cases n) (simp_all add: is_finite_def)

lemma not_blank_btrim: "\<not> is_blank d \<Longrightarrow> strip_where (\<lambda>c. c = CHR '' '') d \<noteq> []"
proof -
  have "is_space CHR '' ''" by (simp add: is_space_def)
  then show "\<not> is_blank d \<Longrightarrow> strip_where (\<lambda>c. c = CHR '' '') d \<noteq> []"
    unfolding is_blank_def py_strip_def strip_where_Nil_iff by metis
qed

lemma spec_checks_pass:
  assumes "sr_state r = SPEC_DRAFT" and "validate_operational_settings r = Inr ()" and "1 \<le> sr_revision_number r"
    and "length (sr_configuration_digest r) = 32" and "sr_supersedes_revision_id r \<noteq> Some (sr_spec_revision_id r)"
    and "SOURCE_NAME_PATTERN name" and "case description of None \<Rightarrow> True | Some d \<Rightarrow> \<not> is_blank d"
  shows "list_all check_passes (spec_checks (revision_row r name description))"
proof -
  let ?row = "revision_row r name description"
  have fin: "is_finite (sr_materialize_deletions_threshold r)"
    using assms(2) by (simp add: validate_operational_settings_def result_simps)
  have mode: "enum_text compaction_modes (sr_compaction_mode r) \<in> {''try_binary_copy'', ''reencode''}"
    by (cases "sr_compaction_mode r") (simp_all add: enum_text_def compaction_modes_def)
  have super: "obj_opt PUuid (sr_supersedes_revision_id r) \<noteq> PUuid (sr_spec_revision_id r)"
    using assms(5) by (cases "sr_supersedes_revision_id r") simp_all
  have descr: "case description of None \<Rightarrow> True | Some d \<Rightarrow> strip_where (\<lambda>c. c = CHR '' '') d \<noteq> []"
    using assms(7) not_blank_btrim by (cases description) simp_all
  show ?thesis
    using assms fin mode super descr
    by (simp add: spec_checks_def optional_checks [OF revision_row_cols(16)] optional_checks [OF revision_row_cols(17)]
        optional_checks [OF revision_row_cols(19)] optional_checks [OF revision_row_cols(20)]
        optional_checks [OF revision_row_cols(26)] optional_text_check [OF revision_row_cols(3)]
        number_check [OF revision_row_cols(18) fin] text_is_def int_is_def bytes_is_def is_null_def revision_row_cols
        validate_operational_settings_def result_simps enum_text_def spec_revision_states_def split: option.splits)
qed

lemma spec_not_null:
  assumes "is_finite (sr_materialize_deletions_threshold r)"
  shows "list_all (\<lambda>(k, t, nullable). nullable \<or> map_of (revision_row r name description) k \<noteq> Some PNone) spec_columns"
  using assms by (simp add: stored_row_lookup spec_columns_def revision_row_values_def)

section \<open>Fields\<close>

text \<open>The physical type of a vector of a dimension.\<close>

definition vector_type_of :: "int \<Rightarrow> string" where
  "vector_type_of n = ''fixed_size_list<float32,'' @ show_int n @ ''>''"

lemma vector_type_text:
  assumes "vector_type_group t = Some g" and "py_int 10 g = Some n"
  shows "t = vector_type_of n"
proof -
  let ?p = "''fixed_size_list<float32,''"
  from assms(1) have pre: "has_prefix ?p t" and suf: "has_suffix ''>'' t" and g: "g = butlast (drop (length ?p) t)"
    and dig: "g \<noteq> []" "hd g \<in> set ''123456789''" "list_all (\<lambda>c. c \<in> set ''0123456789'') g"
    unfolding vector_type_group_def Let_def by (auto split: if_splits simp del: has_prefix.simps)
  from pre obtain u where u: "t = ?p @ u" by (auto simp: has_prefix_iff)
  with g have gu: "g = butlast u" by simp
  then have "u \<noteq> []" using dig(1) by auto
  moreover have "last u = CHR ''>''"
    using suf calculation u unfolding has_suffix_def by (cases u rule: rev_cases) simp_all
  ultimately have t: "t = ?p @ g @ ''>''" using u gu by (metis append_butlast_last_id)
  from show_nat_of_digits [OF dig] obtain m where m: "show_nat m = g" by blast
  with py_int_show_nat_limit [of m] assms(2) have "n = int m" by (simp split: if_splits)
  with t m show ?thesis by (simp add: show_int_def vector_type_of_def)
qed

abbreviation field_row :: "dataset_field \<Rightarrow> rowmap" where
  "field_row f \<equiv> stored_row field_columns (field_row_values f)"

lemma field_row_cols:
  "col ''field_id'' (field_row f) = Some (PUuid (df_field_id f))"
  "col ''spec_revision_id'' (field_row f) = Some (PUuid (df_spec_revision_id f))"
  "col ''ordinal'' (field_row f) = Some (PInt (df_ordinal f))"
  "col ''target_name'' (field_row f) = Some (PStr (df_target_name f))"
  "col ''role'' (field_row f) = Some (PStr (enum_text field_roles (df_role f)))"
  "col ''source_kind'' (field_row f) = Some (PStr (enum_text source_kinds (df_source_kind f)))"
  "col ''source_column'' (field_row f) = Some (PStr (df_source_column f))"
  "col ''source_key'' (field_row f) = Some (obj_opt PStr (df_source_key f))"
  "col ''data_type'' (field_row f) = Some (PStr (df_data_type f))"
  "col ''nullable'' (field_row f) = Some (PBool (df_nullable f))"
  "col ''required_on_upsert'' (field_row f) = Some (PBool (df_required_on_upsert f))"
  "col ''vector_dimension'' (field_row f) = Some (obj_opt PInt (df_vector_dimension f))"
  by (simp_all add: stored_row_lookup field_columns_def field_row_values_def)

text \<open>The names of derived fields, which the validation of the revision settles.\<close>

definition derived_names_ok :: "dataset_field \<Rightarrow> bool" where
  "derived_names_ok f =
     ((df_role f = TOMBSTONE \<longrightarrow> df_target_name f = ''is_deleted'') \<and>
      (df_role f = LINEAGE \<longrightarrow> (df_target_name f, df_data_type f) \<in> set expected_lineage))"

lemmas field_evaluation = field_checks_def text_is_def int_is_def is_null_def not_null_def bool_is_def texts_eq_def
  field_row_cols sql_any_def sql_all_def enum_text_def field_roles_def source_kinds_def

lemma validate_field_facts:
  assumes "validate_field f = Inr ()"
  shows "0 \<le> df_ordinal f" "IDENTIFIER_PATTERN (df_target_name f)" "IDENTIFIER_PATTERN (df_source_column f)"
    "(df_nullable f, df_required_on_upsert f) = expected_flags (df_role f)"
    "\<And>m. map_column (df_role f) = Some m \<Longrightarrow>
       df_source_kind f = MAP_KEY \<and> df_source_column f = m \<and> df_source_key f = Some (df_target_name f)"
    "df_role f \<in> {TOMBSTONE, LINEAGE} \<Longrightarrow>
       df_source_kind f = DERIVED \<and> df_source_column f = df_target_name f \<and> df_source_key f = None"
    "\<And>m. canonical_direct_column (df_role f) = Some m \<Longrightarrow>
       df_source_kind f = DIRECT \<and> df_target_name f = m \<and> df_source_column f = m \<and> df_source_key f = None"
    "\<And>t. required_type (df_role f) = Some t \<Longrightarrow> df_data_type f = t"
    "df_role f \<noteq> VECTOR \<Longrightarrow> df_vector_dimension f = None"
    "df_role f = VECTOR \<Longrightarrow> \<exists>n. df_vector_dimension f = Some n \<and> 8 \<le> n \<and> n mod 8 = 0 \<and>
       df_data_type f = vector_type_of n"
proof -
  note v = assms [unfolded validate_field_def, simplified result_simps]
  from v have map: "validate_source_mapping f = Inr ()" and type: "validate_role_type f = Inr ()" by auto
  from v show "0 \<le> df_ordinal f" "IDENTIFIER_PATTERN (df_target_name f)" "IDENTIFIER_PATTERN (df_source_column f)"
    by (auto simp: validate_unit_iff)
  note m = map [unfolded validate_source_mapping_def, simplified result_simps]
  note t = type [unfolded validate_role_type_def, simplified result_simps]
  from t show "(df_nullable f, df_required_on_upsert f) = expected_flags (df_role f)" by auto
  from t show "\<And>t. required_type (df_role f) = Some t \<Longrightarrow> df_data_type f = t"
    "df_role f \<noteq> VECTOR \<Longrightarrow> df_vector_dimension f = None" by (auto simp: ensure_Inr_iff)
  from m show "df_role f \<in> {TOMBSTONE, LINEAGE} \<Longrightarrow>
       df_source_kind f = DERIVED \<and> df_source_column f = df_target_name f \<and> df_source_key f = None"
    by (auto simp: ensure_Inr_iff split: if_splits)
  from m show "\<And>m. map_column (df_role f) = Some m \<Longrightarrow>
       df_source_kind f = MAP_KEY \<and> df_source_column f = m \<and> df_source_key f = Some (df_target_name f)"
    by (auto simp: ensure_Inr_iff split: if_splits)
  from m show "\<And>m. canonical_direct_column (df_role f) = Some m \<Longrightarrow>
       df_source_kind f = DIRECT \<and> df_target_name f = m \<and> df_source_column f = m \<and> df_source_key f = None"
    by (cases "df_role f") (auto simp: ensure_Inr_iff split: if_splits)
  assume "df_role f = VECTOR"
  with t show "\<exists>n. df_vector_dimension f = Some n \<and> 8 \<le> n \<and> n mod 8 = 0 \<and>
       df_data_type f = vector_type_of n"
    by (auto simp: result_simps vector_type_text split: option.splits)
qed

lemma field_checks_pass:
  assumes "validate_field f = Inr ()" and "derived_names_ok f"
  shows "list_all check_passes (field_checks (field_row f))"
proof -
  note facts = validate_field_facts [OF assms(1)]
  show ?thesis
  proof (cases "df_role f")
    case VECTOR
    from facts(10) [OF this] obtain n where "df_vector_dimension f = Some n" "8 \<le> n" "n mod 8 = 0"
      "df_data_type f = vector_type_of n" by auto
    moreover have "df_source_kind f = MAP_KEY" "df_source_column f = ''vectors''" "df_source_key f = Some (df_target_name f)"
      using facts(5) [of "''vectors''"] VECTOR by simp_all
    ultimately show ?thesis using VECTOR facts(1-4) by (simp add: field_evaluation vector_type_of_def)
  next
    case LINEAGE
    then have "(df_target_name f, df_data_type f) \<in> set expected_lineage" using assms(2) by (simp add: derived_names_ok_def)
    with LINEAGE facts(1-4,6,9) show ?thesis by (auto simp: field_evaluation expected_lineage_def)
  next
    case TOMBSTONE
    then have "df_target_name f = ''is_deleted''" using assms(2) by (simp add: derived_names_ok_def)
    with TOMBSTONE facts(1-4,6,8,9) show ?thesis by (simp add: field_evaluation)
  qed (use facts(1-5,7-9) in \<open>simp add: field_evaluation\<close>)+
qed

lemma field_not_null:
  "list_all (\<lambda>(k, t, nullable). nullable \<or> map_of (field_row f) k \<noteq> Some PNone) field_columns"
  by (simp add: stored_row_lookup field_columns_def field_row_values_def)

section \<open>Indexes\<close>

abbreviation index_row :: "index_definition \<Rightarrow> rowmap" where
  "index_row x \<equiv> stored_row index_columns (index_row_values x)"

lemmas index_row_evaluation = stored_row_lookup index_columns_def index_row_values_def vector_option_columns_def
  fts_option_columns_def vector_row_values_def fts_row_values_def

lemma index_row_cols:
  "col ''index_definition_id'' (index_row x) = Some (PUuid (ix_definition_id x))"
  "col ''spec_revision_id'' (index_row x) = Some (PUuid (ix_spec_revision_id x))"
  "col ''field_id'' (index_row x) = Some (PUuid (ix_field_id x))"
  "col ''ordinal'' (index_row x) = Some (PInt (ix_ordinal x))"
  "col ''index_name'' (index_row x) = Some (PStr (ix_name x))"
  "col ''index_type'' (index_row x) = Some (PStr (enum_text index_types (ix_type x)))"
  by (simp_all add: index_row_evaluation)

lemma index_row_no_vector:
  assumes "ix_vector_options x = None"
  shows "col ''metric'' (index_row x) = Some PNone"
    "col ''num_partitions'' (index_row x) = Some PNone"
    "col ''minimum_partitions'' (index_row x) = Some PNone"
    "col ''maximum_partitions'' (index_row x) = Some PNone"
    "col ''target_rows_per_partition'' (index_row x) = Some PNone"
    "col ''minimum_rows'' (index_row x) = Some PNone"
    "col ''num_bits'' (index_row x) = Some PNone"
    "col ''streaming_sample_rate'' (index_row x) = Some PNone"
    "col ''streaming_refine_passes'' (index_row x) = Some PNone"
    "col ''retrain_growth_factor'' (index_row x) = Some PNone"
  using assms by (simp_all add: index_row_evaluation)

lemma index_row_no_fts:
  assumes "ix_fts_options x = None"
  shows "col ''with_position'' (index_row x) = Some PNone"
    "col ''base_tokenizer'' (index_row x) = Some PNone"
    "col ''language'' (index_row x) = Some PNone"
    "col ''max_unindexed_fragments'' (index_row x) = Some PNone"
  using assms by (cases "ix_vector_options x"; simp add: index_row_evaluation)+

lemma index_row_vector:
  assumes "ix_vector_options x = Some o'"
  shows "col ''metric'' (index_row x) = Some (PStr (enum_text vector_metrics (vo_metric o')))"
    "col ''num_partitions'' (index_row x) = Some (obj_opt PInt (vo_num_partitions o'))"
    "col ''minimum_partitions'' (index_row x) = Some (PInt (vo_minimum_partitions o'))"
    "col ''maximum_partitions'' (index_row x) = Some (PInt (vo_maximum_partitions o'))"
    "col ''target_rows_per_partition'' (index_row x) = Some (PInt (vo_target_rows_per_partition o'))"
    "col ''minimum_rows'' (index_row x) = Some (PInt (vo_minimum_rows o'))"
    "col ''num_bits'' (index_row x) = Some (PInt (vo_num_bits o'))"
    "col ''streaming_sample_rate'' (index_row x) = Some (PInt (vo_streaming_sample_rate o'))"
    "col ''streaming_refine_passes'' (index_row x) = Some (PInt (vo_streaming_refine_passes o'))"
    "col ''retrain_growth_factor'' (index_row x) =
       Some (stored_as (NumericColumn 8 4) (obj_number (vo_retrain_growth_factor o')))"
  using assms by (simp_all add: index_row_evaluation)

lemma index_row_fts:
  assumes "ix_fts_options x = Some o'" and "ix_vector_options x = None"
  shows "col ''with_position'' (index_row x) = Some (PBool (fo_with_position o'))"
    "col ''base_tokenizer'' (index_row x) = Some (obj_opt PStr (fo_base_tokenizer o'))"
    "col ''language'' (index_row x) = Some (obj_opt PStr (fo_language o'))"
    "col ''max_unindexed_fragments'' (index_row x) = Some (PInt (fo_max_unindexed_fragments o'))"
  using assms by (simp_all add: index_row_evaluation)

lemmas index_evaluation = index_checks_def text_is_def int_is_def is_null_def not_null_def all_null_def none_null_def
  ints_rel_def positive_or_null_def sql_any_def sql_all_def vector_option_columns_def fts_option_columns_def
  enum_text_def index_types_def vector_metrics_def

lemma index_checks_pass:
  assumes "validate_index x = Inr ()"
  shows "list_all check_passes (index_checks (index_row x))"
proof -
  have base: "0 \<le> ix_ordinal x" "IDENTIFIER_PATTERN (ix_name x)"
    using assms by (auto simp: validate_index_def result_simps)
  consider (plain) "ix_vector_options x = None" "ix_fts_options x = None" "ix_type x \<in> {BTREE, BITMAP, ZONEMAP}"
    | (vector) v where "ix_vector_options x = Some v" "ix_fts_options x = None" "ix_type x = IVF_RQ"
        "validate_vector_options v = Inr ()"
    | (fts) f where "ix_fts_options x = Some f" "ix_vector_options x = None" "ix_type x = INVERTED"
        "validate_fts_options f = Inr ()"
    using validate_index_options [OF assms] by (cases "ix_type x") auto
  then show ?thesis
  proof cases
    case plain
    with base show ?thesis
      by (auto simp: index_evaluation index_row_cols index_row_no_vector index_row_no_fts)
  next
    case vector
    have fin: "is_finite (vo_retrain_growth_factor v)" by (rule vector_growth_finite [OF vector(4)])
    have metric: "enum_text vector_metrics (vo_metric v) \<in> set (map fst vector_metrics)"
      by (cases "vo_metric v") (simp_all add: enum_text_def vector_metrics_def)
    have "1 \<le> vo_minimum_partitions v" "vo_minimum_partitions v \<le> vo_maximum_partitions v"
      "1 \<le> vo_target_rows_per_partition v" "0 \<le> vo_minimum_rows v" "1 \<le> vo_num_bits v" "1 \<le> vo_streaming_sample_rate v"
      "0 \<le> vo_streaming_refine_passes v" "1 < number_value (vo_retrain_growth_factor v)"
      "case vo_num_partitions v of None \<Rightarrow> True | Some n \<Rightarrow> 1 \<le> n \<and> vo_minimum_partitions v \<le> n \<and> n \<le> vo_maximum_partitions v"
      using vector(4) by (auto simp: validate_vector_options_def result_simps split: option.splits)
    with vector base metric fin show ?thesis
      by (cases "vo_num_partitions v")
        (simp_all add: index_evaluation index_row_cols index_row_vector [OF vector(1)] index_row_no_fts [OF vector(2)]
          number_check [OF index_row_vector(10) [OF vector(1)] fin])
  next
    case fts
    have "0 \<le> fo_max_unindexed_fragments f"
      "case fo_base_tokenizer f of None \<Rightarrow> True | Some t \<Rightarrow> t \<noteq> []" "case fo_language f of None \<Rightarrow> True | Some t \<Rightarrow> t \<noteq> []"
      using fts(4) by (auto simp: validate_fts_options_def validate_optional_text_def result_simps is_blank_def py_strip_def
          strip_where_def split: option.splits)
    with fts base show ?thesis
      by (simp add: index_evaluation index_row_cols index_row_no_vector [OF fts(2)] index_row_fts [OF fts(1,2)]
          optional_text_check [OF index_row_fts(2) [OF fts(1,2)], unfolded text_is_def is_null_def]
          optional_text_check [OF index_row_fts(3) [OF fts(1,2)], unfolded text_is_def is_null_def] split: option.splits)
  qed
qed

lemma index_not_null:
  "list_all (\<lambda>(k, t, nullable). nullable \<or> map_of (index_row x) k \<noteq> Some PNone) index_columns"
  by (simp add: index_row_evaluation)

text \<open>
  The checks do not imply validity. In three-valued logic the shape check of a vector field without a
  dimension evaluates to unknown, which the database accepts, while \<open>DatasetField.validate\<close> refuses it.
\<close>

definition shapeless_vector :: dataset_field where
  "shapeless_vector = \<lparr>df_field_id = 1, df_spec_revision_id = 2, df_ordinal = 0, df_target_name = ''v'', df_role = VECTOR,
     df_source_kind = MAP_KEY, df_source_column = ''vectors'', df_source_key = Some ''v'', df_data_type = ''string'',
     df_nullable = True, df_required_on_upsert = True, df_vector_dimension = None\<rparr>"

lemma shapeless_vector_accepted:
  "list_all check_passes (field_checks (field_row_values shapeless_vector)) \<and> validate_field shapeless_vector = Inl ValueError"
  by code_simp

end
