(* ===== verification/Spec_Lifecycle.thy ===== *)
theory Spec_Lifecycle
  imports System Spec_Store Spec_Checks
begin

text \<open>
  The specification operations as transactions of the control plane: they change only the
  specification tables and the default of a source, hence are configuration steps of the abstract
  protocol and keep every fence.
\<close>

lemma step_configures:
  assumes "constraints_ok (s\<lparr>t_specs := spx, t_fields := fs, t_indexes := ix\<rparr>)"
  shows "cp_step s (s\<lparr>t_specs := spx, t_fields := fs, t_indexes := ix\<rparr>)"
  by (rule cp_step.configures [where src = "t_sources s" and spx = spx and fs = fs and ix = ix]) (use assms in auto)

lemma checked_specs_Inr_iff [result_simps]:
  "checked_specs s = Inr s' \<longleftrightarrow> s' = s \<and> constraints_ok s \<and> singleton_roles (t_fields s)"
  by (auto simp: checked_specs_def result_simps)

lemma create_draft_effect:
  assumes "create_draft_spec_revision sha256 fr r name description s = Inr (p, s')"
  shows "s' = s \<or> (\<exists>spx fs ix. s' = s\<lparr>t_specs := spx, t_fields := fs, t_indexes := ix\<rparr> \<and> constraints_ok s')"
  using assms unfolding create_draft_spec_revision_def insert_revision_def insert_fields_def insert_index_definitions_def
  by (auto simp: result_simps split: if_splits)

lemma activate_effect:
  assumes "activate_spec_revision sha256 fr rid now s = Inr (r, s')"
  shows "s' = s \<or> (\<exists>spx. s' = s\<lparr>t_specs := spx\<rparr> \<and> constraints_ok s')"
  using assms unfolding activate_spec_revision_def
  by (auto simp: result_simps split: if_splits option.splits)

lemma create_draft_refines [refines]:
  assumes "create_draft_spec_revision sha256 fr r name description s = Inr (p, s')"
  shows "cp_steps s s'"
  using create_draft_effect [OF assms] step_configures by (metis r_into_rtranclp rtranclp.rtrancl_refl)

lemma activate_refines [refines]:
  assumes "activate_spec_revision sha256 fr rid now s = Inr (r, s')"
  shows "cp_steps s s'"
proof -
  from activate_effect [OF assms] consider "s' = s" | spx where "s' = s\<lparr>t_specs := spx\<rparr>" "constraints_ok s'" by blast
  then show ?thesis
  proof cases
    case 2
    then have "cp_step s (s\<lparr>t_specs := spx, t_fields := t_fields s, t_indexes := t_indexes s\<rparr>)"
      by (intro step_configures) simp
    with 2 show ?thesis by simp
  qed simp
qed

lemma set_source_default_effect:
  assumes "set_source_default_spec source spec s = Inr (src, s')"
  shows "s' = s\<lparr>t_sources := update_where (\<lambda>r. r_id r = source) (\<lambda>r. r\<lparr>r_default_spec := spec\<rparr>) (t_sources s)\<rparr>"
    "constraints_ok s'"
  using assms by (auto simp: set_source_default_spec_def result_simps split: option.splits)

lemma set_source_default_refines [refines]:
  assumes "set_source_default_spec source spec s = Inr (src, s')"
  shows "cp_steps s s'"
proof -
  note e = set_source_default_effect [OF assms]
  let ?f = "\<lambda>r. if r_id r = source then r\<lparr>r_default_spec := spec\<rparr> else r"
  have "cp_step s s'" unfolding e(1)
  proof (rule step_sources)
    show "constraints_ok (s\<lparr>t_sources := update_where (\<lambda>r. r_id r = source) (\<lambda>r. r\<lparr>r_default_spec := spec\<rparr>) (t_sources s)\<rparr>)"
      using e(2) unfolding e(1) .
    show "\<exists>r'\<in>set (update_where (\<lambda>r. r_id r = source) (\<lambda>r. r\<lparr>r_default_spec := spec\<rparr>) (t_sources s)).
        r_id r' = r_id r \<and> r_epoch r \<le> r_epoch r'" if "r \<in> set (t_sources s)" for r
      unfolding set_update_where by (rule bexI [where x = "?f r"]) (use that in auto)
  qed
  then show ?thesis by (rule r_into_rtranclp)
qed

lemma create_draft_fences [fences]:
  "create_draft_spec_revision sha256 fr r name description s = Inr (p, s') \<Longrightarrow> fences_kept s s'"
  by (drule create_draft_effect) (auto intro: fences_kept_same)

lemma activate_fences [fences]: "activate_spec_revision sha256 fr rid now s = Inr (r, s') \<Longrightarrow> fences_kept s s'"
  by (drule activate_effect) (auto intro: fences_kept_same)

lemma set_source_default_fences [fences]: "set_source_default_spec source spec s = Inr (src, s') \<Longrightarrow> fences_kept s s'"
  by (drule set_source_default_effect(1)) (auto intro: fences_kept_same)

end
