(* ===== verification/Operations.thy ===== *)
theory Operations
  imports Claiming Spec_Lifecycle
begin

text \<open>
  The transactions of the control plane as the operations of a system. A state is the database with
  the claims issued so far; an operation under a claim uses an issued one, and the tokens a claim call
  draws are new. A transaction that raises is rolled back and is no step.
\<close>

datatype cp_op =
    Register string string uuid "int option" string int
  | Enqueue snapshot_plan "routing_identity list" int
  | Enqueue_Blocked snapshot_plan string "string option" int
  | Block_Source int string "string option" "int option" int
  | Retry_Source int int
  | is_Claim: Claim "uuid \<Rightarrow> uuid" "uuid \<Rightarrow> bool" "uuid \<Rightarrow> bool" int int int
  | Renew work_claim int int
  | Advance work_claim work_phase "string option" "int option" "string option" "bytes option" int
  | Retry work_claim int string string int int
  | Block work_claim string string int
  | Retry_Blocked uuid int
  | Complete_Ingest work_claim int int bytes int
  | Publish_Dataset work_claim string int string bytes publication_evidence int
  | Rebuild routing_identity uuid int
  | Assign uuid uuid int
  | Finalize publication_cleanup
  | Audit int int
  | Create_Draft "bytes \<Rightarrow> bytes" "rat \<Rightarrow> string" dataset_spec_revision string "string option"
  | Activate "bytes \<Rightarrow> bytes" "rat \<Rightarrow> string" uuid int
  | Set_Default uuid uuid

definition no_claims :: "('a \<times> db) result \<Rightarrow> (work_claim list \<times> db) result" where
  "no_claims r = rbind r (\<lambda>(x, s). Inr ([], s))"

fun exec_op :: "(bytes \<Rightarrow> bytes) \<Rightarrow> cp_op \<Rightarrow> db \<Rightarrow> (work_claim list \<times> db) result" where
  "exec_op sha1 (Register name tbl tu b base now) s =
     no_claims (ensure_source_registration sha1 name tbl tu b base now s)"
| "exec_op sha1 (Enqueue p routes now) s = no_claims (enqueue_source_snapshot sha1 p routes now s)"
| "exec_op sha1 (Enqueue_Blocked p ec em now) s = no_claims (enqueue_blocked_source_snapshot p ec em now s)"
| "exec_op sha1 (Block_Source q ec em epoch now) s = no_claims (block_source_snapshot q ec em epoch now s)"
| "exec_op sha1 (Retry_Source q now) s = no_claims (retry_blocked_source_snapshot q now s)"
| "exec_op sha1 (Claim tok lockw lockd limit duration now) s = claim_due_work tok lockw lockd limit duration now s"
| "exec_op sha1 (Renew c duration now) s = no_claims (renew_lease c duration now s)"
| "exec_op sha1 (Advance c ph u v m g now) s = no_claims (advance_phase c ph u v m g now s)"
| "exec_op sha1 (Retry c delay ec em n now) s = no_claims (retry_work c delay ec em n now s)"
| "exec_op sha1 (Block c ec em now) s = no_claims (block_work c ec em now s)"
| "exec_op sha1 (Retry_Blocked wid now) s = no_claims (retry_blocked_work wid now s)"
| "exec_op sha1 (Complete_Ingest c v n g now) s = no_claims (complete_ingest sha1 c v n g now s)"
| "exec_op sha1 (Publish_Dataset c u v m g ev now) s = no_claims (publish_dataset sha1 c u v m g ev now s)"
| "exec_op sha1 (Rebuild route req now) s = no_claims (enqueue_rebuild sha1 route req now s)"
| "exec_op sha1 (Assign did spec now) s = no_claims (assign_dataset_spec_revision sha1 did spec now s)"
| "exec_op sha1 (Finalize k) s = no_claims (finalize_publication_cleanup k s)"
| "exec_op sha1 (Audit before limit) s = no_claims (delete_completed_audit before limit s)"
| "exec_op sha1 (Create_Draft sha256 float_repr r name description) s =
     no_claims (create_draft_spec_revision sha256 float_repr r name description s)"
| "exec_op sha1 (Activate sha256 float_repr rid now) s =
     no_claims (activate_spec_revision sha256 float_repr rid now s)"
| "exec_op sha1 (Set_Default source spec) s = no_claims (set_source_default_spec source spec s)"

fun op_claim :: "cp_op \<Rightarrow> work_claim option" where
  "op_claim (Renew c duration now) = Some c"
| "op_claim (Advance c ph u v m g now) = Some c"
| "op_claim (Retry c delay ec em n now) = Some c"
| "op_claim (Block c ec em now) = Some c"
| "op_claim (Complete_Ingest c v n g now) = Some c"
| "op_claim (Publish_Dataset c u v m g ev now) = Some c"
| "op_claim op = None"

fun fresh_tokens :: "cp_op \<Rightarrow> work_claim list \<Rightarrow> db \<Rightarrow> bool" where
  "fresh_tokens (Claim tok lockw lockd limit duration now) issued s =
     (distinct (map (\<lambda>w. tok (w_id w)) (t_work s)) \<and>
      list_all (\<lambda>w. tok (w_id w) \<notin> c_token ` set issued) (t_work s))"
| "fresh_tokens op issued s = True"

definition permitted :: "cp_op \<Rightarrow> work_claim list \<Rightarrow> db \<Rightarrow> bool" where
  "permitted op issued s =
     ((case op_claim op of None \<Rightarrow> True | Some c \<Rightarrow> c \<in> set issued) \<and> fresh_tokens op issued s)"

inductive sys_step :: "(bytes \<Rightarrow> bytes) \<Rightarrow> db \<times> work_claim list \<Rightarrow> db \<times> work_claim list \<Rightarrow> bool" for sha1 where
  transact: "permitted op issued s \<Longrightarrow> exec_op sha1 op s = Inr (new, s') \<Longrightarrow> sys_step sha1 (s, issued) (s', issued @ new)"

inductive_cases sys_stepE: "sys_step sha1 (s, issued) t"

abbreviation sys_steps :: "(bytes \<Rightarrow> bytes) \<Rightarrow> db \<times> work_claim list \<Rightarrow> db \<times> work_claim list \<Rightarrow> bool" where
  "sys_steps sha1 \<equiv> (sys_step sha1)\<^sup>*\<^sup>*"

definition sys_reachable :: "(bytes \<Rightarrow> bytes) \<Rightarrow> db \<Rightarrow> work_claim list \<Rightarrow> bool" where
  "sys_reachable sha1 s issued = (\<exists>s0. initial_db s0 \<and> sys_steps sha1 (s0, []) (s, issued))"

section \<open>The system invariant\<close>

definition running_accounted :: "db \<Rightarrow> work_claim list \<Rightarrow> bool" where
  "running_accounted s issued =
     (\<forall>w\<in>set (t_work s). w_state w = RUNNING \<longrightarrow>
        (\<exists>c\<in>set issued. w_token w = Some (c_token c) \<and> c_work c = w_id w \<and> c_dataset c = w_dataset w \<and>
           c_kind c = w_kind w))"

definition sys_inv :: "db \<Rightarrow> work_claim list \<Rightarrow> bool" where
  "sys_inv s issued =
     (cp_inv s \<and> running_accounted s issued \<and> inj_on c_token (set issued) \<and> (\<forall>c\<in>set issued. fence_reached s c))"

lemma sys_inv_claim_matches: "sys_inv s issued \<Longrightarrow> c \<in> set issued \<Longrightarrow> claim_matches s c"
  unfolding sys_inv_def running_accounted_def claim_matches_def list_all_iff
  by (metis inj_onD option.inject)

lemma no_claims_Inr: "no_claims r = Inr (new, s') \<longleftrightarrow> new = [] \<and> (\<exists>x. r = Inr (x, s'))"
  by (auto simp: no_claims_def rbind_Inr_iff)

lemma exec_op_refines:
  assumes "exec_op sha1 op s = Inr (new, s')" and "sys_inv s issued" and "permitted op issued s"
  shows "cp_steps s s'"
proof -
  have inv: "cp_inv s" and ok: "constraints_ok s" using assms(2) by (simp_all add: sys_inv_def cp_inv_def)
  have m: "claim_matches s c" if "op_claim op = Some c" for c
    using assms(2,3) that sys_inv_claim_matches by (simp add: permitted_def)
  show ?thesis
    using assms(1) m inv ok by (cases op) (auto simp: no_claims_Inr intro: refines)
qed

lemma exec_op_fences:
  assumes "exec_op sha1 op s = Inr (new, s')" and "\<not> is_Claim op"
  shows "fences_kept s s' \<and> new = []"
  using assms by (cases op) (auto simp: no_claims_Inr intro: fences)

lemma claim_held_fence: "claim_held s c \<Longrightarrow> fence_reached s c"
  by (auto simp: claim_held_def fence_reached_def exists_where_iff)

lemma running_accounted_kept:
  assumes "running_accounted s issued" and "cp_steps s s'" and "cp_inv s" and "fences_kept s s'"
  shows "running_accounted s' issued"
  unfolding running_accounted_def
proof (intro ballI impI)
  fix v assume v: "v \<in> set (t_work s')" "w_state v = RUNNING"
  from running_kept_steps [OF assms(2-4) v] obtain w where "w \<in> set (t_work s)" "w_state w = RUNNING"
    "w_token w = w_token v" "work_identity w = work_identity v" by blast
  with assms(1) show "\<exists>c\<in>set issued. w_token v = Some (c_token c) \<and> c_work c = w_id v \<and> c_dataset c = w_dataset v \<and>
      c_kind c = w_kind v"
    unfolding running_accounted_def work_identity_iff by metis
qed

lemma claim_work_ids:
  assumes "release_expired_leases now s = Inr s1" and "sweep_stale_work now s1 = Inr s2"
  shows "map w_id (t_work s2) = map w_id (t_work s)"
  using assms by (auto simp: release_expired_leases_def sweep_stale_work_def checked_Inr_iff map_update_where)

lemma claim_tokens:
  assumes "claim_due_work tok lockw lockd limit duration now s = Inr (cs, s')" and "c \<in> set cs"
  shows "c_token c = tok (c_work c) \<and> c_work c \<in> w_id ` set (t_work s)"
proof -
  from assms(1) obtain s1 s2 where s12: "release_expired_leases now s = Inr s1" "sweep_stale_work now s1 = Inr s2"
    and loop: "claim_loop tok lockd (nat limit) now duration (claim_candidates now lockw (nat limit) s2) [] s2 = Inr (cs, s')"
    by (auto simp: claim_due_work_def rbind_Inr_iff)
  have ok: "constraints_ok s2" by (rule cp_step_constraints [OF sweep_stale_refines [OF s12(2)]])
  have "issued_from tok (now + duration) s2 (claim_candidates now lockw (nat limit) s2) c"
    using claim_loop_spec [OF loop ok] claim_candidates_ready [OF _ ok] assms(2) by force
  then obtain w d where w: "w \<in> set (claim_candidates now lockw (nat limit) s2)" "c = claim_of (tok (w_id w)) (now + duration) d w"
    by (auto simp: issued_from_def)
  from w(1) have "w \<in> set (t_work s2)" by (auto simp: claim_candidates_def dest: in_set_takeD)
  moreover have "w_id ` set (t_work s2) = w_id ` set (t_work s)"
    using arg_cong [OF claim_work_ids [OF s12], of set] by simp
  ultimately show ?thesis using w(2) by (auto simp: claim_of_def)
qed

lemma inj_on_claim_tokens:
  assumes "claim_due_work tok lockw lockd limit duration now s = Inr (cs, s')"
    and "distinct (map (\<lambda>w. tok (w_id w)) (t_work s))" and "constraints_ok s'"
  shows "inj_on c_token (set cs)"
proof (rule inj_onI)
  fix c c' assume c: "c \<in> set cs" "c' \<in> set cs" "c_token c = c_token c'"
  obtain s2 where d: "distinct (map c_dataset cs)" and held: "\<And>c. c \<in> set cs \<Longrightarrow> claim_held s' c"
    using claim_due_work_spec [OF assms(1)] by metis
  note t = claim_tokens [OF assms(1) c(1)] claim_tokens [OF assms(1) c(2)]
  have "inj_on (\<lambda>w. tok (w_id w)) (set (t_work s))" using assms(2) by (simp add: distinct_map)
  then have "c_work c = c_work c'" using t c(3) by (auto dest: inj_onD)
  moreover from held [OF c(1)] obtain w where w: "w \<in> set (t_work s')" "w_id w = c_work c" "w_dataset w = c_dataset c"
    by (auto simp: claim_held_def exists_where_iff)
  moreover from held [OF c(2)] obtain w' where w': "w' \<in> set (t_work s')" "w_id w' = c_work c'" "w_dataset w' = c_dataset c'"
    by (auto simp: claim_held_def exists_where_iff)
  ultimately have "c_dataset c = c_dataset c'" using work_row_unique [OF assms(3) w(1) w'(1)] by simp
  with d c(1,2) show "c = c'" by (auto simp: distinct_map dest: inj_onD)
qed

lemma sys_inv_claim:
  assumes "sys_inv s issued" and "claim_due_work tok lockw lockd limit duration now s = Inr (cs, s')"
    and "fresh_tokens (Claim tok lockw lockd limit duration now) issued s"
  shows "sys_inv s' (issued @ cs)"
proof -
  from assms(1) have inv: "cp_inv s" by (simp add: sys_inv_def)
  have steps: "cp_steps s s'" by (rule claim_due_work_refines [OF assms(2)])
  have inv': "cp_inv s'" by (rule cp_inv_steps [OF steps inv])
  from claim_due_work_spec [OF assms(2)] obtain s2 where s2: "cp_steps s s2" "fences_kept s s2"
    and held: "\<And>c. c \<in> set cs \<Longrightarrow> claim_held s' c"
    and acc: "\<And>v. v \<in> set (t_work s') \<Longrightarrow> w_state v = RUNNING \<Longrightarrow> accounted s2 cs v" by metis
  have acc2: "running_accounted s2 issued"
    by (rule running_accounted_kept [OF _ s2(1) inv s2(2)]) (use assms(1) in \<open>simp add: sys_inv_def\<close>)
  have "running_accounted s' (issued @ cs)"
    unfolding running_accounted_def
  proof (intro ballI impI)
    fix v assume v: "v \<in> set (t_work s')" "w_state v = RUNNING"
    from acc [OF v] acc2 show "\<exists>c\<in>set (issued @ cs). w_token v = Some (c_token c) \<and> c_work c = w_id v \<and>
        c_dataset c = w_dataset v \<and> c_kind c = w_kind v"
      unfolding accounted_def running_accounted_def work_identity_iff by (metis Un_iff set_append)
  qed
  moreover have "inj_on c_token (set (issued @ cs))"
  proof -
    have "inj_on c_token (set cs)"
      by (rule inj_on_claim_tokens [OF assms(2)]) (use assms(3) inv' in \<open>simp_all add: cp_inv_def\<close>)
    moreover have "c_token c \<notin> c_token ` set issued" if "c \<in> set cs" for c
      using claim_tokens [OF assms(2) that] assms(3) by (auto simp: list_all_iff)
    moreover have "inj_on c_token (set issued)" using assms(1) by (simp add: sys_inv_def)
    ultimately show ?thesis
      unfolding inj_on_def set_append by (metis Un_iff imageI)
  qed
  moreover have "fence_reached s' c" if "c \<in> set (issued @ cs)" for c
    using that held claim_held_fence fence.reached_steps [OF steps inv] assms(1) by (auto simp: sys_inv_def)
  ultimately show ?thesis using inv' by (simp add: sys_inv_def)
qed

lemma sys_inv_step:
  assumes "sys_inv s issued" and "permitted op issued s" and "exec_op sha1 op s = Inr (new, s')"
  shows "sys_inv s' (issued @ new)"
proof (cases "is_Claim op")
  case True
  then show ?thesis using assms sys_inv_claim by (cases op) (auto simp: permitted_def simp del: fresh_tokens.simps)
next
  case False
  have inv: "cp_inv s" using assms(1) by (simp add: sys_inv_def)
  have steps: "cp_steps s s'" by (rule exec_op_refines [OF assms(3,1,2)])
  note f = exec_op_fences [OF assms(3) False]
  have "running_accounted s' issued"
    by (rule running_accounted_kept [OF _ steps inv]) (use assms(1) f in \<open>auto simp: sys_inv_def\<close>)
  then show ?thesis
    using f cp_inv_steps [OF steps inv] assms(1) fence.reached_steps [OF steps inv] by (auto simp: sys_inv_def)
qed

lemma sys_inv_reachable:
  assumes "sys_reachable sha1 s issued"
  shows "sys_inv s issued"
proof -
  from assms obtain s0 where s0: "initial_db s0" "sys_steps sha1 (s0, []) (s, issued)"
    by (auto simp: sys_reachable_def)
  from s0(2) show ?thesis
  proof (induction "(s, issued)" arbitrary: s issued rule: rtranclp_induct)
    case base
    with s0(1) show ?case
      using cp_inv_initial by (auto simp: sys_inv_def running_accounted_def initial_db_def)
  next
    case (step t)
    then show ?case by (cases t) (auto elim!: sys_stepE intro: sys_inv_step)
  qed
qed

lemma sys_steps_cp:
  assumes "sys_steps sha1 (s, issued) (s', issued')" and "sys_inv s issued"
  shows "cp_steps s s' \<and> sys_inv s' issued' \<and> (\<exists>new. issued' = issued @ new)"
  using assms(1)
proof (induction "(s', issued')" arbitrary: s' issued' rule: rtranclp_induct)
  case base
  with assms(2) show ?case by simp
next
  case (step t)
  obtain u cl where t: "t = (u, cl)" by (cases t)
  with step have IH: "cp_steps s u" "sys_inv u cl" "\<exists>new. cl = issued @ new" by blast+
  from step(2) t obtain op new where op: "permitted op cl u" "exec_op sha1 op u = Inr (new, s')" "issued' = cl @ new"
    by (auto elim!: sys_stepE)
  show ?case
    using IH sys_inv_step [OF IH(2) op(1,2)] exec_op_refines [OF op(2) IH(2) op(1)] op(3)
    by (auto intro: rtranclp_trans)
qed

end
