(* ===== verification/Scenario.thy ===== *)
theory Scenario
  imports Operations
begin

text \<open>
  A complete run of the control plane on concrete data: a source is registered, its baseline snapshot
  is enqueued, the ingest is claimed and completed, and the publication it enqueued is claimed and
  published. The run gives concrete reachable states at which the properties are exercised. The hash
  of the run keeps the first character of the hashed name, which tells the two work items apart.
\<close>

definition demo_sha1 :: "bytes \<Rightarrow> bytes" where
  "demo_sha1 bs = replicate 15 0 @ [bs ! 16]"

definition demo_spec :: rowmap where
  "demo_spec =
     [(''spec_revision_id'', PUuid 0x101), (''spec_id'', PUuid 1), (''revision_number'', PInt 1),
      (''state'', PStr ''ACTIVE''), (''supersedes_revision_id'', PNone),
      (''configuration_digest'', PBytes (replicate 32 0)), (''activated_at'', PInt 0),
      (''retained_publications'', PInt 2), (''artifact_retention_seconds'', PInt 2592000)]"

definition demo_state ::
  "source_row list \<Rightarrow> dataset_row list \<Rightarrow> snapshot_row list \<Rightarrow> work_row list \<Rightarrow> publication_row list \<Rightarrow> int \<Rightarrow> db" where
  "demo_state sources datasets snapshots works publications n =
     \<lparr> t_sources = sources, t_datasets = datasets, t_snapshots = snapshots, t_work = works,
       t_publications = publications, t_pubindexes = [], t_specs = [demo_spec], t_fields = [], t_indexes = [],
       next_seq = n \<rparr>"

lemma demo_state_simps [simp]:
  "t_sources (demo_state a b c d e n) = a" "t_datasets (demo_state a b c d e n) = b"
  "t_snapshots (demo_state a b c d e n) = c" "t_work (demo_state a b c d e n) = d"
  "t_publications (demo_state a b c d e n) = e" "t_pubindexes (demo_state a b c d e n) = []"
  "t_specs (demo_state a b c d e n) = [demo_spec]" "t_fields (demo_state a b c d e n) = []"
  "t_indexes (demo_state a b c d e n) = []" "next_seq (demo_state a b c d e n) = n"
  "demo_state a b c d e n\<lparr> t_sources := a' \<rparr> = demo_state a' b c d e n"
  "demo_state a b c d e n\<lparr> t_datasets := b' \<rparr> = demo_state a b' c d e n"
  "demo_state a b c d e n\<lparr> t_snapshots := c' \<rparr> = demo_state a b c' d e n"
  "demo_state a b c d e n\<lparr> t_snapshots := c', next_seq := n' \<rparr> = demo_state a b c' d e n'"
  "demo_state a b c d e n\<lparr> t_work := d' \<rparr> = demo_state a b c d' e n"
  "demo_state a b c d e n\<lparr> t_publications := e' \<rparr> = demo_state a b c d e' n"
  "demo_state a b c d e n\<lparr> t_pubindexes := [] \<rparr> = demo_state a b c d e n"
  "demo_state a b c d e n\<lparr> next_seq := n' \<rparr> = demo_state a b c d e n'"
  by (simp_all add: demo_state_def)

definition demo_db :: db where
  "demo_db = demo_state [] [] [] [] [] 1"

definition demo_route :: routing_identity where
  "demo_route = \<lparr> tenant_id = ''t'', namespace = ''n'', org_id = ''o'' \<rparr>"

definition demo_plan :: snapshot_plan where
  "demo_plan = \<lparr> pl_source = derive_source_id demo_sha1 ''demo'', pl_snapshot = 10, pl_parent = None,
     pl_iceberg_seq = 1, pl_partition_spec = 0, pl_committed = 5, pl_committed_aware = True,
     pl_operation = ''append'', pl_kind = BASELINE, pl_epoch = Some 0 \<rparr>"

section \<open>Identities of the run\<close>

definition demo_source :: uuid where "demo_source = derive_source_id demo_sha1 ''demo''"

definition demo_dataset :: uuid where
  "demo_dataset = uuid5 demo_sha1 DATASET_ID_NAMESPACE (uuid_str demo_source @ '':1:t1:n1:o'')"

definition demo_ingest :: uuid where
  "demo_ingest = uuid5 demo_sha1 WORK_ID_NAMESPACE (ingest_work_name demo_dataset 1)"

definition demo_publish :: uuid where
  "demo_publish = deterministic_publish_work_id demo_sha1 demo_dataset 1 0x101"

definition demo_uri :: string where
  "demo_uri = ''/lance/'' @ uuid_str demo_dataset @ ''.lance''"

lemma utf8_hd:
  assumes "code c < 128"
  shows "utf8 (c # cs) = of_nat (code c) # utf8 cs"
  using assms by (simp add: utf8_def utf8_char_def)

lemma demo_uuid5:
  assumes "code c < 128"
  shows "demo_sha1 (be_bytes 16 n @ utf8 (c # cs)) = replicate 15 0 @ [of_nat (code c)]"
  using assms by (simp add: demo_sha1_def utf8_hd nth_append)

lemma be_value_pad: "be_value (replicate k 0 @ [b]) = unat b"
  by (induction k) simp_all

lemma demo_ids_differ: "demo_ingest \<noteq> demo_publish"
proof -
  have "demo_sha1 (be_bytes 16 n @ utf8 (ingest_work_name d q)) = replicate 15 0 @ [73]" for n d q
    by (simp add: ingest_work_name_def demo_uuid5)
  moreover have "demo_sha1 (be_bytes 16 n @ utf8 (publish_work_name d q v)) = replicate 15 0 @ [80]" for n d q v
    by (simp add: publish_work_name_def demo_uuid5)
  ultimately show ?thesis
    by (simp add: demo_ingest_def demo_publish_def deterministic_publish_work_id_def uuid5_def be_value_pad)
qed

lemma demo_ids_differ' [simp]: "demo_ingest \<noteq> demo_publish" "demo_publish \<noteq> demo_ingest"
  using demo_ids_differ by auto

section \<open>The run\<close>

definition demo_source_row :: source_row where
  "demo_source_row = \<lparr> r_id = demo_source, r_name = ''demo'', r_catalog = ''c'', r_namespace = ''n'', r_table = ''t'',
     r_table_uuid = 7, r_base_uri = ''/lance'', r_lifecycle = SOURCE_ACTIVE, r_default_spec = 1, r_baseline = None,
     r_replay_seconds = 2592000, r_epoch = 0, r_created = 0, r_updated = 0 \<rparr>"

definition demo_db1 :: db where
  "demo_db1 = demo_state [demo_source_row] [] [] [] [] 1"

definition demo_register :: cp_op where
  "demo_register = Register ''demo'' ''c.n.t'' 7 None ''/lance'' 0"

lemma unique_by_small [simp]: "unique_by p key []" "unique_by p key [x]"
  by (simp_all add: unique_by_def)

lemma exists_where_small [simp]: "exists_where p [] = False" "exists_where p (x # xs) = (p x \<or> exists_where p xs)"
  by (simp_all add: exists_where_def)

lemma lookup_by_small [simp]: "lookup_by key k [] = None" "lookup_by key k (x # xs) = (if key x = k then Some x else lookup_by key k xs)"
  by (simp_all add: lookup_by_def)

lemmas constraint_defs = constraints_ok_def source_keys_def dataset_keys_def snapshot_keys_def work_keys_def
  publication_keys_def pubindex_keys_def spec_keys_def field_keys_def index_keys_def dataset_refs_def
  snapshot_refs_def work_refs_def publication_refs_def pubindex_refs_def spec_exists_def

lemma demo_spec_cols [simp]:
  "col ''spec_revision_id'' demo_spec = Some (PUuid 0x101)" "col ''spec_id'' demo_spec = Some (PUuid 1)"
  "col ''state'' demo_spec = Some (PStr ''ACTIVE'')" "col ''supersedes_revision_id'' demo_spec = Some PNone"
  "col ''activated_at'' demo_spec = Some (PInt 0)"
  by (simp_all add: demo_spec_def)

lemma demo_spec_keys [simp]: "spec_keys [demo_spec]"
  by (simp add: spec_keys_def)

lemma demo_source_check [simp]: "source_check demo_source_row"
  by (simp add: source_check_def demo_source_row_def SOURCE_NAME_PATTERN_def IDENTIFIER_PATTERN_def
      TABLE_NAMESPACE_PATTERN_def name_pattern_def is_alpha_def)

lemma demo_initial: "initial_db demo_db"
  by (simp add: initial_db_def demo_db_def constraint_defs)

lemma demo_base [simp]: "rstrip_char CHR ''/'' ''/lance'' = ''/lance''"
  by code_simp

lemma demo_table [simp]: "parse_source_table ''c.n.t'' = Inr (''c'', ''n'', ''t'')"
  by code_simp

lemma demo_blank [simp]: "\<not> is_blank ''/lance''" "\<not> is_blank ''append''"
  by code_simp+

lemma demo_source_valid:
  "source_from_row demo_source_row = Inr \<lparr> source_id = demo_source, source_name = ''demo'', spark_catalog = ''c'',
     table_namespace = ''n'', table_name = ''t'', table_uuid = 7, lance_base_uri = ''/lance'',
     lifecycle_state = SOURCE_ACTIVE, default_spec_id = 1, canonical_baseline_snapshot_id = None,
     replay_horizon = 2592000000000 \<rparr>"
  by (simp add: source_from_row_def demo_source_row_def IcebergSource_validate_def SOURCE_NAME_PATTERN_def
      IDENTIFIER_PATTERN_def TABLE_NAMESPACE_PATTERN_def name_pattern_def is_alpha_def)

lemma demo_ok1 [simp]: "constraints_ok demo_db1"
  by (simp add: constraint_defs demo_db1_def demo_db_def)

lemma demo_step1: "exec_op demo_sha1 demo_register demo_db = Inr ([], demo_db1)"
proof -
  have row: "\<lparr> r_id = derive_source_id demo_sha1 ''demo'', r_name = ''demo'', r_catalog = ''c'', r_namespace = ''n'',
      r_table = ''t'', r_table_uuid = 7, r_base_uri = ''/lance'', r_lifecycle = SOURCE_ACTIVE,
      r_default_spec = DEFAULT_SPEC_ID, r_baseline = None, r_replay_seconds = 2592000, r_epoch = 0,
      r_created = 0, r_updated = 0 \<rparr> = demo_source_row"
    by (simp add: demo_source_row_def demo_source_def DEFAULT_SPEC_ID_def)
  have ins: "demo_db\<lparr> t_sources := insert_new r_name demo_source_row (t_sources demo_db) \<rparr> = demo_db1"
    by (simp add: demo_db_def demo_db1_def insert_new_def)
  have act: "exists_where (spec_is_active DEFAULT_SPEC_ID) (t_specs demo_db)"
    by (simp add: demo_db_def spec_is_active_def DEFAULT_SPEC_ID_def)
  have look: "lookup_by r_name ''demo'' (t_sources demo_db1) = Some demo_source_row"
    by (simp add: demo_db1_def demo_source_row_def)
  show ?thesis
    by (simp add: demo_register_def no_claims_def ensure_source_registration_def Let_def row ins act look checked_def
        demo_source_valid source_registration_matches_def spark_table_def)
qed

section \<open>Enqueueing the baseline\<close>

definition demo_enqueue :: cp_op where
  "demo_enqueue = Enqueue demo_plan [demo_route] 1"

definition demo_snapshot :: "snapshot_state \<Rightarrow> int \<Rightarrow> snapshot_row" where
  "demo_snapshot st now = (snapshot_of_plan demo_plan SEALED None None 1 1)\<lparr> s_state := st, s_updated := now \<rparr>"

definition demo_dataset_row :: dataset_row where
  "demo_dataset_row = new_dataset demo_dataset demo_source demo_route 0x101 demo_uri 1"

definition demo_ingest_row :: work_row where
  "demo_ingest_row = new_work demo_ingest demo_dataset_row 1 0x101 INGEST PH_INGEST 1"

definition demo_db2 :: db where
  "demo_db2 = demo_state [demo_source_row] [demo_dataset_row] [demo_snapshot SEALED 1] [demo_ingest_row] [] 2"

lemma demo_show_nat [simp]: "show_nat 1 = ''1''" "show_nat (Suc 0) = ''1''"
  by code_simp+

lemma demo_route_segments:
  "ROUTING_SEGMENT_PATTERN (tenant_id demo_route)" "ROUTING_SEGMENT_PATTERN (namespace demo_route)"
  "ROUTING_SEGMENT_PATTERN (org_id demo_route)"
  by (simp_all add: demo_route_def ROUTING_SEGMENT_PATTERN_def is_alpha_def)

lemma demo_route_valid [simp]: "RoutingIdentity_validate demo_route = Inr demo_route"
  by (simp add: RoutingIdentity_validate_def validate_routing_segment_def demo_route_segments)

lemma demo_dataset_id: "deterministic_dataset_id demo_sha1 demo_source demo_route = Inr demo_dataset"
  by (simp add: deterministic_dataset_id_def dataset_id_name_def RoutingIdentity_canonical_def
      length_prefixed_def demo_dataset_def) (simp add: demo_route_def)

lemma demo_uri_of: "ingest_uri ''/lance'' demo_dataset = Inr demo_uri"
  by (simp add: ingest_uri_def Let_def demo_uri_def)

lemma demo_rows [simp]:
  "d_id demo_dataset_row = demo_dataset" "d_source demo_dataset_row = demo_source" "d_route demo_dataset_row = demo_route"
  "d_lifecycle demo_dataset_row = DATASET_ACTIVE" "d_desired demo_dataset_row = 0x101"
  "d_materialized demo_dataset_row = None" "d_last_seq demo_dataset_row = None" "d_uri demo_dataset_row = demo_uri"
  "d_version demo_dataset_row = None" "d_active demo_dataset_row = None" "d_fence demo_dataset_row = 0"
  "r_id demo_source_row = demo_source" "r_base_uri demo_source_row = ''/lance''" "r_lifecycle demo_source_row = SOURCE_ACTIVE"
  "r_default_spec demo_source_row = 1" "r_epoch demo_source_row = 0"
  "s_seq (demo_snapshot st now) = 1" "s_source (demo_snapshot st now) = demo_source" "s_snapshot (demo_snapshot st now) = 10"
  "s_state (demo_snapshot st now) = st" "s_kind (demo_snapshot st now) = BASELINE" "s_iceberg_seq (demo_snapshot st now) = 1"
  "demo_uri \<noteq> []"
  by (simp_all add: demo_dataset_row_def new_dataset_def demo_source_row_def demo_snapshot_def snapshot_of_plan_def
      demo_plan_def demo_source_def demo_uri_def)

lemma demo_ingest_row_simps [simp]:
  "w_id demo_ingest_row = demo_ingest" "w_dataset demo_ingest_row = demo_dataset" "w_source demo_ingest_row = demo_source"
  "w_seq demo_ingest_row = 1" "w_spec demo_ingest_row = 0x101" "w_kind demo_ingest_row = INGEST"
  "w_state demo_ingest_row = PENDING" "w_next_at demo_ingest_row = 1" "w_attempts demo_ingest_row = 0"
  "w_phase demo_ingest_row = PH_INGEST" "w_token demo_ingest_row = None" "w_expires demo_ingest_row = None"
  "w_exp_uri demo_ingest_row = demo_uri" "w_exp_version demo_ingest_row = None" "w_exp_active demo_ingest_row = None"
  "w_cand_uri demo_ingest_row = None" "w_cand_version demo_ingest_row = None" "w_row_count demo_ingest_row = None"
  "w_source_digest demo_ingest_row = None" "w_manifest_uri demo_ingest_row = None" "w_manifest_digest demo_ingest_row = None"
  by (simp_all add: demo_ingest_row_def new_work_def)

lemma demo_checks [simp]:
  "dataset_check demo_dataset_row" "snapshot_check (demo_snapshot st now)" "work_check demo_ingest_row"
  by (simp_all add: dataset_check_def snapshot_check_def work_check_def demo_route_segments)
    (simp_all add: demo_snapshot_def snapshot_of_plan_def demo_plan_def)

lemma demo_ok2:
  "constraints_ok (demo_state [demo_source_row] [] [demo_snapshot SEALED 1] [] [] 2)"
  "constraints_ok (demo_state [demo_source_row] [demo_dataset_row] [demo_snapshot SEALED 1] [] [] 2)"
  "constraints_ok demo_db2"
  by (simp_all add: constraint_defs demo_db2_def)

lemma demo_snapshot_insert:
  "insert_or_validate_snapshot demo_plan SEALED None None 1 demo_db1 =
     Inr ((1, True), demo_state [demo_source_row] [] [demo_snapshot SEALED 1] [] [] 2)"
proof -
  have row: "snapshot_of_plan demo_plan SEALED None None 1 1 = demo_snapshot SEALED 1"
    by (simp add: demo_snapshot_def snapshot_of_plan_def)
  have m: "snapshot_matches_plan (demo_snapshot SEALED 1) demo_plan" "pl_source demo_plan = demo_source" "pl_snapshot demo_plan = 10"
    by (simp_all add: snapshot_matches_plan_def demo_snapshot_def snapshot_of_plan_def demo_plan_def demo_source_def)
  show ?thesis
    by (simp add: insert_or_validate_snapshot_def snapshot_known_def Let_def demo_db1_def row insert_new_def checked_def
        demo_ok2 snapshot_key_def m)
qed

lemma demo_dataset_insert:
  assumes "source_from_row demo_source_row = Inr src"
  shows "insert_or_validate_dataset demo_sha1 src demo_route 0x101 1
      (demo_state [demo_source_row] [] [demo_snapshot SEALED 1] [] [] 2) =
    Inr (demo_dataset_row, demo_state [demo_source_row] [demo_dataset_row] [demo_snapshot SEALED 1] [] [] 2)"
  using assms by (auto simp: demo_source_valid insert_or_validate_dataset_def demo_dataset_id demo_uri_of
      demo_dataset_row_def [symmetric] insert_new_def checked_def demo_ok2)

lemma demo_work_insert:
  "insert_ingest_work demo_sha1 demo_dataset_row 1 1
      (demo_state [demo_source_row] [demo_dataset_row] [demo_snapshot SEALED 1] [] [] 2) = Inr demo_db2"
proof -
  have "deterministic_ingest_work_id demo_sha1 demo_dataset 1 = Inr demo_ingest"
    by (simp add: deterministic_ingest_work_id_def demo_ingest_def)
  then show ?thesis using demo_ok2(3)
    by (simp add: insert_ingest_work_def Let_def demo_ingest_row_def [symmetric] insert_new_def checked_def
        same_frozen_inputs_def demo_db2_def)
qed

lemma demo_step2: "exec_op demo_sha1 demo_enqueue demo_db1 = Inr ([], demo_db2)"
proof -
  have plan: "pl_source demo_plan = demo_source" "pl_snapshot demo_plan = 10" "pl_kind demo_plan = BASELINE" "pl_epoch demo_plan = Some 0"
    by (simp_all add: demo_plan_def demo_source_def)
  have valid: "SourceSnapshotPlan_validate demo_plan = Inr demo_plan"
    by (simp add: SourceSnapshotPlan_validate_def demo_plan_def)
  have guards: "enqueue_guards demo_plan demo_db1 = Inr demo_source_row"
    by (simp add: enqueue_guards_def plan lock_source_for_planning_def demo_db1_def snapshot_known_def
        assert_source_gate_allows_snapshot_def source_gated_def assert_new_snapshot_extends_latest_def latest_snapshot_def)
  have spec: "active_spec_revision_id 1 (demo_state [demo_source_row] [] [demo_snapshot SEALED 1] [] [] 2) = Inr 0x101"
    by (simp add: active_spec_revision_id_def spec_is_active_def)
  show ?thesis
    by (simp add: demo_enqueue_def no_claims_def enqueue_source_snapshot_def valid plan DatasetPlan_validate_def
        guards demo_snapshot_insert demo_dataset_id fill_snapshot_def spec enqueue_dataset_def demo_source_valid
        demo_dataset_insert demo_work_insert)
qed

section \<open>Claiming and completing the ingest\<close>

definition demo_claim_op :: cp_op where
  "demo_claim_op = Claim (\<lambda>_. 77) (\<lambda>_. False) (\<lambda>_. False) 1 100 2"

definition demo_dataset_at :: "int \<Rightarrow> int \<Rightarrow> uuid option \<Rightarrow> int option \<Rightarrow> uuid option \<Rightarrow> dataset_row" where
  "demo_dataset_at fence now spec version active =
     demo_dataset_row\<lparr> d_fence := fence, d_updated := now, d_materialized := spec,
       d_last_seq := map_option (\<lambda>_. 1) version, d_version := version, d_active := active \<rparr>"

definition demo_running :: work_row where
  "demo_running = demo_ingest_row\<lparr> w_state := RUNNING, w_token := Some 77, w_expires := Some 102, w_attempts := 1,
     w_updated := 2 \<rparr>"

definition demo_claim :: work_claim where
  "demo_claim = \<lparr> c_work = demo_ingest, c_dataset = demo_dataset, c_kind = INGEST, c_phase = PH_INGEST, c_token = 77,
     c_fence = 1, c_attempts = 1, c_seq = 1, c_spec = 0x101, c_uri = demo_uri, c_version = None,
     c_expires = Some 102 \<rparr>"

definition demo_db3 :: db where
  "demo_db3 = demo_state [demo_source_row] [demo_dataset_at 1 2 None None None] [demo_snapshot SEALED 1] [demo_running] [] 2"

lemma demo_dataset_at_simps [simp]:
  "d_id (demo_dataset_at f t sp v a) = demo_dataset" "d_source (demo_dataset_at f t sp v a) = demo_source"
  "d_route (demo_dataset_at f t sp v a) = demo_route" "d_lifecycle (demo_dataset_at f t sp v a) = DATASET_ACTIVE"
  "d_desired (demo_dataset_at f t sp v a) = 0x101" "d_materialized (demo_dataset_at f t sp v a) = sp"
  "d_last_seq (demo_dataset_at f t sp v a) = map_option (\<lambda>_. 1) v" "d_uri (demo_dataset_at f t sp v a) = demo_uri"
  "d_version (demo_dataset_at f t sp v a) = v" "d_active (demo_dataset_at f t sp v a) = a"
  "d_fence (demo_dataset_at f t sp v a) = f"
  by (simp_all add: demo_dataset_at_def)

lemma demo_running_simps [simp]:
  "w_id demo_running = demo_ingest" "w_dataset demo_running = demo_dataset" "w_source demo_running = demo_source"
  "w_seq demo_running = 1" "w_spec demo_running = 0x101" "w_kind demo_running = INGEST" "w_state demo_running = RUNNING"
  "w_next_at demo_running = 1" "w_attempts demo_running = 1" "w_phase demo_running = PH_INGEST"
  "w_token demo_running = Some 77" "w_expires demo_running = Some 102" "w_exp_uri demo_running = demo_uri"
  "w_exp_version demo_running = None" "w_exp_active demo_running = None" "w_cand_uri demo_running = None"
  "w_cand_version demo_running = None" "w_row_count demo_running = None" "w_source_digest demo_running = None"
  "w_manifest_uri demo_running = None" "w_manifest_digest demo_running = None"
  by (simp_all add: demo_running_def)

lemma demo_dataset_at_check [simp]:
  "0 \<le> f \<Longrightarrow> 0 \<le> the v \<or> v = None \<Longrightarrow> (sp = None) = (v = None) \<Longrightarrow> dataset_check (demo_dataset_at f t sp v a)"
  by (auto simp: dataset_check_def demo_route_segments)

lemma demo_running_check [simp]: "work_check demo_running"
  by (simp add: work_check_def)

lemma demo_ok3:
  "constraints_ok (demo_state [demo_source_row] [demo_dataset_at 1 2 None None None] [demo_snapshot SEALED 1] [demo_ingest_row] [] 2)"
  "constraints_ok demo_db3"
  by (simp_all add: constraint_defs demo_db3_def)

lemma demo_step3: "exec_op demo_sha1 demo_claim_op demo_db2 = Inr ([demo_claim], demo_db3)"
proof -
  have release: "release_expired_leases 2 demo_db2 = Inr demo_db2"
    using demo_ok2(3) by (simp add: release_expired_leases_def demo_db2_def lease_expired_def update_where_def checked_def)
  have sweep: "sweep_stale_work 2 demo_db2 = Inr demo_db2"
    using demo_ok2(3) by (simp add: sweep_stale_work_def demo_db2_def stale_work_def update_where_def checked_def)
  have cand: "claim_candidates 2 (\<lambda>_. False) (Suc 0) demo_db2 = [demo_ingest_row]"
    by (simp add: claim_candidates_def demo_db2_def claimable_def due_predicate_def source_snapshot_allows_work_def
        source_gated_def lane_order_predicate_def expected_state_predicate_def)
  have rows: "demo_dataset_row\<lparr> d_fence := 1, d_updated := 2 \<rparr> = demo_dataset_at 1 2 None None None"
    "claim_work_row 77 102 1 2 demo_dataset_row demo_ingest_row = demo_running"
    by (simp_all add: demo_dataset_at_def demo_dataset_row_def new_dataset_def claim_work_row_def demo_running_def
        demo_ingest_row_def new_work_def)
  have "claim_locked_row 77 demo_ingest_row demo_dataset_row 2 100 demo_db2 = Inr (Some demo_claim, demo_db3)"
    using demo_ok3 by (simp add: claim_locked_row_def demo_db2_def Let_def update_where_def count_where_def checked_def
        rows demo_db3_def demo_claim_def)
  then show ?thesis
    by (simp add: demo_claim_op_def claim_due_work_def release sweep cand) (simp add: demo_db2_def)
qed

definition demo_complete :: cp_op where
  "demo_complete = Complete_Ingest demo_claim 3 10 (replicate 32 0) 4"

definition demo_done :: work_row where
  "demo_done = demo_running\<lparr> w_state := SUCCEEDED, w_token := None, w_expires := None, w_applied_at := Some 4,
     w_row_count := Some 10, w_source_digest := Some (replicate 32 0), w_cand_uri := Some demo_uri,
     w_cand_version := Some 3, w_updated := 4 \<rparr>"

definition demo_publish_row :: work_row where
  "demo_publish_row = publish_work_row demo_publish demo_dataset demo_source 1 0x101 demo_uri 3 None 4"

definition demo_db4 :: db where
  "demo_db4 = demo_state [demo_source_row] [demo_dataset_at 1 4 (Some 0x101) (Some 3) None] [demo_snapshot COMPLETE 4]
     [demo_done, demo_publish_row] [] 2"

lemma demo_done_simps [simp]:
  "w_id demo_done = demo_ingest" "w_dataset demo_done = demo_dataset" "w_source demo_done = demo_source"
  "w_seq demo_done = 1" "w_spec demo_done = 0x101" "w_kind demo_done = INGEST" "w_state demo_done = SUCCEEDED"
  "w_attempts demo_done = 1" "w_phase demo_done = PH_INGEST" "w_token demo_done = None" "w_expires demo_done = None"
  "w_exp_uri demo_done = demo_uri" "w_exp_version demo_done = None" "w_exp_active demo_done = None"
  "w_cand_uri demo_done = Some demo_uri" "w_cand_version demo_done = Some 3" "w_row_count demo_done = Some 10"
  "w_source_digest demo_done = Some (replicate 32 0)" "w_manifest_uri demo_done = None" "w_manifest_digest demo_done = None"
  by (simp_all add: demo_done_def)

lemma demo_publish_row_simps [simp]:
  "w_id demo_publish_row = demo_publish" "w_dataset demo_publish_row = demo_dataset" "w_source demo_publish_row = demo_source"
  "w_seq demo_publish_row = 1" "w_spec demo_publish_row = 0x101" "w_kind demo_publish_row = PUBLISH"
  "w_state demo_publish_row = PENDING" "w_next_at demo_publish_row = 4" "w_attempts demo_publish_row = 0"
  "w_phase demo_publish_row = PH_COMPACT" "w_token demo_publish_row = None" "w_expires demo_publish_row = None"
  "w_exp_uri demo_publish_row = demo_uri" "w_exp_version demo_publish_row = Some 3" "w_exp_active demo_publish_row = None"
  "w_cand_uri demo_publish_row = Some demo_uri" "w_cand_version demo_publish_row = Some 3" "w_row_count demo_publish_row = None"
  "w_source_digest demo_publish_row = None" "w_manifest_uri demo_publish_row = None" "w_manifest_digest demo_publish_row = None"
  by (simp_all add: demo_publish_row_def publish_work_row_def)

lemma demo_done_check [simp]: "work_check demo_done" "work_check demo_publish_row"
  by (simp_all add: work_check_def)

lemma unique_by_two [simp]: "unique_by p key [x, y] \<longleftrightarrow> \<not> (p x \<and> p y \<and> key x = key y)"
  by (auto simp: unique_by_def)

lemma demo_ok4:
  "constraints_ok (demo_state [demo_source_row] [demo_dataset_at 1 4 (Some 0x101) (Some 3) None] [demo_snapshot SEALED 1] [demo_running] [] 2)"
  "constraints_ok (demo_state [demo_source_row] [demo_dataset_at 1 4 (Some 0x101) (Some 3) None] [demo_snapshot SEALED 1] [demo_done] [] 2)"
  "constraints_ok (demo_state [demo_source_row] [demo_dataset_at 1 4 (Some 0x101) (Some 3) None] [demo_snapshot SEALED 1] [demo_done, demo_publish_row] [] 2)"
  "constraints_ok demo_db4"
  by (simp_all add: constraint_defs demo_db4_def open_publish_def)

lemma demo_completed: "complete_ingest demo_sha1 demo_claim 3 10 (replicate 32 0) 4 demo_db3 = Inr (True, demo_db4)"
proof -
  have c: "c_kind demo_claim = INGEST" "c_work demo_claim = demo_ingest" "c_dataset demo_claim = demo_dataset"
    "c_token demo_claim = 77" "c_fence demo_claim = 1" by (simp_all add: demo_claim_def)
  have lock: "lock_work_and_state demo_claim demo_db3 = Some (demo_running, demo_dataset_at 1 2 None None None)"
    by (simp add: lock_work_and_state_def c demo_db3_def)
  have fresh: "completed_ingest_matches demo_running (demo_dataset_at 1 2 None None None) 3 10 (replicate 32 0) = Inr False"
    by (simp add: completed_ingest_matches_def)
  have lease: "locked_lease_matches demo_running (demo_dataset_at 1 2 None None None) demo_claim 4"
    "assert_expectations_match demo_running (demo_dataset_at 1 2 None None None) = Inr ()"
    by (simp_all add: locked_lease_matches_def c assert_expectations_match_def)
  have rows: "(demo_dataset_at 1 2 None None None)\<lparr> d_materialized := Some 0x101, d_last_seq := Some 1, d_uri := demo_uri,
      d_version := Some 3, d_updated := 4 \<rparr> = demo_dataset_at 1 4 (Some 0x101) (Some 3) None"
    "demo_running\<lparr> w_state := SUCCEEDED, w_token := None, w_expires := None, w_applied_at := Some 4,
     w_row_count := Some 10, w_source_digest := Some (replicate 32 0), w_cand_uri := Some demo_uri,
     w_cand_version := Some 3, w_updated := 4 \<rparr> = demo_done"
    "(demo_snapshot SEALED 1)\<lparr> s_state := COMPLETE, s_updated := 4 \<rparr> = demo_snapshot COMPLETE 4"
    by (simp_all add: demo_dataset_at_def demo_dataset_row_def new_dataset_def demo_done_def demo_snapshot_def)
  show ?thesis
    using demo_ok4
    by (simp add: complete_ingest_def lock fresh lease c)
      (simp add: demo_db3_def rows update_where_def checked_def enqueue_publish_work_def has_open_publication_def
        open_publish_def Let_def demo_publish_def [symmetric] demo_publish_row_def [symmetric] insert_new_def
        complete_snapshot_if_applied_def incomplete_ingest_def demo_db4_def)
qed

lemma demo_step4: "exec_op demo_sha1 demo_complete demo_db3 = Inr ([], demo_db4)"
  by (simp add: demo_complete_def no_claims_def demo_completed)

section \<open>Claiming and publishing the generation\<close>

definition demo_tokens :: "uuid \<Rightarrow> uuid" where
  "demo_tokens wid = (if wid = demo_publish then 88 else 99)"

definition demo_claim_op2 :: cp_op where
  "demo_claim_op2 = Claim demo_tokens (\<lambda>_. False) (\<lambda>_. False) 1 100 5"

definition demo_publishing :: work_row where
  "demo_publishing = demo_publish_row\<lparr> w_state := RUNNING, w_token := Some 88, w_expires := Some 105, w_attempts := 1,
     w_updated := 5 \<rparr>"

definition demo_publish_claim :: work_claim where
  "demo_publish_claim = \<lparr> c_work = demo_publish, c_dataset = demo_dataset, c_kind = PUBLISH, c_phase = PH_COMPACT,
     c_token = 88, c_fence = 2, c_attempts = 1, c_seq = 1, c_spec = 0x101, c_uri = demo_uri, c_version = Some 3,
     c_expires = Some 105 \<rparr>"

definition demo_db5 :: db where
  "demo_db5 = demo_state [demo_source_row] [demo_dataset_at 2 5 (Some 0x101) (Some 3) None] [demo_snapshot COMPLETE 4]
     [demo_done, demo_publishing] [] 2"

lemma demo_publishing_simps [simp]:
  "w_id demo_publishing = demo_publish" "w_dataset demo_publishing = demo_dataset" "w_source demo_publishing = demo_source"
  "w_seq demo_publishing = 1" "w_spec demo_publishing = 0x101" "w_kind demo_publishing = PUBLISH"
  "w_state demo_publishing = RUNNING" "w_attempts demo_publishing = 1"
  "w_phase demo_publishing = PH_COMPACT" "w_token demo_publishing = Some 88" "w_expires demo_publishing = Some 105"
  "w_exp_uri demo_publishing = demo_uri" "w_exp_version demo_publishing = Some 3" "w_exp_active demo_publishing = None"
  "w_cand_uri demo_publishing = Some demo_uri" "w_cand_version demo_publishing = Some 3" "w_row_count demo_publishing = None"
  "w_source_digest demo_publishing = None" "w_manifest_uri demo_publishing = None" "w_manifest_digest demo_publishing = None"
  by (simp_all add: demo_publishing_def)

lemma demo_publishing_check [simp]: "work_check demo_publishing"
  by (simp add: work_check_def)

lemma demo_ok5:
  "constraints_ok (demo_state [demo_source_row] [demo_dataset_at 2 5 (Some 0x101) (Some 3) None] [demo_snapshot COMPLETE 4]
     [demo_done, demo_publish_row] [] 2)"
  "constraints_ok demo_db5"
  by (simp_all add: constraint_defs demo_db5_def open_publish_def)

lemma demo_step5: "exec_op demo_sha1 demo_claim_op2 demo_db4 = Inr ([demo_publish_claim], demo_db5)"
proof -
  have release: "release_expired_leases 5 demo_db4 = Inr demo_db4"
    using demo_ok4(4) by (simp add: release_expired_leases_def demo_db4_def lease_expired_def update_where_def checked_def)
  have sweep: "sweep_stale_work 5 demo_db4 = Inr demo_db4"
    using demo_ok4(4) by (simp add: sweep_stale_work_def demo_db4_def stale_work_def update_where_def checked_def
        frozen_expectations_match_dataset_def)
  have cand: "claim_candidates 5 (\<lambda>_. False) (Suc 0) demo_db4 = [demo_publish_row]"
    by (simp add: claim_candidates_def demo_db4_def claimable_def due_predicate_def source_snapshot_allows_work_def
        source_gated_def lane_order_predicate_def expected_state_predicate_def frozen_expectations_match_dataset_def)
  have rows: "(demo_dataset_at 1 4 (Some 0x101) (Some 3) None)\<lparr> d_fence := 2, d_updated := 5 \<rparr> =
      demo_dataset_at 2 5 (Some 0x101) (Some 3) None"
    "claim_work_row 88 105 1 5 (demo_dataset_at 1 4 (Some 0x101) (Some 3) None) demo_publish_row = demo_publishing"
    by (simp_all add: demo_dataset_at_def claim_work_row_def demo_publishing_def demo_publish_row_def publish_work_row_def)
  have "claim_locked_row 88 demo_publish_row (demo_dataset_at 1 4 (Some 0x101) (Some 3) None) 5 100 demo_db4 =
      Inr (Some demo_publish_claim, demo_db5)"
    using demo_ok5 by (simp add: claim_locked_row_def demo_db4_def Let_def update_where_def count_where_def checked_def
        rows demo_db5_def demo_publish_claim_def)
  then show ?thesis
    by (simp add: demo_claim_op2_def claim_due_work_def release sweep cand) (simp add: demo_db4_def demo_tokens_def)
qed

definition demo_evidence :: publication_evidence where
  "demo_evidence = \<lparr> ev_schema_digest = replicate 32 1, ev_total = 10, ev_distinct = 10, ev_live = 9,
     ev_distinct_live = 9, ev_fragments = 1, ev_indexes = [] \<rparr>"

definition demo_publish_op :: cp_op where
  "demo_publish_op = Publish_Dataset demo_publish_claim demo_uri 3 ''m'' (replicate 32 2) demo_evidence 6"

definition demo_publication :: uuid where
  "demo_publication = deterministic_publication_id demo_sha1 demo_publish"

definition demo_publication_row :: publication_row where
  "demo_publication_row =
     publication_of demo_publication demo_publish_claim demo_publishing 1 demo_uri 3 ''m'' (replicate 32 2) demo_evidence 6"

definition demo_published :: work_row where
  "demo_published = demo_publishing\<lparr> w_state := SUCCEEDED, w_phase := PH_PUBLISH, w_token := None, w_expires := None,
     w_manifest_uri := Some ''m'', w_manifest_digest := Some (replicate 32 2), w_updated := 6 \<rparr>"

definition demo_db6 :: db where
  "demo_db6 = demo_state [demo_source_row] [demo_dataset_at 2 6 (Some 0x101) (Some 3) (Some demo_publication)]
     [demo_snapshot COMPLETE 4] [demo_done, demo_published] [demo_publication_row] 2"

lemma demo_published_simps [simp]:
  "w_id demo_published = demo_publish" "w_dataset demo_published = demo_dataset" "w_source demo_published = demo_source"
  "w_seq demo_published = 1" "w_spec demo_published = 0x101" "w_kind demo_published = PUBLISH"
  "w_state demo_published = SUCCEEDED" "w_attempts demo_published = 1"
  "w_phase demo_published = PH_PUBLISH" "w_token demo_published = None" "w_expires demo_published = None"
  "w_exp_uri demo_published = demo_uri" "w_exp_version demo_published = Some 3" "w_exp_active demo_published = None"
  "w_cand_uri demo_published = Some demo_uri" "w_cand_version demo_published = Some 3" "w_row_count demo_published = None"
  "w_source_digest demo_published = None" "w_manifest_uri demo_published = Some ''m''"
  "w_manifest_digest demo_published = Some (replicate 32 2)"
  by (simp_all add: demo_published_def)

lemma demo_publication_simps [simp]:
  "p_id demo_publication_row = demo_publication" "p_dataset demo_publication_row = demo_dataset"
  "p_work demo_publication_row = demo_publish" "p_spec demo_publication_row = 0x101" "p_seq demo_publication_row = 1"
  "p_uri demo_publication_row = demo_uri" "p_version demo_publication_row = 3" "p_retired demo_publication_row = None"
  "p_total demo_publication_row = 10" "p_distinct demo_publication_row = 10" "p_live demo_publication_row = 9"
  "p_distinct_live demo_publication_row = 9" "p_fragments demo_publication_row = 1"
  "p_manifest_uri demo_publication_row = ''m''" "p_manifest_digest demo_publication_row = replicate 32 2"
  "p_schema_digest demo_publication_row = replicate 32 1" "p_published demo_publication_row = 6"
  by (simp_all add: demo_publication_row_def publication_of_def demo_publish_claim_def demo_evidence_def)

lemma demo_published_check [simp]: "work_check demo_published" "publication_check demo_publication_row"
  by (simp_all add: work_check_def publication_check_def)

lemma demo_ok6:
  "constraints_ok (demo_state [demo_source_row] [demo_dataset_at 2 5 (Some 0x101) (Some 3) None] [demo_snapshot COMPLETE 4]
     [demo_done, demo_publishing] [demo_publication_row] 2)"
  "constraints_ok (demo_state [demo_source_row] [demo_dataset_at 2 6 (Some 0x101) (Some 3) (Some demo_publication)] [demo_snapshot COMPLETE 4]
     [demo_done, demo_publishing] [demo_publication_row] 2)"
  "constraints_ok demo_db6"
  by (simp_all add: constraint_defs demo_db6_def open_publish_def)

lemma demo_was_published:
  "publish_dataset demo_sha1 demo_publish_claim demo_uri 3 ''m'' (replicate 32 2) demo_evidence 6 demo_db5 = Inr (True, demo_db6)"
proof -
  let ?d = "demo_dataset_at 2 5 (Some 0x101) (Some 3) None"
  have c: "c_kind demo_publish_claim = PUBLISH" "c_work demo_publish_claim = demo_publish"
    "c_dataset demo_publish_claim = demo_dataset" "c_token demo_publish_claim = 88" "c_fence demo_publish_claim = 2"
    by (simp_all add: demo_publish_claim_def)
  have req: "validate_publication_request demo_publish_claim 3 ''m'' (replicate 32 2) demo_evidence = Inr ()"
    by (simp add: validate_publication_request_def c PublicationEvidence_validate_def demo_evidence_def)
  have lock: "lock_work_and_state demo_publish_claim demo_db5 = Some (demo_publishing, ?d)"
    by (simp add: lock_work_and_state_def c demo_db5_def)
  have none: "lookup_by p_id demo_publication (t_publications demo_db5) = None" by (simp add: demo_db5_def)
  have lease: "locked_lease_matches demo_publishing ?d demo_publish_claim 6"
    by (simp add: locked_lease_matches_def c)
  have live: "validate_live_publication demo_publish_claim demo_publishing ?d demo_uri 3 demo_db5 = Inr 1"
  proof -
    have "lookup_by r_id demo_source (t_sources demo_db5) = Some demo_source_row"
      "lookup_by d_id demo_dataset (t_datasets demo_db5) = Some ?d" by (simp_all add: demo_db5_def)
    then show ?thesis
      by (simp add: validate_live_publication_def assert_expectations_match_def c source_for_dataset_def
          demo_source_valid dataset_uri_matches_root_def demo_uri_of)
  qed
  have ix: "validate_publication_indexes 0x101 demo_evidence demo_db5 = Inr ()" "ev_indexes demo_evidence = []"
    by (simp_all add: validate_publication_indexes_def demo_db5_def demo_evidence_def dict_eq_def)
  have rows: "swap_pointer demo_publish_claim demo_publishing demo_publication demo_uri 3 6 ?d =
      demo_dataset_at 2 6 (Some 0x101) (Some 3) (Some demo_publication)"
    "demo_publishing\<lparr> w_state := SUCCEEDED, w_phase := PH_PUBLISH, w_token := None, w_expires := None,
      w_cand_uri := Some demo_uri, w_cand_version := Some 3, w_manifest_uri := Some ''m'',
      w_manifest_digest := Some (replicate 32 2), w_updated := 6 \<rparr> = demo_published"
    by (simp_all add: swap_pointer_def c Let_def demo_dataset_at_def demo_published_def demo_publishing_def
        demo_publish_row_def publish_work_row_def)
  show ?thesis
    using demo_ok6
    by (simp add: publish_dataset_def req lock c demo_publication_def [symmetric]
        none lease live ix Let_def demo_publication_row_def [symmetric] retire_publication_def)
      (simp add: demo_db5_def rows update_where_def checked_def demo_db6_def)
qed

lemma demo_step6: "exec_op demo_sha1 demo_publish_op demo_db5 = Inr ([], demo_db6)"
  by (simp add: demo_publish_op_def no_claims_def demo_was_published)

section \<open>The states of the run are reachable\<close>

lemma demo_reachable_step:
  assumes "sys_reachable demo_sha1 s issued" and "permitted op issued s" and "exec_op demo_sha1 op s = Inr (new, s')"
  shows "sys_reachable demo_sha1 s' (issued @ new)"
  using assms unfolding sys_reachable_def by (meson sys_step.transact rtranclp.rtrancl_into_rtrancl)

lemma demo_reachable0: "sys_reachable demo_sha1 demo_db []"
  unfolding sys_reachable_def using demo_initial by blast

lemma demo_reachable2: "sys_reachable demo_sha1 demo_db2 []"
  using demo_reachable_step [OF demo_reachable_step [OF demo_reachable0 _ demo_step1] _ demo_step2]
  by (simp add: permitted_def demo_register_def demo_enqueue_def)

lemma demo_reachable3: "sys_reachable demo_sha1 demo_db3 [demo_claim]"
  using demo_reachable_step [OF demo_reachable2 _ demo_step3]
  by (simp add: permitted_def demo_claim_op_def demo_db2_def)

lemma demo_reachable4: "sys_reachable demo_sha1 demo_db4 [demo_claim]"
  using demo_reachable_step [OF demo_reachable3 _ demo_step4]
  by (simp add: permitted_def demo_complete_def)

lemma demo_reachable5: "sys_reachable demo_sha1 demo_db5 [demo_claim, demo_publish_claim]"
  using demo_reachable_step [OF demo_reachable4 _ demo_step5]
  by (simp add: permitted_def demo_claim_op2_def demo_db4_def demo_tokens_def demo_claim_def)

lemma demo_reachable6: "sys_reachable demo_sha1 demo_db6 [demo_claim, demo_publish_claim]"
  using demo_reachable_step [OF demo_reachable5 _ demo_step6]
  by (simp add: permitted_def demo_publish_op_def)

lemma demo_steps46: "sys_steps demo_sha1 (demo_db4, [demo_claim]) (demo_db6, [demo_claim, demo_publish_claim])"
  using sys_step.transact [OF _ demo_step5, of "[demo_claim]"]
    sys_step.transact [OF _ demo_step6, of "[demo_claim, demo_publish_claim]"]
  by (simp add: permitted_def demo_claim_op2_def demo_db4_def demo_tokens_def demo_claim_def demo_publish_op_def
      rtranclp.rtrancl_into_rtrancl)

end
