(* ===== verification/Lease_Safety.thy ===== *)
theory Lease_Safety
  imports Scenario
begin

text \<open>
  Properties of claims and leases: a claim that was lost is inert from then on, at most one claim per
  dataset is honoured, and what a claim call hands out.
\<close>

section \<open>Updates under a claim\<close>

lemma lease_is_current_held:
  assumes "lease_is_current c now s w" and "w \<in> set (t_work s)"
  shows "claim_held s c"
  using assms unfolding lease_is_current_def claim_held_def exists_where_iff by blast

lemma fenced_update_lost:
  assumes "\<not> claim_held s c" and "fenced_update c now f s = Inr (b, s')"
  shows "s' = s \<and> \<not> b"
proof -
  have "\<not> lease_is_current c now s w" if "w \<in> set (t_work s)" for w
    using lease_is_current_held that assms(1) by blast
  then have "update_where (lease_is_current c now s) f (t_work s) = t_work s"
    "count_where (lease_is_current c now s) (t_work s) = 0"
    by (auto simp: update_where_def count_where_def intro: map_idI)
  with assms(2) show ?thesis by (auto simp: fenced_update_def rbind_Inr_iff checked_Inr_iff)
qed

lemma locked_lease_held:
  assumes "lock_work_and_state c s = Some (w, d)" and "locked_lease_matches w d c now" and "claim_matches s c"
  shows "claim_held s c"
proof -
  note l = lock_work_and_state_Some [OF assms(1)]
  note m = locked_claim_matches [OF assms(3) l(1,2) assms(2)]
  show ?thesis
    using l m assms(2) unfolding claim_held_def exists_where_iff locked_lease_matches_def by blast
qed

lemma lost_exec_op:
  assumes "\<not> claim_held s c" and "claim_matches s c" and "op_claim op = Some c" and "exec_op sha1 op s = Inr (new, s')"
  shows "s' = s \<and> new = []"
proof (cases op)
  case (Complete_Ingest x1 x2 x3 x4 x5)
  with assms(3,4) obtain b where "complete_ingest sha1 c x2 x3 x4 x5 s = Inr (b, s')" "new = []"
    by (auto simp: no_claims_Inr)
  then show ?thesis
    using locked_lease_held assms(1,2) by (auto elim!: complete_ingest_cases)
next
  case (Publish_Dataset x1 x2 x3 x4 x5 x6 x7)
  with assms(3,4) obtain b where "publish_dataset sha1 c x2 x3 x4 x5 x6 x7 s = Inr (b, s')" "new = []"
    by (auto simp: no_claims_Inr)
  then show ?thesis
    using locked_lease_held assms(1,2) by (auto elim!: publish_dataset_cases)
qed (use assms fenced_update_lost in \<open>auto simp: no_claims_Inr renew_lease_def advance_phase_def retry_work_def
      block_work_def rbind_Inr_iff Let_def split: option.splits if_splits\<close>)

text \<open>
  C1. Fencing. Once an issued claim is no longer honoured (its lease was released, superseded or used
  up), no operation of any later state performed under that claim changes the database: renewals,
  checkpoints, retries, blocks and both terminal transitions leave every table as it was.
\<close>

theorem lost_claim_is_inert:
  assumes "sys_reachable sha1 s issued" and "c \<in> set issued" and "\<not> claim_held s c"
    and "sys_steps sha1 (s, issued) (s', issued')"
    and "op_claim op = Some c" and "exec_op sha1 op s' = Inr (new, s'')"
  shows "s'' = s' \<and> new = []"
proof -
  have inv: "sys_inv s issued" by (rule sys_inv_reachable [OF assms(1)])
  from sys_steps_cp [OF assms(4) inv] obtain more_claims where s': "cp_steps s s'" "sys_inv s' issued'"
    "issued' = issued @ more_claims" by blast
  have "\<not> claim_held s' c"
    using fence.lost_steps [OF s'(1)] inv assms(2,3) by (simp add: sys_inv_def)
  moreover have "claim_matches s' c"
    using sys_inv_claim_matches [OF s'(2)] assms(2) s'(3) by simp
  ultimately show ?thesis using lost_exec_op assms(5,6) by blast
qed

theorem lost_claim_is_inert_witness:
  "\<not> claim_held demo_db4 demo_claim \<and> exec_op demo_sha1 (Renew demo_claim 50 7) demo_db6 = Inr ([], demo_db6)"
proof -
  have lost: "\<not> claim_held demo_db4 demo_claim"
    by (simp add: claim_held_def demo_db4_def demo_claim_def)
  obtain new s' where run: "exec_op demo_sha1 (Renew demo_claim 50 7) demo_db6 = Inr (new, s')"
    using demo_ok6(3) by (simp add: no_claims_def renew_lease_def fenced_update_def demo_db6_def lease_is_current_def
        update_where_def checked_def demo_claim_def)
  from lost_claim_is_inert [OF demo_reachable4 _ lost demo_steps46 _ run] lost run show ?thesis by simp
qed

text \<open>
  C2. Mutual exclusion. Two issued claims on one dataset are never honoured together.
\<close>

theorem held_claims_exclusive:
  assumes "sys_reachable sha1 s issued" and "c1 \<in> set issued" and "c2 \<in> set issued"
    and "claim_held s c1" and "claim_held s c2" and "c_dataset c1 = c_dataset c2"
  shows "c1 = c2"
proof -
  have inv: "sys_inv s issued" by (rule sys_inv_reachable [OF assms(1)])
  then have ok: "constraints_ok s" and inj: "inj_on c_token (set issued)" by (simp_all add: sys_inv_def cp_inv_def)
  from assms(4) obtain w1 where w1: "w1 \<in> set (t_work s)" "w_dataset w1 = c_dataset c1" "w_state w1 = RUNNING"
    "w_token w1 = Some (c_token c1)" by (auto simp: claim_held_def exists_where_iff)
  from assms(5) obtain w2 where w2: "w2 \<in> set (t_work s)" "w_dataset w2 = c_dataset c2" "w_state w2 = RUNNING"
    "w_token w2 = Some (c_token c2)" by (auto simp: claim_held_def exists_where_iff)
  have "w1 = w2"
    by (rule unique_byD [OF constraints_ok_keys(6) [OF ok]]) (use w1 w2 assms(6) in auto)
  with w1 w2 have "c_token c1 = c_token c2" by simp
  then show ?thesis using inj assms(2,3) by (auto dest: inj_onD)
qed

theorem held_claims_exclusive_witness:
  "claim_held demo_db5 demo_publish_claim \<and> demo_claim \<noteq> demo_publish_claim \<and> \<not> claim_held demo_db5 demo_claim"
proof -
  have held: "claim_held demo_db5 demo_publish_claim" by (simp add: claim_held_def demo_db5_def demo_publish_claim_def)
  moreover have ne: "demo_claim \<noteq> demo_publish_claim" by (simp add: demo_claim_def demo_publish_claim_def)
  moreover have "c_dataset demo_claim = c_dataset demo_publish_claim" by (simp add: demo_claim_def demo_publish_claim_def)
  ultimately show ?thesis
    using held_claims_exclusive [OF demo_reachable5, of demo_claim demo_publish_claim] by auto
qed

section \<open>What a claim call hands out\<close>

text \<open>What releasing expired leases and sweeping stale work leave of a row: all but its state, lease and error.\<close>

definition row_kept :: "work_row \<Rightarrow> work_row \<Rightarrow> bool" where
  "row_kept w v =
     (work_identity v = work_identity w \<and> w_phase v = w_phase w \<and> w_attempts v = w_attempts w \<and>
      w_exp_uri v = w_exp_uri w \<and> w_exp_version v = w_exp_version w \<and> w_exp_active v = w_exp_active w \<and>
      (w_state v = SUCCEEDED) = (w_state w = SUCCEEDED))"

lemma row_kept_trans: "row_kept u v \<Longrightarrow> row_kept v w \<Longrightarrow> row_kept u w"
  by (simp add: row_kept_def)

lemma release_work:
  assumes "release_expired_leases now s = Inr s1"
  obtains g where "s1 = s\<lparr> t_work := map g (t_work s) \<rparr>"
    "\<And>w. row_kept w (g w) \<and> (g w = w \<or> lease_expired now w)"
proof -
  let ?g = "\<lambda>w. if lease_expired now w then w\<lparr> w_state := RETRY_WAIT, w_token := None, w_expires := None, w_next_at := now,
      w_error_code := Some ''LEASE_EXPIRED'', w_error_message := Some ''previous worker lease expired'', w_updated := now \<rparr> else w"
  show ?thesis
    by (rule that [of ?g]) (use assms in \<open>auto simp: release_expired_leases_def checked_Inr_iff update_where_def
      work_identity_def row_kept_def lease_expired_def\<close>)
qed

lemma sweep_work:
  assumes "sweep_stale_work now s = Inr s1"
  obtains f where "s1 = s\<lparr> t_work := map f (t_work s) \<rparr>"
    "\<And>w. row_kept w (f w) \<and> (f w = w \<or> w_state (f w) = WORK_BLOCKED)"
proof -
  let ?f = "\<lambda>w. if stale_work s w then w\<lparr> w_state := WORK_BLOCKED, w_token := None, w_expires := None,
      w_error_code := bounded_error (Some ''EXPECTATION_STALE'') ERROR_CODE_LIMIT,
      w_error_message := bounded_error (Some
        ''work frozen expectations no longer match dataset state after a newer generation published'')
        ERROR_MESSAGE_LIMIT, w_updated := now \<rparr> else w"
  show ?thesis
    by (rule that [of ?f])
      (use assms in \<open>auto simp: sweep_stale_work_def checked_Inr_iff update_where_def work_identity_def stale_work_def row_kept_def\<close>)
qed

lemma released_rows:
  assumes "release_expired_leases now s = Inr s1" and "sweep_stale_work now s1 = Inr s2"
  shows "t_snapshots s2 = t_snapshots s" and "t_datasets s2 = t_datasets s"
    and "v \<in> set (t_work s2) \<Longrightarrow> \<exists>w\<in>set (t_work s). row_kept w v \<and> (due_predicate now v \<longrightarrow> due_predicate now w \<or> lease_expired now w)"
    and "w \<in> set (t_work s) \<Longrightarrow> \<exists>v\<in>set (t_work s2). row_kept w v"
proof -
  from release_work [OF assms(1)] obtain g where s1: "s1 = s\<lparr> t_work := map g (t_work s) \<rparr>"
    and g: "\<And>w. row_kept w (g w) \<and> (g w = w \<or> lease_expired now w)" by blast
  from sweep_work [OF assms(2)] obtain f where s2: "s2 = s1\<lparr> t_work := map f (t_work s1) \<rparr>"
    and f: "\<And>w. row_kept w (f w) \<and> (f w = w \<or> w_state (f w) = WORK_BLOCKED)" by blast
  show "t_snapshots s2 = t_snapshots s" and "t_datasets s2 = t_datasets s" by (simp_all add: s1 s2)
  have t: "t_work s2 = map f (map g (t_work s))" by (simp add: s1 s2)
  have kept: "row_kept w (f (g w))" for w using f [of "g w"] g [of w] row_kept_trans by blast
  have due: "due_predicate now w \<or> lease_expired now w" if "due_predicate now (f (g w))" for w
  proof -
    have "f (g w) = g w" using f [of "g w"] that by (auto simp: due_predicate_def)
    then show ?thesis using g [of w] that by auto
  qed
  show "\<exists>w\<in>set (t_work s). row_kept w v \<and> (due_predicate now v \<longrightarrow> due_predicate now w \<or> lease_expired now w)"
    if "v \<in> set (t_work s2)"
    using that kept due unfolding t by auto
  show "\<exists>v\<in>set (t_work s2). row_kept w v" if "w \<in> set (t_work s)"
    using that kept unfolding t by auto
qed

text \<open>
  When a row may be handed out, in the terms of the tables. \<open>claim_turn\<close>: every row of the same dataset
  that is an ingest or still carries the dataset's current expectations, and that belongs to an earlier
  snapshot or is the ingest of the same one, has succeeded. \<open>claim_due\<close>: the claim copies a row and its
  dataset as they are, the dataset is active, the row is due or holds an expired lease, work other than an
  ingest still matches the dataset's location, version and active publication, it is the row's turn, and
  no blocked snapshot gates the source of an ingest.
\<close>

definition claim_turn :: "db \<Rightarrow> dataset_row \<Rightarrow> work_row \<Rightarrow> bool" where
  "claim_turn s d w = list_all (\<lambda>e.
     w_dataset e = w_dataset w \<and> w_id e \<noteq> w_id w \<and>
     (w_kind e = INGEST \<or> w_exp_uri e = d_uri d \<and> w_exp_version e = d_version d \<and> w_exp_active e = d_active d) \<and>
     (w_seq e < w_seq w \<or> w_seq e = w_seq w \<and> w_kind e = INGEST \<and> w_kind w \<noteq> INGEST) \<longrightarrow>
     w_state e = SUCCEEDED) (t_work s)"

definition claim_due :: "int \<Rightarrow> db \<Rightarrow> work_claim \<Rightarrow> bool" where
  "claim_due now s c = exists_where (\<lambda>w. exists_where (\<lambda>d.
     w_id w = c_work c \<and> w_dataset w = c_dataset c \<and> w_kind w = c_kind c \<and> w_phase w = c_phase c \<and>
     w_seq w = c_seq c \<and> w_spec w = c_spec c \<and> c_attempts c = w_attempts w + 1 \<and>
     d_id d = w_dataset w \<and> d_lifecycle d = DATASET_ACTIVE \<and> c_uri c = d_uri d \<and> c_version c = d_version d \<and>
     (w_state w \<in> {PENDING, RETRY_WAIT} \<and> w_next_at w \<le> now \<or>
      w_state w = RUNNING \<and> (case w_expires w of None \<Rightarrow> False | Some t \<Rightarrow> t \<le> now)) \<and>
     (w_kind w = INGEST \<or> w_exp_uri w = d_uri d \<and> w_exp_version w = d_version d \<and> w_exp_active w = d_active d) \<and>
     claim_turn s d w \<and>
     (w_kind w = INGEST \<longrightarrow> list_all (\<lambda>x. s_source x = w_source w \<longrightarrow> s_state x \<noteq> SNAPSHOT_BLOCKED) (t_snapshots s)))
     (t_datasets s)) (t_work s)"

lemma candidate_claimable:
  assumes "issued_from tok ex s (claim_candidates now lockw n s) c" and "constraints_ok s"
  obtains v d where "v \<in> set (t_work s)" "d \<in> set (t_datasets s)" "d_id d = w_dataset v" "c = claim_of (tok (w_id v)) ex d v"
    "due_predicate now v" "source_snapshot_allows_work s v" "lane_order_predicate s d v" "expected_state_predicate d v"
    "d_lifecycle d = DATASET_ACTIVE"
proof -
  from assms(1) obtain v d where v: "v \<in> set (claim_candidates now lockw n s)" "d \<in> set (t_datasets s)"
    "d_id d = w_dataset v" "c = claim_of (tok (w_id v)) ex d v" by (auto simp: issued_from_def)
  from v(1) have "v \<in> set (t_work s)" "claimable now s v"
    by (auto simp: claim_candidates_def dest!: in_set_takeD)
  moreover from this(2) obtain e where e: "e \<in> set (t_datasets s)" "d_id e = w_dataset v" "due_predicate now v"
    "source_snapshot_allows_work s v" "lane_order_predicate s e v" "expected_state_predicate e v"
    "d_lifecycle e = DATASET_ACTIVE" by (auto simp: claimable_def exists_where_iff)
  moreover have "e = d" using dataset_row_unique [OF assms(2) e(1) v(2)] e(2) v(3) by simp
  ultimately show thesis using that v by blast
qed

lemma claim_turn_released:
  assumes "lane_order_predicate s2 d v" and "row_kept w v"
    and "\<And>e. e \<in> set (t_work s) \<Longrightarrow> \<exists>e2\<in>set (t_work s2). row_kept e e2"
  shows "claim_turn s d w"
  unfolding claim_turn_def list_all_iff
proof (intro ballI impI)
  fix e assume e: "e \<in> set (t_work s)" "w_dataset e = w_dataset w \<and> w_id e \<noteq> w_id w \<and>
     (w_kind e = INGEST \<or> w_exp_uri e = d_uri d \<and> w_exp_version e = d_version d \<and> w_exp_active e = d_active d) \<and>
     (w_seq e < w_seq w \<or> w_seq e = w_seq w \<and> w_kind e = INGEST \<and> w_kind w \<noteq> INGEST)"
  from assms(3) [OF e(1)] obtain e2 where e2: "e2 \<in> set (t_work s2)" "row_kept e e2" by blast
  have "w_dataset e2 = w_dataset v" "w_id e2 \<noteq> w_id v" "w_kind e2 = INGEST \<or> frozen_expectations_match_dataset e2 d"
    "precedes e2 v"
    using e(2) e2(2) assms(2)
    by (auto simp: row_kept_def work_identity_iff frozen_expectations_match_dataset_def precedes_def kind_rank_def)
  then have "w_state e2 = SUCCEEDED"
    using assms(1) e2(1) unfolding lane_order_predicate_def exists_where_iff by blast
  then show "w_state e = SUCCEEDED" using e2(2) by (simp add: row_kept_def)
qed

lemma claim_due_issued:
  assumes "release_expired_leases now s = Inr s1" and "sweep_stale_work now s1 = Inr s2" and "constraints_ok s2"
    and "issued_from tok ex s2 (claim_candidates now lockw n s2) c"
  shows "claim_due now s c"
proof -
  note r = released_rows [OF assms(1,2)]
  from candidate_claimable [OF assms(4,3)] obtain v d where v: "v \<in> set (t_work s2)" "d \<in> set (t_datasets s2)"
    "d_id d = w_dataset v" "c = claim_of (tok (w_id v)) ex d v" "due_predicate now v" "source_snapshot_allows_work s2 v"
    "lane_order_predicate s2 d v" "expected_state_predicate d v" "d_lifecycle d = DATASET_ACTIVE" by blast
  from r(3) [OF v(1)] v(5) obtain w where w: "w \<in> set (t_work s)" "row_kept w v"
    "due_predicate now w \<or> lease_expired now w" by blast
  have turn: "claim_turn s d w" by (rule claim_turn_released [OF v(7) w(2) r(4)])
  have gate: "w_kind w = INGEST \<longrightarrow> list_all (\<lambda>x. s_source x = w_source w \<longrightarrow> s_state x \<noteq> SNAPSHOT_BLOCKED) (t_snapshots s)"
    using v(6) w(2) r(1) by (auto simp: source_snapshot_allows_work_def source_gated_def row_kept_def work_identity_iff
        list_all_iff exists_where_iff)
  have fields: "w_id w = c_work c" "w_dataset w = c_dataset c" "w_kind w = c_kind c" "w_phase w = c_phase c"
    "w_seq w = c_seq c" "w_spec w = c_spec c" "c_attempts c = w_attempts w + 1" "c_uri c = d_uri d" "c_version c = d_version d"
    "d_id d = w_dataset w"
    using w(2) v(3) unfolding v(4) by (simp_all add: row_kept_def work_identity_iff claim_of_def)
  have exp: "w_kind w = INGEST \<or> w_exp_uri w = d_uri d \<and> w_exp_version w = d_version d \<and> w_exp_active w = d_active d"
    using v(8) w(2) by (auto simp: expected_state_predicate_def frozen_expectations_match_dataset_def row_kept_def work_identity_iff)
  have due: "w_state w \<in> {PENDING, RETRY_WAIT} \<and> w_next_at w \<le> now \<or>
      w_state w = RUNNING \<and> (case w_expires w of None \<Rightarrow> False | Some t \<Rightarrow> t \<le> now)"
    using w(3) by (simp add: due_predicate_def lease_expired_def)
  have d: "d \<in> set (t_datasets s)" using v(2) r(2) by simp
  show ?thesis
    unfolding claim_due_def exists_where_iff
    by (rule bexI [OF _ w(1)], rule bexI [OF _ d]) (intro conjI; (rule fields v(9) exp due turn gate))
qed

lemma claim_call_spec:
  assumes "claim_due_work tok lockw lockd limit duration now s = Inr (cs, s')"
  shows "int (length cs) \<le> limit" "distinct (map c_dataset cs)"
    and "c \<in> set cs \<Longrightarrow> claim_held s' c \<and> c_expires c = Some (now + duration) \<and> c_token c = tok (c_work c) \<and>
      fence_of s (c_dataset c) = Some (c_fence c - 1) \<and> claim_due now s c"
proof -
  from assms obtain s1 s2 where s12: "release_expired_leases now s = Inr s1" "sweep_stale_work now s1 = Inr s2"
    and loop: "claim_loop tok lockd (nat limit) now duration (claim_candidates now lockw (nat limit) s2) [] s2 = Inr (cs, s')"
    and pos: "1 \<le> limit"
    by (auto simp: claim_due_work_def rbind_Inr_iff ensure_Inr_iff)
  have ok: "constraints_ok s2" by (rule cp_step_constraints [OF sweep_stale_refines [OF s12(2)]])
  have same: "t_datasets s2 = t_datasets s"
    using s12 by (auto simp: release_expired_leases_def sweep_stale_work_def checked_Inr_iff)
  from claim_loop_spec [OF loop ok] claim_candidates_ready [OF _ ok]
  have spec: "distinct (map c_dataset cs)" "length cs \<le> nat limit"
    "\<And>c. c \<in> set cs \<Longrightarrow> claim_held s' c \<and> issued_from tok (now + duration) s2 (claim_candidates now lockw (nat limit) s2) c"
    by force+
  have "c_expires c = Some (now + duration) \<and> c_token c = tok (c_work c) \<and> fence_of s (c_dataset c) = Some (c_fence c - 1)"
    if "c \<in> set cs" for c
  proof -
    from spec(3) [OF that] obtain w d where wd: "d \<in> set (t_datasets s2)" "d_id d = w_dataset w"
      "c = claim_of (tok (w_id w)) (now + duration) d w" by (auto simp: issued_from_def)
    have "fence_of s2 (w_dataset w) = Some (d_fence d)"
      unfolding fence_of_iff [OF ok] using wd by blast
    then show ?thesis using wd(3) same by (simp add: claim_of_def fence_of_def)
  qed
  moreover have "claim_due now s c" if "c \<in> set cs" for c
    using claim_due_issued [OF s12 ok] spec(3) [OF that] by blast
  ultimately show "int (length cs) \<le> limit" "distinct (map c_dataset cs)"
    "c \<in> set cs \<Longrightarrow> claim_held s' c \<and> c_expires c = Some (now + duration) \<and> c_token c = tok (c_work c) \<and>
      fence_of s (c_dataset c) = Some (c_fence c - 1) \<and> claim_due now s c" using spec pos by auto
qed

text \<open>
  C10. What \<open>claim_due_work\<close> returns: at most \<open>limit\<close> claims, one per dataset, each honoured in the
  committed state until \<open>now + duration\<close> under the next fence of its dataset. Each is a copy of a row and
  its dataset as they were before the call; the dataset is active; the row was due or held an expired
  lease; work other than an ingest still matched the dataset's location, version and active publication;
  every row of the dataset that precedes it in lane order (an earlier snapshot, or the ingest of the same
  snapshot, publications and rebuilds counting while their expectations are current) had succeeded; and no
  blocked snapshot gated the source of an ingest.
\<close>

theorem claim_due_work_hands_out:
  assumes "claim_due_work tok lockw lockd limit duration now s = Inr (cs, s')"
  shows "int (length cs) \<le> limit \<and> distinct (map c_dataset cs) \<and>
    (\<forall>c\<in>set cs. claim_held s' c \<and> c_expires c = Some (now + duration) \<and> c_token c = tok (c_work c) \<and>
       fence_of s (c_dataset c) = Some (c_fence c - 1) \<and> claim_due now s c)"
  using claim_call_spec [OF assms] by blast

theorem claim_due_work_hands_out_witness:
  "claim_due_work demo_tokens (\<lambda>_. False) (\<lambda>_. False) 1 100 5 demo_db4 = Inr ([demo_publish_claim], demo_db5) \<and>
   claim_held demo_db5 demo_publish_claim \<and> claim_due 5 demo_db4 demo_publish_claim"
proof -
  have run: "claim_due_work demo_tokens (\<lambda>_. False) (\<lambda>_. False) 1 100 5 demo_db4 = Inr ([demo_publish_claim], demo_db5)"
    using demo_step5 by (simp add: demo_claim_op2_def)
  then show ?thesis using claim_due_work_hands_out [OF run] by simp
qed

end
