(* ===== verification/Lease_Progress.thy ===== *)
theory Lease_Progress
  imports Lease_Safety
begin

text \<open>
  Lease operations decide: on a valid database the housekeeping of the claim call and the operations a
  worker performs under its claim never hit a constraint, and report success exactly when the lease is
  current.
\<close>

section \<open>Work updates that keep the constraints\<close>

definition calm :: "work_row \<Rightarrow> work_row \<Rightarrow> bool" where
  "calm w w' =
     (work_identity w' = work_identity w \<and> work_check w' \<and> (w_state w' = RUNNING \<longrightarrow> w_state w = RUNNING) \<and>
      (open_publish w' \<longrightarrow> open_publish w))"

lemma unique_by_map:
  assumes "unique_by p key xs" and "\<And>x. x \<in> set xs \<Longrightarrow> key (f x) = key x" and "\<And>x. x \<in> set xs \<Longrightarrow> p (f x) \<Longrightarrow> p x"
  shows "unique_by p key (map f xs)"
proof -
  have "distinct (map key (filter p (map f xs)))" if "distinct (map key (filter p xs))"
    "\<And>x. x \<in> set xs \<Longrightarrow> key (f x) = key x" "\<And>x. x \<in> set xs \<Longrightarrow> p (f x) \<Longrightarrow> p x"
    using that
  proof (induction xs)
    case (Cons a xs)
    have "key ` {x \<in> set (map f xs). p x} \<subseteq> key ` {x \<in> set xs. p x}"
      using Cons.prems(2,3) by force
    then show ?case using Cons by (auto split: if_splits)
  qed simp
  then show ?thesis using assms by (simp add: unique_by_def)
qed

lemma constraints_ok_map_work:
  assumes "constraints_ok s" and "\<And>w. w \<in> set (t_work s) \<Longrightarrow> calm w (f w)"
  shows "constraints_ok (s\<lparr> t_work := map f (t_work s) \<rparr>)"
proof -
  have id: "w_id (f w) = w_id w" "w_dataset (f w) = w_dataset w" "w_source (f w) = w_source w" "w_seq (f w) = w_seq w"
    "w_spec (f w) = w_spec w" "w_kind (f w) = w_kind w" "work_check (f w)"
    "w_state (f w) = RUNNING \<Longrightarrow> w_state w = RUNNING" "open_publish (f w) \<Longrightarrow> open_publish w"
    if "w \<in> set (t_work s)" for w
    using assms(2) [OF that] by (simp_all add: calm_def work_identity_iff)
  have keys: "work_keys (map f (t_work s))"
    using assms(1) id unfolding constraints_ok_def work_keys_def
    by (auto intro!: unique_by_map simp: list_all_iff)
  have wrefs: "work_refs (s\<lparr> t_work := map f (t_work s) \<rparr>)"
    using assms(1) id by (auto simp: constraints_ok_def work_refs_def list_all_iff)
  have ex: "exists_where q (map f (t_work s))" if "exists_where q (t_work s)"
    "\<And>w. w \<in> set (t_work s) \<Longrightarrow> q w \<Longrightarrow> q (f w)" for q
    using that by (auto simp: exists_where_iff)
  have prefs: "publication_refs (s\<lparr> t_work := map f (t_work s) \<rparr>)"
    using assms(1) id unfolding constraints_ok_def publication_refs_def list_all_iff
    by (auto intro!: ex)
  show ?thesis
    using assms(1) keys wrefs prefs
    by (simp add: constraints_ok_def dataset_refs_def snapshot_refs_def pubindex_refs_def cong: option.case_cong)
qed

lemma calm_refl: "constraints_ok s \<Longrightarrow> w \<in> set (t_work s) \<Longrightarrow> calm w w"
  by (simp add: calm_def constraints_ok_def work_keys_def list_all_iff)

lemma constraints_ok_update_work:
  assumes "constraints_ok s" and "\<And>w. w \<in> set (t_work s) \<Longrightarrow> p w \<Longrightarrow> calm w (f w)"
  shows "constraints_ok (s\<lparr> t_work := update_where p f (t_work s) \<rparr>)"
  unfolding update_where_def by (rule constraints_ok_map_work [OF assms(1)]) (use assms calm_refl in auto)

lemma work_check_of: "constraints_ok s \<Longrightarrow> w \<in> set (t_work s) \<Longrightarrow> work_check w"
  by (simp add: constraints_ok_def work_keys_def list_all_iff)

lemma count_key_one:
  assumes "unique_key key xs" and "\<And>x. x \<in> set xs \<Longrightarrow> p x \<Longrightarrow> key x = k"
  shows "(count_where p xs = 1) \<longleftrightarrow> (\<exists>x\<in>set xs. p x)"
  using assms
proof (induction xs)
  case (Cons a xs)
  have "p a \<Longrightarrow> \<not> (\<exists>x\<in>set xs. p x)"
    using Cons.prems by (force simp: unique_by_def)
  moreover have "(count_where p xs = 0) \<longleftrightarrow> \<not> (\<exists>x\<in>set xs. p x)" by (auto simp: count_where_def filter_empty_conv)
  moreover have "unique_key key xs" using Cons.prems(1) by (auto simp: unique_by_def)
  ultimately show ?case using Cons by (auto simp: count_where_def)
qed (simp add: count_where_def)

section \<open>Lease operations\<close>

definition lease_current :: "work_claim \<Rightarrow> int \<Rightarrow> db \<Rightarrow> bool" where
  "lease_current c now s = exists_where (lease_is_current c now s) (t_work s)"

lemma fenced_update_decides:
  assumes "constraints_ok s"
    and "\<And>w. w \<in> set (t_work s) \<Longrightarrow> lease_is_current c now s w \<Longrightarrow> calm w (f w)"
  shows "fenced_update c now f s =
    Inr (lease_current c now s, s\<lparr> t_work := update_where (lease_is_current c now s) f (t_work s) \<rparr>)"
proof -
  have "(count_where (lease_is_current c now s) (t_work s) = 1) = lease_current c now s"
    unfolding lease_current_def exists_where_iff
    by (rule count_key_one [OF constraints_ok_keys(1) [OF assms(1)], of _ "c_work c"]) (simp add: lease_is_current_def)
  moreover have "checked (s\<lparr> t_work := update_where (lease_is_current c now s) f (t_work s) \<rparr>) =
      Inr (s\<lparr> t_work := update_where (lease_is_current c now s) f (t_work s) \<rparr>)"
    using constraints_ok_update_work [OF assms] by (simp add: checked_Inr_iff)
  ultimately show ?thesis by (simp add: fenced_update_def)
qed

lemma lease_row:
  assumes "constraints_ok s" and "w \<in> set (t_work s)" and "lease_is_current c now s w"
  shows "work_check w" "w_state w = RUNNING"
  using assms work_check_of by (auto simp: lease_is_current_def)

lemma calm_released:
  assumes "work_check w" and "w_state w = RUNNING" and "st \<in> {RETRY_WAIT, WORK_BLOCKED}"
  shows "calm w (w\<lparr> w_state := st, w_token := None, w_expires := None, w_next_at := t, w_error_code := ec,
    w_error_message := em, w_updated := now \<rparr>)"
  using assms by (auto simp: calm_def work_check_def open_publish_def work_identity_iff)

lemma block_row_eq:
  "w\<lparr> w_state := st, w_token := None, w_expires := None, w_error_code := ec, w_error_message := em, w_updated := now \<rparr> =
   w\<lparr> w_state := st, w_token := None, w_expires := None, w_next_at := w_next_at w, w_error_code := ec,
     w_error_message := em, w_updated := now \<rparr>"
  by simp

definition retried_row :: "work_claim \<Rightarrow> int \<Rightarrow> string \<Rightarrow> string \<Rightarrow> int \<Rightarrow> int \<Rightarrow> work_row \<Rightarrow> work_row" where
  "retried_row c delay ec em max_attempts now w =
     (if max_attempts \<le> c_attempts c
      then w\<lparr> w_state := WORK_BLOCKED, w_token := None, w_expires := None, w_next_at := now,
        w_error_code := bounded_error (Some ''MAX_ATTEMPTS_EXHAUSTED'') ERROR_CODE_LIMIT,
        w_error_message := bounded_error (Some (ec @ '': '' @ em)) ERROR_MESSAGE_LIMIT, w_updated := now \<rparr>
      else w\<lparr> w_state := RETRY_WAIT, w_token := None, w_expires := None, w_next_at := now + delay,
        w_error_code := bounded_error (Some ec) ERROR_CODE_LIMIT,
        w_error_message := bounded_error (Some em) ERROR_MESSAGE_LIMIT, w_updated := now \<rparr>)"

lemma retry_work_alt:
  "0 \<le> delay \<Longrightarrow> retry_work c delay ec em max_attempts now s = fenced_update c now (retried_row c delay ec em max_attempts now) s"
  unfolding retry_work_def by (rule trans) (auto simp: Let_def retried_row_def fun_eq_iff intro!: arg_cong [where f = "\<lambda>f. fenced_update c now f s"])

text \<open>
  C14. The lease operations decide. On a valid database, renewing, retrying and blocking never raise and
  report success exactly when the claim's lease is current; the update they make is confined to the one
  work row under the lease. A retry whose claim has used up its attempts blocks the work instead of
  scheduling it again.
\<close>

theorem lease_operations_decide:
  assumes "constraints_ok s" and "0 < duration" and "0 \<le> delay"
  shows "renew_lease c duration now s =
      Inr (lease_current c now s, s\<lparr> t_work := update_where (lease_is_current c now s)
        (\<lambda>w. w\<lparr> w_expires := Some (now + duration), w_updated := now \<rparr>) (t_work s) \<rparr>) \<and>
    retry_work c delay ec em max_attempts now s =
      Inr (lease_current c now s, s\<lparr> t_work := update_where (lease_is_current c now s)
        (retried_row c delay ec em max_attempts now) (t_work s) \<rparr>) \<and>
    (\<exists>s'. block_work c ec em now s = Inr (lease_current c now s, s'))"
proof (intro conjI)
  note row = lease_row [OF assms(1)]
  have "calm w (w\<lparr> w_expires := Some (now + duration), w_updated := now \<rparr>)"
    if "w \<in> set (t_work s)" "lease_is_current c now s w" for w
    using row [OF that] by (auto simp: calm_def work_check_def open_publish_def work_identity_iff)
  then show "renew_lease c duration now s =
      Inr (lease_current c now s, s\<lparr> t_work := update_where (lease_is_current c now s)
        (\<lambda>w. w\<lparr> w_expires := Some (now + duration), w_updated := now \<rparr>) (t_work s) \<rparr>)"
    using fenced_update_decides [OF assms(1)] assms(2) by (simp add: renew_lease_def)
  have "calm w (retried_row c delay ec em max_attempts now w)" if "w \<in> set (t_work s)" "lease_is_current c now s w" for w
    unfolding retried_row_def using row [OF that] calm_released by simp
  then show "retry_work c delay ec em max_attempts now s =
      Inr (lease_current c now s, s\<lparr> t_work := update_where (lease_is_current c now s)
        (retried_row c delay ec em max_attempts now) (t_work s) \<rparr>)"
    using fenced_update_decides [OF assms(1), of c now "retried_row c delay ec em max_attempts now"] assms(3)
    by (simp add: retry_work_alt)
  have "calm w (w\<lparr> w_state := WORK_BLOCKED, w_token := None, w_expires := None, w_error_code := u, w_error_message := v,
      w_updated := now \<rparr>)" if "w \<in> set (t_work s)" "lease_is_current c now s w" for w u v
    by (subst block_row_eq, rule calm_released) (use row [OF that] in simp_all)
  then show "\<exists>s'. block_work c ec em now s = Inr (lease_current c now s, s')"
    using fenced_update_decides [OF assms(1)] by (simp add: block_work_def)
qed

theorem lease_operations_decide_witness:
  "lease_current demo_claim 4 demo_db3 \<and> (\<exists>s'. renew_lease demo_claim 50 4 demo_db3 = Inr (True, s')) \<and>
   (\<exists>s'. retry_work demo_claim 30 ''E'' ''m'' 5 4 demo_db3 = Inr (True, s'))"
proof -
  have cur: "lease_current demo_claim 4 demo_db3"
    by (simp add: lease_current_def demo_db3_def lease_is_current_def demo_claim_def)
  then show ?thesis using lease_operations_decide [OF demo_ok3(2), of 50 30] by simp
qed

end
