(* ===== verification/Ingest_Completion.thy ===== *)
theory Ingest_Completion
  imports Lease_Progress
begin

text \<open>
  Completing an ingest: what one committed completion changes, and that reporting it again, however
  late, is recognised.
\<close>

lemma ingest_committed:
  assumes "sys_inv s issued" and "c \<in> set issued" and "complete_ingest sha1 c version rows digest now s = Inr (b, s')"
    and "s' \<noteq> s"
  obtains w d where "w \<in> set (t_work s)" "w_id w = c_work c" "w_dataset w = c_dataset c" "w_kind w = INGEST"
    "w_state w = RUNNING" "d \<in> set (t_datasets s)" "d_id d = c_dataset c" "frozen_expectations_match_dataset w d"
    "s' = ingest_db sha1 version rows digest now d w s" "constraints_ok s'" "claim_held s c" "b"
    "c_kind c = INGEST" "0 \<le> version \<and> 0 \<le> rows \<and> length digest = 32"
proof -
  have valid: "c_kind c = INGEST" "0 \<le> version \<and> 0 \<le> rows \<and> length digest = 32"
    using assms(3) by (auto simp: complete_ingest_def rbind_Inr_iff ensure_Inr_iff)
  note m = sys_inv_claim_matches [OF assms(1,2)]
  from assms(3) show thesis
  proof (cases rule: complete_ingest_cases)
    case unchanged
    with assms(4) show thesis by simp
  next
    case (ingested w d)
    note l = lock_work_and_state_Some [OF ingested(1)]
    note k = locked_claim_matches [OF m l(1,2) ingested(3)]
    show thesis
      using that [OF l(1,2) k(1) _ k(3) l(3,4) ingested(4) ingested(7) [OF k(1)] ingested(8)
          locked_lease_held [OF ingested(1,3) m] ingested(5) valid] k(2) valid(1) by simp
  qed
qed

lemma ingest_row_after:
  assumes "w \<in> set (t_work s)" and "constraints_ok s"
  shows "ingested_row version rows digest now w w \<in> set (t_work (ingest_db sha1 version rows digest now d w s))"
  using assms(1) unfolding ingest_db_work by (auto simp: insert_new_def set_update_where image_iff)

lemma ingest_dataset_after:
  assumes "d \<in> set (t_datasets s)" and "d_id d = w_dataset w"
  shows "d\<lparr> d_materialized := Some (w_spec w), d_last_seq := Some (w_seq w), d_uri := w_exp_uri w,
    d_version := Some version, d_updated := now \<rparr> \<in> set (t_datasets (ingest_db sha1 version rows digest now e w s))"
  using assms by (auto simp: ingest_db_def Let_def set_update_where image_iff)

lemma applied_before:
  assumes "cp_inv s" and "w \<in> set (t_work s)" and "w_kind w = INGEST" and "w_state w = RUNNING"
    and "q \<in> applied s (w_dataset w)"
  shows "q < w_seq w"
proof (rule ccontr)
  assume "\<not> q < w_seq w"
  from assms(5) obtain v where v: "v \<in> set (t_work s)" "w_dataset v = w_dataset w" "w_kind v = INGEST"
    "w_state v = SUCCEEDED" "w_seq v = q" by (auto simp: applied_iff)
  have ok: "constraints_ok s" and lane: "lane_inv s" using assms(1) by (simp_all add: cp_inv_def)
  have "q \<noteq> w_seq w"
  proof
    assume "q = w_seq w"
    have u: "unique_by (\<lambda>w. w_kind w \<noteq> REBUILD) (\<lambda>w. (w_dataset w, w_seq w, w_kind w)) (t_work s)"
      using ok unfolding constraints_ok_def work_keys_def by blast
    have k: "(w_dataset v, w_seq v, w_kind v) = (w_dataset w, w_seq w, w_kind w)" "w_kind v \<noteq> REBUILD" "w_kind w \<noteq> REBUILD"
      using v(2,3,5) assms(3) \<open>q = w_seq w\<close> by simp_all
    have "v = w" by (rule unique_byD [OF u v(1) assms(2)]) (use k in simp_all)
    with v(4) assms(4) show False by simp
  qed
  with \<open>\<not> q < w_seq w\<close> have "w_seq w < w_seq v" using v(5) by simp
  with bspec [OF bspec [OF lane [unfolded lane_inv_def] assms(2)] v(1)] v(2-4) assms(3)
  have "w_state w = SUCCEEDED" by simp
  with assms(4) show False by simp
qed

text \<open>The rest of the database after a completion.\<close>

lemma ingest_db_rest:
  assumes "s' = ingest_db sha1 version rows digest now d w s"
  shows "\<forall>v\<in>set (t_work s). w_id v \<noteq> w_id w \<longrightarrow> v \<in> set (t_work s')"
    and "\<forall>e\<in>set (t_datasets s). d_id e \<noteq> w_dataset w \<longrightarrow> e \<in> set (t_datasets s')"
  by (auto simp: assms ingest_db_def Let_def insert_new_def set_update_where image_iff)

lemma ingest_db_queue:
  assumes "s' = ingest_db sha1 version rows digest now d w s"
  shows "deterministic_publish_work_id sha1 (w_dataset w) (w_seq w) (w_spec w) \<notin> w_id ` set (t_work s) \<longrightarrow>
    filter (\<lambda>v. w_id v = deterministic_publish_work_id sha1 (w_dataset w) (w_seq w) (w_spec w)) (t_work s') =
      [publish_work_row (deterministic_publish_work_id sha1 (w_dataset w) (w_seq w) (w_spec w)) (w_dataset w) (w_source w)
        (w_seq w) (w_spec w) (w_exp_uri w) version (d_active d) now]"
proof
  let ?pid = "deterministic_publish_work_id sha1 (w_dataset w) (w_seq w) (w_spec w)"
  let ?ws = "update_where (\<lambda>x. w_id x = w_id w) (ingested_row version rows digest now w) (t_work s)"
  assume new: "?pid \<notin> w_id ` set (t_work s)"
  have "map w_id ?ws = map w_id (t_work s)" by (simp add: update_where_def)
  from arg_cong [OF this, of set] have ids: "w_id ` set ?ws = w_id ` set (t_work s)" by simp
  have "filter (\<lambda>v. w_id v = ?pid) ?ws = []"
    unfolding filter_empty_conv using new ids by (metis imageI)
  moreover have "?pid \<notin> w_id ` set ?ws" using new ids by simp
  then have "\<not> exists_where (\<lambda>x. w_id x = ?pid) ?ws" unfolding exists_where_iff by (metis imageI)
  ultimately show "filter (\<lambda>v. w_id v = ?pid) (t_work s') = [publish_work_row ?pid (w_dataset w) (w_source w)
        (w_seq w) (w_spec w) (w_exp_uri w) version (d_active d) now]"
    unfolding assms ingest_db_work by (simp add: insert_new_def publish_work_row_def)
qed

lemma ingest_snapshots_after:
  assumes "s' = ingest_db sha1 version rows digest now d w s"
  shows "t_snapshots s' = map (\<lambda>x. if s_seq x = w_seq w \<and> s_state x \<noteq> SNAPSHOT_BLOCKED \<and>
      (\<forall>v\<in>set (t_work s'). w_seq v = w_seq w \<and> w_kind v = INGEST \<longrightarrow> w_state v = SUCCEEDED)
    then x\<lparr> s_state := COMPLETE, s_updated := now \<rparr> else x) (t_snapshots s)"
  by (auto simp: assms ingest_db_def Let_def update_where_def incomplete_ingest_def exists_where_iff)

text \<open>
  C11. A completion that commits needs a claim that is honoured and ends it. It finishes the claimed ingest
  row with the reported version, row count and digest, advances the dataset to the row's snapshot and to the
  reported version, leaves the serving pointer and every other row alone, and extends the dataset's applied
  snapshots by one strictly newer than all of them. Unless a row with the deterministic publication work id
  exists already, it queues exactly one publication under that id: pending, at its first phase, for the same
  dataset, source, snapshot and revision, with the new URI and version and the current pointer as its
  expectations and its candidate. The snapshot is completed when this was its last unfinished ingest and it
  is not blocked.
\<close>

theorem complete_ingest_commits:
  assumes "sys_reachable sha1 s issued" and "c \<in> set issued"
    and "complete_ingest sha1 c version rows digest now s = Inr (b, s')" and "s' \<noteq> s"
  shows "b \<and> claim_held s c \<and> \<not> claim_held s' c \<and>
    (\<exists>w d. w \<in> set (t_work s) \<and> w_id w = c_work c \<and> d \<in> set (t_datasets s) \<and> d_id d = c_dataset c \<and>
       w\<lparr> w_state := SUCCEEDED, w_token := None, w_expires := None, w_applied_at := Some now, w_row_count := Some rows,
          w_source_digest := Some digest, w_cand_uri := Some (d_uri d), w_cand_version := Some version,
          w_updated := now \<rparr> \<in> set (t_work s') \<and>
       d\<lparr> d_materialized := Some (w_spec w), d_last_seq := Some (w_seq w), d_version := Some version, d_updated := now \<rparr>
         \<in> set (t_datasets s') \<and>
       (\<forall>v\<in>set (t_work s). w_id v \<noteq> c_work c \<longrightarrow> v \<in> set (t_work s')) \<and>
       (\<forall>e\<in>set (t_datasets s). d_id e \<noteq> c_dataset c \<longrightarrow> e \<in> set (t_datasets s')) \<and>
       applied s' (c_dataset c) = insert (w_seq w) (applied s (c_dataset c)) \<and>
       (\<forall>q\<in>applied s (c_dataset c). q < w_seq w) \<and>
       (deterministic_publish_work_id sha1 (c_dataset c) (w_seq w) (w_spec w) \<notin> w_id ` set (t_work s) \<longrightarrow>
          filter (\<lambda>v. w_id v = deterministic_publish_work_id sha1 (c_dataset c) (w_seq w) (w_spec w)) (t_work s') =
            [\<lparr> w_id = deterministic_publish_work_id sha1 (c_dataset c) (w_seq w) (w_spec w), w_dataset = c_dataset c,
               w_source = w_source w, w_seq = w_seq w, w_spec = w_spec w, w_kind = PUBLISH, w_state = PENDING,
               w_phase = PH_COMPACT, w_token = None, w_expires = None, w_attempts = 0, w_launcher = LOCAL, w_next_at = now,
               w_exp_uri = d_uri d, w_exp_version = Some version, w_exp_active = d_active d, w_cand_uri = Some (d_uri d),
               w_cand_version = Some version, w_applied_at = None, w_row_count = None, w_source_digest = None,
               w_manifest_uri = None, w_manifest_digest = None, w_error_code = None, w_error_message = None,
               w_created = now, w_updated = now \<rparr>]) \<and>
       t_snapshots s' = map (\<lambda>x. if s_seq x = w_seq w \<and> s_state x \<noteq> SNAPSHOT_BLOCKED \<and>
           (\<forall>v\<in>set (t_work s'). w_seq v = w_seq w \<and> w_kind v = INGEST \<longrightarrow> w_state v = SUCCEEDED)
         then x\<lparr> s_state := COMPLETE, s_updated := now \<rparr> else x) (t_snapshots s))"
proof -
  have inv: "sys_inv s issued" by (rule sys_inv_reachable [OF assms(1)])
  then have cp: "cp_inv s" and ok: "constraints_ok s" by (simp_all add: sys_inv_def cp_inv_def)
  from ingest_committed [OF inv assms(2-4)] obtain w d where wd: "w \<in> set (t_work s)" "w_id w = c_work c"
    "w_dataset w = c_dataset c" "w_kind w = INGEST" "w_state w = RUNNING" "d \<in> set (t_datasets s)" "d_id d = c_dataset c"
    "frozen_expectations_match_dataset w d" "s' = ingest_db sha1 version rows digest now d w s" "constraints_ok s'"
    "claim_held s c" "b" by metis
  let ?w' = "ingested_row version rows digest now w w"
  have uri: "w_exp_uri w = d_uri d" using wd(8) by (simp add: frozen_expectations_match_dataset_def)
  have w': "?w' \<in> set (t_work s')" using ingest_row_after [OF wd(1) ok] wd(9) by simp
  have d': "d\<lparr> d_materialized := Some (w_spec w), d_last_seq := Some (w_seq w), d_version := Some version, d_updated := now \<rparr>
      \<in> set (t_datasets s')"
  proof -
    have "d_id d = w_dataset w" using wd(3,7) by simp
    from ingest_dataset_after [OF wd(6) this, of now version sha1 rows digest d]
    have "d\<lparr> d_materialized := Some (w_spec w), d_last_seq := Some (w_seq w), d_uri := d_uri d,
      d_version := Some version, d_updated := now \<rparr> \<in> set (t_datasets s')" unfolding wd(9) uri .
    moreover have "d\<lparr> d_materialized := Some (w_spec w), d_last_seq := Some (w_seq w), d_uri := d_uri d,
      d_version := Some version, d_updated := now \<rparr> = d\<lparr> d_materialized := Some (w_spec w), d_last_seq := Some (w_seq w),
      d_version := Some version, d_updated := now \<rparr>" by (cases d) simp
    ultimately show ?thesis by simp
  qed
  have ended: "\<not> claim_held s' c"
  proof
    assume "claim_held s' c"
    then obtain v where v: "v \<in> set (t_work s')" "w_id v = c_work c" "w_state v = RUNNING"
      by (auto simp: claim_held_def exists_where_iff)
    have "v = ?w'" by (rule work_row_unique [OF wd(10) v(1) w']) (use v wd in simp)
    with v(3) show False by simp
  qed
  note rest = ingest_db_rest [OF wd(9)] ingest_db_queue [OF wd(9)] ingest_snapshots_after [OF wd(9)]
  have applied: "applied s' (c_dataset c) = insert (w_seq w) (applied s (c_dataset c))"
    "\<forall>q\<in>applied s (c_dataset c). q < w_seq w"
    using applied_ingest [OF ok wd(1,4)] applied_before [OF cp wd(1,4,5)] wd(3,9) by simp_all
  show ?thesis
    using wd(1,2,6,7,11,12) ended w' d' applied rest
    by (intro conjI exI [of _ w] exI [of _ d]) (simp_all add: ingested_row_def wd(2,3,7) uri publish_work_row_def)
qed

theorem complete_ingest_commits_witness:
  "complete_ingest demo_sha1 demo_claim 3 10 (replicate 32 0) 4 demo_db3 = Inr (True, demo_db4) \<and>
   claim_held demo_db3 demo_claim \<and> \<not> claim_held demo_db4 demo_claim \<and>
   (\<exists>d\<in>set (t_datasets demo_db4). d_id d = demo_dataset \<and> d_version d = Some 3)"
proof -
  have "t_work demo_db4 \<noteq> t_work demo_db3" by (simp add: demo_db4_def demo_db3_def)
  then have ne: "demo_db4 \<noteq> demo_db3" by auto
  have ds: "c_dataset demo_claim = demo_dataset" by (simp add: demo_claim_def)
  have "demo_claim \<in> set [demo_claim]" by simp
  note commit = complete_ingest_commits [OF demo_reachable3 this demo_completed ne]
  note held = conjunct1 [OF conjunct2 [OF commit]] conjunct1 [OF conjunct2 [OF conjunct2 [OF commit]]]
  from conjunct2 [OF conjunct2 [OF conjunct2 [OF commit]]] obtain d and w :: work_row where "d_id d = c_dataset demo_claim"
    and d: "d\<lparr> d_materialized := Some (w_spec w), d_last_seq := Some (w_seq w), d_version := Some 3, d_updated := 4 \<rparr>
      \<in> set (t_datasets demo_db4)" by (elim exE conjE) rule
  have "\<exists>d\<in>set (t_datasets demo_db4). d_id d = demo_dataset \<and> d_version d = Some 3"
    using \<open>d_id d = _\<close> ds by (intro bexI [OF _ d]) simp
  with held demo_completed show ?thesis by simp
qed

section \<open>Replays\<close>

lemma succeeded_ingest_steps:
  assumes "cp_steps s t" and "cp_inv s" and "w \<in> set (t_work s)" and "w_state w = SUCCEEDED" and "w_kind w \<noteq> PUBLISH"
  shows "w \<in> set (t_work t)"
proof -
  have "w \<in> set (t_work s) \<longrightarrow> w \<in> set (t_work t)"
    by (rule cp.relates_steps [OF assms(1,2), of "\<lambda>u v. w \<in> set (t_work u) \<longrightarrow> w \<in> set (t_work v)"])
      (use succeeded_step assms(4,5) in \<open>auto simp: cp_inv_def\<close>)
  with assms(3) show ?thesis by blast
qed

lemma applied_last_seq:
  assumes "cp_inv t" and "q \<in> applied t did"
  obtains d where "d \<in> set (t_datasets t)" "d_id d = did" "\<exists>r. d_last_seq d = Some r \<and> q \<le> r"
proof -
  from assms(2) obtain w where w: "w \<in> set (t_work t)" "w_dataset w = did" by (auto simp: applied_iff)
  have ok: "constraints_ok t" and last: "last_inv t" using assms(1) by (simp_all add: cp_inv_def)
  from work_refD(1) [OF ok w(1)] obtain d where d: "d \<in> set (t_datasets t)" "d_id d = did" using w(2) by auto
  with last assms(2) have "\<exists>r. d_last_seq d = Some r \<and> q \<le> r"
    by (auto simp: last_inv_def split: option.splits dest!: bspec [OF _ d(1)])
  with d show thesis by (rule that)
qed

lemma lock_work_and_state_eq:
  assumes "constraints_ok t" and "w \<in> set (t_work t)" and "w_id w = c_work c" and "d \<in> set (t_datasets t)" and "d_id d = c_dataset c"
  shows "lock_work_and_state c t = Some (w, d)"
proof -
  have "lookup_by w_id (c_work c) (t_work t) = Some w" "lookup_by d_id (c_dataset c) (t_datasets t) = Some d"
    using assms constraints_ok_keys(1,2) [OF assms(1)] by (simp_all add: lookup_by_Some_iff)
  then show ?thesis by (simp add: lock_work_and_state_def)
qed

lemma completed_replay:
  assumes "cp_inv t" and "w \<in> set (t_work t)" and "w_id w = c_work c" and "w_dataset w = c_dataset c"
    and "w_kind w = INGEST" and "w_state w = SUCCEEDED" and "c_kind c = INGEST"
    and "0 \<le> version \<and> 0 \<le> rows \<and> length digest = 32"
  shows "complete_ingest sha1 c version rows digest now t =
    (if (w_cand_version w, w_row_count w, w_source_digest w) = (Some version, Some rows, Some digest)
     then Inr (True, t) else Inl StateTransitionError)"
proof -
  have ok: "constraints_ok t" using assms(1) by (simp add: cp_inv_def)
  have "w_seq w \<in> applied t (c_dataset c)" using assms(2,4,5,6) by (auto simp: applied_iff)
  from applied_last_seq [OF assms(1) this] obtain d r where d: "d \<in> set (t_datasets t)" "d_id d = c_dataset c"
    "d_last_seq d = Some r" "w_seq w \<le> r" by metis
  have lock: "lock_work_and_state c t = Some (w, d)"
    by (rule lock_work_and_state_eq [OF ok assms(2,3) d(1,2)])
  let ?same = "(w_cand_version w, w_row_count w, w_source_digest w) = (Some version, Some rows, Some digest)"
  have "completed_ingest_matches w d version rows digest = (if ?same then Inr True else Inl StateTransitionError)"
    using d(3,4) assms(6) unfolding completed_ingest_matches_def by (cases ?same) (simp_all add: ensure_def)
  then show ?thesis
    using assms(7,8) by (simp add: complete_ingest_def lock)
qed

text \<open>
  C3. Completions are exactly-once. After a completion has committed, reporting the same result again at
  any later state of the system succeeds without changing anything, and reporting any other result for
  the same claim raises instead of overwriting the recorded one.
\<close>

theorem complete_ingest_replay:
  assumes "sys_reachable sha1 s issued" and "c \<in> set issued"
    and "complete_ingest sha1 c version rows digest now s = Inr (b, s')" and "s' \<noteq> s"
    and "sys_steps sha1 (s', issued) (t, issued')"
    and "0 \<le> version' \<and> 0 \<le> rows' \<and> length digest' = 32"
  shows "complete_ingest sha1 c version' rows' digest' now' t =
    (if (version', rows', digest') = (version, rows, digest) then Inr (True, t) else Inl StateTransitionError)"
proof -
  have inv: "sys_inv s issued" by (rule sys_inv_reachable [OF assms(1)])
  then have ok: "constraints_ok s" by (simp add: sys_inv_def cp_inv_def)
  from ingest_committed [OF inv assms(2-4)] obtain w d where wd: "w \<in> set (t_work s)" "w_id w = c_work c"
    "w_dataset w = c_dataset c" "w_kind w = INGEST" "s' = ingest_db sha1 version rows digest now d w s"
    "c_kind c = INGEST" by metis
  let ?w = "ingested_row version rows digest now w w"
  have w': "?w \<in> set (t_work s')" using ingest_row_after [OF wd(1) ok] wd(5) by simp
  have inv': "sys_inv s' issued"
    using sys_inv_step [OF inv, of "Complete_Ingest c version rows digest now" sha1 "[]" s'] assms(2,3)
    by (simp add: permitted_def no_claims_Inr)
  from sys_steps_cp [OF assms(5) inv'] have t: "cp_steps s' t" "cp_inv t" by (simp_all add: sys_inv_def)
  have wt: "?w \<in> set (t_work t)"
    by (rule succeeded_ingest_steps [OF t(1)]) (use inv' w' wd(4) in \<open>simp_all add: sys_inv_def\<close>)
  have "complete_ingest sha1 c version' rows' digest' now' t =
    (if (w_cand_version ?w, w_row_count ?w, w_source_digest ?w) = (Some version', Some rows', Some digest')
     then Inr (True, t) else Inl StateTransitionError)"
    by (rule completed_replay [OF t(2) wt]) (use wd assms(6) in simp_all)
  then show ?thesis by (auto simp: ingested_row_def)
qed

theorem complete_ingest_replay_witness:
  "complete_ingest demo_sha1 demo_claim 3 10 (replicate 32 0) 50 demo_db6 = Inr (True, demo_db6) \<and>
   complete_ingest demo_sha1 demo_claim 4 10 (replicate 32 0) 50 demo_db6 = Inl StateTransitionError"
proof -
  have "t_work demo_db4 \<noteq> t_work demo_db3" by (simp add: demo_db4_def demo_db3_def)
  then have ne: "demo_db4 \<noteq> demo_db3" by auto
  have steps: "sys_steps demo_sha1 (demo_db4, [demo_claim]) (demo_db6, [demo_claim, demo_publish_claim])"
    by (rule demo_steps46)
  show ?thesis
    using complete_ingest_replay [OF demo_reachable3 _ demo_completed ne steps] by simp
qed

end
