(* ===== verification/Serving.thy ===== *)
theory Serving
  imports Ingest_Completion
begin

text \<open>
  Publication and serving: a committed publication is what the dataset serves from then on, the
  publication that is served exists and is not retired, and the deletion of superseded publications
  never changes what is served. The retention floor bounds everything that still needs its source.
\<close>

section \<open>Resolving the serving dataset\<close>

definition serves :: "db \<Rightarrow> dataset_row \<Rightarrow> publication_row \<Rightarrow> bool" where
  "serves s d p =
     (d \<in> set (t_datasets s) \<and> p \<in> set (t_publications s) \<and> p_dataset p = d_id d \<and> d_active d = Some (p_id p) \<and>
      d_lifecycle d = DATASET_ACTIVE \<and>
      exists_where (\<lambda>r. r_id r = d_source d \<and> r_lifecycle r = SOURCE_ACTIVE) (t_sources s))"

lemma serving_rows_set:
  "(d, p) \<in> set (serving_rows route s) \<longleftrightarrow> serves s d p \<and> d_route d = route"
  by (auto simp: serving_rows_def serves_def exists_where_iff)

lemma distinct_concat_map_single:
  assumes "distinct (map key xs)" and "\<And>x y. x \<in> set xs \<Longrightarrow> y \<in> set (f x) \<Longrightarrow> key x = k" and "\<And>x. x \<in> set xs \<Longrightarrow> length (f x) \<le> 1"
  shows "length (concat (map f xs)) \<le> 1"
  using assms
proof (induction xs)
  case (Cons x xs)
  show ?case
  proof (cases "f x = []")
    case True
    with Cons show ?thesis by simp
  next
    case False
    then have key: "key x = k" using Cons.prems(2) [of x] by (cases "f x") auto
    have "f y = []" if "y \<in> set xs" for y
    proof (rule ccontr)
      assume "f y \<noteq> []"
      then have "key y = key x" using Cons.prems(2) [of y] key that by (cases "f y") auto
      with Cons.prems(1) that show False by (auto simp: image_iff)
    qed
    then have none: "concat (map f xs) = []" by simp
    show ?thesis using Cons.prems(3) [of x] by (simp only: list.map concat.simps none append_Nil2 list.set_intros)
  qed
qed simp

lemma serving_rows_single:
  assumes "constraints_ok s"
  shows "length (serving_rows route s) \<le> 1"
proof -
  have u: "distinct (map d_route (t_datasets s))" "distinct (map p_id (t_publications s))" "distinct (map r_id (t_sources s))"
    using assms unfolding constraints_ok_def dataset_keys_def publication_keys_def source_keys_def unique_by_def by simp_all
  let ?r = "\<lambda>d p. concat (map (\<lambda>r. if p_dataset p = d_id d \<and> d_active d = Some (p_id p) \<and> r_id r = d_source d \<and>
        d_route d = route \<and> d_lifecycle d = DATASET_ACTIVE \<and> r_lifecycle r = SOURCE_ACTIVE then [(d, p)] else []) (t_sources s))"
  have r: "length (?r d p) \<le> 1" for d p
    by (rule distinct_concat_map_single [OF u(3), where k = "d_source d"]) (auto split: if_splits)
  have p: "length (concat (map (?r d) (t_publications s))) \<le> 1" for d
    by (rule distinct_concat_map_single [OF u(2), where k = "the (d_active d)"]) (use r in \<open>auto split: if_splits\<close>)
  show ?thesis
    unfolding serving_rows_def
    by (rule distinct_concat_map_single [OF u(1), where k = route]) (use p in \<open>auto split: if_splits\<close>)
qed

definition serving_of :: "dataset_row \<Rightarrow> publication_row \<Rightarrow> serving_dataset" where
  "serving_of d p =
     \<lparr> sv_dataset = d_id d, sv_route = d_route d, sv_uri = p_uri p, sv_version = p_version p, sv_publication = p_id p \<rparr>"

lemma resolve_serving_dataset_iff:
  assumes "constraints_ok s" and "RoutingIdentity_validate route = Inr x"
  shows "resolve_serving_dataset route s = Inr (Some sv) \<longleftrightarrow> (\<exists>d p. serves s d p \<and> d_route d = route \<and> sv = serving_of d p)"
    and "resolve_serving_dataset route s = Inr None \<longleftrightarrow> \<not> (\<exists>d p. serves s d p \<and> d_route d = route)"
proof -
  consider (none) "serving_rows route s = []" | (one) d p where "serving_rows route s = [(d, p)]"
    using serving_rows_single [OF assms(1), of route] by (cases "serving_rows route s") auto
  then have "(resolve_serving_dataset route s = Inr (Some sv) \<longleftrightarrow> (\<exists>d p. serves s d p \<and> d_route d = route \<and> sv = serving_of d p)) \<and>
    (resolve_serving_dataset route s = Inr None \<longleftrightarrow> \<not> (\<exists>d p. serves s d p \<and> d_route d = route))"
  proof cases
    case none
    then show ?thesis
      using serving_rows_set [of _ _ route s] assms(2) by (auto simp: resolve_serving_dataset_def)
  next
    case (one d p)
    have only: "serves s e q \<and> d_route e = route \<longleftrightarrow> e = d \<and> q = p" for e q
      using serving_rows_set [of e q route s] one by simp
    have "resolve_serving_dataset route s = Inr (Some (serving_of d p))"
      using one assms(2) only [of d p] by (simp add: resolve_serving_dataset_def serving_of_def)
    then show ?thesis using only by (metis (no_types) Inr_inject option.distinct(1) option.inject)
  qed
  then show "resolve_serving_dataset route s = Inr (Some sv) \<longleftrightarrow> (\<exists>d p. serves s d p \<and> d_route d = route \<and> sv = serving_of d p)"
    and "resolve_serving_dataset route s = Inr None \<longleftrightarrow> \<not> (\<exists>d p. serves s d p \<and> d_route d = route)" by blast+
qed

lemma dataset_route_valid:
  assumes "constraints_ok s" and "d \<in> set (t_datasets s)"
  shows "RoutingIdentity_validate (d_route d) = Inr (d_route d)"
  using assms by (simp add: constraints_ok_def dataset_keys_def list_all_iff dataset_check_def
      RoutingIdentity_validate_def validate_routing_segment_def)

section \<open>Publishing\<close>

lemma publish_committed:
  assumes "sys_inv s issued" and "c \<in> set issued"
    and "publish_dataset sha1 c uri version manifest digest ev now s = Inr (b, s')" and "s' \<noteq> s"
  obtains w d xs where "lock_work_and_state c s = Some (w, d)"
    "w \<in> set (t_work s)" "w_id w = c_work c" "w_dataset w = c_dataset c" "w_kind w = c_kind c"
    "d \<in> set (t_datasets s)" "d_id d = c_dataset c" "claim_held s c" "b"
    "validate_live_publication c w d uri version s = Inr (w_seq w)"
    "validate_publication_indexes (w_spec w) ev s = Inr ()"
    "deterministic_publication_id sha1 (c_work c) \<notin> p_id ` set (t_publications s)"
    "s' = publish_db (deterministic_publication_id sha1 (c_work c)) c uri version manifest digest ev now w d xs s"
    "constraints_ok s'"
proof -
  note m = sys_inv_claim_matches [OF assms(1,2)]
  from assms(3) show thesis
  proof (cases rule: publish_dataset_cases)
    case unchanged
    with assms(4) show thesis by simp
  next
    case (published w d xs)
    note l = lock_work_and_state_Some [OF published(1)]
    note k = locked_claim_matches [OF m l(1,2) published(2)]
    have "deterministic_publication_id sha1 (c_work c) \<notin> p_id ` set (t_publications s)"
      using published(3) by (auto simp: lookup_by_None_iff)
    from that [OF published(1) l(1,2) k(1,2) l(3,4) locked_lease_held [OF published(1,2) m] published(5-7) this published(8,9)]
    show thesis .
  qed
qed

lemma publish_not_active:
  assumes "pid \<notin> p_id ` set (t_publications s)" and "d \<in> set (t_datasets s)" and "constraints_ok s"
  shows "d_active d \<noteq> Some pid"
proof
  assume "d_active d = Some pid"
  then have "exists_where (\<lambda>x. p_dataset x = d_id d \<and> p_id x = pid) (t_publications s)"
    using assms(2,3) by (auto simp: constraints_ok_def dataset_refs_def list_all_iff dest!: bspec)
  with assms(1) show False by (auto simp: exists_where_iff)
qed

lemma publish_db_tables:
  assumes "s' = publish_db pid c uri version manifest digest ev now w d xs s"
    and "pid \<notin> p_id ` set (t_publications s)" and "d \<in> set (t_datasets s)" and "d_id d = c_dataset c" and "constraints_ok s"
  shows "publication_of pid c w (w_seq w) uri version manifest digest ev now \<in> set (t_publications s')"
    and "swap_pointer c w pid uri version now d \<in> set (t_datasets s')" and "t_sources s' = t_sources s"
    and "\<And>p. p \<in> set (t_publications s) \<Longrightarrow> d_active d = Some (p_id p) \<Longrightarrow> p\<lparr> p_retired := Some now \<rparr> \<in> set (t_publications s')"
proof -
  have "d_active d \<noteq> Some pid" by (rule publish_not_active [OF assms(2,3,5)])
  then show "publication_of pid c w (w_seq w) uri version manifest digest ev now \<in> set (t_publications s')"
    by (auto simp: assms(1) publish_db_def set_update_where image_iff publication_of_def split: option.splits)
  show "swap_pointer c w pid uri version now d \<in> set (t_datasets s')"
    using assms(3,4) by (auto simp: assms(1) publish_db_def set_update_where image_iff)
  show "t_sources s' = t_sources s" by (simp add: assms(1) publish_db_def)
  show "p\<lparr> p_retired := Some now \<rparr> \<in> set (t_publications s')" if "p \<in> set (t_publications s)" "d_active d = Some (p_id p)" for p
    using that by (auto simp: assms(1) publish_db_def set_update_where image_iff)
qed

definition pubindex_of :: "uuid \<Rightarrow> uuid \<Rightarrow> index_evidence \<Rightarrow> pubindex_row" where
  "pubindex_of pid spec e =
     \<lparr> x_publication = pid, x_spec = spec, x_index = e_index e, x_type = e_type e, x_indexed = e_indexed e,
       x_unindexed = e_unindexed e, x_digest = e_digest e \<rparr>"

lemma insert_indexes_exact:
  assumes "rfold (insert_publication_index pid spec) es s = Inr s'"
  shows "s' = s\<lparr> t_pubindexes := t_pubindexes s @ map (pubindex_of pid spec) es \<rparr>"
  using assms
proof (induction es arbitrary: s)
  case (Cons e es)
  then obtain t where t: "insert_publication_index pid spec e s = Inr t" "rfold (insert_publication_index pid spec) es t = Inr s'"
    by (auto simp: rbind_Inr_iff)
  from t(1) have "t = s\<lparr> t_pubindexes := t_pubindexes s @ [pubindex_of pid spec e] \<rparr>"
    by (simp add: insert_publication_index_def checked_Inr_iff pubindex_of_def)
  with Cons.IH [OF t(2)] show ?case by simp
qed simp

lemma publish_index_rows:
  assumes "publish_dataset sha1 c uri version manifest digest ev now s = Inr (b, s')" and "s' \<noteq> s"
    and "lock_work_and_state c s = Some (w, d)"
  shows "t_pubindexes s' = t_pubindexes s @ map (pubindex_of (deterministic_publication_id sha1 (c_work c)) (w_spec w)) (ev_indexes ev)"
proof -
  let ?pid = "deterministic_publication_id sha1 (c_work c)"
  have new: "lookup_by p_id ?pid (t_publications s) = None" and lease: "locked_lease_matches w d c now"
    using assms by (auto simp: publish_dataset_def rbind_Inr_iff Let_def split: option.splits if_splits)
  from assms(1,3) new lease obtain p s2 s3 g h where
    s2: "rfold (insert_publication_index ?pid (w_spec w)) (ev_indexes ev) (s\<lparr> t_publications := t_publications s @ [p] \<rparr>) = Inr s2"
    and s3: "retire_publication (d_active d) now s2 = Inr s3" and s': "s' = s3\<lparr> t_datasets := g, t_work := h \<rparr>"
    by (auto simp: publish_dataset_def rbind_Inr_iff Let_def checked_Inr_iff)
  have "t_pubindexes s3 = t_pubindexes s2"
    using s3 by (auto simp: retire_publication_def checked_Inr_iff split: option.splits)
  with insert_indexes_exact [OF s2] s' show ?thesis by simp
qed

lemma publish_db_publications:
  assumes "s' = publish_db pid c uri version manifest digest ev now w d xs s" and "d_active d \<noteq> Some pid"
  shows "t_publications s' =
    map (\<lambda>q. if d_active d = Some (p_id q) then q\<lparr> p_retired := Some now \<rparr> else q) (t_publications s) @
      [publication_of pid c w (w_seq w) uri version manifest digest ev now]"
  using assms(2)
  by (cases "d_active d") (auto simp: assms(1) publish_db_def update_where_def publication_of_def)

text \<open>
  C8. A publication that commits needs a claim that is honoured. It appends one publication row, under the
  deterministic publication id, with the frozen revision and snapshot of the work, the candidate's URI and
  version, the manifest and exactly the submitted schema digest, row counts and fragment count; it appends
  one row per submitted piece of index evidence; it retires the publication that was active and touches no
  other; it finishes the work row; and the routing identity of the dataset resolves to the new
  publication, when dataset and source are active.
\<close>

theorem publish_dataset_commits:
  assumes "sys_reachable sha1 s issued" and "c \<in> set issued"
    and "publish_dataset sha1 c uri version manifest digest ev now s = Inr (b, s')" and "s' \<noteq> s"
  shows "b \<and> claim_held s c \<and>
    (\<exists>w d. w \<in> set (t_work s) \<and> w_id w = c_work c \<and> d \<in> set (t_datasets s) \<and> d_id d = c_dataset c \<and>
       t_publications s' =
         map (\<lambda>q. if d_active d = Some (p_id q) then q\<lparr> p_retired := Some now \<rparr> else q) (t_publications s) @
         [\<lparr> p_id = deterministic_publication_id sha1 (c_work c), p_dataset = c_dataset c, p_work = c_work c, p_spec = w_spec w,
            p_seq = w_seq w, p_uri = uri, p_version = version, p_schema_digest = ev_schema_digest ev, p_total = ev_total ev,
            p_distinct = ev_distinct ev, p_live = ev_live ev, p_distinct_live = ev_distinct_live ev,
            p_fragments = ev_fragments ev, p_manifest_uri = manifest, p_manifest_digest = digest, p_published = now,
            p_retired = None \<rparr>] \<and>
       t_pubindexes s' = t_pubindexes s @
         map (\<lambda>e. \<lparr> x_publication = deterministic_publication_id sha1 (c_work c), x_spec = w_spec w, x_index = e_index e,
                    x_type = e_type e, x_indexed = e_indexed e, x_unindexed = e_unindexed e, x_digest = e_digest e \<rparr>)
           (ev_indexes ev) \<and>
       t_work s' = map (\<lambda>v. if w_id v = c_work c
         then v\<lparr> w_state := SUCCEEDED, w_phase := PH_PUBLISH, w_token := None, w_expires := None, w_cand_uri := Some uri,
                 w_cand_version := Some version, w_manifest_uri := Some manifest, w_manifest_digest := Some digest,
                 w_updated := now \<rparr>
         else v) (t_work s) \<and>
       (d_lifecycle d = DATASET_ACTIVE \<and> exists_where (\<lambda>r. r_id r = d_source d \<and> r_lifecycle r = SOURCE_ACTIVE) (t_sources s) \<longrightarrow>
          resolve_serving_dataset (d_route d) s' =
            Inr (Some \<lparr> sv_dataset = c_dataset c, sv_route = d_route d, sv_uri = uri, sv_version = version,
                        sv_publication = deterministic_publication_id sha1 (c_work c) \<rparr>)))"
proof -
  have inv: "sys_inv s issued" by (rule sys_inv_reachable [OF assms(1)])
  then have ok: "constraints_ok s" by (simp add: sys_inv_def cp_inv_def)
  let ?pid = "deterministic_publication_id sha1 (c_work c)"
  from publish_committed [OF inv assms(2-4)] obtain w d xs where w: "lock_work_and_state c s = Some (w, d)"
    "w \<in> set (t_work s)" "w_id w = c_work c" and wd: "w_dataset w = c_dataset c" "d \<in> set (t_datasets s)"
    "d_id d = c_dataset c" "claim_held s c" "b" "?pid \<notin> p_id ` set (t_publications s)"
    "s' = publish_db ?pid c uri version manifest digest ev now w d xs s" "constraints_ok s'" by metis
  let ?p = "publication_of ?pid c w (w_seq w) uri version manifest digest ev now"
  let ?d = "swap_pointer c w ?pid uri version now d"
  note t = publish_db_tables [OF wd(7,6,2,3) ok]
  have route: "RoutingIdentity_validate (d_route d) = Inr (d_route d)"
    by (rule dataset_route_valid [OF ok wd(2)])
  have serves: "resolve_serving_dataset (d_route d) s' = Inr (Some (serving_of ?d ?p))"
    if "d_lifecycle d = DATASET_ACTIVE" "exists_where (\<lambda>r. r_id r = d_source d \<and> r_lifecycle r = SOURCE_ACTIVE) (t_sources s)"
    unfolding resolve_serving_dataset_iff(1) [OF wd(8) route]
    by (rule exI [of _ ?d], rule exI [of _ ?p])
      (use t(1-3) that wd(3) in \<open>simp add: serves_def publication_of_def\<close>)
  have work: "t_work s' = map (\<lambda>v. if w_id v = c_work c then published_row uri version manifest digest now v else v) (t_work s)"
    by (simp add: wd(7) publish_db_def update_where_def)
  show ?thesis
    using serves w(2,3) wd(2-5) work publish_index_rows [OF assms(3,4) w(1)]
      publish_db_publications [OF wd(7) publish_not_active [OF wd(6,2) ok]]
    by (intro conjI exI [of _ w] exI [of _ d])
      (simp_all add: publication_of_def serving_of_def pubindex_of_def [abs_def] published_row_def)
qed

theorem publish_dataset_commits_witness:
  "claim_held demo_db5 demo_publish_claim \<and>
   (\<exists>p\<in>set (t_publications demo_db6). p_uri p = demo_uri \<and> p_version p = 3 \<and> p_retired p = None \<and>
      p_total p = ev_total demo_evidence \<and> p_schema_digest p = ev_schema_digest demo_evidence)"
proof -
  have "t_publications demo_db6 \<noteq> t_publications demo_db5" by (simp add: demo_db6_def demo_db5_def)
  then have ne: "demo_db6 \<noteq> demo_db5" by auto
  show ?thesis
    using publish_dataset_commits [OF demo_reachable5 _ demo_was_published ne] by auto
qed

lemma cleanup_dueD:
  assumes "cleanup_due tie now s p"
  obtains r t sec keep where "r \<in> set (t_specs s)" "col ''spec_revision_id'' r = Some (PUuid (p_spec p))" "p_retired p = Some t"
    "col ''artifact_retention_seconds'' r = Some (PInt sec)" "col ''retained_publications'' r = Some (PInt keep)"
    "t + sec * 1000000 \<le> now" "keep < int (publication_rank tie s p)" "\<not> publication_active (p_id p) s"
proof -
  from assms obtain r where r: "r \<in> set (t_specs s)" "col ''spec_revision_id'' r = Some (PUuid (p_spec p))"
    and due: "case (p_retired p, col ''artifact_retention_seconds'' r, col ''retained_publications'' r) of
      (Some t, Some (PInt sec), Some (PInt keep)) \<Rightarrow>
        t + sec * 1000000 \<le> now \<and> keep < int (publication_rank tie s p) \<and> \<not> publication_active (p_id p) s
      | _ \<Rightarrow> False"
    unfolding cleanup_due_def exists_where_iff by blast
  from due obtain t x y where "p_retired p = Some t" "col ''artifact_retention_seconds'' r = Some x"
    "col ''retained_publications'' r = Some y"
    by (cases "p_retired p"; cases "col ''artifact_retention_seconds'' r"; cases "col ''retained_publications'' r")
      (simp_all split: py_obj.split_asm)
  with due r that show thesis by (cases x; cases y) auto
qed

lemma claimed_cleanup_due:
  assumes "claim_publication_cleanup tie now limit s = Inr ks" and "k \<in> set ks"
  obtains p where "p \<in> set (t_publications s)" "cleanup_due tie now s p" "cleanup_of p = Inr k"
  using assms by (auto simp: claim_publication_cleanup_def rbind_Inr_iff dest!: rmap_Inr_mem in_set_takeD)

lemma cleanup_of_publication: "cleanup_of p = Inr k \<Longrightarrow> k_publication k = p_id p"
  by (auto simp: cleanup_of_def rbind_Inr_iff)

text \<open>
  C9. What is served is live: whenever a routing identity resolves, the publication it resolves to is on
  record for that dataset with that URI and version, is not retired, comes from finished work, and no
  cleanup call selects it.
\<close>

theorem served_publication_live:
  assumes "sys_reachable sha1 s issued" and "resolve_serving_dataset route s = Inr (Some sv)"
  shows "\<exists>p\<in>set (t_publications s). p_id p = sv_publication sv \<and> p_dataset p = sv_dataset sv \<and> p_uri p = sv_uri sv \<and>
    p_version p = sv_version sv \<and> p_retired p = None \<and>
    (\<exists>w\<in>set (t_work s). w_id w = p_work p \<and> w_dataset w = sv_dataset sv \<and> w_state w = SUCCEEDED) \<and>
    (\<forall>tie now limit ks. claim_publication_cleanup tie now limit s = Inr ks \<longrightarrow> sv_publication sv \<notin> k_publication ` set ks)"
proof -
  have "cp_inv s" using sys_inv_reachable [OF assms(1)] by (simp add: sys_inv_def)
  then have ok: "constraints_ok s" and pub: "publication_inv s" by (simp_all add: cp_inv_def)
  from assms(2) obtain x where x: "RoutingIdentity_validate route = Inr x"
    by (auto simp: resolve_serving_dataset_def rbind_Inr_iff)
  from assms(2) obtain d p where dp: "serves s d p" "sv = serving_of d p"
    unfolding resolve_serving_dataset_iff(1) [OF ok x] by blast
  from dp(1) have p: "p \<in> set (t_publications s)" "d \<in> set (t_datasets s)" "d_active d = Some (p_id p)" "p_dataset p = d_id d"
    by (simp_all add: serves_def)
  have active: "publication_active (p_id p) s" using p by (auto simp: publication_active_iff)
  have "p_retired p = None" using pub p(1) active by (auto simp: publication_inv_def)
  moreover have "\<exists>w\<in>set (t_work s). w_id w = p_work p \<and> w_dataset w = p_dataset p \<and> w_state w = SUCCEEDED"
    using publication_refD [OF ok p(1)] pub p(1) by (auto simp: publication_inv_def)
  moreover have "p_id p \<notin> k_publication ` set ks" if "claim_publication_cleanup tie now limit s = Inr ks" for tie now limit ks
  proof
    assume "p_id p \<in> k_publication ` set ks"
    with that obtain q where "cleanup_due tie now s q" "p_id q = p_id p"
      by (metis claimed_cleanup_due cleanup_of_publication imageE)
    then show False using active by (metis cleanup_dueD)
  qed
  ultimately show ?thesis
    using p(1,4) dp(2) by (intro bexI [of _ p]) (auto simp: serving_of_def)
qed

theorem served_publication_live_witness:
  "resolve_serving_dataset demo_route demo_db6 = Inr (Some (serving_of (demo_dataset_at 2 6 (Some 0x101) (Some 3) (Some demo_publication)) demo_publication_row)) \<and>
   (\<exists>p\<in>set (t_publications demo_db6). p_id p = demo_publication \<and> p_retired p = None)"
proof -
  have run: "resolve_serving_dataset demo_route demo_db6 =
      Inr (Some (serving_of (demo_dataset_at 2 6 (Some 0x101) (Some 3) (Some demo_publication)) demo_publication_row))"
    by (simp add: resolve_serving_dataset_def serving_rows_def demo_db6_def serving_of_def)
  from served_publication_live [OF demo_reachable6 run] run show ?thesis by (auto simp: serving_of_def)
qed

section \<open>Cleanup\<close>

lemma finalize_cleanup_tables:
  assumes "finalize_publication_cleanup k s = Inr (b, s')"
  shows "t_datasets s' = t_datasets s" "t_sources s' = t_sources s" "constraints_ok s \<Longrightarrow> constraints_ok s'"
    "\<And>p. publication_active (p_id p) s \<Longrightarrow> p \<in> set (t_publications s') \<longleftrightarrow> p \<in> set (t_publications s)"
    "\<And>p. p \<in> set (t_publications s') \<Longrightarrow> p \<in> set (t_publications s)"
  using assms
  by (auto simp: finalize_publication_cleanup_def rbind_Inr_iff checked_Inr_iff Let_def set_delete_where split: option.splits)

lemma finalize_preserves_serving:
  assumes ok: "constraints_ok s" and "finalize_publication_cleanup k s = Inr (b, s')"
  shows "resolve_serving_dataset route s' = resolve_serving_dataset route s"
proof -
  note t = finalize_cleanup_tables [OF assms(2)]
  have serves: "serves s' d p = serves s d p" for d p
  proof -
    have "publication_active (p_id p) s" if "d \<in> set (t_datasets s)" "d_active d = Some (p_id p)"
      using that by (auto simp: publication_active_iff)
    then show ?thesis unfolding serves_def t(1,2) using t(4) [of p] by blast
  qed
  show ?thesis
  proof (cases "RoutingIdentity_validate route")
    case (Inl e)
    then show ?thesis by (simp add: resolve_serving_dataset_def)
  next
    case (Inr x)
    note r = resolve_serving_dataset_iff [OF _ Inr]
    show ?thesis
    proof (cases "\<exists>d p. serves s d p \<and> d_route d = route")
      case True
      then obtain d p where "serves s d p" "d_route d = route" by blast
      then have "resolve_serving_dataset route s = Inr (Some (serving_of d p))"
        "resolve_serving_dataset route s' = Inr (Some (serving_of d p))"
        using r(1) ok t(3) serves by blast+
      then show ?thesis by simp
    next
      case False
      then show ?thesis using r(2) [OF ok] r(2) [OF t(3) [OF ok]] serves by simp
    qed
  qed
qed

text \<open>A superseded generation of the run's dataset, retired and ready to be cleaned up.\<close>

definition demo_old_work :: work_row where
  "demo_old_work = demo_published\<lparr> w_id := deterministic_rebuild_work_id demo_sha1 demo_dataset 5, w_kind := REBUILD \<rparr>"

definition demo_old_publication :: publication_row where
  "demo_old_publication = demo_publication_row\<lparr> p_id := demo_publication + 1, p_work := w_id demo_old_work, p_version := 2,
     p_retired := Some 6 \<rparr>"

definition demo_superseded :: "publication_row list \<Rightarrow> db" where
  "demo_superseded ps = demo_state [demo_source_row] [demo_dataset_at 2 6 (Some 0x101) (Some 3) (Some demo_publication)]
     [demo_snapshot COMPLETE 4] [demo_done, demo_published, demo_old_work] (demo_publication_row # ps) 2"

definition demo_cleanup :: publication_cleanup where
  "demo_cleanup = \<lparr> k_publication = demo_publication + 1, k_work = w_id demo_old_work, k_dataset = demo_dataset, k_uri = demo_uri,
     k_version = 2, k_manifest = ''m'', k_pin = ''p'' \<rparr>"

lemma demo_old_id [simp]:
  "w_id demo_old_work \<noteq> demo_ingest" "w_id demo_old_work \<noteq> demo_publish"
  "demo_ingest \<noteq> w_id demo_old_work" "demo_publish \<noteq> w_id demo_old_work"
proof -
  have "demo_sha1 (be_bytes 16 n @ utf8 (ingest_work_name d q)) = replicate 15 0 @ [73]" for n d q
    by (simp add: ingest_work_name_def demo_uuid5)
  moreover have "demo_sha1 (be_bytes 16 n @ utf8 (publish_work_name d q v)) = replicate 15 0 @ [80]" for n d q v
    by (simp add: publish_work_name_def demo_uuid5)
  moreover have "demo_sha1 (be_bytes 16 n @ utf8 (rebuild_work_name d q)) = replicate 15 0 @ [82]" for n d q
    by (simp add: rebuild_work_name_def demo_uuid5)
  ultimately show "w_id demo_old_work \<noteq> demo_ingest" "w_id demo_old_work \<noteq> demo_publish"
    by (simp_all add: demo_old_work_def demo_ingest_def demo_publish_def deterministic_publish_work_id_def
        deterministic_rebuild_work_id_def uuid5_def be_value_pad)
  then show "demo_ingest \<noteq> w_id demo_old_work" "demo_publish \<noteq> w_id demo_old_work" by simp_all
qed

lemma demo_superseded_ok: "constraints_ok (demo_superseded [demo_old_publication])" "constraints_ok (demo_superseded [])"
proof -
  have old: "work_check demo_old_work" "publication_check demo_old_publication" "w_kind demo_old_work = REBUILD"
    "w_state demo_old_work = SUCCEEDED" "w_dataset demo_old_work = demo_dataset" "w_source demo_old_work = demo_source"
    "w_seq demo_old_work = 1" "w_spec demo_old_work = 0x101" "p_id demo_old_publication = demo_publication + 1"
    "p_work demo_old_publication = w_id demo_old_work" "p_dataset demo_old_publication = demo_dataset"
    "p_uri demo_old_publication = demo_uri" "p_version demo_old_publication = 2" "p_seq demo_old_publication = 1"
    "p_spec demo_old_publication = 0x101"
    by (simp_all add: demo_old_work_def demo_old_publication_def work_check_def publication_check_def)
  then show "constraints_ok (demo_superseded [demo_old_publication])" "constraints_ok (demo_superseded [])"
    by (simp_all add: constraint_defs demo_superseded_def open_publish_def unique_by_def)
qed

lemma demo_finalized:
  "finalize_publication_cleanup demo_cleanup (demo_superseded [demo_old_publication]) = Inr (True, demo_superseded [])"
proof -
  have p: "p_id demo_old_publication = demo_publication + 1" "p_work demo_old_publication = w_id demo_old_work"
    "p_dataset demo_old_publication = demo_dataset" "p_uri demo_old_publication = demo_uri" "p_version demo_old_publication = 2"
    "p_manifest_uri demo_old_publication = ''m''" "p_retired demo_old_publication = Some 6"
    by (simp_all add: demo_old_publication_def)
  show ?thesis
    using demo_superseded_ok
    by (simp add: finalize_publication_cleanup_def demo_cleanup_def demo_superseded_def p publication_active_def Let_def
        delete_where_def checked_def count_where_def)
qed

section \<open>Retention floor\<close>

lemma fold_min_le: "fold min ys y \<le> (y::int) \<and> (\<forall>x\<in>set ys. fold min ys y \<le> x)"
proof (induction ys arbitrary: y)
  case (Cons a ys)
  show ?case using Cons [of "min a y"] by force
qed simp

lemma fold_min_in: "fold min ys y \<in> insert (y::int) (set ys)"
proof (induction ys arbitrary: y)
  case (Cons a ys)
  show ?case using Cons [of "min a y"] by (auto simp: min_def split: if_splits)
qed simp

lemma sql_min_Some: "sql_min xs = Some m \<longleftrightarrow> m \<in> set xs \<and> (\<forall>x\<in>set xs. m \<le> x)"
proof (cases xs)
  case (Cons y ys)
  show ?thesis using fold_min_le [of ys y] fold_min_in [of ys y] Cons
    by (auto simp: sql_min_def intro: antisym)
qed (simp add: sql_min_def)

text \<open>
  The retention floor is safe. If anything still depends on source history (a blocked snapshot,
  unfinished work of any kind, or a snapshot inside its source's replay horizon) the floor exists, is
  one of the sealed snapshots, and no dependency lies below it; otherwise there is no floor.
\<close>

theorem retention_floor_bounds:
  assumes "constraints_ok s"
  shows "(retention_floor now s = None) = (retention_candidates now s = []) \<and>
    (\<forall>x. retention_floor now s = Some x \<longrightarrow> x \<in> set (t_snapshots s) \<and>
       (\<forall>y\<in>set (t_snapshots s). s_state y = SNAPSHOT_BLOCKED \<or> in_replay_horizon now s y \<longrightarrow> s_seq x \<le> s_seq y) \<and>
       (\<forall>w\<in>set (t_work s). w_state w \<noteq> SUCCEEDED \<longrightarrow> s_seq x \<le> w_seq w))"
proof -
  have found: "\<exists>x\<in>set (t_snapshots s). s_seq x = q" if "q \<in> set (retention_candidates now s)" for q
    using that work_refD(2) [OF assms] by (auto simp: retention_candidates_def)
  have "lookup_by s_seq q (t_snapshots s) \<noteq> None" if "q \<in> set (retention_candidates now s)" for q
    using found [OF that] by (auto simp: lookup_by_None_iff)
  moreover have "sql_min (retention_candidates now s) = None \<longleftrightarrow> retention_candidates now s = []"
    by (simp add: sql_min_def split: list.splits)
  ultimately have "(retention_floor now s = None) = (retention_candidates now s = [])"
    unfolding retention_floor_def select_retention_floor_def using sql_min_Some [of "retention_candidates now s"]
    by (cases "sql_min (retention_candidates now s)") auto
  moreover have "x \<in> set (t_snapshots s)" "q \<in> set (retention_candidates now s) \<Longrightarrow> s_seq x \<le> q"
    if "retention_floor now s = Some x" for x q
    using that unfolding retention_floor_def select_retention_floor_def
    by (auto simp: sql_min_Some dest!: lookup_by_SomeD split: option.splits)
  ultimately show ?thesis by (auto simp: retention_candidates_def)
qed

theorem retention_floor_bounds_witness:
  "retention_floor 3 demo_db5 = Some (demo_snapshot COMPLETE 4) \<and> w_state demo_publishing \<noteq> SUCCEEDED \<and>
   s_seq (demo_snapshot COMPLETE 4) \<le> w_seq demo_publishing"
proof -
  have "in_replay_horizon 3 demo_db5 (demo_snapshot COMPLETE 4)"
    by (simp add: in_replay_horizon_def demo_db5_def demo_source_row_def demo_snapshot_def snapshot_of_plan_def demo_plan_def demo_source_def)
  then have floor: "retention_floor 3 demo_db5 = Some (demo_snapshot COMPLETE 4)"
    by (simp add: retention_floor_def select_retention_floor_def retention_candidates_def demo_db5_def sql_min_def)
  moreover have "demo_publishing \<in> set (t_work demo_db5)" by (simp add: demo_db5_def)
  ultimately show ?thesis using retention_floor_bounds [OF demo_ok5(2), of 3] by fastforce
qed

end
