(* ===== verification/Control_Invariants.thy ===== *)
theory Control_Invariants
  imports Serving
begin

text \<open>
  What every database the control plane can reach satisfies, and what no transaction takes back: the
  refinement of the protocol, the order of applied snapshots, snapshot completion, the lineage of a
  source, monotone progress, and the gates that stop a source.
\<close>

section \<open>Refinement\<close>

text \<open>
  C6. Refinement. Every committed transaction of the repository, run at a reachable state under the
  claims issued so far, is a sequence of steps of the abstract protocol, and the reached state is again
  within the protocol's invariant.
\<close>

theorem transactions_refine_protocol:
  assumes "sys_reachable sha1 s issued" and "permitted op issued s" and "exec_op sha1 op s = Inr (new, s')"
  shows "cp_steps s s' \<and> cp_inv s' \<and> constraints_ok s'"
proof -
  have inv: "sys_inv s issued" by (rule sys_inv_reachable [OF assms(1)])
  have "cp_inv s'" using sys_inv_step [OF inv assms(2,3)] by (simp add: sys_inv_def)
  then show ?thesis using exec_op_refines [OF assms(3) inv assms(2)] by (simp add: cp_inv_def)
qed

theorem transactions_refine_protocol_witness:
  "exec_op demo_sha1 demo_publish_op demo_db5 = Inr ([], demo_db6) \<and> cp_steps demo_db5 demo_db6 \<and> cp_inv demo_db6"
  using demo_step6 transactions_refine_protocol [OF demo_reachable5 _ demo_step6]
  by (simp add: permitted_def demo_publish_op_def)

section \<open>Order and completion\<close>

text \<open>
  C7. No gaps. The last applied snapshot of a dataset is one of its finished ingests, and every ingest
  of the dataset at or before it is finished: snapshots are applied in order and none is skipped.
\<close>

theorem applied_without_gaps:
  assumes "sys_reachable sha1 s issued" and "d \<in> set (t_datasets s)" and "d_last_seq d = Some q"
  shows "q \<in> applied s (d_id d) \<and>
    (\<forall>w\<in>set (t_work s). w_dataset w = d_id d \<and> w_kind w = INGEST \<longrightarrow> (w_state w = SUCCEEDED) = (w_seq w \<le> q))"
proof -
  have cp: "cp_inv s" using sys_inv_reachable [OF assms(1)] by (simp add: sys_inv_def)
  then have last: "last_inv s" and lane: "lane_inv s" and ok: "constraints_ok s" by (simp_all add: cp_inv_def)
  from bspec [OF last [unfolded last_inv_def] assms(2)] assms(3)
  have q: "q \<in> applied s (d_id d)" "\<And>x. x \<in> applied s (d_id d) \<Longrightarrow> x \<le> q" by simp_all
  from q(1) obtain v where v: "v \<in> set (t_work s)" "w_dataset v = d_id d" "w_kind v = INGEST" "w_state v = SUCCEEDED" "w_seq v = q"
    by (auto simp: applied_iff)
  have "(w_state w = SUCCEEDED) = (w_seq w \<le> q)"
    if w: "w \<in> set (t_work s)" "w_dataset w = d_id d" "w_kind w = INGEST" for w
  proof
    assume "w_state w = SUCCEEDED"
    then show "w_seq w \<le> q" using q(2) [of "w_seq w"] w by (auto simp: applied_iff)
  next
    assume le: "w_seq w \<le> q"
    show "w_state w = SUCCEEDED"
    proof (cases "w_seq w = q")
      case True
      have u: "unique_by (\<lambda>w. w_kind w \<noteq> REBUILD) (\<lambda>w. (w_dataset w, w_seq w, w_kind w)) (t_work s)"
        using ok unfolding constraints_ok_def work_keys_def by blast
      have "w = v" by (rule unique_byD [OF u w(1) v(1)]) (simp_all add: w(2,3) v(2,3,5) True)
      then show ?thesis using v(4) by simp
    next
      case False
      with bspec [OF bspec [OF lane [unfolded lane_inv_def] w(1)] v(1)] w(2,3) v(2-5) le show ?thesis by simp
    qed
  qed
  with q(1) show ?thesis by blast
qed

theorem applied_without_gaps_witness:
  "d_last_seq (demo_dataset_at 2 5 (Some 0x101) (Some 3) None) = Some 1 \<and> 1 \<in> applied demo_db5 demo_dataset"
  using applied_without_gaps [OF demo_reachable5, of "demo_dataset_at 2 5 (Some 0x101) (Some 3) None" 1]
  by (simp add: demo_db5_def)

text \<open>
  A snapshot is COMPLETE only when every ingest planned for it has succeeded.
\<close>

theorem complete_snapshots_applied:
  assumes "sys_reachable sha1 s issued" and "x \<in> set (t_snapshots s)" and "s_state x = COMPLETE"
    and "w \<in> set (t_work s)" and "w_kind w = INGEST" and "w_seq w = s_seq x"
  shows "w_state w = SUCCEEDED"
proof -
  have "complete_inv s" using sys_inv_reachable [OF assms(1)] by (simp add: sys_inv_def cp_inv_def)
  with assms(2,3) have "\<not> incomplete_ingest (s_seq x) s" by (simp add: complete_inv_def)
  with assms(4-6) show ?thesis by (auto simp: incomplete_ingest_iff)
qed

theorem complete_snapshots_applied_witness:
  "s_state (demo_snapshot COMPLETE 4) = COMPLETE \<and> w_state demo_done = SUCCEEDED"
  using complete_snapshots_applied [OF demo_reachable5, of "demo_snapshot COMPLETE 4" demo_done]
  by (simp add: demo_db5_def)

section \<open>Lineage\<close>

text \<open>
  C15. The snapshots sealed for a source form one chain: the first is a baseline (or a rejected
  snapshot), and each next one names its predecessor as parent, has a larger Iceberg sequence number and
  a larger local sequence, keeps the partition spec unless it is rejected, and never follows a rejected
  one. A rejected snapshot stays BLOCKED.
\<close>

theorem source_lineage_linear:
  assumes "sys_reachable sha1 s issued"
  shows "linear_lineage (lineage_of src s) \<and>
    (\<forall>x\<in>set (t_snapshots s). s_kind x = REJECTED \<longrightarrow> s_state x = SNAPSHOT_BLOCKED)"
  using sys_inv_reachable [OF assms] by (simp add: sys_inv_def cp_inv_def lineage_inv_def)

theorem source_lineage_linear_witness: "linear_lineage (lineage_of demo_source demo_db6)"
  using source_lineage_linear [OF demo_reachable6] by blast

section \<open>Progress is never taken back\<close>

definition not_behind :: "db \<Rightarrow> db \<Rightarrow> bool" where
  "not_behind s t =
     (\<forall>d\<in>set (t_datasets s). \<exists>e\<in>set (t_datasets t). d_id e = d_id d \<and> d_source e = d_source d \<and> d_fence d \<le> d_fence e \<and>
        (case d_last_seq d of None \<Rightarrow> True | Some q \<Rightarrow> (\<exists>r. d_last_seq e = Some r \<and> q \<le> r)))"

lemma not_behind_step:
  assumes "cp_step s t" and "cp_inv s"
  shows "not_behind s t"
  unfolding not_behind_def
proof
  fix d assume d: "d \<in> set (t_datasets s)"
  have ok: "constraints_ok s" and lane: "lane_inv s" and last: "last_inv s" using assms(2) by (simp_all add: cp_inv_def)
  from fence_step [OF assms(1) ok d] obtain e where e: "e \<in> set (t_datasets t)" "d_id e = d_id d"
    "d_fence d \<le> d_fence e" "d_source e = d_source d" by blast
  have "\<exists>r. d_last_seq e = Some r \<and> q \<le> r" if q: "d_last_seq d = Some q" for q
  proof -
    have "d_id e \<in> d_id ` set (t_datasets s)" using e(2) d by auto
    with dataset_change [OF assms(1) ok e(1)]
    obtain d2 where d2: "d2 \<in> set (t_datasets s)" "d_id e = d_id d2"
      and ch: "d_last_seq e = d_last_seq d2 \<or> (\<exists>w\<in>set (t_work s). w_dataset w = d_id d2 \<and> w_kind w = INGEST \<and>
        w_state w = RUNNING \<and> d_last_seq e = Some (w_seq w))" by blast
    have "d2 = d" using dataset_row_unique [OF ok d2(1) d] d2(2) e(2) by simp
    from bspec [OF last [unfolded last_inv_def] d] q have "q \<in> applied s (d_id d)" by simp
    then show ?thesis
      using ch q \<open>d2 = d\<close> applied_before [OF assms(2)] by (metis order_le_less)
  qed
  then have "case d_last_seq d of None \<Rightarrow> True | Some q \<Rightarrow> (\<exists>r. d_last_seq e = Some r \<and> q \<le> r)"
    by (simp split: option.splits)
  with e show "\<exists>e\<in>set (t_datasets t). d_id e = d_id d \<and> d_source e = d_source d \<and> d_fence d \<le> d_fence e \<and>
      (case d_last_seq d of None \<Rightarrow> True | Some q \<Rightarrow> (\<exists>r. d_last_seq e = Some r \<and> q \<le> r))" by blast
qed

lemma not_behind_refl: "not_behind s s"
  unfolding not_behind_def
proof
  fix d assume "d \<in> set (t_datasets s)"
  then show "\<exists>e\<in>set (t_datasets s). d_id e = d_id d \<and> d_source e = d_source d \<and> d_fence d \<le> d_fence e \<and>
      (case d_last_seq d of None \<Rightarrow> True | Some q \<Rightarrow> (\<exists>r. d_last_seq e = Some r \<and> q \<le> r))"
    by (intro bexI [of _ d]) (simp_all split: option.splits)
qed

lemma not_behind_trans:
  assumes "not_behind s t" and "not_behind t u"
  shows "not_behind s u"
  unfolding not_behind_def
proof
  fix d assume "d \<in> set (t_datasets s)"
  with assms(1) obtain e where e: "e \<in> set (t_datasets t)" "d_id e = d_id d \<and> d_source e = d_source d \<and> d_fence d \<le> d_fence e"
    "case d_last_seq d of None \<Rightarrow> True | Some q \<Rightarrow> (\<exists>r. d_last_seq e = Some r \<and> q \<le> r)" unfolding not_behind_def by blast
  with assms(2) obtain f where f: "f \<in> set (t_datasets u)" "d_id f = d_id e \<and> d_source f = d_source e \<and> d_fence e \<le> d_fence f"
    "case d_last_seq e of None \<Rightarrow> True | Some q \<Rightarrow> (\<exists>r. d_last_seq f = Some r \<and> q \<le> r)" unfolding not_behind_def by blast
  show "\<exists>e\<in>set (t_datasets u). d_id e = d_id d \<and> d_source e = d_source d \<and> d_fence d \<le> d_fence e \<and>
      (case d_last_seq d of None \<Rightarrow> True | Some q \<Rightarrow> (\<exists>r. d_last_seq e = Some r \<and> q \<le> r))"
    using e(2,3) f by (intro bexI [of _ f]) (auto split: option.splits)
qed

text \<open>
  C13. Monotone progress. Along every run no dataset disappears, its fence never goes back, its last
  applied snapshot never goes back, and a finished ingest or rebuild stays exactly as it was recorded.
\<close>

theorem progress_monotone:
  assumes "sys_reachable sha1 s issued" and "sys_steps sha1 (s, issued) (t, issued')"
  shows "not_behind s t \<and>
    (\<forall>w\<in>set (t_work s). w_state w = SUCCEEDED \<and> w_kind w \<noteq> PUBLISH \<longrightarrow> w \<in> set (t_work t))"
proof -
  have inv: "sys_inv s issued" by (rule sys_inv_reachable [OF assms(1)])
  then have cp: "cp_inv s" by (simp add: sys_inv_def)
  have steps: "cp_steps s t" using sys_steps_cp [OF assms(2) inv] by blast
  have "not_behind s t"
    by (rule cp.relates_steps [OF steps cp, where R = not_behind])
      (auto intro: not_behind_refl not_behind_trans not_behind_step)
  then show ?thesis using succeeded_ingest_steps [OF steps cp] by blast
qed

theorem progress_monotone_witness:
  "not_behind demo_db4 demo_db6 \<and> demo_done \<in> set (t_work demo_db6)"
  using progress_monotone [OF demo_reachable4 demo_steps46] by (simp add: demo_db4_def)

end
