(* ===== verification/Source_Gate.thy ===== *)
theory Source_Gate
  imports Control_Invariants
begin

text \<open>
  The gates that stop a source: a blocked snapshot keeps every later snapshot and every ingest of its
  source out, and bumping the planning epoch refuses plans made before.
\<close>

lemma enqueue_known_or_open:
  assumes "enqueue_guards p s = Inr src" and "source_gated (pl_source p) s"
  shows "snapshot_known (pl_source p) (pl_snapshot p) s"
  using enqueue_guards_Inr(1) [OF assms(1)] assms(2)
  by (simp add: assert_source_gate_allows_snapshot_def ensure_Inr_iff)

text \<open>
  C16. A blocked snapshot closes its source. While one exists, planning any snapshot the control plane
  does not know yet fails, claim calls hand out no ingest of the source, and the operator's retry of a
  blocked ingest of the source has no effect.
\<close>

theorem gated_source_closed:
  assumes "source_gated src s"
  shows "(pl_source p = src \<and> \<not> snapshot_known src (pl_snapshot p) s \<longrightarrow>
      (\<forall>r. enqueue_source_snapshot sha1 p routes now s \<noteq> Inr r \<and> enqueue_blocked_source_snapshot p ec em now s \<noteq> Inr r)) \<and>
    (claim_due_work tok lockw lockd limit duration now s = Inr (cs, s') \<longrightarrow>
      (\<forall>c\<in>set cs. c_kind c = INGEST \<longrightarrow> (\<exists>w\<in>set (t_work s). w_id w = c_work c \<and> w_source w \<noteq> src))) \<and>
    (retry_blocked_work wid now s = Inr (b, s'') \<longrightarrow>
      (\<forall>w\<in>set (t_work s). w_id w = wid \<longrightarrow> w_kind w = INGEST \<and> w_source w = src) \<longrightarrow> s'' = s \<and> \<not> b)"
proof (intro conjI impI)
  assume p: "pl_source p = src \<and> \<not> snapshot_known src (pl_snapshot p) s"
  have "enqueue_guards p s \<noteq> Inr r" for r using enqueue_known_or_open [of p s] assms p by blast
  then show "\<forall>r. enqueue_source_snapshot sha1 p routes now s \<noteq> Inr r \<and> enqueue_blocked_source_snapshot p ec em now s \<noteq> Inr r"
    by (auto simp: enqueue_source_snapshot_def enqueue_blocked_source_snapshot_def rbind_Inr_iff)
next
  assume run: "claim_due_work tok lockw lockd limit duration now s = Inr (cs, s')"
  show "\<forall>c\<in>set cs. c_kind c = INGEST \<longrightarrow> (\<exists>w\<in>set (t_work s). w_id w = c_work c \<and> w_source w \<noteq> src)"
  proof (intro ballI impI)
    fix c assume c: "c \<in> set cs" "c_kind c = INGEST"
    from claim_call_spec(3) [OF run c(1)] have "claim_due now s c" by blast
    then obtain w where w: "w \<in> set (t_work s)" "w_id w = c_work c" "w_kind w = c_kind c"
      "w_kind w = INGEST \<longrightarrow> list_all (\<lambda>x. s_source x = w_source w \<longrightarrow> s_state x \<noteq> SNAPSHOT_BLOCKED) (t_snapshots s)"
      unfolding claim_due_def exists_where_iff by blast
    then have "w_source w \<noteq> src" using assms c(2) by (auto simp: source_gated_def list_all_iff exists_where_iff)
    with w show "\<exists>w\<in>set (t_work s). w_id w = c_work c \<and> w_source w \<noteq> src" by blast
  qed
next
  assume run: "retry_blocked_work wid now s = Inr (b, s'')"
    and own: "\<forall>w\<in>set (t_work s). w_id w = wid \<longrightarrow> w_kind w = INGEST \<and> w_source w = src"
  have "\<not> retryable wid s w" if "w \<in> set (t_work s)" for w
    using own that assms by (auto simp: retryable_def source_snapshot_allows_work_def)
  then have "update_where (retryable wid s) f (t_work s) = t_work s" "count_where (retryable wid s) (t_work s) = 0" for f
    by (auto simp: count_where_def filter_empty_conv intro: update_where_none)
  with run show "s'' = s" "\<not> b" by (auto simp: retry_blocked_work_def rbind_Inr_iff checked_Inr_iff)
qed

definition demo_gated :: db where
  "demo_gated = demo_state [demo_source_row] [demo_dataset_row] [demo_snapshot SNAPSHOT_BLOCKED 1] [demo_ingest_row] [] 2"

theorem gated_source_closed_witness:
  "source_gated demo_source demo_gated \<and> \<not> snapshot_known demo_source 99 demo_gated \<and>
   (\<forall>r. enqueue_source_snapshot demo_sha1 (demo_plan\<lparr> pl_snapshot := 99 \<rparr>) [demo_route] 5 demo_gated \<noteq> Inr r)"
proof -
  have g: "source_gated demo_source demo_gated" "\<not> snapshot_known demo_source 99 demo_gated"
    by (simp_all add: source_gated_def snapshot_known_def demo_gated_def)
  moreover have "pl_source (demo_plan\<lparr> pl_snapshot := 99 \<rparr>) = demo_source" by (simp add: demo_plan_def demo_source_def)
  ultimately show ?thesis
    using gated_source_closed [OF g(1), where p = "demo_plan\<lparr> pl_snapshot := 99 \<rparr>"] by simp
qed

section \<open>Planning epochs\<close>

lemma block_source_epoch:
  assumes "block_source_snapshot seq ec em expected now s = Inr (b, s')" and "lookup_by s_seq seq (t_snapshots s) = Some x"
    and "s_state x \<noteq> SNAPSHOT_BLOCKED" and "lookup_by r_id (s_source x) (t_sources s) = Some r"
  shows "lookup_by r_id (s_source x) (t_sources s') = Some (r\<lparr> r_epoch := r_epoch r + 1, r_updated := now \<rparr>)"
    "snapshot_known src q s' = snapshot_known src q s" "b"
proof -
  from assms obtain s1 s2 where s12: "block_ingest_from (s_source x) seq (bounded_error (Some ec) ERROR_CODE_LIMIT)
      (bounded_error em ERROR_MESSAGE_LIMIT) now s = Inr s1"
    "set_snapshot_state seq SNAPSHOT_BLOCKED (bounded_error (Some ec) ERROR_CODE_LIMIT)
      (bounded_error em ERROR_MESSAGE_LIMIT) now s1 = Inr s2" "bump_epoch (s_source x) now s2 = Inr s'" and b: b
    by (auto simp: block_source_snapshot_def Let_def rbind_Inr_iff lock_source_for_planning_def)
  show b by (rule b)
  have src: "t_sources s2 = t_sources s"
    using s12 by (auto simp: block_ingest_from_def set_snapshot_state_def checked_Inr_iff)
  show "lookup_by r_id (s_source x) (t_sources s') = Some (r\<lparr> r_epoch := r_epoch r + 1, r_updated := now \<rparr>)"
    using s12(3) assms(4) src by (auto simp: bump_epoch_def checked_Inr_iff lookup_by_update_where dest: lookup_by_SomeD)
  have "t_snapshots s' = update_where (\<lambda>y. s_seq y = seq) (\<lambda>y. y\<lparr> s_state := SNAPSHOT_BLOCKED,
      s_error_code := bounded_error (Some ec) ERROR_CODE_LIMIT, s_error_message := bounded_error em ERROR_MESSAGE_LIMIT,
      s_updated := now \<rparr>) (t_snapshots s)"
    using s12 by (auto simp: block_ingest_from_def set_snapshot_state_def bump_epoch_def checked_Inr_iff)
  then show "snapshot_known src q s' = snapshot_known src q s"
    by (simp add: snapshot_known_def exists_where_update)
qed

text \<open>
  Stale plans are refused. Blocking a snapshot bumps the planning epoch of its source, and a plan
  made under the epoch before, for a snapshot the control plane does not know, is refused with
  StaleSourcePlanError: the decision to block cannot be overtaken by planning that was already under way.
\<close>

theorem stale_plan_refused:
  assumes "block_source_snapshot seq ec em expected now s = Inr (b, s')"
    and "lookup_by s_seq seq (t_snapshots s) = Some x" and "s_state x \<noteq> SNAPSHOT_BLOCKED"
    and "lookup_by r_id (s_source x) (t_sources s) = Some r" and "r_lifecycle r = SOURCE_ACTIVE"
    and "pl_source p = s_source x" and "pl_epoch p = Some (r_epoch r)" and "\<not> snapshot_known (s_source x) (pl_snapshot p) s"
    and "SourceSnapshotPlan_validate p = Inr p" and "pl_kind p = APPEND" and "rmap DatasetPlan_validate routes = Inr routes"
  shows "enqueue_source_snapshot sha1 p routes now' s' = Inl StaleSourcePlanError"
proof -
  note e = block_source_epoch [OF assms(1-4)]
  have "enqueue_guards p s' = Inl StaleSourcePlanError"
    using e(1) assms(5-8) by (simp add: enqueue_guards_def lock_source_for_planning_def e(2))
  then show ?thesis using assms(9-11) by (simp add: enqueue_source_snapshot_def)
qed

definition demo_stopped_snapshot :: snapshot_row where
  "demo_stopped_snapshot = (demo_snapshot SNAPSHOT_BLOCKED 3)\<lparr> s_error_code := Some ''E'' \<rparr>"

definition demo_stopped_row :: work_row where
  "demo_stopped_row = demo_ingest_row\<lparr> w_state := WORK_BLOCKED, w_error_code := Some ''E'', w_updated := 3 \<rparr>"

definition demo_stopped :: db where
  "demo_stopped = demo_state [demo_source_row\<lparr> r_epoch := 1, r_updated := 3 \<rparr>] [demo_dataset_row] [demo_stopped_snapshot]
     [demo_stopped_row] [] 2"

definition demo_append :: snapshot_plan where
  "demo_append = demo_plan\<lparr> pl_snapshot := 99, pl_parent := Some 10, pl_iceberg_seq := 2, pl_kind := APPEND \<rparr>"

lemma demo_block: "block_source_snapshot 1 ''E'' None None 3 demo_db2 = Inr (True, demo_stopped)"
proof -
  have be: "bounded_error (Some ''E'') ERROR_CODE_LIMIT = Some ''E''" "bounded_error None ERROR_MESSAGE_LIMIT = None"
    by (simp_all add: bounded_error_def ERROR_CODE_LIMIT_def)
  have rows: "demo_ingest_row\<lparr> w_state := WORK_BLOCKED, w_token := None, w_expires := None, w_error_code := Some ''E'',
      w_error_message := None, w_updated := 3 \<rparr> = demo_stopped_row"
    "(demo_snapshot SEALED 1)\<lparr> s_state := SNAPSHOT_BLOCKED, s_error_code := Some ''E'', s_error_message := None, s_updated := 3 \<rparr> =
      demo_stopped_snapshot"
    by (simp_all add: demo_stopped_row_def demo_ingest_row_def new_work_def demo_stopped_snapshot_def demo_snapshot_def
        snapshot_of_plan_def bounded_error_def)
  have simps: "w_id demo_stopped_row = demo_ingest" "w_dataset demo_stopped_row = demo_dataset" "w_source demo_stopped_row = demo_source"
    "w_seq demo_stopped_row = 1" "w_spec demo_stopped_row = 0x101" "w_kind demo_stopped_row = INGEST"
    "w_state demo_stopped_row = WORK_BLOCKED" "work_check demo_stopped_row" "s_seq demo_stopped_snapshot = 1"
    "s_source demo_stopped_snapshot = demo_source"
    by (simp_all add: demo_stopped_row_def demo_stopped_snapshot_def work_check_def)
  have chk: "snapshot_check demo_stopped_snapshot" "source_check (demo_source_row\<lparr> r_epoch := 1, r_updated := 3 \<rparr>)"
    using demo_checks(2) [of SNAPSHOT_BLOCKED 3] demo_source_check
    by (simp_all add: demo_stopped_snapshot_def snapshot_check_def source_check_def)
  have ok: "constraints_ok (demo_state [demo_source_row] [demo_dataset_row] [demo_snapshot SEALED 1] [demo_stopped_row] [] 2)"
    "constraints_ok (demo_state [demo_source_row] [demo_dataset_row] [demo_stopped_snapshot] [demo_stopped_row] [] 2)"
    "constraints_ok demo_stopped"
    by (simp_all add: constraint_defs demo_stopped_def simps chk)
  show ?thesis
    using ok by (simp add: block_source_snapshot_def Let_def lock_source_for_planning_def be demo_db2_def block_ingest_from_def
        set_snapshot_state_def bump_epoch_def update_where_def checked_def rows demo_stopped_def)
qed

theorem stale_plan_refused_witness:
  "block_source_snapshot 1 ''E'' None None 3 demo_db2 = Inr (True, demo_stopped) \<and>
   enqueue_source_snapshot demo_sha1 demo_append [demo_route] 4 demo_stopped = Inl StaleSourcePlanError"
proof -
  have "lookup_by s_seq 1 (t_snapshots demo_db2) = Some (demo_snapshot SEALED 1)"
    "lookup_by r_id demo_source (t_sources demo_db2) = Some demo_source_row"
    "\<not> snapshot_known demo_source 99 demo_db2" by (simp_all add: demo_db2_def snapshot_known_def)
  moreover have "pl_source demo_append = demo_source" "pl_epoch demo_append = Some 0" "pl_snapshot demo_append = 99"
    "pl_kind demo_append = APPEND" "SourceSnapshotPlan_validate demo_append = Inr demo_append"
    by (simp_all add: demo_append_def demo_plan_def demo_source_def SourceSnapshotPlan_validate_def)
  moreover have "rmap DatasetPlan_validate [demo_route] = Inr [demo_route]" by (simp add: DatasetPlan_validate_def)
  ultimately show ?thesis
    using demo_block stale_plan_refused [OF demo_block, of "demo_snapshot SEALED 1" demo_source_row demo_append "[demo_route]" demo_sha1 4]
    by simp
qed

section \<open>Operator retries\<close>

text \<open>
  C18. An operator retry that was announced as possible can still abort. For a blocked publication of a
  dataset that has another publication open, \<open>can_retry_blocked_work\<close> answers yes and
  \<open>retry_blocked_work\<close> raises an integrity error: reopening the row would give the dataset two open
  publications.
\<close>

theorem retry_blocked_publish_conflict:
  assumes "constraints_ok s" and "w \<in> set (t_work s)" and "w_kind w = PUBLISH" and "w_state w = WORK_BLOCKED"
    and "v \<in> set (t_work s)" and "open_publish v" and "w_dataset v = w_dataset w"
  shows "can_retry_blocked_work (w_id w) s \<and> retry_blocked_work (w_id w) now s = Inl IntegrityError"
proof -
  have can: "retryable (w_id w) s w" using assms(3,4) by (simp add: retryable_def source_snapshot_allows_work_def)
  let ?f = "\<lambda>w. w\<lparr> w_state := PENDING, w_token := None, w_expires := None, w_next_at := now,
      w_error_code := None, w_error_message := None, w_updated := now \<rparr>"
  let ?t = "update_where (retryable (w_id w) s) ?f (t_work s)"
  have "\<not> retryable (w_id w) s v" using assms(4,6) by (auto simp: retryable_def open_publish_def)
  then have v: "v \<in> set ?t" using assms(5) by (force simp: set_update_where image_iff)
  have w: "?f w \<in> set ?t" using assms(2) can by (force simp: set_update_where image_iff)
  have "v \<noteq> w" using assms(4,6) by (auto simp: open_publish_def)
  then have id: "w_id v \<noteq> w_id (?f w)" using work_row_unique [OF assms(1,5,2)] by auto
  have "\<not> unique_by open_publish w_dataset ?t"
  proof
    assume "unique_by open_publish w_dataset ?t"
    from unique_byD [OF this v w] assms(3,6,7) have "v = ?f w" by (simp add: open_publish_def)
    with id show False by simp
  qed
  then have "\<not> constraints_ok (s\<lparr> t_work := ?t \<rparr>)" unfolding constraints_ok_def work_keys_def by simp
  then show ?thesis
    using can assms(2) by (auto simp: can_retry_blocked_work_def exists_where_iff retry_blocked_work_def checked_def)
qed

definition demo_blocked_publish :: work_row where
  "demo_blocked_publish = demo_publish_row\<lparr> w_state := WORK_BLOCKED \<rparr>"

definition demo_next_publish :: work_row where
  "demo_next_publish = demo_publish_row\<lparr> w_id := w_id demo_old_work, w_seq := 2 \<rparr>"

definition demo_two_publishes :: db where
  "demo_two_publishes = demo_state [demo_source_row] [demo_dataset_at 1 4 (Some 0x101) (Some 3) None]
     [demo_snapshot COMPLETE 4, (demo_snapshot COMPLETE 4)\<lparr> s_seq := 2, s_snapshot := 11, s_iceberg_seq := 2 \<rparr>]
     [demo_done, demo_blocked_publish, demo_next_publish] [] 3"

theorem retry_blocked_publish_conflict_witness:
  "can_retry_blocked_work demo_publish demo_two_publishes \<and>
   retry_blocked_work demo_publish 9 demo_two_publishes = Inl IntegrityError"
proof -
  have rows: "w_id demo_blocked_publish = demo_publish" "w_kind demo_blocked_publish = PUBLISH" "w_state demo_blocked_publish = WORK_BLOCKED"
    "w_dataset demo_blocked_publish = demo_dataset" "w_source demo_blocked_publish = demo_source" "w_seq demo_blocked_publish = 1"
    "w_spec demo_blocked_publish = 0x101" "work_check demo_blocked_publish"
    "w_id demo_next_publish = w_id demo_old_work" "w_kind demo_next_publish = PUBLISH" "w_state demo_next_publish = PENDING"
    "w_dataset demo_next_publish = demo_dataset" "w_source demo_next_publish = demo_source" "w_seq demo_next_publish = 2"
    "w_spec demo_next_publish = 0x101" "work_check demo_next_publish"
    by (simp_all add: demo_blocked_publish_def demo_next_publish_def work_check_def)
  have snap: "snapshot_check ((demo_snapshot COMPLETE 4)\<lparr> s_seq := 2, s_snapshot := 11, s_iceberg_seq := 2 \<rparr>)"
    using demo_checks(2) [of COMPLETE 4] by (simp add: snapshot_check_def)
  have ok: "constraints_ok demo_two_publishes"
    by (simp add: constraint_defs demo_two_publishes_def rows snap open_publish_def unique_by_def)
  show ?thesis
    using retry_blocked_publish_conflict [OF ok, of demo_blocked_publish demo_next_publish 9]
    by (simp add: rows open_publish_def demo_two_publishes_def)
qed

end
