(* ===== verification/Identity_Properties.thy ===== *)
theory Identity_Properties
  imports Identity
begin

text \<open>
  Properties of the deterministic identities and dataset URIs: their inputs are encoded without
  collision, and a URI belongs to at most one dataset of a root.
\<close>

text \<open>
  C17. Deterministic identity inputs never collide: two (source, routing identity) pairs hash the same
  name only when they are equal, the names of ingest, publish and rebuild work never coincide across
  kinds and determine their inputs, and the text of a UUID parses back to it.
\<close>

theorem identity_names_injective:
  "(\<forall>src src' r r' n. dataset_id_name src r = Inr n \<and> dataset_id_name src' r' = Inr n \<longrightarrow> src = src' \<and> r = r') \<and>
   (ingest_work_name d q = ingest_work_name d' q' \<longleftrightarrow> d = d' \<and> q = q') \<and>
   (publish_work_name d q v = publish_work_name d' q' v' \<longleftrightarrow> d = d' \<and> q = q' \<and> v = v') \<and>
   (rebuild_work_name d v = rebuild_work_name d' v' \<longleftrightarrow> d = d' \<and> v = v') \<and>
   ingest_work_name d q \<noteq> publish_work_name d' q' v' \<and> ingest_work_name d q \<noteq> rebuild_work_name d' v' \<and>
   publish_work_name d q v \<noteq> rebuild_work_name d' v' \<and> uuid_parse (uuid_str d) = Inr d"
  using dataset_id_name_inj work_names_disjoint by (simp add: work_name_inj uuid_parse_str) blast

theorem identity_names_injective_witness:
  "ingest_work_name 1 2 \<noteq> ingest_work_name 1 3 \<and> publish_work_name 1 2 3 \<noteq> rebuild_work_name 1 3"
  using identity_names_injective [of 1 2 1 3 3 3] by simp

text \<open>
  Dataset URIs are owned by one dataset. Under one non-blank root, a URI is accepted for a dataset
  exactly when it is the dataset's ingest URI or the rebuild URI of some work item, and no URI is
  accepted for two different datasets.
\<close>

theorem dataset_uri_owner_unique:
  assumes "rstrip_char CHR ''/'' base \<noteq> []"
  shows "dataset_uri_matches_root base d c = Inr (ingest_uri base d = Inr c \<or> (\<exists>w. rebuild_uri base d w = Inr c)) \<and>
    (dataset_uri_matches_root base d c = Inr True \<and> dataset_uri_matches_root base d' c = Inr True \<longrightarrow> d = d')"
proof (intro conjI impI)
  show "dataset_uri_matches_root base d c = Inr (ingest_uri base d = Inr c \<or> (\<exists>w. rebuild_uri base d w = Inr c))"
    by (rule dataset_uri_matches_root_iff [OF assms])
next
  assume "dataset_uri_matches_root base d c = Inr True \<and> dataset_uri_matches_root base d' c = Inr True"
  then have own: "ingest_uri base d = Inr c \<or> (\<exists>w. rebuild_uri base d w = Inr c)"
    "ingest_uri base d' = Inr c \<or> (\<exists>w. rebuild_uri base d' w = Inr c)"
    by (simp_all add: dataset_uri_matches_root_iff [OF assms])
  let ?b = "rstrip_char CHR ''/'' base"
  have i: "ingest_uri base e = Inr c \<longleftrightarrow> c = ?b @ ''/'' @ uuid_str e @ ''.lance''" for e
    using assms by (auto simp: ingest_uri_def Let_def)
  have r: "rebuild_uri base e w = Inr c \<longleftrightarrow> c = ?b @ ''/rebuild/'' @ uuid_str e @ ''/'' @ uuid_str w @ ''.lance''" for e w
    using assms by (auto simp: rebuild_uri_def Let_def)
  have len: "length (uuid_str e) = 36" for e by simp
  have mixed: False if "?b @ ''/'' @ uuid_str e @ ''.lance'' = ?b @ ''/rebuild/'' @ uuid_str f @ ''/'' @ uuid_str w @ ''.lance''" for e f w
    using arg_cong [OF that, of length] by simp
  have ii: "e = f" if "?b @ ''/'' @ uuid_str e @ ''.lance'' = ?b @ ''/'' @ uuid_str f @ ''.lance''" for e f
    using that by simp
  have rr: "e = f" if "?b @ ''/rebuild/'' @ uuid_str e @ ''/'' @ uuid_str v @ ''.lance'' =
      ?b @ ''/rebuild/'' @ uuid_str f @ ''/'' @ uuid_str w @ ''.lance''" for e f v w
    using that by (simp add: append_eq_append_conv)
  from own show "d = d'" unfolding i r by (metis mixed ii rr)
qed

theorem dataset_uri_owner_unique_witness:
  "ingest_uri ''/lance/'' 1 = Inr ''/lance/00000000-0000-0000-0000-000000000001.lance'' \<and>
   dataset_uri_matches_root ''/lance/'' 1 ''/lance/00000000-0000-0000-0000-000000000001.lance'' = Inr True \<and>
   dataset_uri_matches_root ''/lance/'' 2 ''/lance/00000000-0000-0000-0000-000000000001.lance'' \<noteq> Inr True"
proof -
  have base: "rstrip_char CHR ''/'' ''/lance/'' \<noteq> []" by code_simp
  have own: "ingest_uri ''/lance/'' 1 = Inr ''/lance/00000000-0000-0000-0000-000000000001.lance''" by code_simp
  from dataset_uri_owner_unique [OF base, of 1 "''/lance/00000000-0000-0000-0000-000000000001.lance''" 2] own show ?thesis by auto
qed

end
