(* ===== verification/Lineage.thy ===== *)
theory Lineage
  imports Pytext
begin

text \<open>
  Reading an Iceberg source: the snapshot, manifest and contract records of \<open>source/models.py\<close>, the
  table contract (\<open>source/contract.py\<close>), the bounded walk of the parent chain
  (\<open>source/lineage.py\<close>), the classification of a snapshot and the discovery of the targets its
  manifests touch (\<open>source/manifests.py\<close>), and the scan options of a window
  (\<open>source/scans.py\<close>).
\<close>

section \<open>Records\<close>

datatype window_kind = WK_BASELINE | WK_APPEND | WK_TRUSTED_MAINTENANCE
datatype manifest_status = ADDED | EXISTING | DELETED
datatype manifest_content = DATA | POSITION_DELETES | EQUALITY_DELETES

record partition_field =
  field_name :: string
  source_column :: string
  transform :: string

record partition_spec =
  spec_id :: int
  spec_fields :: "partition_field list"

record table_metadata =
  md_table_uuid :: string
  md_current :: "int option"
  md_spec :: partition_spec

record snapshot_record =
  sn_table :: string
  sn_id :: int
  sn_parent :: "int option"
  sn_seq :: int
  sn_committed_ms :: int
  sn_operation :: string
  sn_spec :: int
  sn_summary :: "(string \<times> string) list"

type_synonym target_key = "string \<times> string \<times> string"

record partition_values =
  pv_tenant :: string
  pv_namespace :: string
  pv_org :: string
  pv_hour :: int

definition target_of :: "partition_values \<Rightarrow> target_key" where
  "target_of v = (pv_tenant v, pv_namespace v, pv_org v)"

record manifest_entry =
  me_snapshot :: int
  me_spec :: int
  me_status :: manifest_status
  me_content :: manifest_content
  me_partition :: partition_values

record maintenance_trust =
  tr_writer :: "string option"
  tr_authenticated :: bool
  tr_allowlisted :: bool
  tr_logical_change :: "bool option"
  tr_invariants_match :: bool

record source_checkpoint =
  ck_table_uuid :: string
  ck_snapshot :: int
  ck_seq :: int
  ck_spec :: int

section \<open>Table contract\<close>

definition REQUIRED_PARTITION_FIELDS :: "partition_field list" where
  "REQUIRED_PARTITION_FIELDS =
     [\<lparr> field_name = ''tenant_id'', source_column = ''tenant_id'', transform = ''identity'' \<rparr>,
      \<lparr> field_name = ''namespace'', source_column = ''namespace'', transform = ''identity'' \<rparr>,
      \<lparr> field_name = ''org_id'', source_column = ''org_id'', transform = ''identity'' \<rparr>,
      \<lparr> field_name = ''ts_hour'', source_column = ''ts'', transform = ''hour'' \<rparr>]"

definition validate_partition_contract :: "partition_spec \<Rightarrow> partition_field list \<Rightarrow> unit result" where
  "validate_partition_contract spec required = ensure (spec_fields spec = required) SourceContractError"

definition validate_table_contract ::
    "table_metadata \<Rightarrow> source_checkpoint option \<Rightarrow> partition_field list \<Rightarrow> unit result" where
  "validate_table_contract md checkpoint required =
     rbind (validate_partition_contract (md_spec md) required) (\<lambda>_.
     case checkpoint of
       None \<Rightarrow> Inr ()
     | Some c \<Rightarrow>
         rbind (ensure (ck_table_uuid c = md_table_uuid md) SourceContractError) (\<lambda>_.
         ensure (ck_spec c = spec_id (md_spec md)) SourceContractError))"

section \<open>Ancestry\<close>

text \<open>The dictionary from snapshot id to record, as the list of its distinct records in order.\<close>

fun index_snapshots_from :: "snapshot_record list \<Rightarrow> snapshot_record list \<Rightarrow> snapshot_record list result" where
  "index_snapshots_from indexed [] = Inr indexed"
| "index_snapshots_from indexed (x # xs) =
     (case lookup_by sn_id (sn_id x) indexed of
        None \<Rightarrow> index_snapshots_from (indexed @ [x]) xs
      | Some y \<Rightarrow> if y \<noteq> x then Inl SourceLineageError else index_snapshots_from indexed xs)"

definition index_snapshots :: "snapshot_record list \<Rightarrow> snapshot_record list result" where
  "index_snapshots xs = index_snapshots_from [] xs"

definition validate_snapshot_identity :: "snapshot_record \<Rightarrow> string \<Rightarrow> int \<Rightarrow> unit result" where
  "validate_snapshot_identity x table_uuid spec =
     rbind (ensure (sn_table x = table_uuid) SourceLineageError) (\<lambda>_.
     ensure (sn_spec x = spec) SourceLineageError)"

function walk_loop ::
    "snapshot_record list \<Rightarrow> int \<Rightarrow> string \<Rightarrow> int \<Rightarrow> int \<Rightarrow> int list \<Rightarrow> snapshot_record list \<Rightarrow>
     snapshot_record list result" where
  "walk_loop indexed stop table_uuid spec cursor visited path =
     (if cursor = stop then Inr path
      else if cursor \<in> set visited then Inl SourceLineageError
      else (case lookup_by sn_id cursor indexed of
              None \<Rightarrow> Inl SourceLineageError
            | Some x \<Rightarrow>
                (case validate_snapshot_identity x table_uuid spec of
                   Inl e \<Rightarrow> Inl e
                 | Inr _ \<Rightarrow>
                     (case sn_parent x of
                        None \<Rightarrow> Inl SourceLineageError
                      | Some p \<Rightarrow> walk_loop indexed stop table_uuid spec p (cursor # visited) (path @ [x])))))"
  by pat_completeness auto
termination
proof (relation "measure (\<lambda>(indexed, stop, table_uuid, spec, cursor, visited, path). card (sn_id ` set indexed - set visited))")
  fix indexed :: "snapshot_record list" and cursor p :: int and stop visited and table_uuid :: string and spec and path x u
  assume "cursor \<notin> set visited" and "lookup_by sn_id cursor indexed = Some x"
  then have "cursor \<in> sn_id ` set indexed - set visited" by (auto dest: lookup_by_SomeD)
  then have "card (sn_id ` set indexed - set visited - {cursor}) < card (sn_id ` set indexed - set visited)"
    by (intro card_Diff1_less) auto
  then show "((indexed, stop, table_uuid, spec, p, cursor # visited, path @ [x]), indexed, stop, table_uuid, spec, cursor, visited, path)
      \<in> measure (\<lambda>(indexed, stop, table_uuid, spec, cursor, visited, path). card (sn_id ` set indexed - set visited))"
    by (simp add: Diff_insert [symmetric] insert_Diff_if Diff_insert2 [symmetric])
qed simp

declare walk_loop.simps [simp del]

fun increasing_from :: "int option \<Rightarrow> snapshot_record list \<Rightarrow> unit result" where
  "increasing_from prev [] = Inr ()"
| "increasing_from prev (x # xs) =
     (if (case prev of None \<Rightarrow> False | Some q \<Rightarrow> sn_seq x \<le> q) then Inl SourceLineageError
      else increasing_from (Some (sn_seq x)) xs)"

definition walk_snapshot_lineage ::
    "snapshot_record list \<Rightarrow> int \<Rightarrow> int \<Rightarrow> string \<Rightarrow> int \<Rightarrow> snapshot_record list result" where
  "walk_snapshot_lineage snapshots head stop table_uuid spec =
     rbind (index_snapshots snapshots) (\<lambda>indexed.
     case lookup_by sn_id stop indexed of
       None \<Rightarrow> Inl SourceLineageError
     | Some st \<Rightarrow>
         rbind (validate_snapshot_identity st table_uuid spec) (\<lambda>_.
         if head = stop then Inr []
         else
           rbind (walk_loop indexed stop table_uuid spec head [] []) (\<lambda>reverse_path.
           let ordered = rev reverse_path
           in rbind (increasing_from None ordered) (\<lambda>_.
              rbind (ensure (ordered = [] \<or> sn_seq st < sn_seq (hd ordered)) SourceLineageError) (\<lambda>_.
              Inr ordered)))))"

section \<open>Classification\<close>

definition APPEND_OPERATIONS :: "string list" where
  "APPEND_OPERATIONS = [''append'', ''fast-append'']"

definition REWRITE_OPERATIONS :: "string list" where
  "REWRITE_OPERATIONS = [''replace'', ''overwrite'']"

definition blocked :: "snapshot_record \<Rightarrow> string \<Rightarrow> py_error" where
  "blocked x ec = SourceSnapshotBlockedError (sn_id x) ec"

text \<open>\<open>any(int(summary.get(name, "0")) > 0 for name in names)\<close>, which stops at the first positive count.\<close>

fun declared_nonempty :: "(string \<times> string) list \<Rightarrow> string list \<Rightarrow> bool option" where
  "declared_nonempty summary [] = Some False"
| "declared_nonempty summary (name # names) =
     (case py_int 10 (case dict_get summary name of None \<Rightarrow> ''0'' | Some v \<Rightarrow> v) of
        None \<Rightarrow> None
      | Some n \<Rightarrow> if 0 < n then Some True else declared_nonempty summary names)"

fun check_append_entries :: "snapshot_record \<Rightarrow> manifest_entry list \<Rightarrow> unit result" where
  "check_append_entries x [] = Inr ()"
| "check_append_entries x (e # es) =
     rbind (ensure (\<not> (me_snapshot e \<noteq> sn_id x \<and> me_status e \<noteq> EXISTING)) (blocked x ''MANIFEST_SNAPSHOT_MISMATCH'')) (\<lambda>_.
     rbind (ensure (me_status e \<noteq> DELETED) (blocked x ''PHYSICAL_DELETE'')) (\<lambda>_.
     rbind (ensure (\<not> (me_status e = ADDED \<and> me_content e \<noteq> DATA)) (blocked x ''DELETE_FILE'')) (\<lambda>_.
     check_append_entries x es)))"

definition has_added_data :: "manifest_entry list \<Rightarrow> bool" where
  "has_added_data entries = list_ex (\<lambda>e. me_status e = ADDED \<and> me_content e = DATA) entries"

definition validate_append_entries :: "snapshot_record \<Rightarrow> manifest_entry list \<Rightarrow> unit result" where
  "validate_append_entries x entries =
     (case declared_nonempty (sn_summary x) [''added-data-files'', ''added-records''] of
        None \<Rightarrow> Inl (blocked x ''MANIFEST_SUMMARY_INVALID'')
      | Some declared \<Rightarrow>
          rbind (ensure (\<not> (declared \<and> \<not> has_added_data entries)) (blocked x ''MANIFEST_EVIDENCE_MISSING'')) (\<lambda>_.
          check_append_entries x entries))"

definition trusted :: "maintenance_trust option \<Rightarrow> bool" where
  "trusted trust =
     (case trust of
        None \<Rightarrow> False
      | Some t \<Rightarrow> tr_writer t \<noteq> None \<and> tr_authenticated t \<and> tr_allowlisted t \<and> tr_logical_change t = Some False \<and>
          tr_invariants_match t)"

definition validate_trusted_rewrite ::
    "snapshot_record \<Rightarrow> manifest_entry list \<Rightarrow> maintenance_trust option \<Rightarrow> unit result" where
  "validate_trusted_rewrite x entries trust =
     ensure (trusted trust \<and> \<not> list_ex (\<lambda>e. me_content e \<noteq> DATA) entries) (blocked x ''UNTRUSTED_REWRITE'')"

definition classify_snapshot ::
    "snapshot_record \<Rightarrow> manifest_entry list \<Rightarrow> maintenance_trust option \<Rightarrow> window_kind result" where
  "classify_snapshot x entries trust =
     (let operation = py_lower (py_strip (sn_operation x))
      in if operation \<in> set APPEND_OPERATIONS
         then rbind (validate_append_entries x entries) (\<lambda>_. Inr WK_APPEND)
         else if operation \<in> set REWRITE_OPERATIONS
         then rbind (validate_trusted_rewrite x entries trust) (\<lambda>_. Inr WK_TRUSTED_MAINTENANCE)
         else if operation \<in> {''delete'', ''row_delta''} then Inl (blocked x ''PHYSICAL_DELETE'')
         else Inl (blocked x ''UNKNOWN_OPERATION''))"

section \<open>Targets\<close>

definition validate_entry_spec :: "snapshot_record \<Rightarrow> manifest_entry \<Rightarrow> unit result" where
  "validate_entry_spec x e = ensure (me_spec e = sn_spec x) (blocked x ''PARTITION_SPEC_CHANGED'')"

definition sorted_targets :: "target_key list \<Rightarrow> target_key list" where
  "sorted_targets targets = sort (remdups targets)"

fun collect_targets ::
    "(manifest_entry \<Rightarrow> bool) \<Rightarrow> snapshot_record \<Rightarrow> manifest_entry list \<Rightarrow> target_key list \<Rightarrow> target_key list result" where
  "collect_targets p x [] targets = Inr (sorted_targets targets)"
| "collect_targets p x (e # es) targets =
     (if \<not> p e then collect_targets p x es targets
      else rbind (validate_entry_spec x e) (\<lambda>_. collect_targets p x es (target_of (me_partition e) # targets)))"

definition discover_added_targets :: "snapshot_record \<Rightarrow> manifest_entry list \<Rightarrow> target_key list result" where
  "discover_added_targets x entries =
     collect_targets (\<lambda>e. me_status e = ADDED \<and> me_content e = DATA) x entries []"

definition discover_baseline_targets :: "snapshot_record \<Rightarrow> manifest_entry list \<Rightarrow> target_key list result" where
  "discover_baseline_targets x entries =
     collect_targets (\<lambda>e. me_status e \<noteq> DELETED \<and> me_content e = DATA) x entries []"

section \<open>Scans\<close>

definition snapshot_scan_options :: "snapshot_record \<Rightarrow> window_kind \<Rightarrow> (string \<times> string) list result" where
  "snapshot_scan_options x kind =
     (case kind of
        WK_BASELINE \<Rightarrow> Inr [(''snapshot-id'', show_int (sn_id x))]
      | WK_APPEND \<Rightarrow>
          (case sn_parent x of
             None \<Rightarrow> Inl SourcePlanningError
           | Some p \<Rightarrow> Inr [(''start-snapshot-id'', show_int p), (''end-snapshot-id'', show_int (sn_id x))])
      | WK_TRUSTED_MAINTENANCE \<Rightarrow> Inl SourcePlanningError)"

section \<open>The indexed snapshots\<close>

definition consistent :: "snapshot_record list \<Rightarrow> bool" where
  "consistent xs = (\<forall>x\<in>set xs. \<forall>y\<in>set xs. sn_id x = sn_id y \<longrightarrow> x = y)"

lemma index_snapshots_from_Inr:
  assumes "unique_key sn_id indexed"
  shows "index_snapshots_from indexed xs = Inr r \<longleftrightarrow>
    consistent (indexed @ xs) \<and> unique_key sn_id r \<and> set r = set (indexed @ xs) \<and> index_snapshots_from indexed xs = Inr r"
  using assms
proof (induction xs arbitrary: indexed)
  case Nil
  have "consistent indexed" unfolding consistent_def using unique_byD [OF Nil.prems] by blast
  with Nil show ?case by auto
next
  case (Cons x xs)
  show ?case
  proof (cases "lookup_by sn_id (sn_id x) indexed")
    case None
    have "unique_key sn_id (indexed @ [x])"
      using Cons.prems None by (auto simp: unique_by_def lookup_by_None_iff)
    from Cons.IH [OF this] None show ?thesis by simp
  next
    case (Some y)
    then have y: "y \<in> set indexed" "sn_id y = sn_id x" by (auto dest: lookup_by_SomeD)
    show ?thesis
    proof (cases "y = x")
      case True
      with y have "set (indexed @ xs) = set (indexed @ x # xs)" by auto
      then have "consistent (indexed @ x # xs) = consistent (indexed @ xs)" by (simp add: consistent_def)
      with Cons.IH [OF Cons.prems] Some True y show ?thesis by auto
    next
      case False
      then show ?thesis using Some by simp
    qed
  qed
qed

lemma index_snapshots_from_consistent:
  assumes "consistent (indexed @ xs)" and "unique_key sn_id indexed"
  shows "\<exists>r. index_snapshots_from indexed xs = Inr r"
  using assms
proof (induction xs arbitrary: indexed)
  case (Cons x xs)
  show ?case
  proof (cases "lookup_by sn_id (sn_id x) indexed")
    case None
    have "unique_key sn_id (indexed @ [x])"
      using Cons.prems None by (auto simp: unique_by_def lookup_by_None_iff)
    with Cons None show ?thesis by simp
  next
    case (Some y)
    then have "y \<in> set indexed" "sn_id y = sn_id x" by (auto dest: lookup_by_SomeD)
    then have "y = x" using Cons.prems(1) by (auto simp: consistent_def)
    moreover have "consistent (indexed @ xs)" using Cons.prems(1) by (auto simp: consistent_def)
    ultimately show ?thesis using Cons Some by simp
  qed
qed simp

lemma index_snapshots_Inr_iff:
  "(\<exists>r. index_snapshots xs = Inr r) \<longleftrightarrow> consistent xs"
  "index_snapshots xs = Inr r \<Longrightarrow> unique_key sn_id r \<and> set r = set xs"
  using index_snapshots_from_Inr [of "[]" xs] index_snapshots_from_consistent [of "[]" xs]
  unfolding index_snapshots_def by (auto simp: unique_by_def)

end
