(* ===== verification/Lineage_Properties.thy ===== *)
theory Lineage_Properties
  imports Lineage
begin

text \<open>
  Properties of source planning: what the lineage walk accepts and returns, which snapshots are
  classified as replayable, and which targets a window touches.
\<close>

section \<open>The walk\<close>

text \<open>
  \<open>descent xs cur stop path\<close>: the records of \<open>path\<close> start at the snapshot \<open>cur\<close>, each names
  the next one as its parent, and the last one names \<open>stop\<close>, which is met there for the first time.
\<close>

fun descent :: "snapshot_record list \<Rightarrow> int \<Rightarrow> int \<Rightarrow> snapshot_record list \<Rightarrow> bool" where
  "descent xs cur stop [] = (cur = stop)"
| "descent xs cur stop (x # path) =
     (cur \<noteq> stop \<and> x \<in> set xs \<and> sn_id x = cur \<and> (case sn_parent x of None \<Rightarrow> False | Some p \<Rightarrow> descent xs p stop path))"

lemma descent_unique:
  assumes "descent xs cur stop path" and "descent xs cur stop path'" and "consistent xs"
  shows "path = path'"
  using assms
proof (induction path arbitrary: cur path')
  case Nil
  then show ?case by (cases path') auto
next
  case (Cons x path)
  then obtain y ys where path': "path' = y # ys" by (cases path') auto
  with Cons.prems have "y = x" unfolding consistent_def by auto
  with Cons path' show ?case by (auto split: option.splits)
qed

lemma descent_suffix:
  "descent xs cur stop (pre @ x # post) \<Longrightarrow> descent xs (sn_id x) stop (x # post)"
proof (induction pre arbitrary: cur)
  case (Cons a pre)
  then show ?case by (cases "sn_parent a") auto
qed auto

lemma descent_distinct:
  assumes "descent xs cur stop path" and "consistent xs"
  shows "distinct (map sn_id path)"
  using assms(1)
proof (induction path arbitrary: cur)
  case (Cons x path)
  then obtain p where p: "descent xs p stop path" "sn_id x = cur" by (auto split: option.splits)
  have "sn_id y \<noteq> sn_id x" if "y \<in> set path" for y
  proof
    assume y: "sn_id y = sn_id x"
    from that obtain mid post where path: "path = mid @ y # post" by (meson split_list)
    have "descent xs cur stop (y # post)"
      using descent_suffix [of xs p stop mid y post] p y path by simp
    with Cons.prems have "x # path = y # post" using descent_unique assms(2) by blast
    then show False using path by (auto dest: arg_cong [of _ _ length])
  qed
  then have "sn_id x \<notin> sn_id ` set path" by force
  with Cons.IH [OF p(1)] show ?case by simp
qed simp

abbreviation identified :: "string \<Rightarrow> int \<Rightarrow> snapshot_record \<Rightarrow> bool" where
  "identified table_uuid spec x \<equiv> validate_snapshot_identity x table_uuid spec = Inr ()"

lemma walk_loop_Inr:
  assumes "unique_key sn_id xs"
  shows "walk_loop xs stop u sp cur visited path = Inr r \<longleftrightarrow>
    (\<exists>new. r = path @ new \<and> descent xs cur stop new \<and> list_all (identified u sp) new \<and>
       distinct (map sn_id new) \<and> set (map sn_id new) \<inter> set visited = {})"
  using assms
proof (induction xs stop u sp cur visited path rule: walk_loop.induct)
  case (1 xs stop u sp cur visited path)
  note unique = "1.prems"
  show ?case
  proof (cases "cur = stop")
    case True
    have "descent xs cur stop new \<longleftrightarrow> new = []" for new using True by (cases new) auto
    then show ?thesis using True by (subst walk_loop.simps) auto
  next
    case ne: False
    have head: "\<exists>x rest. new = x # rest \<and> x \<in> set xs \<and> sn_id x = cur" if "descent xs cur stop new" for new
      using that ne by (cases new) auto
    show ?thesis
    proof (cases "cur \<in> set visited \<or> lookup_by sn_id cur xs = None")
      case True
      then have "walk_loop xs stop u sp cur visited path = Inl SourceLineageError" using ne by (subst walk_loop.simps) auto
      moreover have "\<not> (descent xs cur stop new \<and> set (map sn_id new) \<inter> set visited = {})" for new
        using head [of new] True by (auto simp: lookup_by_None_iff)
      ultimately show ?thesis by auto
    next
      case False
      then obtain x where x: "cur \<notin> set visited" "lookup_by sn_id cur xs = Some x" by auto
      then have xm: "x \<in> set xs" "sn_id x = cur" by (auto dest: lookup_by_SomeD)
      have only: "y = x" if "y \<in> set xs" "sn_id y = cur" for y
        using unique_byD [OF unique that(1) xm(1)] that(2) xm(2) by simp
      show ?thesis
      proof (cases "identified u sp x \<and> sn_parent x \<noteq> None")
        case False
        have "walk_loop xs stop u sp cur visited path \<noteq> Inr r"
        proof (cases "validate_snapshot_identity x u sp")
          case (Inr a)
          with False have "sn_parent x = None" by simp
          with ne x Inr show ?thesis by (subst walk_loop.simps) simp
        qed (use ne x in \<open>subst walk_loop.simps, simp\<close>)
        moreover have "\<not> (descent xs cur stop new \<and> list_all (identified u sp) new)" for new
        proof
          assume d: "descent xs cur stop new \<and> list_all (identified u sp) new"
          with head obtain y rest where new: "new = y # rest" "y \<in> set xs" "sn_id y = cur" by blast
          then have "y = x" using only by simp
          with d new False show False by (cases "sn_parent x") simp_all
        qed
        ultimately show ?thesis by auto
      next
        case True
        then obtain p where p: "sn_parent x = Some p" "identified u sp x" by auto
        have step: "walk_loop xs stop u sp cur visited path = walk_loop xs stop u sp p (cur # visited) (path @ [x])"
          using ne x p by (subst walk_loop.simps) simp
        have des: "descent xs cur stop new \<longleftrightarrow> (\<exists>rest. new = x # rest \<and> descent xs p stop rest)" for new
        proof (cases new)
          case (Cons y rest)
          have "y \<in> set xs \<and> sn_id y = cur \<longleftrightarrow> y = x" using only xm by metis
          then show ?thesis using ne p(1) Cons by auto
        qed (use ne in simp)
        have IH: "walk_loop xs stop u sp p (cur # visited) (path @ [x]) = Inr r \<longleftrightarrow>
          (\<exists>new. r = (path @ [x]) @ new \<and> descent xs p stop new \<and> list_all (identified u sp) new \<and>
             distinct (map sn_id new) \<and> set (map sn_id new) \<inter> set (cur # visited) = {})"
          by (rule "1.IH" [OF ne x(1,2) p(2) p(1) unique])
        show ?thesis unfolding step IH des using xm(2) x(1) p(2) by fastforce
      qed
    qed
  qed
qed

lemma increasing_from_iff:
  "increasing_from prev xs = Inr () \<longleftrightarrow>
     sorted_wrt (<) ((case prev of None \<Rightarrow> [] | Some q \<Rightarrow> [q]) @ map sn_seq xs)"
proof (induction xs arbitrary: prev)
  case (Cons x xs)
  show ?case unfolding increasing_from.simps using Cons [of "Some (sn_seq x)"] by (force split: option.splits)
qed (simp split: option.splits)

text \<open>
  C27. The lineage walk is exact: it returns a path if and only if the metadata is consistent, the
  recorded ancestor is present with the expected identity, the path is the parent chain from the pinned
  head down to (and excluding) the ancestor with every record of the expected identity, and sequence
  numbers increase strictly from the ancestor on. The returned snapshots are in lineage order, distinct,
  and uniquely determined; anything else raises.
\<close>

theorem walk_snapshot_lineage_exact:
  "walk_snapshot_lineage xs head stop u sp = Inr path \<longleftrightarrow>
     consistent xs \<and>
     (\<exists>st\<in>set xs. sn_id st = stop \<and> identified u sp st \<and> descent xs head stop (rev path) \<and>
        list_all (identified u sp) path \<and> sorted_wrt (<) (sn_seq st # map sn_seq path))"
proof (cases "consistent xs")
  case False
  then have "\<not> (\<exists>r. index_snapshots xs = Inr r)" using index_snapshots_Inr_iff(1) by blast
  with False show ?thesis by (auto simp: walk_snapshot_lineage_def rbind_Inr_iff)
next
  case True
  then obtain ix where ix: "index_snapshots xs = Inr ix" using index_snapshots_Inr_iff(1) by blast
  then have u: "unique_key sn_id ix" and same: "set ix = set xs" using index_snapshots_Inr_iff(2) by blast+
  have descent_ix: "descent ix c stop p = descent xs c stop p" for c p
    using same by (induction ix c stop p rule: descent.induct) (auto split: option.splits)
  have loop: "walk_loop ix stop u sp head [] [] = Inr r \<longleftrightarrow> descent xs head stop r \<and> list_all (identified u sp) r" for r
    unfolding walk_loop_Inr [OF u] descent_ix using descent_distinct [OF _ True] by auto
  show ?thesis
  proof (cases "lookup_by sn_id stop ix")
    case None
    then have "\<not> (\<exists>st\<in>set xs. sn_id st = stop)" using same by (auto simp: lookup_by_None_iff)
    with None ix True show ?thesis by (auto simp: walk_snapshot_lineage_def)
  next
    case (Some st)
    have st: "s \<in> set xs \<and> sn_id s = stop \<longleftrightarrow> s = st" for s
      using Some same lookup_by_Some_iff [OF u, of stop s] by auto
    have rhs: "?thesis \<longleftrightarrow> (walk_snapshot_lineage xs head stop u sp = Inr path \<longleftrightarrow>
        identified u sp st \<and> descent xs head stop (rev path) \<and> list_all (identified u sp) path \<and>
        sorted_wrt (<) (sn_seq st # map sn_seq path))"
    proof -
      have "(\<exists>s\<in>set xs. sn_id s = stop \<and> P s) \<longleftrightarrow> P st" for P using st by metis
      from this [of "\<lambda>st. identified u sp st \<and> descent xs head stop (rev path) \<and>
        list_all (identified u sp) path \<and> sorted_wrt (<) (sn_seq st # map sn_seq path)"]
      show ?thesis using True by simp
    qed
    show ?thesis unfolding rhs
    proof (cases "head = stop")
      case True
      have "descent xs head stop (rev path) \<longleftrightarrow> path = []" using True by (cases "rev path") auto
      then show "walk_snapshot_lineage xs head stop u sp = Inr path \<longleftrightarrow>
        identified u sp st \<and> descent xs head stop (rev path) \<and> list_all (identified u sp) path \<and>
        sorted_wrt (<) (sn_seq st # map sn_seq path)"
        using ix Some True by (auto simp: walk_snapshot_lineage_def rbind_Inr_iff)
    next
      case False
      have chain: "sorted_wrt (<) (sn_seq st # map sn_seq path) \<longleftrightarrow>
        increasing_from None path = Inr () \<and> (path = [] \<or> sn_seq st < sn_seq (hd path))"
        unfolding increasing_from_iff by (cases path) auto
      show "walk_snapshot_lineage xs head stop u sp = Inr path \<longleftrightarrow>
        identified u sp st \<and> descent xs head stop (rev path) \<and> list_all (identified u sp) path \<and>
        sorted_wrt (<) (sn_seq st # map sn_seq path)"
        unfolding chain using ix Some False loop
        by (auto simp: walk_snapshot_lineage_def rbind_Inr_iff Let_def ensure_Inr_iff rev_swap)
    qed
  qed
qed

section \<open>Classification\<close>

text \<open>
  What one manifest entry may be in an append snapshot: untouched, or a data file that this snapshot
  added.
\<close>

definition append_entry_ok :: "snapshot_record \<Rightarrow> manifest_entry \<Rightarrow> bool" where
  "append_entry_ok x e \<longleftrightarrow>
     me_status e = EXISTING \<or> me_status e = ADDED \<and> me_content e = DATA \<and> me_snapshot e = sn_id x"

definition data_added :: "manifest_entry \<Rightarrow> bool" where
  "data_added e \<longleftrightarrow> me_status e = ADDED \<and> me_content e = DATA"

lemma check_append_entries_Inr: "check_append_entries x es = Inr () \<longleftrightarrow> list_all (append_entry_ok x) es"
proof (induction es)
  case (Cons e es)
  then show ?case by (cases "me_status e") (auto simp: append_entry_ok_def rbind_Inr_iff ensure_Inr_iff)
qed simp

lemma check_append_entries_Inl:
  "check_append_entries x es = Inl er \<Longrightarrow> \<exists>ec. er = SourceSnapshotBlockedError (sn_id x) ec"
  by (induction es) (auto simp: rbind_Inl_iff ensure_Inl_iff blocked_def)

lemma classify_snapshot_Inl:
  "classify_snapshot x es trust = Inl er \<Longrightarrow> \<exists>ec. er = SourceSnapshotBlockedError (sn_id x) ec"
  by (auto simp: classify_snapshot_def Let_def validate_append_entries_def validate_trusted_rewrite_def
      rbind_Inl_iff ensure_Inl_iff blocked_def dest: check_append_entries_Inl split: if_splits option.splits)

lemma classify_snapshot_fail_closed_parts:
  "classify_snapshot x es trust = Inr k \<longleftrightarrow>
     k = WK_APPEND \<and> py_lower (py_strip (sn_operation x)) \<in> {''append'', ''fast-append''} \<and>
       list_all (append_entry_ok x) es \<and>
       (declared_nonempty (sn_summary x) [''added-data-files'', ''added-records''] = Some False \<or>
        declared_nonempty (sn_summary x) [''added-data-files'', ''added-records''] = Some True \<and> list_ex data_added es)
     \<or> k = WK_TRUSTED_MAINTENANCE \<and> py_lower (py_strip (sn_operation x)) \<in> {''replace'', ''overwrite''} \<and>
       list_all (\<lambda>e. me_content e = DATA) es \<and>
       (\<exists>t writer. trust = Some t \<and> tr_writer t = Some writer \<and> tr_authenticated t \<and> tr_allowlisted t \<and>
          tr_logical_change t = Some False \<and> tr_invariants_match t)"
  "case classify_snapshot x es trust of
     Inr _ \<Rightarrow> True | Inl er \<Rightarrow> \<exists>ec. er = SourceSnapshotBlockedError (sn_id x) ec"
proof -
  define op where "op = py_lower (py_strip (sn_operation x))"
  have append: "validate_append_entries x es = Inr () \<longleftrightarrow> list_all (append_entry_ok x) es \<and>
       (declared_nonempty (sn_summary x) [''added-data-files'', ''added-records''] = Some False \<or>
        declared_nonempty (sn_summary x) [''added-data-files'', ''added-records''] = Some True \<and> list_ex data_added es)"
    by (auto simp: validate_append_entries_def has_added_data_def data_added_def [abs_def] rbind_Inr_iff
        ensure_Inr_iff check_append_entries_Inr split: option.splits)
  have rewrite: "validate_trusted_rewrite x es trust = Inr () \<longleftrightarrow> list_all (\<lambda>e. me_content e = DATA) es \<and>
       (\<exists>t writer. trust = Some t \<and> tr_writer t = Some writer \<and> tr_authenticated t \<and> tr_allowlisted t \<and>
          tr_logical_change t = Some False \<and> tr_invariants_match t)"
    by (auto simp: validate_trusted_rewrite_def trusted_def ensure_Inr_iff list_ex_iff list_all_iff split: option.splits)
  have ops: "classify_snapshot x es trust =
     (if op = ''append'' \<or> op = ''fast-append'' then rbind (validate_append_entries x es) (\<lambda>_. Inr WK_APPEND)
      else if op = ''replace'' \<or> op = ''overwrite''
      then rbind (validate_trusted_rewrite x es trust) (\<lambda>_. Inr WK_TRUSTED_MAINTENANCE)
      else if op \<in> {''delete'', ''row_delta''} then Inl (blocked x ''PHYSICAL_DELETE'')
      else Inl (blocked x ''UNKNOWN_OPERATION''))"
    unfolding classify_snapshot_def op_def [symmetric] Let_def APPEND_OPERATIONS_def REWRITE_OPERATIONS_def by simp
  show "classify_snapshot x es trust = Inr k \<longleftrightarrow>
     k = WK_APPEND \<and> py_lower (py_strip (sn_operation x)) \<in> {''append'', ''fast-append''} \<and>
       list_all (append_entry_ok x) es \<and>
       (declared_nonempty (sn_summary x) [''added-data-files'', ''added-records''] = Some False \<or>
        declared_nonempty (sn_summary x) [''added-data-files'', ''added-records''] = Some True \<and> list_ex data_added es)
     \<or> k = WK_TRUSTED_MAINTENANCE \<and> py_lower (py_strip (sn_operation x)) \<in> {''replace'', ''overwrite''} \<and>
       list_all (\<lambda>e. me_content e = DATA) es \<and>
       (\<exists>t writer. trust = Some t \<and> tr_writer t = Some writer \<and> tr_authenticated t \<and> tr_allowlisted t \<and>
          tr_logical_change t = Some False \<and> tr_invariants_match t)"
    unfolding op_def [symmetric] append [symmetric] rewrite [symmetric] ops
    by (cases "op = ''append''"; cases "op = ''fast-append''"; cases "op = ''replace''"; cases "op = ''overwrite''")
      (simp_all add: rbind_Inr_iff conj_comms eq_commute [of _ k])
  show "case classify_snapshot x es trust of
     Inr _ \<Rightarrow> True | Inl er \<Rightarrow> \<exists>ec. er = SourceSnapshotBlockedError (sn_id x) ec"
    by (auto split: sum.split dest: classify_snapshot_Inl)
qed

text \<open>
  C28. Classification fails closed: a snapshot is accepted as data exactly when its operation is an
  append, its summary counts are readable, a declared addition has an added data file as evidence, and
  every manifest entry is either untouched or a data file this very snapshot added; it is accepted as
  maintenance exactly when it is a rewrite by an authenticated, allow-listed writer that marked it as no
  logical change, with matching invariants and data files only. No baseline is ever inferred, and every
  refusal names this snapshot.
\<close>

theorem classify_snapshot_fail_closed:
  "(classify_snapshot x es trust = Inr k \<longleftrightarrow>
     k = WK_APPEND \<and> py_lower (py_strip (sn_operation x)) \<in> {''append'', ''fast-append''} \<and>
       list_all (append_entry_ok x) es \<and>
       (declared_nonempty (sn_summary x) [''added-data-files'', ''added-records''] = Some False \<or>
        declared_nonempty (sn_summary x) [''added-data-files'', ''added-records''] = Some True \<and> list_ex data_added es)
     \<or> k = WK_TRUSTED_MAINTENANCE \<and> py_lower (py_strip (sn_operation x)) \<in> {''replace'', ''overwrite''} \<and>
       list_all (\<lambda>e. me_content e = DATA) es \<and>
       (\<exists>t writer. trust = Some t \<and> tr_writer t = Some writer \<and> tr_authenticated t \<and> tr_allowlisted t \<and>
          tr_logical_change t = Some False \<and> tr_invariants_match t)) \<and>
   (case classify_snapshot x es trust of
      Inr _ \<Rightarrow> True | Inl er \<Rightarrow> \<exists>ec. er = SourceSnapshotBlockedError (sn_id x) ec)"
  using classify_snapshot_fail_closed_parts by (rule conjI)

section \<open>Targets\<close>

lemma collect_targets_Inr:
  "collect_targets p x es acc = Inr ts \<longleftrightarrow>
     list_all (\<lambda>e. p e \<longrightarrow> me_spec e = sn_spec x) es \<and>
     ts = sorted_targets (rev (map (target_of \<circ> me_partition) (filter p es)) @ acc)"
  by (induction es arbitrary: acc) (auto simp: rbind_Inr_iff validate_entry_spec_def ensure_Inr_iff)

lemma sorted_targets_iff: "ts = sorted_targets xs \<longleftrightarrow> sorted_wrt (<) ts \<and> set ts = set xs"
proof -
  have "sorted_wrt (<) (sorted_targets xs)" "set (sorted_targets xs) = set xs"
    unfolding sorted_targets_def strict_sorted_iff by simp_all
  then show ?thesis using strict_sorted_equal by metis
qed

lemma discovered_targets_exact_parts:
  "discover_added_targets x es = Inr ts \<longleftrightarrow>
     list_all (\<lambda>e. me_spec e = sn_spec x) (filter data_added es) \<and> sorted_wrt (<) ts \<and>
     set ts = {(pv_tenant v, pv_namespace v, pv_org v) | v. v \<in> me_partition ` set (filter data_added es)}"
  "discover_baseline_targets x es = Inr us \<longleftrightarrow>
     list_all (\<lambda>e. me_spec e = sn_spec x) (filter (\<lambda>e. me_status e \<noteq> DELETED \<and> me_content e = DATA) es) \<and> sorted_wrt (<) us \<and>
     set us = {(pv_tenant v, pv_namespace v, pv_org v) |
        v. v \<in> me_partition ` set (filter (\<lambda>e. me_status e \<noteq> DELETED \<and> me_content e = DATA) es)}"
proof -
  have key: "collect_targets p x es [] = Inr ts \<longleftrightarrow>
     list_all (\<lambda>e. me_spec e = sn_spec x) (filter p es) \<and> sorted_wrt (<) ts \<and>
     set ts = {(pv_tenant v, pv_namespace v, pv_org v) | v. v \<in> me_partition ` set (filter p es)}" for p ts
  proof -
    have "{(pv_tenant v, pv_namespace v, pv_org v) | v. v \<in> me_partition ` set (filter p es)} =
        set (rev (map (target_of \<circ> me_partition) (filter p es)) @ [])" by (auto simp: target_of_def image_iff)
    moreover have "list_all (\<lambda>e. p e \<longrightarrow> me_spec e = sn_spec x) es = list_all (\<lambda>e. me_spec e = sn_spec x) (filter p es)"
      by (induction es) auto
    ultimately show ?thesis unfolding collect_targets_Inr sorted_targets_iff by argo
  qed
  show "discover_added_targets x es = Inr ts \<longleftrightarrow>
     list_all (\<lambda>e. me_spec e = sn_spec x) (filter data_added es) \<and> sorted_wrt (<) ts \<and>
     set ts = {(pv_tenant v, pv_namespace v, pv_org v) | v. v \<in> me_partition ` set (filter data_added es)}"
    unfolding discover_added_targets_def data_added_def [abs_def, symmetric] by (rule key)
  show "discover_baseline_targets x es = Inr us \<longleftrightarrow>
     list_all (\<lambda>e. me_spec e = sn_spec x) (filter (\<lambda>e. me_status e \<noteq> DELETED \<and> me_content e = DATA) es) \<and> sorted_wrt (<) us \<and>
     set us = {(pv_tenant v, pv_namespace v, pv_org v) |
        v. v \<in> me_partition ` set (filter (\<lambda>e. me_status e \<noteq> DELETED \<and> me_content e = DATA) es)}"
    unfolding discover_baseline_targets_def by (rule key)
qed

text \<open>
  Target discovery is exact and canonical: for an append it returns a list if and only if every
  added data file carries the snapshot's own partition specification, and then it is the one strictly
  increasing list of precisely the (tenant, namespace, org) triples those files belong to, whatever the
  order or number of the manifest entries; for a baseline likewise over the live data files.
\<close>

theorem discovered_targets_exact:
  "(discover_added_targets x es = Inr ts \<longleftrightarrow>
     list_all (\<lambda>e. me_spec e = sn_spec x) (filter data_added es) \<and> sorted_wrt (<) ts \<and>
     set ts = {(pv_tenant v, pv_namespace v, pv_org v) | v. v \<in> me_partition ` set (filter data_added es)}) \<and>
   (discover_baseline_targets x es = Inr us \<longleftrightarrow>
     list_all (\<lambda>e. me_spec e = sn_spec x) (filter (\<lambda>e. me_status e \<noteq> DELETED \<and> me_content e = DATA) es) \<and> sorted_wrt (<) us \<and>
     set us = {(pv_tenant v, pv_namespace v, pv_org v) |
        v. v \<in> me_partition ` set (filter (\<lambda>e. me_status e \<noteq> DELETED \<and> me_content e = DATA) es)})"
  using discovered_targets_exact_parts by (rule conjI)

end
