(* ===== verification/Digest.thy ===== *)
theory Digest
  imports Pytext "HOL-Library.Multiset"
begin

text \<open>
  The canonical binary encodings of \<open>etl/digest.py\<close> that give source events and target windows their
  identity. A payload is a Python value; a mapping is its list of items in iteration order; a float is
  its IEEE bit pattern; an aware timestamp is its instant in microseconds since the epoch and a naive one
  is \<open>None\<close>. SHA-256 is a parameter.
\<close>

section \<open>Values\<close>

datatype pykey = KStr string | KOther

datatype pyvalue =
    PNone
  | PBool bool
  | PInt int
  | PFloat "64 word"
  | PStr string
  | PBytes bytes
  | PDatetime "int option"
  | PMapping "(pykey \<times> pyvalue) list"
  | PSequence "pyvalue list"
  | POther

type_synonym payload = "(pykey \<times> pyvalue) list"

section \<open>Encodings\<close>

definition encode_length :: "int \<Rightarrow> bytes result" where
  "encode_length sz = (if sz < 0 \<or> 2 ^ 64 \<le> sz then Inl ValueError else Inr (be_bytes 8 (nat sz)))"

definition encode_bytes :: "bytes \<Rightarrow> bytes result" where
  "encode_bytes value = rbind (encode_length (int (length value))) (\<lambda>n. Inr (n @ value))"

definition encode_text :: "string \<Rightarrow> bytes result" where
  "encode_text value = encode_bytes (utf8 value)"

text \<open>\<open>struct.pack(">q", v)\<close>: two's complement, big-endian.\<close>

definition pack_q :: "int \<Rightarrow> bytes" where
  "pack_q v = be_bytes 8 (nat (v mod 2 ^ 64))"

definition in_int64 :: "int \<Rightarrow> bool" where
  "in_int64 v \<longleftrightarrow> - (2 ^ 63) \<le> v \<and> v < 2 ^ 63"

text \<open>The \<open>timedelta\<close> from the epoch, normalised the way Python keeps it.\<close>

definition delta_days :: "int \<Rightarrow> int" where
  "delta_days t = t div 86400000000"

definition delta_seconds :: "int \<Rightarrow> int" where
  "delta_seconds t = t mod 86400000000 div 1000000"

definition delta_microseconds :: "int \<Rightarrow> int" where
  "delta_microseconds t = t mod 86400000000 mod 1000000"

definition encode_timestamp :: "int option \<Rightarrow> bytes result" where
  "encode_timestamp value =
     (case value of
        None \<Rightarrow> Inl ValueError
      | Some t \<Rightarrow>
          let micros = delta_days t * 86400000000 + delta_seconds t * 1000000 + delta_microseconds t
          in if \<not> in_int64 micros then Inl ValueError else Inr (pack_q micros))"

definition isfinite :: "64 word \<Rightarrow> bool" where
  "isfinite w \<longleftrightarrow> unat w div 2 ^ 52 mod 2 ^ 11 \<noteq> 2047"

definition tag :: "char \<Rightarrow> byte" where
  "tag c = of_nat (code c)"

definition mapping_entry :: "pykey \<times> pyvalue \<Rightarrow> (bytes \<times> pyvalue) result" where
  "mapping_entry kv = (case fst kv of KOther \<Rightarrow> Inl TypeError | KStr k \<Rightarrow> Inr (utf8 k, snd kv))"

definition sorted_entries :: "(bytes \<times> pyvalue) list \<Rightarrow> (bytes \<times> pyvalue) list" where
  "sorted_entries entries = sort_key fst entries"

lemma rmap_cong [fundef_cong]:
  "xs = ys \<Longrightarrow> (\<And>x. x \<in> set ys \<Longrightarrow> f x = g x) \<Longrightarrow> rmap f xs = rmap g ys"
  by (induction xs arbitrary: ys) auto

lemma rbind_cong [fundef_cong]:
  "m = m' \<Longrightarrow> (\<And>x. m' = Inr x \<Longrightarrow> f x = g x) \<Longrightarrow> rbind m f = rbind m' g"
  by (cases m') auto

lemma mapping_entry_mem:
  assumes "rmap mapping_entry kvs = Inr entries" and "e \<in> set (sorted_entries entries)"
  shows "\<exists>k. (k, snd e) \<in> set kvs"
proof -
  from assms obtain kv where "kv \<in> set kvs" "mapping_entry kv = Inr e"
    by (auto simp: sorted_entries_def dest: rmap_Inr_mem)
  moreover from this(2) have "snd e = snd kv" by (auto simp: mapping_entry_def split: pykey.splits)
  ultimately show ?thesis by (metis prod.collapse)
qed

function (sequential) encode_value :: "pyvalue \<Rightarrow> bytes result"
  and encode_mapping :: "payload \<Rightarrow> bytes result"
  and encode_sequence :: "pyvalue list \<Rightarrow> bytes result" where
  "encode_value PNone = Inr [tag CHR ''n'']"
| "encode_value (PBool v) = Inr (if v then [tag CHR ''b'', 1] else [tag CHR ''b'', 0])"
| "encode_value (PInt v) = (if \<not> in_int64 v then Inl OverflowError else Inr (tag CHR ''i'' # pack_q v))"
| "encode_value (PFloat w) = (if \<not> isfinite w then Inl ValueError else Inr (tag CHR ''f'' # be_bytes 8 (unat w)))"
| "encode_value (PStr s) = rbind (encode_text s) (\<lambda>b. Inr (tag CHR ''s'' # b))"
| "encode_value (PBytes v) = rbind (encode_bytes v) (\<lambda>b. Inr (tag CHR ''y'' # b))"
| "encode_value (PDatetime t) = rbind (encode_timestamp t) (\<lambda>b. Inr (tag CHR ''t'' # b))"
| "encode_value (PMapping kvs) = encode_mapping kvs"
| "encode_value (PSequence vs) = encode_sequence vs"
| "encode_value POther = Inl TypeError"
| "encode_mapping kvs =
     rbind (rmap mapping_entry kvs) (\<lambda>entries.
     rbind (encode_length (int (length entries))) (\<lambda>n.
     rbind (rmap (\<lambda>e. rbind (encode_bytes (fst e)) (\<lambda>k. rbind (encode_value (snd e)) (\<lambda>b. Inr (k @ b))))
       (sorted_entries entries)) (\<lambda>bs.
     Inr (tag CHR ''m'' # n @ concat bs))))"
| "encode_sequence vs =
     rbind (encode_length (int (length vs))) (\<lambda>n.
     rbind (rmap encode_value vs) (\<lambda>bs. Inr (tag CHR ''l'' # n @ concat bs)))"
  by pat_completeness auto
termination
proof (relation "measure (\<lambda>x. case x of Inl v \<Rightarrow> size v
    | Inr (Inl kvs) \<Rightarrow> size (PMapping kvs) - 1 | Inr (Inr vs) \<Rightarrow> size (PSequence vs) - 1)")
  fix kvs :: payload and entries n e k
  assume "rmap mapping_entry kvs = Inr entries" and "e \<in> set (sorted_entries entries)"
  then obtain q where "(q, snd e) \<in> set kvs" using mapping_entry_mem by blast
  then show "(Inl (snd e), Inr (Inl kvs)) \<in> measure (\<lambda>x. case x of Inl v \<Rightarrow> size v
    | Inr (Inl kvs) \<Rightarrow> size (PMapping kvs) - 1 | Inr (Inr vs) \<Rightarrow> size (PSequence vs) - 1)"
    by (induction kvs) auto
next
  fix vs :: "pyvalue list" and v n
  assume "v \<in> set vs"
  then show "(Inl v, Inr (Inr vs)) \<in> measure (\<lambda>x. case x of Inl v \<Rightarrow> size v
    | Inr (Inl kvs) \<Rightarrow> size (PMapping kvs) - 1 | Inr (Inr vs) \<Rightarrow> size (PSequence vs) - 1)"
    by (induction vs) auto
qed auto

definition EVENT_DIGEST_HEADER :: bytes where
  "EVENT_DIGEST_HEADER = utf8 ''lance-etl-event-digest-v1'' @ [0]"

definition SOURCE_DIGEST_HEADER :: bytes where
  "SOURCE_DIGEST_HEADER = utf8 ''lance-etl-source-digest-v1'' @ [0]"

definition event_encoding ::
    "string \<times> string \<times> string \<Rightarrow> string \<Rightarrow> string \<Rightarrow> int option \<Rightarrow> payload \<Rightarrow> bytes result" where
  "event_encoding routing record_id operation ts payload =
     rbind (rmap encode_text [fst routing, fst (snd routing), snd (snd routing)]) (\<lambda>rs.
     rbind (encode_text record_id) (\<lambda>i.
     rbind (encode_text operation) (\<lambda>p.
     rbind (encode_timestamp ts) (\<lambda>t.
     rbind (encode_mapping payload) (\<lambda>m.
     Inr (EVENT_DIGEST_HEADER @ concat rs @ i @ p @ t @ m))))))"

definition canonical_event_digest ::
    "(bytes \<Rightarrow> bytes) \<Rightarrow> string \<times> string \<times> string \<Rightarrow> string \<Rightarrow> string \<Rightarrow> int option \<Rightarrow> payload \<Rightarrow> bytes result" where
  "canonical_event_digest sha256 routing record_id operation ts payload =
     rbind (event_encoding routing record_id operation ts payload) (\<lambda>b. Inr (sha256 b))"

type_synonym source_row_digest = "string \<times> int \<times> bytes"

fun order_rows :: "string list \<Rightarrow> source_row_digest list \<Rightarrow> (bytes \<times> int \<times> bytes) list result" where
  "order_rows seen [] = Inr []"
| "order_rows seen ((record_id, source_sequence, event_digest) # rows) =
     rbind (ensure (record_id \<notin> set seen) ValueError) (\<lambda>_.
     rbind (ensure (0 \<le> source_sequence \<and> source_sequence < 2 ^ 63) ValueError) (\<lambda>_.
     rbind (ensure (length event_digest = 32) ValueError) (\<lambda>_.
     rbind (order_rows (record_id # seen) rows) (\<lambda>ordered.
     Inr ((utf8 record_id, source_sequence, event_digest) # ordered)))))"

definition encode_source_row :: "bytes \<times> int \<times> bytes \<Rightarrow> bytes result" where
  "encode_source_row r =
     rbind (encode_bytes (fst r)) (\<lambda>k. Inr (k @ pack_q (fst (snd r)) @ snd (snd r)))"

definition source_encoding :: "source_row_digest list \<Rightarrow> bytes result" where
  "source_encoding rows =
     rbind (order_rows [] rows) (\<lambda>ordered.
     rbind (rmap encode_source_row (sort_key fst ordered)) (\<lambda>bs.
     Inr (SOURCE_DIGEST_HEADER @ concat bs)))"

definition canonical_source_digest :: "(bytes \<Rightarrow> bytes) \<Rightarrow> source_row_digest list \<Rightarrow> bytes result" where
  "canonical_source_digest sha256 rows = rbind (source_encoding rows) (\<lambda>b. Inr (sha256 b))"

end
