(* ===== verification/Digest_Properties.thy ===== *)
theory Digest_Properties
  imports Digest
begin

text \<open>
  The canonical encodings identify what they encode: they are prefix free, so two events, or two sets of
  terminal rows, have the same bytes exactly when they are the same up to the order of mapping items and
  of rows.
\<close>

section \<open>Prefix-free encoders\<close>

text \<open>
  \<open>determines f c x\<close>: whatever follows, the bytes \<open>f x\<close> can be told from those of every other value
  with a different canonical form \<open>c\<close>.
\<close>

definition determines :: "('a \<Rightarrow> bytes result) \<Rightarrow> ('a \<Rightarrow> 'b) \<Rightarrow> 'a \<Rightarrow> bool" where
  "determines f c x \<longleftrightarrow>
     (\<forall>y b b' r r'. f x = Inr b \<longrightarrow> f y = Inr b' \<longrightarrow> b @ r = b' @ r' \<longrightarrow> c x = c y \<and> r = r')"

lemma determinesI:
  assumes "\<And>y b b' r r'. f x = Inr b \<Longrightarrow> f y = Inr b' \<Longrightarrow> b @ r = b' @ r' \<Longrightarrow> c x = c y \<and> r = r'"
  shows "determines f c x"
  unfolding determines_def using assms by blast

lemma determinesD:
  assumes "determines f c x" and "f x = Inr b" and "f y = Inr b'" and "b @ r = b' @ r'"
  shows "c x = c y" and "r = r'"
  using assms unfolding determines_def by blast+

lemma determines_rmap:
  assumes "\<And>x. x \<in> set xs \<Longrightarrow> determines f c x"
    and "rmap f xs = Inr bs" and "rmap f ys = Inr bs'" and "length xs = length ys"
    and "concat bs @ r = concat bs' @ r'"
  shows "map c xs = map c ys \<and> r = r'"
  using assms(4,1-3,5)
proof (induction xs ys arbitrary: bs bs' rule: list_induct2)
  case (Cons x xs y ys)
  from Cons.prems(2) obtain b bs1 where b: "f x = Inr b" "rmap f xs = Inr bs1" "bs = b # bs1"
    by (auto simp: rbind_Inr_iff)
  from Cons.prems(3) obtain b' bs1' where b': "f y = Inr b'" "rmap f ys = Inr bs1'" "bs' = b' # bs1'"
    by (auto simp: rbind_Inr_iff)
  have "b @ (concat bs1 @ r) = b' @ (concat bs1' @ r')" using Cons.prems(4) b b' by simp
  from determinesD [OF Cons.prems(1) b(1) b'(1) this] Cons.IH [OF Cons.prems(1) b(2) b'(2)]
  show ?case by simp
qed simp

lemma rmap_length: "rmap f xs = Inr ys \<Longrightarrow> length ys = length xs"
  unfolding rmap_Inr_iff by (simp add: list_all2_lengthD)

lemma encode_length_Inr: "encode_length n = Inr b \<longleftrightarrow> 0 \<le> n \<and> n < 2 ^ 64 \<and> b = be_bytes 8 (nat n)"
  by (auto simp: encode_length_def)

lemma fixed_append: "length b = length b' \<Longrightarrow> b @ r = b' @ r' \<longleftrightarrow> b = b' \<and> r = r'"
  by simp

lemma encode_length_determines: "determines encode_length id n"
proof (rule determinesI)
  fix y b b' and r r' :: bytes
  assume b: "encode_length n = Inr b" "encode_length y = Inr b'" and eq: "b @ r = b' @ r'"
  then have "b = b' \<and> r = r'" by (auto simp: encode_length_Inr)
  then show "id n = id y \<and> r = r'"
    using b be_bytes_inj [of "nat n" 8 "nat y"] by (auto simp: encode_length_Inr nat_less_iff)
qed

lemma encode_bytes_determines: "determines encode_bytes id v"
proof (rule determinesI)
  fix w b b' and r r' :: bytes
  assume b: "encode_bytes v = Inr b" "encode_bytes w = Inr b'" and eq: "b @ r = b' @ r'"
  then obtain n n' where n: "encode_length (int (length v)) = Inr n" "b = n @ v"
      "encode_length (int (length w)) = Inr n'" "b' = n' @ w"
    by (auto simp: encode_bytes_def rbind_Inr_iff)
  have "n @ (v @ r) = n' @ (w @ r')" using eq n by simp
  note d = determinesD [OF encode_length_determines n(1,3) this]
  from d(1) have "length v = length w" by simp
  with d(2) show "id v = id w \<and> r = r'" by simp
qed

lemma encode_text_determines: "determines encode_text id s"
proof (rule determinesI)
  fix t b b' and r r' :: bytes
  assume b: "encode_text s = Inr b" "encode_text t = Inr b'" and eq: "b @ r = b' @ r'"
  from determinesD [OF encode_bytes_determines b [unfolded encode_text_def] eq]
  show "id s = id t \<and> r = r'" by simp
qed

lemma length_pack_q [simp]: "length (pack_q v) = 8"
  by (simp add: pack_q_def)

lemma pack_q_inj: "in_int64 v \<Longrightarrow> in_int64 w \<Longrightarrow> pack_q v = pack_q w \<longleftrightarrow> v = w"
proof
  assume r: "in_int64 v" "in_int64 w" and eq: "pack_q v = pack_q w"
  have "nat (v mod 2 ^ 64) = nat (w mod 2 ^ 64)"
    using eq unfolding pack_q_def by (rule be_bytes_inj [rotated 2]) (simp_all add: nat_less_iff)
  then have "v mod 2 ^ 64 = w mod 2 ^ 64" by (simp add: eq_nat_nat_iff)
  then have "2 ^ 64 dvd v - w" by (simp only: mod_eq_dvd_iff)
  then obtain q where q: "v - w = 2 ^ 64 * q" by blast
  have "- (2 ^ 64) < v - w" "v - w < 2 ^ 64" using r by (auto simp: in_int64_def)
  then have "q = 0" unfolding q by auto
  then show "v = w" using q by simp
qed simp

lemma delta_micros: "delta_days t * 86400000000 + delta_seconds t * 1000000 + delta_microseconds t = t"
  unfolding delta_days_def delta_seconds_def delta_microseconds_def by (simp add: add.assoc)

lemma encode_timestamp_Inr:
  "encode_timestamp ts = Inr b \<longleftrightarrow> (\<exists>t. ts = Some t \<and> in_int64 t \<and> b = pack_q t)"
  unfolding encode_timestamp_def by (auto simp: delta_micros Let_def split: option.splits)

lemma encode_timestamp_determines: "determines encode_timestamp id ts"
  by (rule determinesI) (auto simp: encode_timestamp_Inr pack_q_inj)

section \<open>Payload values\<close>

text \<open>The canonical form: mapping items in the order of their UTF-8 keys, at every depth.\<close>

definition key_bytes :: "pykey \<Rightarrow> bytes" where
  "key_bytes k = (case k of KStr s \<Rightarrow> utf8 s | KOther \<Rightarrow> [])"

primrec canonical :: "pyvalue \<Rightarrow> pyvalue" where
  "canonical PNone = PNone"
| "canonical (PBool v) = PBool v"
| "canonical (PInt v) = PInt v"
| "canonical (PFloat w) = PFloat w"
| "canonical (PStr s) = PStr s"
| "canonical (PBytes b) = PBytes b"
| "canonical (PDatetime t) = PDatetime t"
| "canonical (PMapping kvs) = PMapping (sort_key (key_bytes \<circ> fst) (map (map_prod id canonical) kvs))"
| "canonical (PSequence vs) = PSequence (map canonical vs)"
| "canonical POther = POther"

definition canonical_payload :: "payload \<Rightarrow> payload" where
  "canonical_payload kvs = sort_key (key_bytes \<circ> fst) (map (map_prod id canonical) kvs)"

lemma insort_key_map: "insort_key f (g x) (map g xs) = map g (insort_key (f \<circ> g) x xs)"
  by (induction xs) auto

lemma sort_key_map: "sort_key f (map g xs) = map g (sort_key (f \<circ> g) xs)"
proof (induction xs)
  case (Cons x xs)
  then show ?case using insort_key_map [of f g x "sort_key (f \<circ> g) xs"] by (simp add: sort_key_def comp_def)
qed simp

lemma insort_key_cong: "f x = g x \<Longrightarrow> (\<And>y. y \<in> set xs \<Longrightarrow> f y = g y) \<Longrightarrow> insort_key f x xs = insort_key g x xs"
  by (induction xs) auto

lemma mapping_entries:
  assumes "rmap mapping_entry kvs = Inr entries"
  shows "entries = map (\<lambda>kv. (key_bytes (fst kv), snd kv)) kvs" and "\<forall>kv\<in>set kvs. \<exists>s. fst kv = KStr s"
  using assms
  by (induction kvs arbitrary: entries) (auto simp: rbind_Inr_iff mapping_entry_def key_bytes_def split: pykey.splits)

abbreviation encode_entry :: "bytes \<times> pyvalue \<Rightarrow> bytes result" where
  "encode_entry e \<equiv> rbind (encode_bytes (fst e)) (\<lambda>k. rbind (encode_value (snd e)) (\<lambda>b. Inr (k @ b)))"

lemma encode_entry_determines:
  assumes "determines encode_value canonical (snd e)"
  shows "determines encode_entry (map_prod id canonical) e"
proof (rule determinesI)
  fix y b b' and r r' :: bytes
  assume b: "encode_entry e = Inr b" "encode_entry y = Inr b'" and eq: "b @ r = b' @ r'"
  then obtain k v k' v' where p: "encode_bytes (fst e) = Inr k" "encode_value (snd e) = Inr v" "b = k @ v"
      "encode_bytes (fst y) = Inr k'" "encode_value (snd y) = Inr v'" "b' = k' @ v'"
    by (auto simp: rbind_Inr_iff)
  have "k @ (v @ r) = k' @ (v' @ r')" using eq p by simp
  note d = determinesD [OF encode_bytes_determines p(1,4) this]
  from determinesD [OF assms p(2,5) d(2)] d(1) show "map_prod id canonical e = map_prod id canonical y \<and> r = r'"
    by (simp add: prod_eq_iff)
qed

definition entry_of :: "pykey \<times> pyvalue \<Rightarrow> bytes \<times> pyvalue" where
  "entry_of kv = (key_bytes (fst kv), snd kv)"

lemma sorted_entries_canonical:
  "map (map_prod id canonical) (sorted_entries (map entry_of kvs)) = map entry_of (canonical_payload kvs)"
proof -
  have "map (map_prod id canonical) (sorted_entries (map entry_of kvs)) =
      sort_key fst (map (map_prod id canonical) (map entry_of kvs))"
    by (simp only: sorted_entries_def sort_key_map) (simp add: comp_def)
  also have "map (map_prod id canonical) (map entry_of kvs) = map entry_of (map (map_prod id canonical) kvs)"
    by (simp add: entry_of_def)
  also have "sort_key fst (map entry_of (map (map_prod id canonical) kvs)) = map entry_of (canonical_payload kvs)"
    unfolding canonical_payload_def sort_key_map by (simp add: entry_of_def comp_def)
  finally show ?thesis .
qed

lemma canonical_entries:
  assumes "rmap mapping_entry kvs = Inr entries" and "rmap mapping_entry kvs' = Inr entries'"
  shows "canonical_payload kvs = canonical_payload kvs' \<longleftrightarrow>
    map (map_prod id canonical) (sorted_entries entries) = map (map_prod id canonical) (sorted_entries entries')"
proof -
  have e: "entries = map entry_of kvs" "entries' = map entry_of kvs'"
    using assms [THEN mapping_entries(1)] by (simp_all add: entry_of_def)
  have strings: "\<exists>s. fst kv = KStr s" if "rmap mapping_entry ks = Inr e" "kv \<in> set (canonical_payload ks)" for ks e kv
    using mapping_entries(2) [OF that(1)] that(2) by (auto simp: canonical_payload_def)
  have "inj_on entry_of {kv. \<exists>s. fst kv = KStr s}"
    by (auto simp: inj_on_def entry_of_def key_bytes_def prod_eq_iff)
  then have "inj_on entry_of (set (canonical_payload kvs) \<union> set (canonical_payload kvs'))"
    by (rule inj_on_subset) (use strings [OF assms(1)] strings [OF assms(2)] in auto)
  then show ?thesis unfolding e sorted_entries_canonical by (metis inj_on_map_eq_map)
qed

lemma rmap_mapping_entry:
  "rmap mapping_entry kvs = (if \<exists>kv\<in>set kvs. fst kv = KOther then Inl TypeError else Inr (map entry_of kvs))"
  by (induction kvs) (auto simp: mapping_entry_def entry_of_def key_bytes_def split: pykey.splits)

lemma tag_eq [simp]: "tag c = tag d \<longleftrightarrow> c = d"
proof
  assume "tag c = tag d"
  then have "code c mod 256 = code d mod 256" unfolding tag_def unat_of_nat_byte [symmetric] by simp
  then show "c = d" by (metis of_char_mod_256 of_char_eq_iff)
qed simp

section \<open>Encoded values\<close>

lemma encode_mapping_Inr:
  "encode_mapping kvs = Inr b \<longleftrightarrow>
     (\<exists>entries n bs. rmap mapping_entry kvs = Inr entries \<and> encode_length (int (length entries)) = Inr n \<and>
        rmap encode_entry (sorted_entries entries) = Inr bs \<and> b = tag CHR ''m'' # n @ concat bs)"
  by (subst encode_mapping.simps) (auto simp: rbind_Inr_iff simp del: encode_mapping.simps)

lemma encode_sequence_Inr:
  "encode_sequence vs = Inr b \<longleftrightarrow>
     (\<exists>n bs. encode_length (int (length vs)) = Inr n \<and> rmap encode_value vs = Inr bs \<and> b = tag CHR ''l'' # n @ concat bs)"
  by (auto simp: rbind_Inr_iff)

lemma encode_mapping_determines:
  assumes "\<And>v. v \<in> snd ` set kvs \<Longrightarrow> determines encode_value canonical v"
  shows "determines encode_mapping canonical_payload kvs"
proof (rule determinesI)
  fix kvs' b b' and r r' :: bytes
  assume b: "encode_mapping kvs = Inr b" "encode_mapping kvs' = Inr b'" and eq: "b @ r = b' @ r'"
  from b(1) obtain es n bs where e: "rmap mapping_entry kvs = Inr es" "encode_length (int (length es)) = Inr n"
      "rmap encode_entry (sorted_entries es) = Inr bs" "b = tag CHR ''m'' # n @ concat bs"
    unfolding encode_mapping_Inr by blast
  from b(2) obtain es' n' bs' where e': "rmap mapping_entry kvs' = Inr es'" "encode_length (int (length es')) = Inr n'"
      "rmap encode_entry (sorted_entries es') = Inr bs'" "b' = tag CHR ''m'' # n' @ concat bs'"
    unfolding encode_mapping_Inr by blast
  have "n @ (concat bs @ r) = n' @ (concat bs' @ r')" using eq e(4) e'(4) by simp
  note d = determinesD [OF encode_length_determines e(2) e'(2) this]
  have len: "length (sorted_entries es) = length (sorted_entries es')" using d(1) by (simp add: sorted_entries_def)
  have "determines encode_entry (map_prod id canonical) x" if "x \<in> set (sorted_entries es)" for x
  proof (rule encode_entry_determines, rule assms)
    show "snd x \<in> snd ` set kvs" using mapping_entry_mem [OF e(1) that] by force
  qed
  from determines_rmap [OF this e(3) e'(3) len d(2)]
  show "canonical_payload kvs = canonical_payload kvs' \<and> r = r'"
    using canonical_entries [OF e(1) e'(1)] by simp
qed

lemma encode_sequence_determines:
  assumes "\<And>v. v \<in> set vs \<Longrightarrow> determines encode_value canonical v"
  shows "determines encode_sequence (map canonical) vs"
proof (rule determinesI)
  fix vs' b b' and r r' :: bytes
  assume b: "encode_sequence vs = Inr b" "encode_sequence vs' = Inr b'" and eq: "b @ r = b' @ r'"
  from b(1) obtain n bs where e: "encode_length (int (length vs)) = Inr n" "rmap encode_value vs = Inr bs"
      "b = tag CHR ''l'' # n @ concat bs" unfolding encode_sequence_Inr by blast
  from b(2) obtain n' bs' where e': "encode_length (int (length vs')) = Inr n'" "rmap encode_value vs' = Inr bs'"
      "b' = tag CHR ''l'' # n' @ concat bs'" unfolding encode_sequence_Inr by blast
  have "n @ (concat bs @ r) = n' @ (concat bs' @ r')" using eq e(3) e'(3) by simp
  note d = determinesD [OF encode_length_determines e(1) e'(1) this]
  from d(1) have "length vs = length vs'" by simp
  from determines_rmap [OF assms e(2) e'(2) this d(2)] show "map canonical vs = map canonical vs' \<and> r = r'" .
qed

text \<open>The first byte of an encoded value gives its type.\<close>

fun type_tag :: "pyvalue \<Rightarrow> char" where
  "type_tag PNone = CHR ''n''"
| "type_tag (PBool v) = CHR ''b''"
| "type_tag (PInt v) = CHR ''i''"
| "type_tag (PFloat w) = CHR ''f''"
| "type_tag (PStr s) = CHR ''s''"
| "type_tag (PBytes b) = CHR ''y''"
| "type_tag (PDatetime t) = CHR ''t''"
| "type_tag (PMapping kvs) = CHR ''m''"
| "type_tag (PSequence vs) = CHR ''l''"
| "type_tag POther = CHR ''?''"

lemma encode_value_tag: "encode_value v = Inr b \<Longrightarrow> \<exists>b1. b = tag (type_tag v) # b1"
  by (cases v) (auto simp: encode_mapping_Inr encode_sequence_Inr rbind_Inr_iff
      simp del: encode_mapping.simps encode_sequence.simps split: if_splits)

lemma be_bytes_word_inj: "be_bytes 8 (unat (v :: 64 word)) = be_bytes 8 (unat w) \<longleftrightarrow> v = w"
proof
  assume eq: "be_bytes 8 (unat v) = be_bytes 8 (unat w)"
  have "unat v < 256 ^ 8" "unat w < 256 ^ 8" using unsigned_less [of v, where 'a = nat] unsigned_less [of w, where 'a = nat] by simp_all
  from be_bytes_inj [OF this eq] show "v = w" by (simp add: word_unat_eq_iff)
qed simp

lemma encode_value_leaf:
  assumes "type_tag v \<notin> {CHR ''m'', CHR ''l''}"
  shows "determines encode_value canonical v"
proof (rule determinesI)
  fix w b b' and r r' :: bytes
  assume b: "encode_value v = Inr b" "encode_value w = Inr b'" and eq: "b @ r = b' @ r'"
  from encode_value_tag [OF b(1)] encode_value_tag [OF b(2)] eq have t: "type_tag v = type_tag w" by auto
  show "canonical v = canonical w \<and> r = r'"
  proof (cases v)
    case (PStr x)
    with t obtain y where w: "w = PStr y" by (cases w) auto
    from b PStr w obtain c c' where c: "encode_text x = Inr c" "encode_text y = Inr c'"
        "b = tag CHR ''s'' # c" "b' = tag CHR ''s'' # c'" by (auto simp: rbind_Inr_iff)
    with eq have "c @ r = c' @ r'" by simp
    from determinesD [OF encode_text_determines c(1,2) this] show ?thesis using PStr w by simp
  next
    case (PBytes x)
    with t obtain y where w: "w = PBytes y" by (cases w) auto
    from b PBytes w obtain c c' where c: "encode_bytes x = Inr c" "encode_bytes y = Inr c'"
        "b = tag CHR ''y'' # c" "b' = tag CHR ''y'' # c'" by (auto simp: rbind_Inr_iff)
    with eq have "c @ r = c' @ r'" by simp
    from determinesD [OF encode_bytes_determines c(1,2) this] show ?thesis using PBytes w by simp
  next
    case (PInt x)
    with t obtain y where "w = PInt y" by (cases w) auto
    with PInt b eq show ?thesis by (auto simp: pack_q_inj split: if_splits)
  next
    case (PFloat x)
    with t obtain y where "w = PFloat y" by (cases w) auto
    with PFloat b eq show ?thesis by (auto simp: be_bytes_word_inj split: if_splits)
  next
    case (PDatetime x)
    with t obtain y where "w = PDatetime y" by (cases w) auto
    with PDatetime b eq show ?thesis by (auto simp: rbind_Inr_iff encode_timestamp_Inr pack_q_inj)
  next
    case (PBool x)
    with t obtain y where "w = PBool y" by (cases w) auto
    with PBool b eq show ?thesis by (auto split: if_splits)
  next
    case PNone
    with t have "w = PNone" by (cases w) auto
    with PNone b eq show ?thesis by auto
  qed (use assms b in auto)
qed

lemma encode_value_determines: "determines encode_value canonical v"
proof (induction v)
  case (PMapping kvs)
  have d: "determines encode_mapping canonical_payload kvs"
    by (rule encode_mapping_determines) (use PMapping in \<open>auto simp: snds.simps image_iff\<close>)
  show ?case
  proof (rule determinesI)
    fix w b b' and r r' :: bytes
    assume b: "encode_value (PMapping kvs) = Inr b" "encode_value w = Inr b'" and eq: "b @ r = b' @ r'"
    from encode_value_tag [OF b(1)] encode_value_tag [OF b(2)] eq have "type_tag w = CHR ''m''" by auto
    then obtain kvs' where w: "w = PMapping kvs'" by (cases w) auto
    from determinesD [OF d _ _ eq, of kvs'] b w
    show "canonical (PMapping kvs) = canonical w \<and> r = r'"
      by (simp add: canonical_payload_def del: encode_mapping.simps)
  qed
next
  case (PSequence vs)
  have d: "determines encode_sequence (map canonical) vs"
    by (rule encode_sequence_determines) (use PSequence in auto)
  show ?case
  proof (rule determinesI)
    fix w b b' and r r' :: bytes
    assume b: "encode_value (PSequence vs) = Inr b" "encode_value w = Inr b'" and eq: "b @ r = b' @ r'"
    from encode_value_tag [OF b(1)] encode_value_tag [OF b(2)] eq have "type_tag w = CHR ''l''" by auto
    then obtain vs' where w: "w = PSequence vs'" by (cases w) auto
    from determinesD [OF d _ _ eq, of vs'] b w
    show "canonical (PSequence vs) = canonical w \<and> r = r'" by (simp del: encode_sequence.simps)
  qed
qed (rule encode_value_leaf, simp)+

lemma rmap_map: "rmap f (map g xs) = rmap (f \<circ> g) xs"
  by (induction xs) simp_all

lemma encode_mapping_canonical:
  assumes "\<And>v. v \<in> snd ` set kvs \<Longrightarrow> encode_value (canonical v) = encode_value v"
  shows "encode_mapping (canonical_payload kvs) = encode_mapping kvs"
proof (cases "\<exists>kv\<in>set kvs. fst kv = KOther")
  case True
  then have "\<exists>kv\<in>set (canonical_payload kvs). fst kv = KOther" by (force simp: canonical_payload_def)
  with True show ?thesis by (simp add: rmap_mapping_entry)
next
  case False
  then have strings: "\<not> (\<exists>kv\<in>set (canonical_payload kvs). fst kv = KOther)" by (auto simp: canonical_payload_def)
  have "sorted (map fst (map entry_of (canonical_payload kvs)))"
    unfolding sorted_entries_canonical [symmetric] by (simp add: sorted_entries_def comp_def)
  then have "sorted_entries (map entry_of (canonical_payload kvs)) = map entry_of (canonical_payload kvs)"
    unfolding sorted_entries_def by (rule sort_key_id_if_sorted)
  then have es: "sorted_entries (map entry_of (canonical_payload kvs)) =
      map (map_prod id canonical) (sorted_entries (map entry_of kvs))"
    by (simp only: sorted_entries_canonical)
  have "rmap encode_entry (sorted_entries (map entry_of (canonical_payload kvs))) =
      rmap encode_entry (sorted_entries (map entry_of kvs))"
    unfolding es rmap_map
  proof (rule rmap_cong [OF refl])
    fix e assume "e \<in> set (sorted_entries (map entry_of kvs))"
    then have "snd e \<in> snd ` set kvs" by (force simp: sorted_entries_def entry_of_def)
    with assms show "(encode_entry \<circ> map_prod id canonical) e = encode_entry e" by simp
  qed
  with False strings show ?thesis by (simp add: rmap_mapping_entry canonical_payload_def)
qed

lemma encode_value_canonical: "encode_value (canonical v) = encode_value v"
proof (induction v)
  case (PMapping kvs)
  have "encode_mapping (canonical_payload kvs) = encode_mapping kvs"
    by (rule encode_mapping_canonical) (use PMapping in \<open>auto simp: snds.simps image_iff\<close>)
  then show ?case by (simp add: canonical_payload_def del: encode_mapping.simps)
next
  case (PSequence vs)
  have "rmap (encode_value \<circ> canonical) vs = rmap encode_value vs"
    by (rule rmap_cong [OF refl]) (use PSequence in simp)
  then show ?case by (simp add: rmap_map)
qed simp_all

lemmas payload_determines = encode_mapping_determines [OF encode_value_determines]
lemmas payload_canonical = encode_mapping_canonical [OF encode_value_canonical]

lemma event_encoding_eq_iff:
  assumes "event_encoding routing record_id operation ts payload = Inr b"
    and "event_encoding routing' record_id' operation' ts' payload' = Inr b'"
  shows "b = b' \<longleftrightarrow> routing = routing' \<and> record_id = record_id' \<and> operation = operation' \<and> ts = ts' \<and>
    canonical_payload payload = canonical_payload payload'"
proof
  from assms(1) obtain rs i p t m where e: "rmap encode_text [fst routing, fst (snd routing), snd (snd routing)] = Inr rs"
      "encode_text record_id = Inr i" "encode_text operation = Inr p" "encode_timestamp ts = Inr t"
      "encode_mapping payload = Inr m" "b = EVENT_DIGEST_HEADER @ concat rs @ i @ p @ t @ m"
    unfolding event_encoding_def rbind_Inr_iff by blast
  from assms(2) obtain rs' i' p' t' m' where e': "rmap encode_text [fst routing', fst (snd routing'), snd (snd routing')] = Inr rs'"
      "encode_text record_id' = Inr i'" "encode_text operation' = Inr p'" "encode_timestamp ts' = Inr t'"
      "encode_mapping payload' = Inr m'" "b' = EVENT_DIGEST_HEADER @ concat rs' @ i' @ p' @ t' @ m'"
    unfolding event_encoding_def rbind_Inr_iff by blast
  {
    assume "b = b'"
    then have "concat rs @ (i @ p @ t @ m) = concat rs' @ (i' @ p' @ t' @ m')" using e(6) e'(6) by simp
    from determines_rmap [OF encode_text_determines e(1) e'(1) _ this]
    have r: "routing = routing'" "i @ (p @ t @ m) = i' @ (p' @ t' @ m')" by (simp_all add: prod_eq_iff)
    note i = determinesD [OF encode_text_determines e(2) e'(2) r(2)]
    note p = determinesD [OF encode_text_determines e(3) e'(3) i(2)]
    note t = determinesD [OF encode_timestamp_determines e(4) e'(4) p(2)]
    have "m @ [] = m' @ []" using t(2) by simp
    note m = determinesD [OF payload_determines e(5) e'(5) this]
    show "routing = routing' \<and> record_id = record_id' \<and> operation = operation' \<and> ts = ts' \<and>
      canonical_payload payload = canonical_payload payload'"
      using r(1) i(1) p(1) t(1) m(1) by simp
  next
    assume eq: "routing = routing' \<and> record_id = record_id' \<and> operation = operation' \<and> ts = ts' \<and>
      canonical_payload payload = canonical_payload payload'"
    then have "encode_mapping payload = encode_mapping payload'" by (metis payload_canonical)
    with eq e e' show "b = b'" by simp
  }
qed

text \<open>
  C22. An event's canonical encoding identifies the event: when two events are encoded, the bytes that are
  hashed are equal if and only if the tenant, namespace, organization, record id, operation and instant
  are equal and the payloads are equal up to the order of mapping items at every depth. No boundary
  between two fields can be shifted, and no two types of value share an encoding.
\<close>

theorem event_encoding_identifies:
  assumes "event_encoding routing record_id operation ts payload = Inr b"
    and "event_encoding routing' record_id' operation' ts' payload' = Inr b'"
  shows "b = b' \<longleftrightarrow> routing = routing' \<and> record_id = record_id' \<and> operation = operation' \<and> ts = ts' \<and>
    canonical_payload payload = canonical_payload payload'"
  using assms by (rule event_encoding_eq_iff)

theorem event_encoding_identifies_witness:
  "\<exists>b b'. event_encoding (''t'', ''n'', ''o'') ''1'' ''upsert'' (Some 5)
       [(KStr ''a'', PInt 1), (KStr ''b'', PSequence [PNone, PBool True])] = Inr b \<and>
     event_encoding (''t'', ''n'', ''o'') ''1'' ''upsert'' (Some 5)
       [(KStr ''b'', PSequence [PNone, PBool True]), (KStr ''a'', PInt 1)] = Inr b' \<and> b = b'"
proof -
  let ?p = "[(KStr ''a'', PInt 1), (KStr ''b'', PSequence [PNone, PBool True])]"
  let ?q = "[(KStr ''b'', PSequence [PNone, PBool True]), (KStr ''a'', PInt 1)]"
  let ?e = "event_encoding (''t'', ''n'', ''o'') ''1'' ''upsert'' (Some 5)"
  have "\<exists>b. ?e ?p = Inr b" "\<exists>b. ?e ?q = Inr b"
    by (simp_all add: event_encoding_def encode_text_def encode_bytes_def encode_length_def utf8_def utf8_char_def
        encode_timestamp_def delta_micros in_int64_def mapping_entry_def sorted_entries_def)
  then obtain b b' where e: "?e ?p = Inr b" "?e ?q = Inr b'" by blast
  moreover have "canonical_payload ?p = canonical_payload ?q"
    by (simp add: canonical_payload_def key_bytes_def utf8_def utf8_char_def)
  ultimately show ?thesis using event_encoding_identifies [OF e] by simp
qed

section \<open>Terminal rows\<close>

lemma determines_rmap_end:
  assumes "\<And>x. x \<in> set xs \<Longrightarrow> determines f c x" and "\<And>x. f x \<noteq> Inr []"
    and "rmap f xs = Inr bs" and "rmap f ys = Inr bs'" and "concat bs = concat bs'"
  shows "map c xs = map c ys"
  using assms(1,3-5)
proof (induction xs arbitrary: ys bs bs')
  case Nil
  then show ?case using assms(2) by (cases ys) (auto simp: rbind_Inr_iff)
next
  case (Cons x xs)
  from Cons.prems(2) obtain b bs1 where b: "f x = Inr b" "rmap f xs = Inr bs1" "bs = b # bs1"
    by (auto simp: rbind_Inr_iff)
  then have "concat bs \<noteq> []" using assms(2) [of x] by auto
  then obtain y ys1 where ys: "ys = y # ys1" using Cons.prems(3,4) by (cases ys) auto
  with Cons.prems(3) obtain b' bs1' where b': "f y = Inr b'" "rmap f ys1 = Inr bs1'" "bs' = b' # bs1'"
    by (auto simp: rbind_Inr_iff)
  have "b @ concat bs1 = b' @ concat bs1'" using Cons.prems(4) b(3) b'(3) by simp
  from determinesD [OF Cons.prems(1) b(1) b'(1) this] Cons.IH [OF Cons.prems(1) b(2) b'(2)] ys
  show ?case by simp
qed

definition row_valid :: "bytes \<times> int \<times> bytes \<Rightarrow> bool" where
  "row_valid r \<longleftrightarrow> 0 \<le> fst (snd r) \<and> fst (snd r) < 2 ^ 63 \<and> length (snd (snd r)) = 32"

definition utf8_row :: "source_row_digest \<Rightarrow> bytes \<times> int \<times> bytes" where
  "utf8_row r = (utf8 (fst r), snd r)"

lemma utf8_row_inj [simp]: "utf8_row r = utf8_row r' \<longleftrightarrow> r = r'"
  by (auto simp: utf8_row_def prod_eq_iff)

lemma order_rows_eq:
  "order_rows seen rows =
     (if distinct (map fst rows) \<and> fst ` set rows \<inter> set seen = {} \<and> list_all (\<lambda>r. row_valid (utf8_row r)) rows
      then Inr (map utf8_row rows) else Inl ValueError)"
proof (induction seen rows rule: order_rows.induct)
  case (2 seen i q d rows)
  show ?case
  proof (cases "i \<notin> set seen \<and> row_valid (utf8_row (i, q, d))")
    case False
    then show ?thesis by (auto simp: ensure_def row_valid_def utf8_row_def)
  next
    case True
    then have "order_rows seen ((i, q, d) # rows) =
        rbind (order_rows (i # seen) rows) (\<lambda>os. Inr (utf8_row (i, q, d) # os))"
      by (simp add: row_valid_def utf8_row_def)
    moreover have "order_rows (i # seen) rows =
       (if distinct (map fst rows) \<and> fst ` set rows \<inter> set (i # seen) = {} \<and> list_all (\<lambda>r. row_valid (utf8_row r)) rows
        then Inr (map utf8_row rows) else Inl ValueError)"
      using True by (intro "2.IH") (auto simp: row_valid_def utf8_row_def ensure_def)
    ultimately show ?thesis using True by auto
  qed
qed simp

definition encode_valid_row :: "bytes \<times> int \<times> bytes \<Rightarrow> bytes result" where
  "encode_valid_row r = (if row_valid r then encode_source_row r else Inl ValueError)"

lemma encode_valid_row_determines: "determines encode_valid_row id x"
proof (rule determinesI)
  fix y b b' and r r' :: bytes
  assume "encode_valid_row x = Inr b" "encode_valid_row y = Inr b'" and eq: "b @ r = b' @ r'"
  then obtain k k' where k: "encode_bytes (fst x) = Inr k" "b = k @ pack_q (fst (snd x)) @ snd (snd x)" "row_valid x"
      "encode_bytes (fst y) = Inr k'" "b' = k' @ pack_q (fst (snd y)) @ snd (snd y)" "row_valid y"
    by (auto simp: encode_valid_row_def encode_source_row_def rbind_Inr_iff split: if_splits)
  have "k @ (pack_q (fst (snd x)) @ snd (snd x) @ r) = k' @ (pack_q (fst (snd y)) @ snd (snd y) @ r')"
    using eq k by simp
  note d = determinesD [OF encode_bytes_determines k(1,4) this]
  have range: "in_int64 (fst (snd x))" "in_int64 (fst (snd y))" using k(3,6) by (auto simp: row_valid_def in_int64_def)
  have "length (snd (snd x)) = length (snd (snd y))" using k(3,6) by (simp add: row_valid_def)
  with d range show "id x = id y \<and> r = r'" by (auto simp: prod_eq_iff pack_q_inj)
qed

lemma encode_valid_row_nonempty: "encode_valid_row x \<noteq> Inr []"
  by (auto simp: encode_valid_row_def encode_source_row_def rbind_Inr_iff row_valid_def split: if_splits)

lemma sort_key_mset:
  assumes "mset xs = mset ys" and "distinct (map f xs)"
  shows "sort_key f xs = sort_key f ys"
proof (rule map_inj_on [where f = f])
  have set: "set xs = set ys" using assms(1) by (rule mset_eq_setD)
  have "mset (map f xs) = mset (map f ys)" using assms(1) by simp
  then have "sort (map f xs) = sort (map f ys)" by (metis mset_sort properties_for_sort sorted_sort)
  moreover have "map f (sort_key f zs) = sort (map f zs)" for zs
    using sort_key_map [of "\<lambda>x. x" f zs] by (simp add: comp_def)
  ultimately show "map f (sort_key f xs) = map f (sort_key f ys)" by simp
  show "inj_on f (set (sort_key f xs) \<union> set (sort_key f ys))" using assms(2) set by (simp add: distinct_map)
qed

lemma source_encoding_Inr:
  "source_encoding rows = Inr b \<longleftrightarrow> distinct (map fst rows) \<and> list_all (\<lambda>r. row_valid (utf8_row r)) rows \<and>
     (\<exists>bs. rmap encode_valid_row (sort_key fst (map utf8_row rows)) = Inr bs \<and> b = SOURCE_DIGEST_HEADER @ concat bs)"
proof (cases "distinct (map fst rows) \<and> list_all (\<lambda>r. row_valid (utf8_row r)) rows")
  case True
  have "rmap encode_valid_row (sort_key fst (map utf8_row rows)) = rmap encode_source_row (sort_key fst (map utf8_row rows))"
    by (rule rmap_cong [OF refl]) (use True in \<open>auto simp: encode_valid_row_def list_all_iff\<close>)
  with True show ?thesis by (auto simp: source_encoding_def order_rows_eq rbind_Inr_iff)
qed (auto simp: source_encoding_def order_rows_eq)

lemma source_encoding_perm:
  assumes eq: "mset xs = mset ys"
  shows "source_encoding xs = source_encoding ys"
proof -
  have set: "set xs = set ys" using eq by (rule mset_eq_setD)
  have "mset (map fst xs) = mset (map fst ys)" using eq by simp
  then have distinct: "distinct (map fst xs) = distinct (map fst ys)" by (rule mset_eq_imp_distinct_iff)
  show ?thesis
  proof (cases "distinct (map fst xs)")
    case True
    then have "distinct (map fst (map utf8_row xs))" by (auto simp: distinct_map inj_on_def utf8_row_def)
    then have "sort_key fst (map utf8_row xs) = sort_key fst (map utf8_row ys)"
      by (intro sort_key_mset) (simp_all add: eq)
    then show ?thesis using distinct set by (simp add: source_encoding_def order_rows_eq list_all_iff)
  qed (use distinct in \<open>simp add: source_encoding_def order_rows_eq\<close>)
qed

lemma source_encoding_identifies_parts:
  "mset rows = mset rows' \<Longrightarrow> canonical_source_digest sha256 rows = canonical_source_digest sha256 rows'"
  "source_encoding rows = Inr b \<Longrightarrow> source_encoding rows' = Inr b' \<Longrightarrow> b = b' \<longleftrightarrow> mset rows = mset rows'"
proof -
  show "canonical_source_digest sha256 rows = canonical_source_digest sha256 rows'" if "mset rows = mset rows'"
    unfolding canonical_source_digest_def source_encoding_perm [OF that] ..
  assume b: "source_encoding rows = Inr b" "source_encoding rows' = Inr b'"
  show "b = b' \<longleftrightarrow> mset rows = mset rows'"
  proof
    assume "b = b'"
    with b obtain bs bs' where e: "rmap encode_valid_row (sort_key fst (map utf8_row rows)) = Inr bs"
        "rmap encode_valid_row (sort_key fst (map utf8_row rows')) = Inr bs'" "concat bs = concat bs'"
      by (auto simp: source_encoding_Inr)
    from determines_rmap_end [OF encode_valid_row_determines encode_valid_row_nonempty this]
    have "mset (sort_key fst (map utf8_row rows)) = mset (sort_key fst (map utf8_row rows'))" by simp
    then have "image_mset utf8_row (mset rows) = image_mset utf8_row (mset rows')" by simp
    moreover have "inj (image_mset utf8_row)" by (rule multiset.inj_map) (simp add: inj_def)
    ultimately show "mset rows = mset rows'" by (simp add: inj_eq)
  qed (use source_encoding_perm [of rows rows'] b in simp)
qed

text \<open>
  C23. The source digest of a window is independent of partitioning and order, and identifies the rows:
  permuting the terminal rows never changes the outcome (a digest or the error), and when two row lists
  are encoded the hashed bytes are equal if and only if they are the same rows.
\<close>

theorem source_encoding_identifies:
  "(mset rows = mset rows' \<longrightarrow> canonical_source_digest sha256 rows = canonical_source_digest sha256 rows') \<and>
   (\<forall>b b'. source_encoding rows = Inr b \<longrightarrow> source_encoding rows' = Inr b' \<longrightarrow> b = b' \<longleftrightarrow> mset rows = mset rows')"
  using source_encoding_identifies_parts by blast

theorem source_encoding_identifies_witness:
  "canonical_source_digest id [(''b'', 7, replicate 32 1), (''a'', 7, replicate 32 2)] =
     canonical_source_digest id [(''a'', 7, replicate 32 2), (''b'', 7, replicate 32 1)] \<and>
   (\<exists>b b'. source_encoding [(''a'', 7, replicate 32 1)] = Inr b \<and> source_encoding [(''a'', 8, replicate 32 1)] = Inr b' \<and> b \<noteq> b')"
proof
  have "mset [(''b'', 7, replicate 32 1), (''a'', 7, replicate 32 2)] = mset [(''a'', 7, replicate 32 2), (''b'', 7, replicate 32 1)]" by simp
  then show "canonical_source_digest id [(''b'', 7, replicate 32 1), (''a'', 7, replicate 32 2)] =
     canonical_source_digest id [(''a'', 7, replicate 32 2), (''b'', 7, replicate 32 1)]"
    using source_encoding_identifies by blast
  have "\<exists>b. source_encoding [(''a'', q, replicate 32 1)] = Inr b" if "0 \<le> q \<and> q < 2 ^ 63" for q
    using that by (simp add: source_encoding_def encode_source_row_def encode_bytes_def encode_length_def utf8_def utf8_char_def)
  then obtain b b' where e: "source_encoding [(''a'', 7, replicate 32 1)] = Inr b" "source_encoding [(''a'', 8, replicate 32 1)] = Inr b'"
    by force
  moreover have "mset [(''a'', 7 :: int, replicate 32 (1 :: byte))] \<noteq> mset [(''a'', 8, replicate 32 1)]" by simp
  ultimately have "b \<noteq> b'" using source_encoding_identifies by blast
  with e show "\<exists>b b'. source_encoding [(''a'', 7, replicate 32 1)] = Inr b \<and>
    source_encoding [(''a'', 8, replicate 32 1)] = Inr b' \<and> b \<noteq> b'" by blast
qed

end
