(* ===== verification/Mutation.thy ===== *)
theory Mutation
  imports Digest_Properties
begin

text \<open>
  Snapshot-local mutation collapse (\<open>etl/mutation.py\<close>): operation spelling, complete post-images, the
  reduction of the rows of one Iceberg snapshot to one terminal mutation per key, and the durable digest
  of the result.
\<close>

section \<open>Operations and post-images\<close>

definition UPSERT_OPERATIONS :: "string list" where
  "UPSERT_OPERATIONS = [''insert'', ''update'', ''upsert'', ''i'', ''u'']"

definition DELETE_OPERATIONS :: "string list" where
  "DELETE_OPERATIONS = [''delete'', ''d'']"

definition normalize_operation :: "string \<Rightarrow> string result" where
  "normalize_operation operation =
     (let normalized = py_lower (py_strip operation)
      in if normalized \<in> set UPSERT_OPERATIONS then Inr ''upsert''
         else if normalized \<in> set DELETE_OPERATIONS then Inr ''delete''
         else Inl ValueError)"

text \<open>
  A comprehension over \<open>allowed_fields\<close> keeps the first position of a repeated field, and
  \<open>payload.get\<close> reads an absent one as \<open>None\<close>.
\<close>

definition materialize_post_image ::
    "(string \<times> pyvalue) list \<Rightarrow> string list \<Rightarrow> (string \<times> pyvalue) list result" where
  "materialize_post_image payload allowed_fields =
     (let unknown = filter (\<lambda>k. k \<notin> set allowed_fields) (map fst payload)
      in if unknown \<noteq> [] then Inl ValueError
         else Inr (map (\<lambda>field. (field, case dict_get payload field of None \<Rightarrow> PNone | Some v \<Rightarrow> v))
           (rev (remdups (rev allowed_fields)))))"

section \<open>Rows and terminal mutations\<close>

type_synonym mutation_key = "(string \<times> string \<times> string) \<times> string"

record mutation_input =
  mi_tenant :: string
  mi_namespace :: string
  mi_org :: string
  mi_record :: string
  mi_operation :: string
  mi_ts :: "int option"
  mi_payload :: payload

definition mi_target :: "mutation_input \<Rightarrow> string \<times> string \<times> string" where
  "mi_target r = (mi_tenant r, mi_namespace r, mi_org r)"

record terminal_mutation =
  tm_target :: "string \<times> string \<times> string"
  tm_record :: string
  tm_operation :: string
  tm_ts :: "int option"
  tm_payload :: payload
  tm_window :: int
  tm_source :: int
  tm_digest :: bytes

definition is_deleted :: "terminal_mutation \<Rightarrow> bool" where
  "is_deleted t \<longleftrightarrow> tm_operation t = ''delete''"

definition tm_key :: "terminal_mutation \<Rightarrow> mutation_key" where
  "tm_key t = (tm_target t, tm_record t)"

definition seq_ok :: "int \<Rightarrow> bool" where
  "seq_ok n \<longleftrightarrow> 0 \<le> n \<and> n < 2 ^ 63"

definition terminal_of :: "(bytes \<Rightarrow> bytes) \<Rightarrow> int \<Rightarrow> int \<Rightarrow> mutation_input \<Rightarrow> terminal_mutation result" where
  "terminal_of sha256 window_seq source_sequence row =
     rbind (normalize_operation (mi_operation row)) (\<lambda>operation.
     rbind (canonical_event_digest sha256 (mi_target row) (mi_record row) operation (mi_ts row) (mi_payload row)) (\<lambda>digest.
     Inr \<lparr> tm_target = mi_target row, tm_record = mi_record row, tm_operation = operation, tm_ts = mi_ts row,
       tm_payload = mi_payload row, tm_window = window_seq, tm_source = source_sequence, tm_digest = digest \<rparr>))"

text \<open>\<open>terminal_by_key[key] = terminal\<close>: an existing key keeps its place in the dictionary.\<close>

definition put_terminal :: "terminal_mutation \<Rightarrow> terminal_mutation list \<Rightarrow> terminal_mutation list" where
  "put_terminal t d =
     (if exists_where (\<lambda>x. tm_key x = tm_key t) d then update_where (\<lambda>x. tm_key x = tm_key t) (\<lambda>_. t) d else d @ [t])"

definition collapse_row ::
    "(bytes \<Rightarrow> bytes) \<Rightarrow> int \<Rightarrow> int \<Rightarrow> mutation_input \<Rightarrow> terminal_mutation list \<Rightarrow> terminal_mutation list result" where
  "collapse_row sha256 window_seq source_sequence row d =
     rbind (terminal_of sha256 window_seq source_sequence row) (\<lambda>t.
     case lookup_by tm_key (tm_key t) d of
       None \<Rightarrow> Inr (put_terminal t d)
     | Some previous \<Rightarrow>
         if tm_digest previous \<noteq> tm_digest t then Inl MutationConflict else Inr (put_terminal t d))"

definition collapse_snapshot_mutations ::
    "(bytes \<Rightarrow> bytes) \<Rightarrow> mutation_input list \<Rightarrow> int \<Rightarrow> int \<Rightarrow> terminal_mutation list result" where
  "collapse_snapshot_mutations sha256 rows window_seq source_sequence =
     rbind (ensure (seq_ok window_seq) ValueError) (\<lambda>_.
     rbind (ensure (seq_ok source_sequence) ValueError) (\<lambda>_.
     rbind (rfold (collapse_row sha256 window_seq source_sequence) rows []) (\<lambda>d.
     Inr (sort_key tm_key d))))"

definition terminal_source_digest :: "(bytes \<Rightarrow> bytes) \<Rightarrow> terminal_mutation list \<Rightarrow> bytes result" where
  "terminal_source_digest sha256 rows =
     (if 1 < length (remdups (map tm_target rows)) then Inl ValueError
      else canonical_source_digest sha256 (map (\<lambda>t. (tm_record t, tm_source t, tm_digest t)) rows))"

end
