(* ===== verification/Mutation_Properties.thy ===== *)
theory Mutation_Properties
  imports Mutation
begin

text \<open>
  Properties of the collapse: it is exact (which inputs it accepts, and what it returns), canonical, and
  independent of the order in which the rows of a snapshot are read.
\<close>

section \<open>The dictionary of terminals\<close>

definition key_digest :: "terminal_mutation \<Rightarrow> mutation_key \<times> bytes" where
  "key_digest u = (tm_key u, tm_digest u)"

definition agree :: "terminal_mutation list \<Rightarrow> bool" where
  "agree us \<longleftrightarrow> single_valued (set (map key_digest us))"

lemma agreeD: "agree us \<Longrightarrow> x \<in> set us \<Longrightarrow> y \<in> set us \<Longrightarrow> tm_key x = tm_key y \<Longrightarrow> tm_digest x = tm_digest y"
  unfolding agree_def single_valued_def key_digest_def by fastforce

lemma unique_agree: "unique_key tm_key d \<Longrightarrow> agree d"
  unfolding agree_def single_valued_def key_digest_def using unique_byD by fastforce

lemma unique_put_terminal: "unique_key tm_key d \<Longrightarrow> unique_key tm_key (put_terminal t d)"
  unfolding put_terminal_def
  by (auto simp: unique_by_def table_simps map_update_where)

lemma lookup_put_terminal:
  "lookup_by tm_key k (put_terminal t d) = (if k = tm_key t then Some t else lookup_by tm_key k d)"
proof -
  have "lookup_by tm_key k (update_where (\<lambda>x. tm_key x = tm_key t) (\<lambda>_. t) d) =
      (if k = tm_key t \<and> exists_where (\<lambda>x. tm_key x = tm_key t) d then Some t else lookup_by tm_key k d)"
    by (induction d) (auto simp: lookup_by_def update_where_def exists_where_def)
  moreover have "lookup_by tm_key k (d @ [t]) =
      (case lookup_by tm_key k d of None \<Rightarrow> if k = tm_key t then Some t else None | Some x \<Rightarrow> Some x)"
    by (induction d) (auto simp: lookup_by_def)
  moreover have "lookup_by tm_key (tm_key t) d = None" if "\<not> exists_where (\<lambda>x. tm_key x = tm_key t) d"
    using that by (auto simp: lookup_by_None_iff table_simps)
  ultimately show ?thesis by (auto simp: put_terminal_def split: option.splits)
qed

lemma set_by_lookup: "unique_key tm_key d \<Longrightarrow> x \<in> set d \<longleftrightarrow> lookup_by tm_key (tm_key x) d = Some x"
  by (metis lookup_by_Some_iff)

lemma lookup_rev_mem: "lookup_by tm_key k (rev us) = Some x \<Longrightarrow> x \<in> set us \<and> tm_key x = k"
  using lookup_by_SomeD by fastforce

lemma sort_key_by_lookup:
  assumes "unique_key key d" and "(\<lambda>k. lookup_by key k d) = f"
  shows "ts = sort_key key d \<longleftrightarrow> sorted_wrt (<) (map key ts) \<and> (\<lambda>k. lookup_by key k ts) = f"
proof -
  have uniq: "unique_key key xs" if "sorted_wrt (<) (map key xs)" for xs
    using that unfolding unique_by_def strict_sorted_iff by simp
  have mem: "x \<in> set xs \<longleftrightarrow> lookup_by key (key x) xs = Some x" if "unique_key key xs" for x xs
    using lookup_by_Some_iff [OF that] by auto
  have s: "sorted_wrt (<) (map key (sort_key key d))" "set (sort_key key d) = set d"
    using assms(1) unfolding strict_sorted_iff unique_by_def by (simp_all add: distinct_map)
  have same: "lookup_by key k (sort_key key d) = lookup_by key k d" for k
  proof -
    have "lookup_by key k (sort_key key d) = Some x \<longleftrightarrow> lookup_by key k d = Some x" for x
      using lookup_by_Some_iff [OF uniq [OF s(1)]] lookup_by_Some_iff [OF assms(1)] s(2) by simp
    then show ?thesis by (metis option.exhaust)
  qed
  show ?thesis
  proof
    assume r: "sorted_wrt (<) (map key ts) \<and> (\<lambda>k. lookup_by key k ts) = f"
    then have "x \<in> set ts \<longleftrightarrow> x \<in> set d" for x
      unfolding mem [OF uniq [OF r [THEN conjunct1]]] mem [OF assms(1)] using assms(2) by metis
    then have set: "set ts = set d" by blast
    then have "map key ts = map key (sort_key key d)"
      using r s by (intro sorted_distinct_set_unique) (simp_all add: strict_sorted_iff)
    then show "ts = sort_key key d"
    proof (rule map_inj_on)
      show "inj_on key (set ts \<union> set (sort_key key d))" using assms(1) set s(2) by (simp add: unique_by_def distinct_map)
    qed
  qed (use s(1) same assms(2) in auto)
qed

text \<open>The fold over the rows, in terms of the terminals of all rows.\<close>

lemma image_insert_absorb:
  "(\<And>x. x \<in> D \<Longrightarrow> K x \<Longrightarrow> g x = g t) \<Longrightarrow> g ` insert t {x \<in> D. \<not> K x} = g ` insert t D"
  by force

lemma agree_put:
  assumes "unique_key tm_key d" and "\<And>p. lookup_by tm_key (tm_key t) d = Some p \<Longrightarrow> tm_digest p = tm_digest t"
  shows "agree (put_terminal t d @ us) \<longleftrightarrow> agree (d @ t # us)"
proof -
  have "x \<in> set (put_terminal t d) \<longleftrightarrow> x = t \<or> x \<in> set d \<and> tm_key x \<noteq> tm_key t" for x
    using set_by_lookup [OF unique_put_terminal [OF assms(1)], of x t] set_by_lookup [OF assms(1), of x]
    by (auto simp: lookup_put_terminal)
  then have mem: "set (put_terminal t d) = insert t {x \<in> set d. \<not> tm_key x = tm_key t}" by blast
  have "key_digest x = key_digest t" if "x \<in> set d" "tm_key x = tm_key t" for x
    using assms(2) [of x] that set_by_lookup [OF assms(1), of x] by (simp add: key_digest_def)
  from image_insert_absorb [of "set d" "\<lambda>x. tm_key x = tm_key t" key_digest t, OF this]
  have "key_digest ` set (put_terminal t d) = key_digest ` insert t (set d)" unfolding mem by simp
  then have "set (map key_digest (put_terminal t d @ us)) = set (map key_digest (d @ t # us))"
    by (simp only: set_map set_append image_Un list.set) auto
  then show ?thesis by (simp only: agree_def)
qed

lemma collapse_row_Inr:
  "collapse_row sha w s row d = Inr d' \<longleftrightarrow>
     (\<exists>t. terminal_of sha w s row = Inr t \<and> d' = put_terminal t d \<and>
        (\<forall>p. lookup_by tm_key (tm_key t) d = Some p \<longrightarrow> tm_digest p = tm_digest t))"
  by (auto simp: collapse_row_def rbind_Inr_iff split: option.splits if_splits)

lemma collapse_fold_ok:
  assumes "unique_key tm_key d"
  shows "(\<exists>d'. rfold (collapse_row sha w s) rows d = Inr d') \<longleftrightarrow>
      (\<exists>us. rmap (terminal_of sha w s) rows = Inr us \<and> agree (d @ us))"
  using assms
proof (induction rows arbitrary: d)
  case Nil
  then show ?case using unique_agree by simp
next
  case (Cons row rows)
  show ?case
  proof (cases "terminal_of sha w s row")
    case (Inl er)
    then show ?thesis by (simp add: collapse_row_def)
  next
    case (Inr t)
    note IH = Cons.IH [OF unique_put_terminal [OF Cons.prems, of t]]
    show ?thesis
    proof (cases "\<exists>p. lookup_by tm_key (tm_key t) d = Some p \<and> tm_digest p \<noteq> tm_digest t")
      case True
      then obtain p where p: "lookup_by tm_key (tm_key t) d = Some p" "tm_digest p \<noteq> tm_digest t" by blast
      then have "\<not> agree (d @ t # us)" for us using lookup_by_SomeD [OF p(1)] agreeD [of "d @ t # us" p t] by auto
      then show ?thesis using p Inr by (auto simp: collapse_row_Inr rbind_Inr_iff)
    next
      case False
      then have "collapse_row sha w s row d = Inr (put_terminal t d)"
        using Inr by (auto simp: collapse_row_Inr)
      moreover have "agree (put_terminal t d @ us) \<longleftrightarrow> agree (d @ t # us)" for us
        by (rule agree_put [OF Cons.prems]) (use False in auto)
      ultimately show ?thesis using IH Inr by (auto simp: rbind_Inr_iff)
    qed
  qed
qed

lemma collapse_fold_lookup:
  assumes "rfold (collapse_row sha w s) rows d = Inr d'" and "rmap (terminal_of sha w s) rows = Inr us"
    and "unique_key tm_key d"
  shows "unique_key tm_key d' \<and> (\<forall>k. lookup_by tm_key k d' = lookup_by tm_key k (rev us @ d))"
  using assms
proof (induction rows arbitrary: d us)
  case (Cons row rows)
  from Cons.prems(2) obtain t us' where t: "terminal_of sha w s row = Inr t" "rmap (terminal_of sha w s) rows = Inr us'" "us = t # us'"
    by (auto simp: rbind_Inr_iff)
  with Cons.prems(1) have "rfold (collapse_row sha w s) rows (put_terminal t d) = Inr d'"
    by (auto simp: collapse_row_Inr rbind_Inr_iff)
  note IH = Cons.IH [OF this t(2) unique_put_terminal [OF Cons.prems(3)]]
  have "lookup_by tm_key k (rev us' @ put_terminal t d) = lookup_by tm_key k (rev us @ d)" for k
    using t(3) by (auto simp: lookup_by_append lookup_put_terminal split: option.split) (auto simp: lookup_by_def)
  with IH show ?case by simp
qed auto

lemma collapse_Inr_iff:
  "collapse_snapshot_mutations sha256 rows window_seq source_sequence = Inr ts \<longleftrightarrow>
     seq_ok window_seq \<and> seq_ok source_sequence \<and>
     (\<exists>us. rmap (terminal_of sha256 window_seq source_sequence) rows = Inr us \<and>
        single_valued (set (map (\<lambda>u. (tm_key u, tm_digest u)) us)) \<and>
        sorted_wrt (<) (map tm_key ts) \<and> (\<lambda>k. lookup_by tm_key k ts) = (\<lambda>k. lookup_by tm_key k (rev us)))"
proof -
  let ?fold = "rfold (collapse_row sha256 window_seq source_sequence) rows []"
  have un: "unique_key tm_key []" by (simp add: unique_by_def)
  have ag: "agree us \<longleftrightarrow> single_valued (set (map (\<lambda>u. (tm_key u, tm_digest u)) us))" for us
    unfolding agree_def key_digest_def [abs_def] ..
  have sorted: "ts = sort_key tm_key d \<longleftrightarrow>
      sorted_wrt (<) (map tm_key ts) \<and> (\<lambda>k. lookup_by tm_key k ts) = (\<lambda>k. lookup_by tm_key k (rev us))"
    if d: "unique_key tm_key d" "\<forall>k. lookup_by tm_key k d = lookup_by tm_key k (rev us)" for d us
    by (rule sort_key_by_lookup [OF d(1)]) (use d(2) in auto)
  show ?thesis
  proof (cases "rmap (terminal_of sha256 window_seq source_sequence) rows")
    case (Inl er)
    then have "\<not> (\<exists>d. ?fold = Inr d)" unfolding collapse_fold_ok [OF un] by simp
    then show ?thesis using Inl by (auto simp: collapse_snapshot_mutations_def rbind_Inr_iff)
  next
    case (Inr us)
    show ?thesis
    proof (cases "agree us")
      case False
      then have "\<not> (\<exists>d. ?fold = Inr d)" using collapse_fold_ok [OF un, of sha256 window_seq source_sequence rows] Inr by auto
      then show ?thesis using Inr False ag by (auto simp: collapse_snapshot_mutations_def rbind_Inr_iff)
    next
      case True
      then obtain d where d: "?fold = Inr d" using collapse_fold_ok [OF un, of sha256 window_seq source_sequence rows] Inr by auto
      from collapse_fold_lookup [OF d Inr un] have "unique_key tm_key d" "\<forall>k. lookup_by tm_key k d = lookup_by tm_key k (rev us)"
        by auto
      note s = sorted [OF this]
      have "collapse_snapshot_mutations sha256 rows window_seq source_sequence = Inr ts \<longleftrightarrow>
          seq_ok window_seq \<and> seq_ok source_sequence \<and> ts = sort_key tm_key d"
        using d by (auto simp: collapse_snapshot_mutations_def rbind_Inr_iff ensure_Inr_iff)
      then show ?thesis using Inr True unfolding ag s by simp
    qed
  qed
qed

text \<open>
  C25. Collapsing a snapshot is exact: it succeeds if and only if both sequences are non-negative signed
  64-bit numbers, every row has a supported operation and an encodable event, and no two rows of one key
  have different event digests; it then returns, strictly ordered by key, exactly one mutation for every
  key, the one of the key's last row.
\<close>

theorem collapse_snapshot_mutations_exact:
  "collapse_snapshot_mutations sha256 rows window_seq source_sequence = Inr ts \<longleftrightarrow>
     seq_ok window_seq \<and> seq_ok source_sequence \<and>
     (\<exists>us. rmap (terminal_of sha256 window_seq source_sequence) rows = Inr us \<and>
        single_valued (set (map (\<lambda>u. (tm_key u, tm_digest u)) us)) \<and>
        sorted_wrt (<) (map tm_key ts) \<and> (\<lambda>k. lookup_by tm_key k ts) = (\<lambda>k. lookup_by tm_key k (rev us)))"
  by (rule collapse_Inr_iff)

section \<open>Order independence\<close>

lemma collapse_ok_iff:
  "(\<exists>ts. collapse_snapshot_mutations sha w_rows w s = Inr ts) \<longleftrightarrow>
     seq_ok w \<and> seq_ok s \<and> (\<exists>us. rmap (terminal_of sha w s) w_rows = Inr us \<and> agree us)"
  using collapse_fold_ok [of "[]" sha w s w_rows]
  by (auto simp: collapse_snapshot_mutations_def rbind_Inr_iff ensure_Inr_iff unique_by_def)

lemma rmap_Inr_map: "rmap f xs = Inr ys \<longleftrightarrow> (\<forall>x\<in>set xs. \<exists>y. f x = Inr y) \<and> ys = map (projr \<circ> f) xs"
  by (induction xs arbitrary: ys) (auto simp: rbind_Inr_iff)

lemma collapse_members:
  assumes "collapse_snapshot_mutations sha rows w s = Inr ts" and "rmap (terminal_of sha w s) rows = Inr us"
  shows "set ts \<subseteq> set us" and "sorted_wrt (<) (map tm_key ts)" and "tm_key ` set ts = tm_key ` set us"
proof -
  have sorted: "sorted_wrt (<) (map tm_key ts)" and lk: "lookup_by tm_key k ts = lookup_by tm_key k (rev us)" for k
    using assms unfolding collapse_Inr_iff by (auto dest: fun_cong)
  show "sorted_wrt (<) (map tm_key ts)" by (rule sorted)
  then have u: "unique_key tm_key ts" unfolding unique_by_def strict_sorted_iff by simp
  show "set ts \<subseteq> set us"
    using set_by_lookup [OF u] lk lookup_rev_mem by (metis subsetI)
  have "k \<in> tm_key ` set xs \<longleftrightarrow> lookup_by tm_key k xs \<noteq> None" for k xs
    by (auto simp: lookup_by_None_iff)
  then have "k \<in> tm_key ` set ts \<longleftrightarrow> k \<in> tm_key ` set (rev us)" for k using lk by metis
  then show "tm_key ` set ts = tm_key ` set us" unfolding set_rev by (rule set_eqI)
qed

definition event_bytes :: "mutation_input list \<Rightarrow> bytes set" where
  "event_bytes rows = {b. \<exists>row\<in>set rows. \<exists>operation. normalize_operation (mi_operation row) = Inr operation \<and>
     event_encoding (mi_target row) (mi_record row) operation (mi_ts row) (mi_payload row) = Inr b}"

definition contents :: "terminal_mutation \<Rightarrow> mutation_key \<times> string \<times> int option \<times> payload" where
  "contents t = (tm_key t, tm_operation t, tm_ts t, canonical_payload (tm_payload t))"

lemma terminal_of_encoding:
  assumes "terminal_of sha w s row = Inr t" and "row \<in> set rows"
  obtains b where "event_encoding (tm_target t) (tm_record t) (tm_operation t) (tm_ts t) (tm_payload t) = Inr b"
    and "tm_digest t = sha b" and "b \<in> event_bytes rows" and "tm_source t = s"
proof -
  from assms(1) obtain p b where e: "normalize_operation (mi_operation row) = Inr p"
      "event_encoding (mi_target row) (mi_record row) p (mi_ts row) (mi_payload row) = Inr b"
      "t = \<lparr> tm_target = mi_target row, tm_record = mi_record row, tm_operation = p, tm_ts = mi_ts row,
        tm_payload = mi_payload row, tm_window = w, tm_source = s, tm_digest = sha b \<rparr>"
    by (auto simp: terminal_of_def canonical_event_digest_def rbind_Inr_iff)
  then have "b \<in> event_bytes rows" using assms(2) by (auto simp: event_bytes_def)
  then show thesis using e that [of b] by simp
qed

lemma same_digest_contents:
  assumes "inj_on sha (event_bytes rows)" and "rmap (terminal_of sha w s) rows = Inr us"
    and "t \<in> set us" and "t' \<in> set us" and "tm_digest t = tm_digest t'"
  shows "contents t = contents t'"
proof -
  from assms(2,3) obtain r where r: "terminal_of sha w s r = Inr t" "r \<in> set rows" by (blast dest: rmap_Inr_mem)
  from assms(2,4) obtain r' where r': "terminal_of sha w s r' = Inr t'" "r' \<in> set rows" by (blast dest: rmap_Inr_mem)
  from terminal_of_encoding [OF r] obtain b where b: "event_encoding (tm_target t) (tm_record t) (tm_operation t) (tm_ts t) (tm_payload t) = Inr b"
      "tm_digest t = sha b" "b \<in> event_bytes rows" by blast
  from terminal_of_encoding [OF r'] obtain b' where b': "event_encoding (tm_target t') (tm_record t') (tm_operation t') (tm_ts t') (tm_payload t') = Inr b'"
      "tm_digest t' = sha b'" "b' \<in> event_bytes rows" by blast
  have "b = b'" using assms(1,5) b(2,3) b'(2,3) by (auto dest: inj_onD)
  then show ?thesis using event_encoding_eq_iff [OF b(1) b'(1)] by (simp add: contents_def tm_key_def)
qed

lemma map_eq_by_key:
  assumes "map key xs = map key ys" and "\<And>x y. x \<in> set xs \<Longrightarrow> y \<in> set ys \<Longrightarrow> key x = key y \<Longrightarrow> g x = g y"
  shows "map g xs = map g ys"
  using assms by (induction xs arbitrary: ys) (auto simp: Cons_eq_map_conv)

text \<open>A concrete snapshot: a record delivered twice with its payload items reordered, and a delete.\<close>

definition demo_rows :: "mutation_input list" where
  "demo_rows =
     [\<lparr> mi_tenant = ''t'', mi_namespace = ''n'', mi_org = ''o'', mi_record = ''2'', mi_operation = ''D'', mi_ts = Some 5, mi_payload = [] \<rparr>,
      \<lparr> mi_tenant = ''t'', mi_namespace = ''n'', mi_org = ''o'', mi_record = ''1'', mi_operation = ''I'', mi_ts = Some 6,
        mi_payload = [(KStr ''a'', PInt 1), (KStr ''b'', PNone)] \<rparr>,
      \<lparr> mi_tenant = ''t'', mi_namespace = ''n'', mi_org = ''o'', mi_record = ''1'', mi_operation = ''upsert'', mi_ts = Some 6,
        mi_payload = [(KStr ''b'', PNone), (KStr ''a'', PInt 1)] \<rparr>]"

lemma demo_collapse_eval:
  "(case collapse_snapshot_mutations id demo_rows 1 7 of Inl _ \<Rightarrow> False | Inr ts \<Rightarrow> length ts = 2)"
  by code_simp

lemma demo_collapse: "\<exists>ts. collapse_snapshot_mutations id demo_rows 1 7 = Inr ts \<and> length ts = 2"
  using demo_collapse_eval by (auto split: sum.splits)

text \<open>
  C26. The collapse does not depend on the order in which a snapshot's rows are read: for a permuted input
  it succeeds as well, with the same keys and event digests in the same order and the same durable source
  digest; and where SHA-256 does not collide on the events at hand, the two results are equal in key,
  operation, instant and payload (up to the order of mapping items).
\<close>

theorem collapse_order_independent:
  assumes "mset rows = mset rows'" and "collapse_snapshot_mutations sha256 rows w s = Inr ts"
  shows "\<exists>ts'. collapse_snapshot_mutations sha256 rows' w s = Inr ts' \<and>
      map (\<lambda>t. (tm_key t, tm_digest t)) ts' = map (\<lambda>t. (tm_key t, tm_digest t)) ts \<and>
      terminal_source_digest sha256 ts' = terminal_source_digest sha256 ts \<and>
      (inj_on sha256 (event_bytes rows) \<longrightarrow> map contents ts' = map contents ts)"
proof -
  have rows: "set rows = set rows'" using assms(1) by (rule mset_eq_setD)
  from assms(2) obtain us where us: "rmap (terminal_of sha256 w s) rows = Inr us" "agree us" "seq_ok w" "seq_ok s"
    using collapse_ok_iff by blast
  let ?us' = "map (projr \<circ> terminal_of sha256 w s) rows'"
  have us': "rmap (terminal_of sha256 w s) rows' = Inr ?us'" and set: "set ?us' = set us"
    using us(1) rows by (auto simp: rmap_Inr_map)
  have "agree ?us'" using us(2) unfolding agree_def by (simp only: set_map [of key_digest] set)
  then obtain ts' where ts': "collapse_snapshot_mutations sha256 rows' w s = Inr ts'"
    using us us' collapse_ok_iff by blast
  note m = collapse_members [OF assms(2) us(1)] and m' = collapse_members [OF ts' us', unfolded set]
  have "map tm_key ts' = map tm_key ts"
    by (rule sorted_distinct_set_unique) (use m m' in \<open>auto simp: strict_sorted_iff\<close>)
  note keys = this
  have eq: "map g ts' = map g ts" if g: "\<And>x y. x \<in> set us \<Longrightarrow> y \<in> set us \<Longrightarrow> tm_key x = tm_key y \<Longrightarrow> g x = g y"
      for g :: "terminal_mutation \<Rightarrow> 'c" 
    by (rule map_eq_by_key [OF keys]) (rule g, (use m(1) m'(1) in blast)+)
  have src: "tm_source x = s" if "x \<in> set us" for x
    using us(1) that by (auto dest!: rmap_Inr_mem simp: terminal_of_def rbind_Inr_iff)
  have kd: "map (\<lambda>t. (tm_key t, tm_digest t)) ts' = map (\<lambda>t. (tm_key t, tm_digest t)) ts"
  proof (rule eq)
    fix x y assume "x \<in> set us" "y \<in> set us" "tm_key x = tm_key y"
    then show "(tm_key x, tm_digest x) = (tm_key y, tm_digest y)" using agreeD [OF us(2), of x y] by simp
  qed
  have d: "map (\<lambda>t. (tm_record t, tm_source t, tm_digest t)) ts' = map (\<lambda>t. (tm_record t, tm_source t, tm_digest t)) ts"
  proof (rule eq)
    fix x y assume xy: "x \<in> set us" "y \<in> set us" "tm_key x = tm_key y"
    then show "(tm_record x, tm_source x, tm_digest x) = (tm_record y, tm_source y, tm_digest y)"
      using agreeD [OF us(2) xy] src by (simp add: tm_key_def)
  qed
  have t: "map tm_target ts' = map tm_target ts" by (rule eq) (simp add: tm_key_def)
  have "map contents ts' = map contents ts" if "inj_on sha256 (event_bytes rows)"
  proof (rule eq)
    fix x y assume xy: "x \<in> set us" "y \<in> set us" "tm_key x = tm_key y"
    then show "contents x = contents y"
      using same_digest_contents [OF that us(1) xy(1,2)] agreeD [OF us(2) xy] by simp
  qed
  moreover have "terminal_source_digest sha256 ts' = terminal_source_digest sha256 ts"
    unfolding terminal_source_digest_def d t ..
  ultimately show ?thesis using ts' kd by blast
qed

theorem collapse_order_independent_witness:
  "\<exists>ts ts'. collapse_snapshot_mutations id demo_rows 1 7 = Inr ts \<and>
     collapse_snapshot_mutations id (rev demo_rows) 1 7 = Inr ts' \<and> length ts = 2 \<and> map contents ts' = map contents ts"
proof -
  obtain ts where ts: "collapse_snapshot_mutations id demo_rows 1 7 = Inr ts" "length ts = 2"
    using demo_collapse by blast
  have "mset demo_rows = mset (rev demo_rows)" by simp
  from collapse_order_independent [OF this ts(1)] ts show ?thesis by (auto simp: inj_on_def)
qed

end
