(* ===== verification/Commits.thy ===== *)
theory Commits
  imports Pytext
begin

text \<open>
  Optimistic commits against a shared store: exceptions with their messages, the recognition of
  retryable commit conflicts and the retry loop of \<open>telemetry.py\<close>, and the errors that prove a
  dataset absent (\<open>etl/storage.py\<close>). An action is a function of the world that returns a value or
  raises, with the world it leaves; what other clients do while the loop sleeps is a parameter.
\<close>

section \<open>Exceptions with messages\<close>

datatype py_exc = Exc (exc_class: py_error) (exc_message: string)

fun contains_text :: "string \<Rightarrow> string \<Rightarrow> bool" where
  "contains_text marker [] = (marker = [])"
| "contains_text marker (c # s) = (has_prefix marker (c # s) \<or> contains_text marker s)"

text \<open>\<open>isinstance(exc, (OSError, RuntimeError))\<close> for the classes of the development.\<close>

fun is_os_or_runtime :: "py_error \<Rightarrow> bool" where
  "is_os_or_runtime OSError = True"
| "is_os_or_runtime FileNotFoundError = True"
| "is_os_or_runtime RuntimeError = True"
| "is_os_or_runtime StateTransitionError = True"
| "is_os_or_runtime StaleSourcePlanError = True"
| "is_os_or_runtime ReplayConflict = True"
| "is_os_or_runtime CompletionConflict = True"
| "is_os_or_runtime SourcePlanningError = True"
| "is_os_or_runtime SourceConfigurationError = True"
| "is_os_or_runtime SourceContractError = True"
| "is_os_or_runtime SourceLineageError = True"
| "is_os_or_runtime SourceBaselineError = True"
| "is_os_or_runtime (SourceSnapshotBlockedError _ _) = True"
| "is_os_or_runtime _ = False"

definition COMMIT_CONFLICT_MARKERS :: "string list" where
  "COMMIT_CONFLICT_MARKERS = [''Commit conflict'', ''Retryable commit conflict'']"

definition is_commit_conflict_error :: "py_exc \<Rightarrow> bool" where
  "is_commit_conflict_error e \<longleftrightarrow>
     is_os_or_runtime (exc_class e) \<and> list_ex (\<lambda>m. contains_text m (exc_message e)) COMMIT_CONFLICT_MARKERS"

definition DATASET_NOT_FOUND_MARKER :: string where
  "DATASET_NOT_FOUND_MARKER = ''was not found''"

definition is_value_error :: "py_error \<Rightarrow> bool" where
  "is_value_error c \<longleftrightarrow> c = ValueError \<or> c = MutationConflict"

definition dataset_absent :: "py_exc \<Rightarrow> bool" where
  "dataset_absent e \<longleftrightarrow>
     exc_class e = FileNotFoundError \<or> is_value_error (exc_class e) \<and> contains_text DATASET_NOT_FOUND_MARKER (exc_message e)"

section \<open>The retry loop\<close>

type_synonym ('w, 'a) action = "'w \<Rightarrow> (py_exc + 'a) \<times> 'w"

fun commit_attempts ::
    "('w, 'a) action \<Rightarrow> ('w \<Rightarrow> 'w) \<Rightarrow> (nat \<Rightarrow> 'w \<Rightarrow> 'w) \<Rightarrow> nat \<Rightarrow> nat \<Rightarrow> ('w, 'a) action" where
  "commit_attempts action on_conflict sleep attempt left w =
     (case action w of
        (Inr x, w') \<Rightarrow> (Inr x, w')
      | (Inl e, w') \<Rightarrow>
          if \<not> is_commit_conflict_error e then (Inl e, w')
          else (case left of
                  0 \<Rightarrow> (Inl e, on_conflict w')
                | Suc n \<Rightarrow> commit_attempts action on_conflict sleep (Suc attempt) n (sleep attempt (on_conflict w'))))"

declare commit_attempts.simps [simp del]

text \<open>
  \<open>range(retries + 1)\<close> is empty for a negative budget, and the assertion after the loop fails then.
\<close>

definition commit_with_retries ::
    "('w, 'a) action \<Rightarrow> int \<Rightarrow> ('w \<Rightarrow> 'w) \<Rightarrow> (nat \<Rightarrow> 'w \<Rightarrow> 'w) \<Rightarrow> ('w, 'a) action" where
  "commit_with_retries action retries on_conflict sleep w =
     (if retries < 0 then (Inl (Exc AssertionError []), w)
      else commit_attempts action on_conflict sleep 0 (nat retries) w)"

section \<open>What the loop keeps\<close>

text \<open>
  A relation between worlds that the action, the conflict callback and the sleep keep is kept by the
  loop; a result the loop returns is one an attempt returned.
\<close>

lemma commit_attempts_relation:
  assumes "reflp R" and "transp R" and "\<And>v. R v (snd (action v))" and "\<And>v. R v (on_conflict v)"
    and "\<And>n v. R v (sleep n v)"
  shows "R w (snd (commit_attempts action on_conflict sleep attempt left w))"
proof (induction left arbitrary: attempt w)
  case 0
  have "R w (snd (action w))" "R w (on_conflict (snd (action w)))" using assms by (auto dest: transpD)
  then show ?case by (subst commit_attempts.simps) (auto split: prod.splits sum.splits)
next
  case (Suc n)
  obtain r w' where a: "action w = (r, w')" by force
  have step: "R w w'" using assms(3) [of w] a by simp
  have "R w (sleep attempt (on_conflict w'))" using assms(2,4,5) step by (metis transpD)
  then have "R w (snd (commit_attempts action on_conflict sleep (Suc attempt) n (sleep attempt (on_conflict w'))))"
    using Suc assms(2) by (metis transpD)
  with a step show ?case by (subst commit_attempts.simps) (auto split: sum.splits)
qed

lemma commit_attempts_returned:
  assumes "commit_attempts action on_conflict sleep attempt left w = (Inr x, w')"
  shows "\<exists>v. action v = (Inr x, w')"
  using assms
proof (induction left arbitrary: attempt w)
  case 0
  then show ?case by (subst (asm) commit_attempts.simps) (auto split: prod.splits sum.splits if_splits)
next
  case (Suc n)
  then show ?case
    by (subst (asm) commit_attempts.simps) (auto split: prod.splits sum.splits if_splits)
qed

lemma commit_with_retries_relation:
  assumes "reflp R" and "transp R" and "\<And>v. R v (snd (action v))" and "\<And>v. R v (on_conflict v)"
    and "\<And>n v. R v (sleep n v)"
  shows "R w (snd (commit_with_retries action retries on_conflict sleep w))"
  using commit_attempts_relation [OF assms] assms(1) by (simp add: commit_with_retries_def reflpD)

lemma commit_with_retries_returned:
  assumes "commit_with_retries action retries on_conflict sleep w = (Inr x, w')"
  shows "\<exists>v. action v = (Inr x, w')"
  using assms commit_attempts_returned by (auto simp: commit_with_retries_def split: if_splits)

lemma commit_with_retries_first:
  assumes "action w = (r, w')" and "\<And>e. r = Inl e \<Longrightarrow> \<not> is_commit_conflict_error e" and "0 \<le> retries"
  shows "commit_with_retries action retries on_conflict sleep w = (r, w')"
  using assms by (auto simp: commit_with_retries_def commit_attempts.simps split: sum.splits)

end
