(* ===== verification/Replay.thy ===== *)
theory Replay
  imports Commits "HOL-Library.Multiset"
begin

text \<open>
  The replay-safe merge into a Lance dataset (\<open>etl/replay_sink.py\<close>): validation of the terminal table,
  the key states of the table and of the stored dataset, the conflict and reconciliation checks, the
  conditional merge under the commit retry loop, and the split of a table into bounded chunks.

  An Arrow table is its list of named, typed columns. Lance is a parameter (\<open>lance\<close>): opening, creating,
  scanning and merging a dataset of an unspecified type, of which the model assumes only what
  \<open>lance_ok\<close> states. Other clients of the same dataset are a parameter too: \<open>others n\<close> is what they
  committed before the \<open>n\<close>-th access this process makes.
\<close>

section \<open>Arrow tables\<close>

datatype arrow_type = A_string | A_int64 | A_binary nat | A_bool | A_other string

datatype cell = CText string | CInt int | CBytes bytes | CBool bool | COther string

record column =
  col_name :: string
  col_type :: arrow_type
  col_cells :: "cell option list"

record arrow_table =
  num_rows :: nat
  columns :: "column list"

type_synonym schema = "(string \<times> arrow_type) list"
type_synonym arrow_row = "(string \<times> cell option) list"
type_synonym key_state = "int \<times> bytes"

definition schema_of :: "arrow_table \<Rightarrow> schema" where
  "schema_of t = map (\<lambda>c. (col_name c, col_type c)) (columns t)"

fun cell_has_type :: "arrow_type \<Rightarrow> cell option \<Rightarrow> bool" where
  "cell_has_type ty None = True"
| "cell_has_type A_string (Some v) = (case v of CText _ \<Rightarrow> True | _ \<Rightarrow> False)"
| "cell_has_type A_int64 (Some v) = (case v of CInt _ \<Rightarrow> True | _ \<Rightarrow> False)"
| "cell_has_type (A_binary n) (Some v) = (case v of CBytes b \<Rightarrow> length b = n | _ \<Rightarrow> False)"
| "cell_has_type A_bool (Some v) = (case v of CBool _ \<Rightarrow> True | _ \<Rightarrow> False)"
| "cell_has_type (A_other _) (Some v) = (case v of COther _ \<Rightarrow> True | _ \<Rightarrow> False)"

text \<open>What Arrow guarantees of a table: columns of one length, cells of the declared type, distinct names.\<close>

definition table_ok :: "arrow_table \<Rightarrow> bool" where
  "table_ok t \<longleftrightarrow> distinct (map col_name (columns t)) \<and>
     list_all (\<lambda>c. length (col_cells c) = num_rows t \<and> list_all (cell_has_type (col_type c)) (col_cells c)) (columns t)"

definition row_at :: "arrow_table \<Rightarrow> nat \<Rightarrow> arrow_row" where
  "row_at t i = map (\<lambda>c. (col_name c, col_cells c ! i)) (columns t)"

definition table_rows :: "arrow_table \<Rightarrow> arrow_row list" where
  "table_rows t = map (row_at t) [0..<num_rows t]"

definition cell_of :: "arrow_row \<Rightarrow> string \<Rightarrow> cell option" where
  "cell_of r name = (case map_of r name of Some (Some v) \<Rightarrow> Some v | _ \<Rightarrow> None)"

text \<open>The conversions \<open>str\<close>, \<open>int\<close> and \<open>bytes\<close> of a cell of the validated type.\<close>

definition text_at :: "string \<Rightarrow> arrow_row \<Rightarrow> string" where
  "text_at name r = (case cell_of r name of Some (CText s) \<Rightarrow> s | _ \<Rightarrow> [])"

definition int_at :: "string \<Rightarrow> arrow_row \<Rightarrow> int" where
  "int_at name r = (case cell_of r name of Some (CInt i) \<Rightarrow> i | _ \<Rightarrow> 0)"

definition bytes_at :: "string \<Rightarrow> arrow_row \<Rightarrow> bytes" where
  "bytes_at name r = (case cell_of r name of Some (CBytes b) \<Rightarrow> b | _ \<Rightarrow> [])"

section \<open>System columns\<close>

definition WINDOW_SEQUENCE_COLUMN :: string where "WINDOW_SEQUENCE_COLUMN = ''lance_etl_window_seq''"
definition SOURCE_SEQUENCE_COLUMN :: string where "SOURCE_SEQUENCE_COLUMN = ''lance_etl_source_sequence''"
definition EVENT_DIGEST_COLUMN :: string where "EVENT_DIGEST_COLUMN = ''lance_etl_event_digest''"
definition DELETED_COLUMN :: string where "DELETED_COLUMN = ''is_deleted''"
definition TS_COLUMN :: string where "TS_COLUMN = ''ts''"
definition VERIFY_KEY_BATCH :: nat where "VERIFY_KEY_BATCH = 512"

definition required_columns :: "string \<Rightarrow> schema" where
  "required_columns key_column =
     [(key_column, A_string), (WINDOW_SEQUENCE_COLUMN, A_int64), (SOURCE_SEQUENCE_COLUMN, A_int64),
      (EVENT_DIGEST_COLUMN, A_binary 32), (DELETED_COLUMN, A_bool)]"

text \<open>
  The required columns as the dictionary literal leaves them: a key column named like a system column
  keeps its place and takes the later type.
\<close>

definition required_dict :: "string \<Rightarrow> schema" where
  "required_dict key_column =
     map (\<lambda>name. (name, case dict_get (required_columns key_column) name of Some ty \<Rightarrow> ty | None \<Rightarrow> A_string))
       (rev (remdups (rev (map fst (required_columns key_column)))))"

definition column_named :: "arrow_table \<Rightarrow> string \<Rightarrow> column option" where
  "column_named t name = find (\<lambda>c. col_name c = name) (columns t)"

definition check_required :: "arrow_table \<Rightarrow> string \<times> arrow_type \<Rightarrow> unit result" where
  "check_required t req =
     (case column_named t (fst req) of
        None \<Rightarrow> Inl ValueError
      | Some c \<Rightarrow>
          rbind (ensure (col_type c = snd req) ValueError) (\<lambda>_.
          ensure (\<not> list_ex (\<lambda>v. v = None) (col_cells c)) ValueError))"

definition check_non_negative :: "arrow_table \<Rightarrow> string \<Rightarrow> unit result" where
  "check_non_negative t name =
     ensure (\<not> list_ex (\<lambda>r. int_at name r < 0) (table_rows t)) ValueError"

definition check_tombstones :: "arrow_table \<Rightarrow> string \<Rightarrow> unit result" where
  "check_tombstones t name =
     ensure (\<not> list_ex (\<lambda>r. cell_of r DELETED_COLUMN = Some (CBool True) \<and> cell_of r name \<noteq> None) (table_rows t)) ValueError"

definition validate_replay_table :: "arrow_table \<Rightarrow> string \<Rightarrow> string list result" where
  "validate_replay_table t key_column =
     rbind (rmap (check_required t) (required_dict key_column)) (\<lambda>_.
     rbind (rmap (check_non_negative t) [WINDOW_SEQUENCE_COLUMN, SOURCE_SEQUENCE_COLUMN]) (\<lambda>_.
     let payload_columns = filter (\<lambda>n. n \<notin> set (map fst (required_dict key_column)) \<and> n \<noteq> TS_COLUMN) (map col_name (columns t))
     in rbind (rmap (check_tombstones t) payload_columns) (\<lambda>_. Inr payload_columns)))"

section \<open>Key states\<close>

function batches_of :: "nat \<Rightarrow> 'a list \<Rightarrow> 'a list list" where
  "batches_of n values = (if values = [] \<or> n = 0 then [] else take n values # batches_of n (drop n values))"
  by pat_completeness auto
termination by (relation "measure (\<lambda>(n, values). length values)") auto

declare batches_of.simps [simp del]

definition key_batches :: "string list \<Rightarrow> string list list" where
  "key_batches values = batches_of VERIFY_KEY_BATCH values"

type_synonym key_states = "(string \<times> key_state) list"

definition add_stored :: "string \<times> key_state \<Rightarrow> key_states \<Rightarrow> key_states result" where
  "add_stored row states =
     rbind (ensure (fst row \<notin> fst ` set states) ReplayConflict) (\<lambda>_. Inr (states @ [row]))"

text \<open>A scan for a batch of keys, read as key, source sequence and digest.\<close>

definition load_key_states :: "(string list \<Rightarrow> (string \<times> key_state) list) \<Rightarrow> string list \<Rightarrow> key_states result" where
  "load_key_states scan keys =
     rfold (\<lambda>batch states. if batch = [] then Inr states else rfold add_stored (scan batch) states) (key_batches keys) []"

definition row_state :: "string \<Rightarrow> arrow_row \<Rightarrow> string \<times> key_state" where
  "row_state key_column r = (text_at key_column r, int_at SOURCE_SEQUENCE_COLUMN r, bytes_at EVENT_DIGEST_COLUMN r)"

definition expected_key_states :: "arrow_table \<Rightarrow> string \<Rightarrow> key_states result" where
  "expected_key_states t key_column = rfold add_stored (map (row_state key_column) (table_rows t)) []"

fun detect_same_sequence_conflicts :: "key_states \<Rightarrow> key_states \<Rightarrow> unit result" where
  "detect_same_sequence_conflicts existing [] = Inr ()"
| "detect_same_sequence_conflicts existing ((key, incoming_sequence, incoming_digest) # rest) =
     (case map_of existing key of
        None \<Rightarrow> detect_same_sequence_conflicts existing rest
      | Some (stored_sequence, stored_digest) \<Rightarrow>
          if stored_sequence = incoming_sequence \<and> stored_digest \<noteq> incoming_digest then Inl ReplayConflict
          else detect_same_sequence_conflicts existing rest)"

definition requires_replay_merge :: "key_states \<Rightarrow> key_states \<Rightarrow> bool" where
  "requires_replay_merge existing incoming =
     list_ex (\<lambda>(key, incoming_state).
       case map_of existing key of None \<Rightarrow> True | Some stored \<Rightarrow> fst stored < fst incoming_state) incoming"

fun verify_reconciled_states :: "key_states \<Rightarrow> key_states \<Rightarrow> unit result" where
  "verify_reconciled_states stored [] = Inr ()"
| "verify_reconciled_states stored ((key, incoming_sequence, incoming_digest) # rest) =
     (case map_of stored key of
        None \<Rightarrow> Inl ReplayConflict
      | Some (stored_sequence, stored_digest) \<Rightarrow>
          if incoming_sequence < stored_sequence then verify_reconciled_states stored rest
          else if stored_sequence < incoming_sequence then Inl ReplayConflict
          else if stored_digest \<noteq> incoming_digest then Inl ReplayConflict
          else verify_reconciled_states stored rest)"

section \<open>Lance\<close>

text \<open>The builder of a \<open>merge_insert\<close>: its key columns, the condition of \<open>when_matched_update_all\<close>, and
  whether \<open>when_not_matched_insert_all\<close> was called.\<close>

record merge_builder =
  mb_on :: "string list"
  mb_update_condition :: "string option"
  mb_insert_unmatched :: bool

definition replay_update_condition :: string where
  "replay_update_condition = ''target.'' @ SOURCE_SEQUENCE_COLUMN @ '' < source.'' @ SOURCE_SEQUENCE_COLUMN"

definition replay_merge_insert :: "string \<Rightarrow> merge_builder" where
  "replay_merge_insert key_column =
     \<lparr> mb_on = [key_column], mb_update_condition = Some replay_update_condition, mb_insert_unmatched = True \<rparr>"

record 'd lance =
  ln_schema :: "'d \<Rightarrow> schema"
  ln_version :: "'d \<Rightarrow> int"
  ln_scan :: "'d \<Rightarrow> string \<Rightarrow> string list \<Rightarrow> (string \<times> key_state) list"
  ln_create :: "schema \<Rightarrow> 'd"
  ln_merge :: "'d \<Rightarrow> arrow_table \<Rightarrow> merge_builder \<Rightarrow> (py_exc + unit) \<times> 'd"
  ln_open_error :: "nat \<Rightarrow> py_exc option"
  ln_create_error :: "nat \<Rightarrow> py_exc option"

record 'd world =
  clock :: nat
  store :: "'d option"

definition others_act :: "(nat \<Rightarrow> 'd option \<Rightarrow> 'd option) \<Rightarrow> 'd world \<Rightarrow> 'd world" where
  "others_act others w = w\<lparr> clock := Suc (clock w), store := others (clock w) (store w) \<rparr>"

definition raised :: "'a result \<Rightarrow> py_exc + 'a" where
  "raised r = (case r of Inl e \<Rightarrow> Inl (Exc e []) | Inr x \<Rightarrow> Inr x)"

definition lance_dataset :: "'d lance \<Rightarrow> 'd world \<Rightarrow> py_exc + 'd" where
  "lance_dataset api w =
     (case store w of
        None \<Rightarrow> Inl (Exc ValueError DATASET_NOT_FOUND_MARKER)
      | Some d \<Rightarrow> (case ln_open_error api (clock w) of Some e \<Rightarrow> Inl e | None \<Rightarrow> Inr d))"

text \<open>
  Opening a dataset, or writing an empty one when the error proves it absent. A writer that finds that
  another client created the dataset meanwhile (an empty append, or an \<open>OSError\<close> followed by a new open)
  uses that one; a write that fails with an \<open>OSError\<close> is followed by a new open, and any other failure is
  raised.
\<close>

definition open_or_create_replay_dataset ::
    "'d lance \<Rightarrow> (nat \<Rightarrow> 'd option \<Rightarrow> 'd option) \<Rightarrow> schema \<Rightarrow> int \<Rightarrow> ('d world, 'd) action" where
  "open_or_create_replay_dataset api others schema max_rows_per_file w =
     (if max_rows_per_file < 1 then (Inl (Exc ValueError []), w)
      else let w1 = others_act others w in
        case lance_dataset api w1 of
          Inr d \<Rightarrow> (Inr d, w1)
        | Inl e \<Rightarrow>
            if \<not> (exc_class e = FileNotFoundError \<or> is_value_error (exc_class e)) \<or> \<not> dataset_absent e then (Inl e, w1)
            else let w2 = others_act others w1 in
              case store w2 of
                Some d \<Rightarrow> (lance_dataset api w2, w2)
              | None \<Rightarrow>
                  (case ln_create_error api (clock w2) of
                     None \<Rightarrow> (Inr (ln_create api schema), w2\<lparr> store := Some (ln_create api schema) \<rparr>)
                   | Some e' \<Rightarrow>
                       if exc_class e' = OSError \<or> exc_class e' = FileNotFoundError
                       then let w3 = others_act others w2 in (lance_dataset api w3, w3)
                       else (Inl e', w2)))"

definition ensure_fixed_schema :: "'d lance \<Rightarrow> 'd \<Rightarrow> schema \<Rightarrow> unit result" where
  "ensure_fixed_schema api d schema = ensure (ln_schema api d = schema) ValueError"

definition preflight :: "'d lance \<Rightarrow> 'd \<Rightarrow> arrow_table \<Rightarrow> string \<Rightarrow> key_states \<Rightarrow> bool result" where
  "preflight api d t key_column incoming =
     rbind (ensure_fixed_schema api d (schema_of t)) (\<lambda>_.
     rbind (load_key_states (ln_scan api d key_column) (map fst incoming)) (\<lambda>existing.
     rbind (detect_same_sequence_conflicts existing incoming) (\<lambda>_.
     Inr (requires_replay_merge existing incoming))))"

text \<open>
  One attempt: open, preflight, and, when something can advance, the conditional merge, which Lance
  applies to the version that is current when it commits.
\<close>

definition merge_attempt ::
    "'d lance \<Rightarrow> (nat \<Rightarrow> 'd option \<Rightarrow> 'd option) \<Rightarrow> arrow_table \<Rightarrow> string \<Rightarrow> int \<Rightarrow> key_states \<Rightarrow> ('d world, unit) action" where
  "merge_attempt api others t key_column max_rows_per_file incoming w =
     (case open_or_create_replay_dataset api others (schema_of t) max_rows_per_file w of
        (Inl e, w1) \<Rightarrow> (Inl e, w1)
      | (Inr d, w1) \<Rightarrow>
          (case preflight api d t key_column incoming of
             Inl e \<Rightarrow> (Inl (Exc e []), w1)
           | Inr False \<Rightarrow> (Inr (), w1)
           | Inr True \<Rightarrow>
               let w2 = others_act others w1 in
               (case ln_merge api (case store w2 of Some d' \<Rightarrow> d' | None \<Rightarrow> d) t (replay_merge_insert key_column) of
                  (r, d') \<Rightarrow> (r, w2\<lparr> store := Some d' \<rparr>))))"

record merge_result =
  mr_rows :: nat
  mr_tombstones :: nat
  mr_version :: int

definition replay_safe_merge ::
    "'d lance \<Rightarrow> (nat \<Rightarrow> 'd option \<Rightarrow> 'd option) \<Rightarrow> arrow_table \<Rightarrow> string \<Rightarrow> int \<Rightarrow> int \<Rightarrow> ('d world, merge_result) action" where
  "replay_safe_merge api others t key_column conflict_retries max_rows_per_file w =
     (case rbind (validate_replay_table t key_column) (\<lambda>_. expected_key_states t key_column) of
        Inl e \<Rightarrow> (Inl (Exc e []), w)
      | Inr incoming \<Rightarrow>
          (case commit_with_retries (merge_attempt api others t key_column max_rows_per_file incoming) conflict_retries
              id (\<lambda>_. others_act others) w of
             (Inl e, w1) \<Rightarrow> (Inl e, w1)
           | (Inr _, w1) \<Rightarrow>
               let w2 = others_act others w1 in
               (case lance_dataset api w2 of
                  Inl e \<Rightarrow> (Inl e, w2)
                | Inr d \<Rightarrow>
                    (raised (rbind (load_key_states (ln_scan api d key_column) (map fst incoming)) (\<lambda>stored.
                      rbind (verify_reconciled_states stored incoming) (\<lambda>_.
                      Inr \<lparr> mr_rows = num_rows t,
                        mr_tombstones = length (filter (\<lambda>r. cell_of r DELETED_COLUMN = Some (CBool True)) (table_rows t)),
                        mr_version = ln_version api d \<rparr>))), w2))))"

section \<open>Chunks\<close>

text \<open>
  A slice is its offset and length. \<open>nbytes\<close> is Arrow's size of a slice, and \<open>scale\<close> the rounded
  floating-point quotient \<open>int(length * max_bytes / nbytes)\<close>.
\<close>

function shrink :: "(int \<Rightarrow> int) \<Rightarrow> (int \<Rightarrow> int \<Rightarrow> int \<Rightarrow> int) \<Rightarrow> int \<Rightarrow> int \<Rightarrow> int" where
  "shrink nbytes scale max_bytes len =
     (if max_bytes < nbytes len \<and> 1 < len
      then shrink nbytes scale max_bytes (min (len - 1) (max 1 (scale len max_bytes (nbytes len))))
      else len)"
  by pat_completeness auto
termination by (relation "measure (\<lambda>(nbytes, scale, max_bytes, len). nat len)") auto

declare shrink.simps [simp del]

lemma shrink_stop: "\<not> (max_bytes < nbytes len \<and> 1 < len) \<Longrightarrow> shrink nbytes scale max_bytes len = len"
  by (subst shrink.simps) (simp only: if_False)

lemma shrink_step:
  "max_bytes < nbytes len \<and> 1 < len \<Longrightarrow>
     shrink nbytes scale max_bytes len = shrink nbytes scale max_bytes (min (len - 1) (max 1 (scale len max_bytes (nbytes len))))"
  by (subst shrink.simps) (simp only: if_True simp_thms)

lemma shrink_bounds: "1 \<le> len \<Longrightarrow> 1 \<le> shrink nbytes scale max_bytes len \<and> shrink nbytes scale max_bytes len \<le> len"
proof (induction nbytes scale max_bytes len rule: shrink.induct)
  case (1 nbytes scale max_bytes len)
  show ?case
  proof (cases "max_bytes < nbytes len \<and> 1 < len")
    case True
    then have "1 \<le> min (len - 1) (max 1 (scale len max_bytes (nbytes len)))" by simp
    from "1.IH" [OF True this] show ?thesis unfolding shrink_step [of max_bytes nbytes len scale, OF True] by linarith
  qed (use "1.prems" in \<open>simp add: shrink_stop\<close>)
qed

lemma shrink_fits:
  "1 \<le> len \<Longrightarrow> nbytes (shrink nbytes scale max_bytes len) \<le> max_bytes \<or> shrink nbytes scale max_bytes len = 1"
proof (induction nbytes scale max_bytes len rule: shrink.induct)
  case (1 nbytes scale max_bytes len)
  show ?case
  proof (cases "max_bytes < nbytes len \<and> 1 < len")
    case True
    then have "1 \<le> min (len - 1) (max 1 (scale len max_bytes (nbytes len)))" by simp
    from "1.IH" [OF True this] show ?thesis unfolding shrink_step [of max_bytes nbytes len scale, OF True] .
  next
    case False
    then show ?thesis using "1.prems" unfolding shrink_stop [of max_bytes nbytes len, OF False] by linarith
  qed
qed

function chunk_loop ::
    "int \<Rightarrow> (int \<Rightarrow> int \<Rightarrow> int) \<Rightarrow> (int \<Rightarrow> int \<Rightarrow> int \<Rightarrow> int) \<Rightarrow> int \<Rightarrow> int \<Rightarrow> int \<Rightarrow> (int \<times> int) list" where
  "chunk_loop n_rows nbytes scale max_rows max_bytes offset =
     (if offset < n_rows \<and> 1 \<le> max_rows
      then let len = shrink (nbytes offset) scale max_bytes (min max_rows (n_rows - offset))
           in (offset, len) # chunk_loop n_rows nbytes scale max_rows max_bytes (offset + len)
      else [])"
  by pat_completeness auto
termination
proof (relation "measure (\<lambda>(n_rows, nbytes, scale, max_rows, max_bytes, offset). nat (n_rows - offset))")
  fix n_rows nbytes scale max_rows max_bytes offset len :: int and nb sc
  assume "offset < n_rows \<and> 1 \<le> max_rows" and "len = shrink (nb offset) sc max_bytes (min max_rows (n_rows - offset))"
  then have "1 \<le> len" using shrink_bounds [of "min max_rows (n_rows - offset)"] by simp
  then show "((n_rows, nb, sc, max_rows, max_bytes, offset + len), n_rows, nb, sc, max_rows, max_bytes, offset)
      \<in> measure (\<lambda>(n_rows, nbytes, scale, max_rows, max_bytes, offset). nat (n_rows - offset))"
    using \<open>offset < n_rows \<and> 1 \<le> max_rows\<close> by simp
qed simp

declare chunk_loop.simps [simp del]

definition replay_table_chunks ::
    "int \<Rightarrow> (int \<Rightarrow> int \<Rightarrow> int) \<Rightarrow> (int \<Rightarrow> int \<Rightarrow> int \<Rightarrow> int) \<Rightarrow> int \<Rightarrow> int \<Rightarrow> (int \<times> int) list result" where
  "replay_table_chunks n_rows nbytes scale max_rows max_bytes =
     rbind (ensure (\<not> (max_rows < 1 \<or> max_bytes < 1)) ValueError) (\<lambda>_.
     Inr (chunk_loop n_rows nbytes scale max_rows max_bytes 0))"

end
