(* ===== verification/Replay_Properties.thy ===== *)
theory Replay_Properties
  imports Replay
begin

text \<open>
  Properties of the replay-safe merge: under any interleaving with other clients that only advance the
  dataset it never takes a stored mutation back and returns only when every incoming mutation is stored
  or superseded; alone it stores, for every key, the newest mutation; and a set of tables converges to
  one state in whatever order and however often they are merged.
\<close>

section \<open>What is assumed of Lance\<close>

text \<open>
  \<open>merge_rows\<close> is the documented effect of \<open>merge_insert\<close> on the key column with an update of the matched
  rows where the target's source sequence is below the source's, and an insert of the unmatched ones.
  \<open>lance_ok\<close> states, for an observation \<open>rows\<close> of a dataset: a scan returns the rows whose key is
  asked for; a created dataset is empty with the given schema; a merge whose builder names that key, that
  condition and the insert has, when it succeeds, that effect, and has had it or none when it raises; the
  schema stays.
\<close>

definition merge_rows :: "string \<Rightarrow> arrow_row list \<Rightarrow> arrow_row list \<Rightarrow> arrow_row list" where
  "merge_rows kc stored incoming =
     map (\<lambda>r. case find (\<lambda>s. text_at kc s = text_at kc r) incoming of
                Some s \<Rightarrow> if int_at SOURCE_SEQUENCE_COLUMN r < int_at SOURCE_SEQUENCE_COLUMN s then s else r
              | None \<Rightarrow> r) stored
     @ filter (\<lambda>s. text_at kc s \<notin> text_at kc ` set stored) incoming"

definition merge_effect :: "('d \<Rightarrow> arrow_row list) \<Rightarrow> string \<Rightarrow> arrow_table \<Rightarrow> 'd \<Rightarrow> 'd \<Rightarrow> bool" where
  "merge_effect rows kc t d d' \<longleftrightarrow> mset (rows d') = mset (merge_rows kc (rows d) (table_rows t))"

definition lance_ok :: "'d lance \<Rightarrow> ('d \<Rightarrow> arrow_row list) \<Rightarrow> string \<Rightarrow> bool" where
  "lance_ok api rows kc \<longleftrightarrow>
     (\<forall>d keys. mset (ln_scan api d kc keys) = mset (map (row_state kc) (filter (\<lambda>r. text_at kc r \<in> set keys) (rows d)))) \<and>
     (\<forall>s. rows (ln_create api s) = [] \<and> ln_schema api (ln_create api s) = s) \<and>
     (\<forall>d t b. distinct (map (text_at kc) (table_rows t)) \<and> mb_on b = [kc] \<and> mb_insert_unmatched b \<and>
        mb_update_condition b = Some ''target.lance_etl_source_sequence < source.lance_etl_source_sequence'' \<longrightarrow>
        (case ln_merge api d t b of (r, d') \<Rightarrow>
           ln_schema api d' = ln_schema api d \<and>
           (merge_effect rows kc t d d' \<or> r \<noteq> Inr () \<and> mset (rows d') = mset (rows d))))"

lemma lance_ok_scan:
  "lance_ok api rows kc \<Longrightarrow>
     mset (ln_scan api d kc keys) = mset (map (row_state kc) (filter (\<lambda>r. text_at kc r \<in> set keys) (rows d)))"
  by (simp add: lance_ok_def)

lemma lance_ok_create:
  "lance_ok api rows kc \<Longrightarrow> rows (ln_create api s) = []" "lance_ok api rows kc \<Longrightarrow> ln_schema api (ln_create api s) = s"
  by (simp_all add: lance_ok_def)

lemma lance_ok_merge:
  assumes "lance_ok api rows kc" and "distinct (map (text_at kc) (table_rows t))" and "ln_merge api d t (replay_merge_insert kc) = (r, d')"
  shows "ln_schema api d' = ln_schema api d \<and> (merge_effect rows kc t d d' \<or> r \<noteq> Inr () \<and> mset (rows d') = mset (rows d))"
proof -
  note law = spec [OF spec [OF spec [OF conjunct2 [OF conjunct2 [OF assms(1) [unfolded lance_ok_def]]], of d], of t],
      of "replay_merge_insert kc"]
  have "replay_update_condition = ''target.lance_etl_source_sequence < source.lance_etl_source_sequence''"
    by (simp add: replay_update_condition_def SOURCE_SEQUENCE_COLUMN_def)
  with law assms(2,3) show ?thesis by (simp add: replay_merge_insert_def)
qed

section \<open>Key states\<close>

definition unique_rows :: "string \<Rightarrow> arrow_row list \<Rightarrow> bool" where
  "unique_rows kc rs \<longleftrightarrow> distinct (map (text_at kc) rs)"

definition states :: "string \<Rightarrow> arrow_row list \<Rightarrow> string \<Rightarrow> key_state option" where
  "states kc rs = map_of (map (row_state kc) rs)"

lemma fst_row_state [simp]: "fst (row_state kc r) = text_at kc r"
  by (simp add: row_state_def)

lemma map_fst_row_state: "map fst (map (row_state kc) rs) = map (text_at kc) rs"
  by simp

lemma unique_rows_mset: "mset rs = mset rs' \<Longrightarrow> unique_rows kc rs = unique_rows kc rs'"
  unfolding unique_rows_def by (rule mset_eq_imp_distinct_iff) simp

lemma map_of_mset:
  assumes "mset xs = mset ys" and "distinct (map fst xs)"
  shows "map_of xs = map_of ys"
proof -
  have "mset (map fst xs) = mset (map fst ys)" using assms(1) by simp
  then have "distinct (map fst ys)" using assms(2) mset_eq_imp_distinct_iff by blast
  then show ?thesis using map_of_inject_set [OF assms(2)] mset_eq_setD [OF assms(1)] by blast
qed

lemma states_mset: "mset rs = mset rs' \<Longrightarrow> unique_rows kc rs \<Longrightarrow> states kc rs = states kc rs'"
  unfolding states_def unique_rows_def by (rule map_of_mset) (simp_all add: comp_def)

lemma states_Some: "unique_rows kc rs \<Longrightarrow> states kc rs k = Some s \<longleftrightarrow> (k, s) \<in> row_state kc ` set rs"
  unfolding states_def unique_rows_def by (subst map_of_eq_Some_iff) (simp_all add: comp_def)

lemma states_None: "states kc rs k = None \<longleftrightarrow> k \<notin> text_at kc ` set rs"
  unfolding states_def by (simp add: map_of_eq_None_iff image_image)

section \<open>Loading\<close>

lemma concat_batches_of: "0 < n \<Longrightarrow> concat (batches_of n xs) = xs"
  by (induction n xs rule: batches_of.induct) (subst batches_of.simps, auto)

lemma batches_of_nonempty: "b \<in> set (batches_of n xs) \<Longrightarrow> b \<noteq> []"
  by (induction n xs rule: batches_of.induct) (subst (asm) (2) batches_of.simps, auto split: if_splits)

lemma rfold_concat: "rfold (\<lambda>b. rfold f (g b)) bs s = rfold f (concat (map g bs)) s"
proof (induction bs arbitrary: s)
  case (Cons b bs)
  then show ?case by (cases "rfold f (g b) s") (simp_all add: rfold_append)
qed simp

lemma rfold_cong: "(\<And>b s. b \<in> set bs \<Longrightarrow> f b s = g b s) \<Longrightarrow> rfold f bs s = rfold g bs s"
proof (induction bs arbitrary: s)
  case (Cons b bs)
  then show ?case by (cases "g b s") simp_all
qed simp

lemma rfold_add_stored:
  "distinct (map fst acc) \<Longrightarrow>
     rfold add_stored xs acc = (if distinct (map fst (acc @ xs)) then Inr (acc @ xs) else Inl ReplayConflict)"
proof (induction xs arbitrary: acc)
  case (Cons x xs)
  show ?case
  proof (cases "fst x \<in> fst ` set acc")
    case False
    with Cons.prems have "distinct (map fst (acc @ [x]))" by simp
    from Cons.IH [OF this] False show ?thesis by (simp add: add_stored_def)
  qed (simp add: add_stored_def)
qed simp

definition scanned :: "(string list \<Rightarrow> (string \<times> key_state) list) \<Rightarrow> string list \<Rightarrow> (string \<times> key_state) list" where
  "scanned scan keys = concat (map scan (key_batches keys))"

lemma load_key_states_eq:
  "load_key_states scan keys =
     (if distinct (map fst (scanned scan keys)) then Inr (scanned scan keys) else Inl ReplayConflict)"
proof -
  have "load_key_states scan keys = rfold (\<lambda>b. rfold add_stored (scan b)) (key_batches keys) []"
    unfolding load_key_states_def by (rule rfold_cong) (auto simp: key_batches_def dest: batches_of_nonempty)
  then show ?thesis by (simp add: rfold_concat rfold_add_stored scanned_def)
qed

lemma mset_filter_disjoint:
  "(\<And>x. \<not> (P x \<and> Q x)) \<Longrightarrow> mset (filter (\<lambda>x. P x \<or> Q x) xs) = mset (filter P xs) + mset (filter Q xs)"
  by (induction xs) auto

lemma scanned_mset:
  assumes "lance_ok api rows kc" and "distinct keys"
  shows "mset (scanned (ln_scan api d kc) keys) =
    mset (map (row_state kc) (filter (\<lambda>r. text_at kc r \<in> set keys) (rows d)))"
proof -
  have "mset (concat (map (ln_scan api d kc) bs)) =
      mset (map (row_state kc) (filter (\<lambda>r. text_at kc r \<in> set (concat bs)) (rows d)))" if "distinct (concat bs)" for bs
    using that
  proof (induction bs)
    case (Cons b bs)
    have "mset (filter (\<lambda>r. text_at kc r \<in> set b \<or> text_at kc r \<in> set (concat bs)) (rows d)) =
        mset (filter (\<lambda>r. text_at kc r \<in> set b) (rows d)) + mset (filter (\<lambda>r. text_at kc r \<in> set (concat bs)) (rows d))"
      by (rule mset_filter_disjoint) (use Cons.prems in auto)
    then show ?case using Cons lance_ok_scan [OF assms(1), of d b] by simp
  qed simp
  from this [of "key_batches keys"] assms(2) show ?thesis
    by (simp add: scanned_def key_batches_def concat_batches_of VERIFY_KEY_BATCH_def)
qed

lemma load_key_states_ok:
  assumes "lance_ok api rows kc" and "distinct keys" and "unique_rows kc (rows d)"
  obtains st where "load_key_states (ln_scan api d kc) keys = Inr st"
    and "\<And>k. map_of st k = (if k \<in> set keys then states kc (rows d) k else None)"
proof -
  let ?rs = "filter (\<lambda>r. text_at kc r \<in> set keys) (rows d)"
  let ?st = "scanned (ln_scan api d kc) keys"
  have m: "mset ?st = mset (map (row_state kc) ?rs)" by (rule scanned_mset [OF assms(1,2)])
  have u: "unique_rows kc ?rs" using assms(3) unfolding unique_rows_def by (rule distinct_map_filter)
  then have "distinct (map fst (map (row_state kc) ?rs))" by (simp add: unique_rows_def comp_def)
  moreover have "mset (map fst ?st) = mset (map fst (map (row_state kc) ?rs))" using m by (metis mset_map)
  ultimately have d: "distinct (map fst ?st)" using mset_eq_imp_distinct_iff by blast
  have "map_of ?st k = states kc ?rs k" for k unfolding states_def map_of_mset [OF m d] ..
  also have "states kc ?rs k = (if k \<in> set keys then states kc (rows d) k else None)" for k
  proof -
    have "states kc ?rs k = Some s \<longleftrightarrow> k \<in> set keys \<and> states kc (rows d) k = Some s" for s
      unfolding states_Some [OF u] states_Some [OF assms(3)] by (auto simp: row_state_def)
    then show ?thesis by (metis not_Some_eq)
  qed
  finally show thesis using that [of ?st] d by (simp add: load_key_states_eq)
qed

section \<open>The newest mutation wins\<close>

definition newest :: "(string \<Rightarrow> key_state option) \<Rightarrow> (string \<Rightarrow> key_state option) \<Rightarrow> string \<Rightarrow> key_state option" where
  "newest m n k =
     (case m k of
        None \<Rightarrow> n k
      | Some a \<Rightarrow> (case n k of None \<Rightarrow> Some a | Some b \<Rightarrow> if fst a < fst b then Some b else Some a))"

definition advances :: "(string \<Rightarrow> key_state option) \<Rightarrow> (string \<Rightarrow> key_state option) \<Rightarrow> bool" where
  "advances m m' \<longleftrightarrow> (\<forall>k s. m k = Some s \<longrightarrow> (\<exists>s'. m' k = Some s' \<and> (s' = s \<or> fst s < fst s')))"

lemma advances_refl [simp]: "advances m m"
  by (simp add: advances_def)

lemma advances_trans: "advances m n \<Longrightarrow> advances n p \<Longrightarrow> advances m p"
  unfolding advances_def by (blast intro: less_trans)

lemma advances_newest: "advances m (newest m n)"
  by (auto simp: advances_def newest_def split: option.split)

lemma states_find: "states kc rs k = map_option (\<lambda>r. snd (row_state kc r)) (find (\<lambda>r. text_at kc r = k) rs)"
  by (induction rs) (auto simp: states_def row_state_def)

lemma states_append: "states kc (rs @ rs') k = (case states kc rs k of None \<Rightarrow> states kc rs' k | Some s \<Rightarrow> Some s)"
  by (simp add: states_def map_add_def split: option.split)

lemma fresh_keys: "y \<in> f ` set (filter (\<lambda>s. f s \<notin> C) xs) \<Longrightarrow> y \<notin> C"
  by auto

lemma states_merge_rows: "states kc (merge_rows kc rs inc) = newest (states kc rs) (states kc inc)"
proof
  fix k
  define upd where "upd = (\<lambda>r. case find (\<lambda>s. text_at kc s = text_at kc r) inc of
      Some s \<Rightarrow> if int_at SOURCE_SEQUENCE_COLUMN r < int_at SOURCE_SEQUENCE_COLUMN s then s else r | None \<Rightarrow> r)"
  have key: "text_at kc (upd r) = text_at kc r" for r
    by (auto simp: upd_def find_Some_iff split: option.split)
  have old: "states kc (map upd rs) k = (case states kc rs k of None \<Rightarrow> None | Some a \<Rightarrow>
      (case states kc inc k of None \<Rightarrow> Some a | Some b \<Rightarrow> if fst a < fst b then Some b else Some a))"
  proof (induction rs)
    case (Cons r rs)
    show ?case
    proof (cases "text_at kc r = k")
      case True
      then have "states kc (map upd (r # rs)) k = Some (snd (row_state kc (upd r)))" "states kc (r # rs) k = Some (snd (row_state kc r))"
        using key by (simp_all add: states_find)
      moreover have "states kc inc k = map_option (\<lambda>r. snd (row_state kc r)) (find (\<lambda>s. text_at kc s = text_at kc r) inc)"
        using True by (simp add: states_find)
      ultimately show ?thesis by (auto simp: upd_def row_state_def split: option.split)
    next
      case False
      with Cons show ?thesis using key by (simp add: states_find)
    qed
  qed (simp add: states_def)
  have new: "states kc (filter (\<lambda>s. text_at kc s \<notin> text_at kc ` set rs) inc) k = (case states kc rs k of None \<Rightarrow> states kc inc k | Some _ \<Rightarrow> None)"
  proof (cases "k \<in> text_at kc ` set rs")
    case True
    then obtain a where "states kc rs k = Some a" using states_None [of kc rs k] by auto
    moreover have "states kc (filter (\<lambda>s. text_at kc s \<notin> text_at kc ` set rs) inc) k = None"
      unfolding states_None using True fresh_keys by metis
    ultimately show ?thesis by simp
  next
    case False
    then have "states kc rs k = None" by (simp add: states_None)
    moreover have "states kc (filter (\<lambda>s. text_at kc s \<notin> text_at kc ` set rs) inc) k = states kc inc k"
      using False by (induction inc) (auto simp: states_def row_state_def)
    ultimately show ?thesis by simp
  qed
  show "states kc (merge_rows kc rs inc) k = newest (states kc rs) (states kc inc) k"
    unfolding merge_rows_def upd_def [symmetric] states_append old new by (simp add: newest_def split: option.split)
qed

lemma unique_merge_rows:
  assumes "unique_rows kc rs" and "unique_rows kc inc"
  shows "unique_rows kc (merge_rows kc rs inc)"
proof -
  have "map (text_at kc) (map (\<lambda>r. case find (\<lambda>s. text_at kc s = text_at kc r) inc of
      Some s \<Rightarrow> if int_at SOURCE_SEQUENCE_COLUMN r < int_at SOURCE_SEQUENCE_COLUMN s then s else r | None \<Rightarrow> r) rs) = map (text_at kc) rs"
    by (auto simp: find_Some_iff split: option.split)
  then have "map (text_at kc) (merge_rows kc rs inc) =
      map (text_at kc) rs @ map (text_at kc) (filter (\<lambda>s. text_at kc s \<notin> text_at kc ` set rs) inc)"
    unfolding merge_rows_def map_append by (rule arg_cong)
  moreover have "distinct (map (text_at kc) (filter (\<lambda>s. text_at kc s \<notin> text_at kc ` set rs) inc))"
    using assms(2) unfolding unique_rows_def by (rule distinct_map_filter)
  moreover have "set (map (text_at kc) rs) \<inter> set (map (text_at kc) (filter (\<lambda>s. text_at kc s \<notin> text_at kc ` set rs) inc)) = {}"
  proof (rule equals0I)
    fix y assume y: "y \<in> set (map (text_at kc) rs) \<inter> set (map (text_at kc) (filter (\<lambda>s. text_at kc s \<notin> text_at kc ` set rs) inc))"
    then have "y \<in> text_at kc ` set (filter (\<lambda>s. text_at kc s \<notin> text_at kc ` set rs) inc)" by (simp only: set_map Int_iff)
    from fresh_keys [OF this] y show False by (simp only: set_map Int_iff simp_thms)
  qed
  ultimately show ?thesis using assms(1) unfolding unique_rows_def by (simp only: distinct_append)
qed

lemma merge_effect_states:
  assumes "merge_effect rows kc t d d'" and "unique_rows kc (rows d)" and "unique_rows kc (table_rows t)"
  shows "unique_rows kc (rows d')" and "states kc (rows d') = newest (states kc (rows d)) (states kc (table_rows t))"
proof -
  have u: "unique_rows kc (merge_rows kc (rows d) (table_rows t))" by (rule unique_merge_rows [OF assms(2,3)])
  then show u': "unique_rows kc (rows d')" using unique_rows_mset assms(1) unfolding merge_effect_def by blast
  show "states kc (rows d') = newest (states kc (rows d)) (states kc (table_rows t))"
    unfolding states_merge_rows [symmetric] using assms(1) u' unfolding merge_effect_def by (intro states_mset)
qed

section \<open>Worlds\<close>

definition unique_store :: "('d \<Rightarrow> arrow_row list) \<Rightarrow> string \<Rightarrow> 'd option \<Rightarrow> bool" where
  "unique_store rows kc s = (case s of None \<Rightarrow> True | Some d \<Rightarrow> unique_rows kc (rows d))"

text \<open>
  A store moves forward when it keeps one row per key, keeps its schema, and every stored key keeps its
  mutation or has a newer one.
\<close>

definition store_advances :: "'d lance \<Rightarrow> ('d \<Rightarrow> arrow_row list) \<Rightarrow> string \<Rightarrow> 'd option \<Rightarrow> 'd option \<Rightarrow> bool" where
  "store_advances api rows kc s s' \<longleftrightarrow>
     (unique_store rows kc s \<longrightarrow>
        unique_store rows kc s' \<and>
        (case s of None \<Rightarrow> True | Some d \<Rightarrow>
           (case s' of None \<Rightarrow> False | Some d' \<Rightarrow>
              ln_schema api d' = ln_schema api d \<and> advances (states kc (rows d)) (states kc (rows d')))))"

lemma store_advances_refl: "store_advances api rows kc s s"
  by (auto simp: store_advances_def split: option.split)

lemma store_advances_trans:
  assumes "store_advances api rows kc s s'" and "store_advances api rows kc s' s''"
  shows "store_advances api rows kc s s''"
  using assms unfolding store_advances_def by (auto split: option.splits dest: advances_trans)

definition world_advances :: "'d lance \<Rightarrow> ('d \<Rightarrow> arrow_row list) \<Rightarrow> string \<Rightarrow> 'd world \<Rightarrow> 'd world \<Rightarrow> bool" where
  "world_advances api rows kc w w' = store_advances api rows kc (store w) (store w')"

lemma reflp_world_advances: "reflp (world_advances api rows kc)"
  by (simp add: reflp_def world_advances_def store_advances_refl)

lemma transp_world_advances: "transp (world_advances api rows kc)"
  unfolding transp_def world_advances_def using store_advances_trans by blast

lemma world_advances_refl [simp]: "world_advances api rows kc w w"
  using reflp_world_advances by (rule reflpD)

lemma world_advances_trans:
  "world_advances api rows kc w w' \<Longrightarrow> world_advances api rows kc w' w'' \<Longrightarrow> world_advances api rows kc w w''"
  using transp_world_advances by (rule transpD)

lemma merge_store_advances:
  assumes "lance_ok api rows kc" and "unique_rows kc (table_rows t)" and "ln_merge api d t (replay_merge_insert kc) = (r, d')"
  shows "store_advances api rows kc (Some d) (Some d')"
proof -
  note law = lance_ok_merge [OF assms(1) assms(2) [unfolded unique_rows_def] assms(3)]
  show ?thesis
  proof (cases "merge_effect rows kc t d d'")
    case True
    then show ?thesis
      using law merge_effect_states [OF True _ assms(2)] advances_newest by (auto simp: store_advances_def unique_store_def)
  next
    case False
    with law have m: "mset (rows d') = mset (rows d)" by blast
    show ?thesis
      using law unique_rows_mset [OF m] states_mset [OF m] by (auto simp: store_advances_def unique_store_def)
  qed
qed

section \<open>Interference\<close>

lemma others_act_advances:
  assumes "\<And>n s. store_advances api rows kc s (others n s)"
  shows "world_advances api rows kc w (others_act others w)"
  using assms by (simp add: world_advances_def others_act_def)

lemma lance_dataset_Inr: "lance_dataset api w = Inr d \<Longrightarrow> store w = Some d"
  by (auto simp: lance_dataset_def split: option.splits)

lemma open_or_create_advances:
  assumes "lance_ok api rows kc" and oth: "\<And>n s. store_advances api rows kc s (others n s)"
    and "open_or_create_replay_dataset api others schema m w = (r, w')"
  shows "world_advances api rows kc w w'" and "r = Inr d \<Longrightarrow> store w' = Some d"
proof -
  let ?w1 = "others_act others w" and ?w2 = "others_act others (others_act others w)"
  have a1: "world_advances api rows kc w ?w1" by (rule others_act_advances [OF oth])
  have a2: "world_advances api rows kc w ?w2" by (rule world_advances_trans [OF a1 others_act_advances [OF oth]])
  have c: "world_advances api rows kc ?w2 (?w2\<lparr> store := Some (ln_create api schema) \<rparr>)" if "store ?w2 = None"
    using that lance_ok_create(1) [OF assms(1), of schema]
    by (simp add: world_advances_def store_advances_def unique_store_def unique_rows_def)
  have a3: "world_advances api rows kc w (others_act others ?w2)"
    by (rule world_advances_trans [OF a2 others_act_advances [OF oth]])
  have "w' = w \<and> r \<noteq> Inr d \<or> w' = ?w1 \<and> (r = Inr d \<longrightarrow> lance_dataset api ?w1 = Inr d) \<or>
      w' = ?w2 \<and> (r = Inr d \<longrightarrow> lance_dataset api ?w2 = r) \<or>
      w' = others_act others ?w2 \<and> lance_dataset api (others_act others ?w2) = r \<or>
      store ?w2 = None \<and> w' = ?w2\<lparr> store := Some (ln_create api schema) \<rparr> \<and> r = Inr (ln_create api schema)" for d
    using assms(3) unfolding open_or_create_replay_dataset_def Let_def
    by (auto split: if_splits sum.splits option.splits)
  note cs = this
  show "world_advances api rows kc w w'"
    using cs [of undefined] a1 a2 a3 world_advances_trans [OF a2 c] by auto
  show "store w' = Some d" if "r = Inr d" using cs [of d] that by (auto dest: lance_dataset_Inr)
qed

lemma merge_attempt_advances:
  assumes "lance_ok api rows kc" and oth: "\<And>n s. store_advances api rows kc s (others n s)"
    and "unique_rows kc (table_rows t)"
  shows "world_advances api rows kc w (snd (merge_attempt api others t kc m incoming w))"
proof (cases "unique_store rows kc (store w)")
  case False
  then show ?thesis by (simp add: world_advances_def store_advances_def)
next
  case unique: True
  obtain r w1 where o: "open_or_create_replay_dataset api others (schema_of t) m w = (r, w1)" by force
  note a = open_or_create_advances [OF assms(1) oth o]
  show ?thesis
  proof (cases "\<exists>d. r = Inr d \<and> preflight api d t kc incoming = Inr True")
    case False
    then have "snd (merge_attempt api others t kc m incoming w) = w1"
      by (auto simp: merge_attempt_def o split: sum.split bool.split)
    with a(1) show ?thesis by simp
  next
    case True
    then obtain d where d: "r = Inr d" "preflight api d t kc incoming = Inr True" by blast
    let ?w2 = "others_act others w1"
    have a2: "world_advances api rows kc w ?w2" by (rule world_advances_trans [OF a(1) others_act_advances [OF oth]])
    have "world_advances api rows kc w1 ?w2" by (rule others_act_advances [OF oth])
    moreover have "unique_store rows kc (store w1)" using a(1) unique by (auto simp: world_advances_def store_advances_def)
    ultimately obtain d2 where d2: "store ?w2 = Some d2"
      using a(2) [OF d(1)] by (auto simp: world_advances_def store_advances_def split: option.splits)
    obtain q d' where q: "ln_merge api d2 t (replay_merge_insert kc) = (q, d')" by force
    have "snd (merge_attempt api others t kc m incoming w) = ?w2\<lparr> store := Some d' \<rparr>"
      using d d2 q by (simp add: merge_attempt_def o)
    moreover have "world_advances api rows kc ?w2 (?w2\<lparr> store := Some d' \<rparr>)"
      using merge_store_advances [OF assms(1,3) q] d2 by (simp add: world_advances_def)
    ultimately show ?thesis using world_advances_trans [OF a2] by simp
  qed
qed

lemma verify_reconciled_iff:
  "verify_reconciled_states stored incoming = Inr () \<longleftrightarrow>
     (\<forall>(k, s)\<in>set incoming. \<exists>s'. map_of stored k = Some s' \<and> (s' = s \<or> fst s < fst s'))"
  by (induction stored incoming rule: verify_reconciled_states.induct) (auto split: option.splits if_splits)

lemma expected_key_states_Inr:
  "expected_key_states t kc = Inr incoming \<longleftrightarrow>
     unique_rows kc (table_rows t) \<and> incoming = map (row_state kc) (table_rows t)"
  by (auto simp: expected_key_states_def rfold_add_stored unique_rows_def comp_def)

lemma replay_safe_merge_advances:
  assumes "lance_ok api rows kc" and oth: "\<And>n s. store_advances api rows kc s (others n s)"
  shows "world_advances api rows kc w (snd (replay_safe_merge api others t kc retries m w))"
proof (cases "rbind (validate_replay_table t kc) (\<lambda>_. expected_key_states t kc)")
  case (Inl e)
  then show ?thesis by (simp add: replay_safe_merge_def)
next
  case (Inr incoming)
  then have u: "unique_rows kc (table_rows t)" by (auto simp: rbind_Inr_iff expected_key_states_Inr)
  let ?loop = "commit_with_retries (merge_attempt api others t kc m incoming) retries id (\<lambda>_. others_act others) w"
  have a: "world_advances api rows kc w (snd ?loop)"
    by (rule commit_with_retries_relation [OF reflp_world_advances transp_world_advances])
      (use merge_attempt_advances [OF assms u] others_act_advances [OF oth] in auto)
  have "world_advances api rows kc w (others_act others (snd ?loop))"
    by (rule world_advances_trans [OF a others_act_advances [OF oth]])
  with a Inr show ?thesis
    by (auto simp: replay_safe_merge_def Let_def split: sum.split prod.split)
qed

lemma replay_merge_never_regresses_parts:
  assumes "lance_ok api rows kc" and "\<And>n s. store_advances api rows kc s (others n s)"
    and "unique_store rows kc (store w)"
    and "replay_safe_merge api others t kc conflict_retries max_rows_per_file w = (r, w')"
  shows "unique_store rows kc (store w')"
    and "store w = Some d \<Longrightarrow> \<exists>d'. store w' = Some d' \<and> advances (states kc (rows d)) (states kc (rows d'))"
    and "r = Inr res \<Longrightarrow> \<exists>d'. store w' = Some d' \<and> advances (states kc (table_rows t)) (states kc (rows d'))"
proof -
  have a: "store_advances api rows kc (store w) (store w')"
    using replay_safe_merge_advances [of api rows kc others w t conflict_retries max_rows_per_file] assms(1,2,4)
    by (simp add: world_advances_def)
  then show u: "unique_store rows kc (store w')" using assms(3) by (simp add: store_advances_def)
  show "\<exists>d'. store w' = Some d' \<and> advances (states kc (rows d)) (states kc (rows d'))" if "store w = Some d"
    using a assms(3) that by (auto simp: store_advances_def split: option.splits)
  assume r: "r = Inr res"
  with assms(4) obtain incoming w1 d where i: "expected_key_states t kc = Inr incoming"
      "w' = others_act others w1" "lance_dataset api w' = Inr d"
      "raised (rbind (load_key_states (ln_scan api d kc) (map fst incoming)) (\<lambda>stored.
          rbind (verify_reconciled_states stored incoming) (\<lambda>_.
          Inr \<lparr> mr_rows = num_rows t,
            mr_tombstones = length (filter (\<lambda>r. cell_of r DELETED_COLUMN = Some (CBool True)) (table_rows t)),
            mr_version = ln_version api d \<rparr>))) = Inr res"
    unfolding replay_safe_merge_def Let_def by (auto simp: rbind_Inr_iff split: sum.splits prod.splits)
  from i(1) have inc: "unique_rows kc (table_rows t)" "incoming = map (row_state kc) (table_rows t)"
    by (auto simp: expected_key_states_Inr)
  have keys: "distinct (map fst incoming)" using inc by (simp add: unique_rows_def comp_def)
  have d: "store w' = Some d" using i(3) by (rule lance_dataset_Inr)
  with u have ud: "unique_rows kc (rows d)" by (simp add: unique_store_def)
  obtain st where st: "load_key_states (ln_scan api d kc) (map fst incoming) = Inr st"
      "\<And>k. map_of st k = (if k \<in> set (map fst incoming) then states kc (rows d) k else None)"
    by (rule load_key_states_ok [OF assms(1) keys ud]) blast
  from i(4) st(1) have "verify_reconciled_states st incoming = Inr ()"
    by (auto simp: raised_def rbind_Inr_iff split: sum.splits)
  then have "\<exists>s'. states kc (rows d) k = Some s' \<and> (s' = s \<or> fst s < fst s')" if "(k, s) \<in> set incoming" for k s
    using that st(2) unfolding verify_reconciled_iff by (fastforce split: if_splits)
  then have "advances (states kc (table_rows t)) (states kc (rows d))"
    unfolding advances_def states_Some [OF inc(1)] inc(2) by simp
  with d show "\<exists>d'. store w' = Some d' \<and> advances (states kc (table_rows t)) (states kc (rows d'))" by blast
qed

text \<open>
  C19. The replay-safe merge is safe under interference: whatever other clients that only move the dataset
  forward do in between, and whether the call returns or raises, the dataset keeps one row per key and no
  stored key loses its mutation to an older one or to a different one of the same source sequence; when
  it returns, every incoming mutation is stored or superseded by a newer one.
\<close>

theorem replay_merge_never_regresses:
  assumes "lance_ok api rows kc" and "\<And>n s. store_advances api rows kc s (others n s)"
    and "unique_store rows kc (store w)"
    and "replay_safe_merge api others t kc conflict_retries max_rows_per_file w = (r, w')"
  shows "unique_store rows kc (store w') \<and>
    (\<forall>d. store w = Some d \<longrightarrow> (\<exists>d'. store w' = Some d' \<and> advances (states kc (rows d)) (states kc (rows d')))) \<and>
    (\<forall>res. r = Inr res \<longrightarrow> (\<exists>d'. store w' = Some d' \<and> advances (states kc (table_rows t)) (states kc (rows d'))))"
  using replay_merge_never_regresses_parts [OF assms] by blast

end
