(* ===== verification/Replay_Convergence.thy ===== *)
theory Replay_Convergence
  imports Replay_Properties
begin

text \<open>
  The effect of the replay-safe merge on a dataset no one else writes to, and the convergence of repeated
  and reordered merges. \<open>lance_quiet\<close> says that opening a dataset and merging into it do not fail.
\<close>

section \<open>One merge\<close>

definition lance_quiet :: "'d lance \<Rightarrow> string \<Rightarrow> bool" where
  "lance_quiet api kc \<longleftrightarrow> (\<forall>n. ln_open_error api n = None) \<and> (\<forall>n. ln_create_error api n = None) \<and>
     (\<forall>d t. fst (ln_merge api d t (replay_merge_insert kc)) = Inr ())"

abbreviation alone :: "nat \<Rightarrow> 'd option \<Rightarrow> 'd option" where
  "alone \<equiv> \<lambda>_ s. s"

definition store_states :: "('d \<Rightarrow> arrow_row list) \<Rightarrow> string \<Rightarrow> 'd option \<Rightarrow> string \<Rightarrow> key_state option" where
  "store_states rows kc s = (case s of None \<Rightarrow> (\<lambda>_. None) | Some d \<Rightarrow> states kc (rows d))"

definition schema_matches :: "'d lance \<Rightarrow> schema \<Rightarrow> 'd option \<Rightarrow> bool" where
  "schema_matches api schema s = (case s of None \<Rightarrow> True | Some d \<Rightarrow> ln_schema api d = schema)"

definition compatible :: "(string \<Rightarrow> key_state option) \<Rightarrow> (string \<Rightarrow> key_state option) \<Rightarrow> bool" where
  "compatible m n \<longleftrightarrow> (\<forall>k a b. m k = Some a \<longrightarrow> n k = Some b \<longrightarrow> fst a = fst b \<longrightarrow> snd a = snd b)"

lemma detect_iff:
  "detect_same_sequence_conflicts existing incoming =
     (if \<forall>(k, b)\<in>set incoming. \<forall>a. map_of existing k = Some a \<longrightarrow> fst a = fst b \<longrightarrow> snd a = snd b
      then Inr () else Inl ReplayConflict)"
  by (induction existing incoming rule: detect_same_sequence_conflicts.induct) (auto split: option.split)

lemma open_alone:
  assumes "lance_quiet api kc" and "1 \<le> m"
  shows "open_or_create_replay_dataset api alone schema m w =
    (case store w of
       Some d \<Rightarrow> (Inr d, w\<lparr> clock := Suc (clock w) \<rparr>)
     | None \<Rightarrow> (Inr (ln_create api schema), \<lparr> clock = clock w + 2, store = Some (ln_create api schema) \<rparr>))"
  using assms
  by (cases w) (auto simp: open_or_create_replay_dataset_def lance_dataset_def others_act_def lance_quiet_def
      dataset_absent_def is_value_error_def DATASET_NOT_FOUND_MARKER_def split: option.split)

definition nothing_newer :: "(string \<Rightarrow> key_state option) \<Rightarrow> (string \<Rightarrow> key_state option) \<Rightarrow> bool" where
  "nothing_newer m n \<longleftrightarrow> (\<forall>k b. n k = Some b \<longrightarrow> (\<exists>a. m k = Some a \<and> \<not> fst a < fst b))"

lemma newest_noop:
  assumes "nothing_newer m n"
  shows "newest m n = m"
proof
  fix k show "newest m n k = m k"
    by (cases "n k"; cases "m k") (use assms [unfolded nothing_newer_def, THEN spec, of k] in \<open>auto simp: newest_def\<close>)
qed

lemma newest_ge: "m k = Some s \<or> n k = Some s \<Longrightarrow> \<exists>s'. newest m n k = Some s' \<and> fst s \<le> fst s'"
  by (cases "m k"; cases "n k") (auto simp: newest_def simp del: split_paired_Ex)

lemma preflight_alone:
  assumes "lance_ok api rows kc" and "unique_rows kc (rows d)" and "ln_schema api d = schema_of t"
    and "unique_rows kc (table_rows t)"
  shows "preflight api d t kc (map (row_state kc) (table_rows t)) =
      (if compatible (states kc (rows d)) (states kc (table_rows t))
       then Inr (\<not> nothing_newer (states kc (rows d)) (states kc (table_rows t)))
       else Inl ReplayConflict)"
proof -
  let ?inc = "map (row_state kc) (table_rows t)"
  have keys: "distinct (map fst ?inc)" using assms(4) by (simp add: unique_rows_def comp_def)
  obtain st where st: "load_key_states (ln_scan api d kc) (map fst ?inc) = Inr st"
      "\<And>k. map_of st k = (if k \<in> set (map fst ?inc) then states kc (rows d) k else None)"
    by (rule load_key_states_ok [OF assms(1) keys assms(2)]) blast
  have inc: "(k, b) \<in> set ?inc \<longleftrightarrow> states kc (table_rows t) k = Some b" for k b
    unfolding states_Some [OF assms(4)] by simp
  have mem: "map_of st k = states kc (rows d) k" if "(k, b) \<in> set ?inc" for k b
    using st(2) [of k] that by (metis fst_conv image_eqI set_map)
  have "(\<forall>(k, b)\<in>set ?inc. \<forall>a. map_of st k = Some a \<longrightarrow> fst a = fst b \<longrightarrow> snd a = snd b) \<longleftrightarrow>
      (\<forall>k b. (k, b) \<in> set ?inc \<longrightarrow> (\<forall>a. map_of st k = Some a \<longrightarrow> fst a = fst b \<longrightarrow> snd a = snd b))"
    by (simp only: Ball_def split_paired_All prod.case)
  also have "\<dots> \<longleftrightarrow> (\<forall>k b. (k, b) \<in> set ?inc \<longrightarrow> (\<forall>a. states kc (rows d) k = Some a \<longrightarrow> fst a = fst b \<longrightarrow> snd a = snd b))"
    using mem by metis
  also have "\<dots> \<longleftrightarrow> compatible (states kc (rows d)) (states kc (table_rows t))"
    unfolding compatible_def inc by blast
  finally have "(\<forall>(k, b)\<in>set ?inc. \<forall>a. map_of st k = Some a \<longrightarrow> fst a = fst b \<longrightarrow> snd a = snd b) \<longleftrightarrow>
      compatible (states kc (rows d)) (states kc (table_rows t))" .
  then have detect: "detect_same_sequence_conflicts st ?inc =
      (if compatible (states kc (rows d)) (states kc (table_rows t)) then Inr () else Inl ReplayConflict)"
    unfolding detect_iff by simp
  have "requires_replay_merge st ?inc \<longleftrightarrow>
      (\<exists>k b. (k, b) \<in> set ?inc \<and> \<not> (\<exists>a. map_of st k = Some a \<and> \<not> fst a < fst b))"
  proof -
    have "(case o' of None \<Rightarrow> True | Some stored \<Rightarrow> fst stored < fst b) \<longleftrightarrow> \<not> (\<exists>a. o' = Some a \<and> \<not> fst a < fst b)"
      for o' :: "key_state option" and b :: key_state by (cases o') auto
    then show ?thesis
      unfolding requires_replay_merge_def list_ex_iff by (simp only: Bex_def split_paired_Ex prod.case)
  qed
  also have "\<dots> \<longleftrightarrow> \<not> nothing_newer (states kc (rows d)) (states kc (table_rows t))"
    unfolding nothing_newer_def using mem inc by metis
  finally show ?thesis
    unfolding preflight_def ensure_fixed_schema_def using assms(3) st(1) detect by simp
qed

lemma verify_alone:
  assumes "lance_ok api rows kc" and "unique_rows kc (rows d)" and "unique_rows kc (table_rows t)"
    and "advances (states kc (table_rows t)) (states kc (rows d))"
  obtains st where "load_key_states (ln_scan api d kc) (map fst (map (row_state kc) (table_rows t))) = Inr st"
    and "verify_reconciled_states st (map (row_state kc) (table_rows t)) = Inr ()"
proof -
  let ?inc = "map (row_state kc) (table_rows t)"
  have keys: "distinct (map fst ?inc)" using assms(3) by (simp add: unique_rows_def comp_def)
  obtain st where st: "load_key_states (ln_scan api d kc) (map fst ?inc) = Inr st"
      "\<And>k. map_of st k = (if k \<in> set (map fst ?inc) then states kc (rows d) k else None)"
    by (rule load_key_states_ok [OF assms(1) keys assms(2)]) blast
  have "\<exists>s'. map_of st k = Some s' \<and> (s' = s \<or> fst s < fst s')" if "(k, s) \<in> set ?inc" for k s
  proof -
    have "states kc (table_rows t) k = Some s" unfolding states_Some [OF assms(3)] using that by simp
    moreover have "k \<in> set (map fst ?inc)" using that by (metis fst_conv image_eqI set_map)
    ultimately show ?thesis using assms(4) st(2) [of k] unfolding advances_def by metis
  qed
  then have "verify_reconciled_states st ?inc = Inr ()" unfolding verify_reconciled_iff by blast
  with st(1) show thesis by (rule that)
qed

lemma advances_newest_right: "compatible m n \<Longrightarrow> advances n (newest m n)"
  unfolding advances_def newest_def compatible_def
  by (auto split: option.split)

lemma merge_attempt_alone:
  assumes ok: "lance_ok api rows kc" and quiet: "lance_quiet api kc" and table: "unique_rows kc (table_rows t)"
    and "1 \<le> m" and w: "unique_store rows kc (store w)" "schema_matches api (schema_of t) (store w)"
    and comp: "compatible (store_states rows kc (store w)) (states kc (table_rows t))"
  obtains n d where "merge_attempt api alone t kc m (map (row_state kc) (table_rows t)) w = (Inr (), \<lparr> clock = n, store = Some d \<rparr>)"
    and "unique_rows kc (rows d)" and "ln_schema api d = schema_of t"
    and "states kc (rows d) = newest (store_states rows kc (store w)) (states kc (table_rows t))"
proof -
  let ?inc = "map (row_state kc) (table_rows t)" and ?m = "store_states rows kc (store w)" and ?n = "states kc (table_rows t)"
  obtain c d0 where o: "open_or_create_replay_dataset api alone (schema_of t) m w = (Inr d0, \<lparr> clock = c, store = Some d0 \<rparr>)"
      and d0: "unique_rows kc (rows d0)" "ln_schema api d0 = schema_of t" "states kc (rows d0) = ?m"
  proof (cases "store w")
    case None
    then show thesis
      using that open_alone [OF quiet assms(4)] lance_ok_create [OF ok, of "schema_of t"]
      by (simp add: unique_rows_def states_def store_states_def)
  next
    case (Some d)
    then show thesis
      using that w open_alone [OF quiet assms(4), of "schema_of t" w]
      by (cases w) (simp add: unique_store_def schema_matches_def store_states_def)
  qed
  note pre = preflight_alone [OF ok d0(1,2) table]
  show thesis
  proof (cases "nothing_newer ?m ?n")
    case True
    have "newest ?m ?n = ?m" by (rule newest_noop [OF True])
    moreover have "preflight api d0 t kc ?inc = Inr False" using pre comp True unfolding d0(3) by simp
    ultimately show thesis using that [of c d0] d0 by (simp add: merge_attempt_def o)
  next
    case False
    have p: "preflight api d0 t kc ?inc = Inr True" using pre comp False unfolding d0(3) by simp
    obtain d where d: "ln_merge api d0 t (replay_merge_insert kc) = (Inr (), d)"
      using quiet unfolding lance_quiet_def by (metis prod.collapse)
    note law = lance_ok_merge [OF ok table [unfolded unique_rows_def] d]
    then have "merge_effect rows kc t d0 d" by blast
    note st = merge_effect_states [OF this d0(1) table]
    show thesis
      using that [of "Suc c" d] law p d d0 st by (simp add: merge_attempt_def o others_act_def)
  qed
qed

lemma replay_safe_merge_alone:
  assumes ok: "lance_ok api rows kc" and quiet: "lance_quiet api kc"
    and table: "validate_replay_table t kc = Inr ps" "unique_rows kc (table_rows t)"
    and bounds: "1 \<le> m" "0 \<le> retries"
    and w: "unique_store rows kc (store w)" "schema_matches api (schema_of t) (store w)"
    and comp: "compatible (store_states rows kc (store w)) (states kc (table_rows t))"
  obtains n d where "replay_safe_merge api alone t kc retries m w =
        (Inr \<lparr> mr_rows = num_rows t,
           mr_tombstones = length (filter (\<lambda>r. cell_of r DELETED_COLUMN = Some (CBool True)) (table_rows t)),
           mr_version = ln_version api d \<rparr>, \<lparr> clock = n, store = Some d \<rparr>)"
    and "unique_rows kc (rows d)" and "ln_schema api d = schema_of t"
    and "states kc (rows d) = newest (store_states rows kc (store w)) (states kc (table_rows t))"
proof -
  let ?inc = "map (row_state kc) (table_rows t)"
  obtain n d where a: "merge_attempt api alone t kc m ?inc w = (Inr (), \<lparr> clock = n, store = Some d \<rparr>)"
      and d: "unique_rows kc (rows d)" "ln_schema api d = schema_of t"
        "states kc (rows d) = newest (store_states rows kc (store w)) (states kc (table_rows t))"
    by (rule merge_attempt_alone [OF ok quiet table(2) bounds(1) w comp]) blast
  have c: "commit_with_retries (merge_attempt api alone t kc m ?inc) retries id (\<lambda>_. others_act alone) w =
      (Inr (), \<lparr> clock = n, store = Some d \<rparr>)"
  proof (rule commit_with_retries_first)
    show "merge_attempt api alone t kc m ?inc w = (Inr (), \<lparr> clock = n, store = Some d \<rparr>)" by (rule a)
  qed (use bounds(2) in simp_all)
  have "advances (states kc (table_rows t)) (states kc (rows d))" unfolding d(3) by (rule advances_newest_right [OF comp])
  then obtain st where "load_key_states (ln_scan api d kc) (map fst ?inc) = Inr st" "verify_reconciled_states st ?inc = Inr ()"
    by (rule verify_alone [OF ok d(1) table(2)])
  moreover have "rbind (validate_replay_table t kc) (\<lambda>_. expected_key_states t kc) = Inr ?inc"
    using table by (simp add: expected_key_states_Inr)
  ultimately show thesis
    using that [of d "Suc n"] d quiet c
    by (simp add: replay_safe_merge_def others_act_def lance_dataset_def lance_quiet_def raised_def)
qed

section \<open>Convergence\<close>

definition merge_all ::
    "'d lance \<Rightarrow> string \<Rightarrow> int \<Rightarrow> int \<Rightarrow> arrow_table list \<Rightarrow> 'd world \<Rightarrow> 'd world" where
  "merge_all api kc retries m ts w = fold (\<lambda>t w. snd (replay_safe_merge api alone t kc retries m w)) ts w"

definition candidates :: "(string \<Rightarrow> key_state option) \<Rightarrow> string \<Rightarrow> arrow_table list \<Rightarrow> string \<Rightarrow> key_state set" where
  "candidates m kc ts k = {s. m k = Some s} \<union> {s. \<exists>t\<in>set ts. states kc (table_rows t) k = Some s}"

definition is_newest :: "key_state set \<Rightarrow> key_state option \<Rightarrow> bool" where
  "is_newest C r = (case r of None \<Rightarrow> C = {} | Some s \<Rightarrow> s \<in> C \<and> (\<forall>s'\<in>C. fst s' \<le> fst s))"

text \<open>No key has two different mutations of the same source sequence.\<close>

definition unambiguous :: "(string \<Rightarrow> key_state option) \<Rightarrow> string \<Rightarrow> arrow_table list \<Rightarrow> bool" where
  "unambiguous m kc ts \<longleftrightarrow> (\<forall>k. inj_on fst (candidates m kc ts k))"

lemma is_newest_unique: "inj_on fst C \<Longrightarrow> is_newest C r \<Longrightarrow> is_newest C r' \<Longrightarrow> r = r'"
  unfolding is_newest_def by (cases r; cases r') (auto dest: inj_onD order_antisym)

lemma is_newest_mono:
  assumes "is_newest C r" and "C \<subseteq> D" and "\<And>s. s \<in> D \<Longrightarrow> \<exists>s'\<in>C. fst s \<le> fst s'"
  shows "is_newest D r"
proof (cases r)
  case None
  then show ?thesis using assms by (auto simp: is_newest_def)
next
  case (Some a)
  then have "fst s \<le> fst a" if "s \<in> D" for s using assms(1,3) that by (fastforce simp: is_newest_def)
  then show ?thesis using Some assms(1,2) by (auto simp: is_newest_def)
qed

definition mergeable :: "string \<Rightarrow> schema \<Rightarrow> arrow_table \<Rightarrow> bool" where
  "mergeable kc schema t \<longleftrightarrow>
     (\<exists>ps. validate_replay_table t kc = Inr ps) \<and> unique_rows kc (table_rows t) \<and> schema_of t = schema"

lemma merge_all_newest:
  assumes ok: "lance_ok api rows kc" and quiet: "lance_quiet api kc" and bounds: "1 \<le> m" "0 \<le> retries"
    and "unique_store rows kc (store w)" and "schema_matches api schema (store w)"
    and "list_all (mergeable kc schema) ts" and "unambiguous (store_states rows kc (store w)) kc ts"
  shows "is_newest (candidates (store_states rows kc (store w)) kc ts k)
      (store_states rows kc (store (merge_all api kc retries m ts w)) k)"
  using assms(5-8)
proof (induction ts arbitrary: w)
  case Nil
  show ?case by (cases "store_states rows kc (store w) k") (auto simp: merge_all_def candidates_def is_newest_def)
next
  case (Cons t ts)
  let ?m = "store_states rows kc (store w)" and ?n = "states kc (table_rows t)"
  from Cons.prems(3) obtain ps where t: "validate_replay_table t kc = Inr ps" "unique_rows kc (table_rows t)" "schema_of t = schema"
    by (auto simp: mergeable_def)
  have comp: "compatible ?m ?n"
    unfolding compatible_def
  proof (intro allI impI)
    fix k a b assume "?m k = Some a" "?n k = Some b" "fst a = fst b"
    moreover have "a \<in> candidates ?m kc (t # ts) k" "b \<in> candidates ?m kc (t # ts) k" using calculation by (auto simp: candidates_def)
    ultimately have "a = b" using Cons.prems(4) unfolding unambiguous_def by (meson inj_onD)
    then show "snd a = snd b" by simp
  qed
  obtain n d where s: "snd (replay_safe_merge api alone t kc retries m w) = \<lparr> clock = n, store = Some d \<rparr>"
      and d: "unique_rows kc (rows d)" "ln_schema api d = schema" "states kc (rows d) = newest ?m ?n"
    by (rule replay_safe_merge_alone [OF ok quiet t(1,2) bounds Cons.prems(1) _ comp]) (use Cons.prems(2) t(3) in simp_all)
  let ?w = "\<lparr> clock = n, store = Some d \<rparr>"
  have new: "store_states rows kc (store ?w) = newest ?m ?n" using d(3) by (simp add: store_states_def)
  have sub: "candidates (newest ?m ?n) kc ts k \<subseteq> candidates ?m kc (t # ts) k" for k
    by (auto simp: candidates_def newest_def split: option.splits if_splits)
  have un: "unambiguous (newest ?m ?n) kc ts"
    using Cons.prems(4) sub unfolding unambiguous_def by (meson inj_on_subset)
  have IH: "is_newest (candidates (newest ?m ?n) kc ts k) (store_states rows kc (store (merge_all api kc retries m ts ?w)) k)"
    using Cons.IH [of ?w] d(1,2) un Cons.prems(3) new by (simp add: unique_store_def schema_matches_def)
  have m: "merge_all api kc retries m (t # ts) w = merge_all api kc retries m ts ?w" using s by (simp add: merge_all_def)
  have "is_newest (candidates ?m kc (t # ts) k) r" if "is_newest (candidates (newest ?m ?n) kc ts k) r" for r
  proof (rule is_newest_mono [OF that sub [of k]])
    fix s assume "s \<in> candidates ?m kc (t # ts) k"
    then consider "?m k = Some s \<or> ?n k = Some s" | "s \<in> candidates (newest ?m ?n) kc ts k" by (auto simp: candidates_def)
    then show "\<exists>s'\<in>candidates (newest ?m ?n) kc ts k. fst s \<le> fst s'"
    proof cases
      case 1
      from newest_ge [of ?m k s ?n, OF this] show ?thesis by (auto simp: candidates_def)
    qed blast
  qed
  with IH show ?case unfolding m by blast
qed

lemma replay_merges_converge_parts:
  assumes "lance_ok api rows kc" and "lance_quiet api kc"
    and "1 \<le> max_rows_per_file" and "0 \<le> conflict_retries"
    and "unique_store rows kc (store w)" and "schema_matches api schema (store w)"
    and "list_all (mergeable kc schema) ts" and "unambiguous (store_states rows kc (store w)) kc ts"
  shows "is_newest (candidates (store_states rows kc (store w)) kc ts k)
      (store_states rows kc (store (merge_all api kc conflict_retries max_rows_per_file ts w)) k)"
    and "set ts' = set ts \<Longrightarrow>
      store_states rows kc (store (merge_all api kc conflict_retries max_rows_per_file ts' w)) =
      store_states rows kc (store (merge_all api kc conflict_retries max_rows_per_file ts w))"
proof -
  show n: "is_newest (candidates (store_states rows kc (store w)) kc ts k)
      (store_states rows kc (store (merge_all api kc conflict_retries max_rows_per_file ts w)) k)" for k
    by (rule merge_all_newest) (use assms in auto)
  assume set: "set ts' = set ts"
  then have c: "candidates m kc ts' = candidates m kc ts" for m by (auto simp: candidates_def fun_eq_iff)
  have "is_newest (candidates (store_states rows kc (store w)) kc ts' k)
      (store_states rows kc (store (merge_all api kc conflict_retries max_rows_per_file ts' w)) k)" for k
    by (rule merge_all_newest) (use assms set in \<open>auto simp: unambiguous_def c list_all_iff\<close>)
  then show "store_states rows kc (store (merge_all api kc conflict_retries max_rows_per_file ts' w)) =
      store_states rows kc (store (merge_all api kc conflict_retries max_rows_per_file ts w))"
    using n assms(8) unfolding c unambiguous_def by (intro ext) (metis is_newest_unique)
qed

text \<open>
  C20. Replays converge: with Lance's documented merge, no other writer and no two different mutations of
  one key at one source sequence, merging tables one after the other leaves every key with the newest of
  all mutations that were stored or presented, whatever their order; so two lists with the same tables,
  in any order and with any repetitions, leave the same mutation for every key.
\<close>

theorem replay_merges_converge:
  assumes "lance_ok api rows kc" and "lance_quiet api kc"
    and "1 \<le> max_rows_per_file" and "0 \<le> conflict_retries"
    and "unique_store rows kc (store w)" and "schema_matches api schema (store w)"
    and "list_all (mergeable kc schema) ts" and "unambiguous (store_states rows kc (store w)) kc ts"
    and "set ts' = set ts"
  shows "(\<forall>k. is_newest (candidates (store_states rows kc (store w)) kc ts k)
        (store_states rows kc (store (merge_all api kc conflict_retries max_rows_per_file ts w)) k)) \<and>
      store_states rows kc (store (merge_all api kc conflict_retries max_rows_per_file ts' w)) =
      store_states rows kc (store (merge_all api kc conflict_retries max_rows_per_file ts w))"
  using replay_merges_converge_parts [OF assms(1-8)] assms(9) by blast

end
