(* ===== verification/Replay_Scenario.thy ===== *)
theory Replay_Scenario
  imports Replay_Convergence
begin

text \<open>
  A concrete dataset (its schema, its rows and its version) with the documented operations, on which the
  properties of the replay-safe merge are exercised; and the partition of a table into chunks.
\<close>

section \<open>A dataset in memory\<close>

type_synonym memory = "schema \<times> arrow_row list \<times> int"

text \<open>The merge reads its builder: an update only where the one condition it understands holds.\<close>

definition memory_condition :: "string option \<Rightarrow> arrow_row \<Rightarrow> arrow_row \<Rightarrow> bool" where
  "memory_condition c target source =
     (case c of
        None \<Rightarrow> True
      | Some t \<Rightarrow> t = ''target.lance_etl_source_sequence < source.lance_etl_source_sequence'' \<and>
          int_at ''lance_etl_source_sequence'' target < int_at ''lance_etl_source_sequence'' source)"

definition memory_merge :: "merge_builder \<Rightarrow> arrow_row list \<Rightarrow> arrow_row list \<Rightarrow> arrow_row list" where
  "memory_merge b stored incoming =
     (let key = (\<lambda>r. map (\<lambda>c. text_at c r) (mb_on b)) in
      map (\<lambda>r. case find (\<lambda>s. key s = key r) incoming of
                 Some s \<Rightarrow> if memory_condition (mb_update_condition b) r s then s else r
               | None \<Rightarrow> r) stored
      @ (if mb_insert_unmatched b then filter (\<lambda>s. key s \<notin> key ` set stored) incoming else []))"

lemma memory_merge_rows:
  assumes "mb_on b = [kc]" and "mb_insert_unmatched b"
    and "mb_update_condition b = Some ''target.lance_etl_source_sequence < source.lance_etl_source_sequence''"
  shows "memory_merge b stored incoming = merge_rows kc stored incoming"
  using assms by (auto simp: memory_merge_def merge_rows_def memory_condition_def SOURCE_SEQUENCE_COLUMN_def image_iff
      cong: option.case_cong)

definition memory_lance :: "memory lance" where
  "memory_lance = \<lparr>
     ln_schema = fst,
     ln_version = (\<lambda>d. snd (snd d)),
     ln_scan = (\<lambda>d kc keys. map (row_state kc) (filter (\<lambda>r. text_at kc r \<in> set keys) (fst (snd d)))),
     ln_create = (\<lambda>s. (s, [], 1)),
     ln_merge = (\<lambda>d t b. (Inr (), fst d, memory_merge b (fst (snd d)) (table_rows t), snd (snd d) + 1)),
     ln_open_error = (\<lambda>_. None), ln_create_error = (\<lambda>_. None) \<rparr>"

abbreviation memory_rows :: "memory \<Rightarrow> arrow_row list" where
  "memory_rows d \<equiv> fst (snd d)"

lemma memory_lance_ok: "lance_ok memory_lance memory_rows kc"
  by (simp add: lance_ok_def memory_lance_def merge_effect_def memory_merge_rows)

lemma memory_lance_quiet: "lance_quiet memory_lance kc"
  by (simp add: lance_quiet_def memory_lance_def)

definition demo_table :: "(string \<times> int \<times> bool) list \<Rightarrow> arrow_table" where
  "demo_table rs = \<lparr> num_rows = length rs, columns =
     [\<lparr> col_name = ''record_id'', col_type = A_string, col_cells = map (\<lambda>r. Some (CText (fst r))) rs \<rparr>,
      \<lparr> col_name = ''lance_etl_window_seq'', col_type = A_int64, col_cells = map (\<lambda>r. Some (CInt 1)) rs \<rparr>,
      \<lparr> col_name = ''lance_etl_source_sequence'', col_type = A_int64, col_cells = map (\<lambda>r. Some (CInt (fst (snd r)))) rs \<rparr>,
      \<lparr> col_name = ''lance_etl_event_digest'', col_type = A_binary 32, col_cells = map (\<lambda>r. Some (CBytes (replicate 32 (of_int (fst (snd r)))))) rs \<rparr>,
      \<lparr> col_name = ''is_deleted'', col_type = A_bool, col_cells = map (\<lambda>r. Some (CBool (snd (snd r)))) rs \<rparr>,
      \<lparr> col_name = ''text'', col_type = A_other ''string'', col_cells = map (\<lambda>r. if snd (snd r) then None else Some (COther (fst r))) rs \<rparr>] \<rparr>"

definition first_table :: arrow_table where
  "first_table = demo_table [(''a'', 7, False), (''b'', 7, False)]"

definition second_table :: arrow_table where
  "second_table = demo_table [(''b'', 9, True)]"

definition demo_schema :: schema where
  "demo_schema = schema_of first_table"

lemma first_table_valid: "(case validate_replay_table first_table ''record_id'' of Inl _ \<Rightarrow> False | Inr _ \<Rightarrow> True)"
  by code_simp

lemma second_table_valid: "(case validate_replay_table second_table ''record_id'' of Inl _ \<Rightarrow> False | Inr _ \<Rightarrow> True)"
  by code_simp

lemma demo_unique: "unique_rows ''record_id'' (table_rows first_table)" "unique_rows ''record_id'' (table_rows second_table)"
  by code_simp+

lemma second_schema: "schema_of second_table = schema_of first_table"
  by code_simp

lemma demo_mergeable: "mergeable ''record_id'' demo_schema first_table" "mergeable ''record_id'' demo_schema second_table"
  using first_table_valid second_table_valid demo_unique second_schema
  by (auto simp: mergeable_def demo_schema_def split: sum.splits)

definition demo_world :: "memory world" where
  "demo_world = \<lparr> clock = 0, store = None \<rparr>"

lemma demo_table_rows:
  "map (row_state ''record_id'') (table_rows first_table) = [(''a'', 7, replicate 32 7), (''b'', 7, replicate 32 7)]"
  "map (row_state ''record_id'') (table_rows second_table) = [(''b'', 9, replicate 32 9)]"
  by code_simp+

lemma demo_unambiguous: "unambiguous (store_states memory_rows ''record_id'' (store demo_world)) ''record_id'' [second_table, first_table]"
  unfolding unambiguous_def candidates_def states_def
  by (auto simp: demo_table_rows inj_on_def store_states_def demo_world_def split: if_splits)

theorem replay_merges_converge_witness:
  "store_states memory_rows ''record_id''
     (store (merge_all memory_lance ''record_id'' 10 1048576 [first_table, second_table, first_table] demo_world)) =
   store_states memory_rows ''record_id'' (store (merge_all memory_lance ''record_id'' 10 1048576 [second_table, first_table] demo_world)) \<and>
   (\<exists>s. store_states memory_rows ''record_id''
     (store (merge_all memory_lance ''record_id'' 10 1048576 [second_table, first_table] demo_world)) ''b'' = Some s \<and> fst s = 9)"
proof -
  have hyps: "1 \<le> (1048576 :: int)" "0 \<le> (10 :: int)"
      "unique_store memory_rows ''record_id'' (store demo_world)" "schema_matches memory_lance demo_schema (store demo_world)"
      "list_all (mergeable ''record_id'' demo_schema) [second_table, first_table]"
    using demo_mergeable by (simp_all add: unique_store_def schema_matches_def demo_world_def)
  have "set [first_table, second_table, first_table] = set [second_table, first_table]" by auto
  note converge = replay_merges_converge [OF memory_lance_ok memory_lance_quiet hyps demo_unambiguous this]
  have "candidates (store_states memory_rows ''record_id'' (store demo_world)) ''record_id'' [second_table, first_table] ''b'' =
      {(9, replicate 32 9), (7, replicate 32 7)}"
    unfolding candidates_def states_def by (auto simp: demo_table_rows store_states_def demo_world_def)
  with converge [THEN conjunct1, THEN spec, of "''b''"] have "\<exists>s. store_states memory_rows ''record_id''
     (store (merge_all memory_lance ''record_id'' 10 1048576 [second_table, first_table] demo_world)) ''b'' = Some s \<and> fst s = 9"
    by (auto simp: is_newest_def split: option.splits)
  with converge show ?thesis by blast
qed

theorem replay_merge_never_regresses_witness:
  "\<exists>r w'. replay_safe_merge memory_lance alone second_table ''record_id'' 10 1048576 demo_world = (r, w') \<and>
     unique_store memory_rows ''record_id'' (store w')"
proof -
  obtain r w' where e: "replay_safe_merge memory_lance alone second_table ''record_id'' 10 1048576 demo_world = (r, w')" by force
  have u: "unique_store memory_rows ''record_id'' (store demo_world)" by (simp add: demo_world_def unique_store_def)
  from replay_merge_never_regresses [OF memory_lance_ok store_advances_refl u e] e show ?thesis by blast
qed

section \<open>Chunks\<close>

lemma chunk_loop_partition:
  assumes "1 \<le> max_rows" and "offset \<le> n"
  shows "concat (map (\<lambda>(o', l). [o'..o' + l - 1]) (chunk_loop n nbytes scale max_rows max_bytes offset)) = [offset..n - 1] \<and>
    list_all (\<lambda>(o', l). 1 \<le> l \<and> l \<le> max_rows \<and> (nbytes o' l \<le> max_bytes \<or> l = 1)) (chunk_loop n nbytes scale max_rows max_bytes offset)"
  using assms
proof (induction n nbytes scale max_rows max_bytes offset rule: chunk_loop.induct)
  case (1 n nbytes scale max_rows max_bytes offset)
  show ?case
  proof (cases "offset < n")
    case False
    then show ?thesis using "1.prems" by (subst (1 2) chunk_loop.simps) simp
  next
    case True
    define len where "len = shrink (nbytes offset) scale max_bytes (min max_rows (n - offset))"
    have start: "1 \<le> min max_rows (n - offset)" using True "1.prems" by simp
    have len: "1 \<le> len" "len \<le> min max_rows (n - offset)" "nbytes offset len \<le> max_bytes \<or> len = 1"
      using shrink_bounds [OF start] shrink_fits [OF start, of "nbytes offset"] unfolding len_def by auto
    have step: "chunk_loop n nbytes scale max_rows max_bytes offset =
        (offset, len) # chunk_loop n nbytes scale max_rows max_bytes (offset + len)"
      using True "1.prems" by (subst chunk_loop.simps) (simp add: len_def Let_def)
    have "[offset..offset + len - 1] @ [offset + len..n - 1] = [offset..n - 1]"
      using len True upto_split2 [of offset "offset + len - 1" "n - 1"] by simp
    moreover have "offset < n \<and> 1 \<le> max_rows" "offset + len \<le> n" using True "1.prems" len by simp_all
    note "1.IH" [OF this(1) len_def "1.prems"(1) this(2)]
    ultimately show ?thesis unfolding step using len by simp
  qed
qed

lemma replay_table_chunks_partition_parts:
  "replay_table_chunks (int n) nbytes scale max_rows max_bytes = Inl e \<longleftrightarrow>
     (max_rows < 1 \<or> max_bytes < 1) \<and> e = ValueError"
  "replay_table_chunks (int n) nbytes scale max_rows max_bytes = Inr chunks \<Longrightarrow>
     concat (map (\<lambda>(offset, len). [offset..offset + len - 1]) chunks) = [0..int n - 1] \<and>
     list_all (\<lambda>(offset, len). 1 \<le> len \<and> len \<le> max_rows \<and> (nbytes offset len \<le> max_bytes \<or> len = 1)) chunks"
proof -
  show "replay_table_chunks (int n) nbytes scale max_rows max_bytes = Inl e \<longleftrightarrow>
     (max_rows < 1 \<or> max_bytes < 1) \<and> e = ValueError"
    by (auto simp: replay_table_chunks_def rbind_Inl_iff ensure_Inl_iff)
  assume "replay_table_chunks (int n) nbytes scale max_rows max_bytes = Inr chunks"
  then have "1 \<le> max_rows" "chunks = chunk_loop (int n) nbytes scale max_rows max_bytes 0"
    by (auto simp: replay_table_chunks_def rbind_Inr_iff ensure_Inr_iff)
  then show "concat (map (\<lambda>(offset, len). [offset..offset + len - 1]) chunks) = [0..int n - 1] \<and>
     list_all (\<lambda>(offset, len). 1 \<le> len \<and> len \<le> max_rows \<and> (nbytes offset len \<le> max_bytes \<or> len = 1)) chunks"
    using chunk_loop_partition [of max_rows 0 "int n" nbytes scale max_bytes] by simp
qed

text \<open>
  C29. Chunking a terminal table is total and exact: it raises exactly for a limit below one; otherwise the
  loops end, the slices partition the rows in order without loss or overlap, none is empty or longer than
  the row limit, and a slice over the byte budget is a single row. Nothing is assumed of the byte sizes
  or of the floating-point estimate.
\<close>

theorem replay_table_chunks_partition:
  "(\<forall>e. replay_table_chunks (int n) nbytes scale max_rows max_bytes = Inl e \<longleftrightarrow>
     (max_rows < 1 \<or> max_bytes < 1) \<and> e = ValueError) \<and>
   (\<forall>chunks. replay_table_chunks (int n) nbytes scale max_rows max_bytes = Inr chunks \<longrightarrow>
     concat (map (\<lambda>(offset, len). [offset..offset + len - 1]) chunks) = [0..int n - 1] \<and>
     list_all (\<lambda>(offset, len). 1 \<le> len \<and> len \<le> max_rows \<and> (nbytes offset len \<le> max_bytes \<or> len = 1)) chunks)"
  using replay_table_chunks_partition_parts by blast

theorem replay_table_chunks_partition_witness:
  "concat (map (\<lambda>(offset, len). [offset..offset + len - 1]) [(0, 2), (2, 2), (4, 1)]) = [0..int 5 - 1]"
proof -
  have "replay_table_chunks (int 5) (\<lambda>_ len. 10 * len) (\<lambda>len b nb. len * b div nb) 3 25 = Inr [(0, 2), (2, 2), (4, 1)]"
    by code_simp
  with replay_table_chunks_partition [of 5 "\<lambda>_ len. 10 * len" "\<lambda>len b nb. len * b div nb" 3 25] show ?thesis by blast
qed

end
