(* ===== verification/Completion.thy ===== *)
theory Completion
  imports Commits
begin

text \<open>
  The monotonic completion marker of a Lance dataset (\<open>etl/completion.py\<close>). A dataset is a parameter:
  its configuration dictionary and version are read, and \<open>update_config\<close> is an operation on the handle
  that was opened and the version that is current when it commits.
\<close>

section \<open>Markers\<close>

definition LAST_APPLIED_WINDOW_KEY :: string where
  "LAST_APPLIED_WINDOW_KEY = ''lance_etl.last_applied_window_seq''"

definition LAST_APPLIED_DIGEST_KEY :: string where
  "LAST_APPLIED_DIGEST_KEY = ''lance_etl.last_applied_source_digest''"

record completion_marker =
  cm_window :: int
  cm_digest :: bytes
  cm_version :: int

record 'd config_store =
  cs_config :: "'d \<Rightarrow> (string \<times> string) list"
  cs_version :: "'d \<Rightarrow> int"
  cs_update :: "'d \<Rightarrow> 'd \<Rightarrow> (string \<times> string) list \<Rightarrow> (py_exc + unit) \<times> 'd"
  cs_open_error :: "nat \<Rightarrow> py_exc option"

definition parse_completion_marker :: "'d config_store \<Rightarrow> 'd \<Rightarrow> completion_marker option result" where
  "parse_completion_marker api d =
     (case (dict_get (cs_config api d) LAST_APPLIED_WINDOW_KEY, dict_get (cs_config api d) LAST_APPLIED_DIGEST_KEY) of
        (None, None) \<Rightarrow> Inr None
      | (Some raw_window, Some raw_digest) \<Rightarrow>
          (case (py_int 10 raw_window, bytes_fromhex raw_digest) of
             (Some window_seq, Some source_digest) \<Rightarrow>
               if window_seq < 0 \<or> length source_digest \<noteq> 32 then Inl CompletionConflict
               else Inr (Some \<lparr> cm_window = window_seq, cm_digest = source_digest, cm_version = cs_version api d \<rparr>)
           | _ \<Rightarrow> Inl CompletionConflict)
      | _ \<Rightarrow> Inl CompletionConflict)"

definition completion_is_desired :: "completion_marker option \<Rightarrow> int \<Rightarrow> bytes \<Rightarrow> bool result" where
  "completion_is_desired marker window_seq source_digest =
     (case marker of
        None \<Rightarrow> Inr False
      | Some m \<Rightarrow>
          if cm_window m = window_seq \<and> cm_digest m \<noteq> source_digest then Inl CompletionConflict
          else Inr (window_seq \<le> cm_window m))"

definition completion_payload :: "int \<Rightarrow> bytes \<Rightarrow> (string \<times> string) list result" where
  "completion_payload window_seq source_digest =
     rbind (ensure (\<not> window_seq < 0) ValueError) (\<lambda>_.
     rbind (ensure (length source_digest = 32) ValueError) (\<lambda>_.
     Inr [(LAST_APPLIED_WINDOW_KEY, show_int window_seq), (LAST_APPLIED_DIGEST_KEY, hex_of_bytes source_digest)]))"

section \<open>Finalising\<close>

record 'd cworld =
  cclock :: nat
  cstore :: "'d option"

definition cothers :: "(nat \<Rightarrow> 'd option \<Rightarrow> 'd option) \<Rightarrow> 'd cworld \<Rightarrow> 'd cworld" where
  "cothers others w = w\<lparr> cclock := Suc (cclock w), cstore := others (cclock w) (cstore w) \<rparr>"

definition open_dataset :: "'d config_store \<Rightarrow> 'd cworld \<Rightarrow> py_exc + 'd" where
  "open_dataset api w =
     (case cstore w of
        None \<Rightarrow> Inl (Exc ValueError DATASET_NOT_FOUND_MARKER)
      | Some d \<Rightarrow> (case cs_open_error api (cclock w) of Some e \<Rightarrow> Inl e | None \<Rightarrow> Inr d))"

text \<open>The marker check of an opened dataset: whether the requested completion is already proved.\<close>

definition check_marker :: "'d config_store \<Rightarrow> int \<Rightarrow> bytes \<Rightarrow> 'd \<Rightarrow> (completion_marker option \<times> bool) result" where
  "check_marker api window_seq source_digest d =
     rbind (parse_completion_marker api d) (\<lambda>marker.
     rbind (completion_is_desired marker window_seq source_digest) (\<lambda>desired. Inr (marker, desired)))"

definition update_attempt ::
    "'d config_store \<Rightarrow> (nat \<Rightarrow> 'd option \<Rightarrow> 'd option) \<Rightarrow> int \<Rightarrow> bytes \<Rightarrow> (string \<times> string) list \<Rightarrow> ('d cworld, unit) action" where
  "update_attempt api others window_seq source_digest payload w =
     (let w1 = cothers others w in
      case open_dataset api w1 of
        Inl e \<Rightarrow> (Inl e, w1)
      | Inr d \<Rightarrow>
          (case check_marker api window_seq source_digest d of
             Inl e \<Rightarrow> (Inl (Exc e []), w1)
           | Inr (_, True) \<Rightarrow> (Inr (), w1)
           | Inr (_, False) \<Rightarrow>
               let w2 = cothers others w1 in
               (case cs_update api d (case cstore w2 of Some c \<Rightarrow> c | None \<Rightarrow> d) payload of
                  (r, d') \<Rightarrow> (r, w2\<lparr> cstore := Some d' \<rparr>))))"

text \<open>
  After an exception the marker is read again: a proved completion is returned, an error of the new
  reading is raised instead, and otherwise the exception itself.
\<close>

definition finalize_completion_marker ::
    "'d config_store \<Rightarrow> (nat \<Rightarrow> 'd option \<Rightarrow> 'd option) \<Rightarrow> int \<Rightarrow> bytes \<Rightarrow> int \<Rightarrow> ('d cworld, completion_marker) action" where
  "finalize_completion_marker api others window_seq source_digest conflict_retries w =
     (case completion_payload window_seq source_digest of
        Inl e \<Rightarrow> (Inl (Exc e []), w)
      | Inr payload \<Rightarrow>
          (case commit_with_retries (update_attempt api others window_seq source_digest payload) conflict_retries
              id (\<lambda>_. cothers others) w of
             (outcome, w1) \<Rightarrow>
               let w2 = cothers others w1 in
               (case open_dataset api w2 of
                  Inl e \<Rightarrow> (Inl e, w2)
                | Inr d \<Rightarrow>
                    (case check_marker api window_seq source_digest d of
                       Inl e \<Rightarrow> (Inl (Exc e []), w2)
                     | Inr (Some m, True) \<Rightarrow> (Inr m, w2)
                     | Inr _ \<Rightarrow> (case outcome of Inl e \<Rightarrow> (Inl e, w2) | Inr _ \<Rightarrow> (Inl (Exc CompletionConflict []), w2))))))"

end
