(* ===== verification/Completion_Properties.thy ===== *)
theory Completion_Properties
  imports Completion
begin

text \<open>
  Properties of the completion marker: the stored text reads back as what was written, and finalising is
  monotone and truthful whatever other clients do.
\<close>

section \<open>Reading back\<close>

lemma length_show_nat: "n < 10 ^ k \<Longrightarrow> 0 < k \<Longrightarrow> length (show_nat n) \<le> k"
proof (induction n arbitrary: k rule: show_nat.induct)
  case (1 n)
  show ?case
  proof (cases "n < 10")
    case True
    then show ?thesis using "1.prems" by (subst show_nat.simps) simp
  next
    case False
    obtain j where k: "k = Suc j" using "1.prems"(2) by (cases k) auto
    then have j: "0 < j" using "1.prems"(1) False by (cases j) auto
    then have "n div 10 < 10 ^ j" using "1.prems" k by (simp add: div_less_iff_less_mult mult.commute)
    then show ?thesis using "1.IH" [OF False, of j] False k j by (subst show_nat.simps) simp
  qed
qed

lemma window_text_roundtrip:
  assumes "0 \<le> n" and "n < 2 ^ 63"
  shows "py_int 10 (show_int n) = Some n"
proof -
  have "nat n < 10 ^ 20" using assms by (simp add: nat_less_iff)
  then have "length (show_nat (nat n)) \<le> 4300" using length_show_nat [of "nat n" 20] by simp
  from py_int_show_nat [OF this] show ?thesis using assms by (simp add: show_int_def)
qed

definition config_put :: "(string \<times> string) list \<Rightarrow> (string \<times> string) list \<Rightarrow> (string \<times> string) list \<Rightarrow> bool" where
  "config_put config payload config' \<longleftrightarrow>
     (\<forall>k. dict_get config' k = (case dict_get payload k of Some v \<Rightarrow> Some v | None \<Rightarrow> dict_get config k))"

lemma completion_payload_Inr:
  "completion_payload n s = Inr p \<longleftrightarrow> 0 \<le> n \<and> length s = 32 \<and>
     p = [(LAST_APPLIED_WINDOW_KEY, show_int n), (LAST_APPLIED_DIGEST_KEY, hex_of_bytes s)]"
  by (auto simp: completion_payload_def rbind_Inr_iff ensure_Inr_iff)

lemma keys_distinct: "LAST_APPLIED_WINDOW_KEY \<noteq> LAST_APPLIED_DIGEST_KEY"
  by (simp add: LAST_APPLIED_WINDOW_KEY_def LAST_APPLIED_DIGEST_KEY_def)

lemma completion_reads_back:
  assumes "completion_payload n s = Inr p" and "config_put (cs_config api d) p (cs_config api d')" and "n < 2 ^ 63"
  shows "parse_completion_marker api d' = Inr (Some \<lparr> cm_window = n, cm_digest = s, cm_version = cs_version api d' \<rparr>)"
proof -
  from assms(1) have p: "0 \<le> n" "length s = 32"
      "p = [(LAST_APPLIED_WINDOW_KEY, show_int n), (LAST_APPLIED_DIGEST_KEY, hex_of_bytes s)]"
    by (auto simp: completion_payload_Inr)
  have "dict_get p LAST_APPLIED_WINDOW_KEY = Some (show_int n)" "dict_get p LAST_APPLIED_DIGEST_KEY = Some (hex_of_bytes s)"
    using p(3) keys_distinct by (simp_all add: dict_get_def)
  then have "dict_get (cs_config api d') LAST_APPLIED_WINDOW_KEY = Some (show_int n)"
      "dict_get (cs_config api d') LAST_APPLIED_DIGEST_KEY = Some (hex_of_bytes s)"
    using assms(2) unfolding config_put_def by simp_all
  then show ?thesis
    using p window_text_roundtrip [OF p(1) assms(3)] by (simp add: parse_completion_marker_def bytes_fromhex_hex)
qed

section \<open>What is assumed of the store\<close>

text \<open>
  \<open>config_store_ok\<close>: an \<open>update_config\<close> commits only when the keys it writes still have, in the
  current version, the values the opened version had (a concurrent change of the same keys is a commit
  conflict); it then sets exactly those keys. One that raises has had that effect or none.
\<close>

definition same_keys :: "(string \<times> string) list \<Rightarrow> (string \<times> string) list \<Rightarrow> (string \<times> string) list \<Rightarrow> bool" where
  "same_keys payload config config' \<longleftrightarrow> (\<forall>k \<in> fst ` set payload. dict_get config k = dict_get config' k)"

definition config_store_ok :: "'d config_store \<Rightarrow> bool" where
  "config_store_ok api \<longleftrightarrow>
     (\<forall>d c p. case cs_update api d c p of (r, c') \<Rightarrow>
        same_keys p (cs_config api d) (cs_config api c) \<and> config_put (cs_config api c) p (cs_config api c') \<or>
        r \<noteq> Inr () \<and> config_put (cs_config api c) [] (cs_config api c'))"

lemma config_store_okD:
  assumes "config_store_ok api" and "cs_update api d c p = (r, c')"
  shows "same_keys p (cs_config api d) (cs_config api c) \<and> config_put (cs_config api c) p (cs_config api c') \<or>
    r \<noteq> Inr () \<and> config_put (cs_config api c) [] (cs_config api c')"
proof -
  note law = assms(1) [unfolded config_store_ok_def, THEN spec, THEN spec, THEN spec, of p d c]
  show ?thesis using law assms(2) by simp
qed

text \<open>The marker as window and digest, and its order.\<close>

type_synonym mark = "(int \<times> bytes) option"

definition mark_of :: "completion_marker option \<Rightarrow> mark" where
  "mark_of m = map_option (\<lambda>c. (cm_window c, cm_digest c)) m"

definition marks :: "'d config_store \<Rightarrow> 'd \<Rightarrow> mark \<Rightarrow> bool" where
  "marks api d m \<longleftrightarrow> (\<exists>c. parse_completion_marker api d = Inr c \<and> mark_of c = m)"

definition mark_le :: "mark \<Rightarrow> mark \<Rightarrow> bool" where
  "mark_le m m' = (case m of None \<Rightarrow> True | Some a \<Rightarrow> (case m' of None \<Rightarrow> False | Some b \<Rightarrow> b = a \<or> fst a < fst b))"

lemma mark_le_refl [simp]: "mark_le m m"
  by (simp add: mark_le_def split: option.split)

lemma mark_le_trans: "mark_le m n \<Longrightarrow> mark_le n p \<Longrightarrow> mark_le m p"
  by (auto simp: mark_le_def split: option.splits)

definition marker_advances :: "'d config_store \<Rightarrow> 'd option \<Rightarrow> 'd option \<Rightarrow> bool" where
  "marker_advances api s s' \<longleftrightarrow>
     (\<forall>d m. s = Some d \<longrightarrow> marks api d m \<longrightarrow> (\<exists>d' m'. s' = Some d' \<and> marks api d' m' \<and> mark_le m m'))"

lemma marker_advances_refl [simp]: "marker_advances api s s"
  unfolding marker_advances_def using mark_le_refl by blast

lemma marker_advances_trans: "marker_advances api s t \<Longrightarrow> marker_advances api t u \<Longrightarrow> marker_advances api s u"
proof -
  assume st: "marker_advances api s t" and tu: "marker_advances api t u"
  show ?thesis unfolding marker_advances_def
  proof (intro allI impI)
    fix d m assume "s = Some d" "marks api d m"
    with st obtain e n where e: "t = Some e" "marks api e n" "mark_le m n" unfolding marker_advances_def by blast
    with tu obtain f p where "u = Some f" "marks api f p" "mark_le n p" unfolding marker_advances_def by blast
    with e(3) show "\<exists>d' m'. u = Some d' \<and> marks api d' m' \<and> mark_le m m'" using mark_le_trans by blast
  qed
qed

definition cadvances :: "'d config_store \<Rightarrow> 'd cworld \<Rightarrow> 'd cworld \<Rightarrow> bool" where
  "cadvances api w w' = marker_advances api (cstore w) (cstore w')"

lemma cadvances_refl [simp]: "cadvances api w w"
  by (simp add: cadvances_def)

lemma cadvances_trans: "cadvances api w w' \<Longrightarrow> cadvances api w' w'' \<Longrightarrow> cadvances api w w''"
  unfolding cadvances_def by (rule marker_advances_trans)

lemma marks_cong:
  assumes "dict_get (cs_config api d) LAST_APPLIED_WINDOW_KEY = dict_get (cs_config api d') LAST_APPLIED_WINDOW_KEY"
    and "dict_get (cs_config api d) LAST_APPLIED_DIGEST_KEY = dict_get (cs_config api d') LAST_APPLIED_DIGEST_KEY"
  shows "marks api d m = marks api d' m"
  unfolding marks_def parse_completion_marker_def assms
  by (auto simp: mark_of_def split: option.splits prod.splits if_splits)

lemma marks_unique: "marks api d m \<Longrightarrow> marks api d m' \<Longrightarrow> m = m'"
  by (auto simp: marks_def)

section \<open>Finalising under interference\<close>

lemma update_advances:
  assumes "config_store_ok api" and "completion_payload n s = Inr p" and "n < 2 ^ 63"
    and "check_marker api n s d = Inr (mk, False)" and "cs_update api d c p = (r, c')"
  shows "marker_advances api (Some c) (Some c')"
  using config_store_okD [OF assms(1,5)]
proof (elim disjE conjE)
  assume put: "config_put (cs_config api c) [] (cs_config api c')"
  then have "marks api c' m = marks api c m" for m by (intro marks_cong) (simp_all add: config_put_def dict_get_def)
  then show ?thesis by (auto simp: marker_advances_def intro: mark_le_refl)
next
  assume same: "same_keys p (cs_config api d) (cs_config api c)" and put: "config_put (cs_config api c) p (cs_config api c')"
  have p: "p = [(LAST_APPLIED_WINDOW_KEY, show_int n), (LAST_APPLIED_DIGEST_KEY, hex_of_bytes s)]"
    using assms(2) by (simp add: completion_payload_Inr)
  have dc: "marks api d m = marks api c m" for m
    using same unfolding p same_keys_def by (intro marks_cong) simp_all
  from assms(4) have d: "parse_completion_marker api d = Inr mk" "completion_is_desired mk n s = Inr False"
    by (auto simp: check_marker_def rbind_Inr_iff)
  have new: "marks api c' (Some (n, s))"
    using completion_reads_back [OF assms(2) put assms(3)] by (auto simp: marks_def mark_of_def)
  have "mark_le (mark_of mk) (Some (n, s))"
    using d(2) by (auto simp: completion_is_desired_def mark_of_def mark_le_def split: option.splits if_splits)
  moreover have "m = mark_of mk" if "marks api c m" for m
    using that marks_unique dc d(1) unfolding marks_def by metis
  ultimately show ?thesis using new unfolding marker_advances_def by blast
qed

lemma cothers_advances: "(\<And>n s. marker_advances api s (others n s)) \<Longrightarrow> cadvances api w (cothers others w)"
  by (simp add: cadvances_def cothers_def)

lemma update_attempt_advances:
  assumes "config_store_ok api" and oth: "\<And>n s. marker_advances api s (others n s)"
    and "completion_payload n s = Inr p" and "n < 2 ^ 63" and present: "\<And>n s. s \<noteq> None \<Longrightarrow> others n s \<noteq> None"
  shows "cadvances api w (snd (update_attempt api others n s p w))"
proof -
  let ?w1 = "cothers others w"
  have a1: "cadvances api w ?w1" by (rule cothers_advances [OF oth])
  show ?thesis
  proof (cases "\<exists>d mk. open_dataset api ?w1 = Inr d \<and> check_marker api n s d = Inr (mk, False)")
    case False
    then have "snd (update_attempt api others n s p w) = ?w1"
      by (auto simp: update_attempt_def Let_def split: sum.split bool.split)
    with a1 show ?thesis by simp
  next
    case True
    then obtain d mk where d: "open_dataset api ?w1 = Inr d" "check_marker api n s d = Inr (mk, False)" by blast
    then have s1: "cstore ?w1 = Some d" by (auto simp: open_dataset_def split: option.splits)
    then obtain c where c: "cstore (cothers others ?w1) = Some c" using present by (auto simp: cothers_def)
    have a2: "cadvances api w (cothers others ?w1)" by (rule cadvances_trans [OF a1 cothers_advances [OF oth]])
    obtain r c' where u: "cs_update api d c p = (r, c')" by force
    have "snd (update_attempt api others n s p w) = (cothers others ?w1)\<lparr> cstore := Some c' \<rparr>"
      using d c u by (simp add: update_attempt_def)
    moreover have "cadvances api (cothers others ?w1) ((cothers others ?w1)\<lparr> cstore := Some c' \<rparr>)"
      using update_advances [OF assms(1,3,4) d(2) u] c by (simp add: cadvances_def)
    ultimately show ?thesis using cadvances_trans [OF a2] by simp
  qed
qed

lemma finalize_advances:
  assumes "config_store_ok api" and oth: "\<And>n s. marker_advances api s (others n s)"
    and present: "\<And>n s. s \<noteq> None \<Longrightarrow> others n s \<noteq> None" and "n < 2 ^ 63"
  shows "cadvances api w (snd (finalize_completion_marker api others n s retries w))"
proof (cases "completion_payload n s")
  case (Inl e)
  then show ?thesis by (simp add: finalize_completion_marker_def)
next
  case (Inr p)
  let ?loop = "commit_with_retries (update_attempt api others n s p) retries id (\<lambda>_. cothers others) w"
  have "cadvances api w (snd ?loop)"
  proof (rule commit_with_retries_relation [where R = "cadvances api"])
    show "reflp (cadvances api)" by (simp add: reflp_def)
    show "transp (cadvances api)" unfolding transp_def using cadvances_trans by blast
  qed (use update_attempt_advances [OF assms(1) oth Inr assms(4) present] cothers_advances [OF oth] in auto)
  from cadvances_trans [OF this cothers_advances [OF oth]]
  have "cadvances api w (cothers others (snd ?loop))" .
  moreover have "snd (finalize_completion_marker api others n s retries w) = cothers others (snd ?loop)"
    using Inr by (auto simp: finalize_completion_marker_def Let_def split: prod.split sum.split option.split bool.split)
  ultimately show ?thesis by simp
qed

lemma completion_marker_monotone_parts:
  assumes "config_store_ok api" and "\<And>n s. marker_advances api s (others n s)"
    and "\<And>n s. s \<noteq> None \<Longrightarrow> others n s \<noteq> None" and "window_seq < 2 ^ 63"
    and "finalize_completion_marker api others window_seq source_digest conflict_retries w = (r, w')"
  shows "cstore w = Some d \<Longrightarrow> marks api d m \<Longrightarrow> \<exists>d' m'. cstore w' = Some d' \<and> marks api d' m' \<and> mark_le m m'"
    and "r = Inr marker \<Longrightarrow> \<exists>d'. cstore w' = Some d' \<and> parse_completion_marker api d' = Inr (Some marker) \<and>
      mark_le (Some (window_seq, source_digest)) (Some (cm_window marker, cm_digest marker))"
proof -
  have "cadvances api w w'"
    using finalize_advances [of api others window_seq w source_digest conflict_retries] assms by simp
  then show "cstore w = Some d \<Longrightarrow> marks api d m \<Longrightarrow> \<exists>d' m'. cstore w' = Some d' \<and> marks api d' m' \<and> mark_le m m'"
    unfolding cadvances_def marker_advances_def by blast
  assume "r = Inr marker"
  with assms(5) obtain d' where d': "open_dataset api w' = Inr d'" "check_marker api window_seq source_digest d' = Inr (Some marker, True)"
    unfolding finalize_completion_marker_def Let_def
    by (auto split: sum.splits prod.splits option.splits bool.splits)
  then have "cstore w' = Some d'" "parse_completion_marker api d' = Inr (Some marker)"
      "completion_is_desired (Some marker) window_seq source_digest = Inr True"
    by (auto simp: open_dataset_def check_marker_def rbind_Inr_iff split: option.splits)
  then show "\<exists>d'. cstore w' = Some d' \<and> parse_completion_marker api d' = Inr (Some marker) \<and>
      mark_le (Some (window_seq, source_digest)) (Some (cm_window marker, cm_digest marker))"
    by (auto simp: completion_is_desired_def mark_le_def split: if_splits)
qed

text \<open>
  C21. The completion marker is monotone and truthful under interference: with other clients that only move
  it forward, and whether the call returns or raises, a readable stored marker is never replaced by an
  earlier window or by another digest of the same window; and a returned marker is the one stored, and
  proves the requested window complete: it has that window with exactly that digest, or a later window.
\<close>

theorem completion_marker_monotone:
  assumes "config_store_ok api" and "\<And>n s. marker_advances api s (others n s)"
    and "\<And>n s. s \<noteq> None \<Longrightarrow> others n s \<noteq> None" and "window_seq < 2 ^ 63"
    and "finalize_completion_marker api others window_seq source_digest conflict_retries w = (r, w')"
  shows "(\<forall>d m. cstore w = Some d \<longrightarrow> marks api d m \<longrightarrow>
        (\<exists>d' m'. cstore w' = Some d' \<and> marks api d' m' \<and> mark_le m m')) \<and>
      (\<forall>marker. r = Inr marker \<longrightarrow> (\<exists>d'. cstore w' = Some d' \<and> parse_completion_marker api d' = Inr (Some marker) \<and>
        mark_le (Some (window_seq, source_digest)) (Some (cm_window marker, cm_digest marker))))"
  using completion_marker_monotone_parts [OF assms] by blast

section \<open>A store in memory\<close>

definition memory_config :: "((string \<times> string) list \<times> int) config_store" where
  "memory_config = \<lparr>
     cs_config = fst,
     cs_version = snd,
     cs_update = (\<lambda>d c p.
       if list_all (\<lambda>k. dict_get (fst d) k = dict_get (fst c) k) (map fst p) then (Inr (), fst c @ p, snd c + 1)
       else (Inl (Exc OSError ''Commit conflict''), c)),
     cs_open_error = (\<lambda>_. None) \<rparr>"

lemma memory_config_ok: "config_store_ok memory_config"
  by (auto simp: config_store_ok_def memory_config_def same_keys_def config_put_def dict_get_def list_all_iff
      map_add_def split: option.split)

lemma demo_finalize:
  "case finalize_completion_marker memory_config (\<lambda>_ s. s) 4 (replicate 32 171) 10
       \<lparr> cclock = 0, cstore = Some ([(LAST_APPLIED_WINDOW_KEY, ''3''), (LAST_APPLIED_DIGEST_KEY, hex_of_bytes (replicate 32 170))], 8) \<rparr> of
     (Inr marker, _) \<Rightarrow> marker = \<lparr> cm_window = 4, cm_digest = replicate 32 171, cm_version = 9 \<rparr> | _ \<Rightarrow> False"
  by code_simp

theorem completion_marker_monotone_witness:
  "\<exists>marker w' d'. finalize_completion_marker memory_config (\<lambda>_ s. s) 4 (replicate 32 171) 10
       \<lparr> cclock = 0, cstore = Some ([(LAST_APPLIED_WINDOW_KEY, ''3''), (LAST_APPLIED_DIGEST_KEY, hex_of_bytes (replicate 32 170))], 8) \<rparr> =
     (Inr marker, w') \<and> cm_version marker = 9 \<and> cstore w' = Some d' \<and> parse_completion_marker memory_config d' = Inr (Some marker)"
proof -
  obtain marker w' where e: "finalize_completion_marker memory_config (\<lambda>_ s. s) 4 (replicate 32 171) 10
       \<lparr> cclock = 0, cstore = Some ([(LAST_APPLIED_WINDOW_KEY, ''3''), (LAST_APPLIED_DIGEST_KEY, hex_of_bytes (replicate 32 170))], 8) \<rparr> =
     (Inr marker, w')" "cm_version marker = 9"
    using demo_finalize by (auto split: prod.splits sum.splits)
  have "(4 :: int) < 2 ^ 63" by simp
  from completion_marker_monotone [OF memory_config_ok marker_advances_refl _ this e(1)] e show ?thesis by blast
qed

text \<open>
  Completion payloads round-trip: once the configuration entries written for a window and digest are
  in a dataset's configuration, reading the marker gives exactly that window and digest.
\<close>

theorem completion_payload_roundtrip:
  assumes "completion_payload window_seq source_digest = Inr payload"
    and "config_put (cs_config api d) payload (cs_config api d')" and "window_seq < 2 ^ 63"
  shows "parse_completion_marker api d' =
    Inr (Some \<lparr> cm_window = window_seq, cm_digest = source_digest, cm_version = cs_version api d' \<rparr>)"
  using assms by (rule completion_reads_back)

theorem completion_payload_roundtrip_witness:
  "parse_completion_marker memory_config
     ([(LAST_APPLIED_WINDOW_KEY, ''12''), (LAST_APPLIED_DIGEST_KEY, hex_of_bytes (replicate 32 255))], 5) =
   Inr (Some \<lparr> cm_window = 12, cm_digest = replicate 32 255, cm_version = 5 \<rparr>)"
proof -
  have p: "completion_payload 12 (replicate 32 255) =
      Inr [(LAST_APPLIED_WINDOW_KEY, ''12''), (LAST_APPLIED_DIGEST_KEY, hex_of_bytes (replicate 32 255))]"
    by (simp add: completion_payload_def show_int_def show_nat.simps digit_char_def)
  have "config_put (cs_config memory_config ([], 4))
      [(LAST_APPLIED_WINDOW_KEY, ''12''), (LAST_APPLIED_DIGEST_KEY, hex_of_bytes (replicate 32 255))]
      (cs_config memory_config ([(LAST_APPLIED_WINDOW_KEY, ''12''), (LAST_APPLIED_DIGEST_KEY, hex_of_bytes (replicate 32 255))], 5))"
    by (auto simp: config_put_def memory_config_def dict_get_def split: option.split)
  from completion_payload_roundtrip [OF p this] show ?thesis by (simp add: memory_config_def)
qed

end
