(* ===== verification/Ancestry.thy ===== *)
theory Ancestry
  imports Lineage
begin

text \<open>
  Reading a bounded ancestry from one pinned Iceberg metadata generation (\<open>reconciler/iceberg.py\<close>): the
  constant-memory walk of direct parents with Floyd's cycle detection, the retained tail of it, the
  resolution of partition specifications, and the validated descendants of a checkpoint. The loader of
  snapshot documents and the Spark aggregations are parameters.
\<close>

section \<open>Documents\<close>

record snapshot_document =
  dc_id :: int
  dc_parent :: "int option"
  dc_seq :: int
  dc_timestamp :: int
  dc_summary :: "(string \<times> string) list"

type_synonym loader = "int \<Rightarrow> snapshot_document option result"

definition next_snapshot_id :: "loader \<Rightarrow> int option \<Rightarrow> int option result" where
  "next_snapshot_id loader snapshot_id =
     (case snapshot_id of
        None \<Rightarrow> Inr None
      | Some c \<Rightarrow> rbind (loader c) (\<lambda>d. Inr (case d of None \<Rightarrow> None | Some s \<Rightarrow> dc_parent s)))"

text \<open>
  The body of the loop, as the decision at one cursor: stop with a result, or go on with the parent and
  the two pointers. The yielded documents are collected in order.
\<close>

datatype walk_step = Done "snapshot_document list result" | Go int "int option" "int option" snapshot_document

definition walk_body :: "loader \<Rightarrow> int \<Rightarrow> int \<Rightarrow> int option \<Rightarrow> int option \<Rightarrow> walk_step" where
  "walk_body loader stop cursor slow fast =
     (case loader cursor of
        Inl e \<Rightarrow> Done (Inl e)
      | Inr None \<Rightarrow> Done (Inr [])
      | Inr (Some snapshot) \<Rightarrow>
          if dc_id snapshot \<noteq> cursor then Done (Inl SourceLineageError)
          else if cursor = stop then Done (Inr [snapshot])
          else (case dc_parent snapshot of
                  None \<Rightarrow> Done (Inr [snapshot])
                | Some parent \<Rightarrow>
                    (case rbind (next_snapshot_id loader slow) (\<lambda>slow'.
                          rbind (next_snapshot_id loader fast) (\<lambda>fast'.
                          rbind (next_snapshot_id loader fast') (\<lambda>fast''. Inr (slow', fast'')))) of
                       Inl e \<Rightarrow> Done (Inl e)
                     | Inr (slow', fast'') \<Rightarrow>
                         if slow' \<noteq> None \<and> slow' = fast'' then Done (Inl SourceLineageError)
                         else Go parent slow' fast'' snapshot)))"

partial_function (option) iter_from ::
    "loader \<Rightarrow> int \<Rightarrow> int \<Rightarrow> int option \<Rightarrow> int option \<Rightarrow> snapshot_document list \<Rightarrow> snapshot_document list result option" where
  "iter_from loader stop cursor slow fast yielded =
     (case walk_body loader stop cursor slow fast of
        Done r \<Rightarrow> Some (rbind r (\<lambda>last. Inr (yielded @ last)))
      | Go parent slow' fast' snapshot \<Rightarrow> iter_from loader stop parent slow' fast' (yielded @ [snapshot]))"

definition iter_snapshot_documents :: "loader \<Rightarrow> int \<Rightarrow> int \<Rightarrow> snapshot_document list result option" where
  "iter_snapshot_documents loader head stop = iter_from loader stop head (Some head) (Some head) []"

text \<open>A \<open>deque(maxlen=n)\<close> keeps the last \<open>n\<close> elements appended to it.\<close>

definition bounded_tail :: "nat \<Rightarrow> 'a list \<Rightarrow> 'a list" where
  "bounded_tail n xs = drop (length xs - n) xs"

definition bounded_snapshot_documents ::
    "loader \<Rightarrow> int \<Rightarrow> int \<Rightarrow> int option \<Rightarrow> bool \<Rightarrow> snapshot_document list result option" where
  "bounded_snapshot_documents loader head stop descendant_limit retain_head =
     (case descendant_limit of
        None \<Rightarrow> iter_snapshot_documents loader head stop
      | Some limit \<Rightarrow>
          if limit < 0 then Some (Inl ValueError)
          else (case iter_snapshot_documents loader head stop of
                  None \<Rightarrow> None
                | Some r \<Rightarrow> Some (rbind r (\<lambda>docs.
                    let retained = bounded_tail (nat limit + 1) docs
                    in if retain_head \<and> docs \<noteq> [] \<and> list_all (\<lambda>d. dc_id d \<noteq> head) retained
                       then Inr (hd docs # retained) else Inr retained))))"

section \<open>Partition specifications\<close>

definition summary_spec :: "snapshot_document \<Rightarrow> string option" where
  "summary_spec d =
     (case dict_get (dc_summary d) ''partition-spec-id'' of
        Some v \<Rightarrow> Some v | None \<Rightarrow> dict_get (dc_summary d) ''partition_spec_id'')"

definition resolve_summary :: "snapshot_document \<Rightarrow> (int \<times> int option) result" where
  "resolve_summary d =
     (case summary_spec d of
        None \<Rightarrow> Inr (dc_id d, None)
      | Some v \<Rightarrow> (case py_int 10 v of None \<Rightarrow> Inl SourceContractError | Some n \<Rightarrow> Inr (dc_id d, Some n)))"

text \<open>A row of the aggregation over \<open>all_manifests\<close>: snapshot, number of specifications, greatest one.\<close>

type_synonym spec_row = "int \<times> int \<times> int option"

fun add_spec_rows :: "(int \<times> int) list \<Rightarrow> spec_row list \<Rightarrow> (int \<times> int) list result" where
  "add_spec_rows resolved [] = Inr resolved"
| "add_spec_rows resolved ((added, spec_count, spec) # rows) =
     (if 1 < spec_count then Inl SourceContractError
      else add_spec_rows (case spec of None \<Rightarrow> resolved | Some n \<Rightarrow> resolved @ [(added, n)]) rows)"

text \<open>The errors of a Spark read that the code catches: \<open>AnalysisException\<close> and \<open>IllegalArgumentException\<close>.\<close>

definition spark_error :: "py_error \<Rightarrow> bool" where
  "spark_error e \<longleftrightarrow> e = AnalysisException \<or> e = IllegalArgumentException"

definition spec_rows_read :: "spec_row list result \<Rightarrow> spec_row list result" where
  "spec_rows_read r = (case r of Inl e \<Rightarrow> Inl (if spark_error e then SourceContractError else e) | Inr rows \<Rightarrow> Inr rows)"

definition snapshot_partition_spec_ids ::
    "(int list \<Rightarrow> spec_row list result) \<Rightarrow> snapshot_document list \<Rightarrow> int \<Rightarrow> (int \<times> int) list result" where
  "snapshot_partition_spec_ids added_specs snapshots fallback =
     rbind (rmap resolve_summary snapshots) (\<lambda>known.
     let resolved = concat (map (\<lambda>(i, n). case n of None \<Rightarrow> [] | Some v \<Rightarrow> [(i, v)]) known);
         unresolved = map fst (filter (\<lambda>(i, n). n = None) known)
     in rbind (if unresolved = [] then Inr [] else spec_rows_read (added_specs unresolved)) (\<lambda>rows.
        rbind (add_spec_rows resolved rows) (\<lambda>all.
        Inr (map (\<lambda>d. (dc_id d, case dict_get all (dc_id d) of None \<Rightarrow> fallback | Some n \<Rightarrow> n)) snapshots))))"

definition snapshot_from_document :: "string \<Rightarrow> int \<Rightarrow> snapshot_document \<Rightarrow> snapshot_record result" where
  "snapshot_from_document table_uuid spec d =
     (case dict_get (dc_summary d) ''operation'' of
        None \<Rightarrow> Inl SourceLineageError
      | Some operation \<Rightarrow>
          Inr \<lparr> sn_table = table_uuid, sn_id = dc_id d, sn_parent = dc_parent d, sn_seq = dc_seq d,
            sn_committed_ms = dc_timestamp d, sn_operation = operation, sn_spec = spec,
            sn_summary = sort (map (\<lambda>k. (k, case dict_get (dc_summary d) k of Some v \<Rightarrow> v | None \<Rightarrow> []))
              (remdups (map fst (dc_summary d)))) \<rparr>)"

definition snapshots_through ::
    "loader \<Rightarrow> (int list \<Rightarrow> spec_row list result) \<Rightarrow> table_metadata \<Rightarrow> int \<Rightarrow> int \<Rightarrow> int option \<Rightarrow> bool \<Rightarrow>
     snapshot_record list result option" where
  "snapshots_through loader added_specs metadata head stop descendant_limit retain_head =
     (case bounded_snapshot_documents loader head stop descendant_limit retain_head of
        None \<Rightarrow> None
      | Some r \<Rightarrow> Some (rbind r (\<lambda>docs.
          rbind (snapshot_partition_spec_ids added_specs docs (spec_id (md_spec metadata))) (\<lambda>specs.
          rmap (\<lambda>d. snapshot_from_document (md_table_uuid metadata)
            (case dict_get specs (dc_id d) of Some n \<Rightarrow> n | None \<Rightarrow> spec_id (md_spec metadata)) d) docs))))"

section \<open>Descendants of a checkpoint\<close>

fun direct_chain :: "int \<Rightarrow> snapshot_record list \<Rightarrow> unit result" where
  "direct_chain parent [] = Inr ()"
| "direct_chain parent (x # xs) =
     rbind (ensure (sn_parent x = Some parent) SourceLineageError) (\<lambda>_. direct_chain (sn_id x) xs)"

definition bounded_incremental_candidates ::
    "snapshot_record list \<Rightarrow> source_checkpoint \<Rightarrow> snapshot_record list result" where
  "bounded_incremental_candidates snapshots checkpoint =
     rbind (index_snapshots snapshots) (\<lambda>indexed.
     case lookup_by sn_id (ck_snapshot checkpoint) indexed of
       None \<Rightarrow> Inl SourceLineageError
     | Some retained \<Rightarrow>
         rbind (ensure (last snapshots = retained) SourceLineageError) (\<lambda>_.
         rbind (validate_snapshot_identity retained (ck_table_uuid checkpoint) (ck_spec checkpoint)) (\<lambda>_.
         rbind (ensure (sn_seq retained = ck_seq checkpoint) SourceLineageError) (\<lambda>_.
         let candidates = rev (butlast snapshots)
         in rbind (direct_chain (ck_snapshot checkpoint) candidates) (\<lambda>_. Inr candidates)))))"

definition incremental_snapshot_error :: "snapshot_record \<Rightarrow> table_metadata \<Rightarrow> int \<Rightarrow> string option" where
  "incremental_snapshot_error x metadata previous_sequence =
     (case validate_snapshot_identity x (md_table_uuid metadata) (spec_id (md_spec metadata)) of
        Inl _ \<Rightarrow> Some ''SOURCE_SNAPSHOT_IDENTITY''
      | Inr _ \<Rightarrow> if sn_seq x \<le> previous_sequence then Some ''SOURCE_SEQUENCE_ORDER'' else None)"

end
