(* ===== verification/Ancestry_Properties.thy ===== *)
theory Ancestry_Properties
  imports Ancestry
begin

text \<open>
  The ancestry walk ends on every finite metadata generation, returns the parent chain it should, and
  detects cycles: Floyd's two pointers meet whenever the chain does not end.
\<close>

section \<open>Pointers\<close>

definition parent_of :: "loader \<Rightarrow> int \<Rightarrow> int option" where
  "parent_of loader c = (case loader c of Inr (Some d) \<Rightarrow> dc_parent d | _ \<Rightarrow> None)"

primrec ancestor :: "loader \<Rightarrow> int \<Rightarrow> nat \<Rightarrow> int option" where
  "ancestor loader head 0 = Some head"
| "ancestor loader head (Suc n) = (case ancestor loader head n of None \<Rightarrow> None | Some c \<Rightarrow> parent_of loader c)"

lemma ancestor_add:
  "ancestor loader head (m + n) = (case ancestor loader head m of None \<Rightarrow> None | Some c \<Rightarrow> ancestor loader c n)"
proof (induction n)
  case 0
  then show ?case by (simp split: option.split)
next
  case (Suc n)
  then show ?case by (cases "ancestor loader head m") auto
qed

lemma next_snapshot_id_Inr:
  "next_snapshot_id loader c = Inr c' \<Longrightarrow> c' = (case c of None \<Rightarrow> None | Some x \<Rightarrow> parent_of loader x)"
  by (auto simp: next_snapshot_id_def parent_of_def rbind_Inr_iff split: option.splits)

lemma walk_body_Go:
  assumes "walk_body loader stop cursor slow fast = Go parent slow' fast' d"
  shows "loader cursor = Inr (Some d)" and "dc_id d = cursor" and "cursor \<noteq> stop" and "dc_parent d = Some parent"
    and "parent_of loader cursor = Some parent"
    and "slow' = (case slow of None \<Rightarrow> None | Some x \<Rightarrow> parent_of loader x)"
    and "fast' = (case (case fast of None \<Rightarrow> None | Some x \<Rightarrow> parent_of loader x) of None \<Rightarrow> None | Some x \<Rightarrow> parent_of loader x)"
    and "slow' = None \<or> slow' \<noteq> fast'"
  using assms unfolding walk_body_def
  by (auto simp: parent_of_def rbind_Inr_iff dest!: next_snapshot_id_Inr split: sum.splits option.splits if_splits)

section \<open>Floyd\<close>

lemma floyd:
  fixes x :: "nat \<Rightarrow> 'a"
  assumes "finite S" and "\<And>i. x i \<in> S" and "\<And>i j. x i = x j \<Longrightarrow> x (Suc i) = x (Suc j)"
  obtains i where "0 < i" and "x i = x (2 * i)"
proof -
  have "\<not> inj x" using assms(1,2) by (meson finite_subset image_subsetI infinite_UNIV_nat finite_imageD)
  then obtain m n where mn: "m < n" "x m = x n" unfolding inj_def by (metis linorder_neqE_nat)
  define p where "p = n - m"
  have p: "0 < p" "x (m + p) = x m" using mn by (simp_all add: p_def)
  have shift: "x (m + p + k) = x (m + k)" for k
  proof (induction k)
    case 0
    then show ?case using p(2) by simp
  next
    case (Suc k)
    then show ?case using assms(3) [of "m + p + k" "m + k"] by simp
  qed
  have period: "x (m + k + q * p) = x (m + k)" for k q
  proof (induction q)
    case (Suc q)
    have "x (m + k + Suc q * p) = x (m + p + (k + q * p))" by (simp add: algebra_simps)
    also have "\<dots> = x (m + (k + q * p))" by (rule shift)
    finally show ?case using Suc by (simp add: algebra_simps)
  qed simp
  define i where "i = (Suc m) * p"
  have "m * 1 \<le> m * p" by (rule mult_le_mono2) (use p(1) in simp)
  moreover have "m * p \<le> Suc m * p" by (rule mult_le_mono1) simp
  ultimately have "m \<le> i" unfolding i_def by linarith
  then obtain k where k: "i = m + k" using le_Suc_ex by blast
  have "2 * i = m + k + Suc m * p" by (metis k i_def mult_2)
  then have "x (2 * i) = x (m + k + Suc m * p)" by (rule arg_cong [of _ _ x])
  also have "\<dots> = x (m + k)" by (rule period)
  finally have "x (2 * i) = x i" by (simp only: k)
  moreover have "0 < i" using p(1) by (simp add: i_def)
  ultimately show thesis using that by simp
qed

section \<open>Termination\<close>

lemma iter_progress:
  "(\<exists>r. iter_snapshot_documents loader head stop = Some r) \<or>
   (\<exists>c acc. ancestor loader head n = Some c \<and>
      iter_snapshot_documents loader head stop = iter_from loader stop c (ancestor loader head n) (ancestor loader head (2 * n)) acc \<and>
      (\<forall>j\<in>{1..n}. ancestor loader head j \<noteq> ancestor loader head (2 * j)) \<and> (\<forall>j<n. \<exists>c'. ancestor loader head j = Some c' \<and> loader c' \<noteq> Inr None))"
proof (induction n)
  case 0
  then show ?case by (auto simp: iter_snapshot_documents_def)
next
  case (Suc n)
  then show ?case
  proof (elim disjE exE conjE)
    fix c acc
    assume c: "ancestor loader head n = Some c"
      and it: "iter_snapshot_documents loader head stop = iter_from loader stop c (ancestor loader head n) (ancestor loader head (2 * n)) acc"
      and ne: "\<forall>j\<in>{1..n}. ancestor loader head j \<noteq> ancestor loader head (2 * j)"
      and dom: "\<forall>j<n. \<exists>c'. ancestor loader head j = Some c' \<and> loader c' \<noteq> Inr None"
    show ?case
    proof (cases "walk_body loader stop c (ancestor loader head n) (ancestor loader head (2 * n))")
      case (Done r)
      then show ?thesis unfolding it by (subst iter_from.simps) simp
    next
      case (Go parent slow' fast' d)
      note go = walk_body_Go [OF Go]
      have next1: "ancestor loader head (Suc n) = Some parent" using c go(5) by simp
      have s: "slow' = ancestor loader head (Suc n)" using go(6) by simp
      have f: "fast' = ancestor loader head (2 * Suc n)" using go(7) by simp
      have "iter_snapshot_documents loader head stop =
          iter_from loader stop parent (ancestor loader head (Suc n)) (ancestor loader head (2 * Suc n)) (acc @ [d])"
        unfolding it using Go s f by (subst iter_from.simps) simp
      moreover have "ancestor loader head (Suc n) \<noteq> ancestor loader head (2 * Suc n)"
        using go(8) next1 unfolding s f by auto
      then have "\<forall>j\<in>{1..Suc n}. ancestor loader head j \<noteq> ancestor loader head (2 * j)"
        using ne by (auto simp: atLeastAtMostSuc_conv simp del: ancestor.simps)
      moreover have "\<forall>j<Suc n. \<exists>c'. ancestor loader head j = Some c' \<and> loader c' \<noteq> Inr None"
        using dom c go(1) by (auto simp: less_Suc_eq)
      ultimately show ?thesis using next1 by blast
    qed
  qed blast
qed

lemma iter_snapshot_documents_terminates:
  assumes "finite {c. loader c \<noteq> Inr None}"
  shows "\<exists>r. iter_snapshot_documents loader head stop = Some r"
proof (rule ccontr)
  assume no: "\<not> ?thesis"
  then have forever: "\<exists>c. ancestor loader head n = Some c" and apart: "\<forall>j\<in>{1..n}. ancestor loader head j \<noteq> ancestor loader head (2 * j)"
    and dom: "\<forall>j<n. \<exists>c'. ancestor loader head j = Some c' \<and> loader c' \<noteq> Inr None" for n
    using iter_progress [of loader head stop n] by blast+
  define x where "x = (\<lambda>n. the (ancestor loader head n))"
  have x: "ancestor loader head n = Some (x n)" for n using forever [of n] by (auto simp: x_def)
  obtain i where "0 < i" "x i = x (2 * i)"
  proof (rule floyd)
    show "finite {c. loader c \<noteq> Inr None}" by (rule assms)
    show "x i \<in> {c. loader c \<noteq> Inr None}" for i using dom [of "Suc i"] x [of i] by auto
    show "x (Suc i) = x (Suc j)" if "x i = x j" for i j using x [of "Suc i"] x [of "Suc j"] x [of i] x [of j] that by simp
  qed
  then show False using apart [of i, THEN bspec, of i] x [of i] x [of "2 * i"] by simp
qed

section \<open>What is returned\<close>

text \<open>
  The ancestry proper: documents from a cursor along direct parents, up to and including \<open>stop\<close>, a root,
  or the last retained document.
\<close>

fun ancestry :: "loader \<Rightarrow> int \<Rightarrow> int \<Rightarrow> snapshot_document list \<Rightarrow> bool" where
  "ancestry loader stop c [] = (loader c = Inr None)"
| "ancestry loader stop c (d # ds) =
     (loader c = Inr (Some d) \<and> dc_id d = c \<and>
      (if c = stop then ds = []
       else case dc_parent d of None \<Rightarrow> ds = [] | Some p \<Rightarrow> ancestry loader stop p ds))"

lemma ancestry_unique: "ancestry loader stop c ds \<Longrightarrow> ancestry loader stop c ds' \<Longrightarrow> ds = ds'"
proof (induction ds arbitrary: c ds')
  case Nil
  then show ?case by (cases ds') auto
next
  case (Cons d ds)
  then show ?case by (cases ds') (auto split: if_splits option.splits)
qed

lemma ancestry_suffix: "ancestry loader stop c (pre @ d # post) \<Longrightarrow> ancestry loader stop (dc_id d) (d # post)"
proof (induction pre arbitrary: c)
  case (Cons a pre)
  then show ?case by (auto split: if_splits option.splits)
qed auto

lemma ancestry_distinct: "ancestry loader stop c ds \<Longrightarrow> distinct (map dc_id ds)"
proof (induction ds arbitrary: c)
  case (Cons d ds)
  have "dc_id d \<notin> dc_id ` set ds"
  proof
    assume "dc_id d \<in> dc_id ` set ds"
    then obtain e pre post where e: "ds = pre @ e # post" "dc_id e = dc_id d" by (metis imageE split_list)
    have "ancestry loader stop c (e # post)" using ancestry_suffix [of loader stop c "d # pre" e post] Cons.prems e by simp
    with Cons.prems have "d # ds = e # post" using ancestry_unique by blast
    then have "length (d # ds) = length (e # post)" by simp
    then show False using e(1) by simp
  qed
  moreover have "distinct (map dc_id ds)" using Cons by (auto split: if_splits option.splits)
  ultimately show ?case by simp
qed simp

lemma walk_body_Done:
  assumes "walk_body loader stop c slow fast = Done (Inr ds)"
  shows "ancestry loader stop c ds"
  using assms unfolding walk_body_def by (auto split: sum.splits option.splits if_splits prod.splits)

lemma iter_from_sound:
  assumes "iter_from loader stop c slow fast acc = Some r"
  shows "case r of Inl _ \<Rightarrow> True | Inr ds \<Rightarrow> \<exists>new. ds = acc @ new \<and> ancestry loader stop c new"
proof (rule iter_from.raw_induct [OF _ assms])
  fix iter loader stop c slow fast acc r
  assume IH: "\<And>loader stop c slow fast acc r. iter loader stop c slow fast acc = Some r \<Longrightarrow>
      case r of Inl _ \<Rightarrow> True | Inr ds \<Rightarrow> \<exists>new. ds = acc @ new \<and> ancestry loader stop c new"
    and run: "(case walk_body loader stop c slow fast of
        Done r \<Rightarrow> Some (rbind r (\<lambda>last. Inr (acc @ last)))
      | Go parent slow' fast' snapshot \<Rightarrow> iter loader stop parent slow' fast' (acc @ [snapshot])) = Some r"
  show "case r of Inl _ \<Rightarrow> True | Inr ds \<Rightarrow> \<exists>new. ds = acc @ new \<and> ancestry loader stop c new"
  proof (cases "walk_body loader stop c slow fast")
    case (Done q)
    then have "r = rbind q (\<lambda>last. Inr (acc @ last))" using run by simp
    then show ?thesis using walk_body_Done Done by (cases q) auto
  next
    case (Go parent slow' fast' d)
    note go = walk_body_Go [OF Go]
    have "iter loader stop parent slow' fast' (acc @ [d]) = Some r" using run Go by simp
    from IH [OF this] show ?thesis using go by (auto split: sum.splits)
  qed
qed

lemma iter_snapshot_documents_sound:
  "iter_snapshot_documents loader head stop = Some (Inr ds) \<Longrightarrow> ancestry loader stop head ds"
  unfolding iter_snapshot_documents_def by (drule iter_from_sound) simp

text \<open>
  Metadata is well founded when a retained snapshot's retained parent has a smaller sequence number, and
  readable when no document raises and each has the identity it is looked up by.
\<close>

definition well_founded :: "loader \<Rightarrow> bool" where
  "well_founded loader \<longleftrightarrow>
     (\<forall>c d p d'. loader c = Inr (Some d) \<longrightarrow> dc_parent d = Some p \<longrightarrow> loader p = Inr (Some d') \<longrightarrow> dc_seq d' < dc_seq d)"

definition readable :: "loader \<Rightarrow> bool" where
  "readable loader \<longleftrightarrow> (\<forall>c. \<exists>r. loader c = Inr r) \<and> (\<forall>c d. loader c = Inr (Some d) \<longrightarrow> dc_id d = c)"

lemma ancestor_seq:
  assumes "well_founded loader" and "readable loader" and "ancestor loader c (Suc n) = Some c'"
    and "loader c = Inr (Some d)" and "loader c' = Inr (Some d')"
  shows "dc_seq d' < dc_seq d"
  using assms(3,5)
proof (induction n arbitrary: c' d')
  case 0
  then show ?case using assms(1,4) by (auto simp: parent_of_def well_founded_def)
next
  case (Suc n)
  from Suc.prems(1) obtain b where b: "ancestor loader c (Suc n) = Some b" "parent_of loader b = Some c'"
    by (cases "ancestor loader c (Suc n)") auto
  then obtain e where e: "loader b = Inr (Some e)" "dc_parent e = Some c'"
    by (auto simp: parent_of_def split: sum.splits option.splits)
  have "dc_seq d' < dc_seq e" using assms(1) e Suc.prems(2) by (auto simp: well_founded_def)
  moreover have "dc_seq e < dc_seq d" by (rule Suc.IH [OF b(1) e(1)])
  ultimately show ?case by simp
qed

lemma no_cycle:
  assumes "well_founded loader" and "readable loader" and "ancestor loader c (Suc n) = Some c"
  shows "loader c = Inr None"
proof (rule ccontr)
  assume "loader c \<noteq> Inr None"
  then obtain d where "loader c = Inr (Some d)" using assms(2) unfolding readable_def by (metis not_Some_eq)
  with ancestor_seq [OF assms this this] show False by simp
qed

lemma next_snapshot_id_readable:
  "readable loader \<Longrightarrow> next_snapshot_id loader c = Inr (case c of None \<Rightarrow> None | Some x \<Rightarrow> parent_of loader x)"
  unfolding next_snapshot_id_def parent_of_def readable_def by (auto split: option.splits) (metis rbind_simps(2) sum.simps(6))

lemma walk_body_no_error:
  assumes "readable loader" and "well_founded loader" and "slow = ancestor loader head n" and "fast = ancestor loader head (2 * n)"
    and "slow = Some c"
  shows "walk_body loader stop c slow fast \<noteq> Done (Inl e)"
proof
  assume inl: "walk_body loader stop c slow fast = Done (Inl e)"
  obtain l where l: "loader c = Inr l" using assms(1) unfolding readable_def by blast
  then obtain d where ld: "loader c = Inr (Some d)" using inl unfolding walk_body_def by (cases l) auto
  then have id: "dc_id d = c" using assms(1) unfolding readable_def by blast
  have nx: "next_snapshot_id loader (ancestor loader head m) = Inr (ancestor loader head (Suc m))" for m
    using next_snapshot_id_readable [OF assms(1)] by simp
  have fast: "next_snapshot_id loader fast = Inr (ancestor loader head (Suc (2 * n)))"
    unfolding assms(4) by (rule nx)
  obtain p where p: "dc_parent d = Some p" and eq: "ancestor loader head (Suc n) = ancestor loader head (2 * Suc n)"
    using inl ld id nx [of n] fast nx [of "Suc (2 * n)"] assms(3)
    unfolding walk_body_def by (auto split: option.splits if_splits simp del: ancestor.simps)
  have "parent_of loader c = Some p" using ld p by (simp add: parent_of_def)
  moreover have "ancestor loader head n = Some c" using assms(3,5) by simp
  ultimately have sp: "ancestor loader head (Suc n) = Some p" by simp
  have "ancestor loader p (Suc n) = Some p"
    using ancestor_add [of loader head "Suc n" "Suc n"] sp eq by (simp add: mult_2)
  from no_cycle [OF assms(2,1) this] have "parent_of loader p = None" by (simp add: parent_of_def)
  then have "ancestor loader p (1 + n) = None" unfolding ancestor_add by simp
  with \<open>ancestor loader p (Suc n) = Some p\<close> show False by simp
qed

lemma iter_from_no_error:
  assumes "iter_from loader stop c (ancestor loader head n) (ancestor loader head (2 * n)) acc = Some r"
    and "ancestor loader head n = Some c" and "readable loader" and "well_founded loader"
  shows "\<exists>ds. r = Inr ds"
proof -
  have "\<forall>n. slow = ancestor loader head n \<longrightarrow> fast = ancestor loader head (2 * n) \<longrightarrow> slow = Some c \<longrightarrow>
      readable loader \<longrightarrow> well_founded loader \<longrightarrow> (\<exists>ds. r = Inr ds)"
    if "iter_from loader stop c slow fast acc = Some r" for slow fast
  proof (rule iter_from.raw_induct [OF _ that])
    fix iter loader stop c slow fast acc r
    assume IH: "\<And>loader stop c slow fast acc r. iter loader stop c slow fast acc = Some r \<Longrightarrow>
        \<forall>n. slow = ancestor loader head n \<longrightarrow> fast = ancestor loader head (2 * n) \<longrightarrow> slow = Some c \<longrightarrow>
          readable loader \<longrightarrow> well_founded loader \<longrightarrow> (\<exists>ds. r = Inr ds)"
      and run: "(case walk_body loader stop c slow fast of
          Done r \<Rightarrow> Some (rbind r (\<lambda>last. Inr (acc @ last)))
        | Go parent slow' fast' snapshot \<Rightarrow> iter loader stop parent slow' fast' (acc @ [snapshot])) = Some r"
    show "\<forall>n. slow = ancestor loader head n \<longrightarrow> fast = ancestor loader head (2 * n) \<longrightarrow> slow = Some c \<longrightarrow>
          readable loader \<longrightarrow> well_founded loader \<longrightarrow> (\<exists>ds. r = Inr ds)"
    proof (intro allI impI)
      fix n assume s: "slow = ancestor loader head n" "fast = ancestor loader head (2 * n)" "slow = Some c"
        and ok: "readable loader" "well_founded loader"
      show "\<exists>ds. r = Inr ds"
      proof (cases "walk_body loader stop c slow fast")
        case (Done q)
        have "q \<noteq> Inl e" for e using walk_body_no_error [OF ok s(1,2,3), of stop e] Done by auto
        then show ?thesis using run Done by (cases q) auto
      next
        case (Go parent slow' fast' d)
        note go = walk_body_Go [OF Go]
        have "iter loader stop parent slow' fast' (acc @ [d]) = Some r" using run Go by simp
        note step = IH [OF this, THEN spec, of "Suc n"]
        have "ancestor loader head n = Some c" using s by simp
        then have "slow' = ancestor loader head (Suc n)" "fast' = ancestor loader head (2 * Suc n)" "slow' = Some parent"
          using go(5,6,7) s(1,2) by simp_all
        then show ?thesis using step ok by blast
      qed
    qed
  qed
  from this [OF assms(1)] assms(2-4) show ?thesis by blast
qed

text \<open>
  C30. The constant-memory ancestry walk is total and exact on any finite metadata generation, cyclic or
  not: it always ends; documents it returns are the direct-parent chain from the pinned head down to the
  stopping ancestor, a root, or the last retained snapshot, with no snapshot twice; and on readable
  metadata whose sequence numbers decrease along parents it never reports a cycle, so it returns that
  chain.
\<close>

theorem iter_snapshot_documents_exact:
  assumes "finite {c. loader c \<noteq> Inr None}"
  shows "\<exists>r. iter_snapshot_documents loader head stop = Some r \<and>
    (\<forall>ds. r = Inr ds \<longrightarrow> ancestry loader stop head ds \<and> distinct (map dc_id ds)) \<and>
    (readable loader \<and> well_founded loader \<longrightarrow> (\<exists>ds. r = Inr ds))"
proof -
  obtain r where r: "iter_snapshot_documents loader head stop = Some r"
    using iter_snapshot_documents_terminates [OF assms] by blast
  moreover have "ancestry loader stop head ds \<and> distinct (map dc_id ds)" if "r = Inr ds" for ds
    using r that iter_snapshot_documents_sound ancestry_distinct by blast
  moreover have "\<exists>ds. r = Inr ds" if "readable loader \<and> well_founded loader"
    using r that iter_from_no_error [of loader stop head head 0 "[]" r] by (simp add: iter_snapshot_documents_def)
  ultimately show ?thesis by blast
qed

text \<open>Metadata whose two snapshots name each other as parents.\<close>

definition cyclic_loader :: loader where
  "cyclic_loader c =
     (if c = 1 then Inr (Some \<lparr> dc_id = 1, dc_parent = Some 2, dc_seq = 5, dc_timestamp = 0, dc_summary = [] \<rparr>)
      else if c = 2 then Inr (Some \<lparr> dc_id = 2, dc_parent = Some 1, dc_seq = 4, dc_timestamp = 0, dc_summary = [] \<rparr>)
      else Inr None)"

theorem iter_snapshot_documents_exact_witness:
  "\<exists>r. iter_snapshot_documents cyclic_loader 1 9 = Some r \<and> (\<nexists>ds. r = Inr ds)"
proof -
  have "{c. cyclic_loader c \<noteq> Inr None} \<subseteq> {1, 2}" by (auto simp: cyclic_loader_def)
  then have "finite {c. cyclic_loader c \<noteq> Inr None}" by (rule finite_subset) simp
  from iter_snapshot_documents_exact [OF this] obtain r where r: "iter_snapshot_documents cyclic_loader 1 9 = Some r"
      "\<And>ds. r = Inr ds \<Longrightarrow> ancestry cyclic_loader 9 1 ds \<and> distinct (map dc_id ds)" by blast
  have "\<not> ancestry cyclic_loader 9 c ds" if "c \<in> {1, 2}" for c ds
    using that by (induction ds arbitrary: c) (auto simp: cyclic_loader_def)
  with r show ?thesis by blast
qed

end
