(* ===== verification/Binary64.thy ===== *)
theory Binary64
  imports Complex_Main Prelude
begin

text \<open>
  Python's \<open>float\<close> where the modelled code computes with it: a finite double is a rational number,
  an operation is the exact result rounded to 53 significant bits, to even on ties. Exponents are
  unbounded, which is exact for the magnitudes that occur (instants, durations and fractions of one).
  On top of it: \<open>timedelta.total_seconds()\<close>, \<open>timedelta(seconds=x)\<close> and
  \<open>datetime.fromtimestamp(x, UTC)\<close> with durations and instants as whole microseconds.
\<close>

section \<open>Rounding\<close>

definition round_even :: "rat \<Rightarrow> int" where
  "round_even x =
     (let f = \<lfloor>x\<rfloor>; r = x - of_int f
      in if r < 1 / 2 \<or> (r = 1 / 2 \<and> even f) then f else f + 1)"

function bit_length :: "int \<Rightarrow> int" where
  "bit_length n = (if n \<le> 0 then 0 else 1 + bit_length (n div 2))"
  by pat_completeness auto
termination
  by (relation "measure nat") auto

declare bit_length.simps [simp del]

definition binade :: "rat \<Rightarrow> int" where
  "binade x =
     (let (n, d) = quotient_of x; k = bit_length n - bit_length d
      in if 2 powi k \<le> x then k else k - 1)"

definition unit_place :: "rat \<Rightarrow> rat" where
  "unit_place x = 2 powi (binade \<bar>x\<bar> - 52)"

definition fl :: "rat \<Rightarrow> rat" where
  "fl x = (if x = 0 then 0 else of_int (round_even (x / unit_place x)) * unit_place x)"

definition is_double :: "rat \<Rightarrow> bool" where
  "is_double x \<longleftrightarrow> fl x = x"

section \<open>Durations and instants\<close>

definition total_seconds :: "int \<Rightarrow> rat" where
  "total_seconds us = fl (of_int us / 10 ^ 6)"

text \<open>
  The microseconds of a number of seconds: the integral part exactly, the fraction times a million as a
  double, rounded to even.
\<close>

definition microseconds :: "rat \<Rightarrow> int" where
  "microseconds x =
     (let m = \<lfloor>\<bar>x\<bar>\<rfloor>; us = m * 10 ^ 6 + round_even (fl ((\<bar>x\<bar> - of_int m) * 10 ^ 6))
      in if x < 0 then - us else us)"

definition fromtimestamp_ms :: "int \<Rightarrow> int result" where
  "fromtimestamp_ms ms =
     (let us = microseconds (fl (of_int ms / 1000))
      in if - 62135596800 * 10 ^ 6 \<le> us \<and> us < 253402300800 * 10 ^ 6 then Inr us else Inl ValueError)"

section \<open>Rounding to integers\<close>

lemma round_even_err: "\<bar>of_int (round_even x) - x\<bar> \<le> 1 / 2"
proof -
  have "of_int \<lfloor>x\<rfloor> \<le> x" "x < of_int \<lfloor>x\<rfloor> + 1" by linarith+
  then show ?thesis by (cases "x - of_int \<lfloor>x\<rfloor> < 1 / 2") (auto simp: round_even_def Let_def abs_le_iff)
qed

lemma round_even_of_int [simp]: "round_even (of_int n) = n"
  by (simp add: round_even_def)

lemma round_even_mono: "x \<le> y \<Longrightarrow> round_even x \<le> round_even y"
proof -
  assume le: "x \<le> y"
  show ?thesis
  proof (cases "\<lfloor>x\<rfloor> = \<lfloor>y\<rfloor>")
    case True
    with le show ?thesis unfolding round_even_def Let_def by auto
  next
    case False
    with floor_mono [OF le] have "\<lfloor>x\<rfloor> + 1 \<le> \<lfloor>y\<rfloor>" by linarith
    then show ?thesis unfolding round_even_def Let_def by auto
  qed
qed

lemma round_even_eq:
  assumes "\<bar>of_int n - x\<bar> < 1 / 2"
  shows "round_even x = n"
proof -
  have "\<bar>of_int (round_even x) - of_int n\<bar> < (1 :: rat)" using assms round_even_err [of x] by linarith
  then have "\<bar>round_even x - n\<bar> < 1" by (metis of_int_abs of_int_diff of_int_less_1_iff)
  then show ?thesis by linarith
qed

section \<open>Rounding to doubles\<close>

lemma powi_Suc: "(2 :: rat) powi (k + 1) = 2 * 2 powi k"
  by (simp add: power_int_add)

lemma bit_length_nonneg: "0 \<le> bit_length n"
proof (induction n rule: bit_length.induct)
  case (1 n)
  then show ?case by (subst bit_length.simps) simp
qed

lemma bit_length_bounds:
  "0 < n \<Longrightarrow> (2 :: rat) powi (bit_length n - 1) \<le> of_int n \<and> (of_int n :: rat) < 2 powi bit_length n"
proof (induction n rule: bit_length.induct)
  case (1 n)
  show ?case
  proof (cases "n = 1")
    case True
    have "bit_length 1 = 1" by (subst bit_length.simps, subst bit_length.simps) simp
    with True show ?thesis by simp
  next
    case False
    with 1 have pos: "0 < n div 2" by linarith
    have len: "bit_length n = bit_length (n div 2) + 1" using 1(2) by (subst bit_length.simps) simp
    have IH: "(2 :: rat) powi (bit_length (n div 2) - 1) \<le> of_int (n div 2)" "(of_int (n div 2) :: rat) < 2 powi bit_length (n div 2)"
      using 1 pos by auto
    have n: "2 * (n div 2) \<le> n" "n \<le> 2 * (n div 2) + 1" by linarith+
    obtain m where m: "bit_length (n div 2) = int m" using bit_length_nonneg by (metis nonneg_int_cases)
    have "(of_int (n div 2) :: rat) < of_int (2 ^ m)" using IH(2) by (simp add: m)
    then have "n div 2 + 1 \<le> 2 ^ m" by (simp only: of_int_less_iff)
    with n(2) have "n < 2 * 2 ^ m" by linarith
    then have "(of_int n :: rat) < of_int (2 * 2 ^ m)" by (simp only: of_int_less_iff)
    then have up: "(of_int n :: rat) < 2 powi bit_length n" by (simp add: len m powi_Suc)
    have "(2 :: rat) powi bit_length (n div 2) = 2 * 2 powi (bit_length (n div 2) - 1)"
      using powi_Suc [of "bit_length (n div 2) - 1"] by simp
    also have "\<dots> \<le> 2 * of_int (n div 2)" using IH(1) by simp
    also have "\<dots> \<le> of_int n" using n(1) by (metis of_int_le_iff of_int_mult of_int_numeral)
    finally show ?thesis using up by (simp add: len)
  qed
qed

lemma binade_bounds:
  assumes "0 < x"
  shows "2 powi binade x \<le> x" and "x < 2 powi (binade x + 1)"
proof -
  obtain n d where nd: "quotient_of x = (n, d)" by (cases "quotient_of x")
  then have d: "0 < d" and x: "x = of_int n / of_int d" by (auto dest: quotient_of_denom_pos quotient_of_div)
  with assms have n: "0 < n" by (auto simp: zero_less_divide_iff)
  let ?k = "bit_length n - bit_length d"
  note bn = bit_length_bounds [OF n] and bd = bit_length_bounds [OF d]
  have d': "(0 :: rat) < of_int d" using d by simp
  have "x < 2 powi bit_length n / 2 powi (bit_length d - 1)"
    unfolding x using bn bd d' n by (intro frac_less) auto
  then have up: "x < 2 powi (?k + 1)" by (simp add: power_int_diff [symmetric] algebra_simps)
  have "2 powi (bit_length n - 1) / 2 powi bit_length d \<le> x"
    unfolding x using bn bd d' n by (intro frac_le) auto
  then have lo: "2 powi (?k - 1) \<le> x" by (simp add: power_int_diff [symmetric] algebra_simps)
  show "2 powi binade x \<le> x" using lo by (simp add: binade_def nd Let_def)
  show "x < 2 powi (binade x + 1)" using up by (simp add: binade_def nd Let_def)
qed

lemma powi_le_cancel: "(2 :: rat) powi a < 2 powi b \<Longrightarrow> a < b"
  by (metis linorder_not_less one_le_numeral power_int_increasing)

lemma unit_place_pos [simp]: "0 < unit_place x"
  by (simp add: unit_place_def)

lemma unit_place_nonzero [simp]: "unit_place x \<noteq> 0"
  using unit_place_pos [of x] by (rule less_imp_neq [symmetric])

lemma fl_0 [simp]: "fl 0 = 0"
  by (simp add: fl_def)

lemma fl_err: "\<bar>fl x - x\<bar> \<le> unit_place x / 2"
proof (cases "x = 0")
  case False
  have "fl x - x = (of_int (round_even (x / unit_place x)) - x / unit_place x) * unit_place x"
    using False unit_place_pos [of x] by (simp add: fl_def left_diff_distrib less_imp_neq [symmetric])
  then have "\<bar>fl x - x\<bar> = \<bar>of_int (round_even (x / unit_place x)) - x / unit_place x\<bar> * unit_place x"
    using abs_of_pos [OF unit_place_pos] by (simp only: abs_mult)
  also have "\<dots> \<le> 1 / 2 * unit_place x" by (intro mult_right_mono round_even_err) (simp add: less_imp_le)
  finally show ?thesis by simp
qed (simp add: less_imp_le)

lemma unit_place_le:
  assumes "\<bar>x\<bar> < 2 powi k" and "x \<noteq> 0"
  shows "unit_place x \<le> 2 powi (k - 53)"
proof -
  have "(2 :: rat) powi binade \<bar>x\<bar> < 2 powi k" using binade_bounds(1) [of "\<bar>x\<bar>"] assms by simp
  then have "binade \<bar>x\<bar> < k" by (rule powi_le_cancel)
  then show ?thesis unfolding unit_place_def by (intro power_int_increasing) auto
qed

lemma fl_err_le: "\<bar>x\<bar> < 2 powi k \<Longrightarrow> \<bar>fl x - x\<bar> \<le> 2 powi (k - 54)"
proof (cases "x = 0")
  case False
  assume "\<bar>x\<bar> < 2 powi k"
  from unit_place_le [OF this False] fl_err [of x] have "\<bar>fl x - x\<bar> \<le> 2 powi (k - 53) / 2" by linarith
  then show ?thesis using powi_Suc [of "k - 54"] by simp
qed simp

lemma fl_nonneg: "0 \<le> x \<Longrightarrow> 0 \<le> fl x"
  using round_even_mono [of 0 "x / unit_place x"] round_even_of_int [of 0] unit_place_pos [of x]
  by (simp add: fl_def less_imp_le)

lemma fl_below: "0 < x \<Longrightarrow> fl x \<le> 2 powi (binade x + 1)"
proof -
  assume x: "0 < x"
  have "x / unit_place x \<le> 2 powi (binade x + 1) / unit_place x"
    using binade_bounds(2) [OF x] by (intro divide_right_mono) (simp_all add: less_imp_le)
  also have "\<dots> = of_int (2 ^ 53)" using x by (simp add: unit_place_def power_int_diff [symmetric])
  finally have "round_even (x / unit_place x) \<le> 2 ^ 53" using round_even_mono round_even_of_int by metis
  then have "of_int (round_even (x / unit_place x)) \<le> (of_int (2 ^ 53) :: rat)" by (simp only: of_int_le_iff)
  then have "fl x \<le> 2 ^ 53 * unit_place x" using x by (simp add: fl_def mult_right_mono less_imp_le)
  also have "\<dots> = 2 powi (binade x + 1)"
    using x power_int_add [of "2 :: rat" 53 "binade x - 52"] by (simp add: unit_place_def add.commute)
  finally show ?thesis .
qed

lemma fl_above: "0 < x \<Longrightarrow> 2 powi binade x \<le> fl x"
proof -
  assume x: "0 < x"
  have "of_int (2 ^ 52) = 2 powi binade x / unit_place x" using x by (simp add: unit_place_def power_int_diff [symmetric])
  also have "\<dots> \<le> x / unit_place x"
    using binade_bounds(1) [OF x] by (intro divide_right_mono) (simp_all add: less_imp_le)
  finally have "2 ^ 52 \<le> round_even (x / unit_place x)" using round_even_mono round_even_of_int by metis
  then have "(of_int (2 ^ 52) :: rat) \<le> of_int (round_even (x / unit_place x))" by (simp only: of_int_le_iff)
  then have "2 ^ 52 * unit_place x \<le> fl x" using x by (simp add: fl_def mult_right_mono less_imp_le)
  moreover have "2 ^ 52 * unit_place x = 2 powi binade x"
    using x power_int_add [of "2 :: rat" 52 "binade x - 52"] by (simp add: unit_place_def)
  ultimately show ?thesis by simp
qed

lemma fl_mono:
  assumes "0 \<le> x" and "x \<le> y"
  shows "fl x \<le> fl y"
proof (cases "x = 0")
  case True
  with assms show ?thesis by (simp add: fl_nonneg)
next
  case False
  with assms have pos: "0 < x" "0 < y" by auto
  show ?thesis
  proof (cases "binade x = binade y")
    case True
    then have u: "unit_place x = unit_place y" using pos by (simp add: unit_place_def)
    have "round_even (x / unit_place y) \<le> round_even (y / unit_place y)"
      by (intro round_even_mono divide_right_mono assms(2) less_imp_le [OF unit_place_pos])
    then show ?thesis using pos by (simp add: fl_def u mult_right_mono less_imp_le)
  next
    case False
    have "(2 :: rat) powi binade x < 2 powi (binade y + 1)"
      using binade_bounds [OF pos(1)] binade_bounds [OF pos(2)] assms(2) by linarith
    then have "binade x + 1 \<le> binade y" using False powi_le_cancel by fastforce
    then have "(2 :: rat) powi (binade x + 1) \<le> 2 powi binade y" by (intro power_int_increasing) auto
    with fl_below [OF pos(1)] fl_above [OF pos(2)] show ?thesis by linarith
  qed
qed

lemma fl_le_double: "0 \<le> x \<Longrightarrow> x \<le> y \<Longrightarrow> is_double y \<Longrightarrow> fl x \<le> y"
  using fl_mono [of x y] by (simp add: is_double_def)

lemma fraction_bounds:
  fixes z :: rat
  shows "0 \<le> (z - of_int \<lfloor>z\<rfloor>) * 10 ^ 6" and "(z - of_int \<lfloor>z\<rfloor>) * 10 ^ 6 < 10 ^ 6"
proof -
  have "0 \<le> z - of_int \<lfloor>z\<rfloor>" "z - of_int \<lfloor>z\<rfloor> < 1" by linarith+
  then show "0 \<le> (z - of_int \<lfloor>z\<rfloor>) * 10 ^ 6" "(z - of_int \<lfloor>z\<rfloor>) * 10 ^ 6 < 10 ^ 6" by simp_all
qed

section \<open>Scaling\<close>

lemma binade_unique: "0 < x \<Longrightarrow> 2 powi k \<le> x \<Longrightarrow> x < 2 powi (k + 1) \<Longrightarrow> binade x = k"
proof -
  assume x: "0 < x" "2 powi k \<le> x" "x < 2 powi (k + 1)"
  have "(2 :: rat) powi binade x < 2 powi (k + 1)" "(2 :: rat) powi k < 2 powi (binade x + 1)"
    using binade_bounds [OF x(1)] x(2,3) by linarith+
  then show ?thesis using powi_le_cancel [of "binade x" "k + 1"] powi_le_cancel [of k "binade x + 1"] by linarith
qed

lemma fl_scale: "0 \<le> x \<Longrightarrow> fl (x * 2 ^ e) = fl x * 2 ^ e"
proof (cases "x = 0")
  case False
  assume "0 \<le> x"
  with False have x: "0 < x" by simp
  have "binade (x * 2 ^ e) = binade x + int e"
    using binade_bounds [OF x] x by (intro binade_unique) (simp_all add: power_int_add)
  then have "unit_place (x * 2 ^ e) = unit_place x * 2 ^ e"
    using x power_int_add [of "2 :: rat" "binade x - 52" "int e"] by (simp add: unit_place_def abs_mult algebra_simps)
  with x show ?thesis by (simp add: fl_def)
qed simp

lemma fl_idem: "is_double (fl x)" if "0 \<le> x" for x
proof (cases "x = 0")
  case False
  with that have x: "0 < x" by simp
  let ?u = "unit_place x" and ?n = "round_even (x / unit_place x)"
  have pos: "0 < fl x" using fl_above [OF x] by (rule order.strict_trans2 [rotated]) simp
  show ?thesis
  proof (cases "fl x = 2 powi (binade x + 1)")
    case True
    have "binade (fl x) = binade x + 1" unfolding True
      by (rule binade_unique) (simp, simp, rule power_int_strict_increasing, simp_all)
    then have "fl x / unit_place (fl x) = of_int (2 ^ 52)"
      using pos by (simp add: True unit_place_def power_int_diff [symmetric])
    then have "fl (fl x) = of_int (2 ^ 52) * unit_place (fl x)" using pos by (simp only: fl_def round_even_of_int) simp
    also have "\<dots> = fl x" using \<open>fl x / unit_place (fl x) = of_int (2 ^ 52)\<close> unit_place_pos [of "fl x"]
      by (simp add: divide_eq_eq)
    finally show ?thesis by (simp add: is_double_def)
  next
    case False
    then have "fl x < 2 powi (binade x + 1)" using fl_below [OF x] by simp
    with fl_above [OF x] have "binade (fl x) = binade x" by (intro binade_unique pos)
    then have u: "unit_place (fl x) = ?u" using pos x by (simp add: unit_place_def)
    have "fl x = of_int ?n * ?u" using x by (simp add: fl_def)
    then have "fl x / ?u = of_int ?n" by (simp add: divide_eq_eq)
    then show ?thesis using pos \<open>fl x = of_int ?n * ?u\<close> unfolding is_double_def fl_def [of "fl x"] u by simp
  qed
qed (simp add: is_double_def)

section \<open>Round trips\<close>

text \<open>
  A duration or instant of less than \<open>2 ^ 33\<close> seconds survives the way through a double: the two
  roundings together stay below half a microsecond.
\<close>

lemma microseconds_near:
  assumes "0 \<le> x" and "\<bar>x * 10 ^ 6 - of_int n\<bar> < 49 / 100"
  shows "microseconds x = n"
proof -
  let ?m = "\<lfloor>x\<rfloor>" and ?y = "(x - of_int \<lfloor>x\<rfloor>) * 10 ^ 6"
  note y = fraction_bounds [of x]
  have "\<bar>?y\<bar> < 2 powi 20" using y by simp
  from fl_err_le [OF this] have e: "\<bar>fl ?y - ?y\<bar> \<le> 1 / 10000" by simp
  have "of_int (n - ?m * 10 ^ 6) - ?y = of_int n - x * 10 ^ 6" by (simp add: algebra_simps)
  with e assms(2) have "\<bar>of_int (n - ?m * 10 ^ 6) - fl ?y\<bar> < 1 / 2" by linarith
  from round_even_eq [OF this] assms(1) show ?thesis by (simp add: microseconds_def Let_def)
qed

lemma microseconds_total_seconds:
  assumes "0 \<le> n" and "n < 2 ^ 33 * 10 ^ 6"
  shows "microseconds (total_seconds n) = n"
proof (rule microseconds_near)
  have "(of_int n :: rat) < of_int (2 ^ 33 * 10 ^ 6)" using assms(2) by (simp only: of_int_less_iff)
  then have "\<bar>of_int n / 10 ^ 6 :: rat\<bar> < 2 powi 33" using assms(1) by simp
  from fl_err_le [OF this] have "\<bar>total_seconds n - of_int n / 10 ^ 6\<bar> \<le> 1 / 2 ^ 21"
    by (simp add: total_seconds_def power_int_def power_one_over)
  then have "\<bar>total_seconds n - of_int n / 10 ^ 6\<bar> * 10 ^ 6 \<le> 1 / 2 ^ 21 * 10 ^ 6" by (rule mult_right_mono) simp
  moreover have "\<bar>total_seconds n * 10 ^ 6 - of_int n\<bar> = \<bar>total_seconds n - of_int n / 10 ^ 6\<bar> * 10 ^ 6"
    by (simp add: abs_if field_simps)
  ultimately show "\<bar>total_seconds n * 10 ^ 6 - of_int n\<bar> < 49 / 100" by simp
  show "0 \<le> total_seconds n" using assms(1) by (simp add: total_seconds_def fl_nonneg)
qed

lemma fromtimestamp_ms_exact:
  assumes "0 \<le> ms" and "ms < 2 ^ 33 * 1000"
  shows "fromtimestamp_ms ms = Inr (ms * 1000)"
proof -
  have "fl (of_int ms / 1000) = total_seconds (ms * 1000)" by (simp add: total_seconds_def)
  then have "microseconds (fl (of_int ms / 1000)) = ms * 1000"
    using microseconds_total_seconds [of "ms * 1000"] assms by simp
  then show ?thesis using assms by (simp add: fromtimestamp_ms_def)
qed

lemma microseconds_mono:
  assumes "0 \<le> x" and "x \<le> y"
  shows "microseconds x \<le> microseconds y"
proof -
  let ?f = "\<lambda>x :: rat. (x - of_int \<lfloor>x\<rfloor>) * 10 ^ 6"
  have y: "0 \<le> y" using assms by linarith
  have one: "is_double (10 ^ 6)" by code_simp
  have r: "0 \<le> round_even (fl (?f z))" "round_even (fl (?f z)) \<le> 10 ^ 6" for z :: rat
  proof -
    note z = fraction_bounds(1) [of z] less_imp_le [OF fraction_bounds(2) [of z]]
    show "0 \<le> round_even (fl (?f z))" using round_even_mono [OF fl_nonneg [OF z(1)]] round_even_of_int [of 0] by simp
    show "round_even (fl (?f z)) \<le> 10 ^ 6"
      using round_even_mono [OF fl_le_double [OF z one]] round_even_of_int [of "10 ^ 6"] by simp
  qed
  show ?thesis
  proof (cases "\<lfloor>x\<rfloor> = \<lfloor>y\<rfloor>")
    case True
    have "fl (?f x) \<le> fl (?f y)" using True assms fraction_bounds(1) [of x] by (intro fl_mono mult_right_mono) simp_all
    with True assms y show ?thesis by (simp add: microseconds_def Let_def round_even_mono)
  next
    case False
    with floor_mono [OF assms(2)] have "\<lfloor>x\<rfloor> + 1 \<le> \<lfloor>y\<rfloor>" by linarith
    then show ?thesis using r [of x] r [of y] assms y by (simp add: microseconds_def Let_def)
  qed
qed

end
