(* ===== verification/Settings.thy ===== *)
theory Settings
  imports Binary64 Pytext
begin

text \<open>
  Operational settings (\<open>state/settings.py\<close>): the environment overrides, their validation, and the
  jittered exponential retry delay. Durations are whole microseconds. SHA-256 is the parameter
  \<open>sha256\<close>.
\<close>

section \<open>Settings\<close>

record reconciler_settings =
  poll_interval :: int
  claim_batch_size :: int
  max_drain_batches :: int
  max_snapshots_per_plan :: int
  lease_duration :: int
  lease_heartbeat_interval :: int
  retry_base_delay :: int
  retry_max_delay :: int
  max_attempts :: int
  max_due_work :: int
  max_open_work_age :: int
  max_retention_age :: int
  audit_retention :: int
  cleanup_batch_size :: int

definition seconds :: "int \<Rightarrow> int" where
  "seconds n = n * 1000000"

definition settings_defaults :: reconciler_settings where
  "settings_defaults =
     \<lparr> poll_interval = seconds 30, claim_batch_size = 1, max_drain_batches = 64, max_snapshots_per_plan = 32,
       lease_duration = seconds (15 * 60), lease_heartbeat_interval = seconds (5 * 60),
       retry_base_delay = seconds 30, retry_max_delay = seconds (30 * 60), max_attempts = 10,
       max_due_work = 10000, max_open_work_age = seconds 3600, max_retention_age = seconds (24 * 3600),
       audit_retention = seconds (30 * 86400), cleanup_batch_size = 128 \<rparr>"

definition ReconcilerSettings_validate :: "reconciler_settings \<Rightarrow> reconciler_settings result" where
  "ReconcilerSettings_validate c =
     rbind (ensure (list_all (\<lambda>n. 1 \<le> n)
       [claim_batch_size c, max_drain_batches c, max_snapshots_per_plan c, max_attempts c, max_due_work c,
        cleanup_batch_size c]) ValueError) (\<lambda>_.
     rbind (ensure (\<not> list_ex (\<lambda>d. d \<le> 0)
       [poll_interval c, lease_duration c, lease_heartbeat_interval c, max_open_work_age c, max_retention_age c,
        audit_retention c]) ValueError) (\<lambda>_.
     rbind (ensure (lease_heartbeat_interval c < lease_duration c) ValueError) (\<lambda>_.
     rbind (ensure (0 < retry_base_delay c \<and> retry_base_delay c \<le> retry_max_delay c) ValueError) (\<lambda>_.
     Inr c))))"

definition default_reconciler_settings :: "reconciler_settings result" where
  "default_reconciler_settings = ReconcilerSettings_validate settings_defaults"

section \<open>Environment\<close>

type_synonym environment = "string \<Rightarrow> string option"

definition env_int :: "environment \<Rightarrow> string \<Rightarrow> int \<Rightarrow> int result" where
  "env_int source name dflt =
     (case source name of
        None \<Rightarrow> Inr dflt
      | Some raw \<Rightarrow>
          if is_blank raw then Inr dflt
          else (case py_int 10 raw of None \<Rightarrow> Inl ValueError | Some n \<Rightarrow> Inr n))"

text \<open>\<open>timedelta(seconds=n)\<close>: at most 999999999 days either way.\<close>

definition timedelta_of_seconds :: "int \<Rightarrow> int result" where
  "timedelta_of_seconds n = (if \<bar>n div 86400\<bar> \<le> 999999999 then Inr (seconds n) else Inl OverflowError)"

definition env_seconds :: "environment \<Rightarrow> string \<Rightarrow> int \<Rightarrow> int result" where
  "env_seconds source name dflt =
     (case source name of
        None \<Rightarrow> Inr dflt
      | Some raw \<Rightarrow>
          if is_blank raw then Inr dflt
          else (case py_int 10 raw of None \<Rightarrow> Inl ValueError | Some n \<Rightarrow> timedelta_of_seconds n))"

definition settings_from_environment :: "environment \<Rightarrow> reconciler_settings result" where
  "settings_from_environment source =
     (let defaults = settings_defaults
      in rbind (env_seconds source ''LANCE_ETL_POLL_INTERVAL_SECONDS'' (poll_interval defaults)) (\<lambda>poll.
         rbind (env_int source ''LANCE_ETL_CLAIM_BATCH_SIZE'' (claim_batch_size defaults)) (\<lambda>batch.
         rbind (env_int source ''LANCE_ETL_MAX_DRAIN_BATCHES'' (max_drain_batches defaults)) (\<lambda>drain.
         rbind (env_int source ''LANCE_ETL_MAX_SNAPSHOTS_PER_PLAN'' (max_snapshots_per_plan defaults)) (\<lambda>plans.
         rbind (env_seconds source ''LANCE_ETL_LEASE_DURATION_SECONDS'' (lease_duration defaults)) (\<lambda>lease.
         rbind (env_seconds source ''LANCE_ETL_LEASE_HEARTBEAT_SECONDS'' (lease_heartbeat_interval defaults)) (\<lambda>heartbeat.
         rbind (env_seconds source ''LANCE_ETL_RETRY_BASE_DELAY_SECONDS'' (retry_base_delay defaults)) (\<lambda>base.
         rbind (env_seconds source ''LANCE_ETL_RETRY_MAX_DELAY_SECONDS'' (retry_max_delay defaults)) (\<lambda>cap.
         rbind (env_int source ''LANCE_ETL_MAX_ATTEMPTS'' (max_attempts defaults)) (\<lambda>attempts.
         rbind (env_int source ''LANCE_ETL_MAX_DUE_WORK'' (max_due_work defaults)) (\<lambda>due.
         rbind (env_seconds source ''LANCE_ETL_MAX_OPEN_WORK_AGE_SECONDS'' (max_open_work_age defaults)) (\<lambda>age.
         rbind (env_seconds source ''LANCE_ETL_MAX_RETENTION_AGE_SECONDS'' (max_retention_age defaults)) (\<lambda>retention.
         rbind (env_seconds source ''LANCE_ETL_AUDIT_RETENTION_SECONDS'' (audit_retention defaults)) (\<lambda>audit.
         rbind (env_int source ''LANCE_ETL_CLEANUP_BATCH_SIZE'' (cleanup_batch_size defaults)) (\<lambda>cleanup.
         ReconcilerSettings_validate
           \<lparr> poll_interval = poll, claim_batch_size = batch, max_drain_batches = drain, max_snapshots_per_plan = plans,
             lease_duration = lease, lease_heartbeat_interval = heartbeat, retry_base_delay = base,
             retry_max_delay = cap, max_attempts = attempts, max_due_work = due, max_open_work_age = age,
             max_retention_age = retention, audit_retention = audit, cleanup_batch_size = cleanup \<rparr>)))))))))))))))"

section \<open>Retry delay\<close>

definition retry_exponent :: "int \<Rightarrow> nat" where
  "retry_exponent attempt_count = nat (max 0 (min (attempt_count - 1) 10))"

definition retry_cap_seconds :: "reconciler_settings \<Rightarrow> int \<Rightarrow> rat" where
  "retry_cap_seconds c attempt_count =
     min (fl (total_seconds (retry_base_delay c) * 2 ^ retry_exponent attempt_count))
         (total_seconds (retry_max_delay c))"

definition retry_sample :: "(bytes \<Rightarrow> bytes) \<Rightarrow> int \<Rightarrow> uuid option \<Rightarrow> rat" where
  "retry_sample sha256 attempt_count work_id =
     (let seed = utf8 ((case work_id of None \<Rightarrow> ''reconciler'' | Some u \<Rightarrow> uuid_str u) @ '':'' @ show_int attempt_count)
      in fl (fl (of_nat (be_value (take 8 (sha256 seed)))) / fl (2 ^ 64 - 1)))"

definition retry_delay :: "(bytes \<Rightarrow> bytes) \<Rightarrow> reconciler_settings \<Rightarrow> int \<Rightarrow> uuid option \<Rightarrow> int result" where
  "retry_delay sha256 c attempt_count work_id =
     rbind (ensure (1 \<le> attempt_count) ValueError) (\<lambda>_.
     Inr (microseconds (fl (retry_cap_seconds c attempt_count * retry_sample sha256 attempt_count work_id))))"

section \<open>Bounds\<close>

lemma be_value_less: "be_value bs < 256 ^ length bs"
proof (induction bs)
  case (Cons b bs)
  have "unat b < 256" using unsigned_less [of b] by simp
  then have "unat b * 256 ^ length bs + be_value bs < Suc (unat b) * 256 ^ length bs" using Cons by simp
  also have "\<dots> \<le> 256 * 256 ^ length bs" using \<open>unat b < 256\<close> by (intro mult_right_mono) simp_all
  finally show ?case by simp
qed simp

lemma retry_sample_bounds: "0 \<le> retry_sample sha256 a w" "retry_sample sha256 a w \<le> 1"
proof -
  define n where "n = be_value (take 8 (sha256 (utf8 ((case w of None \<Rightarrow> ''reconciler'' | Some u \<Rightarrow> uuid_str u) @ '':'' @ show_int a))))"
  have r: "retry_sample sha256 a w = fl (fl (of_nat n) / 2 ^ 64)"
  proof -
    have "fl (2 ^ 64 - 1) = 2 ^ 64" by code_simp
    then show ?thesis by (simp add: retry_sample_def n_def Let_def)
  qed
  have "n < 256 ^ 8"
    unfolding n_def by (rule order.strict_trans2 [OF be_value_less]) (rule power_increasing, simp_all)
  then have "(of_nat n :: rat) \<le> of_nat (2 ^ 64)" by (intro of_nat_mono) simp
  moreover have "is_double (2 ^ 64)" "is_double 1" by code_simp+
  ultimately have n: "0 \<le> fl (of_nat n)" "fl (of_nat n) \<le> 2 ^ 64" by (simp_all add: fl_nonneg fl_le_double)
  then show "0 \<le> retry_sample sha256 a w" by (simp add: r fl_nonneg)
  show "retry_sample sha256 a w \<le> 1" unfolding r using n \<open>is_double 1\<close> by (intro fl_le_double) simp_all
qed

lemma retry_cap_double: "0 \<le> retry_base_delay c \<Longrightarrow> 0 \<le> retry_max_delay c \<Longrightarrow>
    0 \<le> retry_cap_seconds c a \<and> is_double (retry_cap_seconds c a)"
  by (auto simp: retry_cap_seconds_def total_seconds_def min_def fl_nonneg intro!: fl_idem)

lemma retry_cap_microseconds:
  assumes "0 \<le> retry_base_delay c" and "0 \<le> retry_max_delay c" and "retry_max_delay c < 2 ^ 33 * 10 ^ 6"
  shows "microseconds (retry_cap_seconds c a) \<le> min (retry_base_delay c * 2 ^ retry_exponent a) (retry_max_delay c)"
proof -
  let ?b = "retry_base_delay c * 2 ^ retry_exponent a"
  have scaled: "fl (total_seconds (retry_base_delay c) * 2 ^ retry_exponent a) = total_seconds ?b"
  proof -
    have b: "(0 :: rat) \<le> of_int (retry_base_delay c) / 10 ^ 6" using assms(1) by simp
    have "fl (total_seconds (retry_base_delay c) * 2 ^ retry_exponent a) = total_seconds (retry_base_delay c) * 2 ^ retry_exponent a"
      using fl_scale [of "total_seconds (retry_base_delay c)"] fl_idem [OF b] fl_nonneg [OF b]
      by (simp add: total_seconds_def is_double_def)
    also have "\<dots> = total_seconds ?b" using fl_scale [OF b] by (simp add: total_seconds_def)
    finally show ?thesis .
  qed
  have cap: "retry_cap_seconds c a = min (total_seconds ?b) (total_seconds (retry_max_delay c))"
    by (simp add: retry_cap_seconds_def scaled)
  have nonneg: "0 \<le> total_seconds ?b" "0 \<le> total_seconds (retry_max_delay c)" using assms by (simp_all add: total_seconds_def fl_nonneg)
  have "microseconds (retry_cap_seconds c a) \<le> microseconds (total_seconds (retry_max_delay c))"
    using nonneg by (intro microseconds_mono) (simp_all add: cap)
  then have le: "microseconds (retry_cap_seconds c a) \<le> retry_max_delay c"
    using assms microseconds_total_seconds by simp
  show ?thesis
  proof (cases "?b < 2 ^ 33 * 10 ^ 6")
    case True
    have "microseconds (retry_cap_seconds c a) \<le> microseconds (total_seconds ?b)"
      using nonneg by (intro microseconds_mono) (simp_all add: cap)
    with True le show ?thesis using assms microseconds_total_seconds [of ?b] by simp
  next
    case False
    with le assms(3) show ?thesis by simp
  qed
qed

text \<open>
  C31. The retry delay of validated settings is defined for every positive attempt, is not negative, and
  exceeds neither the configured maximum nor the exponentially growing bound \<open>base * 2 ^ (attempt - 1)\<close>
  (the exponent stops at ten), whatever the jitter: none of the roundings of the floating-point
  computation takes the delay past either limit. The maximum must be below \<open>2 ^ 33\<close> seconds.
\<close>

theorem retry_delay_bounds:
  assumes "ReconcilerSettings_validate c = Inr c'" and "retry_max_delay c < 2 ^ 33 * 10 ^ 6" and "1 \<le> attempt"
  shows "\<exists>d. retry_delay sha256 c attempt work_id = Inr d \<and> 0 \<le> d \<and>
    d \<le> min (retry_base_delay c * 2 ^ nat (min (attempt - 1) 10)) (retry_max_delay c)"
proof -
  have d: "0 \<le> retry_base_delay c" "0 \<le> retry_max_delay c"
    using assms(1) by (auto simp: ReconcilerSettings_validate_def rbind_Inr_iff ensure_Inr_iff)
  let ?cap = "retry_cap_seconds c attempt" and ?x = "retry_sample sha256 attempt work_id"
  note cap = retry_cap_double [OF d, of attempt] and x = retry_sample_bounds [of sha256 attempt work_id]
  have prod: "0 \<le> ?cap * ?x" "?cap * ?x \<le> ?cap" using cap x by (simp_all add: mult_left_le)
  then have "microseconds (fl (?cap * ?x)) \<le> microseconds ?cap"
    using cap by (intro microseconds_mono fl_le_double fl_nonneg) simp_all
  moreover have "0 \<le> microseconds (fl (?cap * ?x))"
    using microseconds_mono [of 0 "fl (?cap * ?x)"] prod by (simp add: fl_nonneg microseconds_def round_even_def)
  moreover have "retry_exponent attempt = nat (min (attempt - 1) 10)" using assms(3) by (simp add: retry_exponent_def)
  ultimately show ?thesis
    using retry_cap_microseconds [OF d assms(2), of attempt] assms(3) by (simp add: retry_delay_def)
qed

theorem retry_delay_bounds_witness:
  "\<exists>d. retry_delay (\<lambda>_. replicate 32 255) settings_defaults 3 (Some 7) = Inr d \<and> 0 \<le> d \<and> d \<le> seconds 120"
proof -
  have "ReconcilerSettings_validate settings_defaults = Inr settings_defaults" by code_simp
  from retry_delay_bounds [OF this, of 3 "\<lambda>_. replicate 32 255" "Some 7"] show ?thesis
    by (simp add: settings_defaults_def seconds_def)
qed

section \<open>The environment only gives valid settings\<close>

definition settings_ok :: "reconciler_settings \<Rightarrow> bool" where
  "settings_ok c \<longleftrightarrow>
     0 < claim_batch_size c \<and> 0 < max_drain_batches c \<and> 0 < max_snapshots_per_plan c \<and> 0 < max_attempts c \<and>
     0 < max_due_work c \<and> 0 < cleanup_batch_size c \<and> 0 < poll_interval c \<and> 0 < lease_heartbeat_interval c \<and>
     lease_heartbeat_interval c < lease_duration c \<and> 0 < max_open_work_age c \<and> 0 < max_retention_age c \<and>
     0 < audit_retention c \<and> 0 < retry_base_delay c \<and> retry_base_delay c \<le> retry_max_delay c"

lemma ReconcilerSettings_validate_Inr: "ReconcilerSettings_validate c = Inr c' \<longleftrightarrow> c' = c \<and> settings_ok c"
  by (auto simp: ReconcilerSettings_validate_def settings_ok_def rbind_Inr_iff ensure_Inr_iff)

lemma settings_from_environment_ok: "settings_from_environment source = Inr c \<Longrightarrow> settings_ok c"
  by (auto simp: settings_from_environment_def Let_def rbind_Inr_iff ReconcilerSettings_validate_Inr)

lemma settings_from_environment_unset: "settings_from_environment (\<lambda>_. None) = Inr settings_defaults"
proof -
  have "settings_ok settings_defaults" by code_simp
  then have "ReconcilerSettings_validate settings_defaults = Inr settings_defaults" by (simp add: ReconcilerSettings_validate_Inr)
  then show ?thesis by (simp add: settings_from_environment_def env_int_def env_seconds_def Let_def settings_defaults_def)
qed

end
