(* ===== verification/Planner.thy ===== *)
theory Planner
  imports Ancestry Enqueue Binary64
begin

text \<open>
  The durable source planner (\<open>reconciler/iceberg.py\<close>) and the enqueuer of its plans
  (\<open>reconciler/planning.py\<close>). Iceberg and Spark are the record \<open>catalog\<close>: the metadata pinned for
  a planning cycle with its snapshot loader, the live metadata read again before a plan is handed over,
  the aggregation of partition specifications, the distinct manifest rows of a snapshot, and the
  qualification of a baseline. Every repository call is a transaction of its own; \<open>others n\<close> is what
  other clients commit before the \<open>n\<close>-th of them. A planning function returns its result with the
  database; \<open>None\<close> is an ancestry walk that does not end.
\<close>

section \<open>The catalog\<close>

record manifest_row =
  mr_snapshot :: "int option"
  mr_status :: "int option"
  mr_content :: "int option"
  mr_spec :: "int option"
  mr_tenant :: "string option"
  mr_namespace :: "string option"
  mr_org :: "string option"
  mr_hour :: "int option"

record baseline_proof =
  bp_table_uuid :: string
  bp_snapshot :: int
  bp_spec :: int
  bp_canonical :: bool
  bp_conflicts :: int

record catalog =
  ct_pin :: "table_metadata result"
  ct_loader :: loader
  ct_live :: "(table_metadata \<times> loader) result"
  ct_added_specs :: "int list \<Rightarrow> spec_row list result"
  ct_entry_rows :: "int \<Rightarrow> manifest_row list result"
  ct_file_rows :: "int \<Rightarrow> manifest_row list result"
  ct_qualify :: "table_metadata \<Rightarrow> int \<Rightarrow> baseline_proof result"
  ct_baseline :: "int option"

definition TABLE_IDENTIFIER_PATTERN :: "string \<Rightarrow> bool" where
  "TABLE_IDENTIFIER_PATTERN table =
     (let parts = split_on CHR ''.'' table
      in 3 \<le> length parts \<and> length parts \<le> 130 \<and> list_all IDENTIFIER_PATTERN parts)"

definition validate_table :: "string \<Rightarrow> string result" where
  "validate_table table =
     rbind (ensure (\<not> (514 < length table \<or> \<not> TABLE_IDENTIFIER_PATTERN table)) ValueError) (\<lambda>_. Inr table)"

definition MANIFEST_STATUS_BY_CODE :: "int \<Rightarrow> manifest_status result" where
  "MANIFEST_STATUS_BY_CODE c =
     (if c = 0 then Inr EXISTING else if c = 1 then Inr ADDED else if c = 2 then Inr DELETED else Inl KeyError)"

definition MANIFEST_CONTENT_BY_CODE :: "int \<Rightarrow> manifest_content result" where
  "MANIFEST_CONTENT_BY_CODE c =
     (if c = 0 then Inr DATA else if c = 1 then Inr POSITION_DELETES else if c = 2 then Inr EQUALITY_DELETES
      else Inl KeyError)"

definition MAX_MANIFEST_FACTS_PER_SNAPSHOT :: nat where
  "MAX_MANIFEST_FACTS_PER_SNAPSHOT = 10000"

text \<open>\<open>int(None)\<close> raises \<open>TypeError\<close>.\<close>

definition int_cell :: "int option \<Rightarrow> int result" where
  "int_cell v = (case v of None \<Rightarrow> Inl TypeError | Some n \<Rightarrow> Inr n)"

definition manifest_from_row :: "manifest_row \<Rightarrow> int option \<Rightarrow> manifest_status option \<Rightarrow> manifest_entry result" where
  "manifest_from_row row snapshot status =
     rbind (case snapshot of Some x \<Rightarrow> Inr x | None \<Rightarrow> int_cell (mr_snapshot row)) (\<lambda>resolved.
     case (mr_tenant row, mr_namespace row, mr_org row, mr_hour row) of
       (Some t, Some n, Some g, Some h) \<Rightarrow>
         (case rbind (validate_routing_segment t) (\<lambda>_.
               rbind (validate_routing_segment n) (\<lambda>_. validate_routing_segment g)) of
            Inl _ \<Rightarrow> Inl (SourceSnapshotBlockedError resolved ''SOURCE_PARTITION_ROUTING'')
          | Inr _ \<Rightarrow>
              rbind (case status of Some x \<Rightarrow> Inr x | None \<Rightarrow> rbind (int_cell (mr_status row)) MANIFEST_STATUS_BY_CODE) (\<lambda>st.
              rbind (int_cell (mr_spec row)) (\<lambda>spec.
              rbind (rbind (int_cell (mr_content row)) MANIFEST_CONTENT_BY_CODE) (\<lambda>content.
              Inr \<lparr> me_snapshot = resolved, me_spec = spec, me_status = st, me_content = content,
                me_partition = \<lparr> pv_tenant = t, pv_namespace = n, pv_org = g, pv_hour = h \<rparr> \<rparr>))))
     | _ \<Rightarrow> Inl (SourceSnapshotBlockedError resolved ''SOURCE_PARTITION_NULL''))"

definition collect_manifest_rows :: "manifest_row list \<Rightarrow> int \<Rightarrow> manifest_row list result" where
  "collect_manifest_rows selected snapshot =
     (let rows = take (MAX_MANIFEST_FACTS_PER_SNAPSHOT + 1) selected
      in if MAX_MANIFEST_FACTS_PER_SNAPSHOT < length rows
         then Inl (SourceSnapshotBlockedError snapshot ''SOURCE_MANIFEST_FACT_LIMIT'') else Inr rows)"

text \<open>The handlers around both manifest reads.\<close>

definition manifest_read :: "int \<Rightarrow> 'a result \<Rightarrow> 'a result" where
  "manifest_read snapshot r =
     (case r of
        Inr x \<Rightarrow> Inr x
      | Inl e \<Rightarrow>
          if spark_error e then Inl (SourceSnapshotBlockedError snapshot ''SOURCE_SNAPSHOT_NOT_READABLE'')
          else if e \<in> {KeyError, TypeError, ValueError, MutationConflict}
          then Inl (SourceSnapshotBlockedError snapshot ''SOURCE_MANIFEST_CONTRACT'')
          else Inl e)"

definition baseline_entries :: "catalog \<Rightarrow> int \<Rightarrow> manifest_entry list result" where
  "baseline_entries ct snapshot =
     manifest_read snapshot
       (rbind (ct_file_rows ct snapshot) (\<lambda>selected.
        rbind (collect_manifest_rows selected snapshot) (\<lambda>rows.
        rmap (\<lambda>row. manifest_from_row row (Some snapshot) (Some EXISTING)) rows)))"

definition manifest_entries :: "catalog \<Rightarrow> string \<Rightarrow> int \<Rightarrow> manifest_entry list result" where
  "manifest_entries ct table snapshot =
     rbind (validate_table table) (\<lambda>_.
     if ct_baseline ct = Some snapshot then baseline_entries ct snapshot
     else manifest_read snapshot
       (rbind (ct_entry_rows ct snapshot) (\<lambda>selected.
        rbind (collect_manifest_rows selected snapshot) (\<lambda>rows.
        rmap (\<lambda>row. manifest_from_row row None None) rows))))"

definition maintenance_trust_of :: "string \<Rightarrow> int \<Rightarrow> maintenance_trust option result" where
  "maintenance_trust_of table snapshot =
     rbind (validate_table table) (\<lambda>_. rbind (ensure (0 \<le> snapshot) ValueError) (\<lambda>_. Inr None))"

text \<open>The errors of the live metadata read: \<open>RuntimeError\<close> is the base of every planning error.\<close>

fun is_runtime_error :: "py_error \<Rightarrow> bool" where
  "is_runtime_error RuntimeError = True"
| "is_runtime_error StateTransitionError = True"
| "is_runtime_error StaleSourcePlanError = True"
| "is_runtime_error ReplayConflict = True"
| "is_runtime_error CompletionConflict = True"
| "is_runtime_error SourcePlanningError = True"
| "is_runtime_error SourceConfigurationError = True"
| "is_runtime_error SourceContractError = True"
| "is_runtime_error SourceLineageError = True"
| "is_runtime_error SourceBaselineError = True"
| "is_runtime_error (SourceSnapshotBlockedError _ _) = True"
| "is_runtime_error _ = False"

definition verify_planning_snapshots :: "catalog \<Rightarrow> string \<Rightarrow> string \<Rightarrow> int list \<Rightarrow> unit result option" where
  "verify_planning_snapshots ct table expected_table_uuid snapshot_ids =
     (case snapshot_ids of
        [] \<Rightarrow> Some (Inr ())
      | stop # _ \<Rightarrow>
          (case rbind (validate_table table) (\<lambda>_. ct_live ct) of
             Inl e \<Rightarrow> Some (Inl (if spark_error e \<or> is_runtime_error e then SourceLineageError else e))
           | Inr (metadata, live_loader) \<Rightarrow>
               (case md_current metadata of
                  None \<Rightarrow> Some (Inl SourceLineageError)
                | Some head \<Rightarrow>
                    if md_table_uuid metadata \<noteq> expected_table_uuid then Some (Inl SourceLineageError)
                    else (case iter_snapshot_documents live_loader head stop of
                            None \<Rightarrow> None
                          | Some r \<Rightarrow> Some (rbind r (\<lambda>docs.
                              ensure (set snapshot_ids \<subseteq> set (map dc_id docs)) SourceLineageError))))))"

section \<open>Plans\<close>

record window_plan =
  wp_snapshot :: snapshot_record
  wp_kind :: window_kind
  wp_targets :: "target_key list"

record snapshot_rejection =
  rj_snapshot :: snapshot_record
  rj_error :: string

record source_plan =
  sp_table_uuid :: string
  sp_head :: "int option"
  sp_windows :: "window_plan list"
  sp_epoch :: "int option"
  sp_rejection :: "snapshot_rejection option"

definition plan_incremental_window :: "catalog \<Rightarrow> string \<Rightarrow> snapshot_record \<Rightarrow> window_plan result" where
  "plan_incremental_window ct table x =
     rbind (manifest_entries ct table (sn_id x)) (\<lambda>entries.
     rbind (maintenance_trust_of table (sn_id x)) (\<lambda>trust.
     rbind (classify_snapshot x entries trust) (\<lambda>kind.
     rbind (if kind = WK_APPEND then discover_added_targets x entries else Inr []) (\<lambda>targets.
     Inr \<lparr> wp_snapshot = x, wp_kind = kind, wp_targets = targets \<rparr>))))"

definition empty_plan :: "table_metadata \<Rightarrow> source_plan" where
  "empty_plan metadata =
     \<lparr> sp_table_uuid = md_table_uuid metadata, sp_head = md_current metadata, sp_windows = [], sp_epoch = None,
       sp_rejection = None \<rparr>"

definition empty_plan_from_checkpoint :: "snapshot_view \<Rightarrow> source_plan" where
  "empty_plan_from_checkpoint row =
     \<lparr> sp_table_uuid = uuid_str (v_table_uuid row), sp_head = Some (s_snapshot (v_row row)), sp_windows = [],
       sp_epoch = Some (v_epoch row), sp_rejection = None \<rparr>"

section \<open>Transactions of the planner\<close>

definition tx :: "(db \<Rightarrow> db) \<Rightarrow> (db \<Rightarrow> ('a \<times> db) result) \<Rightarrow> db \<Rightarrow> 'a result \<times> db" where
  "tx others f s =
     (case f (others s) of Inl e \<Rightarrow> (Inl e, others s) | Inr (x, s') \<Rightarrow> (Inr x, s'))"

definition gate_checkpoint :: "(db \<Rightarrow> db) \<Rightarrow> int \<Rightarrow> string \<Rightarrow> int option \<Rightarrow> int \<Rightarrow> db \<Rightarrow> unit result \<times> db" where
  "gate_checkpoint others seq ec epoch now s =
     (case tx others (block_source_snapshot seq ec None epoch now) s of
        (r, s') \<Rightarrow> (rbind r (\<lambda>blocked. ensure blocked SourceLineageError), s'))"

definition rejected_plan :: "uuid \<Rightarrow> snapshot_record \<Rightarrow> int option \<Rightarrow> snapshot_plan result" where
  "rejected_plan src x epoch =
     rbind (fromtimestamp_ms (sn_committed_ms x)) (\<lambda>committed_at.
     Inr \<lparr> pl_source = src, pl_snapshot = sn_id x, pl_parent = sn_parent x, pl_iceberg_seq = sn_seq x,
       pl_partition_spec = sn_spec x, pl_committed = committed_at, pl_committed_aware = True,
       pl_operation = sn_operation x, pl_kind = REJECTED, pl_epoch = epoch \<rparr>)"

definition persist_rejected ::
    "(db \<Rightarrow> db) \<Rightarrow> iceberg_source \<Rightarrow> snapshot_record \<Rightarrow> string \<Rightarrow> int \<Rightarrow> db \<Rightarrow> int result \<times> db" where
  "persist_rejected others src x ec now s =
     (case rejected_plan (source_id src) x None of
        Inl e \<Rightarrow> (Inl e, s)
      | Inr p \<Rightarrow> tx others (enqueue_blocked_source_snapshot p ec None now) s)"

definition then_return :: "'a result \<times> db \<Rightarrow> 'b \<Rightarrow> 'b result \<times> db" where
  "then_return r x = (case r of (m, s) \<Rightarrow> (rbind m (\<lambda>_. Inr x), s))"

section \<open>Initial baseline\<close>

definition reject_initial_head ::
    "(db \<Rightarrow> db) \<Rightarrow> iceberg_source \<Rightarrow> table_metadata \<Rightarrow> snapshot_record list \<Rightarrow> string \<Rightarrow> int \<Rightarrow> db \<Rightarrow>
     source_plan result \<times> db" where
  "reject_initial_head others src metadata snapshots ec now s =
     (case md_current metadata of
        None \<Rightarrow> (Inl SourceConfigurationError, s)
      | Some head \<Rightarrow>
          (case index_snapshots snapshots of
             Inl e \<Rightarrow> (Inl e, s)
           | Inr indexed \<Rightarrow>
               (case lookup_by sn_id head indexed of
                  None \<Rightarrow> (Inl SourceConfigurationError, s)
                | Some x \<Rightarrow> then_return (persist_rejected others src x ec now s) (empty_plan metadata))))"

definition proof_accepted :: "table_metadata \<Rightarrow> snapshot_record \<Rightarrow> baseline_proof \<Rightarrow> bool" where
  "proof_accepted metadata x p \<longleftrightarrow>
     bp_table_uuid p = md_table_uuid metadata \<and> bp_snapshot p = sn_id x \<and> bp_spec p = sn_spec x \<and> bp_canonical p \<and>
     bp_conflicts p = 0"

text \<open>The guarded block of the baseline plan: identity, qualification, targets, live verification.\<close>

definition baseline_window :: "catalog \<Rightarrow> string \<Rightarrow> table_metadata \<Rightarrow> snapshot_record \<Rightarrow> window_plan result option" where
  "baseline_window ct table metadata x =
     (case rbind (validate_snapshot_identity x (md_table_uuid metadata) (spec_id (md_spec metadata))) (\<lambda>_.
           rbind (case ct_qualify ct metadata (sn_id x) of
                    Inl e \<Rightarrow> Inl (if e \<in> {ValueError, MutationConflict} then SourceBaselineError else e)
                  | Inr p \<Rightarrow> Inr p) (\<lambda>p.
           rbind (ensure (proof_accepted metadata x p) SourceBaselineError) (\<lambda>_.
           rbind (manifest_entries ct table (sn_id x)) (\<lambda>entries.
           rbind (discover_baseline_targets x entries) (\<lambda>targets.
           Inr \<lparr> wp_snapshot = x, wp_kind = WK_BASELINE, wp_targets = targets \<rparr>))))) of
        Inl e \<Rightarrow> Some (Inl e)
      | Inr w \<Rightarrow>
          (case verify_planning_snapshots ct table (md_table_uuid metadata) [sn_id x] of
             None \<Rightarrow> None
           | Some r \<Rightarrow> Some (rbind r (\<lambda>_. Inr w))))"

fun baseline_error_code :: "py_error \<Rightarrow> string option" where
  "baseline_error_code (SourceSnapshotBlockedError _ ec) = Some ec"
| "baseline_error_code AnalysisException = Some ''BASELINE_NOT_RETAINED''"
| "baseline_error_code IllegalArgumentException = Some ''BASELINE_NOT_RETAINED''"
| "baseline_error_code SourceLineageError = Some ''BASELINE_IDENTITY_MISMATCH''"
| "baseline_error_code SourceBaselineError = Some ''BASELINE_NOT_CANONICAL''"
| "baseline_error_code _ = None"

definition qualify_initial_baseline ::
    "catalog \<Rightarrow> iceberg_source \<Rightarrow> (db \<Rightarrow> db) \<Rightarrow> table_metadata \<Rightarrow> snapshot_record \<Rightarrow> int \<Rightarrow> db \<Rightarrow>
     (source_plan result \<times> db) option" where
  "qualify_initial_baseline ct src others metadata x now s =
     (case baseline_window ct (spark_table src) metadata x of
        None \<Rightarrow> None
      | Some (Inr w) \<Rightarrow> Some (Inr ((empty_plan metadata)\<lparr> sp_windows := [w] \<rparr>), s)
      | Some (Inl e) \<Rightarrow>
          (case baseline_error_code e of
             None \<Rightarrow> Some (Inl e, s)
           | Some ec \<Rightarrow> Some (then_return (persist_rejected others src x ec now s) (empty_plan metadata))))"

definition plan_initial_baseline ::
    "catalog \<Rightarrow> iceberg_source \<Rightarrow> (db \<Rightarrow> db) \<Rightarrow> table_metadata \<Rightarrow> int \<Rightarrow> db \<Rightarrow> (source_plan result \<times> db) option" where
  "plan_initial_baseline ct src others metadata now s =
     (case md_current metadata of
        None \<Rightarrow> Some (Inl SourceConfigurationError, s)
      | Some head \<Rightarrow>
          (case snapshots_through (ct_loader ct) (ct_added_specs ct) metadata head
                  (case canonical_baseline_snapshot_id src of None \<Rightarrow> head | Some b \<Rightarrow> b) (Some 0) True of
             None \<Rightarrow> None
           | Some (Inl e) \<Rightarrow> Some (Inl e, s)
           | Some (Inr snapshots) \<Rightarrow>
               (case canonical_baseline_snapshot_id src of
                  None \<Rightarrow> Some (reject_initial_head others src metadata snapshots ''BASELINE_NOT_CONFIGURED'' now s)
                | Some b \<Rightarrow>
                    (case index_snapshots snapshots of
                       Inl e \<Rightarrow> Some (Inl e, s)
                     | Inr indexed \<Rightarrow>
                         (case lookup_by sn_id b indexed of
                            None \<Rightarrow> Some (reject_initial_head others src metadata snapshots ''BASELINE_NOT_RETAINED'' now s)
                          | Some x \<Rightarrow> qualify_initial_baseline ct src others metadata x now s)))))"

section \<open>Next increment\<close>

fun plan_windows ::
    "catalog \<Rightarrow> string \<Rightarrow> table_metadata \<Rightarrow> int \<Rightarrow> snapshot_record list \<Rightarrow>
     (window_plan list \<times> snapshot_rejection option) result" where
  "plan_windows ct table metadata previous [] = Inr ([], None)"
| "plan_windows ct table metadata previous (x # xs) =
     (case incremental_snapshot_error x metadata previous of
        Some ec \<Rightarrow> Inr ([], Some \<lparr> rj_snapshot = x, rj_error = ec \<rparr>)
      | None \<Rightarrow>
          (case plan_incremental_window ct table x of
             Inl (SourceSnapshotBlockedError _ ec) \<Rightarrow> Inr ([], Some \<lparr> rj_snapshot = x, rj_error = ec \<rparr>)
           | Inl e \<Rightarrow> Inl e
           | Inr w \<Rightarrow> rbind (plan_windows ct table metadata (sn_seq x) xs) (\<lambda>(ws, r). Inr (w # ws, r))))"

definition verification_ids :: "source_checkpoint \<Rightarrow> window_plan list \<Rightarrow> snapshot_rejection option \<Rightarrow> int list" where
  "verification_ids checkpoint windows rejection =
     ck_snapshot checkpoint # map (\<lambda>w. sn_id (wp_snapshot w)) windows @
     (case rejection of None \<Rightarrow> [] | Some r \<Rightarrow> [sn_id (rj_snapshot r)])"

definition gated_plan ::
    "(db \<Rightarrow> db) \<Rightarrow> int \<Rightarrow> string \<Rightarrow> int option \<Rightarrow> int \<Rightarrow> source_plan \<Rightarrow> db \<Rightarrow> (source_plan result \<times> db) option" where
  "gated_plan others seq ec epoch now p s = Some (then_return (gate_checkpoint others seq ec epoch now s) p)"

definition incremental_candidates ::
    "catalog \<Rightarrow> table_metadata \<Rightarrow> int \<Rightarrow> source_checkpoint \<Rightarrow> int \<Rightarrow> snapshot_record list result option" where
  "incremental_candidates ct metadata head checkpoint max_snapshots =
     (case snapshots_through (ct_loader ct) (ct_added_specs ct) metadata head (ck_snapshot checkpoint)
             (Some (max_snapshots + 1)) False of
        None \<Rightarrow> None
      | Some r \<Rightarrow> Some (rbind r (\<lambda>snapshots.
          bounded_incremental_candidates (bounded_tail (nat (max_snapshots + 2)) snapshots) checkpoint)))"

definition plan_next_increment ::
    "catalog \<Rightarrow> iceberg_source \<Rightarrow> (db \<Rightarrow> db) \<Rightarrow> table_metadata \<Rightarrow> source_checkpoint \<Rightarrow> int \<Rightarrow> int option \<Rightarrow> int \<Rightarrow>
     int \<Rightarrow> db \<Rightarrow> (source_plan result \<times> db) option" where
  "plan_next_increment ct src others metadata checkpoint seq epoch max_snapshots now s =
     (case md_current metadata of
        None \<Rightarrow> gated_plan others seq ''SOURCE_LINEAGE_UNTRUSTED'' epoch now (empty_plan metadata) s
      | Some head \<Rightarrow>
          (case incremental_candidates ct metadata head checkpoint max_snapshots of
             None \<Rightarrow> None
           | Some (Inl e) \<Rightarrow>
               if e = SourceContractError \<or> e = SourceLineageError
               then gated_plan others seq ''SOURCE_LINEAGE_UNTRUSTED'' epoch now (empty_plan metadata) s
               else Some (Inl e, s)
           | Some (Inr candidates) \<Rightarrow>
               if candidates = [] then Some (Inr (empty_plan metadata), s)
               else
                 (case plan_windows ct (spark_table src) metadata (ck_seq checkpoint) candidates of
                    Inl e \<Rightarrow> Some (Inl e, s)
                  | Inr (windows, rejection) \<Rightarrow>
                      (case verify_planning_snapshots ct (spark_table src) (md_table_uuid metadata)
                              (verification_ids checkpoint windows rejection) of
                         None \<Rightarrow> None
                       | Some (Inl e) \<Rightarrow>
                           if e = SourceLineageError
                           then gated_plan others seq ''SOURCE_LINEAGE_UNTRUSTED'' epoch now (empty_plan metadata) s
                           else Some (Inl e, s)
                       | Some (Inr _) \<Rightarrow>
                           Some (Inr \<lparr> sp_table_uuid = md_table_uuid metadata, sp_head = Some head,
                             sp_windows = windows, sp_epoch = epoch, sp_rejection = rejection \<rparr>, s)))))"

section \<open>Planning\<close>

definition checkpoint_of :: "snapshot_view \<Rightarrow> source_checkpoint" where
  "checkpoint_of row =
     \<lparr> ck_table_uuid = uuid_str (v_table_uuid row), ck_snapshot = s_snapshot (v_row row),
       ck_seq = s_iceberg_seq (v_row row), ck_spec = s_partition_spec (v_row row) \<rparr>"

definition plan_pinned ::
    "catalog \<Rightarrow> iceberg_source \<Rightarrow> (db \<Rightarrow> db) \<Rightarrow> snapshot_view option \<Rightarrow> table_metadata \<Rightarrow> int \<Rightarrow> int \<Rightarrow> db \<Rightarrow>
     (source_plan result \<times> db) option" where
  "plan_pinned ct src others row metadata max_snapshots now s =
     (case uuid_parse (md_table_uuid metadata) of
        Inl e \<Rightarrow> Some (Inl e, s)
      | Inr table_id \<Rightarrow>
          (case row of
             None \<Rightarrow>
               if table_id \<noteq> table_uuid src then Some (Inl SourceConfigurationError, s)
               else (case validate_table_contract metadata None REQUIRED_PARTITION_FIELDS of
                       Inl e \<Rightarrow> Some (Inl (if e = SourceContractError then SourceConfigurationError else e), s)
                     | Inr _ \<Rightarrow> plan_initial_baseline ct src others metadata now s)
           | Some v \<Rightarrow>
               (case validate_table_contract metadata (Some (checkpoint_of v)) REQUIRED_PARTITION_FIELDS of
                  Inl e \<Rightarrow>
                    if e = SourceContractError
                    then gated_plan others (s_seq (v_row v)) ''SOURCE_TABLE_CONTRACT'' (Some (v_epoch v)) now
                           (empty_plan_from_checkpoint v) s
                    else Some (Inl e, s)
                | Inr _ \<Rightarrow>
                    plan_next_increment ct src others metadata (checkpoint_of v) (s_seq (v_row v)) (Some (v_epoch v))
                      max_snapshots now s)))"

text \<open>
  \<open>plan\<close> reads the checkpoint, pins the metadata for the rest of the call, and turns a contract
  violation into a configuration error before the baseline and into a gate after it.
\<close>

definition plan ::
    "catalog \<Rightarrow> iceberg_source \<Rightarrow> (db \<Rightarrow> db) \<Rightarrow> int \<Rightarrow> int \<Rightarrow> db \<Rightarrow> (source_plan result \<times> db) option" where
  "plan ct src others max_snapshots now s =
     (case latest_source_snapshot (Some (source_id src)) s of
        Inl e \<Rightarrow> Some (Inl e, s)
      | Inr row \<Rightarrow>
          if (case row of None \<Rightarrow> False | Some v \<Rightarrow> v_blocked v)
          then Some (Inr (empty_plan_from_checkpoint (the row)), s)
          else if max_snapshots \<le> 0 then Some (Inl ValueError, s)
          else
            (case rbind (validate_table (spark_table src)) (\<lambda>_. ct_pin ct) of
               Inl e \<Rightarrow> Some (Inl e, s)
             | Inr metadata \<Rightarrow>
                 (case plan_pinned ct src others row metadata max_snapshots now s of
                    Some (Inl e, s') \<Rightarrow>
                      if e \<noteq> SourceContractError then Some (Inl e, s')
                      else (case row of
                              None \<Rightarrow> Some (Inl SourceConfigurationError, s')
                            | Some v \<Rightarrow>
                                gated_plan others (s_seq (v_row v)) ''SOURCE_TABLE_CONTRACT'' (Some (v_epoch v)) now
                                  (empty_plan_from_checkpoint v) s')
                  | r \<Rightarrow> r)))"

section \<open>Enqueuing a plan\<close>

record enqueue_summary =
  es_head :: "int option"
  es_planned :: nat
  es_enqueued :: nat
  es_sequences :: "int list"
  es_truncated :: bool

definition map_rejection :: "uuid \<Rightarrow> snapshot_rejection \<Rightarrow> int option \<Rightarrow> snapshot_plan result" where
  "map_rejection src rejection epoch = rejected_plan src (rj_snapshot rejection) epoch"

fun snapshot_kind_of :: "window_kind \<Rightarrow> snapshot_kind" where
  "snapshot_kind_of WK_BASELINE = BASELINE"
| "snapshot_kind_of WK_APPEND = APPEND"
| "snapshot_kind_of WK_TRUSTED_MAINTENANCE = TRUSTED_MAINTENANCE"

definition map_snapshot :: "uuid \<Rightarrow> window_plan \<Rightarrow> int option \<Rightarrow> snapshot_plan result" where
  "map_snapshot src w epoch =
     rbind (fromtimestamp_ms (sn_committed_ms (wp_snapshot w))) (\<lambda>committed_at.
     let x = wp_snapshot w
     in Inr \<lparr> pl_source = src, pl_snapshot = sn_id x, pl_parent = sn_parent x, pl_iceberg_seq = sn_seq x,
          pl_partition_spec = sn_spec x, pl_committed = committed_at, pl_committed_aware = True,
          pl_operation = sn_operation x, pl_kind = snapshot_kind_of (wp_kind w), pl_epoch = epoch \<rparr>)"

definition route_of :: "target_key \<Rightarrow> routing_identity" where
  "route_of t = (case t of (tenant, ns, org) \<Rightarrow> \<lparr> tenant_id = tenant, namespace = ns, org_id = org \<rparr>)"

fun map_targets :: "target_key list \<Rightarrow> target_key list \<Rightarrow> routing_identity list result" where
  "map_targets seen [] = Inr []"
| "map_targets seen (t # ts) =
     (if t \<in> set seen then Inl ValueError
      else rbind (map_targets (t # seen) ts) (\<lambda>rs. Inr (route_of t # rs)))"

definition map_datasets :: "window_plan \<Rightarrow> routing_identity list result" where
  "map_datasets w = (if wp_kind w = WK_TRUSTED_MAINTENANCE then Inr [] else map_targets [] (wp_targets w))"

fun enqueue_windows ::
    "(bytes \<Rightarrow> bytes) \<Rightarrow> uuid \<Rightarrow> int option \<Rightarrow> (nat \<Rightarrow> db \<Rightarrow> db) \<Rightarrow> nat \<Rightarrow> (nat \<Rightarrow> int) \<Rightarrow> window_plan list \<Rightarrow> db \<Rightarrow>
     int list result \<times> db" where
  "enqueue_windows sha1 src epoch others n now [] s = (Inr [], s)"
| "enqueue_windows sha1 src epoch others n now (w # ws) s =
     (case rbind (map_snapshot src w epoch) (\<lambda>p. rbind (map_datasets w) (\<lambda>ds. Inr (p, ds))) of
        Inl e \<Rightarrow> (Inl e, s)
      | Inr (p, ds) \<Rightarrow>
          (case tx (others n) (enqueue_source_snapshot sha1 p ds (now n)) s of
             (Inl e, s') \<Rightarrow> (Inl e, s')
           | (Inr q, s') \<Rightarrow>
               (case enqueue_windows sha1 src epoch others (Suc n) now ws s' of
                  (r, s'') \<Rightarrow> (rbind r (\<lambda>qs. Inr (q # qs)), s''))))"

definition enqueue_rejection ::
    "uuid \<Rightarrow> int option \<Rightarrow> (db \<Rightarrow> db) \<Rightarrow> int \<Rightarrow> snapshot_rejection \<Rightarrow> db \<Rightarrow> int result \<times> db" where
  "enqueue_rejection src epoch others now rejection s =
     (case map_rejection src rejection epoch of
        Inl e \<Rightarrow> (Inl e, s)
      | Inr p \<Rightarrow> tx others (enqueue_blocked_source_snapshot p (rj_error rejection) None now) s)"

definition enqueue_plan ::
    "(bytes \<Rightarrow> bytes) \<Rightarrow> iceberg_source \<Rightarrow> int \<Rightarrow> (nat \<Rightarrow> db \<Rightarrow> db) \<Rightarrow> (nat \<Rightarrow> int) \<Rightarrow> source_plan \<Rightarrow> db \<Rightarrow>
     enqueue_summary result \<times> db" where
  "enqueue_plan sha1 src max_snapshots others now sp s =
     (case rbind (uuid_parse (sp_table_uuid sp)) (\<lambda>u. ensure (u = table_uuid src) ValueError) of
        Inl e \<Rightarrow> (Inl e, s)
      | Inr _ \<Rightarrow>
          (let selected = take (nat max_snapshots) (sp_windows sp)
           in case enqueue_windows sha1 (source_id src) (sp_epoch sp) others 0 now selected s of
                (Inl e, s1) \<Rightarrow> (Inl e, s1)
              | (Inr sequences, s1) \<Rightarrow>
                  (case (case sp_rejection sp of
                           None \<Rightarrow> (Inr 0, s1)
                         | Some r \<Rightarrow>
                             if length selected = length (sp_windows sp)
                             then enqueue_rejection (source_id src) (sp_epoch sp) (others (length selected))
                                    (now (length selected)) r s1
                             else (Inr 0, s1)) of
                     (Inl e, s2) \<Rightarrow> (Inl e, s2)
                   | (Inr _, s2) \<Rightarrow>
                       (Inr \<lparr> es_head = sp_head sp, es_planned = length (sp_windows sp),
                          es_enqueued = length selected, es_sequences = sequences,
                          es_truncated = (length selected < length (sp_windows sp)) \<rparr>, s2))))"

text \<open>
  One planning cycle of the application (\<open>ReconcilerApplication.plan_and_enqueue_snapshots\<close>): plan,
  then enqueue; a stale observation ends the cycle without an error.
\<close>

definition plan_and_enqueue_snapshots ::
    "(bytes \<Rightarrow> bytes) \<Rightarrow> catalog \<Rightarrow> iceberg_source \<Rightarrow> int \<Rightarrow> (nat \<Rightarrow> db \<Rightarrow> db) \<Rightarrow> (nat \<Rightarrow> int) \<Rightarrow> db \<Rightarrow>
     (enqueue_summary result \<times> db) option" where
  "plan_and_enqueue_snapshots sha1 ct src max_snapshots others now s =
     (let stale = (\<lambda>(r, s'). (case r of
            Inl e \<Rightarrow> if e = StaleSourcePlanError
              then Inr \<lparr> es_head = None, es_planned = 0, es_enqueued = 0, es_sequences = [], es_truncated = True \<rparr>
              else Inl e
          | Inr x \<Rightarrow> Inr x, s'))
      in case plan ct src (others 0) max_snapshots (now 0) s of
           None \<Rightarrow> None
         | Some (Inl e, s1) \<Rightarrow> Some (stale (Inl e, s1))
         | Some (Inr sp, s1) \<Rightarrow>
             Some (stale (enqueue_plan sha1 src max_snapshots (\<lambda>n. others (Suc n)) (\<lambda>n. now (Suc n)) sp s1)))"

end
