(* ===== verification/Planner_Properties.thy ===== *)
theory Planner_Properties
  imports Planner Lineage_Properties Refinement_Planning
begin

text \<open>
  What the planner hands over: windows that form a direct chain from the durable checkpoint, which the
  repository admits one after the other; and what a planning cycle does to the database, whatever other
  clients commit in between and however it ends.
\<close>

section \<open>Chains\<close>

fun chained :: "int \<Rightarrow> int \<Rightarrow> snapshot_record list \<Rightarrow> bool" where
  "chained parent previous [] = True"
| "chained parent previous (x # xs) =
     (sn_parent x = Some parent \<and> previous < sn_seq x \<and> chained (sn_id x) (sn_seq x) xs)"

definition chain_end :: "int \<Rightarrow> int \<Rightarrow> snapshot_record list \<Rightarrow> int \<times> int" where
  "chain_end parent previous xs = (if xs = [] then (parent, previous) else (sn_id (last xs), sn_seq (last xs)))"

lemma chain_end_Cons: "chain_end parent previous (x # xs) = chain_end (sn_id x) (sn_seq x) xs"
  by (simp add: chain_end_def)

lemma chained_append:
  "chained parent previous (xs @ ys) \<longleftrightarrow>
     chained parent previous xs \<and> chained (fst (chain_end parent previous xs)) (snd (chain_end parent previous xs)) ys"
  by (induction xs arbitrary: parent previous) (auto simp: chain_end_def)

section \<open>Windows\<close>

lemma maintenance_trust_None: "maintenance_trust_of table snapshot = Inr trust \<Longrightarrow> trust = None"
  by (auto simp: maintenance_trust_of_def rbind_Inr_iff)

lemma classify_untrusted: "classify_snapshot x entries None = Inr kind \<Longrightarrow> kind = WK_APPEND"
  by (auto simp: classify_snapshot_def validate_trusted_rewrite_def trusted_def Let_def rbind_Inr_iff
      ensure_Inr_iff split: if_splits)

definition routable :: "target_key \<Rightarrow> bool" where
  "routable t = (case t of (tenant, ns, org) \<Rightarrow>
     ROUTING_SEGMENT_PATTERN tenant \<and> ROUTING_SEGMENT_PATTERN ns \<and> ROUTING_SEGMENT_PATTERN org)"

lemma manifest_from_row_routable: "manifest_from_row row snapshot status = Inr e \<Longrightarrow> routable (target_of (me_partition e))"
proof -
  assume m: "manifest_from_row row snapshot status = Inr e"
  then obtain t n g h where cells: "mr_tenant row = Some t" "mr_namespace row = Some n" "mr_org row = Some g" "mr_hour row = Some h"
    unfolding manifest_from_row_def rbind_Inr_iff
    by (cases "mr_tenant row"; cases "mr_namespace row"; cases "mr_org row"; cases "mr_hour row") auto
  let ?valid = "rbind (validate_routing_segment t) (\<lambda>_. rbind (validate_routing_segment n) (\<lambda>_. validate_routing_segment g))"
  obtain v where v: "?valid = Inr v"
  proof (cases ?valid)
    case (Inl e')
    with m cells have False by (cases "case snapshot of Some x \<Rightarrow> Inr x | None \<Rightarrow> int_cell (mr_snapshot row)") (simp_all add: manifest_from_row_def)
    then show ?thesis ..
  qed
  with m cells have "me_partition e = \<lparr> pv_tenant = t, pv_namespace = n, pv_org = g, pv_hour = h \<rparr>"
    by (cases "case snapshot of Some x \<Rightarrow> Inr x | None \<Rightarrow> int_cell (mr_snapshot row)")
      (auto simp: manifest_from_row_def rbind_Inr_iff [where y = e])
  with v show ?thesis by (auto simp: validate_routing_segment_def rbind_Inr_iff ensure_Inr_iff routable_def target_of_def)
qed

lemma manifest_read_Inr: "manifest_read snapshot r = Inr x \<longleftrightarrow> r = Inr x"
  by (auto simp: manifest_read_def split: sum.splits if_splits)

lemma manifest_entries_routable:
  "manifest_entries ct table snapshot = Inr entries \<Longrightarrow> e \<in> set entries \<Longrightarrow> routable (target_of (me_partition e))"
  by (auto simp: manifest_entries_def baseline_entries_def manifest_read_Inr rbind_Inr_iff split: if_splits
      dest!: rmap_Inr_mem intro: manifest_from_row_routable)

definition window_ok :: "string \<Rightarrow> int \<Rightarrow> window_plan \<Rightarrow> bool" where
  "window_ok tu spec w \<longleftrightarrow>
     sn_table (wp_snapshot w) = tu \<and> sn_spec (wp_snapshot w) = spec \<and> wp_kind w = WK_APPEND \<and>
     sorted_wrt (<) (wp_targets w) \<and> list_all routable (wp_targets w)"

lemma collected_targets:
  assumes "collect_targets p x entries [] = Inr ts" and "\<And>e. e \<in> set entries \<Longrightarrow> routable (target_of (me_partition e))"
  shows "sorted_wrt (<) ts \<and> list_all routable ts"
proof -
  from assms(1) have "ts = sorted_targets (rev (map (target_of \<circ> me_partition) (filter p entries)) @ [])"
    by (simp only: collect_targets_Inr)
  then have "sorted_wrt (<) ts" "set ts = set (rev (map (target_of \<circ> me_partition) (filter p entries)))"
    unfolding sorted_targets_iff by simp_all
  with assms(2) show ?thesis by (auto simp: list_all_iff)
qed

lemma plan_incremental_window_Inr:
  assumes "plan_incremental_window ct table x = Inr w"
  shows "wp_snapshot w = x \<and> wp_kind w = WK_APPEND \<and> sorted_wrt (<) (wp_targets w) \<and> list_all routable (wp_targets w)"
proof -
  from assms obtain entries kind targets where e: "manifest_entries ct table (sn_id x) = Inr entries"
    and k: "classify_snapshot x entries None = Inr kind"
    and t: "(if kind = WK_APPEND then discover_added_targets x entries else Inr []) = Inr targets"
    and w: "w = \<lparr> wp_snapshot = x, wp_kind = kind, wp_targets = targets \<rparr>"
    by (auto simp: plan_incremental_window_def rbind_Inr_iff dest!: maintenance_trust_None)
  have "kind = WK_APPEND" by (rule classify_untrusted [OF k])
  with t have "discover_added_targets x entries = Inr targets" by simp
  with collected_targets manifest_entries_routable [OF e] have "sorted_wrt (<) targets \<and> list_all routable targets"
    unfolding discover_added_targets_def by blast
  with w \<open>kind = WK_APPEND\<close> show ?thesis by simp
qed

definition rejection_extends :: "int \<Rightarrow> int \<Rightarrow> snapshot_record list \<Rightarrow> snapshot_rejection option \<Rightarrow> bool" where
  "rejection_extends parent previous xs rejection =
     (case rejection of
        None \<Rightarrow> True
      | Some r \<Rightarrow> sn_parent (rj_snapshot r) = Some (fst (chain_end parent previous xs)) \<and>
          (rj_error r \<notin> {''SOURCE_SEQUENCE_ORDER'', ''SOURCE_SNAPSHOT_IDENTITY''} \<longrightarrow>
             snd (chain_end parent previous xs) < sn_seq (rj_snapshot r)))"

lemma incremental_snapshot_error_None:
  "incremental_snapshot_error x metadata previous = None \<longleftrightarrow>
     sn_table x = md_table_uuid metadata \<and> sn_spec x = spec_id (md_spec metadata) \<and> previous < sn_seq x"
  by (auto simp: incremental_snapshot_error_def validate_snapshot_identity_def rbind_Inr_iff ensure_Inr_iff
      split: sum.splits if_splits)

lemma incremental_snapshot_error_Some:
  "incremental_snapshot_error x metadata previous = Some ec \<Longrightarrow>
     ec = ''SOURCE_SNAPSHOT_IDENTITY'' \<or> ec = ''SOURCE_SEQUENCE_ORDER'' \<and> sn_seq x \<le> previous"
  by (auto simp: incremental_snapshot_error_def split: sum.splits if_splits)

lemma direct_chain_Cons: "direct_chain parent (x # xs) = Inr u \<longleftrightarrow> sn_parent x = Some parent \<and> direct_chain (sn_id x) xs = Inr u"
  by (auto simp: rbind_Inr_iff ensure_Inr_iff)

lemma plan_windows_Inr:
  assumes "plan_windows ct table metadata previous cs = Inr (ws, rejection)" and "direct_chain parent cs = Inr ()"
  shows "chained parent previous (map wp_snapshot ws)"
    and "list_all (window_ok (md_table_uuid metadata) (spec_id (md_spec metadata))) ws"
    and "length ws \<le> length cs"
    and "rejection_extends parent previous (map wp_snapshot ws) rejection"
proof -
  have "chained parent previous (map wp_snapshot ws) \<and>
    list_all (window_ok (md_table_uuid metadata) (spec_id (md_spec metadata))) ws \<and> length ws \<le> length cs \<and>
    rejection_extends parent previous (map wp_snapshot ws) rejection"
    using assms
  proof (induction cs arbitrary: parent previous ws)
    case Nil
    then show ?case by (simp add: rejection_extends_def)
  next
    case (Cons x cs)
    then have chain: "sn_parent x = Some parent" "direct_chain (sn_id x) cs = Inr ()" by (simp_all only: direct_chain_Cons)
    show ?case
    proof (cases "incremental_snapshot_error x metadata previous")
      case (Some ec)
      with Cons.prems(1) chain(1) incremental_snapshot_error_Some [OF Some] show ?thesis
        by (auto simp: rejection_extends_def chain_end_def)
    next
      case None
      note ok = None [unfolded incremental_snapshot_error_None]
      show ?thesis
      proof (cases "plan_incremental_window ct table x")
        case (Inl e)
        with None Cons.prems(1) chain(1) ok show ?thesis
          by (cases e) (auto simp: rejection_extends_def chain_end_def)
      next
        case (Inr w)
        with None Cons.prems(1) obtain ws' where ws: "ws = w # ws'"
          and rest: "plan_windows ct table metadata (sn_seq x) cs = Inr (ws', rejection)"
          by (auto simp: rbind_Inr_iff)
        note w = plan_incremental_window_Inr [OF Inr]
        from Cons.IH [OF rest chain(2)] w ok chain(1) show ?thesis
          by (auto simp: ws window_ok_def rejection_extends_def chain_end_Cons split: option.splits)
      qed
    qed
  qed
  then show "chained parent previous (map wp_snapshot ws)"
    and "list_all (window_ok (md_table_uuid metadata) (spec_id (md_spec metadata))) ws"
    and "length ws \<le> length cs"
    and "rejection_extends parent previous (map wp_snapshot ws) rejection" by simp_all
qed

lemma incremental_candidates_Inr:
  assumes "incremental_candidates ct metadata head checkpoint max_snapshots = Some (Inr cs)" and "0 \<le> max_snapshots"
  shows "direct_chain (ck_snapshot checkpoint) cs = Inr () \<and> length cs \<le> nat (max_snapshots + 1)"
proof -
  from assms(1) obtain xs where cs: "bounded_incremental_candidates (bounded_tail (nat (max_snapshots + 2)) xs) checkpoint = Inr cs"
    by (auto simp: incremental_candidates_def rbind_Inr_iff split: option.splits)
  then have "cs = rev (butlast (bounded_tail (nat (max_snapshots + 2)) xs))" "direct_chain (ck_snapshot checkpoint) cs = Inr ()"
    by (auto simp: bounded_incremental_candidates_def Let_def rbind_Inr_iff split: option.splits)
  moreover have "length (bounded_tail (nat (max_snapshots + 2)) xs) \<le> nat (max_snapshots + 2)"
    by (simp add: bounded_tail_def)
  ultimately show ?thesis using assms(2) by simp
qed

section \<open>Plans\<close>

definition plan_empty :: "source_plan \<Rightarrow> bool" where
  "plan_empty sp \<longleftrightarrow> sp_windows sp = [] \<and> sp_rejection sp = None"

lemma plan_empty_simps [simp]: "plan_empty (empty_plan metadata)" "plan_empty (empty_plan_from_checkpoint v)"
  by (simp_all add: plan_empty_def empty_plan_def empty_plan_from_checkpoint_def)

lemma then_return_Inr: "then_return r x = (Inr y, s') \<Longrightarrow> y = x"
  by (cases r) (auto simp: then_return_def rbind_Inr_iff)

lemma gated_plan_Inr: "gated_plan others seq ec epoch now p s = Some (Inr sp, s') \<Longrightarrow> sp = p"
  by (auto simp: gated_plan_def dest: then_return_Inr)

text \<open>A plan for a checkpoint is empty or was made from a chain of candidates without touching the database.\<close>

lemma plan_next_increment_cases:
  assumes "plan_next_increment ct src others metadata checkpoint seq epoch max_snapshots now s = Some (Inr sp, s')"
  obtains "plan_empty sp"
  | cs where "incremental_candidates ct metadata (the (md_current metadata)) checkpoint max_snapshots = Some (Inr cs)"
      and "plan_windows ct (spark_table src) metadata (ck_seq checkpoint) cs = Inr (sp_windows sp, sp_rejection sp)"
      and "sp_epoch sp = epoch" and "sp_table_uuid sp = md_table_uuid metadata" and "s' = s"
      and "verify_planning_snapshots ct (spark_table src) (md_table_uuid metadata)
             (verification_ids checkpoint (sp_windows sp) (sp_rejection sp)) = Some (Inr ())"
  using assms
  by (auto simp: plan_next_increment_def split: option.splits sum.splits if_splits prod.splits
      dest: gated_plan_Inr)

lemma plan_checkpoint_cases:
  assumes "plan ct src others max_snapshots now s = Some (Inr sp, s')"
    and "latest_source_snapshot (Some (source_id src)) s = Inr (Some v)"
  obtains "plan_empty sp"
  | metadata where "0 < max_snapshots" and "\<not> v_blocked v"
      and "md_table_uuid metadata = uuid_str (v_table_uuid v)" and "spec_id (md_spec metadata) = s_partition_spec (v_row v)"
      and "plan_next_increment ct src others metadata (checkpoint_of v) (s_seq (v_row v)) (Some (v_epoch v))
             max_snapshots now s = Some (Inr sp, s')"
  using assms
  by (auto simp: plan_def plan_pinned_def validate_table_contract_def rbind_Inr_iff ensure_Inr_iff checkpoint_of_def
      split: option.splits sum.splits if_splits prod.splits dest: gated_plan_Inr)

end
