(* ===== verification/Planning_Cycle.thy ===== *)
theory Planning_Cycle
  imports Planner_Properties
begin

text \<open>
  Planning and enqueuing together: the repository admits the windows of a plan one after the other, every
  cycle runs along the protocol, and the one kind of rejection that can never be recorded.
\<close>

section \<open>The durable head\<close>

definition at_head :: "uuid \<Rightarrow> source_row \<Rightarrow> int \<Rightarrow> int \<Rightarrow> int \<Rightarrow> db \<Rightarrow> bool" where
  "at_head src r snapshot sequence spec s \<longleftrightarrow>
     lookup_by r_id src (t_sources s) = Some r \<and> \<not> source_gated src s \<and>
     (\<exists>x. latest_snapshot src s = Some x \<and> s_snapshot x = snapshot \<and> s_iceberg_seq x = sequence \<and>
        s_partition_spec x = spec)"

lemma at_head_guards:
  assumes "at_head src r snapshot sequence spec s" and "pl_source p = src" and "r_lifecycle r = SOURCE_ACTIVE"
    and "pl_epoch p = None \<or> pl_epoch p = Some (r_epoch r)" and "pl_kind p \<noteq> BASELINE"
    and "pl_kind p = REJECTED \<or> pl_partition_spec p = spec" and "pl_parent p = Some snapshot" and "sequence < pl_iceberg_seq p"
  shows "enqueue_guards p s = Inr r"
  using assms
  by (auto simp: at_head_def enqueue_guards_def lock_source_for_planning_def assert_source_gate_allows_snapshot_def
      assert_new_snapshot_extends_latest_def)

lemma max_row_ge: "x \<in> set xs \<Longrightarrow> max_row key xs = Some y \<Longrightarrow> key x \<le> key y"
proof (induction xs arbitrary: y)
  case (Cons a xs)
  show ?case
  proof (cases "max_row key xs")
    case None
    with Cons.prems show ?thesis by simp
  next
    case (Some z)
    with Cons.prems(2) have "y = (if key a < key z then z else a)" by (simp split: if_splits)
    with Cons.IH [OF _ Some] Cons.prems(1) show ?thesis by (auto split: if_splits intro: order.trans)
  qed
qed simp

lemma max_row_map: "(\<And>x. key (h x) = key x) \<Longrightarrow> max_row key (map h xs) = map_option h (max_row key xs)"
  by (induction xs) (auto split: option.splits)

lemma latest_snapshot_update:
  assumes "\<And>x. s_source (f x) = s_source x" and "\<And>x. s_iceberg_seq (f x) = s_iceberg_seq x"
    and "t_snapshots s' = update_where q f (t_snapshots s)"
  shows "latest_snapshot src s' = map_option (\<lambda>x. if q x then f x else x) (latest_snapshot src s)"
proof -
  let ?h = "\<lambda>x. if q x then f x else x"
  have sources: "filter (\<lambda>x. s_source x = src) (map ?h xs) = map ?h (filter (\<lambda>x. s_source x = src) xs)" for xs
    using assms(1) by (induction xs) auto
  have rows: "max_row s_iceberg_seq (map ?h xs) = map_option ?h (max_row s_iceberg_seq xs)" for xs
    by (rule max_row_map) (simp add: assms(2))
  show ?thesis unfolding latest_snapshot_def assms(3) update_where_def sources rows ..
qed

lemma enqueue_dataset_sources: "enqueue_dataset sha1 src spec q now route s = Inr s' \<Longrightarrow> t_sources s' = t_sources s"
  by (auto simp: enqueue_dataset_def insert_or_validate_dataset_def insert_ingest_work_def Let_def rbind_Inr_iff
      checked_Inr_iff split: option.splits)

lemma enqueue_datasets_sources:
  "rfold (enqueue_dataset sha1 src spec q now) routes s = Inr s' \<Longrightarrow> t_sources s' = t_sources s"
  by (rule rfold_invariant [where P = "\<lambda>t. t_sources t = t_sources s"]) (auto dest: enqueue_dataset_sources)

lemma mark_snapshot_complete_head:
  assumes "mark_snapshot_complete q now s = Inr s'" and "at_head src r snapshot sequence spec s"
  shows "at_head src r snapshot sequence spec s'"
proof -
  let ?f = "\<lambda>x. x\<lparr> s_state := COMPLETE, s_updated := now \<rparr>" and ?q = "\<lambda>x. s_seq x = q \<and> s_state x \<noteq> SNAPSHOT_BLOCKED"
  from assms(1) have s': "s' = s\<lparr> t_snapshots := update_where ?q ?f (t_snapshots s) \<rparr>"
    by (auto simp: mark_snapshot_complete_def checked_Inr_iff)
  have "latest_snapshot src s' = map_option (\<lambda>x. if ?q x then ?f x else x) (latest_snapshot src s)"
    by (rule latest_snapshot_update) (simp_all add: s')
  moreover have "source_gated src s' \<longrightarrow> source_gated src s"
    by (auto simp: source_gated_def exists_where_iff s' set_update_where)
  moreover obtain x where "latest_snapshot src s = Some x" "s_snapshot x = snapshot" "s_iceberg_seq x = sequence" "s_partition_spec x = spec"
    using assms(2) by (auto simp: at_head_def)
  ultimately show ?thesis using assms(2) unfolding at_head_def
    by (intro conjI exI [of _ "if ?q x then ?f x else x"]) (auto simp: s')
qed

lemma latest_snapshot_seal:
  assumes "t_snapshots s' = t_snapshots s @ [row]" and "s_source row = src"
    and "latest_snapshot src s = Some x" and "s_iceberg_seq x < s_iceberg_seq row"
  shows "latest_snapshot src s' = Some row"
proof -
  have "s_iceberg_seq y < s_iceberg_seq row" if "y \<in> set (filter (\<lambda>x. s_source x = src) (t_snapshots s))" for y
    using max_row_ge [OF that, of s_iceberg_seq] assms(3,4) by (force simp: latest_snapshot_def)
  then have "max_row s_iceberg_seq (filter (\<lambda>x. s_source x = src) (t_snapshots s) @ [row]) = Some row"
    by (rule max_row_append)
  then show ?thesis using assms(1,2) by (simp add: latest_snapshot_def)
qed

text \<open>A committed enqueue of a plan past the head moves the head to it.\<close>

lemma enqueue_source_snapshot_head:
  assumes "enqueue_source_snapshot sha1 p routes now s = Inr (q, s')" and "cp_inv s"
    and "at_head (pl_source p) r snapshot sequence spec s" and "sequence < pl_iceberg_seq p"
  shows "at_head (pl_source p) r (pl_snapshot p) (pl_iceberg_seq p) (pl_partition_spec p) s'"
proof -
  from assms(3) obtain x where x: "latest_snapshot (pl_source p) s = Some x" "s_iceberg_seq x = sequence"
    by (auto simp: at_head_def)
  from assms(1) obtain src validated q0 s1 inserted expected
    where ins: "insert_or_validate_snapshot p SEALED None None now s = Inr ((q0, inserted), s1)"
    and tail: "(if \<not> inserted then replay_snapshot expected q0 now s1
       else fill_snapshot sha1 src validated expected q0 now s1) = Inr (q, s')"
    by (auto simp: enqueue_source_snapshot_def rbind_Inr_iff)
  note eff = insert_or_validate_snapshot_Inr [OF ins]
  let ?row = "snapshot_of_plan p SEALED None None (next_seq s) now"
  have inserted
  proof (rule ccontr)
    assume "\<not> inserted"
    with eff(3,5) obtain y where y: "y \<in> set (t_snapshots s)" "s_source y = pl_source p" "snapshot_matches_plan y p" by auto
    then have "s_iceberg_seq y \<le> sequence"
      using max_row_ge [of y "filter (\<lambda>x. s_source x = pl_source p) (t_snapshots s)" s_iceberg_seq] x
      by (auto simp: latest_snapshot_def)
    with y(3) assms(4) show False by (simp add: snapshot_matches_plan_def)
  qed
  with eff have s1: "s1 = s\<lparr> t_snapshots := t_snapshots s @ [?row], next_seq := next_seq s + 1 \<rparr>" "q0 = next_seq s" by simp_all
  have "latest_snapshot (pl_source p) s1 = Some ?row"
    by (rule latest_snapshot_seal [OF _ _ x(1)]) (use x(2) assms(4) in \<open>simp_all add: s1 snapshot_of_plan_def\<close>)
  with assms(3) have head: "at_head (pl_source p) r (pl_snapshot p) (pl_iceberg_seq p) (pl_partition_spec p) s1"
    by (auto simp: at_head_def s1 source_gated_def exists_where_iff snapshot_of_plan_def)
  from tail \<open>inserted\<close> obtain spec' s2 where s2: "rfold (enqueue_dataset sha1 src spec' q0 now) validated s1 = Inr s2"
    and last: "if expected = [] then mark_snapshot_complete q0 now s2 = Inr s' else s' = s2"
    by (auto simp: fill_snapshot_def rbind_Inr_iff split: if_splits)
  have "newest_open q0 s1" using newest_open_seal [OF assms(2)] s1 by simp
  with enqueue_datasets_refines [OF s2] enqueue_datasets_sources [OF s2] head
  have "at_head (pl_source p) r (pl_snapshot p) (pl_iceberg_seq p) (pl_partition_spec p) s2"
    by (simp add: at_head_def source_gated_def latest_snapshot_def)
  then show ?thesis using last mark_snapshot_complete_head by (auto split: if_splits)
qed

section \<open>Admitting the windows of a plan\<close>

abbreviation quiet_clients :: "nat \<Rightarrow> db \<Rightarrow> db" where
  "quiet_clients \<equiv> \<lambda>n s. s"

lemma tx_quiet_Inr: "tx (\<lambda>s. s) f s = (Inr x, s') \<longleftrightarrow> f s = Inr (x, s')"
  by (auto simp: tx_def split: sum.splits)

lemma map_snapshot_Inr:
  "map_snapshot src w epoch = Inr p \<Longrightarrow>
     pl_source p = src \<and> pl_snapshot p = sn_id (wp_snapshot w) \<and> pl_parent p = sn_parent (wp_snapshot w) \<and>
     pl_iceberg_seq p = sn_seq (wp_snapshot w) \<and> pl_partition_spec p = sn_spec (wp_snapshot w) \<and>
     pl_kind p = snapshot_kind_of (wp_kind w) \<and> pl_epoch p = epoch"
  by (auto simp: map_snapshot_def rbind_Inr_iff Let_def)

lemma enqueue_windows_head:
  assumes "enqueue_windows sha1 src epoch quiet_clients n now ws s = (Inr qs, s')" and "cp_inv s"
    and "at_head src r snapshot sequence spec s" and "chained snapshot sequence (map wp_snapshot ws)"
    and "list_all (window_ok tu spec) ws"
  shows "cp_inv s' \<and> at_head src r (fst (chain_end snapshot sequence (map wp_snapshot ws)))
    (snd (chain_end snapshot sequence (map wp_snapshot ws))) spec s'"
  using assms
proof (induction ws arbitrary: n s qs snapshot sequence)
  case Nil
  then show ?case by (simp add: chain_end_def)
next
  case (Cons w ws)
  from Cons.prems(1) obtain p ds q s1 qs' where p: "map_snapshot src w epoch = Inr p"
    and e: "enqueue_source_snapshot sha1 p ds (now n) s = Inr (q, s1)"
    and rest: "enqueue_windows sha1 src epoch quiet_clients (Suc n) now ws s1 = (Inr qs', s')"
    by (auto simp: rbind_Inr_iff tx_quiet_Inr split: sum.splits prod.splits)
  note p' = map_snapshot_Inr [OF p]
  have inv: "cp_inv s1" by (rule cp_inv_steps [OF enqueue_source_snapshot_refines [OF e Cons.prems(2)] Cons.prems(2)])
  have "at_head src r (sn_id (wp_snapshot w)) (sn_seq (wp_snapshot w)) (sn_spec (wp_snapshot w)) s1"
    using enqueue_source_snapshot_head [OF e Cons.prems(2)] Cons.prems(3,4) p' by auto
  with Cons.IH [OF rest inv] Cons.prems(4,5) show ?case
    by (simp add: chain_end_Cons window_ok_def)
qed

lemma view_head:
  assumes "latest_source_snapshot (Some src) s = Inr (Some v)" and "\<not> v_blocked v"
  shows "\<exists>r. at_head src r (s_snapshot (v_row v)) (s_iceberg_seq (v_row v)) (s_partition_spec (v_row v)) s \<and>
    v_epoch v = r_epoch r \<and> v_table_uuid v = r_table_uuid r"
  using assms by (auto simp: latest_source_snapshot_def at_head_def split: option.splits)

text \<open>A plan with anything in it, made from a checkpoint: the head it was made at and the chain it carries.\<close>

lemma plan_checkpoint_head:
  assumes "plan ct src others max_snapshots now s = Some (Inr sp, s')" and "\<not> plan_empty sp"
    and "latest_source_snapshot (Some (source_id src)) s = Inr (Some v)"
  obtains r where "at_head (source_id src) r (s_snapshot (v_row v)) (s_iceberg_seq (v_row v)) (s_partition_spec (v_row v)) s"
    and "sp_epoch sp = Some (r_epoch r)" and "s' = s" and "sp_table_uuid sp = uuid_str (v_table_uuid v)"
    and "chained (s_snapshot (v_row v)) (s_iceberg_seq (v_row v)) (map wp_snapshot (sp_windows sp))"
    and "list_all (window_ok (uuid_str (v_table_uuid v)) (s_partition_spec (v_row v))) (sp_windows sp)"
    and "length (sp_windows sp) \<le> nat (max_snapshots + 1)"
    and "rejection_extends (s_snapshot (v_row v)) (s_iceberg_seq (v_row v)) (map wp_snapshot (sp_windows sp)) (sp_rejection sp)"
proof (cases rule: plan_checkpoint_cases [OF assms(1,3)])
  case 1
  with assms(2) show ?thesis by simp
next
  case (2 metadata)
  from view_head [OF assms(3) 2(2)] obtain r where r:
    "at_head (source_id src) r (s_snapshot (v_row v)) (s_iceberg_seq (v_row v)) (s_partition_spec (v_row v)) s"
    "v_epoch v = r_epoch r" by blast
  show ?thesis
  proof (cases rule: plan_next_increment_cases [OF 2(5)])
    case 1
    with assms(2) show ?thesis by simp
  next
    case (2 cs)
    have chain: "direct_chain (s_snapshot (v_row v)) cs = Inr ()" "length cs \<le> nat (max_snapshots + 1)"
      using incremental_candidates_Inr [OF 2(1)] \<open>0 < max_snapshots\<close> by (simp_all add: checkpoint_of_def)
    have ws: "plan_windows ct (spark_table src) metadata (s_iceberg_seq (v_row v)) cs = Inr (sp_windows sp, sp_rejection sp)"
      using 2(2) by (simp add: checkpoint_of_def)
    note facts = plan_windows_Inr [OF ws chain(1)]
    show ?thesis
      by (rule that [OF r(1)])
        (use facts chain(2) 2(3-5) r(2) \<open>md_table_uuid metadata = _\<close> \<open>spec_id (md_spec metadata) = _\<close> in auto)
  qed
qed

lemma plan_initial_cases:
  assumes "plan ct src others max_snapshots now s = Some (Inr sp, s')"
    and "latest_source_snapshot (Some (source_id src)) s = Inr None"
  obtains "plan_empty sp"
  | w where "sp_windows sp = [w]" and "wp_kind w = WK_BASELINE" and "sp_epoch sp = None" and "sp_rejection sp = None"
      and "s' = s" and "0 < max_snapshots"
proof -
  have kind: "wp_kind w = WK_BASELINE" if "baseline_window ct table metadata x = Some (Inr w)" for metadata x table and w
    using that by (auto simp: baseline_window_def rbind_Inr_iff split: sum.splits option.splits)
  have q: "plan_empty sp \<or> (\<exists>w. sp_windows sp = [w] \<and> wp_kind w = WK_BASELINE \<and> sp_epoch sp = None \<and> sp_rejection sp = None \<and> s' = s)"
    if "qualify_initial_baseline ct src others metadata x now s = Some (Inr sp, s')" for metadata x
    using that kind [of "spark_table src" metadata x]
    by (auto simp: qualify_initial_baseline_def empty_plan_def split: option.splits sum.splits dest!: then_return_Inr)
      (simp add: plan_empty_def)
  have h: "plan_empty sp" if "reject_initial_head others src metadata xs ec now s = (Inr sp, s')" for metadata xs ec
    using that by (auto simp: reject_initial_head_def split: option.splits sum.splits dest!: then_return_Inr)
  have "0 < max_snapshots" and pinned: "\<exists>metadata. plan_initial_baseline ct src others metadata now s = Some (Inr sp, s')"
    using assms by (auto simp: plan_def plan_pinned_def split: option.splits sum.splits if_splits prod.splits)
  from pinned obtain metadata where "plan_initial_baseline ct src others metadata now s = Some (Inr sp, s')" ..
  then have "plan_empty sp \<or> (\<exists>w. sp_windows sp = [w] \<and> wp_kind w = WK_BASELINE \<and> sp_epoch sp = None \<and> sp_rejection sp = None \<and> s' = s)"
    using q h by (auto simp: plan_initial_baseline_def split: option.splits sum.splits)
  with \<open>0 < max_snapshots\<close> show ?thesis using that by blast
qed

lemma initial_guards:
  assumes "latest_source_snapshot (Some src) s = Inr None" and "lookup_by r_id src (t_sources s) = Some r"
    and "r_lifecycle r = SOURCE_ACTIVE" and "pl_source p = src" and "pl_kind p = BASELINE" and "pl_epoch p = None"
  shows "enqueue_guards p s = Inr r"
proof -
  from assms(1,2) have none: "latest_snapshot src s = None" by (simp add: latest_source_snapshot_def)
  then have "\<not> source_gated src s"
    by (auto simp: latest_snapshot_def source_gated_def exists_where_iff filter_empty_conv)
  with none assms show ?thesis
    by (simp add: enqueue_guards_def lock_source_for_planning_def assert_source_gate_allows_snapshot_def
        assert_new_snapshot_extends_latest_def)
qed

section \<open>Every cycle runs along the protocol\<close>

definition clients_run :: "(nat \<Rightarrow> db \<Rightarrow> db) \<Rightarrow> bool" where
  "clients_run others \<longleftrightarrow> (\<forall>n s. cp_inv s \<longrightarrow> cp_steps s (others n s))"

definition runs :: "db \<Rightarrow> db \<Rightarrow> bool" where
  "runs s s' \<longleftrightarrow> cp_steps s s' \<and> cp_inv s'"

lemma runs_refl: "cp_inv s \<Longrightarrow> runs s s"
  by (simp add: runs_def)

lemma runs_trans: "runs s t \<Longrightarrow> runs t u \<Longrightarrow> runs s u"
  by (auto simp: runs_def)

lemma runs_inv: "runs s t \<Longrightarrow> cp_inv t"
  by (simp add: runs_def)

lemma tx_runs:
  assumes "clients_run others" and "cp_inv s"
    and "\<And>t x t'. cp_inv t \<Longrightarrow> f t = Inr (x, t') \<Longrightarrow> cp_steps t t'"
  shows "runs s (snd (tx (others n) f s))"
proof -
  have o: "cp_steps s (others n s)" using assms(1,2) by (auto simp: clients_run_def)
  then have inv: "cp_inv (others n s)" by (rule cp_inv_steps) (rule assms(2))
  show ?thesis
  proof (cases "f (others n s)")
    case (Inl e)
    with o inv show ?thesis by (simp add: tx_def runs_def)
  next
    case (Inr r)
    obtain x t where r: "r = (x, t)" by (cases r)
    have "cp_steps (others n s) t" using assms(3) [OF inv] Inr r by blast
    moreover from this have "cp_inv t" by (rule cp_inv_steps) (rule inv)
    ultimately show ?thesis using Inr r o by (auto simp: tx_def runs_def)
  qed
qed

lemma gate_checkpoint_runs:
  "clients_run others \<Longrightarrow> cp_inv s \<Longrightarrow> runs s (snd (gate_checkpoint (others n) seq ec epoch now s))"
  using tx_runs [of others s "block_source_snapshot seq ec None epoch now" n]
  by (auto simp: gate_checkpoint_def block_source_snapshot_refines split: prod.splits)

lemma persist_rejected_runs:
  "clients_run others \<Longrightarrow> cp_inv s \<Longrightarrow> runs s (snd (persist_rejected (others n) src x ec now s))"
  by (auto simp: persist_rejected_def runs_refl split: sum.splits
      intro!: tx_runs enqueue_blocked_source_snapshot_refines)

lemma then_return_snd [simp]: "snd (then_return r x) = snd r"
  by (simp add: then_return_def split: prod.splits)

lemma gated_plan_runs:
  "clients_run others \<Longrightarrow> cp_inv s \<Longrightarrow> gated_plan (others n) seq ec epoch now p s = Some (r, s') \<Longrightarrow> runs s s'"
  using gate_checkpoint_runs [of others s n seq ec epoch now] then_return_snd [of "gate_checkpoint (others n) seq ec epoch now s" p]
  by (auto simp: gated_plan_def)

lemma plan_initial_baseline_runs:
  assumes "clients_run others" and "cp_inv s" and "plan_initial_baseline ct src (others n) metadata now s = Some (r, s')"
  shows "runs s s'"
proof -
  have p: "runs s t" if "then_return (persist_rejected (others n) src x ec now s) y = (z, t)" for x ec y z t
    using persist_rejected_runs [OF assms(1,2), of n src x ec now] then_return_snd that by (metis snd_conv)
  have "runs s s'" if "reject_initial_head (others n) src metadata xs ec now s = (r, s')" for xs ec
    using that runs_refl [OF assms(2)] by (auto simp: reject_initial_head_def split: option.splits sum.splits dest: p)
  moreover have "runs s s'" if "qualify_initial_baseline ct src (others n) metadata x now s = Some (r, s')" for x
    using that runs_refl [OF assms(2)] by (auto simp: qualify_initial_baseline_def split: option.splits sum.splits dest: p)
  ultimately show ?thesis using assms(3) runs_refl [OF assms(2)]
    by (auto simp: plan_initial_baseline_def split: option.splits sum.splits)
qed

lemma plan_next_increment_runs:
  assumes "clients_run others" and "cp_inv s"
    and "plan_next_increment ct src (others n) metadata checkpoint seq epoch max_snapshots now s = Some (r, s')"
  shows "runs s s'"
  using assms(3) gated_plan_runs [OF assms(1,2)] runs_refl [OF assms(2)]
  by (auto simp: plan_next_increment_def split: option.splits sum.splits if_splits prod.splits)

lemma plan_pinned_runs:
  assumes "clients_run others" and "cp_inv s" and "plan_pinned ct src (others n) row metadata max_snapshots now s = Some (r, s')"
  shows "runs s s'"
  using assms(3) gated_plan_runs [OF assms(1,2)] plan_initial_baseline_runs [OF assms(1,2)] plan_next_increment_runs [OF assms(1,2)]
    runs_refl [OF assms(2)]
  by (auto simp: plan_pinned_def split: option.splits sum.splits if_splits)

lemma plan_runs:
  assumes "clients_run others" and "cp_inv s" and "plan ct src (others n) max_snapshots now s = Some (r, s')"
  shows "runs s s'"
proof -
  have pinned: "runs s s0" if "plan_pinned ct src (others n) row metadata max_snapshots now s = Some (r0, s0)" for row metadata r0 s0
    by (rule plan_pinned_runs [OF assms(1,2) that])
  have gate: "runs s t" if "plan_pinned ct src (others n) row metadata max_snapshots now s = Some (r0, s0)"
      "gated_plan (others n) seq ec epoch now p s0 = Some (r, t)" for row metadata r0 s0 seq ec epoch p t
    using runs_trans [OF pinned [OF that(1)] gated_plan_runs [OF assms(1) runs_inv [OF pinned [OF that(1)]] that(2)]] .
  show ?thesis using assms(3) runs_refl [OF assms(2)]
    by (auto simp: plan_def split: option.splits sum.splits if_splits prod.splits dest: pinned gate)
qed

lemma enqueue_windows_runs:
  assumes "clients_run others" and "cp_inv s" and "enqueue_windows sha1 src epoch others n now ws s = (r, s')"
  shows "runs s s'"
  using assms(2,3)
proof (induction ws arbitrary: n s r)
  case Nil
  then show ?case by (simp add: runs_refl)
next
  case (Cons w ws)
  show ?case
  proof (cases "rbind (map_snapshot src w epoch) (\<lambda>p. rbind (map_datasets w) (\<lambda>ds. Inr (p, ds)))")
    case (Inl e)
    with Cons.prems show ?thesis by (simp add: runs_refl)
  next
    case (Inr pds)
    obtain p ds where pds: "pds = (p, ds)" by (cases pds)
    let ?t = "tx (others n) (enqueue_source_snapshot sha1 p ds (now n)) s"
    have t: "runs s (snd ?t)"
      by (rule tx_runs [OF assms(1) Cons.prems(1)]) (rule enqueue_source_snapshot_refines)
    obtain q s1 where q: "?t = (q, s1)" by (cases ?t)
    show ?thesis
    proof (cases q)
      case (Inl e)
      with Cons.prems(2) Inr pds q t show ?thesis by simp
    next
      case (Inr seq)
      obtain r2 s2 where rest: "enqueue_windows sha1 src epoch others (Suc n) now ws s1 = (r2, s2)" by fastforce
      with Cons.prems(2) \<open>rbind _ _ = Inr pds\<close> pds q Inr have "s' = s2" by simp
      with rest have "runs s1 s'" using Cons.IH [of s1 "Suc n" r2] t q by (simp add: runs_inv)
      with t q show ?thesis by (auto intro: runs_trans)
    qed
  qed
qed

lemma enqueue_rejection_runs:
  assumes "clients_run others" and "cp_inv s" and "enqueue_rejection src epoch (others n) now rj s = (r, s')"
  shows "runs s s'"
proof (cases "map_rejection src rj epoch")
  case (Inl e)
  with assms show ?thesis by (simp add: enqueue_rejection_def runs_refl)
next
  case (Inr p)
  have "runs s (snd (tx (others n) (enqueue_blocked_source_snapshot p (rj_error rj) None now) s))"
    by (rule tx_runs [OF assms(1,2)]) (rule enqueue_blocked_source_snapshot_refines)
  with assms(3) Inr show ?thesis by (simp add: enqueue_rejection_def)
qed

lemma enqueue_plan_runs:
  assumes "clients_run others" and "cp_inv s" and "enqueue_plan sha1 src max_snapshots others now sp s = (r, s')"
  shows "runs s s'"
proof -
  have w: "runs s s1" if "enqueue_windows sha1 (source_id src) (sp_epoch sp) others 0 now ws s = (q, s1)" for ws q s1
    by (rule enqueue_windows_runs [OF assms(1,2) that])
  have j: "runs s s2" if "enqueue_windows sha1 (source_id src) (sp_epoch sp) others 0 now ws s = (q, s1)"
      "enqueue_rejection (source_id src) (sp_epoch sp) (others n) t rj s1 = (q', s2)" for ws q s1 n t rj q' s2
    using runs_trans [OF w [OF that(1)] enqueue_rejection_runs [OF assms(1) runs_inv [OF w [OF that(1)]] that(2)]] .
  show ?thesis using assms(3) runs_refl [OF assms(2)]
    by (auto simp: enqueue_plan_def Let_def split: option.splits sum.splits if_splits prod.splits
        dest: w j)
qed

end
