(* ===== verification/Planning_Scenario.thy ===== *)
theory Planning_Scenario
  imports Planning_Cycle Scenario
begin

text \<open>
  The properties of planning, and a planning cycle on concrete metadata: two snapshots follow the
  enqueued baseline, the first an append and the second with a sequence number that does not advance.
\<close>

section \<open>A cycle on concrete metadata\<close>

definition demo_doc :: "int \<Rightarrow> int option \<Rightarrow> int \<Rightarrow> snapshot_document" where
  "demo_doc i parent sequence =
     \<lparr> dc_id = i, dc_parent = parent, dc_seq = sequence, dc_timestamp = 1700000000123,
       dc_summary = [(''operation'', ''append''), (''partition-spec-id'', ''0'')] \<rparr>"

definition demo_loader :: loader where
  "demo_loader i =
     Inr (if i = 10 then Some (demo_doc 10 None 1) else if i = 11 then Some (demo_doc 11 (Some 10) 2)
          else if i = 12 then Some (demo_doc 12 (Some 11) 2) else None)"

definition demo_metadata :: table_metadata where
  "demo_metadata =
     \<lparr> md_table_uuid = uuid_str 7, md_current = Some 12, md_spec = \<lparr> spec_id = 0, spec_fields = REQUIRED_PARTITION_FIELDS \<rparr> \<rparr>"

definition demo_entry :: manifest_row where
  "demo_entry = \<lparr> mr_snapshot = Some 11, mr_status = Some 1, mr_content = Some 0, mr_spec = Some 0,
     mr_tenant = Some ''t'', mr_namespace = Some ''n'', mr_org = Some ''o'', mr_hour = Some 5 \<rparr>"

definition demo_catalog :: catalog where
  "demo_catalog =
     \<lparr> ct_pin = Inr demo_metadata, ct_loader = demo_loader, ct_live = Inr (demo_metadata, demo_loader),
       ct_added_specs = (\<lambda>_. Inr []), ct_entry_rows = (\<lambda>i. Inr (if i = 11 then [demo_entry] else [])),
       ct_file_rows = (\<lambda>_. Inr []), ct_qualify = (\<lambda>_ _. Inl ValueError), ct_baseline = None \<rparr>"

definition demo_registered :: iceberg_source where
  "demo_registered = \<lparr> source_id = demo_source, source_name = ''demo'', spark_catalog = ''c'', table_namespace = ''n'',
     table_name = ''t'', table_uuid = 7, lance_base_uri = ''/lance'', lifecycle_state = SOURCE_ACTIVE,
     default_spec_id = 1, canonical_baseline_snapshot_id = None, replay_horizon = 2592000000000 \<rparr>"

definition demo_record :: "int \<Rightarrow> int option \<Rightarrow> int \<Rightarrow> snapshot_record" where
  "demo_record i parent sequence =
     \<lparr> sn_table = uuid_str 7, sn_id = i, sn_parent = parent, sn_seq = sequence, sn_committed_ms = 1700000000123,
       sn_operation = ''append'', sn_spec = 0, sn_summary = [(''operation'', ''append''), (''partition-spec-id'', ''0'')] \<rparr>"

definition demo_window :: window_plan where
  "demo_window = \<lparr> wp_snapshot = demo_record 11 (Some 10) 2, wp_kind = WK_APPEND, wp_targets = [(''t'', ''n'', ''o'')] \<rparr>"

definition demo_rejection :: snapshot_rejection where
  "demo_rejection = \<lparr> rj_snapshot = demo_record 12 (Some 11) 2, rj_error = ''SOURCE_SEQUENCE_ORDER'' \<rparr>"

definition demo_source_plan :: source_plan where
  "demo_source_plan = \<lparr> sp_table_uuid = uuid_str 7, sp_head = Some 12, sp_windows = [demo_window], sp_epoch = Some 0,
     sp_rejection = Some demo_rejection \<rparr>"

definition demo_checkpoint :: source_checkpoint where
  "demo_checkpoint = \<lparr> ck_table_uuid = uuid_str 7, ck_snapshot = 10, ck_seq = 1, ck_spec = 0 \<rparr>"

lemma demo_walk:
  "iter_snapshot_documents demo_loader 12 10 = Some (Inr [demo_doc 12 (Some 11) 2, demo_doc 11 (Some 10) 2, demo_doc 10 None 1])"
  by (simp add: iter_snapshot_documents_def iter_from.simps walk_body_def next_snapshot_id_def demo_loader_def demo_doc_def)

lemma demo_candidates:
  "incremental_candidates demo_catalog demo_metadata 12 demo_checkpoint 32 =
     Some (Inr [demo_record 11 (Some 10) 2, demo_record 12 (Some 11) 2])"
proof -
  have bounded: "bounded_snapshot_documents demo_loader 12 10 (Some 33) False =
      Some (Inr [demo_doc 12 (Some 11) 2, demo_doc 11 (Some 10) 2, demo_doc 10 None 1])"
    by (simp add: bounded_snapshot_documents_def demo_walk bounded_tail_def)
  have "snapshots_through demo_loader (\<lambda>_. Inr []) demo_metadata 12 10 (Some 33) False =
      Some (Inr [demo_record 12 (Some 11) 2, demo_record 11 (Some 10) 2, demo_record 10 None 1])"
    unfolding snapshots_through_def bounded by code_simp
  moreover have "bounded_incremental_candidates (bounded_tail 34 [demo_record 12 (Some 11) 2, demo_record 11 (Some 10) 2, demo_record 10 None 1])
      demo_checkpoint = Inr [demo_record 11 (Some 10) 2, demo_record 12 (Some 11) 2]"
    by code_simp
  ultimately show ?thesis by (simp add: incremental_candidates_def demo_checkpoint_def demo_catalog_def)
qed

lemma demo_planned:
  "plan_windows demo_catalog ''c.n.t'' demo_metadata 1 [demo_record 11 (Some 10) 2, demo_record 12 (Some 11) 2] =
     Inr ([demo_window], Some demo_rejection)"
  by code_simp

lemma demo_table_name: "validate_table ''c.n.t'' = Inr ''c.n.t''"
  by code_simp

lemma demo_verified: "verify_planning_snapshots demo_catalog ''c.n.t'' (uuid_str 7) [10, 11, 12] = Some (Inr ())"
  by (simp add: verify_planning_snapshots_def demo_table_name demo_catalog_def demo_metadata_def demo_walk demo_doc_def)

lemma demo_contract: "validate_table_contract demo_metadata (Some demo_checkpoint) REQUIRED_PARTITION_FIELDS = Inr ()"
  by code_simp

lemma demo_identity: "uuid_parse (uuid_str 7) = Inr 7"
  by code_simp

definition demo_view :: snapshot_view where
  "demo_view = \<lparr> v_row = demo_snapshot SEALED 1, v_table_uuid = 7, v_epoch = 0, v_blocked = False \<rparr>"

lemma demo_latest: "latest_source_snapshot (Some demo_source) demo_db2 = Inr (Some demo_view)"
  by (simp add: latest_source_snapshot_def demo_db2_def demo_source_row_def demo_view_def latest_snapshot_def
      source_gated_def demo_snapshot_def snapshot_of_plan_def demo_plan_def demo_source_def)

lemma demo_checkpoint_of: "checkpoint_of demo_view = demo_checkpoint"
  by (simp add: checkpoint_of_def demo_view_def demo_checkpoint_def demo_snapshot_def snapshot_of_plan_def demo_plan_def)

lemma demo_spark_table: "spark_table demo_registered = ''c.n.t''"
  by (simp add: spark_table_def demo_registered_def)

lemma demo_plans: "plan demo_catalog demo_registered (\<lambda>s. s) 32 9 demo_db2 = Some (Inr demo_source_plan, demo_db2)"
proof -
  have ids: "source_id demo_registered = demo_source" by (simp add: demo_registered_def)
  have md: "md_table_uuid demo_metadata = uuid_str 7" "md_current demo_metadata = Some 12" by (simp_all add: demo_metadata_def)
  have ck: "ck_seq demo_checkpoint = 1" by (simp add: demo_checkpoint_def)
  have vids: "verification_ids demo_checkpoint [demo_window] (Some demo_rejection) = [10, 11, 12]"
    by (simp add: verification_ids_def demo_checkpoint_def demo_window_def demo_rejection_def demo_record_def)
  have pin: "ct_pin demo_catalog = Inr demo_metadata" by (simp add: demo_catalog_def)
  have "plan_next_increment demo_catalog demo_registered (\<lambda>s. s) demo_metadata demo_checkpoint
      (s_seq (v_row demo_view)) (Some 0) 32 9 demo_db2 = Some (Inr demo_source_plan, demo_db2)"
    by (simp add: plan_next_increment_def md demo_candidates demo_spark_table ck demo_planned vids demo_verified demo_source_plan_def
        del: plan_windows.simps)
  moreover have "v_epoch demo_view = 0" "\<not> v_blocked demo_view" by (simp_all add: demo_view_def)
  ultimately show ?thesis
    by (simp add: plan_def plan_pinned_def ids demo_latest demo_spark_table demo_table_name pin md demo_identity
        demo_checkpoint_of demo_contract)
qed

section \<open>What is enqueued\<close>

text \<open>
  C32. The repository admits what the planner plans. The windows of a plan are handed over unchanged: at
  most one more than the limit, the first a baseline of an empty source or all of them appends that
  form a direct chain from the durable checkpoint with increasing sequence numbers, each with its
  routable targets once and in order. Once the windows before it are enqueued, no window is refused by
  the guards of the repository: neither as stale, nor by the source gate, nor as not extending the head.
\<close>

theorem planned_windows_admitted:
  assumes "plan ct src others max_snapshots now s = Some (Inr sp, s1)" and "cp_inv s"
    and "lookup_by r_id (source_id src) (t_sources s) = Some r" and "r_lifecycle r = SOURCE_ACTIVE"
    and "sp_windows sp = ws @ w # ws'"
    and "enqueue_windows sha1 (source_id src) (sp_epoch sp) quiet_clients n clock ws s1 = (Inr qs, t)"
    and "map_snapshot (source_id src) w (sp_epoch sp) = Inr p"
  shows "s1 = s \<and> length (sp_windows sp) \<le> nat (max_snapshots + 1) \<and>
    (wp_kind w = WK_BASELINE \<and> ws = [] \<or>
     wp_kind w = WK_APPEND \<and> sorted_wrt (<) (wp_targets w) \<and> list_all routable (wp_targets w)) \<and>
    enqueue_guards p t = Inr r"
proof -
  have ne: "\<not> plan_empty sp" using assms(5) by (simp add: plan_empty_def)
  note p = map_snapshot_Inr [OF assms(7)]
  from assms(3) obtain row where row: "latest_source_snapshot (Some (source_id src)) s = Inr row"
    by (simp add: latest_source_snapshot_def)
  show ?thesis
  proof (cases row)
    case None
    with row have l: "latest_source_snapshot (Some (source_id src)) s = Inr None" by simp
    show ?thesis
    proof (cases rule: plan_initial_cases [OF assms(1) l])
      case 1
      with ne show ?thesis by simp
    next
      case (2 w')
      with assms(5) have ws: "ws = []" "ws' = []" "w = w'" by (auto simp: Cons_eq_append_conv)
      with assms(6) 2 have t: "t = s" by simp
      have "enqueue_guards p s = Inr r"
        using initial_guards [OF l assms(3,4)] p 2 ws by simp
      then show ?thesis using 2 ws t by simp
    qed
  next
    case (Some v)
    with row have l: "latest_source_snapshot (Some (source_id src)) s = Inr (Some v)" by simp
    obtain r' where
      head: "at_head (source_id src) r' (s_snapshot (v_row v)) (s_iceberg_seq (v_row v)) (s_partition_spec (v_row v)) s"
      and epoch: "sp_epoch sp = Some (r_epoch r')" and s1: "s1 = s"
      and chain: "chained (s_snapshot (v_row v)) (s_iceberg_seq (v_row v)) (map wp_snapshot (sp_windows sp))"
      and ok: "list_all (window_ok (uuid_str (v_table_uuid v)) (s_partition_spec (v_row v))) (sp_windows sp)"
      and len: "length (sp_windows sp) \<le> nat (max_snapshots + 1)"
      by (rule plan_checkpoint_head [OF assms(1) ne l])
    have r: "r' = r" using head assms(3) by (simp add: at_head_def)
    let ?e = "chain_end (s_snapshot (v_row v)) (s_iceberg_seq (v_row v)) (map wp_snapshot ws)"
    from chain assms(5) have c: "chained (s_snapshot (v_row v)) (s_iceberg_seq (v_row v)) (map wp_snapshot ws)"
      "sn_parent (wp_snapshot w) = Some (fst ?e)" "snd ?e < sn_seq (wp_snapshot w)"
      by (simp_all add: chained_append)
    have h: "at_head (source_id src) r (fst ?e) (snd ?e) (s_partition_spec (v_row v)) t"
      using enqueue_windows_head [where tu = "uuid_str (v_table_uuid v)", OF assms(6) [unfolded s1] assms(2) head c(1)] ok assms(5) r
      by simp
    from ok assms(5) have w: "window_ok (uuid_str (v_table_uuid v)) (s_partition_spec (v_row v)) w" by simp
    have "enqueue_guards p t = Inr r"
      by (rule at_head_guards [OF h _ assms(4)]) (use p c w epoch r in \<open>simp_all add: window_ok_def\<close>)
    then show ?thesis using s1 len w by (simp add: window_ok_def)
  qed
qed

definition demo_window_plan :: snapshot_plan where
  "demo_window_plan = \<lparr> pl_source = demo_source, pl_snapshot = 11, pl_parent = Some 10, pl_iceberg_seq = 2,
     pl_partition_spec = 0, pl_committed = 1700000000123000, pl_committed_aware = True, pl_operation = ''append'',
     pl_kind = APPEND, pl_epoch = Some 0 \<rparr>"

lemma demo_timestamp: "fromtimestamp_ms 1700000000123 = Inr 1700000000123000"
  by (simp add: fromtimestamp_ms_exact)

lemma demo_mapped: "map_snapshot demo_source demo_window (Some 0) = Inr demo_window_plan"
  by (simp add: map_snapshot_def demo_window_def demo_record_def demo_timestamp demo_window_plan_def)

lemma demo_inv2: "cp_inv demo_db2"
  using sys_inv_reachable [OF demo_reachable2] by (simp add: sys_inv_def)

lemma demo_registered_row: "lookup_by r_id (source_id demo_registered) (t_sources demo_db2) = Some demo_source_row"
  by (simp add: demo_registered_def demo_db2_def demo_source_row_def)

theorem planned_windows_admitted_witness:
  "plan demo_catalog demo_registered (\<lambda>s. s) 32 9 demo_db2 = Some (Inr demo_source_plan, demo_db2) \<and>
   sp_windows demo_source_plan = [demo_window] \<and> enqueue_guards demo_window_plan demo_db2 = Inr demo_source_row"
proof -
  have id: "source_id demo_registered = demo_source" by (simp add: demo_registered_def)
  have w: "sp_windows demo_source_plan = [] @ demo_window # []" "sp_epoch demo_source_plan = Some 0" by (simp_all add: demo_source_plan_def)
  have "r_lifecycle demo_source_row = SOURCE_ACTIVE" by (simp add: demo_source_row_def)
  from planned_windows_admitted [OF demo_plans demo_inv2 demo_registered_row this w(1),
      of demo_sha1 0 "\<lambda>_. 9" "[]" demo_db2 demo_window_plan] demo_plans
  show ?thesis by (simp add: w id demo_mapped)
qed

section \<open>A rejection that is never recorded\<close>

text \<open>
  C34. A planned rejection whose sequence number does not advance (\<open>SOURCE_SEQUENCE_ORDER\<close>) can never be
  recorded: after the accepted windows are enqueued the repository refuses the rejection as not extending
  the head, the cycle raises, and the source stays ungated. The same happens on every later cycle.
\<close>

theorem sequence_rejection_unrecorded:
  assumes "plan ct src others max_snapshots now s = Some (Inr sp, s1)" and "cp_inv s"
    and "latest_source_snapshot (Some (source_id src)) s = Inr (Some v)" and "sp_rejection sp = Some rj"
    and "sn_seq (rj_snapshot rj) \<le>
      snd (chain_end (s_snapshot (v_row v)) (s_iceberg_seq (v_row v)) (map wp_snapshot (sp_windows sp)))"
    and "enqueue_windows sha1 (source_id src) (sp_epoch sp) quiet_clients n clock (sp_windows sp) s1 = (Inr qs, t)"
    and "\<not> snapshot_known (source_id src) (sn_id (rj_snapshot rj)) t"
  shows "\<exists>e\<in>{ValueError, StateTransitionError}.
    enqueue_rejection (source_id src) (sp_epoch sp) (\<lambda>s. s) clock' rj t = (Inl e, t) \<and> \<not> source_gated (source_id src) t"
proof -
  have ne: "\<not> plan_empty sp" using assms(4) by (simp add: plan_empty_def)
  obtain r where
    head: "at_head (source_id src) r (s_snapshot (v_row v)) (s_iceberg_seq (v_row v)) (s_partition_spec (v_row v)) s"
    and epoch: "sp_epoch sp = Some (r_epoch r)" and s1: "s1 = s"
    and chain: "chained (s_snapshot (v_row v)) (s_iceberg_seq (v_row v)) (map wp_snapshot (sp_windows sp))"
    and ok: "list_all (window_ok (uuid_str (v_table_uuid v)) (s_partition_spec (v_row v))) (sp_windows sp)"
    by (rule plan_checkpoint_head [OF assms(1) ne assms(3)])
  let ?e = "chain_end (s_snapshot (v_row v)) (s_iceberg_seq (v_row v)) (map wp_snapshot (sp_windows sp))"
  have h: "at_head (source_id src) r (fst ?e) (snd ?e) (s_partition_spec (v_row v)) t"
    using enqueue_windows_head [OF assms(6) [unfolded s1] assms(2) head chain ok] by simp
  then have open_t: "\<not> source_gated (source_id src) t" by (simp add: at_head_def)
  show ?thesis
  proof (cases "map_rejection (source_id src) rj (sp_epoch sp)")
    case (Inl e)
    then have "e = ValueError"
      by (auto simp: map_rejection_def rejected_plan_def rbind_Inl_iff fromtimestamp_ms_def Let_def split: if_splits)
    with Inl open_t show ?thesis by (simp add: enqueue_rejection_def)
  next
    case (Inr p)
    then have p: "pl_source p = source_id src" "pl_snapshot p = sn_id (rj_snapshot rj)" "pl_kind p = REJECTED"
      "pl_iceberg_seq p \<le> snd ?e" "pl_epoch p = sp_epoch sp"
      using assms(5) by (auto simp: map_rejection_def rejected_plan_def rbind_Inr_iff)
    have g: "enqueue_guards p t = Inl StateTransitionError"
      using h p assms(7) epoch open_t
      by (auto simp: at_head_def enqueue_guards_def lock_source_for_planning_def assert_source_gate_allows_snapshot_def
          assert_new_snapshot_extends_latest_def ensure_def)
    have "\<exists>e\<in>{ValueError, StateTransitionError}. enqueue_blocked_source_snapshot p ec None clock' t = Inl e" for ec
      by (cases "SourceSnapshotPlan_validate p")
        (auto simp: enqueue_blocked_source_snapshot_def g p(3) SourceSnapshotPlan_validate_def rbind_Inl_iff ensure_Inl_iff)
    from this [of "rj_error rj"] obtain e where e: "e \<in> {ValueError, StateTransitionError}"
      "enqueue_blocked_source_snapshot p (rj_error rj) None clock' t = Inl e" by blast
    then have "enqueue_rejection (source_id src) (sp_epoch sp) (\<lambda>s. s) clock' rj t = (Inl e, t)"
      using Inr by (simp add: enqueue_rejection_def tx_def)
    with e(1) open_t show ?thesis by blast
  qed
qed

text \<open>Metadata in which the successor of the baseline repeats its sequence number.\<close>

definition flat_loader :: loader where
  "flat_loader i =
     Inr (if i = 10 then Some (demo_doc 10 None 1) else if i = 11 then Some (demo_doc 11 (Some 10) 1) else None)"

definition flat_metadata :: table_metadata where
  "flat_metadata = demo_metadata\<lparr> md_current := Some 11 \<rparr>"

definition flat_catalog :: catalog where
  "flat_catalog = demo_catalog\<lparr> ct_pin := Inr flat_metadata, ct_loader := flat_loader, ct_live := Inr (flat_metadata, flat_loader) \<rparr>"

definition flat_rejection :: snapshot_rejection where
  "flat_rejection = \<lparr> rj_snapshot = demo_record 11 (Some 10) 1, rj_error = ''SOURCE_SEQUENCE_ORDER'' \<rparr>"

definition flat_plan :: source_plan where
  "flat_plan = \<lparr> sp_table_uuid = uuid_str 7, sp_head = Some 11, sp_windows = [], sp_epoch = Some 0,
     sp_rejection = Some flat_rejection \<rparr>"

lemma flat_walk: "iter_snapshot_documents flat_loader 11 10 = Some (Inr [demo_doc 11 (Some 10) 1, demo_doc 10 None 1])"
  by (simp add: iter_snapshot_documents_def iter_from.simps walk_body_def next_snapshot_id_def flat_loader_def demo_doc_def)

lemma flat_candidates:
  "incremental_candidates flat_catalog flat_metadata 11 demo_checkpoint 32 = Some (Inr [demo_record 11 (Some 10) 1])"
proof -
  have bounded: "bounded_snapshot_documents flat_loader 11 10 (Some 33) False = Some (Inr [demo_doc 11 (Some 10) 1, demo_doc 10 None 1])"
    by (simp add: bounded_snapshot_documents_def flat_walk bounded_tail_def)
  have "snapshots_through flat_loader (\<lambda>_. Inr []) flat_metadata 11 10 (Some 33) False =
      Some (Inr [demo_record 11 (Some 10) 1, demo_record 10 None 1])"
    unfolding snapshots_through_def bounded by code_simp
  moreover have "bounded_incremental_candidates (bounded_tail 34 [demo_record 11 (Some 10) 1, demo_record 10 None 1])
      demo_checkpoint = Inr [demo_record 11 (Some 10) 1]"
    by code_simp
  ultimately show ?thesis
    by (simp add: incremental_candidates_def demo_checkpoint_def demo_catalog_def flat_catalog_def)
qed

lemma flat_plans: "plan flat_catalog demo_registered (\<lambda>s. s) 32 9 demo_db2 = Some (Inr flat_plan, demo_db2)"
proof -
  have ids: "source_id demo_registered = demo_source" by (simp add: demo_registered_def)
  have md: "md_table_uuid flat_metadata = uuid_str 7" "md_current flat_metadata = Some 11"
    by (simp_all add: flat_metadata_def demo_metadata_def)
  have ck: "ck_seq demo_checkpoint = 1" by (simp add: demo_checkpoint_def)
  have planned: "plan_windows flat_catalog ''c.n.t'' flat_metadata 1 [demo_record 11 (Some 10) 1] = Inr ([], Some flat_rejection)"
    by code_simp
  have vids: "verification_ids demo_checkpoint [] (Some flat_rejection) = [10, 11]"
    by (simp add: verification_ids_def demo_checkpoint_def flat_rejection_def demo_record_def)
  have verified: "verify_planning_snapshots flat_catalog ''c.n.t'' (uuid_str 7) [10, 11] = Some (Inr ())"
    by (simp add: verify_planning_snapshots_def demo_table_name flat_catalog_def flat_metadata_def demo_metadata_def flat_walk demo_doc_def)
  have contract: "validate_table_contract flat_metadata (Some demo_checkpoint) REQUIRED_PARTITION_FIELDS = Inr ()" by code_simp
  have pin: "ct_pin flat_catalog = Inr flat_metadata" by (simp add: flat_catalog_def)
  have "plan_next_increment flat_catalog demo_registered (\<lambda>s. s) flat_metadata demo_checkpoint
      (s_seq (v_row demo_view)) (Some 0) 32 9 demo_db2 = Some (Inr flat_plan, demo_db2)"
    by (simp add: plan_next_increment_def md flat_candidates demo_spark_table ck planned vids verified flat_plan_def
        del: plan_windows.simps)
  moreover have "v_epoch demo_view = 0" "\<not> v_blocked demo_view" by (simp_all add: demo_view_def)
  ultimately show ?thesis
    by (simp add: plan_def plan_pinned_def ids demo_latest demo_spark_table demo_table_name pin md demo_identity
        demo_checkpoint_of contract)
qed

theorem sequence_rejection_unrecorded_witness:
  "plan flat_catalog demo_registered (\<lambda>s. s) 32 9 demo_db2 = Some (Inr flat_plan, demo_db2) \<and>
   (\<exists>e. enqueue_rejection demo_source (Some 0) (\<lambda>s. s) 9 flat_rejection demo_db2 = (Inl e, demo_db2)) \<and>
   \<not> source_gated demo_source demo_db2"
proof -
  have id: "source_id demo_registered = demo_source" by (simp add: demo_registered_def)
  have latest: "latest_source_snapshot (Some (source_id demo_registered)) demo_db2 = Inr (Some demo_view)"
    by (simp add: id demo_latest)
  have rej: "sp_rejection flat_plan = Some flat_rejection" and ws: "sp_windows flat_plan = []" "sp_epoch flat_plan = Some 0"
    by (simp_all add: flat_plan_def)
  have seq: "sn_seq (rj_snapshot flat_rejection) \<le>
      snd (chain_end (s_snapshot (v_row demo_view)) (s_iceberg_seq (v_row demo_view)) (map wp_snapshot (sp_windows flat_plan)))"
    by (simp add: ws chain_end_def flat_rejection_def demo_record_def demo_view_def demo_snapshot_def snapshot_of_plan_def demo_plan_def)
  have unknown: "\<not> snapshot_known (source_id demo_registered) (sn_id (rj_snapshot flat_rejection)) demo_db2"
    by (simp add: snapshot_known_def demo_db2_def flat_rejection_def demo_record_def demo_snapshot_def snapshot_of_plan_def demo_plan_def)
  have enq: "enqueue_windows demo_sha1 (source_id demo_registered) (sp_epoch flat_plan) quiet_clients 0 (\<lambda>_. 9) (sp_windows flat_plan)
      demo_db2 = (Inr [], demo_db2)" by (simp add: ws)
  from sequence_rejection_unrecorded [OF flat_plans demo_inv2 latest rej seq enq unknown, of 9] flat_plans
  show ?thesis by (auto simp: id ws)
qed

section \<open>Refinement\<close>

text \<open>
  A whole planning cycle keeps the invariant of the protocol: whatever Iceberg and Spark answer, whatever
  other clients commit before each of its transactions, and whether the cycle returns, raises or finds its
  observation stale, the database it leaves is reached by steps of the abstract protocol.
\<close>

lemma planning_cycle_refines:
  assumes "cp_inv s" and "clients_run others"
    and "plan_and_enqueue_snapshots sha1 ct src max_snapshots others now s = Some (r, s')"
  shows "cp_steps s s' \<and> cp_inv s'"
proof -
  have shifted: "clients_run (\<lambda>n. others (Suc n))" using assms(2) by (simp add: clients_run_def)
  have p: "runs s s1" if "plan ct src (others 0) max_snapshots (now 0) s = Some (q, s1)" for q s1
    by (rule plan_runs [OF assms(2,1) that])
  have e: "runs s s2" if "plan ct src (others 0) max_snapshots (now 0) s = Some (q, s1)"
      "enqueue_plan sha1 src max_snapshots (\<lambda>n. others (Suc n)) (\<lambda>n. now (Suc n)) sp s1 = (q', s2)" for q s1 sp q' s2
    using runs_trans [OF p [OF that(1)] enqueue_plan_runs [OF shifted runs_inv [OF p [OF that(1)]] that(2)]] .
  have "runs s s'" using assms(3)
    by (auto simp: plan_and_enqueue_snapshots_def Let_def split: option.splits sum.splits prod.splits dest: p e)
  then show ?thesis by (simp add: runs_def)
qed

end
