(* ===== verification/Dispatch.thy ===== *)
theory Dispatch
  imports Operations Settings Commits Planner Retention
begin

text \<open>
  The reconciler services (\<open>reconciler/results.py\<close>, \<open>reconciler/service.py\<close>,
  \<open>reconciler/retention.py\<close>): typed worker outcomes and their application through the fence, the
  bounded dispatcher, the retention sweep, the retention and health decisions, and the operator's
  repairs. Repository calls are numbered; \<open>en_others n\<close> is what other clients (the executor of a claim
  among them) commit before the \<open>n\<close>-th, \<open>en_now n\<close> is the clock it reads, and \<open>en_token n\<close>
  the tokens a claim call draws. The executor of a claim is a parameter that returns an outcome or
  raises; \<open>en_text\<close> is the text of a repository error.
\<close>

section \<open>Outcomes\<close>

datatype result_kind = INGEST_SUCCEEDED | PUBLISH_SUCCEEDED | RESULT_RETRY | RESULT_BLOCKED

record work_result =
  wr_claim :: work_claim
  wr_kind :: result_kind
  wr_data_version :: "int option"
  wr_indexed_version :: "int option"
  wr_row_count :: "int option"
  wr_source_digest :: "bytes option"
  wr_candidate_uri :: "string option"
  wr_manifest_uri :: "string option"
  wr_manifest_digest :: "bytes option"
  wr_evidence :: "publication_evidence option"
  wr_error_code :: "string option"
  wr_error_message :: "string option"

text \<open>\<open>bool(value)\<close> of an optional string.\<close>

definition present :: "string option \<Rightarrow> bool" where
  "present v = (case v of None \<Rightarrow> False | Some t \<Rightarrow> t \<noteq> [])"

definition WorkResult_validate :: "work_result \<Rightarrow> unit result" where
  "WorkResult_validate r =
     (case wr_kind r of
        INGEST_SUCCEEDED \<Rightarrow>
          ensure ((case wr_data_version r of None \<Rightarrow> False | Some v \<Rightarrow> 0 < v) \<and>
            (case wr_row_count r of None \<Rightarrow> False | Some n \<Rightarrow> 0 \<le> n) \<and>
            (case wr_source_digest r of None \<Rightarrow> False | Some g \<Rightarrow> length g = 32)) ValueError
      | PUBLISH_SUCCEEDED \<Rightarrow>
          rbind (ensure ((case wr_indexed_version r of None \<Rightarrow> False | Some v \<Rightarrow> 0 < v) \<and>
            present (wr_candidate_uri r) \<and> present (wr_manifest_uri r) \<and>
            (case wr_manifest_digest r of None \<Rightarrow> False | Some g \<Rightarrow> length g = 32) \<and> wr_evidence r \<noteq> None) ValueError) (\<lambda>_.
          case wr_evidence r of None \<Rightarrow> Inr () | Some ev \<Rightarrow> PublicationEvidence_validate ev)
      | _ \<Rightarrow> ensure (present (wr_error_code r)) ValueError)"

definition required :: "'a option \<Rightarrow> 'a result" where
  "required v = (case v of None \<Rightarrow> Inl ValueError | Some x \<Rightarrow> Inr x)"

definition required_str :: "string option \<Rightarrow> string result" where
  "required_str v = (if present v then Inr (the v) else Inl ValueError)"

section \<open>Repository calls\<close>

record client_env =
  en_others :: "nat \<Rightarrow> db \<Rightarrow> db"
  en_now :: "nat \<Rightarrow> int"
  en_token :: "nat \<Rightarrow> uuid \<Rightarrow> uuid"
  en_lockw :: "nat \<Rightarrow> uuid \<Rightarrow> bool"
  en_lockd :: "nat \<Rightarrow> uuid \<Rightarrow> bool"
  en_sha1 :: "bytes \<Rightarrow> bytes"
  en_sha256 :: "bytes \<Rightarrow> bytes"
  en_text :: "py_error \<Rightarrow> string"

type_synonym client_state = "nat \<times> db"

definition call :: "client_env \<Rightarrow> (nat \<Rightarrow> db \<Rightarrow> ('a \<times> db) result) \<Rightarrow> client_state \<Rightarrow> 'a result \<times> client_state" where
  "call env f st =
     (case st of (n, s) \<Rightarrow>
        (case f n (en_others env n s) of
           Inl e \<Rightarrow> (Inl e, (Suc n, en_others env n s))
         | Inr (x, s') \<Rightarrow> (Inr x, (Suc n, s'))))"

section \<open>Applying an outcome\<close>

definition publish_phases :: "work_phase list" where
  "publish_phases = [PH_COMPACT, PH_INDEX, PH_VALIDATE, PH_PREWARM]"

fun advance_through :: "client_env \<Rightarrow> work_result \<Rightarrow> work_phase list \<Rightarrow> client_state \<Rightarrow> bool result \<times> client_state" where
  "advance_through env r [] st = (Inr True, st)"
| "advance_through env r (phase # phases) st =
     (case call env (\<lambda>n. advance_phase (wr_claim r) phase (wr_candidate_uri r) (wr_indexed_version r)
              (wr_manifest_uri r) (wr_manifest_digest r) (en_now env n)) st of
        (Inl e, st') \<Rightarrow> (Inl e, st')
      | (Inr accepted, st') \<Rightarrow> if accepted then advance_through env r phases st' else (Inr False, st'))"

definition advance_publish_phases :: "client_env \<Rightarrow> work_result \<Rightarrow> client_state \<Rightarrow> bool result \<times> client_state" where
  "advance_publish_phases env r st =
     (if c_phase (wr_claim r) \<notin> set publish_phases then (Inl ValueError, st)
      else advance_through env r (tl (dropWhile (\<lambda>p. p \<noteq> c_phase (wr_claim r)) publish_phases)) st)"

definition reconcile :: "client_env \<Rightarrow> reconciler_settings \<Rightarrow> work_result \<Rightarrow> client_state \<Rightarrow> bool result \<times> client_state" where
  "reconcile env settings r st =
     (case WorkResult_validate r of
        Inl e \<Rightarrow> (Inl e, st)
      | Inr _ \<Rightarrow>
          (case wr_kind r of
             INGEST_SUCCEEDED \<Rightarrow>
               (case rbind (required (wr_data_version r)) (\<lambda>v. rbind (required (wr_row_count r)) (\<lambda>n.
                     rbind (required (wr_source_digest r)) (\<lambda>g. Inr (v, n, g)))) of
                  Inl e \<Rightarrow> (Inl e, st)
                | Inr (v, n, g) \<Rightarrow>
                    call env (\<lambda>k. complete_ingest (en_sha1 env) (wr_claim r) v n g (en_now env k)) st)
           | PUBLISH_SUCCEEDED \<Rightarrow>
               (case advance_publish_phases env r st of
                  (Inl e, st') \<Rightarrow> (Inl e, st')
                | (Inr False, st') \<Rightarrow> (Inr False, st')
                | (Inr True, st') \<Rightarrow>
                    (case rbind (required_str (wr_candidate_uri r)) (\<lambda>u. rbind (required (wr_indexed_version r)) (\<lambda>v.
                          rbind (required_str (wr_manifest_uri r)) (\<lambda>m. rbind (required (wr_manifest_digest r)) (\<lambda>g.
                          rbind (required (wr_evidence r)) (\<lambda>ev. Inr (u, v, m, g, ev)))))) of
                       Inl e \<Rightarrow> (Inl e, st')
                     | Inr (u, v, m, g, ev) \<Rightarrow>
                         call env (\<lambda>k. publish_dataset (en_sha1 env) (wr_claim r) u v m g ev (en_now env k)) st'))
           | RESULT_RETRY \<Rightarrow>
               (case rbind (retry_delay (en_sha256 env) settings (c_attempts (wr_claim r)) (Some (c_work (wr_claim r)))) (\<lambda>d.
                     rbind (required_str (wr_error_code r)) (\<lambda>ec. Inr (d, ec))) of
                  Inl e \<Rightarrow> (Inl e, st)
                | Inr (d, ec) \<Rightarrow>
                    call env (\<lambda>k. retry_work (wr_claim r) d ec (case wr_error_message r of None \<Rightarrow> [] | Some t \<Rightarrow> t)
                      (max_attempts settings) (en_now env k)) st)
           | RESULT_BLOCKED \<Rightarrow>
               (case required_str (wr_error_code r) of
                  Inl e \<Rightarrow> (Inl e, st)
                | Inr ec \<Rightarrow>
                    call env (\<lambda>k. block_work (wr_claim r) ec (case wr_error_message r of None \<Rightarrow> [] | Some t \<Rightarrow> t)
                      (en_now env k)) st)))"

section \<open>The dispatcher\<close>

type_synonym executor = "nat \<Rightarrow> work_claim \<Rightarrow> py_exc + work_result"

definition execute_isolated :: "executor \<Rightarrow> nat \<Rightarrow> work_claim \<Rightarrow> work_result" where
  "execute_isolated execute n c =
     (case execute n c of
        Inr r \<Rightarrow> r
      | Inl exc \<Rightarrow>
          \<lparr> wr_claim = c, wr_kind = RESULT_RETRY, wr_data_version = None, wr_indexed_version = None,
            wr_row_count = None, wr_source_digest = None, wr_candidate_uri = None, wr_manifest_uri = None,
            wr_manifest_digest = None, wr_evidence = None, wr_error_code = Some ''UNEXPECTED_WORKER_FAILURE'',
            wr_error_message = Some (exc_message exc) \<rparr>)"

record dispatch_counts =
  dc_kinds :: "result_kind \<Rightarrow> nat"
  dc_stale :: nat
  dc_diverged :: nat
  dc_claimed :: nat

record dispatch_summary =
  ds_claimed :: nat
  ds_succeeded :: nat
  ds_advanced :: nat
  ds_retried :: nat
  ds_blocked :: nat
  ds_stale :: nat

definition block_diverged_claim :: "client_env \<Rightarrow> work_claim \<Rightarrow> py_error \<Rightarrow> client_state \<Rightarrow> client_state" where
  "block_diverged_claim env c e st =
     snd (call env (\<lambda>n. block_work c ''STATE_DIVERGENCE'' (en_text env e) (en_now env n)) st)"

definition dispatch_claim ::
    "client_env \<Rightarrow> reconciler_settings \<Rightarrow> executor \<Rightarrow> work_claim \<Rightarrow> dispatch_counts \<times> client_state \<Rightarrow>
     dispatch_counts \<times> client_state" where
  "dispatch_claim env settings execute c acc =
     (case acc of (counts, st) \<Rightarrow>
        (let r = execute_isolated execute (fst st) c
         in case reconcile env settings r st of
              (Inl e, st') \<Rightarrow>
                (counts\<lparr> dc_diverged := Suc (dc_diverged counts) \<rparr>,
                 if e = StateTransitionError \<or> e = StaleSourcePlanError then block_diverged_claim env c e st' else st')
            | (Inr accepted, st') \<Rightarrow>
                (counts\<lparr> dc_kinds := (dc_kinds counts)(wr_kind r := Suc (dc_kinds counts (wr_kind r))),
                   dc_stale := (if accepted then dc_stale counts else Suc (dc_stale counts)) \<rparr>, st')))"

fun drain ::
    "client_env \<Rightarrow> reconciler_settings \<Rightarrow> executor \<Rightarrow> nat \<Rightarrow> dispatch_counts \<times> client_state \<Rightarrow>
     dispatch_counts result \<times> client_state" where
  "drain env settings execute 0 acc = (Inr (fst acc), snd acc)"
| "drain env settings execute (Suc batches) acc =
     (case acc of (counts, st) \<Rightarrow>
        (case call env (\<lambda>n. claim_due_work (en_token env n) (en_lockw env n) (en_lockd env n)
                 (claim_batch_size settings) (lease_duration settings) (en_now env n)) st of
           (Inl e, st') \<Rightarrow> (Inl e, st')
         | (Inr claims, st') \<Rightarrow>
             if claims = [] then (Inr counts, st')
             else
               (let acc' = fold (dispatch_claim env settings execute) claims
                      (counts\<lparr> dc_claimed := dc_claimed counts + length claims \<rparr>, st')
                in if int (length claims) < claim_batch_size settings then (Inr (fst acc'), snd acc')
                   else drain env settings execute batches acc')))"

definition dispatch_start :: dispatch_counts where
  "dispatch_start = \<lparr> dc_kinds = (\<lambda>_. 0), dc_stale = 0, dc_diverged = 0, dc_claimed = 0 \<rparr>"

definition dispatch_run ::
    "client_env \<Rightarrow> reconciler_settings \<Rightarrow> executor \<Rightarrow> client_state \<Rightarrow> dispatch_summary result \<times> client_state" where
  "dispatch_run env settings execute st =
     (case drain env settings execute (nat (max_drain_batches settings)) (dispatch_start, st) of
        (r, st') \<Rightarrow>
          (rbind r (\<lambda>counts. Inr
             \<lparr> ds_claimed = dc_claimed counts,
               ds_succeeded = dc_kinds counts INGEST_SUCCEEDED + dc_kinds counts PUBLISH_SUCCEEDED,
               ds_advanced = 0, ds_retried = dc_kinds counts RESULT_RETRY,
               ds_blocked = dc_kinds counts RESULT_BLOCKED + dc_diverged counts, ds_stale = dc_stale counts \<rparr>), st'))"

section \<open>The retention sweep\<close>

record reconcile_summary =
  rs_inspected :: nat
  rs_reconciled :: nat
  rs_deferred :: nat

text \<open>
  \<open>remove\<close> deletes the pin and the artifact of a retired publication outside the database and answers
  the text of its failure, if any.
\<close>

fun finalize_all ::
    "client_env \<Rightarrow> (publication_cleanup \<Rightarrow> string option) \<Rightarrow> publication_cleanup list \<Rightarrow> nat \<times> nat \<Rightarrow> client_state \<Rightarrow>
     (nat \<times> nat) result \<times> client_state" where
  "finalize_all env remove [] counts st = (Inr counts, st)"
| "finalize_all env remove (k # ks) (reconciled, deferred) st =
     (case remove k of
        Some _ \<Rightarrow> finalize_all env remove ks (reconciled, Suc deferred) st
      | None \<Rightarrow>
          (case call env (\<lambda>n. finalize_publication_cleanup k) st of
             (Inl e, st') \<Rightarrow> (Inl e, st')
           | (Inr done, st') \<Rightarrow>
               finalize_all env remove ks (if done then (Suc reconciled, deferred) else (reconciled, Suc deferred)) st'))"

definition retention_sweep ::
    "client_env \<Rightarrow> reconciler_settings \<Rightarrow> (uuid \<Rightarrow> nat) \<Rightarrow> (publication_cleanup \<Rightarrow> string option) \<Rightarrow> int \<Rightarrow> client_state \<Rightarrow>
     reconcile_summary result \<times> client_state" where
  "retention_sweep env settings tie remove current st =
     (case call env (\<lambda>n s. rbind (claim_publication_cleanup tie current (cleanup_batch_size settings) s) (\<lambda>ks. Inr (ks, s))) st of
        (Inl e, st1) \<Rightarrow> (Inl e, st1)
      | (Inr claims, st1) \<Rightarrow>
          (case finalize_all env remove claims (0, 0) st1 of
             (Inl e, st2) \<Rightarrow> (Inl e, st2)
           | (Inr (reconciled, deferred), st2) \<Rightarrow>
               (case call env (\<lambda>n. delete_completed_audit (current - audit_retention settings) (cleanup_batch_size settings)) st2 of
                  (Inl e, st3) \<Rightarrow> (Inl e, st3)
                | (Inr (work_deleted, windows_deleted), st3) \<Rightarrow>
                    (Inr \<lparr> rs_inspected = length claims, rs_reconciled = reconciled + work_deleted + windows_deleted,
                       rs_deferred = deferred \<rparr>, st3))))"

section \<open>Retention and health decisions\<close>

record retention_decision_view =
  rd_held :: bool
  rd_seq :: "int option"
  rd_snapshot :: "int option"
  rd_state :: "snapshot_state option"

definition retention_decision :: "control_plane_status_view \<Rightarrow> retention_decision_view" where
  "retention_decision status =
     (case st_floor_seq status of
        None \<Rightarrow> \<lparr> rd_held = False, rd_seq = None, rd_snapshot = None, rd_state = None \<rparr>
      | Some q \<Rightarrow>
          \<lparr> rd_held = True, rd_seq = Some q,
            rd_snapshot = (case st_floor_parent status of
                             None \<Rightarrow> st_floor_snapshot status
                           | Some p \<Rightarrow> if p = 0 then st_floor_snapshot status else Some p),
            rd_state = st_floor_state status \<rparr>)"

definition age_seconds :: "int option \<Rightarrow> int \<Rightarrow> rat" where
  "age_seconds value now = (case value of None \<Rightarrow> 0 | Some t \<Rightarrow> max 0 (total_seconds (now - t)))"

record slo_status =
  sl_healthy :: bool
  sl_reasons :: "string list"
  sl_due :: nat
  sl_blocked :: nat
  sl_blocked_snapshots :: nat
  sl_oldest_age :: rat
  sl_retention_age :: rat

definition evaluate_slo :: "control_plane_status_view \<Rightarrow> reconciler_settings \<Rightarrow> int \<Rightarrow> slo_status" where
  "evaluate_slo status settings current =
     (let oldest_age = age_seconds (st_oldest_open status) current;
          retention_age = age_seconds (st_floor_created status) current;
          reasons =
            (if 0 < st_blocked status then [''blocked_work''] else []) @
            (if 0 < st_blocked_snapshots status then [''blocked_source_snapshot''] else []) @
            (if max_due_work settings < int (st_due status) then [''due_queue_over_budget''] else []) @
            (if total_seconds (max_open_work_age settings) < oldest_age then [''open_work_age_over_budget''] else []) @
            (if st_floor_state status \<noteq> Some COMPLETE \<and> total_seconds (max_retention_age settings) < retention_age
             then [''source_retention_age_over_budget''] else [])
      in \<lparr> sl_healthy = (reasons = []), sl_reasons = reasons, sl_due = st_due status, sl_blocked = st_blocked status,
           sl_blocked_snapshots = st_blocked_snapshots status, sl_oldest_age = oldest_age,
           sl_retention_age = retention_age \<rparr>)"

section \<open>One cycle\<close>

record run_once_summary =
  ro_planning :: enqueue_summary
  ro_dispatch :: dispatch_summary
  ro_reconciliation :: reconcile_summary
  ro_retention :: retention_decision_view
  ro_slo :: slo_status

text \<open>
  Planning, dispatching, the sweep, and the two decisions on fresh status reads. A planning cycle makes
  at most \<open>max_snapshots_per_plan + 3\<close> numbered calls.
\<close>

definition run_once ::
    "client_env \<Rightarrow> catalog \<Rightarrow> iceberg_source \<Rightarrow> reconciler_settings \<Rightarrow> executor \<Rightarrow> (uuid \<Rightarrow> nat) \<Rightarrow>
     (publication_cleanup \<Rightarrow> string option) \<Rightarrow> client_state \<Rightarrow> (run_once_summary result \<times> client_state) option" where
  "run_once env ct src settings execute tie remove st =
     (case st of (n, s) \<Rightarrow>
        (case plan_and_enqueue_snapshots (en_sha1 env) ct src (max_snapshots_per_plan settings)
                (\<lambda>k. en_others env (n + k)) (\<lambda>k. en_now env (n + k)) s of
           None \<Rightarrow> None
         | Some (planned, s1) \<Rightarrow>
             (let n1 = n + nat (max_snapshots_per_plan settings) + 3
              in case planned of
                   Inl e \<Rightarrow> Some (Inl e, (n1, s1))
                 | Inr planning \<Rightarrow>
                     (case dispatch_run env settings execute (n1, s1) of
                        (Inl e, st2) \<Rightarrow> Some (Inl e, st2)
                      | (Inr dispatch, st2) \<Rightarrow>
                          (case retention_sweep env settings tie remove (en_now env (fst st2)) st2 of
                             (Inl e, st3) \<Rightarrow> Some (Inl e, st3)
                           | (Inr reconciliation, (n3, s3)) \<Rightarrow>
                               (let s4 = en_others env n3 s3; s5 = en_others env (Suc n3) s4
                                in Some (Inr
                                     \<lparr> ro_planning = planning, ro_dispatch = dispatch, ro_reconciliation = reconciliation,
                                       ro_retention = retention_decision (control_plane_status (en_now env n3) s4),
                                       ro_slo = evaluate_slo (control_plane_status (en_now env (Suc n3)) s5) settings
                                         (en_now env (Suc (Suc n3))) \<rparr>, (Suc (Suc n3), s5))))))))"

section \<open>Repairs\<close>

definition read :: "(nat \<Rightarrow> db \<Rightarrow> 'a result) \<Rightarrow> nat \<Rightarrow> db \<Rightarrow> ('a \<times> db) result" where
  "read f n s = rbind (f n s) (\<lambda>x. Inr (x, s))"

definition repair_blocked_work :: "client_env \<Rightarrow> uuid \<Rightarrow> bool \<Rightarrow> client_state \<Rightarrow> bool result \<times> client_state" where
  "repair_blocked_work env wid dry_run st =
     (if dry_run then call env (read (\<lambda>n s. Inr (can_retry_blocked_work wid s))) st
      else call env (\<lambda>n. retry_blocked_work wid (en_now env n)) st)"

definition repair_blocked_source_snapshot :: "client_env \<Rightarrow> int \<Rightarrow> bool \<Rightarrow> client_state \<Rightarrow> bool result \<times> client_state" where
  "repair_blocked_source_snapshot env seq dry_run st =
     (if dry_run then call env (read (\<lambda>n. can_retry_blocked_source_snapshot seq)) st
      else call env (\<lambda>n. retry_blocked_source_snapshot seq (en_now env n)) st)"

definition repair_rebuild ::
    "client_env \<Rightarrow> routing_identity \<Rightarrow> uuid \<Rightarrow> bool \<Rightarrow> client_state \<Rightarrow> uuid option result \<times> client_state" where
  "repair_rebuild env route req dry_run st =
     (case RoutingIdentity_validate route of
        Inl e \<Rightarrow> (Inl e, st)
      | Inr _ \<Rightarrow>
          if dry_run then (Inr None, st)
          else (case call env (\<lambda>n. enqueue_rebuild (en_sha1 env) route req (en_now env n)) st of
                  (r, st') \<Rightarrow> (rbind r (\<lambda>wid. Inr (Some wid)), st')))"

end
