(* ===== verification/Dispatch_Properties.thy ===== *)
theory Dispatch_Properties
  imports Dispatch
begin

text \<open>
  The dispatcher as a client of the control plane: every transaction it commits is an operation of the
  system under a claim it was issued itself, failures of one claim never reach another, and each claim
  is accounted for exactly once.
\<close>

section \<open>Clients\<close>

definition owned :: "cp_op \<Rightarrow> work_claim list \<Rightarrow> bool" where
  "owned op mine = (case op_claim op of None \<Rightarrow> True | Some c \<Rightarrow> c \<in> set mine)"

inductive client_step ::
    "(bytes \<Rightarrow> bytes) \<Rightarrow> (nat \<Rightarrow> db \<Rightarrow> db) \<Rightarrow> nat \<times> db \<times> work_claim list \<Rightarrow> nat \<times> db \<times> work_claim list \<Rightarrow> bool"
  for sha1 others where
  commits: "owned op mine \<Longrightarrow> exec_op sha1 op (others n s) = Inr (new, s') \<Longrightarrow>
     client_step sha1 others (n, s, mine) (Suc n, s', mine @ new)"
| raises: "owned op mine \<Longrightarrow> exec_op sha1 op (others n s) = Inl e \<Longrightarrow>
     client_step sha1 others (n, s, mine) (Suc n, others n s, mine)"

abbreviation client_steps ::
    "(bytes \<Rightarrow> bytes) \<Rightarrow> (nat \<Rightarrow> db \<Rightarrow> db) \<Rightarrow> nat \<times> db \<times> work_claim list \<Rightarrow> nat \<times> db \<times> work_claim list \<Rightarrow> bool" where
  "client_steps sha1 others \<equiv> (client_step sha1 others)\<^sup>*\<^sup>*"

text \<open>The transactions of a state whose result carries no claims.\<close>

definition moves :: "client_env \<Rightarrow> work_claim list \<Rightarrow> client_state \<Rightarrow> client_state \<Rightarrow> bool" where
  "moves env mine st st' = client_steps (en_sha1 env) (en_others env) (fst st, snd st, mine) (fst st', snd st', mine)"

lemma moves_refl [simp]: "moves env mine st st"
  by (simp add: moves_def)

lemma moves_trans: "moves env mine a b \<Longrightarrow> moves env mine b c \<Longrightarrow> moves env mine a c"
  unfolding moves_def by (rule rtranclp_trans)

lemma call_moves:
  assumes "\<And>n s. exec_op (en_sha1 env) (op n) s = no_claims (f n s)" and "\<And>n. owned (op n) mine"
  shows "moves env mine st (snd (call env f st))"
proof -
  obtain n s where st: "st = (n, s)" by (cases st)
  let ?t = "en_others env n s"
  show ?thesis
  proof (cases "f n ?t")
    case (Inl e)
    then have "exec_op (en_sha1 env) (op n) ?t = Inl e" by (simp add: assms(1) no_claims_def)
    from client_step.raises [where others = "en_others env" and n = n and s = s, OF assms(2) this] Inl show ?thesis by (auto simp: moves_def call_def st)
  next
    case (Inr r)
    obtain x s' where "r = (x, s')" by (cases r)
    with Inr have "exec_op (en_sha1 env) (op n) ?t = Inr ([], s')" by (simp add: assms(1) no_claims_def)
    from client_step.commits [where others = "en_others env" and n = n and s = s, OF assms(2) this] Inr \<open>r = _\<close> show ?thesis by (auto simp: moves_def call_def st)
  qed
qed

lemma call_moves_to: "call env f st = (r, st') \<Longrightarrow> (\<And>n s. exec_op (en_sha1 env) (op n) s = no_claims (f n s)) \<Longrightarrow>
    (\<And>n. owned (op n) mine) \<Longrightarrow> moves env mine st st'"
  using call_moves [of env op f mine st] by simp

section \<open>Applying an outcome\<close>

lemma advance_through_moves:
  assumes "advance_through env r phases st = (q, st')" and "wr_claim r \<in> set mine"
  shows "moves env mine st st'"
  using assms(1)
proof (induction phases arbitrary: st)
  case Nil
  then show ?case by simp
next
  case (Cons p ps)
  let ?f = "\<lambda>n. advance_phase (wr_claim r) p (wr_candidate_uri r) (wr_indexed_version r) (wr_manifest_uri r)
     (wr_manifest_digest r) (en_now env n)"
  obtain a st1 where a: "call env ?f st = (a, st1)" by (rule prod.exhaust)
  have m: "moves env mine st st1"
    by (rule call_moves_to [OF a, where op = "\<lambda>n. Advance (wr_claim r) p (wr_candidate_uri r) (wr_indexed_version r)
        (wr_manifest_uri r) (wr_manifest_digest r) (en_now env n)"]) (use assms(2) in \<open>simp_all add: owned_def\<close>)
  show ?case using Cons.prems a m moves_trans [OF m Cons.IH] by (auto split: sum.splits if_splits)
qed

lemma reconcile_moves:
  assumes "reconcile env settings r st = (q, st')" and "wr_claim r \<in> set mine"
  shows "moves env mine st st'"
proof -
  have ingest: "moves env mine a b"
    if "call env (\<lambda>k. complete_ingest (en_sha1 env) (wr_claim r) v n g (en_now env k)) a = (x, b)" for v n g a b x
    by (rule call_moves_to [OF that, where op = "\<lambda>k. Complete_Ingest (wr_claim r) v n g (en_now env k)"])
      (use assms(2) in \<open>simp_all add: owned_def\<close>)
  have publish: "moves env mine a b"
    if "call env (\<lambda>k. publish_dataset (en_sha1 env) (wr_claim r) u v m g ev (en_now env k)) a = (x, b)" for u v m g ev a b x
    by (rule call_moves_to [OF that, where op = "\<lambda>k. Publish_Dataset (wr_claim r) u v m g ev (en_now env k)"])
      (use assms(2) in \<open>simp_all add: owned_def\<close>)
  have retry: "moves env mine a b"
    if "call env (\<lambda>k. retry_work (wr_claim r) d ec em n (en_now env k)) a = (x, b)" for d ec em n a b x
    by (rule call_moves_to [OF that, where op = "\<lambda>k. Retry (wr_claim r) d ec em n (en_now env k)"])
      (use assms(2) in \<open>simp_all add: owned_def\<close>)
  have block: "moves env mine a b" if "call env (\<lambda>k. block_work (wr_claim r) ec em (en_now env k)) a = (x, b)" for ec em a b x
    by (rule call_moves_to [OF that, where op = "\<lambda>k. Block (wr_claim r) ec em (en_now env k)"])
      (use assms(2) in \<open>simp_all add: owned_def\<close>)
  have phases: "moves env mine st a" if "advance_publish_phases env r st = (x, a)" for x a
    using that advance_through_moves [OF _ assms(2)] by (auto simp: advance_publish_phases_def split: if_splits)
  show ?thesis
  proof (cases "WorkResult_validate r")
    case (Inl e)
    with assms(1) show ?thesis by (simp add: reconcile_def)
  next
    case (Inr u)
    show ?thesis
    proof (cases "wr_kind r")
      case PUBLISH_SUCCEEDED
      obtain x a where a: "advance_publish_phases env r st = (x, a)" by (rule prod.exhaust)
      show ?thesis using assms(1) Inr PUBLISH_SUCCEEDED a phases [OF a] publish moves_trans
        by (auto simp: reconcile_def split: sum.splits bool.splits prod.splits)
    qed (use assms(1) Inr ingest retry block in \<open>auto simp: reconcile_def split: sum.splits prod.splits\<close>)
  qed
qed

lemma block_diverged_moves: "c \<in> set mine \<Longrightarrow> moves env mine st (block_diverged_claim env c e st)"
  unfolding block_diverged_claim_def
  by (rule call_moves [where op = "\<lambda>n. Block c ''STATE_DIVERGENCE'' (en_text env e) (en_now env n)"]) (simp_all add: owned_def)

section \<open>Dispatching\<close>

definition returns_own_claim :: "executor \<Rightarrow> bool" where
  "returns_own_claim execute \<longleftrightarrow> (\<forall>n c r. execute n c = Inr r \<longrightarrow> wr_claim r = c)"

lemma execute_isolated_claim: "returns_own_claim execute \<Longrightarrow> wr_claim (execute_isolated execute n c) = c"
  by (auto simp: returns_own_claim_def execute_isolated_def split: sum.splits)

text \<open>
  What becomes of one claim: the kind of result the executor produced for it and the answer of
  \<open>reconcile\<close>, at a state the run reaches while it owns the claim.
\<close>

type_synonym claim_outcome = "result_kind \<times> bool result"

definition outcome_at :: "client_env \<Rightarrow> reconciler_settings \<Rightarrow> executor \<Rightarrow> work_claim \<Rightarrow> client_state \<Rightarrow> claim_outcome" where
  "outcome_at env settings execute c st =
     (let r = execute_isolated execute (fst st) c in (wr_kind r, fst (reconcile env settings r st)))"

definition handled_in ::
    "client_env \<Rightarrow> reconciler_settings \<Rightarrow> executor \<Rightarrow> nat \<times> db \<times> work_claim list \<Rightarrow> work_claim \<Rightarrow> claim_outcome \<Rightarrow> bool" where
  "handled_in env settings execute start c x =
     (\<exists>m t own. client_steps (en_sha1 env) (en_others env) start (m, t, own) \<and> c \<in> set own \<and>
        x = outcome_at env settings execute c (m, t))"

text \<open>The counters of a run against the outcomes of its claims.\<close>

definition tally :: "(claim_outcome \<Rightarrow> bool) \<Rightarrow> claim_outcome list \<Rightarrow> nat" where
  "tally P xs = length (filter P xs)"

lemma tally_simps [simp]: "tally P [] = 0" "tally P (x # xs) = (if P x then Suc (tally P xs) else tally P xs)"
  "tally P (xs @ ys) = tally P xs + tally P ys"
  by (simp_all add: tally_def)

definition tallied :: "dispatch_counts \<Rightarrow> claim_outcome list \<Rightarrow> bool" where
  "tallied k xs \<longleftrightarrow> (\<forall>kind. dc_kinds k kind = tally (\<lambda>(x, q). x = kind \<and> \<not> isl q) xs) \<and>
     dc_diverged k = tally (\<lambda>(x, q). isl q) xs \<and> dc_stale k = tally (\<lambda>(x, q). q = Inr False) xs"

lemma dispatch_claim_step:
  assumes "dispatch_claim env settings execute c (k, st) = (k', st')" and "returns_own_claim execute" and "c \<in> set mine"
  shows "moves env mine st st'" and "dc_claimed k' = dc_claimed k"
    and "tallied k xs \<Longrightarrow> tallied k' (xs @ [outcome_at env settings execute c st])"
proof -
  let ?r = "execute_isolated execute (fst st) c"
  obtain q st1 where q: "reconcile env settings ?r st = (q, st1)" by (rule prod.exhaust)
  have m: "moves env mine st st1"
    by (rule reconcile_moves [OF q]) (use assms(2,3) in \<open>simp add: execute_isolated_claim\<close>)
  note d = assms(1) [unfolded dispatch_claim_def Let_def prod.case q]
  show "moves env mine st st'"
    using d m moves_trans [OF m block_diverged_moves [OF assms(3)]] by (cases q) (auto split: if_splits)
  show "dc_claimed k' = dc_claimed k" using d by (cases q) auto
  have "outcome_at env settings execute c st = (wr_kind ?r, q)" by (simp add: outcome_at_def Let_def q)
  then show "tallied k' (xs @ [outcome_at env settings execute c st])" if "tallied k xs"
    using d that by (cases q) (auto simp: tallied_def)
qed

lemma dispatch_claims_step:
  assumes "fold (dispatch_claim env settings execute) cs (k, st) = (k', st')" and "returns_own_claim execute"
    and "set cs \<subseteq> set mine" and "client_steps (en_sha1 env) (en_others env) start (fst st, snd st, mine)"
    and "tallied k xs"
  shows "client_steps (en_sha1 env) (en_others env) start (fst st', snd st', mine) \<and> dc_claimed k' = dc_claimed k \<and>
    (\<exists>ys. list_all2 (handled_in env settings execute start) cs ys \<and> tallied k' (xs @ ys))"
  using assms(1,3-5)
proof (induction cs arbitrary: k st xs)
  case Nil
  then show ?case by auto
next
  case (Cons c cs)
  let ?x = "outcome_at env settings execute c st"
  obtain k1 st1 where one: "dispatch_claim env settings execute c (k, st) = (k1, st1)" by (rule prod.exhaust)
  with Cons.prems(1) have rest: "fold (dispatch_claim env settings execute) cs (k1, st1) = (k', st')" by simp
  have c: "c \<in> set mine" using Cons.prems(2) by simp
  note step = dispatch_claim_step [OF one assms(2) c]
  have run: "client_steps (en_sha1 env) (en_others env) start (fst st1, snd st1, mine)"
    using Cons.prems(3) step(1) unfolding moves_def by (rule rtranclp_trans)
  from Cons.IH [OF rest _ run step(3) [OF Cons.prems(4)]] Cons.prems(2) obtain ys where
    ys: "list_all2 (handled_in env settings execute start) cs ys" "tallied k' ((xs @ [?x]) @ ys)"
    and end_run: "client_steps (en_sha1 env) (en_others env) start (fst st', snd st', mine)" "dc_claimed k' = dc_claimed k1"
    by auto
  have "handled_in env settings execute start c ?x"
    unfolding handled_in_def using Cons.prems(3) c by (metis prod.collapse)
  with ys have "list_all2 (handled_in env settings execute start) (c # cs) (?x # ys)" "tallied k' (xs @ ?x # ys)"
    by simp_all
  with end_run step(2) show ?case by auto
qed

text \<open>
  How a run that raises ended: with the error of a claim call, on the database that call found.
\<close>

definition claim_call_raised ::
    "client_env \<Rightarrow> reconciler_settings \<Rightarrow> nat \<times> db \<times> work_claim list \<Rightarrow> py_error \<Rightarrow> nat \<times> db \<times> work_claim list \<Rightarrow> bool" where
  "claim_call_raised env settings start e final =
     (\<exists>m t mine. client_steps (en_sha1 env) (en_others env) start (m, t, mine) \<and>
        final = (Suc m, en_others env m t, mine) \<and>
        claim_due_work (en_token env m) (en_lockw env m) (en_lockd env m) (claim_batch_size settings)
          (lease_duration settings) (en_now env m) (en_others env m t) = Inl e)"

lemma drain_step:
  assumes "drain env settings execute batches (k, (n, s)) = (r, (n', s'))" and "returns_own_claim execute"
    and "client_steps (en_sha1 env) (en_others env) start (n, s, mine)"
    and "list_all2 (handled_in env settings execute start) mine xs" and "tallied k xs" and "length mine = dc_claimed k"
  shows "\<exists>mine' xs'. client_steps (en_sha1 env) (en_others env) start (n', s', mine') \<and>
    list_all2 (handled_in env settings execute start) mine' xs' \<and>
    (case r of
       Inl e \<Rightarrow> claim_call_raised env settings start e (n', s', mine')
     | Inr k' \<Rightarrow> tallied k' xs' \<and> length mine' = dc_claimed k')"
  using assms(1,3-6)
proof (induction batches arbitrary: k n s mine xs)
  case 0
  then have "r = Inr k" "n' = n" "s' = s" by simp_all
  with 0 show ?case by (intro exI [of _ mine] exI [of _ xs]) simp
next
  case (Suc batches)
  let ?t = "en_others env n s"
  let ?op = "Claim (en_token env n) (en_lockw env n) (en_lockd env n) (claim_batch_size settings) (lease_duration settings) (en_now env n)"
  have own: "owned ?op mine" by (simp add: owned_def)
  show ?case
  proof (cases "claim_due_work (en_token env n) (en_lockw env n) (en_lockd env n) (claim_batch_size settings)
      (lease_duration settings) (en_now env n) ?t")
    case (Inl e)
    then have "client_step (en_sha1 env) (en_others env) (n, s, mine) (Suc n, ?t, mine)"
      by (intro client_step.raises [OF own, where e = e]) simp
    with Suc.prems(2) have run: "client_steps (en_sha1 env) (en_others env) start (Suc n, ?t, mine)" by simp
    have "r = Inl e" "n' = Suc n" "s' = ?t" using Suc.prems(1) Inl by (auto simp: call_def)
    moreover have "claim_call_raised env settings start e (Suc n, ?t, mine)"
      unfolding claim_call_raised_def using Suc.prems(2) Inl by blast
    ultimately show ?thesis
      using run Suc.prems(3) by (intro exI [of _ mine] exI [of _ xs]) simp
  next
    case (Inr cr)
    obtain cs s1 where cr: "cr = (cs, s1)" by (cases cr)
    with Inr have "client_step (en_sha1 env) (en_others env) (n, s, mine) (Suc n, s1, mine @ cs)"
      by (intro client_step.commits [OF own]) simp
    with Suc.prems(2) have run: "client_steps (en_sha1 env) (en_others env) start (Suc n, s1, mine @ cs)" by simp
    show ?thesis
    proof (cases "cs = []")
      case True
      with Suc.prems(1) Inr cr have "r = Inr k" "n' = Suc n" "s' = s1" by (auto simp: call_def)
      with True run Suc.prems(3-5) show ?thesis by (intro exI [of _ mine] exI [of _ xs]) simp
    next
      case False
      let ?k = "k\<lparr> dc_claimed := dc_claimed k + length cs \<rparr>"
      obtain k2 n2 s2 where f: "fold (dispatch_claim env settings execute) cs (?k, (Suc n, s1)) = (k2, (n2, s2))"
        by (metis prod.collapse)
      have ka: "tallied ?k xs" using Suc.prems(4) by (simp add: tallied_def)
      from dispatch_claims_step [OF f assms(2), of "mine @ cs" start xs] run ka obtain ys where
        d: "client_steps (en_sha1 env) (en_others env) start (n2, s2, mine @ cs)" "dc_claimed k2 = dc_claimed ?k"
          "list_all2 (handled_in env settings execute start) cs ys" "tallied k2 (xs @ ys)" by auto
      have all: "list_all2 (handled_in env settings execute start) (mine @ cs) (xs @ ys)"
        using Suc.prems(3) d(3) by (simp add: list_all2_appendI)
      have len: "length (mine @ cs) = dc_claimed k2" using d(2) Suc.prems(5) by simp
      show ?thesis
      proof (cases "int (length cs) < claim_batch_size settings")
        case True
        with Suc.prems(1) Inr cr False f have "r = Inr k2" "n' = n2" "s' = s2" by (auto simp: call_def Let_def)
        with d(1,4) all len show ?thesis by (intro exI [of _ "mine @ cs"] exI [of _ "xs @ ys"]) simp
      next
        case go: False
        with Suc.prems(1) Inr cr False f have "drain env settings execute batches (k2, (n2, s2)) = (r, (n', s'))"
          by (simp add: call_def Let_def)
        from Suc.IH [OF this d(1) all d(4) len] show ?thesis .
      qed
    qed
  qed
qed

text \<open>
  C33. The dispatcher is a disciplined client of the control plane, whatever its executor raises or returns
  for a claim (its result carries the claim it was given) and whatever other clients commit between its
  transactions. Every transaction it performs is an operation of the control plane that uses no claim or
  one this run was issued. Every claim it was issued is executed and reconciled exactly once, whatever
  became of the claims before it: a failing claim never ends the run. A run that raises does so with the
  error of a claim call on the database that call found, after every claim issued before was handled; and
  the summary of a run that returns counts the outcomes exactly: claims, successes, retries, blocked or
  diverged ones, and the results the database no longer accepted.
\<close>

theorem dispatcher_disciplined:
  assumes "dispatch_run env settings execute (n, s) = (r, (n', s'))" and "returns_own_claim execute"
  shows "\<exists>mine outcomes. client_steps (en_sha1 env) (en_others env) (n, s, []) (n', s', mine) \<and>
    list_all2 (handled_in env settings execute (n, s, [])) mine outcomes \<and>
    (case r of
       Inl e \<Rightarrow> claim_call_raised env settings (n, s, []) e (n', s', mine)
     | Inr d \<Rightarrow> ds_claimed d = length mine \<and>
         ds_succeeded d = tally (\<lambda>(kind, q). kind \<in> {INGEST_SUCCEEDED, PUBLISH_SUCCEEDED} \<and> \<not> isl q) outcomes \<and>
         ds_retried d = tally (\<lambda>(kind, q). kind = RESULT_RETRY \<and> \<not> isl q) outcomes \<and>
         ds_blocked d = tally (\<lambda>(kind, q). kind = RESULT_BLOCKED \<or> isl q) outcomes \<and>
         ds_stale d = tally (\<lambda>(kind, q). q = Inr False) outcomes \<and> ds_advanced d = 0)"
proof -
  obtain q where q: "drain env settings execute (nat (max_drain_batches settings)) (dispatch_start, (n, s)) = (q, (n', s'))"
    using assms(1) by (auto simp: dispatch_run_def split: prod.splits)
  have "tallied dispatch_start []" "length [] = dc_claimed dispatch_start" by (simp_all add: tallied_def dispatch_start_def)
  from drain_step [OF q assms(2) _ _ this, of "(n, s, [])"] obtain mine xs where
    m: "client_steps (en_sha1 env) (en_others env) (n, s, []) (n', s', mine)"
    "list_all2 (handled_in env settings execute (n, s, [])) mine xs"
    and k: "case q of Inl e \<Rightarrow> claim_call_raised env settings (n, s, []) e (n', s', mine)
       | Inr k' \<Rightarrow> tallied k' xs \<and> length mine = dc_claimed k'" by auto
  have two: "tally (\<lambda>(kind, q). kind \<in> {INGEST_SUCCEEDED, PUBLISH_SUCCEEDED} \<and> \<not> isl q) xs =
      tally (\<lambda>(kind, q). kind = INGEST_SUCCEEDED \<and> \<not> isl q) xs + tally (\<lambda>(kind, q). kind = PUBLISH_SUCCEEDED \<and> \<not> isl q) xs"
    "tally (\<lambda>(kind, q). kind = RESULT_BLOCKED \<or> isl q) xs =
      tally (\<lambda>(kind, q). kind = RESULT_BLOCKED \<and> \<not> isl q) xs + tally (\<lambda>(kind, q). isl q) xs"
    by (induction xs) auto
  show ?thesis
    using m k assms(1) q two
    by (intro exI [of _ mine] exI [of _ xs]) (cases q; auto simp: dispatch_run_def tallied_def)
qed

end
