(* ===== verification/Sweep.thy ===== *)
theory Sweep
  imports Dispatch_Properties Serving
begin

text \<open>
  The retention sweep of the reconciler and a dispatch run on concrete data.
\<close>

section \<open>The sweep and serving\<close>

text \<open>
  One transaction of the sweep on the database it finds: the datasets and what every route resolves to are
  as before, and a publication disappears only if it is retired, no dataset's active one, and one of the
  selected claims describes it and its pin and artifact were reported removed.
\<close>

definition removes_safely ::
    "(publication_cleanup \<Rightarrow> string option) \<Rightarrow> publication_cleanup list \<Rightarrow> db \<Rightarrow> db \<Rightarrow> bool" where
  "removes_safely remove claims s s' \<longleftrightarrow>
     constraints_ok s' \<and> t_datasets s' = t_datasets s \<and>
     (\<forall>route. resolve_serving_dataset route s' = resolve_serving_dataset route s) \<and>
     set (t_publications s') \<subseteq> set (t_publications s) \<and>
     (\<forall>p\<in>set (t_publications s) - set (t_publications s').
        p_retired p \<noteq> None \<and> \<not> publication_active (p_id p) s \<and>
        (\<exists>k\<in>set claims. remove k = None \<and> k_publication k = p_id p \<and> k_work k = p_work p \<and> k_dataset k = p_dataset p \<and>
           k_uri k = p_uri p \<and> k_version k = p_version p \<and> k_manifest k = p_manifest_uri p))"

text \<open>The transactions of one client between those of the others.\<close>

inductive own_step :: "(nat \<Rightarrow> db \<Rightarrow> db) \<Rightarrow> (db \<Rightarrow> db \<Rightarrow> bool) \<Rightarrow> client_state \<Rightarrow> client_state \<Rightarrow> bool" for others P where
  "P (others n s) s' \<Longrightarrow> own_step others P (n, s) (Suc n, s')"

abbreviation own_steps :: "(nat \<Rightarrow> db \<Rightarrow> db) \<Rightarrow> (db \<Rightarrow> db \<Rightarrow> bool) \<Rightarrow> client_state \<Rightarrow> client_state \<Rightarrow> bool" where
  "own_steps others P \<equiv> (own_step others P)\<^sup>*\<^sup>*"

definition keep_constraints :: "(nat \<Rightarrow> db \<Rightarrow> db) \<Rightarrow> bool" where
  "keep_constraints others \<longleftrightarrow> (\<forall>n s. constraints_ok s \<longrightarrow> constraints_ok (others n s))"

lemma removes_safely_refl: "constraints_ok s \<Longrightarrow> removes_safely remove claims s s"
  by (simp add: removes_safely_def)

lemma call_own_step:
  assumes "call env f (n, s) = (r, (n', s'))"
    and "\<And>x t. f n (en_others env n s) = Inr (x, t) \<Longrightarrow> P (en_others env n s) t" and "P (en_others env n s) (en_others env n s)"
  shows "own_step (en_others env) P (n, s) (n', s')"
  using assms by (auto simp: call_def own_step.simps split: sum.splits)

lemma own_steps_ok:
  assumes "own_steps others (removes_safely remove claims) st st'" and "constraints_ok (snd st)"
  shows "constraints_ok (snd st')"
  using assms by (induction rule: rtranclp_induct) (auto simp: own_step.simps removes_safely_def)

lemma finalize_removes_safely:
  assumes "finalize_publication_cleanup k s = Inr (b, s')" and "constraints_ok s" and "remove k = None" and "k \<in> set claims"
  shows "removes_safely remove claims s s'"
proof -
  note t = finalize_cleanup_tables [OF assms(1)]
  have gone: "p_id p = k_publication k \<and> \<not> publication_active (p_id p) s"
    if "p \<in> set (t_publications s)" "p \<notin> set (t_publications s')" for p
    using assms(1) that
    by (auto simp: finalize_publication_cleanup_def rbind_Inr_iff checked_Inr_iff Let_def set_delete_where split: option.splits)
  have "p_retired p \<noteq> None \<and> k_work k = p_work p \<and> k_dataset k = p_dataset p \<and> k_uri k = p_uri p \<and> k_version k = p_version p \<and>
      k_manifest k = p_manifest_uri p"
    if p: "p \<in> set (t_publications s)" "p \<notin> set (t_publications s')" for p
  proof -
    have "lookup_by p_id (k_publication k) (t_publications s) = Some p"
      using gone [OF p] p(1) assms(2) by (subst lookup_by_Some_iff) (auto simp: constraints_ok_def publication_keys_def)
    with assms(1) show ?thesis by (auto simp: finalize_publication_cleanup_def rbind_Inr_iff ensure_Inr_iff)
  qed
  with gone have "\<forall>p\<in>set (t_publications s) - set (t_publications s').
        p_retired p \<noteq> None \<and> \<not> publication_active (p_id p) s \<and>
        (\<exists>k\<in>set claims. remove k = None \<and> k_publication k = p_id p \<and> k_work k = p_work p \<and> k_dataset k = p_dataset p \<and>
           k_uri k = p_uri p \<and> k_version k = p_version p \<and> k_manifest k = p_manifest_uri p)"
    using assms(3,4) by (metis Diff_iff)
  with finalize_preserves_serving [OF assms(2,1)] t assms(2) show ?thesis unfolding removes_safely_def by blast
qed

lemma finalize_answer:
  assumes "finalize_publication_cleanup k s = Inr (b, s')" and "constraints_ok s"
  shows "b \<longleftrightarrow> k_publication k \<notin> p_id ` set (t_publications s')"
proof (cases "lookup_by p_id (k_publication k) (t_publications s)")
  case None
  with assms(1) show ?thesis by (auto simp: finalize_publication_cleanup_def lookup_by_None_iff)
next
  case (Some p)
  let ?victim = "\<lambda>q. p_id q = k_publication k \<and> \<not> publication_active (k_publication k) s"
  have keys: "unique_key p_id (t_publications s)" using assms(2) by (simp add: constraints_ok_def publication_keys_def)
  have one: "(count_where ?victim (t_publications s) = 1) = (\<exists>q\<in>set (t_publications s). ?victim q)"
    by (rule count_key_one [OF keys, of _ "k_publication k"]) simp
  have "b = (count_where ?victim (t_publications s) = 1)" "t_publications s' = delete_where ?victim (t_publications s)"
    using assms(1) Some by (auto simp: finalize_publication_cleanup_def rbind_Inr_iff checked_Inr_iff Let_def)
  with one lookup_by_SomeD [OF Some] show ?thesis by (auto simp: set_delete_where image_iff)
qed

lemma audit_removes_safely:
  assumes "delete_completed_audit before limit s = Inr (n, s')"
  shows "removes_safely remove claims s s'"
  using assms
  by (auto simp: delete_completed_audit_def rbind_Inr_iff checked_Inr_iff Let_def removes_safely_def resolve_serving_dataset_def
      serving_rows_def)

text \<open>
  What became of one selected publication: deferred when its pin or artifact could not be removed, and
  otherwise what the finalising transaction answered, which is whether its row is gone.
\<close>

definition finalized_in ::
    "client_env \<Rightarrow> (publication_cleanup \<Rightarrow> string option) \<Rightarrow> publication_cleanup list \<Rightarrow> client_state \<Rightarrow> publication_cleanup \<Rightarrow>
     bool \<Rightarrow> bool" where
  "finalized_in env remove claims start k b =
     (case remove k of
        Some _ \<Rightarrow> \<not> b
      | None \<Rightarrow> (\<exists>m t t'. own_steps (en_others env) (removes_safely remove claims) start (m, t) \<and>
          finalize_publication_cleanup k (en_others env m t) = Inr (b, t') \<and>
          (b \<longleftrightarrow> k_publication k \<notin> p_id ` set (t_publications t'))))"

definition sweep_counts ::
    "(publication_cleanup \<Rightarrow> bool \<Rightarrow> bool) \<Rightarrow> publication_cleanup list \<Rightarrow> nat \<Rightarrow> nat \<Rightarrow> (nat \<times> nat) result \<Rightarrow> bool" where
  "sweep_counts fin ks a d r =
     (case r of Inl e \<Rightarrow> True | Inr (a', d') \<Rightarrow> \<exists>bs. list_all2 fin ks bs \<and>
        a' = a + length (filter id bs) \<and> d' = d + length (filter Not bs))"

lemma sweep_counts_Cons:
  assumes "fin k b" and "sweep_counts fin ks (if b then Suc a else a) (if b then d else Suc d) r"
  shows "sweep_counts fin (k # ks) a d r"
proof (cases r)
  case (Inr ad)
  with assms(2) obtain bs where "list_all2 fin ks bs" "fst ad = (if b then Suc a else a) + length (filter id bs)"
    "snd ad = (if b then d else Suc d) + length (filter Not bs)" by (auto simp: sweep_counts_def split: prod.splits)
  with assms(1) Inr show ?thesis
    by (cases ad) (auto simp: sweep_counts_def intro!: exI [of _ "b # bs"])
qed (simp add: sweep_counts_def)

lemma finalize_all_safe:
  assumes "finalize_all env remove ks (a, d) st = (r, st')" and "keep_constraints (en_others env)" and "set ks \<subseteq> set claims"
    and "own_steps (en_others env) (removes_safely remove claims) start st" and "constraints_ok (snd start)"
  shows "own_steps (en_others env) (removes_safely remove claims) start st' \<and>
    sweep_counts (finalized_in env remove claims start) ks a d r"
  using assms(1,3,4)
proof (induction ks arbitrary: a d st)
  case Nil
  then show ?case by (auto simp: sweep_counts_def)
next
  case (Cons k ks)
  obtain n s where st: "st = (n, s)" by (cases st)
  let ?t = "en_others env n s"
  let ?P = "removes_safely remove claims"
  have k: "k \<in> set claims" "set ks \<subseteq> set claims" using Cons.prems(2) by simp_all
  have ok: "constraints_ok ?t"
    using own_steps_ok [OF Cons.prems(3) assms(5)] assms(2) by (simp add: st keep_constraints_def)
  show ?case
  proof (cases "remove k")
    case (Some t)
    with Cons.prems(1) have "finalize_all env remove ks (a, Suc d) st = (r, st')" by simp
    note ih = Cons.IH [OF this k(2) Cons.prems(3)]
    have "finalized_in env remove claims start k False" by (simp add: finalized_in_def Some)
    from sweep_counts_Cons [of "finalized_in env remove claims start" k False ks a d r] this ih show ?thesis by simp
  next
    case None
    obtain q n1 s1 where c: "call env (\<lambda>n. finalize_publication_cleanup k) (n, s) = (q, (n1, s1))"
      by (metis prod.collapse)
    have "own_step (en_others env) ?P (n, s) (n1, s1)"
      by (rule call_own_step [OF c])
        (rule finalize_removes_safely, assumption, rule ok, rule None, rule k(1), rule removes_safely_refl [OF ok])
    with Cons.prems(3) have run: "own_steps (en_others env) ?P start (n1, s1)" by (simp add: st)
    show ?thesis
    proof (cases q)
      case (Inl e)
      with Cons.prems(1) None c run show ?thesis by (auto simp: st sweep_counts_def)
    next
      case (Inr b)
      then have f: "finalize_publication_cleanup k ?t = Inr (b, s1)" using c by (auto simp: call_def split: sum.splits)
      have fin: "finalized_in env remove claims start k b"
        unfolding finalized_in_def None option.case
        using Cons.prems(3) f finalize_answer [OF f ok] unfolding st by blast
      have "finalize_all env remove ks (if b then Suc a else a, if b then d else Suc d) (n1, s1) = (r, st')"
        using Cons.prems(1) None c Inr by (auto simp: st split: if_splits)
      from Cons.IH [OF this k(2) run] sweep_counts_Cons [of "finalized_in env remove claims start" k b ks a d r] fin
      show ?thesis by blast
    qed
  qed
qed

text \<open>
  C12. The retention sweep never affects readers, whatever other clients commit between its transactions
  as long as the tables' constraints hold. However it ends, each of its transactions leaves the
  datasets and what every route resolves to as it found them, and a publication disappears only if at
  that moment it is retired, no dataset's active publication, and described by a claim the sweep
  selected whose pin and artifact were reported removed. A sweep that returns inspected exactly the
  selected publications; it counts one as deferred when the removal failed or its row is still there,
  and as reconciled otherwise, together with the audit rows its last transaction deleted.
\<close>

theorem retention_sweep_safe:
  assumes "retention_sweep env settings tie remove current (n, s) = (r, (n', s'))" and "keep_constraints (en_others env)"
    and "constraints_ok s"
  shows "\<exists>claims. own_steps (en_others env) (removes_safely remove claims) (n, s) (n', s') \<and>
    (case r of
       Inl e \<Rightarrow> claim_publication_cleanup tie current (cleanup_batch_size settings) (en_others env n s) \<in> {Inl e, Inr claims}
     | Inr summary \<Rightarrow>
         claim_publication_cleanup tie current (cleanup_batch_size settings) (en_others env n s) = Inr claims \<and>
         rs_inspected summary = length claims \<and>
         (\<exists>outcomes work_deleted windows_deleted m t.
            list_all2 (finalized_in env remove claims (n, s)) claims outcomes \<and>
            own_steps (en_others env) (removes_safely remove claims) (n, s) (m, t) \<and> n' = Suc m \<and>
            delete_completed_audit (current - audit_retention settings) (cleanup_batch_size settings) (en_others env m t) =
              Inr ((work_deleted, windows_deleted), s') \<and>
            rs_reconciled summary = length (filter id outcomes) + work_deleted + windows_deleted \<and>
            rs_deferred summary = length (filter Not outcomes)))"
proof -
  let ?claim = "claim_publication_cleanup tie current (cleanup_batch_size settings)"
  let ?t = "en_others env n s"
  have ok: "constraints_ok ?t" using assms(2,3) by (simp add: keep_constraints_def)
  have first: "own_steps (en_others env) (removes_safely remove claims) (n, s) (Suc n, ?t)" for claims
    by (rule r_into_rtranclp) (rule own_step.intros, rule removes_safely_refl [OF ok])
  show ?thesis
  proof (cases "?claim ?t")
    case (Inl e)
    with assms(1) have "r = Inl e" "n' = Suc n" "s' = ?t" by (auto simp: retention_sweep_def call_def)
    with first Inl show ?thesis by auto
  next
    case claims: (Inr claims)
    obtain q n2 s2 where f: "finalize_all env remove claims (0, 0) (Suc n, ?t) = (q, (n2, s2))" by (metis prod.collapse)
    note fin = finalize_all_safe [OF f assms(2) subset_refl first, unfolded snd_conv, OF assms(3)]
    show ?thesis
    proof (cases q)
      case (Inl e)
      with assms(1) claims f have "r = Inl e" "n' = n2" "s' = s2" by (auto simp: retention_sweep_def call_def)
      with fin claims show ?thesis by auto
    next
      case q: (Inr ad)
      obtain a d where ad: "ad = (a, d)" by (cases ad)
      from fin [unfolded sweep_counts_def] q ad obtain bs where bs: "list_all2 (finalized_in env remove claims (n, s)) claims bs"
        "a = length (filter id bs)" "d = length (filter Not bs)"
        and run: "own_steps (en_others env) (removes_safely remove claims) (n, s) (n2, s2)" by auto
      have ok2: "constraints_ok (en_others env n2 s2)"
        using own_steps_ok [OF run] assms(2,3) by (simp add: keep_constraints_def)
      obtain w n3 s3 where c: "call env (\<lambda>n. delete_completed_audit (current - audit_retention settings)
          (cleanup_batch_size settings)) (n2, s2) = (w, (n3, s3))" by (metis prod.collapse)
      have "own_step (en_others env) (removes_safely remove claims) (n2, s2) (n3, s3)"
        by (rule call_own_step [OF c]) (rule audit_removes_safely, assumption, rule removes_safely_refl [OF ok2])
      with run have run3: "own_steps (en_others env) (removes_safely remove claims) (n, s) (n3, s3)" by simp
      show ?thesis
      proof (cases w)
        case (Inl e)
        with assms(1) claims f q ad c have "r = Inl e" "n' = n3" "s' = s3" by (auto simp: retention_sweep_def call_def)
        with run3 claims show ?thesis by auto
      next
        case w: (Inr ww)
        obtain wd xd where ww: "ww = (wd, xd)" by (cases ww)
        from assms(1) claims f q ad c w ww have r: "r = Inr \<lparr> rs_inspected = length claims, rs_reconciled = a + wd + xd,
            rs_deferred = d \<rparr>" "n' = n3" "s' = s3" by (auto simp: retention_sweep_def call_def)
        from c w ww have "n3 = Suc n2" "delete_completed_audit (current - audit_retention settings)
            (cleanup_batch_size settings) (en_others env n2 s2) = Inr ((wd, xd), s3)" by (auto simp: call_def split: sum.splits)
        then have "\<exists>outcomes work_deleted windows_deleted m t.
            list_all2 (finalized_in env remove claims (n, s)) claims outcomes \<and>
            own_steps (en_others env) (removes_safely remove claims) (n, s) (m, t) \<and> n' = Suc m \<and>
            delete_completed_audit (current - audit_retention settings) (cleanup_batch_size settings) (en_others env m t) =
              Inr ((work_deleted, windows_deleted), s') \<and>
            a + wd + xd = length (filter id outcomes) + work_deleted + windows_deleted \<and> d = length (filter Not outcomes)"
          using r(2,3) run bs by blast
        with r run3 claims show ?thesis by (intro exI [of _ claims]) simp
      qed
    qed
  qed
qed

lemma call_quiet: "en_others env = (\<lambda>n s. s) \<Longrightarrow> call env f (n, s) =
    (case f n s of Inl e \<Rightarrow> (Inl e, (Suc n, s)) | Inr (x, s') \<Rightarrow> (Inr x, (Suc n, s')))"
  by (auto simp: call_def split: sum.splits)

section \<open>Runs on concrete data\<close>

definition demo_settings :: reconciler_settings where
  "demo_settings = settings_defaults\<lparr> max_drain_batches := 1, lease_duration := 100 \<rparr>"

definition demo_env :: client_env where
  "demo_env = \<lparr> en_others = (\<lambda>n s. s), en_now = (\<lambda>n. if n = 0 then 2 else 4), en_token = (\<lambda>n w. 77), en_lockw = (\<lambda>n w. False),
     en_lockd = (\<lambda>n w. False), en_sha1 = demo_sha1, en_sha256 = (\<lambda>_. replicate 32 0), en_text = (\<lambda>_. []) \<rparr>"

definition demo_result :: "work_claim \<Rightarrow> work_result" where
  "demo_result c = \<lparr> wr_claim = c, wr_kind = INGEST_SUCCEEDED, wr_data_version = Some 3, wr_indexed_version = None,
     wr_row_count = Some 10, wr_source_digest = Some (replicate 32 0), wr_candidate_uri = None, wr_manifest_uri = None,
     wr_manifest_digest = None, wr_evidence = None, wr_error_code = None, wr_error_message = None \<rparr>"

definition demo_executor :: executor where
  "demo_executor n c = Inr (demo_result c)"

definition demo_summary :: dispatch_summary where
  "demo_summary = \<lparr> ds_claimed = 1, ds_succeeded = 1, ds_advanced = 0, ds_retried = 0, ds_blocked = 0, ds_stale = 0 \<rparr>"

lemma demo_dispatch: "dispatch_run demo_env demo_settings demo_executor (0, demo_db2) = (Inr demo_summary, (2, demo_db4))"
proof -
  have set: "claim_batch_size demo_settings = 1" "max_drain_batches demo_settings = 1" "lease_duration demo_settings = 100"
    by (simp_all add: demo_settings_def settings_defaults_def)
  have claim: "claim_due_work (\<lambda>w. 77) (\<lambda>w. False) (\<lambda>w. False) 1 100 2 demo_db2 = Inr ([demo_claim], demo_db3)"
    using demo_step3 by (simp add: demo_claim_op_def)
  have valid: "WorkResult_validate (demo_result c) = Inr ()" for c
    by (simp add: WorkResult_validate_def demo_result_def)
  have rec: "reconcile demo_env demo_settings (demo_result demo_claim) (1, demo_db3) = (Inr True, (2, demo_db4))"
    unfolding reconcile_def valid using demo_completed
    by (simp add: demo_result_def required_def call_def demo_env_def)
  have one: "dispatch_claim demo_env demo_settings demo_executor demo_claim (k, (1, demo_db3)) =
      (k\<lparr> dc_kinds := (dc_kinds k)(INGEST_SUCCEEDED := Suc (dc_kinds k INGEST_SUCCEEDED)), dc_stale := dc_stale k \<rparr>, (2, demo_db4))" for k
    using rec by (simp add: dispatch_claim_def execute_isolated_def demo_executor_def demo_result_def)
  show ?thesis
    using claim one
    by (simp add: dispatch_run_def set call_def demo_env_def Let_def dispatch_start_def demo_summary_def)
qed

theorem dispatcher_disciplined_witness:
  "dispatch_run demo_env demo_settings demo_executor (0, demo_db2) = (Inr demo_summary, (2, demo_db4)) \<and>
   (\<exists>mine. client_steps demo_sha1 (\<lambda>n s. s) (0, demo_db2, []) (2, demo_db4, mine) \<and> length mine = 1)"
proof -
  have "returns_own_claim demo_executor" by (simp add: returns_own_claim_def demo_executor_def demo_result_def)
  from dispatcher_disciplined [OF demo_dispatch this] demo_dispatch show ?thesis by (auto simp: demo_env_def demo_summary_def)
qed

text \<open>
  The sweep of the superseded publication of the run, under a revision that keeps one publication and
  retains artifacts for no time.
\<close>

definition lean_spec :: rowmap where
  "lean_spec =
     [(''spec_revision_id'', PUuid 0x101), (''spec_id'', PUuid 1), (''revision_number'', PInt 1),
      (''state'', PStr ''ACTIVE''), (''supersedes_revision_id'', PNone),
      (''configuration_digest'', PBytes (replicate 32 0)), (''activated_at'', PInt 0),
      (''retained_publications'', PInt 1), (''artifact_retention_seconds'', PInt 0)]"

definition lean_db :: "publication_row list \<Rightarrow> db" where
  "lean_db ps = demo_superseded ps\<lparr> t_specs := [lean_spec] \<rparr>"

lemma lean_spec_cols [simp]:
  "col ''spec_revision_id'' lean_spec = Some (PUuid 0x101)" "col ''retained_publications'' lean_spec = Some (PInt 1)"
  "col ''artifact_retention_seconds'' lean_spec = Some (PInt 0)"
  by (simp_all add: lean_spec_def)

lemma lean_simps [simp]:
  "t_publications (lean_db ps) = demo_publication_row # ps" "t_pubindexes (lean_db ps) = []"
  "t_datasets (lean_db ps) = [demo_dataset_at 2 6 (Some 0x101) (Some 3) (Some demo_publication)]" "t_specs (lean_db ps) = [lean_spec]"
  "t_work (lean_db ps) = [demo_done, demo_published, demo_old_work]"
  "lean_db ps\<lparr> t_pubindexes := [] \<rparr> = lean_db ps" "lean_db ps\<lparr> t_publications := demo_publication_row # qs \<rparr> = lean_db qs"
  "lean_db ps\<lparr> t_work := [demo_done, demo_published, demo_old_work] \<rparr> = lean_db ps"
  by (simp_all add: lean_db_def demo_superseded_def demo_state_def)

lemma lean_ok: "constraints_ok (lean_db [demo_old_publication])" "constraints_ok (lean_db [])"
proof -
  have k: "spec_keys [lean_spec] = spec_keys [demo_spec]" by (simp add: spec_keys_def lean_spec_def)
  have e: "spec_exists x [lean_spec] = spec_exists x [demo_spec]" for x
    by (simp add: spec_exists_def)
  show "constraints_ok (lean_db [demo_old_publication])" "constraints_ok (lean_db [])"
    using demo_superseded_ok k e
    by (auto simp: constraints_ok_def dataset_refs_def snapshot_refs_def work_refs_def publication_refs_def pubindex_refs_def
        field_keys_def index_keys_def lean_db_def demo_superseded_def)
qed

lemma hex_digit_char: "\<forall>d<16. is_digit (digit_char d) \<or> digit_char d \<in> set ''abcdef''"
  by code_simp

lemma pin_name_valid: "candidate_pin_name w = Inr (''candidate-'' @ hex_pad 32 (unat w))"
proof -
  have "is_digit c \<or> c \<in> set ''abcdef''" if "c \<in> set (hex_pad 32 n)" for c n
  proof -
    from set_hex_pad [OF that] obtain d where "d < 16" "c = digit_char d" by blast
    then show ?thesis using hex_digit_char by blast
  qed
  then show ?thesis by (simp add: candidate_pin_name_def PIN_PATTERN_def list_all_iff)
qed

definition lean_tie :: "uuid \<Rightarrow> nat" where
  "lean_tie u = (if u = demo_publication then 0 else 1)"

lemma lean_claim: "\<exists>k. claim_publication_cleanup lean_tie 9 128 (lean_db [demo_old_publication]) = Inr [k] \<and>
    finalize_publication_cleanup k (lean_db [demo_old_publication]) = Inr (True, lean_db []) \<and>
    k_publication k = p_id demo_old_publication"
proof -
  let ?p = demo_old_publication
  let ?k = "\<lparr> k_publication = p_id ?p, k_work = p_work ?p, k_dataset = p_dataset ?p, k_uri = p_uri ?p, k_version = p_version ?p,
     k_manifest = p_manifest_uri ?p, k_pin = ''candidate-'' @ hex_pad 32 (unat (p_work ?p)) \<rparr>"
  have p: "p_id ?p = demo_publication + 1" "p_dataset ?p = demo_dataset" "p_spec ?p = 0x101" "p_retired ?p = Some 6"
    "p_published ?p = p_published demo_publication_row"
    by (simp_all add: demo_old_publication_def)
  have "\<not> cleanup_due lean_tie 9 (lean_db [?p]) demo_publication_row"
    by (simp add: cleanup_due_def)
  moreover have "cleanup_due lean_tie 9 (lean_db [?p]) ?p"
    by (simp add: cleanup_due_def p publication_rank_def count_where_def publication_active_def lean_tie_def)
  ultimately have "filter (cleanup_due lean_tie 9 (lean_db [?p])) (t_publications (lean_db [?p])) = [?p]"
    by simp
  then have claim: "claim_publication_cleanup lean_tie 9 128 (lean_db [?p]) = Inr [?k]"
    by (simp add: claim_publication_cleanup_def cleanup_of_def pin_name_valid)
  moreover have "finalize_publication_cleanup ?k (lean_db [?p]) = Inr (True, lean_db [])"
    using lean_ok
    by (simp add: finalize_publication_cleanup_def p publication_active_def Let_def delete_where_def checked_def count_where_def)
  moreover have "k_publication ?k = p_id ?p" by simp
  ultimately show ?thesis by blast
qed

theorem retention_sweep_safe_witness:
  "\<exists>st. retention_sweep demo_env settings_defaults lean_tie (\<lambda>_. None) 9 (0, lean_db [demo_old_publication]) =
       (Inr \<lparr> rs_inspected = 1, rs_reconciled = 1, rs_deferred = 0 \<rparr>, st) \<and>
     demo_old_publication \<notin> set (t_publications (snd st)) \<and>
     (\<exists>k. own_steps (en_others demo_env) (removes_safely (\<lambda>_. None) [k]) (0, lean_db [demo_old_publication]) st \<and>
        k_publication k = p_id demo_old_publication)"
proof -
  have env: "en_others demo_env = (\<lambda>n s. s)" by (simp add: demo_env_def)
  from lean_claim obtain k where k: "claim_publication_cleanup lean_tie 9 128 (lean_db [demo_old_publication]) = Inr [k]"
    "finalize_publication_cleanup k (lean_db [demo_old_publication]) = Inr (True, lean_db [])"
    "k_publication k = p_id demo_old_publication" by blast
  have audit: "delete_completed_audit (9 - audit_retention settings_defaults) 128 (lean_db []) = Inr ((0, 0), lean_db [])"
  proof -
    have "audit_work_ids (9 - audit_retention settings_defaults) 128 (lean_db []) = []"
      by (simp add: audit_work_ids_def audit_victim_def settings_defaults_def seconds_def demo_old_work_def)
    then show ?thesis using lean_ok(2) by (simp add: delete_completed_audit_def delete_where_def checked_def count_where_def)
  qed
  have batch: "cleanup_batch_size settings_defaults = 128" by (simp add: settings_defaults_def)
  have run: "retention_sweep demo_env settings_defaults lean_tie (\<lambda>_. None) 9 (0, lean_db [demo_old_publication]) =
      (Inr \<lparr> rs_inspected = 1, rs_reconciled = 1, rs_deferred = 0 \<rparr>, (3, lean_db []))"
    using k audit by (simp add: retention_sweep_def call_quiet [OF env] batch)
  have "p_id demo_old_publication \<noteq> p_id demo_publication_row" by (simp add: demo_old_publication_def)
  then have "demo_old_publication \<notin> set (t_publications (lean_db []))" by auto
  moreover have "keep_constraints (en_others demo_env)" by (simp add: keep_constraints_def env)
  from retention_sweep_safe [OF run this lean_ok(1)] k(1)
  have "own_steps (en_others demo_env) (removes_safely (\<lambda>_. None) [k]) (0, lean_db [demo_old_publication]) (3, lean_db [])"
    by (auto simp: env batch)
  ultimately show ?thesis using run k(3) by auto
qed

end
