(* ===== verification/Spec_Digest.thy ===== *)
theory Spec_Digest
  imports Spec_Model
begin

text \<open>
  What the configuration digest of a revision stands for. The canonical text of a configuration
  document determines the document, and the document determines exactly the revision's configuration:
  everything except the database identities, the lifecycle state, the lineage between revisions and the
  order in which fields and indexes are given.
\<close>

section \<open>Sorting the keys loses nothing\<close>

lemma sort_key_fst_inj:
  assumes "sort_key fst a = sort_key fst b" and "map fst a = map fst b" and "distinct (map fst a)"
  shows "a = b"
proof (rule nth_equalityI)
  have keys: "a ! i = (k, v) \<Longrightarrow> map_of a k = Some v" if "i < length a" for i k v
    using that assms(3) nth_mem [OF that] by simp
  have keys': "map_of b k = Some v" if "i < length b" "b ! i = (k, v)" for i k v
    using that assms(2,3) nth_mem [OF that(1)] by simp
  have "set a = set b" using arg_cong [OF assms(1), of set] by simp
  then have eq: "map_of a = map_of b" using assms(2,3) by (intro map_of_inject_set [THEN iffD2]) simp_all
  show len: "length a = length b" using arg_cong [OF assms(2), of length] by simp
  fix i assume i: "i < length a"
  obtain k v where av: "a ! i = (k, v)" by (rule prod.exhaust)
  obtain l w where bw: "b ! i = (l, w)" by (rule prod.exhaust)
  have "k = l" using arg_cong [OF assms(2), of "\<lambda>xs. xs ! i"] i len av bw by simp
  with keys [OF i av] keys' [of i l w] len i bw eq show "a ! i = b ! i" by (simp add: av)
qed

lemma sort_keys_obj_iff:
  assumes "map fst a = map fst b" and "distinct (map fst a)"
  shows "sort_keys (JObj a) = sort_keys (JObj b) \<longleftrightarrow> map (sort_keys \<circ> snd) a = map (sort_keys \<circ> snd) b"
proof
  let ?f = "\<lambda>(k, v). (k, sort_keys v)"
  have fst: "map fst (map ?f c) = map fst c" for c :: "(string \<times> json) list" by (induction c) auto
  have snd: "map snd (map ?f c) = map (sort_keys \<circ> snd) c" for c :: "(string \<times> json) list" by (induction c) auto
  {
    assume "sort_keys (JObj a) = sort_keys (JObj b)"
    then have "sort_key fst (map ?f a) = sort_key fst (map ?f b)" by simp
    then have "map ?f a = map ?f b" by (rule sort_key_fst_inj) (unfold fst, rule assms(1), rule assms(2))
    then show "map (sort_keys \<circ> snd) a = map (sort_keys \<circ> snd) b" using snd by metis
  next
    assume "map (sort_keys \<circ> snd) a = map (sort_keys \<circ> snd) b"
    then have "map ?f a = map ?f b"
      using assms(1) fst snd by (metis zip_map_fst_snd)
    then show "sort_keys (JObj a) = sort_keys (JObj b)" by simp
  }
qed

lemma sort_keys_flat [simp]: "sort_keys (json_int i) = json_int i"
  "sort_keys (json_opt json_int n) = json_opt json_int n" "sort_keys (json_opt JStr s) = json_opt JStr s"
  by (simp_all add: json_int_def json_opt_def split: option.splits)

lemma json_values_inj [simp]: "json_int i = json_int j \<longleftrightarrow> i = j"
  "json_opt json_int m = json_opt json_int n \<longleftrightarrow> m = n" "json_opt JStr s = json_opt JStr t \<longleftrightarrow> s = t"
  by (auto simp: json_int_def json_opt_def split: option.splits)

section \<open>The configuration of a revision\<close>

definition erase_field :: "dataset_field \<Rightarrow> dataset_field" where
  "erase_field f = f\<lparr>df_field_id := 0, df_spec_revision_id := 0\<rparr>"

definition erase_index :: "index_definition \<Rightarrow> index_definition" where
  "erase_index x = x\<lparr>ix_definition_id := 0, ix_spec_revision_id := 0, ix_field_id := 0\<rparr>"

lemma erase_field_eq_iff:
  "erase_field f = erase_field g \<longleftrightarrow>
     df_ordinal f = df_ordinal g \<and> df_target_name f = df_target_name g \<and> df_role f = df_role g \<and>
     df_source_kind f = df_source_kind g \<and> df_source_column f = df_source_column g \<and>
     df_source_key f = df_source_key g \<and> df_data_type f = df_data_type g \<and> df_nullable f = df_nullable g \<and>
     df_required_on_upsert f = df_required_on_upsert g \<and> df_vector_dimension f = df_vector_dimension g"
  unfolding erase_field_def by (cases f; cases g) auto

lemma erase_index_eq_iff:
  "erase_index x = erase_index y \<longleftrightarrow>
     ix_ordinal x = ix_ordinal y \<and> ix_name x = ix_name y \<and> ix_type x = ix_type y \<and>
     ix_vector_options x = ix_vector_options y \<and> ix_fts_options x = ix_fts_options y"
  unfolding erase_index_def by (cases x; cases y) auto

lemma vector_options_document_iff:
  "sort_keys (vector_options_document o1) = sort_keys (vector_options_document o2) \<longleftrightarrow> o1 = o2"
  unfolding vector_options_document_def by (subst sort_keys_obj_iff) auto

lemma fts_options_document_iff:
  "sort_keys (fts_options_document o1) = sort_keys (fts_options_document o2) \<longleftrightarrow> o1 = o2"
  unfolding fts_options_document_def by (subst sort_keys_obj_iff) auto

lemma field_document_iff:
  "sort_keys (field_document f) = sort_keys (field_document g) \<longleftrightarrow> erase_field f = erase_field g"
  unfolding field_document_def erase_field_eq_iff by (subst sort_keys_obj_iff) auto

lemma json_opt_document_iff:
  assumes "\<And>a b. sort_keys (doc a) = sort_keys (doc b) \<longleftrightarrow> a = b" and "\<And>a. \<exists>kvs. doc a = JObj kvs"
  shows "sort_keys (json_opt doc v) = sort_keys (json_opt doc w) \<longleftrightarrow> v = w"
proof -
  have "sort_keys (doc a) \<noteq> JNull" for a using assms(2) [of a] by auto
  with assms(1) show ?thesis by (cases v; cases w) (auto simp: json_opt_def, metis)
qed

lemma index_document_iff:
  "sort_keys (index_document m x) = sort_keys (index_document n y) \<longleftrightarrow> m = n \<and> erase_index x = erase_index y"
proof -
  have vo: "sort_keys (json_opt vector_options_document v) = sort_keys (json_opt vector_options_document w) \<longleftrightarrow> v = w" for v w
    by (rule json_opt_document_iff [OF vector_options_document_iff]) (simp add: vector_options_document_def)
  have fo: "sort_keys (json_opt fts_options_document v) = sort_keys (json_opt fts_options_document w) \<longleftrightarrow> v = w" for v w
    by (rule json_opt_document_iff [OF fts_options_document_iff]) (simp add: fts_options_document_def)
  show ?thesis unfolding index_document_def erase_index_eq_iff by (subst sort_keys_obj_iff) (auto simp: vo fo)
qed

text \<open>
  The configuration: the operational settings, the fields in schema order without their identities,
  and the indexes in index order, each with the name of its field and without identities.
\<close>

definition operational_settings :: "dataset_spec_revision \<Rightarrow> dataset_spec_revision" where
  "operational_settings r = r\<lparr>sr_spec_id := 0, sr_spec_revision_id := 0, sr_revision_number := 0, sr_state := SPEC_DRAFT,
     sr_supersedes_revision_id := None, sr_configuration_digest := [], sr_fields := [], sr_indexes := []\<rparr>"

definition configuration_of ::
  "dataset_spec_revision \<Rightarrow> dataset_spec_revision \<times> dataset_field list \<times> (string \<times> index_definition) list" where
  "configuration_of r =
     (operational_settings r,
      map erase_field (sort_key (\<lambda>f. (df_ordinal f, df_target_name f)) (sr_fields r)),
      map (\<lambda>x. (case field_name_of r (ix_field_id x) of Inl e \<Rightarrow> [] | Inr n \<Rightarrow> n, erase_index x)) (index_definitions r))"

lemma operational_settings_eq_iff:
  "operational_settings r = operational_settings q \<longleftrightarrow>
     sr_ingest_shuffle_partitions r = sr_ingest_shuffle_partitions q \<and>
     sr_merge_rows_per_chunk r = sr_merge_rows_per_chunk q \<and> sr_merge_batch_bytes r = sr_merge_batch_bytes q \<and>
     sr_write_rows_per_fragment r = sr_write_rows_per_fragment q \<and>
     sr_compaction_enabled r = sr_compaction_enabled q \<and> sr_compaction_mode r = sr_compaction_mode q \<and>
     sr_target_rows_per_fragment r = sr_target_rows_per_fragment q \<and>
     sr_max_source_fragments r = sr_max_source_fragments q \<and> sr_compaction_threads r = sr_compaction_threads q \<and>
     sr_defer_index_remap r = sr_defer_index_remap q \<and> sr_materialize_deletions r = sr_materialize_deletions q \<and>
     sr_materialize_deletions_threshold r = sr_materialize_deletions_threshold q \<and>
     sr_cleanup_older_than_seconds r = sr_cleanup_older_than_seconds q \<and>
     sr_retain_versions r = sr_retain_versions q \<and> sr_fragments_per_index_task r = sr_fragments_per_index_task q \<and>
     sr_max_index_deltas r = sr_max_index_deltas q \<and> sr_max_stale_replans r = sr_max_stale_replans q \<and>
     sr_prewarm_required r = sr_prewarm_required q \<and> sr_retained_publications r = sr_retained_publications q \<and>
     sr_artifact_retention_seconds r = sr_artifact_retention_seconds q \<and>
     sr_record_retention_seconds r = sr_record_retention_seconds q"
  unfolding operational_settings_def by (cases r; cases q) auto

lemma map2_eq_by:
  "(\<And>x y. f x = f' y \<longleftrightarrow> g x = g' y) \<Longrightarrow> map f xs = map f' ys \<longleftrightarrow> map g xs = map g' ys"
proof (induction xs arbitrary: ys)
  case (Cons x xs)
  then show ?case by (cases ys) simp_all
qed simp

definition index_documents :: "dataset_spec_revision \<Rightarrow> json list" where
  "index_documents r = map (\<lambda>x. index_document (case field_name_of r (ix_field_id x) of Inl e \<Rightarrow> [] | Inr n \<Rightarrow> n) x)
     (index_definitions r)"

lemma configuration_document_indexes:
  assumes "rmap (\<lambda>x. rbind (field_name_of r (ix_field_id x)) (\<lambda>n. Inr (index_document n x))) xs = Inr ds"
  shows "ds = map (\<lambda>x. index_document (case field_name_of r (ix_field_id x) of Inl e \<Rightarrow> [] | Inr n \<Rightarrow> n) x) xs"
  using assms by (induction xs arbitrary: ds) (auto simp: rbind_Inr_iff)

lemma index_documents_iff:
  "map sort_keys (index_documents r) = map sort_keys (index_documents q) \<longleftrightarrow>
     map (\<lambda>x. (case field_name_of r (ix_field_id x) of Inl e \<Rightarrow> [] | Inr n \<Rightarrow> n, erase_index x)) (index_definitions r) =
     map (\<lambda>x. (case field_name_of q (ix_field_id x) of Inl e \<Rightarrow> [] | Inr n \<Rightarrow> n, erase_index x)) (index_definitions q)"
  unfolding index_documents_def map_map by (rule map2_eq_by) (simp add: index_document_iff)

lemma field_documents_iff:
  "map sort_keys (map field_document fs) = map sort_keys (map field_document gs) \<longleftrightarrow>
     map erase_field fs = map erase_field gs"
  unfolding map_map by (rule map2_eq_by) (simp add: field_document_iff)

lemma settings_documents_iff:
  "sort_keys (ingestion_document r) = sort_keys (ingestion_document q) \<and>
   sort_keys (compaction_document r) = sort_keys (compaction_document q) \<and>
   sort_keys (indexing_document r) = sort_keys (indexing_document q) \<and>
   sort_keys (publication_document r) = sort_keys (publication_document q) \<longleftrightarrow>
   operational_settings r = operational_settings q"
  unfolding ingestion_document_def compaction_document_def indexing_document_def publication_document_def
    operational_settings_eq_iff
  by (simp add: sort_keys_obj_iff del: sort_keys.simps(2)) blast

lemma configuration_document_shape:
  assumes "configuration_document r = Inr d"
  shows "d = JObj
       [(''fields'', JArr (map field_document (sort_key (\<lambda>f. (df_ordinal f, df_target_name f)) (sr_fields r)))),
        (''indexes'', JArr (index_documents r)), (''ingestion'', ingestion_document r),
        (''compaction'', compaction_document r), (''indexing'', indexing_document r),
        (''publication'', publication_document r)]"
proof -
  from assms obtain ds where ds: "rmap (\<lambda>x. rbind (field_name_of r (ix_field_id x)) (\<lambda>n. Inr (index_document n x)))
      (index_definitions r) = Inr ds"
    unfolding configuration_document_def by (auto simp: rbind_Inr_iff)
  have "ds = index_documents r"
    unfolding index_documents_def by (rule configuration_document_indexes [OF ds])
  with assms ds show ?thesis unfolding configuration_document_def by simp
qed

lemma configuration_document_iff:
  assumes "configuration_document r = Inr d" and "configuration_document q = Inr e"
  shows "sort_keys d = sort_keys e \<longleftrightarrow> configuration_of r = configuration_of q"
  unfolding configuration_document_shape [OF assms(1)] configuration_document_shape [OF assms(2)] configuration_of_def
  by (simp add: sort_keys_obj_iff index_documents_iff field_documents_iff settings_documents_iff [symmetric]
      del: sort_keys.simps(2) map_map) blast

text \<open>Two texts of the configuration agree exactly when the configurations do.\<close>

lemma json_dumps_inj: "float_repr_ok fr \<Longrightarrow> json_dumps fr d = json_dumps fr e \<longleftrightarrow> sort_keys d = sort_keys e"
  unfolding json_dumps_def using json_text_inj by metis

lemma validate_revision_digest:
  assumes "validate_revision sha256 fr r = Inr r'"
  shows "r' = r \<and> (\<exists>d. configuration_document r = Inr d \<and> sr_configuration_digest r = sha256 (utf8 (json_dumps fr d)))"
  using assms unfolding validate_revision_def expected_configuration_digest_def
  by (auto simp: rbind_Inr_iff ensure_Inr_iff)

end
