(* ===== verification/Draft_Storage.thy ===== *)
theory Draft_Storage
  imports Spec_Lifecycle Spec_Digest
begin

text \<open>
  Drafts in the database: what validation says of a revision, that the rows of a prepared draft meet
  every row constraint, and that loading the stored rows returns the draft.
\<close>

section \<open>What validation says\<close>

lemma validate_revision_parts:
  assumes "validate_revision sha256 fr r = Inr r'"
  shows "r' = r" "validate_operational_settings r = Inr ()" "validate_fields r = Inr ()" "validate_indexes r = Inr ()"
    "1 \<le> sr_revision_number r" "length (sr_configuration_digest r) = 32"
    "sr_supersedes_revision_id r \<noteq> Some (sr_spec_revision_id r)"
  using assms unfolding validate_revision_def
  by (auto simp: rbind_Inr_iff ensure_Inr_iff split: option.splits)

lemma validate_fields_parts:
  assumes "validate_fields r = Inr ()"
  shows "distinct (map df_field_id (sr_fields r))" "distinct (map df_target_name (sr_fields r))"
    "distinct (map df_ordinal (sr_fields r))"
    "\<And>f. f \<in> set (sr_fields r) \<Longrightarrow> validate_field f = Inr () \<and> df_spec_revision_id f = sr_spec_revision_id r"
    "role_count r KEY = 1" "role_count r EVENT_TIME = 1" "role_count r TOMBSTONE = 1"
    "dict_eq (map (\<lambda>f. (df_target_name f, df_data_type f)) (fields_for_role r LINEAGE)) expected_lineage"
    "df_target_name (hd (fields_for_role r TOMBSTONE)) = ''is_deleted''"
    "map df_target_name (sort_key df_ordinal (sr_fields r)) = expected_order r"
    "sort (map df_ordinal (sr_fields r)) = map int [0..<length (sr_fields r)]"
proof -
  note v = assms [unfolded validate_fields_def, simplified result_simps]
  show "distinct (map df_field_id (sr_fields r))" "distinct (map df_target_name (sr_fields r))"
    "distinct (map df_ordinal (sr_fields r))" "role_count r KEY = 1" "role_count r EVENT_TIME = 1"
    "role_count r TOMBSTONE = 1"
    "dict_eq (map (\<lambda>f. (df_target_name f, df_data_type f)) (fields_for_role r LINEAGE)) expected_lineage"
    "df_target_name (hd (fields_for_role r TOMBSTONE)) = ''is_deleted''"
    "map df_target_name (sort_key df_ordinal (sr_fields r)) = expected_order r"
    "sort (map df_ordinal (sr_fields r)) = map int [0..<length (sr_fields r)]"
    using v by (auto simp: validate_unit_iff)
  from v obtain us where "rmap (\<lambda>f. rbind (validate_field f)
      (\<lambda>_. ensure (df_spec_revision_id f = sr_spec_revision_id r) ValueError)) (sr_fields r) = Inr us" by auto
  then show "validate_field f = Inr () \<and> df_spec_revision_id f = sr_spec_revision_id r" if "f \<in> set (sr_fields r)" for f
    using that unfolding rmap_Inr_iff by (auto simp: list_all2_conv_all_nth in_set_conv_nth result_simps)
qed

lemma validate_indexes_parts:
  assumes "validate_indexes r = Inr ()"
  shows "distinct (map ix_definition_id (sr_indexes r))" "distinct (map ix_name (sr_indexes r))"
    "distinct (map ix_ordinal (sr_indexes r))" "distinct (map (\<lambda>x. (ix_field_id x, ix_type x)) (sr_indexes r))"
    "\<And>x. x \<in> set (sr_indexes r) \<Longrightarrow> validate_index x = Inr () \<and> ix_spec_revision_id x = sr_spec_revision_id r \<and>
       (\<exists>f\<in>set (sr_fields r). df_field_id f = ix_field_id x \<and> df_role f \<in> allowed_roles (ix_type x))"
proof -
  note v = assms [unfolded validate_indexes_def, simplified result_simps]
  show "distinct (map ix_definition_id (sr_indexes r))" "distinct (map ix_name (sr_indexes r))"
    "distinct (map ix_ordinal (sr_indexes r))" "distinct (map (\<lambda>x. (ix_field_id x, ix_type x)) (sr_indexes r))"
    using v by (auto simp: validate_unit_iff)
  let ?check = "\<lambda>x. rbind (validate_index x) (\<lambda>_.
        rbind (ensure (ix_spec_revision_id x = sr_spec_revision_id r) ValueError) (\<lambda>_.
        case dict_get (map (\<lambda>f. (df_field_id f, f)) (sr_fields r)) (ix_field_id x) of
          None \<Rightarrow> Inl ValueError
        | Some f \<Rightarrow> validate_index_field_compatibility x f))"
  fix x assume x: "x \<in> set (sr_indexes r)"
  from v obtain us where "rmap ?check (sr_indexes r) = Inr us" by auto
  then have "\<exists>u. ?check x = Inr u"
    using x unfolding rmap_Inr_iff by (auto simp: list_all2_conv_all_nth in_set_conv_nth)
  then show "validate_index x = Inr () \<and> ix_spec_revision_id x = sr_spec_revision_id r \<and>
       (\<exists>f\<in>set (sr_fields r). df_field_id f = ix_field_id x \<and> df_role f \<in> allowed_roles (ix_type x))"
    by (auto simp: result_simps validate_index_field_compatibility_def dict_get_def split: option.splits
        dest!: map_of_SomeD) blast
qed

lemma in_fields_for_role: "f \<in> set (fields_for_role r role) \<longleftrightarrow> f \<in> set (sr_fields r) \<and> df_role f = role"
  by (auto simp: fields_for_role_def)

lemma validated_derived_names:
  assumes "validate_fields r = Inr ()" and "f \<in> set (sr_fields r)"
  shows "derived_names_ok f"
  unfolding derived_names_ok_def
proof (intro conjI impI)
  note parts = validate_fields_parts [OF assms(1)]
  {
    assume "df_role f = TOMBSTONE"
    then have "f \<in> set (fields_for_role r TOMBSTONE)" by (simp add: in_fields_for_role assms(2))
    moreover have "length (fields_for_role r TOMBSTONE) = 1" using parts(7) by (simp add: fields_for_role_def role_count_def)
    ultimately have "hd (fields_for_role r TOMBSTONE) = f" by (cases "fields_for_role r TOMBSTONE") auto
    with parts(9) show "df_target_name f = ''is_deleted''" by simp
  }
  assume "df_role f = LINEAGE"
  let ?ps = "map (\<lambda>f. (df_target_name f, df_data_type f)) (fields_for_role r LINEAGE)"
  have mem: "(df_target_name f, df_data_type f) \<in> set ?ps"
    using \<open>df_role f = LINEAGE\<close> assms(2) by (auto simp: in_fields_for_role)
  have "distinct (map df_target_name (fields_for_role r LINEAGE))"
    using parts(2) by (simp add: fields_for_role_def distinct_map inj_on_def)
  then have "distinct (map fst ?ps)" by (simp add: comp_def)
  with mem have "dict_get ?ps (df_target_name f) = Some (df_data_type f)" by (simp add: dict_get_distinct)
  with parts(8) have "dict_get expected_lineage (df_target_name f) = Some (df_data_type f)" by (simp add: dict_eq_iff)
  then show "(df_target_name f, df_data_type f) \<in> set expected_lineage"
    by (auto simp: dict_get_def dest: map_of_SomeD)
qed

section \<open>Rows of a draft\<close>

lemma rbind_assoc: "rbind (rbind m f) g = rbind m (\<lambda>x. rbind (f x) g)"
  by (cases m) simp_all

lemma store_rows:
  assumes "\<And>x. x \<in> set xs \<Longrightarrow> store_row cols checks (enc x) \<in> {Inr (stored_row cols (enc x)), Inl DataError}"
  shows "rmap (\<lambda>x. store_row cols checks (enc x)) xs \<in> {Inr (map (\<lambda>x. stored_row cols (enc x)) xs), Inl DataError}"
  using assms
proof (induction xs)
  case (Cons x xs)
  have x: "store_row cols checks (enc x) \<in> {Inr (stored_row cols (enc x)), Inl DataError}"
    by (rule Cons.prems) simp
  have "rmap (\<lambda>x. store_row cols checks (enc x)) xs \<in> {Inr (map (\<lambda>x. stored_row cols (enc x)) xs), Inl DataError}"
    by (rule Cons.IH, rule Cons.prems) simp
  with x show ?case by auto
qed simp

lemma prepared_draft_validated:
  assumes "prepared_draft_revision sha256 fr r = Inr c"
  shows "validate_revision sha256 fr c = Inr c" "sr_state c = SPEC_DRAFT" "\<exists>d. c = r\<lparr>sr_configuration_digest := d\<rparr>"
proof -
  from assms obtain d where d: "sr_state r = SPEC_DRAFT" "validate_revision sha256 fr (r\<lparr>sr_configuration_digest := d\<rparr>) = Inr c"
    unfolding prepared_draft_revision_def by (auto simp: result_simps)
  have "c = r\<lparr>sr_configuration_digest := d\<rparr>" by (rule validate_revision_parts(1) [OF d(2)])
  with d show "validate_revision sha256 fr c = Inr c" "sr_state c = SPEC_DRAFT" "\<exists>d. c = r\<lparr>sr_configuration_digest := d\<rparr>"
    by auto
qed

lemma threshold_finite: "validate_operational_settings r = Inr () \<Longrightarrow> is_finite (sr_materialize_deletions_threshold r)"
  by (simp add: validate_operational_settings_def result_simps)

lemma draft_rows:
  assumes "validate_revision sha256 fr c = Inr c" and "sr_state c = SPEC_DRAFT" and "SPEC_NAME_PATTERN name"
    and "case description of None \<Rightarrow> True | Some d \<Rightarrow> \<not> is_blank d"
  shows "store_row spec_columns spec_checks (revision_row_values c name description) \<in>
      {Inr (revision_row c name description), Inl DataError}"
    "rmap (\<lambda>f. store_row field_columns field_checks (field_row_values f)) (sr_fields c) \<in>
      {Inr (map field_row (sr_fields c)), Inl DataError}"
    "rmap (\<lambda>x. store_row index_columns index_checks (index_row_values x)) (sr_indexes c) \<in>
      {Inr (map index_row (sr_indexes c)), Inl DataError}"
proof -
  note v = validate_revision_parts [OF assms(1)]
  show "store_row spec_columns spec_checks (revision_row_values c name description) \<in>
      {Inr (revision_row c name description), Inl DataError}"
    by (rule store_row_cases, rule spec_not_null [OF threshold_finite [OF v(2)]], rule spec_checks_pass)
      (use v assms in \<open>simp_all add: SPEC_NAME_PATTERN_def\<close>)
  show "rmap (\<lambda>f. store_row field_columns field_checks (field_row_values f)) (sr_fields c) \<in>
      {Inr (map field_row (sr_fields c)), Inl DataError}"
    by (rule store_rows, rule store_row_cases, rule field_not_null, rule field_checks_pass)
      (use validate_fields_parts(4) [OF v(3)] validated_derived_names [OF v(3)] in auto)
  show "rmap (\<lambda>x. store_row index_columns index_checks (index_row_values x)) (sr_indexes c) \<in>
      {Inr (map index_row (sr_indexes c)), Inl DataError}"
    by (rule store_rows, rule store_row_cases, rule index_not_null, rule index_checks_pass)
      (use validate_indexes_parts(5) [OF v(4)] in auto)
qed

section \<open>Loading what was stored\<close>

definition stored_draft :: "dataset_spec_revision \<Rightarrow> string \<Rightarrow> string option \<Rightarrow> db \<Rightarrow> db" where
  "stored_draft c name description s =
     s\<lparr>t_specs := t_specs s @ [revision_row c name description],
       t_fields := t_fields s @ map field_row (sr_fields c),
       t_indexes := t_indexes s @ map index_row (sr_indexes c)\<rparr>"

definition ordered_revision :: "dataset_spec_revision \<Rightarrow> bool" where
  "ordered_revision r = (sorted (map df_ordinal (sr_fields r)) \<and> sorted (map ix_ordinal (sr_indexes r)))"

lemma sort_key_sorted: "sorted (map f xs) \<Longrightarrow> sort_key f xs = xs"
  by (rule sort_key_id_if_sorted)

lemma sort_rows:
  assumes "\<And>x. x \<in> set xs \<Longrightarrow> row_ordinal (enc x) = key x" and "sorted (map key xs)"
  shows "sort_key row_ordinal (map enc xs) = map enc xs"
  by (rule sort_key_sorted) (use assms in \<open>simp add: comp_def cong: map_cong\<close>)

lemma rmap_map_Inr: "(\<And>x. x \<in> set xs \<Longrightarrow> f (g x) = Inr (h x)) \<Longrightarrow> rmap f (map g xs) = Inr (map h xs)"
  by (induction xs) simp_all

lemma spec_children_absent:
  assumes "constraints_ok s" and "\<not> spec_exists rid (t_specs s)"
  shows "filter (\<lambda>r. col ''spec_revision_id'' r = Some (PUuid rid)) (t_fields s) = []"
    "filter (\<lambda>r. col ''spec_revision_id'' r = Some (PUuid rid)) (t_indexes s) = []"
proof -
  have fk: "field_keys (t_specs s) (t_fields s)" and ik: "index_keys (t_fields s) (t_indexes s)"
    using assms(1) by (simp_all add: constraints_ok_def)
  have no: "col ''spec_revision_id'' q \<noteq> Some (PUuid rid)" if "q \<in> set (t_specs s)" for q
    using assms(2) that by (auto simp: spec_exists_def exists_where_iff)
  have f: "col ''spec_revision_id'' r \<noteq> Some (PUuid rid)" if "r \<in> set (t_fields s)" for r
  proof -
    from fk that obtain q where "q \<in> set (t_specs s)" "col ''spec_revision_id'' q = col ''spec_revision_id'' r"
      unfolding field_keys_def list_all_iff exists_where_iff by blast
    with no show ?thesis by metis
  qed
  then show "filter (\<lambda>r. col ''spec_revision_id'' r = Some (PUuid rid)) (t_fields s) = []"
    by (simp add: filter_empty_conv)
  have "col ''spec_revision_id'' r \<noteq> Some (PUuid rid)" if "r \<in> set (t_indexes s)" for r
  proof -
    from ik that obtain q where "q \<in> set (t_fields s)" "col ''spec_revision_id'' q = col ''spec_revision_id'' r"
      unfolding index_keys_def list_all_iff exists_where_iff by blast
    with f show ?thesis by metis
  qed
  then show "filter (\<lambda>r. col ''spec_revision_id'' r = Some (PUuid rid)) (t_indexes s) = []"
    by (simp add: filter_empty_conv)
qed

lemma load_stored_draft:
  assumes ok: "constraints_ok s" and v: "validate_revision sha256 fr c = Inr c"
    and new: "\<not> spec_exists (sr_spec_revision_id c) (t_specs s)" and ord: "ordered_revision c"
  shows "load_spec_revision sha256 fr (sr_spec_revision_id c) (stored_draft c name description s) =
    validate_revision sha256 fr (float_revision c)"
proof -
  let ?id = "sr_spec_revision_id c"
  note p = validate_revision_parts [OF v]
  note fp = validate_fields_parts(4) [OF p(3)] and xp = validate_indexes_parts(5) [OF p(4)]
  have look: "lookup_by (col ''spec_revision_id'') (Some (PUuid ?id)) (t_specs s @ [revision_row c name description]) =
      Some (revision_row c name description)"
  proof -
    have "lookup_by (col ''spec_revision_id'') (Some (PUuid ?id)) (t_specs s) = None"
      using new by (auto simp: lookup_by_None_iff spec_exists_def exists_where_iff)
    then show ?thesis by (simp add: lookup_by_append) (simp add: lookup_by_def revision_row_cols)
  qed
  have fs: "children_of ?id (t_fields s @ map field_row (sr_fields c)) = map field_row (sr_fields c)"
    unfolding children_of_def filter_append spec_children_absent(1) [OF ok new]
    using sort_rows [of "sr_fields c" field_row df_ordinal] ord fp
    by (simp add: filter_map comp_def field_row_cols row_ordinal_def ordered_revision_def cong: filter_cong)
  have xs: "children_of ?id (t_indexes s @ map index_row (sr_indexes c)) = map index_row (sr_indexes c)"
    unfolding children_of_def filter_append spec_children_absent(2) [OF ok new]
    using sort_rows [of "sr_indexes c" index_row ix_ordinal] ord xp
    by (simp add: filter_map comp_def index_row_cols row_ordinal_def ordered_revision_def cong: filter_cong)
  have dec: "decode_dataset_spec_revision sha256 fr (revision_row c name description)
      (map field_row (sr_fields c)) (map index_row (sr_indexes c)) = validate_revision sha256 fr (float_revision c)"
  proof -
    have cf: "rmap (validate_child_revision ?id) (map field_row (sr_fields c)) = Inr (map (\<lambda>_. ()) (sr_fields c))"
      by (rule rmap_map_Inr) (use fp in \<open>simp add: validate_child_revision_def row_uuid_def row_value_def field_row_cols\<close>)
    have cx: "rmap (validate_child_revision ?id) (map index_row (sr_indexes c)) = Inr (map (\<lambda>_. ()) (sr_indexes c))"
      by (rule rmap_map_Inr) (use xp in \<open>simp add: validate_child_revision_def row_uuid_def row_value_def index_row_cols\<close>)
    have df: "rmap decode_dataset_field (map field_row (sr_fields c)) = Inr (map id (sr_fields c))"
      by (rule rmap_map_Inr) (simp add: decode_field_row)
    have dx: "rmap decode_index_definition (map index_row (sr_indexes c)) = Inr (map float_index (sr_indexes c))"
      by (rule rmap_map_Inr) (use xp in \<open>simp add: decode_index_row\<close>)
    have sx: "sort_key ix_ordinal (map float_index (sr_indexes c)) = map float_index (sr_indexes c)"
      using ord by (intro sort_key_sorted) (simp add: ordered_revision_def comp_def float_index_def)
    have sf: "sort_key df_ordinal (sr_fields c) = sr_fields c"
      using ord by (intro sort_key_sorted) (simp add: ordered_revision_def)
    have ids: "row_uuid (revision_row c name description) ''spec_id'' = Inr (sr_spec_id c)"
      "row_uuid (revision_row c name description) ''spec_revision_id'' = Inr ?id"
      by (simp_all add: row_uuid_def row_value_def revision_row_cols)
    have swap: "c\<lparr>sr_indexes := xs, sr_materialize_deletions_threshold := t\<rparr> =
        c\<lparr>sr_materialize_deletions_threshold := t, sr_indexes := xs\<rparr>" for xs t by (cases c) simp
    show ?thesis
      unfolding decode_dataset_spec_revision_def
      by (simp add: swap ids cf cx df dx sx sf decode_revision_row [OF threshold_finite [OF p(2)]] float_revision_def)
  qed
  show ?thesis unfolding load_spec_revision_def stored_draft_def by (simp add: look fs xs dec)
qed

section \<open>Creating drafts\<close>

definition draft_constraints :: "dataset_spec_revision \<Rightarrow> string \<Rightarrow> string option \<Rightarrow> db \<Rightarrow> bool" where
  "draft_constraints c name description s =
     (let s1 = s\<lparr>t_specs := t_specs s @ [revision_row c name description]\<rparr>;
          s2 = s1\<lparr>t_fields := t_fields s @ map field_row (sr_fields c)\<rparr>
      in constraints_ok s1 \<and> singleton_roles (t_fields s) \<and> constraints_ok s2 \<and> singleton_roles (t_fields s2) \<and>
         constraints_ok (stored_draft c name description s))"

lemma checked_specs_cases:
  "checked_specs s = (if constraints_ok s \<and> singleton_roles (t_fields s) then Inr s else Inl IntegrityError)"
  by (simp add: checked_specs_def checked_def ensure_def)

lemma three_statements:
  assumes "A = Inl DataError \<or> A = (if p then Inr s1 else Inl IntegrityError)"
    and "f s1 = Inl DataError \<or> f s1 = (if q then Inr s2 else Inl IntegrityError)"
    and "g s2 = Inl DataError \<or> g s2 = (if u then Inr s3 else Inl IntegrityError)"
  shows "rbind A (\<lambda>s. rbind (f s) g) = Inr s3 \<and> p \<and> q \<and> u \<or> rbind A (\<lambda>s. rbind (f s) g) = Inl DataError \<or>
    rbind A (\<lambda>s. rbind (f s) g) = Inl IntegrityError \<and> \<not> (p \<and> q \<and> u)"
  using assms by (cases p; cases q; cases u) auto

text \<open>
  The three inserts either all succeed, with the rows of the draft, or a value is out of range, or a
  key or a reference is violated.
\<close>

lemma draft_inserts:
  fixes s :: db
  assumes "validate_revision sha256 fr c = Inr c" and "sr_state c = SPEC_DRAFT" and "SPEC_NAME_PATTERN name"
    and "case description of None \<Rightarrow> True | Some d \<Rightarrow> \<not> is_blank d"
  defines "res \<equiv> rbind (insert_revision c name description s) (\<lambda>s1.
      rbind (insert_fields (sr_fields c) s1) (insert_index_definitions (sr_indexes c)))"
  shows "res = Inr (stored_draft c name description s) \<and> draft_constraints c name description s \<or>
    res = Inl DataError \<or> res = Inl IntegrityError \<and> \<not> draft_constraints c name description s"
proof -
  define row where "row = revision_row c name description"
  define fs where "fs = map field_row (sr_fields c)"
  define xs where "xs = map index_row (sr_indexes c)"
  define s1 where "s1 = s\<lparr>t_specs := t_specs s @ [row]\<rparr>"
  define s2 where "s2 = s1\<lparr>t_fields := t_fields s1 @ fs\<rparr>"
  define s3 where "s3 = s2\<lparr>t_indexes := t_indexes s2 @ xs\<rparr>"
  have stored: "stored_draft c name description s = s3"
    by (simp add: stored_draft_def s3_def s2_def s1_def row_def fs_def xs_def)
  have dc: "draft_constraints c name description s \<longleftrightarrow> constraints_ok s1 \<and> singleton_roles (t_fields s1) \<and>
      constraints_ok s2 \<and> singleton_roles (t_fields s2) \<and> constraints_ok s3"
    by (simp add: draft_constraints_def Let_def stored s2_def s1_def row_def fs_def)
  note rows = draft_rows [OF assms(1-4), folded row_def fs_def xs_def]
  have a: "insert_revision c name description s = Inl DataError \<or> insert_revision c name description s = checked_specs s1"
    using rows(1) by (auto simp: insert_revision_def s1_def)
  have b: "insert_fields (sr_fields c) s1 = Inl DataError \<or> insert_fields (sr_fields c) s1 = checked_specs s2"
    using rows(2) by (auto simp: insert_fields_def s2_def)
  have "insert_index_definitions (sr_indexes c) s2 = Inl DataError \<or>
      insert_index_definitions (sr_indexes c) s2 = checked_specs s3"
    using rows(3) by (auto simp: insert_index_definitions_def s3_def)
  from three_statements [where f = "insert_fields (sr_fields c)" and g = "insert_index_definitions (sr_indexes c)", OF a [unfolded checked_specs_cases] b [unfolded checked_specs_cases] this [unfolded checked_specs_cases]]
  show ?thesis unfolding res_def stored dc by (auto simp: s3_def)
qed

lemma create_draft_new:
  assumes "prepared_draft_revision sha256 fr r = Inr c" and "SPEC_NAME_PATTERN name"
    and "case description of None \<Rightarrow> True | Some d \<Rightarrow> \<not> is_blank d"
    and "\<not> spec_exists (sr_spec_revision_id c) (t_specs s)"
  shows "create_draft_spec_revision sha256 fr r name description s =
    rbind (rbind (insert_revision c name description s) (\<lambda>s1.
      rbind (insert_fields (sr_fields c) s1) (insert_index_definitions (sr_indexes c)))) (\<lambda>s3.
    rbind (load_spec_revision sha256 fr (sr_spec_revision_id c) s3) (\<lambda>p.
    rbind (ensure (same_revision p c) StateTransitionError) (\<lambda>_. Inr (p, s3))))"
  unfolding create_draft_spec_revision_def using assms by (simp add: rbind_assoc)

lemma create_draft_existing:
  assumes "prepared_draft_revision sha256 fr r = Inr c" and "SPEC_NAME_PATTERN name"
    and "case description of None \<Rightarrow> True | Some d \<Rightarrow> \<not> is_blank d"
    and "spec_exists (sr_spec_revision_id c) (t_specs s)"
  shows "create_draft_spec_revision sha256 fr r name description s =
    rbind (load_spec_revision sha256 fr (sr_spec_revision_id c) s) (\<lambda>p.
    rbind (ensure (same_revision p c) StateTransitionError) (\<lambda>_. Inr (p, s)))"
  unfolding create_draft_spec_revision_def using assms by simp

lemma same_revision_refl [simp]: "same_revision c c"
  by (simp add: same_revision_def)

lemma draft_keeps_rest:
  "t_sources (stored_draft c name d s) = t_sources s \<and> t_datasets (stored_draft c name d s) = t_datasets s \<and>
   t_work (stored_draft c name d s) = t_work s"
  by (simp add: stored_draft_def)

lemma stored_draft_exists: "spec_exists (sr_spec_revision_id c) (t_specs (stored_draft c name d s))"
  by (simp add: stored_draft_def spec_exists_def exists_where_iff revision_row_cols)

end
