(* ===== verification/Spec_Properties.thy ===== *)
theory Spec_Properties
  imports Draft_Storage
begin

text \<open>
  Properties of specification revisions: the bundled default revision is valid, a validated revision
  has a fully determined typed schema, and a draft is stored exactly.
\<close>

section \<open>The default revision\<close>

lemma not_isl_Inr: "\<not> isl x \<Longrightarrow> (\<And>y. x = Inr y \<Longrightarrow> thesis) \<Longrightarrow> thesis"
  by (cases x) simp_all

definition default_fields :: "dataset_field list" where
  "default_fields = (case production_default_fields of Inl e \<Rightarrow> [] | Inr fs \<Rightarrow> fs)"

definition default_index_list :: "index_definition list" where
  "default_index_list = (case default_indexes default_fields of Inl e \<Rightarrow> [] | Inr xs \<Rightarrow> xs)"

definition default_revision :: "spec_revision_state \<Rightarrow> bytes \<Rightarrow> dataset_spec_revision" where
  "default_revision st d = default_candidate default_fields default_index_list\<lparr>sr_state := st, sr_configuration_digest := d\<rparr>"

lemma default_fields_Inr: "production_default_fields = Inr default_fields"
proof -
  have "\<not> isl production_default_fields" by code_simp
  then obtain fs where "production_default_fields = Inr fs" by (rule not_isl_Inr)
  then show ?thesis unfolding default_fields_def by (metis sum.case(2))
qed

lemma default_indexes_Inr: "default_indexes default_fields = Inr default_index_list"
proof -
  have "\<not> isl (default_indexes default_fields)" by code_simp
  then obtain xs where "default_indexes default_fields = Inr xs" by (rule not_isl_Inr)
  then show ?thesis unfolding default_index_list_def by (metis sum.case(2))
qed

text \<open>State and digest do not enter the structural validations nor the document.\<close>

lemma structural_state [simp]:
  "validate_fields (r\<lparr>sr_state := st, sr_configuration_digest := d\<rparr>) = validate_fields r"
  "validate_indexes (r\<lparr>sr_state := st, sr_configuration_digest := d\<rparr>) = validate_indexes r"
  "validate_operational_settings (r\<lparr>sr_state := st, sr_configuration_digest := d\<rparr>) = validate_operational_settings r"
  "configuration_document (r\<lparr>sr_state := st, sr_configuration_digest := d\<rparr>) = configuration_document r"
  by (simp_all add: validate_fields_def validate_indexes_def validate_operational_settings_def role_count_def
      fields_for_role_def expected_order_def configuration_document_def field_name_of_def field_names_by_id_def
      index_definitions_def ingestion_document_def compaction_document_def indexing_document_def
      publication_document_def)

lemma default_structure:
  "validate_fields (default_candidate default_fields default_index_list) = Inr ()"
  "validate_indexes (default_candidate default_fields default_index_list) = Inr ()"
  "validate_operational_settings (default_candidate default_fields default_index_list) = Inr ()"
  "\<not> isl (configuration_document (default_candidate default_fields default_index_list))"
proof -
  show "validate_fields (default_candidate default_fields default_index_list) = Inr ()" by code_simp
  show "validate_indexes (default_candidate default_fields default_index_list) = Inr ()" by code_simp
  show "validate_operational_settings (default_candidate default_fields default_index_list) = Inr ()" by code_simp
  show "\<not> isl (configuration_document (default_candidate default_fields default_index_list))" by code_simp
qed

definition default_document :: json where
  "default_document = (case configuration_document (default_candidate default_fields default_index_list) of
     Inl e \<Rightarrow> JNull | Inr d \<Rightarrow> d)"

lemma default_document_Inr: "configuration_document (default_candidate default_fields default_index_list) = Inr default_document"
proof -
  obtain d where "configuration_document (default_candidate default_fields default_index_list) = Inr d"
    using default_structure(4) by (rule not_isl_Inr)
  then show ?thesis unfolding default_document_def by (metis sum.case(2))
qed

definition default_digest :: "(bytes \<Rightarrow> bytes) \<Rightarrow> (rat \<Rightarrow> string) \<Rightarrow> bytes" where
  "default_digest sha256 fr = sha256 (utf8 (json_dumps fr default_document))"

lemma default_revision_valid:
  assumes "length (default_digest sha256 fr) = 32"
  shows "validate_revision sha256 fr (default_revision st (default_digest sha256 fr)) =
    Inr (default_revision st (default_digest sha256 fr))"
proof -
  have "sr_spec_id (default_revision st d) = 1" "sr_spec_revision_id (default_revision st d) = 0x101"
    "sr_supersedes_revision_id (default_revision st d) = None" "sr_revision_number (default_revision st d) = 1"
    "sr_configuration_digest (default_revision st d) = d" for d
    by (simp_all add: default_revision_def default_candidate_def DEFAULT_SPEC_ID_def DEFAULT_SPEC_REVISION_ID_def)
  then show ?thesis
    using assms unfolding validate_revision_def expected_configuration_digest_def
    by (simp add: validate_uuid_def EMPTY_UUID_def)
      (simp add: default_revision_def default_structure default_document_Inr default_digest_def)
qed

section \<open>The typed schema of a validated revision\<close>

text \<open>What a target column is: its name, its physical type and whether it may be null.\<close>

definition column_of :: "dataset_field \<Rightarrow> string \<times> string \<times> bool" where
  "column_of f = (df_target_name f, df_data_type f, df_nullable f)"

definition target_schema :: "dataset_spec_revision \<Rightarrow> (string \<times> string \<times> bool) list" where
  "target_schema r = map column_of (sort_key df_ordinal (sr_fields r))"

definition canonical_schema :: "dataset_spec_revision \<Rightarrow> (string \<times> string \<times> bool) list" where
  "canonical_schema r =
     [(''record_id'', ''string'', False), (''ts'', ''timestamp[us,UTC]'', True)] @
     map (\<lambda>(n, d). (n, vector_type_of d, True)) (vector_fields r) @
     map (\<lambda>n. (n, ''string'', True)) (text_fields r) @ map (\<lambda>n. (n, ''string'', True)) (metadata_fields r) @
     [(''lance_etl_window_seq'', ''int64'', False), (''lance_etl_source_sequence'', ''int64'', False),
      (''lance_etl_event_digest'', ''binary[32]'', False), (''is_deleted'', ''bool'', False)]"

lemma role_present: "role_count r role = 1 \<Longrightarrow> \<exists>f\<in>set (sr_fields r). df_role f = role"
proof -
  assume "role_count r role = 1"
  then have "filter (\<lambda>f. df_role f = role) (sr_fields r) \<noteq> []" by (auto simp: role_count_def)
  then show ?thesis by (auto simp: filter_empty_conv)
qed

lemma lineage_present:
  assumes "validate_fields r = Inr ()" and "(n, t) \<in> set expected_lineage"
  shows "\<exists>f\<in>set (sr_fields r). df_role f = LINEAGE \<and> df_target_name f = n \<and> df_data_type f = t"
proof -
  let ?ps = "map (\<lambda>f. (df_target_name f, df_data_type f)) (fields_for_role r LINEAGE)"
  have "dict_get expected_lineage n = Some t"
    using assms(2) by (auto simp: expected_lineage_def dict_get_def)
  then have "dict_get ?ps n = Some t"
    using validate_fields_parts(8) [OF assms(1)] by (simp add: dict_eq_iff)
  then have "(n, t) \<in> set ?ps" by (auto simp: dict_get_def dest: map_of_SomeD)
  then show ?thesis by (auto simp: in_fields_for_role)
qed

lemma validated_columns:
  assumes v: "validate_fields r = Inr ()" and f: "f \<in> set (sr_fields r)"
  shows "column_of f = (case df_role f of
      KEY \<Rightarrow> (''record_id'', ''string'', False)
    | EVENT_TIME \<Rightarrow> (''ts'', ''timestamp[us,UTC]'', True)
    | VECTOR \<Rightarrow> (df_target_name f, vector_type_of (the (df_vector_dimension f)), True)
    | TEXT \<Rightarrow> (df_target_name f, ''string'', True)
    | METADATA \<Rightarrow> (df_target_name f, ''string'', True)
    | TOMBSTONE \<Rightarrow> (''is_deleted'', ''bool'', False)
    | LINEAGE \<Rightarrow> (df_target_name f, df_data_type f, False))"
proof -
  note vf = validate_field_facts [OF conjunct1 [OF validate_fields_parts(4) [OF v f]]]
  have "derived_names_ok f" by (rule validated_derived_names [OF v f])
  then show ?thesis
    using vf(4,7,8,10) by (cases "df_role f") (auto simp: column_of_def derived_names_ok_def)
qed

text \<open>Two fields of a validated revision with the same name are the same column.\<close>

definition column_named :: "dataset_spec_revision \<Rightarrow> string \<Rightarrow> string \<times> string \<times> bool" where
  "column_named r n = (case find (\<lambda>f. df_target_name f = n) (sr_fields r) of None \<Rightarrow> ([], [], False) | Some f \<Rightarrow> column_of f)"

lemma find_unique:
  assumes "distinct (map key xs)" and "x \<in> set xs"
  shows "find (\<lambda>y. key y = key x) xs = Some x"
proof -
  have "unique_key key xs" using assms(1) by (simp add: unique_by_def)
  from lookup_by_Some_iff [OF this, of "key x" x] assms(2) show ?thesis by (simp add: lookup_by_def)
qed

lemma column_named_field:
  "validate_fields r = Inr () \<Longrightarrow> f \<in> set (sr_fields r) \<Longrightarrow> column_named r (df_target_name f) = column_of f"
  using find_unique [OF validate_fields_parts(2)] by (simp add: column_named_def)

lemma validated_schema:
  assumes v: "validate_fields r = Inr ()"
  shows "target_schema r = canonical_schema r"
proof -
  note parts = validate_fields_parts [OF v]
  have "target_schema r = map (column_named r) (map df_target_name (sort_key df_ordinal (sr_fields r)))"
    unfolding target_schema_def by (simp add: column_named_field [OF v])
  also have "\<dots> = map (column_named r) (expected_order r)" using parts(10) by simp
  also have "\<dots> = canonical_schema r"
  proof -
    have named: "column_named r n = (n, t, b)"
      if "f \<in> set (sr_fields r)" "column_of f = (n, t, b)" for f n t b
      using column_named_field [OF v that(1)] that(2) by (simp add: column_of_def)
    obtain k e d where k: "k \<in> set (sr_fields r)" "df_role k = KEY" and e: "e \<in> set (sr_fields r)" "df_role e = EVENT_TIME"
      and d: "d \<in> set (sr_fields r)" "df_role d = TOMBSTONE"
      using role_present [OF parts(5)] role_present [OF parts(6)] role_present [OF parts(7)] by blast
    have "column_of k = (''record_id'', ''string'', False)" "column_of e = (''ts'', ''timestamp[us,UTC]'', True)"
      "column_of d = (''is_deleted'', ''bool'', False)"
      using validated_columns [OF v] k e d by simp_all
    note direct = named [OF k(1) this(1)] named [OF e(1) this(2)] named [OF d(1) this(3)]
    have lineage: "column_named r n = (n, t, False)" if mem: "(n, t) \<in> set expected_lineage" for n t
    proof -
      from lineage_present [OF v mem] obtain f where f: "f \<in> set (sr_fields r)" "df_role f = LINEAGE"
        "df_target_name f = n" "df_data_type f = t" by blast
      have "column_of f = (n, t, False)" using validated_columns [OF v f(1)] f(2-4) by simp
      then show ?thesis by (rule named [OF f(1)])
    qed
    have vec: "column_named r (df_target_name f) = (df_target_name f, vector_type_of (case df_vector_dimension f of None \<Rightarrow> 0 | Some n \<Rightarrow> n), True)"
      if "f \<in> set (fields_for_role r VECTOR)" for f
      using that column_named_field [OF v] validated_columns [OF v, of f]
        validate_field_facts(10) [OF conjunct1 [OF parts(4)], of f] by (auto simp: in_fields_for_role)
    have str: "column_named r (df_target_name f) = (df_target_name f, ''string'', True)"
      if "f \<in> set (fields_for_role r role)" "role \<in> {TEXT, METADATA}" for f role
      using that column_named_field [OF v] validated_columns [OF v, of f] by (auto simp: in_fields_for_role)
    show ?thesis
      unfolding expected_order_def canonical_schema_def vector_fields_def text_fields_def metadata_fields_def
      using direct lineage vec str by (simp add: expected_lineage_def)
  qed
  finally show ?thesis .
qed

lemma field_by_name_iff:
  assumes "validate_fields r = Inr ()"
  shows "field_by_name r n = Inr f \<longleftrightarrow> f \<in> set (sr_fields r) \<and> df_target_name f = n"
proof
  assume "field_by_name r n = Inr f"
  then show "f \<in> set (sr_fields r) \<and> df_target_name f = n"
    by (auto simp: field_by_name_def find_Some_iff split: option.splits)
next
  assume "f \<in> set (sr_fields r) \<and> df_target_name f = n"
  with find_unique [OF validate_fields_parts(2) [OF assms], of f] show "field_by_name r n = Inr f"
    by (auto simp: field_by_name_def)
qed

lemma vector_fields_shape:
  assumes "validate_fields r = Inr ()" and "(n, d) \<in> set (vector_fields r)"
  shows "8 \<le> d \<and> d mod 8 = 0"
  using assms validate_field_facts(10) [OF conjunct1 [OF validate_fields_parts(4) [OF assms(1)]]]
  by (fastforce simp: vector_fields_def in_fields_for_role)

lemma index_by_name_iff:
  assumes "distinct (map ix_name (sr_indexes r))"
  shows "index_by_name r n = Inr x \<longleftrightarrow> x \<in> set (sr_indexes r) \<and> ix_name x = n"
proof
  assume "index_by_name r n = Inr x"
  then show "x \<in> set (sr_indexes r) \<and> ix_name x = n"
    by (auto simp: index_by_name_def find_Some_iff split: option.splits)
next
  assume "x \<in> set (sr_indexes r) \<and> ix_name x = n"
  with find_unique [OF assms, of x] show "index_by_name r n = Inr x" by (auto simp: index_by_name_def)
qed

lemma index_definitions_set [simp]: "set (index_definitions r) = set (sr_indexes r)"
  by (simp add: index_definitions_def)

lemma find_member: "find P xs = Some x \<Longrightarrow> x \<in> set xs \<and> P x"
  by (auto simp: find_Some_iff)

text \<open>The option of one index family for a named field, for either family.\<close>

lemma option_for_field:
  assumes v: "validate_fields r = Inr ()" and d: "distinct (map (\<lambda>x. (ix_field_id x, ix_type x)) (sr_indexes r))"
    and t: "\<And>x. x \<in> set (sr_indexes r) \<Longrightarrow> (ix_type x = t) = (opt x \<noteq> None)"
  shows "rbind (indexes_for_field r n) (\<lambda>xs. case find (\<lambda>x. ix_type x = t \<and> opt x \<noteq> None) xs of
      None \<Rightarrow> Inl KeyError | Some x \<Rightarrow> (case opt x of None \<Rightarrow> Inl KeyError | Some v \<Rightarrow> Inr v)) = Inr v \<longleftrightarrow>
    (\<exists>f\<in>set (sr_fields r). \<exists>x\<in>set (sr_indexes r). df_target_name f = n \<and> ix_field_id x = df_field_id f \<and> opt x = Some v)"
    (is "?lhs \<longleftrightarrow> ?rhs")
proof
  assume ?lhs
  then obtain xs where xs: "indexes_for_field r n = Inr xs" "(case find (\<lambda>x. ix_type x = t \<and> opt x \<noteq> None) xs of
      None \<Rightarrow> Inl KeyError | Some x \<Rightarrow> (case opt x of None \<Rightarrow> Inl KeyError | Some v \<Rightarrow> Inr v)) = Inr v"
    unfolding rbind_Inr_iff by blast
  from xs(2) obtain x where x: "find (\<lambda>x. ix_type x = t \<and> opt x \<noteq> None) xs = Some x" "opt x = Some v"
    by (cases "find (\<lambda>x. ix_type x = t \<and> opt x \<noteq> None) xs") (auto split: option.splits)
  from xs(1) obtain f where "field_by_name r n = Inr f" "xs = filter (\<lambda>x. ix_field_id x = df_field_id f) (index_definitions r)"
    by (auto simp: indexes_for_field_def rbind_Inr_iff)
  with find_member [OF x(1)] x(2) show ?rhs by (auto simp: field_by_name_iff [OF v])
next
  assume ?rhs
  then obtain f x where f: "f \<in> set (sr_fields r)" "df_target_name f = n" and x: "x \<in> set (sr_indexes r)"
    "ix_field_id x = df_field_id f" "opt x = Some v" by blast
  let ?xs = "filter (\<lambda>x. ix_field_id x = df_field_id f) (index_definitions r)"
  have xt: "ix_type x = t" using t [OF x(1)] x(3) by simp
  have same: "y = x" if "y \<in> set (sr_indexes r)" "ix_field_id y = df_field_id f" "ix_type y = t" for y
    using inj_onD [OF conjunct2 [OF d [unfolded distinct_map]] _ that(1) x(1)] that(2,3) x(2) xt by simp
  obtain y where y: "find (\<lambda>x. ix_type x = t \<and> opt x \<noteq> None) ?xs = Some y"
    using x xt by (cases "find (\<lambda>x. ix_type x = t \<and> opt x \<noteq> None) ?xs") (auto simp: find_None_iff)
  have "y = x" by (rule same) (use find_member [OF y] in auto)
  moreover have "indexes_for_field r n = Inr ?xs"
    using f by (simp add: indexes_for_field_def iffD2 [OF field_by_name_iff [OF v], of f n])
  ultimately show ?lhs using y x(3) by simp
qed

lemma index_field_names:
  assumes v: "validate_revision sha256 float_repr r = Inr r'" and "x \<in> set (sr_indexes r)"
  shows "\<exists>f\<in>set (sr_fields r). df_field_id f = ix_field_id x \<and> field_name_of r (ix_field_id x) = Inr (df_target_name f)"
proof -
  note p = validate_revision_parts [OF v]
  from validate_indexes_parts(5) [OF p(4) assms(2)] obtain f where f: "f \<in> set (sr_fields r)" "df_field_id f = ix_field_id x"
    by blast
  have "dict_get (field_names_by_id r) (df_field_id f) = Some (df_target_name f)"
    using f(1) validate_fields_parts(1) [OF p(3)] unfolding dict_get_def
    by (intro map_of_is_SomeI) (auto simp: field_names_by_id_def comp_def rev_map [symmetric])
  with f show ?thesis by (intro bexI [of _ f]) (auto simp: field_name_of_def)
qed

lemma index_type_names:
  assumes "validate_revision sha256 float_repr r = Inr r'"
  shows "\<exists>names. field_names_for_index_type r t = Inr names \<and>
    list_all2 (\<lambda>x n. \<exists>f\<in>set (sr_fields r). df_field_id f = ix_field_id x \<and> df_target_name f = n)
      (filter (\<lambda>x. ix_type x = t) (index_definitions r)) names"
proof -
  let ?xs = "filter (\<lambda>x. ix_type x = t) (index_definitions r)"
  have "\<exists>names. rmap (\<lambda>x. field_name_of r (ix_field_id x)) ys = Inr names \<and>
      list_all2 (\<lambda>x n. \<exists>f\<in>set (sr_fields r). df_field_id f = ix_field_id x \<and> df_target_name f = n) ys names"
    if "set ys \<subseteq> set (sr_indexes r)" for ys
    using that
  proof (induction ys)
    case (Cons y ys)
    then obtain names where "rmap (\<lambda>x. field_name_of r (ix_field_id x)) ys = Inr names"
      "list_all2 (\<lambda>x n. \<exists>f\<in>set (sr_fields r). df_field_id f = ix_field_id x \<and> df_target_name f = n) ys names" by auto
    moreover from index_field_names [OF assms, of y] Cons.prems obtain f where "f \<in> set (sr_fields r)"
      "df_field_id f = ix_field_id y" "field_name_of r (ix_field_id y) = Inr (df_target_name f)" by auto
    ultimately show ?case by (intro exI [of _ "df_target_name f # names"]) auto
  qed simp
  from this [of ?xs] show ?thesis by (auto simp: field_names_for_index_type_def)
qed

text \<open>
  C35. Validation is a type check of the target schema and makes the accessors exact. Whatever revision
  validation accepts, and it returns it unchanged, the columns of its fields in ordinal order are exactly
  the canonical schema of its vector, text and metadata fields: key and event time first, then the vectors
  with their exact dimension in the type, the texts and metadata as strings, then the three lineage columns
  and the tombstone, each with its fixed nullability; ordinals count from zero, every vector dimension is a
  positive multiple of eight, and every index refers to a field of the revision whose role its family
  supports, with the options of its family and no others. A field name, an index name, and a field's vector
  or text-search options resolve to exactly the field, index or options the revision declares for them
  (anything else is a \<open>KeyError\<close>), and the field names of an index family never fail: they are
  the names of the indexed fields in index order.
\<close>

theorem validated_revision_typed:
  assumes "validate_revision sha256 float_repr r = Inr r'"
  shows "r' = r \<and> target_schema r = canonical_schema r \<and>
    sort (map df_ordinal (sr_fields r)) = map int [0..<length (sr_fields r)] \<and>
    (\<forall>(n, d)\<in>set (vector_fields r). 8 \<le> d \<and> d mod 8 = 0) \<and>
    (\<forall>n f. field_by_name r n = Inr f \<longleftrightarrow> f \<in> set (sr_fields r) \<and> df_target_name f = n) \<and>
    (\<forall>x\<in>set (sr_indexes r). \<exists>f\<in>set (sr_fields r). df_field_id f = ix_field_id x \<and>
       df_role f \<in> allowed_roles (ix_type x) \<and> (ix_type x = IVF_RQ \<longleftrightarrow> ix_vector_options x \<noteq> None) \<and>
       (ix_type x = INVERTED \<longleftrightarrow> ix_fts_options x \<noteq> None)) \<and>
    (\<forall>n x. index_by_name r n = Inr x \<longleftrightarrow> x \<in> set (sr_indexes r) \<and> ix_name x = n) \<and>
    (\<forall>n v. vector_options_for_field r n = Inr v \<longleftrightarrow> (\<exists>f\<in>set (sr_fields r). \<exists>x\<in>set (sr_indexes r).
       df_target_name f = n \<and> ix_field_id x = df_field_id f \<and> ix_vector_options x = Some v)) \<and>
    (\<forall>n v. fts_options_for_field r n = Inr v \<longleftrightarrow> (\<exists>f\<in>set (sr_fields r). \<exists>x\<in>set (sr_indexes r).
       df_target_name f = n \<and> ix_field_id x = df_field_id f \<and> ix_fts_options x = Some v)) \<and>
    (\<forall>n e. field_by_name r n = Inl e \<or> index_by_name r n = Inl e \<or> vector_options_for_field r n = Inl e \<or>
       fts_options_for_field r n = Inl e \<longrightarrow> e = KeyError) \<and>
    (\<forall>t. \<exists>names. field_names_for_index_type r t = Inr names \<and>
       list_all2 (\<lambda>x n. \<exists>f\<in>set (sr_fields r). df_field_id f = ix_field_id x \<and> df_target_name f = n)
         (filter (\<lambda>x. ix_type x = t) (index_definitions r)) names)"
proof -
  note p = validate_revision_parts [OF assms]
  note xp = validate_indexes_parts [OF p(4)]
  have fam: "(ix_type x = IVF_RQ) = (ix_vector_options x \<noteq> None)" "(ix_type x = INVERTED) = (ix_fts_options x \<noteq> None)"
    if "x \<in> set (sr_indexes r)" for x
    using xp(5) [OF that] validate_index_options(1,2) [of x] by blast+
  have "\<exists>f\<in>set (sr_fields r). df_field_id f = ix_field_id x \<and> df_role f \<in> allowed_roles (ix_type x) \<and>
      (ix_type x = IVF_RQ \<longleftrightarrow> ix_vector_options x \<noteq> None) \<and> (ix_type x = INVERTED \<longleftrightarrow> ix_fts_options x \<noteq> None)"
    if "x \<in> set (sr_indexes r)" for x
    using xp(5) [OF that] fam [OF that] by blast
  moreover have "e = KeyError" if "field_by_name r n = Inl e \<or> index_by_name r n = Inl e \<or>
      vector_options_for_field r n = Inl e \<or> fts_options_for_field r n = Inl e" for n e
    using that by (auto simp: field_by_name_def index_by_name_def vector_options_for_field_def fts_options_for_field_def
        indexes_for_field_def rbind_def split: option.splits sum.splits)
  moreover note option_for_field [OF p(3) xp(4) fam(1), folded vector_options_for_field_def]
    option_for_field [OF p(3) xp(4) fam(2), folded fts_options_for_field_def]
  ultimately show ?thesis
    using p(1) validated_schema [OF p(3)] validate_fields_parts(11) [OF p(3)] vector_fields_shape [OF p(3)]
      field_by_name_iff [OF p(3)] index_by_name_iff [OF xp(2)] index_type_names [OF assms] by blast
qed

definition demo_sha256 :: "bytes \<Rightarrow> bytes" where
  "demo_sha256 bs = replicate 32 7"

definition demo_float_repr :: "rat \<Rightarrow> string" where
  "demo_float_repr x = show_int (fst (quotient_of x)) @ ''e'' @ show_int (snd (quotient_of x))"

lemma demo_default_valid: "validate_revision demo_sha256 fr (default_revision st (replicate 32 7)) =
    Inr (default_revision st (replicate 32 7))"
  using default_revision_valid [of demo_sha256 fr st] by (simp add: default_digest_def demo_sha256_def)

theorem validated_revision_typed_witness:
  "target_schema (default_revision SPEC_ACTIVE (replicate 32 7)) = canonical_schema (default_revision SPEC_ACTIVE (replicate 32 7)) \<and>
   vector_fields (default_revision SPEC_ACTIVE (replicate 32 7)) = [(''vector'', 128)]"
proof
  show "target_schema (default_revision SPEC_ACTIVE (replicate 32 7)) =
      canonical_schema (default_revision SPEC_ACTIVE (replicate 32 7))"
    using validated_revision_typed [OF demo_default_valid [of demo_float_repr SPEC_ACTIVE]] by blast
  show "vector_fields (default_revision SPEC_ACTIVE (replicate 32 7)) = [(''vector'', 128)]" by code_simp
qed

section \<open>What the digest identifies\<close>

lemma split_at_e:
  assumes "show_int a @ CHR ''e'' # show_int b = show_int c @ CHR ''e'' # show_int d"
  shows "a = c \<and> b = d"
proof -
  have no: "CHR ''e'' \<notin> set (show_int i)" for i by (auto dest: set_show_int)
  have pre: "takeWhile (\<lambda>x. x \<noteq> CHR ''e'') (show_int i @ CHR ''e'' # t) = show_int i" for i t
    using no [of i] by (subst takeWhile_append2) auto
  from assms have "show_int a = show_int c" by (metis pre)
  with assms show ?thesis by simp
qed

lemma demo_float_repr_ok: "float_repr_ok demo_float_repr"
  unfolding float_repr_ok_def
proof (intro conjI allI)
  show "inj demo_float_repr"
  proof (rule injI)
    fix x y assume "demo_float_repr x = demo_float_repr y"
    then have "fst (quotient_of x) = fst (quotient_of y) \<and> snd (quotient_of x) = snd (quotient_of y)"
      unfolding demo_float_repr_def by (intro split_at_e) simp
    then show "x = y" by (metis prod.collapse quotient_of_inject_eq)
  qed
  fix x
  have mem: "c \<in> set ''0123456789+-.e''" if c: "c = CHR ''-'' \<or> 48 \<le> code c \<and> code c \<le> 57" for c
  proof (cases "c = CHR ''-''")
    case False
    with c have "48 \<le> code c" "code c < 58" by auto
    then have "code c \<in> set [48..<58]" by (simp only: set_upt atLeastLessThan_iff)
    moreover have "list_all (\<lambda>n. char_of (n :: nat) \<in> set ''0123456789+-.e'') [48..<58]" by code_simp
    ultimately have "char_of (code c) \<in> set ''0123456789+-.e''" unfolding list_all_iff by blast
    then show ?thesis by simp
  qed simp
  show "float_text (demo_float_repr x)"
    unfolding float_text_def demo_float_repr_def list_all_iff list_ex_iff using set_show_int mem by fastforce
qed

text \<open>
  C37. The digest identifies the configuration: if SHA-256 does not collide on the two canonical texts,
  two validated revisions carry the same digest exactly when their configurations are equal, that is,
  their operational settings, their fields in schema order up to database identities, and their indexes
  in index order, each with the name of its field, up to identities. So the digest depends on no UUID,
  lifecycle state, revision number or order of the tuples, and nothing of the configuration escapes it.
\<close>

theorem digest_identifies_configuration:
  assumes "float_repr_ok float_repr"
    and "validate_revision sha256 float_repr r = Inr r'" and "validate_revision sha256 float_repr q = Inr q'"
    and "configuration_document r = Inr d" and "configuration_document q = Inr e"
    and "inj_on sha256 {utf8 (json_dumps float_repr d), utf8 (json_dumps float_repr e)}"
  shows "sr_configuration_digest r = sr_configuration_digest q \<longleftrightarrow> configuration_of r = configuration_of q"
proof -
  have "sr_configuration_digest r = sha256 (utf8 (json_dumps float_repr d))"
    "sr_configuration_digest q = sha256 (utf8 (json_dumps float_repr e))"
    using validate_revision_digest [OF assms(2)] validate_revision_digest [OF assms(3)] assms(4,5) by auto
  moreover have "sha256 (utf8 (json_dumps float_repr d)) = sha256 (utf8 (json_dumps float_repr e)) \<longleftrightarrow>
      json_dumps float_repr d = json_dumps float_repr e"
    using inj_on_eq_iff [OF assms(6)] by simp
  ultimately show ?thesis
    using json_dumps_inj [OF assms(1)] configuration_document_iff [OF assms(4,5)] by simp
qed

theorem digest_identifies_configuration_witness:
  "configuration_of (default_revision SPEC_ACTIVE (replicate 32 7)) = configuration_of (default_revision SPEC_RETIRED (replicate 32 7))"
proof -
  have doc: "configuration_document (default_revision st (replicate 32 7)) = Inr default_document" for st
    by (simp add: default_revision_def default_document_Inr)
  have "sr_configuration_digest (default_revision st (replicate 32 7)) = replicate 32 7" for st
    by (simp add: default_revision_def)
  then show ?thesis
    using digest_identifies_configuration [OF demo_float_repr_ok demo_default_valid demo_default_valid doc doc,
        of SPEC_ACTIVE SPEC_RETIRED] by simp
qed

section \<open>Storing drafts\<close>

lemma load_other_revision:
  assumes v: "validate_revision sha256 fr c = Inr c" and ne: "rid \<noteq> sr_spec_revision_id c"
  shows "load_spec_revision sha256 fr rid (stored_draft c name description s) = load_spec_revision sha256 fr rid s"
proof -
  note p = validate_revision_parts [OF v]
  note fp = validate_fields_parts(4) [OF p(3)] and xp = validate_indexes_parts(5) [OF p(4)]
  have "lookup_by (col ''spec_revision_id'') (Some (PUuid rid)) (t_specs s @ [revision_row c name description]) =
      lookup_by (col ''spec_revision_id'') (Some (PUuid rid)) (t_specs s)"
  proof -
    have "lookup_by (col ''spec_revision_id'') (Some (PUuid rid)) [revision_row c name description] = None"
      using ne by (simp add: lookup_by_def revision_row_cols)
    then show ?thesis by (simp add: lookup_by_append split: option.split)
  qed
  moreover have "children_of rid (t_fields s @ map field_row (sr_fields c)) = children_of rid (t_fields s)"
    "children_of rid (t_indexes s @ map index_row (sr_indexes c)) = children_of rid (t_indexes s)"
    using ne fp xp unfolding children_of_def filter_append
    by (simp_all add: filter_map comp_def field_row_cols index_row_cols cong: filter_cong)
  ultimately show ?thesis by (simp add: load_spec_revision_def stored_draft_def split: option.split)
qed

text \<open>
  C36. A prepared draft whose fields and indexes are given in ordinal order and whose decimal settings
  are floats is stored exactly or refused by the database alone. If its identity is new, the creation
  either returns the draft itself, with the encoded rows appended to the three tables, or raises
  \<open>DataError\<close> (a value outside its column's range), or raises \<open>IntegrityError\<close>, and then because
  a key or a reference of the tables is violated, never a check constraint. Loading the stored rows
  returns the draft, so neither the decoder nor the self-check after the insert ever refuses it; every
  other revision loads as before, and no other table changes; and creating it again, under any valid name
  and description, returns it without a change.
\<close>

theorem draft_roundtrip:
  assumes "constraints_ok s" and "prepared_draft_revision sha256 float_repr r = Inr c"
    and "SPEC_NAME_PATTERN name" and "case description of None \<Rightarrow> True | Some d \<Rightarrow> \<not> is_blank d"
    and "\<not> spec_exists (sr_spec_revision_id c) (t_specs s)"
    and "ordered_revision c" and "float_revision c = c"
  shows "(let s' = stored_draft c name description s; outcome = create_draft_spec_revision sha256 float_repr r name description s
     in (outcome = Inr (c, s') \<and> draft_constraints c name description s \<or> outcome = Inl DataError \<or>
         outcome = Inl IntegrityError \<and> \<not> draft_constraints c name description s) \<and>
        load_spec_revision sha256 float_repr (sr_spec_revision_id c) s' = Inr c \<and>
        (\<forall>rid. rid \<noteq> sr_spec_revision_id c \<longrightarrow>
           load_spec_revision sha256 float_repr rid s' = load_spec_revision sha256 float_repr rid s) \<and>
        s'\<lparr>t_specs := t_specs s, t_fields := t_fields s, t_indexes := t_indexes s\<rparr> = s \<and>
        create_draft_spec_revision sha256 float_repr r name description s' = Inr (c, s'))"
proof -
  let ?s' = "stored_draft c name description s"
  note v = prepared_draft_validated [OF assms(2)]
  have load: "load_spec_revision sha256 float_repr (sr_spec_revision_id c) ?s' = Inr c"
    using load_stored_draft [OF assms(1) v(1) assms(5,6)] v(1) assms(7) by simp
  have again: "create_draft_spec_revision sha256 float_repr r name description ?s' = Inr (c, ?s')"
    by (simp add: create_draft_existing [OF assms(2-4) stored_draft_exists] load)
  note others = load_other_revision [OF v(1)]
  have rest: "?s'\<lparr>t_specs := t_specs s, t_fields := t_fields s, t_indexes := t_indexes s\<rparr> = s"
    by (simp add: stored_draft_def)
  show ?thesis
    using draft_inserts [OF v(1,2) assms(3,4), of s] unfolding Let_def create_draft_new [OF assms(2-5)]
    by (elim disjE conjE) (simp_all add: load again others rest)
qed


definition empty_db :: db where
  "empty_db = \<lparr>t_sources = [], t_datasets = [], t_snapshots = [], t_work = [], t_publications = [], t_pubindexes = [],
     t_specs = [], t_fields = [], t_indexes = [], next_seq = 1\<rparr>"

lemma empty_db_ok: "constraints_ok empty_db"
  by code_simp

lemma demo_prepared:
  "prepared_draft_revision demo_sha256 demo_float_repr (default_revision SPEC_DRAFT []) =
     Inr (default_revision SPEC_DRAFT (replicate 32 7))"
proof -
  have decimals: "validate_database_decimal (sr_materialize_deletions_threshold (default_revision SPEC_DRAFT [])) = Inr ()"
    "\<not> isl (rmap (\<lambda>x. case ix_vector_options x of None \<Rightarrow> Inr ()
        | Some o' \<Rightarrow> validate_database_decimal (vo_retrain_growth_factor o')) (sr_indexes (default_revision SPEC_DRAFT [])))"
    by code_simp+
  obtain us where "rmap (\<lambda>x. case ix_vector_options x of None \<Rightarrow> Inr ()
        | Some o' \<Rightarrow> validate_database_decimal (vo_retrain_growth_factor o')) (sr_indexes (default_revision SPEC_DRAFT [])) = Inr us"
    using decimals(2) by (rule not_isl_Inr)
  moreover have "expected_configuration_digest demo_sha256 demo_float_repr (default_revision SPEC_DRAFT []) = Inr (replicate 32 7)"
    by (simp add: expected_configuration_digest_def default_revision_def default_document_Inr demo_sha256_def)
  moreover have "default_revision SPEC_DRAFT []\<lparr>sr_configuration_digest := replicate 32 7\<rparr> = default_revision SPEC_DRAFT (replicate 32 7)"
    "sr_state (default_revision SPEC_DRAFT []) = SPEC_DRAFT"
    by (simp_all add: default_revision_def)
  ultimately show ?thesis
    unfolding prepared_draft_revision_def by (simp add: decimals(1) demo_default_valid)
qed

theorem draft_roundtrip_witness:
  "load_spec_revision demo_sha256 demo_float_repr 0x101 (stored_draft (default_revision SPEC_DRAFT (replicate 32 7)) ''default'' None empty_db) =
     Inr (default_revision SPEC_DRAFT (replicate 32 7)) \<and>
   draft_constraints (default_revision SPEC_DRAFT (replicate 32 7)) ''default'' None empty_db"
proof -
  have name: "SPEC_NAME_PATTERN ''default''" by code_simp
  have new: "\<not> spec_exists (sr_spec_revision_id (default_revision SPEC_DRAFT (replicate 32 7))) (t_specs empty_db)" by code_simp
  have ord: "ordered_revision (default_revision SPEC_DRAFT (replicate 32 7))" by code_simp
  have fl: "float_revision (default_revision SPEC_DRAFT (replicate 32 7)) = default_revision SPEC_DRAFT (replicate 32 7)"
    by code_simp
  have id: "sr_spec_revision_id (default_revision SPEC_DRAFT (replicate 32 7)) = 0x101" by code_simp
  have "draft_constraints (default_revision SPEC_DRAFT (replicate 32 7)) ''default'' None empty_db" by code_simp
  moreover have "load_spec_revision demo_sha256 demo_float_repr 0x101
      (stored_draft (default_revision SPEC_DRAFT (replicate 32 7)) ''default'' None empty_db) =
      Inr (default_revision SPEC_DRAFT (replicate 32 7))"
    using draft_roundtrip [OF empty_db_ok demo_prepared name _ new ord fl, of None] by (simp add: id Let_def)
  ultimately show ?thesis by blast
qed

end
