(* ===== verification/Activation.thy ===== *)
theory Activation
  imports Spec_Properties
begin

text \<open>
  Activation of a specification revision and the execution context of a claim. A stored revision
  changes only in its lifecycle state: activation makes the draft the active revision of its
  specification, retires the former one, and leaves every other revision as it loads.
\<close>

section \<open>Changing the state of a stored revision\<close>

lemma map_of_set_column:
  "map_of (set_column k v r) k' = (if k' = k then map_option (\<lambda>_. v) (map_of r k) else map_of r k')"
  unfolding set_column_def by (induction r) auto

lemma row_value_set_column:
  "k' \<noteq> k \<Longrightarrow> row_value (set_column k v r) k' = row_value r k'"
  by (simp add: row_value_def map_of_set_column)

lemma row_readers_set_column:
  assumes "k' \<noteq> k"
  shows "row_uuid (set_column k v r) k' = row_uuid r k'" "row_optional_uuid (set_column k v r) k' = row_optional_uuid r k'"
    "row_string (set_column k v r) k' = row_string r k'" "row_int (set_column k v r) k' = row_int r k'"
    "row_optional_int (set_column k v r) k' = row_optional_int r k'" "row_bool (set_column k v r) k' = row_bool r k'"
    "row_float (set_column k v r) k' = row_float r k'" "row_bytes (set_column k v r) k' = row_bytes r k'"
    "row_enum (set_column k v r) k' (ms :: (string \<times> 'e) list) = row_enum r k' ms"
  using assms by (simp_all add: row_uuid_def row_optional_uuid_def row_string_def row_int_def row_optional_int_def
      row_bool_def row_float_def row_bytes_def row_enum_def row_value_set_column)

lemma decode_other_column:
  "k \<notin> set (map fst spec_columns) \<or> k = ''activated_at'' \<Longrightarrow>
     decode_revision_columns (set_column k v r) sid rid fs xs = decode_revision_columns r sid rid fs xs"
  unfolding decode_revision_columns_def spec_columns_def by (auto simp: row_readers_set_column)

definition with_state :: "spec_revision_state \<Rightarrow> dataset_spec_revision result \<Rightarrow> dataset_spec_revision result" where
  "with_state st m = rbind m (\<lambda>q. Inr (q\<lparr>sr_state := st\<rparr>))"

lemma decode_state_column:
  assumes "col ''state'' r = Some (PStr (enum_text spec_revision_states st0))"
  shows "decode_revision_columns (set_column ''state'' (PStr (enum_text spec_revision_states st)) r) sid rid fs xs =
    with_state st (decode_revision_columns r sid rid fs xs)"
proof -
  have new: "row_enum (set_column ''state'' (PStr (enum_text spec_revision_states st)) r) ''state'' spec_revision_states = Inr st"
    and old: "row_enum r ''state'' spec_revision_states = Inr st0"
    using assms by (simp_all add: row_enum_def row_string_def row_value_def map_of_set_column)
  show ?thesis
    unfolding decode_revision_columns_def with_state_def by (simp add: row_readers_set_column new old rbind_assoc)
qed

lemma validate_state:
  "validate_revision sha256 fr (q\<lparr>sr_state := st\<rparr>) = with_state st (validate_revision sha256 fr q)"
proof -
  have digest: "q\<lparr>sr_state := st, sr_configuration_digest := sr_configuration_digest q\<rparr> = q\<lparr>sr_state := st\<rparr>"
    by (cases q) simp
  note st = structural_state [where r = q and st = st and d = "sr_configuration_digest q", unfolded digest]
  show ?thesis
    unfolding validate_revision_def expected_configuration_digest_def with_state_def
    by (cases "sr_supersedes_revision_id q") (simp_all add: st rbind_assoc)
qed

lemma with_state_rbind: "with_state st (rbind m f) = rbind m (\<lambda>x. with_state st (f x))"
  by (simp add: with_state_def rbind_assoc)

lemma decode_changed_state:
  assumes "col ''state'' r = Some (PStr (enum_text spec_revision_states st0))"
  shows "decode_dataset_spec_revision sha256 fr (set_column ''state'' (PStr (enum_text spec_revision_states st)) r) fs xs =
    with_state st (decode_dataset_spec_revision sha256 fr r fs xs)"
  unfolding decode_dataset_spec_revision_def with_state_rbind
  by (simp add: row_readers_set_column decode_state_column [OF assms] with_state_def rbind_assoc)
    (simp add: validate_state with_state_def)

lemma decode_activated_at:
  "decode_dataset_spec_revision sha256 fr (set_column ''activated_at'' v r) fs xs = decode_dataset_spec_revision sha256 fr r fs xs"
  unfolding decode_dataset_spec_revision_def by (simp add: row_readers_set_column decode_other_column)

text \<open>Loading after an update of the revision table that keeps identities.\<close>

lemma load_updated:
  assumes "\<And>r. col ''spec_revision_id'' (g r) = col ''spec_revision_id'' r"
    and "t_specs s' = update_where p g (t_specs s)" and "t_fields s' = t_fields s" and "t_indexes s' = t_indexes s"
  shows "load_spec_revision sha256 fr u s' =
    (case lookup_by (col ''spec_revision_id'') (Some (PUuid u)) (t_specs s) of
       None \<Rightarrow> Inl StateTransitionError
     | Some r \<Rightarrow> decode_dataset_spec_revision sha256 fr (if p r then g r else r) (children_of u (t_fields s))
         (children_of u (t_indexes s)))"
  unfolding load_spec_revision_def assms(2-4)
  by (subst lookup_by_update_where) (simp_all add: assms(1) split: option.splits)

lemma load_identity:
  assumes "load_spec_revision sha256 fr u s = Inr q" and "lookup_by (col ''spec_revision_id'') (Some (PUuid u)) (t_specs s) = Some r"
  shows "sr_spec_revision_id q = u" "col ''spec_id'' r = Some (PUuid (sr_spec_id q))"
    "col ''state'' r = Some (PStr (enum_text spec_revision_states (sr_state q)))"
proof -
  have u: "col ''spec_revision_id'' r = Some (PUuid u)" using lookup_by_SomeD [OF assms(2)] by simp
  from assms have "decode_dataset_spec_revision sha256 fr r (children_of u (t_fields s)) (children_of u (t_indexes s)) = Inr q"
    by (simp add: load_spec_revision_def)
  then obtain sid rid v fs xs where sid: "row_uuid r ''spec_id'' = Inr sid" and rid: "row_uuid r ''spec_revision_id'' = Inr rid"
    and v: "decode_revision_columns r sid rid fs xs = Inr v" "validate_revision sha256 fr v = Inr q"
    unfolding decode_dataset_spec_revision_def by (auto simp: rbind_Inr_iff)
  have q: "q = v" by (rule validate_revision_parts(1) [OF v(2)])
  have st: "row_enum r ''state'' spec_revision_states = Inr (sr_state v)" and ids: "sr_spec_id v = sid" "sr_spec_revision_id v = rid"
    using v(1) unfolding decode_revision_columns_def by (auto simp: rbind_Inr_iff)
  show "sr_spec_revision_id q = u" using rid u ids q by (auto simp: row_uuid_def row_value_def)
  show "col ''spec_id'' r = Some (PUuid (sr_spec_id q))"
    using sid ids q by (auto simp: row_uuid_def row_value_def rbind_Inr_iff split: option.splits py_obj.splits)
  show "col ''state'' r = Some (PStr (enum_text spec_revision_states (sr_state q)))"
    using st q by (auto simp: row_enum_def row_string_def row_value_def rbind_Inr_iff spec_revision_states_def enum_text_def
        split: option.splits py_obj.splits if_splits)
qed

section \<open>Activation\<close>

lemma activate_cases:
  assumes "activate_spec_revision sha256 fr rid now s = Inr (r, s')"
  obtains (already) row where "lookup_by (col ''spec_revision_id'') (Some (PUuid rid)) (t_specs s) = Some row"
      "col ''state'' row = Some (PStr ''ACTIVE'')" "s' = s" "load_spec_revision sha256 fr rid s = Inr r"
  | (activated) row r0 where "lookup_by (col ''spec_revision_id'') (Some (PUuid rid)) (t_specs s) = Some row"
      "col ''state'' row = Some (PStr ''DRAFT'')" "load_spec_revision sha256 fr rid s = Inr r0"
      "s' = s\<lparr>t_specs := activate_draft rid now (retire_active (col ''spec_id'' row) (t_specs s))\<rparr>"
      "constraints_ok s'" "load_spec_revision sha256 fr rid s' = Inr r"
proof -
  obtain row where row: "lookup_by (col ''spec_revision_id'') (Some (PUuid rid)) (t_specs s) = Some row"
    using assms unfolding activate_spec_revision_def
    by (cases "lookup_by (col ''spec_revision_id'') (Some (PUuid rid)) (t_specs s)") simp_all
  note act = assms [unfolded activate_spec_revision_def row, simplified]
  show thesis
  proof (cases "col ''state'' row = Some (PStr ''ACTIVE'')")
    case True
    with act show ?thesis by (intro already [OF row True]) (auto simp: rbind_Inr_iff)
  next
    case False
    let ?s1 = "s\<lparr>t_specs := retire_active (col ''spec_id'' row) (t_specs s)\<rparr>"
    from act False have draft: "col ''state'' row = Some (PStr ''DRAFT'')"
      by (simp add: rbind_Inr_iff ensure_Inr_iff)
    from act False draft obtain r0 where r0: "load_spec_revision sha256 fr rid s = Inr r0" and
      rest: "rbind (checked_specs ?s1) (\<lambda>s1.
            rbind (checked_specs (s1\<lparr>t_specs := activate_draft rid now (t_specs s1)\<rparr>)) (\<lambda>s2.
            rbind (ensure (count_where (draft_row rid) (t_specs s1) = 1) StateTransitionError) (\<lambda>_.
            rbind (load_spec_revision sha256 fr rid s2) (\<lambda>r. Inr (r, s2))))) = Inr (r, s')"
      by (auto simp: rbind_Inr_iff [of "load_spec_revision sha256 fr rid s"])
    from rest have "s' = s\<lparr>t_specs := activate_draft rid now (retire_active (col ''spec_id'' row) (t_specs s))\<rparr>"
      "constraints_ok s'" "load_spec_revision sha256 fr rid s' = Inr r"
      by (auto simp: rbind_Inr_iff checked_specs_Inr_iff)
    then show ?thesis by (rule activated [OF row draft r0])
  qed
qed

text \<open>The combined effect of the two updates on one row.\<close>

definition activation_row :: "uuid \<Rightarrow> int \<Rightarrow> py_obj option \<Rightarrow> rowmap \<Rightarrow> rowmap" where
  "activation_row rid now spec r =
     (if draft_row rid r then set_column ''activated_at'' (PInt now) (set_column ''state'' (PStr ''ACTIVE'') r)
      else if col ''spec_id'' r = spec \<and> col ''state'' r = Some (PStr ''ACTIVE'') then set_column ''state'' (PStr ''RETIRED'') r
      else r)"

lemma activation_rows:
  "activate_draft rid now (retire_active spec t) = update_where (\<lambda>_. True) (activation_row rid now spec) t"
  unfolding activate_draft_def retire_active_def update_where_def activation_row_def
  by (auto simp: draft_row_def map_of_set_column)

lemma activation_row_id: "col ''spec_revision_id'' (activation_row rid now spec r) = col ''spec_revision_id'' r"
  by (simp add: activation_row_def map_of_set_column)

lemma state_texts: "enum_text spec_revision_states SPEC_ACTIVE = ''ACTIVE''"
  "enum_text spec_revision_states SPEC_RETIRED = ''RETIRED''" "enum_text spec_revision_states SPEC_DRAFT = ''DRAFT''"
  by (simp_all add: enum_text_def spec_revision_states_def)

lemma decode_activation_row:
  "decode_dataset_spec_revision sha256 fr (activation_row rid now spec r) fs xs =
     (if draft_row rid r then with_state SPEC_ACTIVE (decode_dataset_spec_revision sha256 fr r fs xs)
      else if col ''spec_id'' r = spec \<and> col ''state'' r = Some (PStr ''ACTIVE'')
      then with_state SPEC_RETIRED (decode_dataset_spec_revision sha256 fr r fs xs)
      else decode_dataset_spec_revision sha256 fr r fs xs)"
  using decode_changed_state [of r SPEC_DRAFT sha256 fr SPEC_ACTIVE fs xs]
    decode_changed_state [of r SPEC_ACTIVE sha256 fr SPEC_RETIRED fs xs]
  unfolding activation_row_def by (simp add: decode_activated_at state_texts draft_row_def)

text \<open>What a revision of the database becomes when a revision of a specification is activated.\<close>

definition activation_view :: "dataset_spec_revision \<Rightarrow> dataset_spec_revision \<Rightarrow> dataset_spec_revision" where
  "activation_view r q =
     (if sr_spec_revision_id q = sr_spec_revision_id r then r
      else if sr_spec_id q = sr_spec_id r \<and> sr_state q = SPEC_ACTIVE then q\<lparr>sr_state := SPEC_RETIRED\<rparr> else q)"

lemma load_Inr_row:
  assumes "load_spec_revision sha256 fr u s = Inr q"
  obtains row where "lookup_by (col ''spec_revision_id'') (Some (PUuid u)) (t_specs s) = Some row"
    "col ''spec_id'' row = Some (PUuid (sr_spec_id q))"
    "col ''state'' row = Some (PStr (enum_text spec_revision_states (sr_state q)))" "sr_spec_revision_id q = u"
proof -
  obtain row where row: "lookup_by (col ''spec_revision_id'') (Some (PUuid u)) (t_specs s) = Some row"
    using assms by (cases "lookup_by (col ''spec_revision_id'') (Some (PUuid u)) (t_specs s)") (simp_all add: load_spec_revision_def)
  show thesis using that [OF row] load_identity [OF assms row] by simp
qed

lemma active_rows_unique:
  assumes "constraints_ok s" and "x \<in> set (t_specs s)" and "y \<in> set (t_specs s)" and "spec_is_active u x" and "spec_is_active u y"
  shows "x = y"
proof -
  have "unique_by (\<lambda>r. col ''state'' r = Some (PStr ''ACTIVE'')) (col ''spec_id'') (t_specs s)"
    using assms(1) by (simp add: constraints_ok_def spec_keys_def)
  from unique_byD [OF this assms(2,3)] assms(4,5) show ?thesis by (simp add: spec_is_active_def)
qed

lemma enum_state_iff: "enum_text spec_revision_states st = ''ACTIVE'' \<longleftrightarrow> st = SPEC_ACTIVE"
  "enum_text spec_revision_states st = ''DRAFT'' \<longleftrightarrow> st = SPEC_DRAFT"
  by (cases st; simp add: state_texts)+

lemma loaded_active_unique:
  assumes "constraints_ok s" and "load_spec_revision sha256 fr u s = Inr q" and "load_spec_revision sha256 fr v s = Inr r"
    and "sr_spec_id q = sr_spec_id r" and "sr_state q = SPEC_ACTIVE" and "sr_state r = SPEC_ACTIVE"
  shows "u = v"
proof -
  from load_Inr_row [OF assms(2)] obtain x where x: "lookup_by (col ''spec_revision_id'') (Some (PUuid u)) (t_specs s) = Some x"
    "spec_is_active (sr_spec_id r) x" using assms(4,5) by (auto simp: spec_is_active_def state_texts)
  from load_Inr_row [OF assms(3)] obtain y where y: "lookup_by (col ''spec_revision_id'') (Some (PUuid v)) (t_specs s) = Some y"
    "spec_is_active (sr_spec_id r) y" using assms(6) by (auto simp: spec_is_active_def state_texts)
  have "x = y"
    by (rule active_rows_unique [OF assms(1) conjunct1 [OF lookup_by_SomeD [OF x(1)]] conjunct1 [OF lookup_by_SomeD [OF y(1)]] x(2) y(2)])
  with lookup_by_SomeD [OF x(1)] lookup_by_SomeD [OF y(1)] show ?thesis by simp
qed

lemma active_revision_resolves:
  assumes "constraints_ok s" and "load_spec_revision sha256 fr rid s = Inr r" and "sr_state r = SPEC_ACTIVE"
  shows "active_spec_revision_id (sr_spec_id r) s = Inr rid"
proof -
  from load_Inr_row [OF assms(2)] obtain y where y: "lookup_by (col ''spec_revision_id'') (Some (PUuid rid)) (t_specs s) = Some y"
    "spec_is_active (sr_spec_id r) y" using assms(3) by (auto simp: spec_is_active_def state_texts)
  have mem: "y \<in> set (t_specs s)" "col ''spec_revision_id'' y = Some (PUuid rid)" using lookup_by_SomeD [OF y(1)] by simp_all
  obtain x where x: "find (spec_is_active (sr_spec_id r)) (t_specs s) = Some x"
    using mem(1) y(2) by (cases "find (spec_is_active (sr_spec_id r)) (t_specs s)") (auto simp: find_None_iff)
  then have "x \<in> set (t_specs s)" "spec_is_active (sr_spec_id r) x" by (auto simp: find_Some_iff)
  with active_rows_unique [OF assms(1) _ mem(1) _ y(2)] have "x = y" by blast
  with x mem(2) show ?thesis by (simp add: active_spec_revision_id_def)
qed

lemma activate_again:
  assumes "load_spec_revision sha256 fr rid s = Inr r" and "sr_state r = SPEC_ACTIVE"
  shows "activate_spec_revision sha256 fr rid now s = Inr (r, s)"
  by (rule load_Inr_row [OF assms(1)]) (simp add: activate_spec_revision_def assms state_texts)

lemma activation_loads:
  assumes row: "lookup_by (col ''spec_revision_id'') (Some (PUuid rid)) (t_specs s) = Some row"
    and draft: "col ''state'' row = Some (PStr ''DRAFT'')" and r0: "load_spec_revision sha256 fr rid s = Inr r0"
    and s': "s' = s\<lparr>t_specs := activate_draft rid now (retire_active (col ''spec_id'' row) (t_specs s))\<rparr>"
  shows "load_spec_revision sha256 fr u s' =
    rbind (load_spec_revision sha256 fr u s) (\<lambda>q. Inr (activation_view (r0\<lparr>sr_state := SPEC_ACTIVE\<rparr>) q))"
proof -
  note id0 = load_identity [OF r0 row]
  have eq: "load_spec_revision sha256 fr u s' =
    (case lookup_by (col ''spec_revision_id'') (Some (PUuid u)) (t_specs s) of
       None \<Rightarrow> Inl StateTransitionError
     | Some r \<Rightarrow> decode_dataset_spec_revision sha256 fr (activation_row rid now (col ''spec_id'' row) r)
         (children_of u (t_fields s)) (children_of u (t_indexes s)))"
    using load_updated [of "activation_row rid now (col ''spec_id'' row)" s' "\<lambda>_. True" s sha256 fr u]
    by (simp add: activation_row_id s' activation_rows split: option.splits)
  show ?thesis
  proof (cases "lookup_by (col ''spec_revision_id'') (Some (PUuid u)) (t_specs s)")
    case None
    then show ?thesis unfolding eq by (simp add: load_spec_revision_def)
  next
    case (Some x)
    have ux: "col ''spec_revision_id'' x = Some (PUuid u)" using lookup_by_SomeD [OF Some] by simp
    have dec: "decode_dataset_spec_revision sha256 fr x (children_of u (t_fields s)) (children_of u (t_indexes s)) =
        load_spec_revision sha256 fr u s" by (simp add: load_spec_revision_def Some)
    show ?thesis
    proof (cases "load_spec_revision sha256 fr u s")
      case (Inl e)
      then show ?thesis unfolding eq Some by (simp add: decode_activation_row dec with_state_def)
    next
      case (Inr q)
      note idq = load_identity [OF Inr Some]
      have "draft_row rid x \<longleftrightarrow> u = rid"
        using row Some draft ux by (auto simp: draft_row_def)
      then show ?thesis
      proof (cases "u = rid")
        case True
        with Inr r0 have "q = r0" by simp
        with True \<open>draft_row rid x \<longleftrightarrow> u = rid\<close> Inr show ?thesis
          unfolding eq Some by (simp add: decode_activation_row dec [unfolded True] with_state_def activation_view_def)
      next
        case False
        have act: "col ''spec_id'' x = col ''spec_id'' row \<and> col ''state'' x = Some (PStr ''ACTIVE'') \<longleftrightarrow>
            sr_spec_id q = sr_spec_id r0 \<and> sr_state q = SPEC_ACTIVE"
          unfolding idq(2,3) id0(2) by (simp add: enum_state_iff)
        have "sr_spec_revision_id q \<noteq> sr_spec_revision_id r0" using False id0(1) idq(1) by simp
        then have "activation_view (r0\<lparr>sr_state := SPEC_ACTIVE\<rparr>) q =
            (if sr_spec_id q = sr_spec_id r0 \<and> sr_state q = SPEC_ACTIVE then q\<lparr>sr_state := SPEC_RETIRED\<rparr> else q)"
          by (simp add: activation_view_def)
        with False \<open>draft_row rid x \<longleftrightarrow> u = rid\<close> Inr show ?thesis
          unfolding eq Some by (simp only: decode_activation_row act dec with_state_def option.case rbind_simps split: if_splits)
            (simp_all split: if_splits)
      qed
    qed
  qed
qed

text \<open>
  C38. A successful activation of a revision is exact and immutable. On a database that meets its
  constraints it returns the revision as it was loaded before with its state set to active and nothing
  else changed; afterwards that revision is what the specification's active revision resolves to, every
  other revision loads exactly as before except that the revision of the same specification that was
  active loads as retired, only the revision table changed, and activating again returns the same
  revision without a change.
\<close>

theorem activation_exact:
  assumes "constraints_ok s" and "activate_spec_revision sha256 float_repr rid now s = Inr (r, s')"
  shows "(\<exists>r0. load_spec_revision sha256 float_repr rid s = Inr r0 \<and> r = r0\<lparr>sr_state := SPEC_ACTIVE\<rparr>) \<and>
    active_spec_revision_id (sr_spec_id r) s' = Inr rid \<and>
    (\<forall>u. load_spec_revision sha256 float_repr u s' =
       rbind (load_spec_revision sha256 float_repr u s) (\<lambda>q. Inr (activation_view r q))) \<and>
    (\<exists>specs. s' = s\<lparr>t_specs := specs\<rparr>) \<and>
    (\<forall>later. activate_spec_revision sha256 float_repr rid later s' = Inr (r, s'))"
  using assms(2)
proof (cases rule: activate_cases)
  case (already row)
  have st: "sr_state r = SPEC_ACTIVE"
    using load_identity(3) [OF already(4,1)] already(2) enum_state_iff(1) [of "sr_state r"] by auto
  have view: "activation_view r q = q" if q: "load_spec_revision sha256 float_repr u s = Inr q" for u q
  proof (cases "u = rid")
    case True
    with q already(4) have "q = r" by simp
    then show ?thesis by (simp add: activation_view_def)
  next
    case False
    have "sr_spec_revision_id q = u" by (rule load_Inr_row [OF q])
    moreover have "sr_spec_revision_id r = rid" by (rule load_identity(1) [OF already(4,1)])
    moreover have "\<not> (sr_spec_id q = sr_spec_id r \<and> sr_state q = SPEC_ACTIVE)"
      using loaded_active_unique [OF assms(1) q already(4) _ _ st] False by blast
    ultimately show ?thesis using False unfolding activation_view_def by simp
  qed
  have loads: "load_spec_revision sha256 float_repr u s' =
      rbind (load_spec_revision sha256 float_repr u s) (\<lambda>q. Inr (activation_view r q))" for u
    using view [of u] unfolding already(3) by (cases "load_spec_revision sha256 float_repr u s") simp_all
  have "r = r\<lparr>sr_state := SPEC_ACTIVE\<rparr>" using st by (cases r) simp
  moreover have "s' = s\<lparr>t_specs := t_specs s\<rparr>" using already(3) by simp
  ultimately show ?thesis
    using already(4) loads active_revision_resolves [OF assms(1) already(4) st] activate_again [OF already(4) st]
    unfolding already(3) by (intro conjI exI [of _ r] exI [of _ "t_specs s"] allI) auto
next
  case (activated row r0)
  note loads = activation_loads [OF activated(1-4)]
  have "load_spec_revision sha256 float_repr rid s' = Inr (r0\<lparr>sr_state := SPEC_ACTIVE\<rparr>)"
    unfolding loads activated(3) by (simp add: activation_view_def)
  then have r: "r = r0\<lparr>sr_state := SPEC_ACTIVE\<rparr>" using activated(6) by simp
  then have st: "sr_state r = SPEC_ACTIVE" by simp
  show ?thesis
    using activated(3,4) r loads active_revision_resolves [OF activated(5,6) st] activate_again [OF activated(6) st] by blast
qed

definition draft_db :: db where
  "draft_db = stored_draft (default_revision SPEC_DRAFT (replicate 32 7)) ''default'' None empty_db"

lemma draft_db_ok: "constraints_ok draft_db"
  unfolding draft_db_def by code_simp

lemma draft_db_load:
  "load_spec_revision demo_sha256 demo_float_repr 0x101 draft_db = Inr (default_revision SPEC_DRAFT (replicate 32 7))"
proof -
  have "sr_spec_revision_id (default_revision SPEC_DRAFT (replicate 32 7)) = 0x101"
    "\<not> spec_exists (sr_spec_revision_id (default_revision SPEC_DRAFT (replicate 32 7))) (t_specs empty_db)"
    "ordered_revision (default_revision SPEC_DRAFT (replicate 32 7))"
    "float_revision (default_revision SPEC_DRAFT (replicate 32 7)) = default_revision SPEC_DRAFT (replicate 32 7)"
    by code_simp+
  with load_stored_draft [where name = "''default''" and description = None, OF empty_db_ok
      demo_default_valid [where st = SPEC_DRAFT and fr = demo_float_repr]]
  show ?thesis by (simp add: draft_db_def demo_default_valid)
qed

lemma draft_db_activates:
  "activate_spec_revision demo_sha256 demo_float_repr 0x101 5 draft_db =
     Inr (default_revision SPEC_ACTIVE (replicate 32 7),
       draft_db\<lparr>t_specs := activate_draft 0x101 5 (retire_active (Some (PUuid 1)) (t_specs draft_db))\<rparr>)"
proof -
  obtain row where row: "lookup_by (col ''spec_revision_id'') (Some (PUuid 0x101)) (t_specs draft_db) = Some row"
    "col ''spec_id'' row = Some (PUuid 1)" "col ''state'' row = Some (PStr ''DRAFT'')"
    by (rule load_Inr_row [OF draft_db_load])
      (simp add: default_revision_def default_candidate_def DEFAULT_SPEC_ID_def state_texts)
  let ?s1 = "draft_db\<lparr>t_specs := retire_active (Some (PUuid 1)) (t_specs draft_db)\<rparr>"
  let ?s2 = "draft_db\<lparr>t_specs := activate_draft 0x101 5 (retire_active (Some (PUuid 1)) (t_specs draft_db))\<rparr>"
  have ok: "constraints_ok ?s1" "constraints_ok ?s2" "singleton_roles (t_fields draft_db)"
    "count_where (draft_row 0x101) (retire_active (Some (PUuid 1)) (t_specs draft_db)) = 1"
    by code_simp+
  have "load_spec_revision demo_sha256 demo_float_repr 0x101 ?s2 = Inr (default_revision SPEC_ACTIVE (replicate 32 7))"
    using activation_loads [OF row(1,3) draft_db_load, of ?s2 5 "0x101"] row(2)
    by (simp add: draft_db_load activation_view_def default_revision_def)
  with ok row draft_db_load show ?thesis
    unfolding activate_spec_revision_def by (simp add: checked_specs_cases)
qed

theorem activation_exact_witness:
  "active_spec_revision_id 1 (draft_db\<lparr>t_specs := activate_draft 0x101 5 (retire_active (Some (PUuid 1)) (t_specs draft_db))\<rparr>) =
     Inr 0x101"
proof -
  have "sr_spec_id (default_revision SPEC_ACTIVE (replicate 32 7)) = 1"
    by (simp add: default_revision_def default_candidate_def DEFAULT_SPEC_ID_def)
  with activation_exact [OF draft_db_ok draft_db_activates] show ?thesis by simp
qed

end
