(* ===== verification/Execution_Context.thy ===== *)
theory Execution_Context
  imports Activation Lease_Safety Scenario
begin

text \<open>
  The execution context a worker loads for its claim: it exists exactly while the lease is current, and
  it carries the frozen inputs of the claimed work and of no other.
\<close>

lemma concat_map_guard: "concat (map (\<lambda>x. if P x then f x else []) xs) = concat (map f (filter P xs))"
  by (induction xs) simp_all

lemma filter_unique:
  assumes "unique_key key t" and "a \<in> set t" and "P a" and "\<And>x. x \<in> set t \<Longrightarrow> P x \<Longrightarrow> key x = key a"
  shows "filter P t = [a]"
  using assms
proof (induction t)
  case (Cons y t)
  have uk: "unique_key key t" and ny: "\<And>x. x \<in> set t \<Longrightarrow> key x \<noteq> key y" using Cons.prems(1) by (simp_all add: unique_by_Cons)
  show ?case
  proof (cases "a = y")
    case True
    have "filter P t = []" using Cons.prems(4) ny True by (auto simp: filter_empty_conv)
    with True Cons.prems(3) show ?thesis by simp
  next
    case False
    then have at: "a \<in> set t" using Cons.prems(2) by simp
    then have "\<not> P y" using Cons.prems(4) [of y] ny [OF at] by auto
    with Cons.IH [OF uk at Cons.prems(3)] Cons.prems(4) show ?thesis by simp
  qed
qed simp

lemma context_rows_none:
  assumes "\<And>w. w \<in> set (t_work s) \<Longrightarrow> \<not> lease_is_current c now s w"
  shows "context_rows c now s = []"
  using assms unfolding context_rows_def by (auto simp: concat_map_guard filter_empty_conv)

lemma context_rows_live:
  assumes ok: "constraints_ok s" and w: "w \<in> set (t_work s)" "lease_is_current c now s w"
  obtains d x r where "context_rows c now s = [(w, d, x, r)]" "d \<in> set (t_datasets s)" "d_id d = w_dataset w"
    "x \<in> set (t_snapshots s)" "s_seq x = w_seq w" "s_source x = d_source d" "r \<in> set (t_sources s)" "r_id r = d_source d"
proof -
  note keys = constraints_ok_keys [OF ok]
  have fw: "filter (lease_is_current c now s) (t_work s) = [w]"
    by (rule filter_unique [OF keys(1) w(1)], rule w(2)) (use w(2) in \<open>auto simp: lease_is_current_def\<close>)
  from ok w(1) obtain d x where d: "d \<in> set (t_datasets s)" "d_id d = w_dataset w" "d_source d = w_source w"
    and x: "x \<in> set (t_snapshots s)" "s_seq x = w_seq w" "s_source x = w_source w"
    by (auto simp: constraints_ok_def work_refs_def list_all_iff exists_where_iff)
  from ok d(1) obtain r where r: "r \<in> set (t_sources s)" "r_id r = d_source d"
    by (auto simp: constraints_ok_def dataset_refs_def list_all_iff exists_where_iff)
  have fd: "filter (\<lambda>y. d_id y = w_dataset w) (t_datasets s) = [d]"
    by (rule filter_unique [OF keys(2) d(1)]) (use d in auto)
  have fx: "filter (\<lambda>y. s_seq y = w_seq w \<and> s_source y = d_source d) (t_snapshots s) = [x]"
    by (rule filter_unique [OF keys(3) x(1)]) (use x d in auto)
  have fr: "filter (\<lambda>y. r_id y = d_source d) (t_sources s) = [r]"
    by (rule filter_unique [OF keys(5) r(1)]) (use r in auto)
  have "context_rows c now s = [(w, d, x, r)]"
    unfolding context_rows_def by (simp add: concat_map_guard fw fd fx fr)
  with d x r show ?thesis by (intro that) auto
qed

text \<open>The check constraints of the source and dataset tables cover what decoding their rows validates, but for a blank base URI.\<close>

definition source_of_row :: "source_row \<Rightarrow> iceberg_source" where
  "source_of_row r =
     \<lparr> source_id = r_id r, source_name = r_name r, spark_catalog = r_catalog r, table_namespace = r_namespace r,
       table_name = r_table r, table_uuid = r_table_uuid r, lance_base_uri = r_base_uri r, lifecycle_state = r_lifecycle r,
       default_spec_id = r_default_spec r, canonical_baseline_snapshot_id = r_baseline r,
       replay_horizon = r_replay_seconds r * 1000000 \<rparr>"

lemma stored_source_valid:
  assumes "constraints_ok s" and "r \<in> set (t_sources s)"
  shows "source_from_row r = (if is_blank (r_base_uri r) then Inl ValueError else Inr (source_of_row r))"
proof -
  have "source_check r" using assms by (simp add: constraints_ok_def source_keys_def list_all_iff)
  then show ?thesis
    by (simp add: source_check_def source_from_row_def IcebergSource_validate_def ensure_def source_of_row_def)
qed

lemma stored_route_valid:
  assumes "constraints_ok s" and "d \<in> set (t_datasets s)"
  shows "RoutingIdentity_validate (d_route d) = Inr (d_route d)"
proof -
  have "dataset_check d" using assms by (simp add: constraints_ok_def dataset_keys_def list_all_iff)
  then show ?thesis
    by (simp add: dataset_check_def RoutingIdentity_validate_def validate_routing_segment_def ensure_def)
qed

text \<open>The context of a claim, field by field, from the rows of its work, dataset, snapshot and source.\<close>

definition held_context ::
    "work_claim \<Rightarrow> work_row \<Rightarrow> dataset_row \<Rightarrow> snapshot_row \<Rightarrow> source_row \<Rightarrow> dataset_spec_revision \<Rightarrow> work_execution_context" where
  "held_context c w d x r spec =
     \<lparr>xc_claim = c, xc_identity = d_route d, xc_source_table = r_catalog r @ ''.'' @ r_namespace r @ ''.'' @ r_table r,
      xc_source = source_of_row r, xc_spec_revision = spec, xc_snapshot_id = s_snapshot x,
      xc_parent_snapshot_id = s_parent x, xc_iceberg_sequence_number = s_iceberg_seq x,
      xc_partition_spec_id = s_partition_spec x, xc_source_snapshot_kind = s_kind x,
      xc_candidate_lance_uri = w_cand_uri w, xc_candidate_lance_version = w_cand_version w,
      xc_artifact_manifest_uri = w_manifest_uri w, xc_artifact_digest = w_manifest_digest w\<rparr>"

text \<open>
  C39. The execution context is fenced, frozen and complete. On a database that meets its constraints the
  query for a claim's context never finds several rows, and it answers that there is none exactly when no
  row of work is held under the claim's current lease. While one is held, the claim gets its context
  whenever the source's base URI is not blank and the revision frozen in the work loads (otherwise exactly
  the error of the first of the two that fails): the claim itself, the routing identity of its dataset, the
  source and its table, that revision, the identifier, parent, sequence number, partition specification and
  kind of the snapshot of the work's sequence number, and the candidate and artifact recorded in the work.
\<close>

theorem execution_context_fenced:
  assumes "constraints_ok s"
  shows "(work_execution_context_of sha256 float_repr c now s = Inr None \<longleftrightarrow>
      \<not> (\<exists>w\<in>set (t_work s). lease_is_current c now s w)) \<and>
    length (context_rows c now s) \<le> 1 \<and>
    (\<forall>w\<in>set (t_work s). lease_is_current c now s w \<longrightarrow> w_id w = c_work c \<and>
      (\<exists>d\<in>set (t_datasets s). \<exists>x\<in>set (t_snapshots s). \<exists>r\<in>set (t_sources s).
         d_id d = w_dataset w \<and> d_id d = c_dataset c \<and> d_fence d = c_fence c \<and>
         s_seq x = w_seq w \<and> s_source x = d_source d \<and> r_id r = d_source d \<and>
         work_execution_context_of sha256 float_repr c now s =
           (if is_blank (r_base_uri r) then Inl ValueError
            else case load_spec_revision sha256 float_repr (w_spec w) s of
                   Inl e \<Rightarrow> Inl e
                 | Inr spec \<Rightarrow> Inr (Some (held_context c w d x r spec)))))"
proof (cases "\<exists>w\<in>set (t_work s). lease_is_current c now s w")
  case False
  then have "context_rows c now s = []" by (intro context_rows_none) blast
  with False show ?thesis by (simp add: work_execution_context_of_def)
next
  case True
  have ctx: "work_execution_context_of sha256 float_repr c now s \<noteq> Inr None" "length (context_rows c now s) \<le> 1"
  proof -
    from True obtain w where "w \<in> set (t_work s)" "lease_is_current c now s w" by blast
    from context_rows_live [OF assms this] obtain d x r where "context_rows c now s = [(w, d, x, r)]" by blast
    then show "work_execution_context_of sha256 float_repr c now s \<noteq> Inr None" "length (context_rows c now s) \<le> 1"
      by (auto simp: work_execution_context_of_def rbind_Inr_iff)
  qed
  have "w_id w = c_work c \<and> (\<exists>d\<in>set (t_datasets s). \<exists>x\<in>set (t_snapshots s). \<exists>r\<in>set (t_sources s).
         d_id d = w_dataset w \<and> d_id d = c_dataset c \<and> d_fence d = c_fence c \<and>
         s_seq x = w_seq w \<and> s_source x = d_source d \<and> r_id r = d_source d \<and>
         work_execution_context_of sha256 float_repr c now s =
           (if is_blank (r_base_uri r) then Inl ValueError
            else case load_spec_revision sha256 float_repr (w_spec w) s of
                   Inl e \<Rightarrow> Inl e
                 | Inr spec \<Rightarrow> Inr (Some (held_context c w d x r spec))))"
    if w: "w \<in> set (t_work s)" "lease_is_current c now s w" for w
  proof -
    from context_rows_live [OF assms w] obtain d x r where rows: "context_rows c now s = [(w, d, x, r)]"
      and d: "d \<in> set (t_datasets s)" "d_id d = w_dataset w"
      and x: "x \<in> set (t_snapshots s)" "s_seq x = w_seq w" "s_source x = d_source d"
      and r: "r \<in> set (t_sources s)" "r_id r = d_source d" by blast
    from w(2) obtain e where e: "e \<in> set (t_datasets s)" "d_id e = c_dataset c" "d_fence e = c_fence c"
      and wc: "w_id w = c_work c" "w_dataset w = c_dataset c"
      unfolding lease_is_current_def exists_where_iff by blast
    have "d = e" by (rule dataset_row_unique [OF assms d(1) e(1)]) (simp add: d(2) e(2) wc(2))
    then have fence: "d_id d = c_dataset c" "d_fence d = c_fence c" using e by simp_all
    have "work_execution_context_of sha256 float_repr c now s =
        (if is_blank (r_base_uri r) then Inl ValueError
         else case load_spec_revision sha256 float_repr (w_spec w) s of
                Inl e \<Rightarrow> Inl e
              | Inr spec \<Rightarrow> Inr (Some (held_context c w d x r spec)))"
      by (cases "load_spec_revision sha256 float_repr (w_spec w) s")
        (simp_all add: work_execution_context_of_def rows stored_source_valid [OF assms r(1)] stored_route_valid [OF assms d(1)]
          source_of_row_def spark_table_def held_context_def)
    with fence wc(1) d x r show ?thesis by blast
  qed
  with True ctx show ?thesis by blast
qed

text \<open>The claimed ingest of the run in \<open>Scenario\<close>, on a database that holds the default specification.\<close>

definition context_db :: db where
  "context_db = demo_db3\<lparr>t_specs := t_specs draft_db, t_fields := t_fields draft_db, t_indexes := t_indexes draft_db\<rparr>"

lemma context_db_ok: "constraints_ok context_db"
proof -
  have exists: "spec_exists 0x101 (t_specs draft_db)"
    by code_simp
  from draft_db_ok have "spec_keys (t_specs draft_db)" "field_keys (t_specs draft_db) (t_fields draft_db)"
      "index_keys (t_fields draft_db) (t_indexes draft_db)"
    by (simp_all add: constraints_ok_def)
  moreover have "constraints_ok demo_db3" by (rule demo_ok3(2))
  ultimately show ?thesis using exists
    by (simp add: constraints_ok_def context_db_def demo_db3_def dataset_refs_def snapshot_refs_def work_refs_def
        publication_refs_def pubindex_refs_def)
qed

lemma context_db_load:
  "load_spec_revision demo_sha256 demo_float_repr 0x101 context_db = Inr (default_revision SPEC_DRAFT (replicate 32 7))"
proof -
  have t: "t_specs context_db = t_specs draft_db" "t_fields context_db = t_fields draft_db" "t_indexes context_db = t_indexes draft_db"
    by (simp_all add: context_db_def)
  from draft_db_load show ?thesis unfolding load_spec_revision_def t .
qed

theorem execution_context_fenced_witness:
  "(\<exists>k. work_execution_context_of demo_sha256 demo_float_repr demo_claim 50 context_db = Inr (Some k) \<and>
      xc_claim k = demo_claim \<and> xc_spec_revision k = default_revision SPEC_DRAFT (replicate 32 7) \<and>
      xc_source_table k = ''c.n.t'') \<and>
   work_execution_context_of demo_sha256 demo_float_repr demo_claim 102 context_db = Inr None"
proof -
  note fenced = execution_context_fenced [OF context_db_ok, of demo_sha256 demo_float_repr demo_claim]
  have sources: "t_sources context_db = [demo_source_row]" by (simp add: context_db_def demo_db3_def)
  have "\<not> is_blank ''/lance''" by code_simp
  then have row: "\<not> is_blank (r_base_uri demo_source_row)" "r_catalog demo_source_row = ''c''"
    "r_namespace demo_source_row = ''n''" "r_table demo_source_row = ''t''" by (simp_all add: demo_source_row_def)
  have w: "demo_running \<in> set (t_work context_db)" "lease_is_current demo_claim 50 context_db demo_running"
    by (simp_all add: context_db_def demo_db3_def lease_is_current_def demo_claim_def)
  have gone: "\<not> (\<exists>w\<in>set (t_work context_db). lease_is_current demo_claim 102 context_db w)"
    by (simp add: context_db_def demo_db3_def lease_is_current_def demo_claim_def)
  from bspec [OF conjunct2 [OF conjunct2 [OF fenced [of 50]]] w(1)] w(2) obtain d x r where
    "r \<in> set (t_sources context_db)" "work_execution_context_of demo_sha256 demo_float_repr demo_claim 50 context_db =
     (if is_blank (r_base_uri r) then Inl ValueError
      else case load_spec_revision demo_sha256 demo_float_repr (w_spec demo_running) context_db of Inl e \<Rightarrow> Inl e
      | Inr spec \<Rightarrow> Inr (Some (held_context demo_claim demo_running d x r spec)))" by blast
  then have "work_execution_context_of demo_sha256 demo_float_repr demo_claim 50 context_db =
      Inr (Some (held_context demo_claim demo_running d x demo_source_row (default_revision SPEC_DRAFT (replicate 32 7))))"
    using row(1) by (simp add: sources context_db_load)
  moreover have "work_execution_context_of demo_sha256 demo_float_repr demo_claim 102 context_db = Inr None"
    using fenced [of 102] gone by blast
  ultimately show ?thesis using row by (simp add: held_context_def)
qed

end
