(* ===== verification/Spool.thy ===== *)
theory Spool
  imports Digest_Properties
begin

text \<open>
  The distributed source digest of \<open>reconciler/workers.py\<close>: executors encode the rows of a range
  partition into bounded chunks, each partition is written to a local file, and the driver streams the
  files in partition order into one SHA-256 state. The digest is the canonical digest of the window,
  whatever the partitioning.

  A partition is the list of its rows in the order Spark sorted them; a failing task fails the job, which
  raises \<open>SparkJobError\<close> in the driver. The spool directory is a list of named files, and the unique part
  of a file name is a parameter.
\<close>

section \<open>Chunks\<close>

definition SOURCE_DIGEST_MAX_PARTITIONS :: int where "SOURCE_DIGEST_MAX_PARTITIONS = 64"
definition SOURCE_DIGEST_PARTITION_FACTOR :: int where "SOURCE_DIGEST_PARTITION_FACTOR = 4"
definition SOURCE_DIGEST_CHUNK_BYTES :: nat where "SOURCE_DIGEST_CHUNK_BYTES = 1024 * 1024"

definition source_digest_partition_count :: "int \<Rightarrow> int" where
  "source_digest_partition_count default_parallelism =
     max 2 (min SOURCE_DIGEST_MAX_PARTITIONS (max 1 default_parallelism * SOURCE_DIGEST_PARTITION_FACTOR))"

definition encode_source_digest_record :: "bytes \<Rightarrow> int \<Rightarrow> bytes \<Rightarrow> bytes result" where
  "encode_source_digest_record record_id source_sequence event_digest =
     rbind (ensure (\<not> (source_sequence < 0 \<or> 2 ^ 63 \<le> source_sequence)) ValueError) (\<lambda>_.
     rbind (ensure (length event_digest = 32) ValueError) (\<lambda>_.
     rbind (encode_bytes record_id) (\<lambda>k. Inr (k @ pack_q source_sequence @ event_digest))))"

type_synonym digest_row = "bytes \<times> int \<times> bytes"

record digest_chunk =
  dk_partition :: nat
  dk_sequence :: nat
  dk_payload :: bytes
  dk_rows :: nat

definition chunk_output :: "nat option \<Rightarrow> nat \<Rightarrow> bytes \<Rightarrow> nat \<Rightarrow> digest_chunk result" where
  "chunk_output partition_id sequence encoded encoded_rows =
     (case partition_id of
        None \<Rightarrow> Inl RuntimeError
      | Some p \<Rightarrow>
          if encoded = [] then Inl RuntimeError
          else Inr \<lparr>dk_partition = p, dk_sequence = sequence, dk_payload = encoded, dk_rows = encoded_rows\<rparr>)"

fun encode_batches :: "nat option \<Rightarrow> nat \<Rightarrow> bytes \<Rightarrow> nat \<Rightarrow> (nat \<times> digest_row) list \<Rightarrow> digest_chunk list result" where
  "encode_batches partition_id sequence encoded encoded_rows [] =
     (if encoded = [] then Inr []
      else rbind (chunk_output partition_id sequence encoded encoded_rows) (\<lambda>c. Inr [c]))"
| "encode_batches partition_id sequence encoded encoded_rows ((current, record_id, source_sequence, event_digest) # rows) =
     rbind (ensure (partition_id = None \<or> partition_id = Some current) RuntimeError) (\<lambda>_.
     rbind (encode_source_digest_record record_id source_sequence event_digest) (\<lambda>rec.
     if encoded \<noteq> [] \<and> SOURCE_DIGEST_CHUNK_BYTES < length encoded + length rec
     then rbind (chunk_output (Some current) sequence encoded encoded_rows) (\<lambda>c.
          rbind (encode_batches (Some current) (Suc sequence) rec 1 rows) (\<lambda>cs. Inr (c # cs)))
     else encode_batches (Some current) sequence (encoded @ rec) (Suc encoded_rows) rows))"

text \<open>\<open>spark_partition_id()\<close> labels each row with the number of its partition.\<close>

definition source_digest_chunks :: "digest_row list list \<Rightarrow> int \<Rightarrow> digest_chunk list list result" where
  "source_digest_chunks parts partitions =
     rbind (ensure (\<not> partitions < 1) ValueError) (\<lambda>_.
     rmap (\<lambda>(p, rows). case encode_batches None 0 [] 0 (map (Pair p) rows) of
         Inl _ \<Rightarrow> Inl SparkJobError | Inr cs \<Rightarrow> Inr cs)
       (zip [0..<length parts] parts))"

section \<open>The spool\<close>

type_synonym spool_path = "string \<times> string"
type_synonym spool_files = "(spool_path \<times> bytes) list"
type_synonym spool_metadata = "nat \<times> spool_path \<times> nat \<times> nat"

definition pad5 :: "nat \<Rightarrow> string" where
  "pad5 n = replicate (5 - length (show_nat n)) CHR ''0'' @ show_nat n"

definition spool_path_of :: "string \<Rightarrow> (nat \<Rightarrow> string) \<Rightarrow> nat \<Rightarrow> spool_path" where
  "spool_path_of directory attempt p = (directory, ''partition-'' @ pad5 p @ ''-attempt-'' @ attempt p @ ''.digest'')"

fun write_chunks :: "nat \<Rightarrow> nat \<Rightarrow> bytes \<Rightarrow> nat \<Rightarrow> digest_chunk list \<Rightarrow> (bytes \<times> nat) result" where
  "write_chunks p expected written source_rows [] = Inr (written, source_rows)"
| "write_chunks p expected written source_rows (c # cs) =
     rbind (ensure (dk_partition c = p) RuntimeError) (\<lambda>_.
     rbind (ensure (dk_sequence c = expected) RuntimeError) (\<lambda>_.
     rbind (ensure (\<not> (dk_payload c = [] \<or> dk_rows c < 1)) RuntimeError) (\<lambda>_.
     write_chunks p (Suc expected) (written @ dk_payload c) (source_rows + dk_rows c) cs)))"

text \<open>The exclusive creation raises \<open>FileExistsError\<close>, an \<open>OSError\<close>, for a name in use.\<close>

definition spool_source_digest_partition ::
    "string \<Rightarrow> (nat \<Rightarrow> string) \<Rightarrow> nat \<Rightarrow> digest_chunk list \<Rightarrow> spool_files \<Rightarrow> (spool_metadata \<times> spool_files) result" where
  "spool_source_digest_partition directory attempt p chunks files =
     (let path = spool_path_of directory attempt p in
      rbind (ensure (map_of files path = None) OSError) (\<lambda>_.
      rbind (write_chunks p 0 [] 0 chunks) (\<lambda>(content, source_rows).
      Inr ((p, path, source_rows, length content), (path, content) # files))))"

fun spool_partitions ::
    "string \<Rightarrow> (nat \<Rightarrow> string) \<Rightarrow> nat \<Rightarrow> digest_chunk list list \<Rightarrow> spool_files \<Rightarrow> (spool_metadata list \<times> spool_files) result" where
  "spool_partitions directory attempt p [] files = Inr ([], files)"
| "spool_partitions directory attempt p (chunks # rest) files =
     rbind (spool_source_digest_partition directory attempt p chunks files) (\<lambda>(m, files1).
     rbind (spool_partitions directory attempt (Suc p) rest files1) (\<lambda>(ms, files2). Inr (m # ms, files2)))"

section \<open>The driver\<close>

text \<open>The SHA-256 state is the bytes it was updated with.\<close>

fun consume_files :: "string \<Rightarrow> spool_files \<Rightarrow> nat \<Rightarrow> bytes \<Rightarrow> nat \<Rightarrow> spool_metadata list \<Rightarrow> (bytes \<times> nat) result" where
  "consume_files root files expected hashed source_rows [] = Inr (hashed, source_rows)"
| "consume_files root files expected hashed source_rows ((p, path, partition_rows, expected_bytes) # ms) =
     rbind (ensure (p = expected) RuntimeError) (\<lambda>_.
     rbind (ensure (fst path = root) RuntimeError) (\<lambda>_.
     (case map_of files path of
        None \<Rightarrow> Inl FileNotFoundError
      | Some content \<Rightarrow>
          rbind (ensure (length content = expected_bytes) RuntimeError) (\<lambda>_.
          consume_files root files (Suc expected) (hashed @ content) (source_rows + partition_rows) ms))))"

definition consume_source_digest_spool ::
    "(bytes \<Rightarrow> bytes) \<Rightarrow> spool_files \<Rightarrow> spool_metadata list \<Rightarrow> string \<Rightarrow> nat \<Rightarrow> (bytes \<times> nat) result" where
  "consume_source_digest_spool sha256 files metadata directory expected_partitions =
     rbind (ensure (length metadata = expected_partitions) RuntimeError) (\<lambda>_.
     rbind (consume_files directory files 0 SOURCE_DIGEST_HEADER 0 (sort_key fst metadata)) (\<lambda>(hashed, source_rows).
     Inr (sha256 hashed, source_rows)))"

definition compute_spooled_source_digest ::
    "(bytes \<Rightarrow> bytes) \<Rightarrow> string \<Rightarrow> (nat \<Rightarrow> string) \<Rightarrow> digest_chunk list list \<Rightarrow> (bytes \<times> nat) result" where
  "compute_spooled_source_digest sha256 directory attempt chunks =
     (case spool_partitions directory attempt 0 chunks [] of
        Inl _ \<Rightarrow> Inl SparkJobError
      | Inr (metadata, files) \<Rightarrow> consume_source_digest_spool sha256 files metadata directory (length chunks))"

text \<open>
  The digest of the collapsed mutations. \<open>range_sort n rows\<close> is Spark's range partitioning into \<open>n\<close>
  partitions followed by the local sort.
\<close>

definition compute_source_digest ::
    "(bytes \<Rightarrow> bytes) \<Rightarrow> string \<Rightarrow> (nat \<Rightarrow> string) \<Rightarrow> (int \<Rightarrow> digest_row list \<Rightarrow> digest_row list list) \<Rightarrow> int \<Rightarrow>
     digest_row list \<Rightarrow> (bytes \<times> nat) result" where
  "compute_source_digest sha256 directory attempt range_sort default_parallelism rows =
     (let partitions = source_digest_partition_count default_parallelism in
      rbind (source_digest_chunks (range_sort partitions rows) partitions) (\<lambda>chunks.
      compute_spooled_source_digest sha256 directory attempt chunks))"

end
