(* ===== verification/Ingest_Runner.thy ===== *)
theory Ingest_Runner
  imports Spool Mutation Replay Completion Dispatch Execution_Context
begin

text \<open>
  The ingest executor of \<open>reconciler/workers.py\<close> (\<open>DistributedIngestRunner\<close>): validation of the source
  profile, projection, normalisation to terminal mutations, the conflict check, the source digest, the
  probe for an applied window, the replay-safe write of key-disjoint partitions and the completion marker.

  Spark is a parameter (\<open>spark_env\<close>): the scan of the window, the rows a \<open>limit(1)\<close> job visits, the choice
  among duplicate rows, the range and hash partitionings and the Arrow batches of a partition. A task that raises fails its job, which raises
  \<open>SparkJobError\<close> in the driver. The Lance dataset is the store of \<open>Replay\<close> and \<open>Completion\<close>; tasks of one
  job are listed in some order, and what runs beside them belongs to \<open>sg_others\<close>.
\<close>

section \<open>Source rows\<close>

datatype spark_type =
    StringType
  | TimestampType
  | FloatType
  | ArrayType spark_type
  | MapType spark_type spark_type
  | OtherType string

type_synonym spark_schema = "(string \<times> spark_type) list"

text \<open>A row of the scan; \<open>None\<close> is SQL null, a vector element is the bit pattern of its float.\<close>

record source_event =
  se_record_id :: "string option"
  se_op :: "string option"
  se_ts :: "int option"
  se_vectors :: "(string \<times> 64 word option list option) list option"
  se_texts :: "(string \<times> string option) list option"
  se_metadata :: "(string \<times> string option) list option"

definition required_source_columns :: "string list" where
  "required_source_columns =
     [''tenant_id'', ''namespace'', ''org_id'', ''record_id'', ''op'', ''ts'', ''vectors'', ''texts'', ''metadata'']"

fun is_vector_map :: "spark_type option \<Rightarrow> bool" where
  "is_vector_map (Some (MapType StringType (ArrayType FloatType))) = True"
| "is_vector_map _ = False"

fun is_string_map :: "spark_type option \<Rightarrow> bool" where
  "is_string_map (Some (MapType StringType StringType)) = True"
| "is_string_map _ = False"

definition quoted :: "string \<Rightarrow> string" where
  "quoted t = [CHR 0x27] @ t @ [CHR 0x27]"

fun joined :: "string list \<Rightarrow> string" where
  "joined [] = []"
| "joined [t] = t"
| "joined (t # ts) = t @ '', '' @ joined ts"

definition validate_source_schema :: "spark_schema \<Rightarrow> py_exc + unit" where
  "validate_source_schema schema =
     (let missing_columns = sort (filter (\<lambda>c. c \<notin> fst ` set schema) required_source_columns) in
      if missing_columns \<noteq> []
      then Inl (Exc ValueError (''source is missing required columns ['' @ joined (map quoted missing_columns) @ '']''))
      else if \<not> list_all (\<lambda>c. map_of schema c = Some StringType) [''tenant_id'', ''namespace'', ''org_id'', ''record_id'', ''op'']
      then Inl (Exc ValueError ''source routing, record_id, and op columns must be strings'')
      else if map_of schema ''ts'' \<noteq> Some TimestampType then Inl (Exc ValueError ''source ts must be a timestamp'')
      else if \<not> (is_vector_map (map_of schema ''vectors'') \<and> is_string_map (map_of schema ''texts'') \<and>
          is_string_map (map_of schema ''metadata''))
      then Inl (Exc ValueError ''source maps must match vectors<string,array<float>> and text metadata string maps'')
      else Inr ())"

section \<open>The source profile\<close>

definition element_at :: "(string \<times> 'v option) list option \<Rightarrow> string \<Rightarrow> 'v option" where
  "element_at m name = (case m of None \<Rightarrow> None | Some kvs \<Rightarrow> (case map_of kvs name of Some v \<Rightarrow> v | None \<Rightarrow> None))"

text \<open>Spark's \<open>trim\<close> removes blanks only.\<close>

definition normalized_operation :: "source_event \<Rightarrow> string option" where
  "normalized_operation e = map_option (\<lambda>t. py_lower (strip_where (\<lambda>c. c = CHR '' '') t)) (se_op e)"

definition sql_isin :: "string option \<Rightarrow> string list \<Rightarrow> sql_bool" where
  "sql_isin v vs = map_option (\<lambda>t. t \<in> set vs) v"

text \<open>
  Whether a map has a key that is not allowed. The size of a null map is null or \<open>-1\<close>, which is not above
  zero in either reading.
\<close>

definition unknown_keys :: "(string \<times> 'v) list option \<Rightarrow> string list \<Rightarrow> sql_bool" where
  "unknown_keys m allowed = map_option (\<lambda>kvs. list_ex (\<lambda>kv. fst kv \<notin> set allowed) kvs) m"

definition outside_message :: "string \<Rightarrow> dataset_spec_revision \<Rightarrow> string" where
  "outside_message name spec =
     ''source map '' @ quoted name @ '' contains fields outside spec revision '' @ uuid_str (sr_spec_revision_id spec)"

definition vector_checks :: "source_event \<Rightarrow> string \<times> int \<Rightarrow> (sql_bool \<times> string) list" where
  "vector_checks e field =
     (case field of (name, dimension) \<Rightarrow>
        let vector = element_at (se_vectors e) name;
            delete_operation = sql_isin (normalized_operation e) DELETE_OPERATIONS
        in [(sql_and (sql_not delete_operation) (Some (vector = None)),
               ''upsert is missing required vector field '' @ quoted name),
            (sql_and (Some (vector \<noteq> None)) (map_option (\<lambda>v. int (length v) \<noteq> dimension) vector),
               ''vector field '' @ quoted name @ '' does not match fixed dimension '' @ show_int dimension),
            (sql_and (Some (vector \<noteq> None))
                (map_option (list_ex (\<lambda>x. case x of None \<Rightarrow> True | Some w \<Rightarrow> \<not> isfinite w)) vector),
               ''vector field '' @ quoted name @ '' contains null or non-finite elements'')])"

definition source_profile_checks :: "dataset_spec_revision \<Rightarrow> source_event \<Rightarrow> (sql_bool \<times> string) list" where
  "source_profile_checks spec e =
     [(Some (se_ts e = None), ''source contains a null ts''),
      (sql_or (Some (se_op e = None)) (sql_not (sql_isin (normalized_operation e) (UPSERT_OPERATIONS @ DELETE_OPERATIONS))),
         ''source contains an unsupported mutation operation''),
      (unknown_keys (se_vectors e) (map fst (vector_fields spec)), outside_message ''vectors'' spec),
      (unknown_keys (se_texts e) (text_fields spec), outside_message ''texts'' spec),
      (unknown_keys (se_metadata e) (metadata_fields spec), outside_message ''metadata'' spec)] @
     concat (map (vector_checks e) (vector_fields spec))"

text \<open>
  One aggregation: for each check whether some row fails it; the first such check is raised. A check that
  is null counts as passed, and so does every check of an empty scan.
\<close>

definition failed_check :: "dataset_spec_revision \<Rightarrow> source_event list \<Rightarrow> nat \<Rightarrow> bool" where
  "failed_check spec rows i = list_ex (\<lambda>e. fst (source_profile_checks spec e ! i) = Some True) rows"

definition check_count :: "dataset_spec_revision \<Rightarrow> nat" where
  "check_count spec = 5 + 3 * length (vector_fields spec)"

definition validate_source_profile :: "dataset_spec_revision \<Rightarrow> spark_schema \<Rightarrow> source_event list \<Rightarrow> py_exc + unit" where
  "validate_source_profile spec schema rows =
     (case validate_source_schema schema of
        Inl err \<Rightarrow> Inl err
      | Inr _ \<Rightarrow>
          (case find (failed_check spec rows) [0..<check_count spec] of
             None \<Rightarrow> Inr ()
           | Some i \<Rightarrow> Inl (Exc ValueError (snd (source_profile_checks spec (hd rows) ! i)))))"

section \<open>Projection and normalisation\<close>

definition vector_value :: "64 word option list option \<Rightarrow> pyvalue" where
  "vector_value v =
     (case v of
        None \<Rightarrow> pyvalue.PNone
      | Some xs \<Rightarrow> PSequence (map (\<lambda>x. case x of None \<Rightarrow> pyvalue.PNone | Some w \<Rightarrow> pyvalue.PFloat w) xs))"

definition text_value :: "string option \<Rightarrow> pyvalue" where
  "text_value v = (case v of None \<Rightarrow> pyvalue.PNone | Some t \<Rightarrow> pyvalue.PStr t)"

definition payload_columns :: "dataset_spec_revision \<Rightarrow> source_event \<Rightarrow> (string \<times> pyvalue) list" where
  "payload_columns spec e =
     map (\<lambda>(name, _). (name, vector_value (element_at (se_vectors e) name))) (vector_fields spec) @
     map (\<lambda>name. (name, text_value (element_at (se_texts e) name))) (text_fields spec) @
     map (\<lambda>name. (name, text_value (element_at (se_metadata e) name))) (metadata_fields spec)"

definition select_profile_fields :: "dataset_spec_revision \<Rightarrow> source_event \<Rightarrow> (string \<times> pyvalue) list" where
  "select_profile_fields spec e =
     [(''record_id'', text_value (se_record_id e)), (''op'', text_value (se_op e)),
      (''ts'', case se_ts e of None \<Rightarrow> pyvalue.PNone | Some t \<Rightarrow> PDatetime (Some t))] @ payload_columns spec e"

definition spec_payload_names :: "dataset_spec_revision \<Rightarrow> string list" where
  "spec_payload_names spec = map fst (vector_fields spec) @ text_fields spec @ metadata_fields spec"

record terminal_row =
  tr_record_id :: "string option"
  tr_ts :: int
  tr_payload :: "(string \<times> pyvalue) list"
  tr_window :: int
  tr_source :: int
  tr_digest :: bytes
  tr_deleted :: bool

text \<open>\<open>str(value)\<close> of a column that holds text or null; the text of a list is no operation and no identifier.\<close>

definition str_of :: "pyvalue option \<Rightarrow> string result" where
  "str_of v =
     (case v of
        None \<Rightarrow> Inl KeyError
      | Some pyvalue.PNone \<Rightarrow> Inr ''None''
      | Some (pyvalue.PStr t) \<Rightarrow> Inr t
      | Some _ \<Rightarrow> Inl ValueError)"

definition ts_of :: "pyvalue option \<Rightarrow> int result" where
  "ts_of v = (case v of Some (PDatetime (Some t)) \<Rightarrow> Inr t | None \<Rightarrow> Inl KeyError | Some _ \<Rightarrow> Inl AttributeError)"

definition normalize_row ::
    "(bytes \<Rightarrow> bytes) \<Rightarrow> target_key \<Rightarrow> int \<Rightarrow> int \<Rightarrow> string list \<Rightarrow> (string \<times> pyvalue) list \<Rightarrow> terminal_row result" where
  "normalize_row sha256 target window_seq source_sequence names row =
     rbind (str_of (dict_get row ''op'')) (\<lambda>op.
     rbind (normalize_operation op) (\<lambda>operation.
     rbind (ts_of (dict_get row ''ts'')) (\<lambda>ts.
     let payload = map (\<lambda>name. (name, case dict_get row name of None \<Rightarrow> pyvalue.PNone | Some v \<Rightarrow> v)) names in
     rbind (str_of (dict_get row ''record_id'')) (\<lambda>record_id.
     rbind (canonical_event_digest sha256 target record_id operation (Some ts) (map (map_prod KStr id) payload)) (\<lambda>digest.
     let deleted = operation = ''delete'' in
     Inr \<lparr>tr_record_id = (case dict_get row ''record_id'' of Some (pyvalue.PStr t) \<Rightarrow> Some t | _ \<Rightarrow> None),
       tr_ts = ts, tr_payload = map (\<lambda>(name, v). (name, if deleted then pyvalue.PNone else v)) payload,
       tr_window = window_seq, tr_source = source_sequence, tr_digest = digest, tr_deleted = deleted\<rparr>)))))"

definition normalize_terminal ::
    "(bytes \<Rightarrow> bytes) \<Rightarrow> work_execution_context \<Rightarrow> (string \<times> pyvalue) list list \<Rightarrow> terminal_row list result" where
  "normalize_terminal sha256 context rows =
     (case rmap (normalize_row sha256
         (tenant_id (xc_identity context), namespace (xc_identity context), org_id (xc_identity context))
         (c_seq (xc_claim context)) (xc_iceberg_sequence_number context)
         (spec_payload_names (xc_spec_revision context))) rows of
        Inl _ \<Rightarrow> Inl SparkJobError
      | Inr ts \<Rightarrow> Inr ts)"

section \<open>Spark and storage\<close>

record spark_env =
  sp_scan :: "(string \<times> string) list \<Rightarrow> string \<Rightarrow> target_key \<Rightarrow> py_exc + (spark_schema \<times> source_event list)"
  sp_limit :: "((string \<times> pyvalue) list \<Rightarrow> bool) \<Rightarrow> (string \<times> pyvalue) list list \<Rightarrow> (string \<times> pyvalue) list list"
  sp_drop_duplicates :: "terminal_row list \<Rightarrow> terminal_row list"
  sp_range_sort :: "int \<Rightarrow> digest_row list \<Rightarrow> digest_row list list"
  sp_hash_parts :: "int \<Rightarrow> terminal_row list \<Rightarrow> terminal_row list list"
  sp_batches :: "terminal_row list \<Rightarrow> terminal_row list list"
  sp_parallelism :: int
  sp_directory :: string
  sp_attempt :: "nat \<Rightarrow> string"
  sp_sha256 :: "bytes \<Rightarrow> bytes"
  sp_nbytes :: "arrow_table \<Rightarrow> int \<Rightarrow> int \<Rightarrow> int"
  sp_scale :: "int \<Rightarrow> int \<Rightarrow> int \<Rightarrow> int"

record 'd storage =
  sg_lance :: "'d lance"
  sg_config :: "'d config_store"
  sg_others :: "nat \<Rightarrow> 'd option \<Rightarrow> 'd option"

text \<open>A job over one item: whatever the task raises, the driver sees a failed job.\<close>

definition job :: "('w, 'a) action \<Rightarrow> ('w, 'a) action" where
  "job task w = (case task w of (Inl _, w') \<Rightarrow> (Inl (Exc SparkJobError []), w') | (Inr x, w') \<Rightarrow> (Inr x, w'))"

text \<open>An action of the marker's world in the world of the dataset: the same clock and store.\<close>

definition on_store :: "('d cworld, 'a) action \<Rightarrow> ('d world, 'a) action" where
  "on_store act w =
     (case act \<lparr>cclock = clock w, cstore = store w\<rparr> of (r, c) \<Rightarrow> (r, \<lparr>clock = cclock c, store = cstore c\<rparr>))"

section \<open>Writing\<close>

text \<open>Opaque texts of timestamps and vectors, which the merge only copies.\<close>

definition ts_cell :: "int \<Rightarrow> cell" where
  "ts_cell t = COther (show_int t)"

fun vector_words :: "pyvalue list \<Rightarrow> bytes" where
  "vector_words [] = []"
| "vector_words (v # vs) = (case v of pyvalue.PFloat w \<Rightarrow> be_bytes 8 (unat w) | _ \<Rightarrow> []) @ vector_words vs"

text \<open>\<open>apply_fsl_cast\<close> with an explicit dimension: a value of another length becomes null.\<close>

definition apply_fsl_cast :: "int \<Rightarrow> pyvalue option \<Rightarrow> cell option" where
  "apply_fsl_cast dimension v =
     (case v of
        Some (PSequence vs) \<Rightarrow> if int (length vs) = dimension then Some (COther (hex_of_bytes (vector_words vs))) else None
      | _ \<Rightarrow> None)"

definition text_cell :: "pyvalue option \<Rightarrow> cell option" where
  "text_cell v = (case v of Some (pyvalue.PStr t) \<Rightarrow> Some (CText t) | _ \<Rightarrow> None)"

definition vector_type_name :: "int \<Rightarrow> string" where
  "vector_type_name n = ''fixed_size_list<float>['' @ show_int n @ '']''"

text \<open>\<open>persisted_arrow_schema\<close>: names and physical types in storage order.\<close>

definition persisted_arrow_schema :: "dataset_spec_revision \<Rightarrow> schema" where
  "persisted_arrow_schema spec =
     [(''record_id'', A_string), (''ts'', A_other ''timestamp[us, tz=UTC]'')] @
     map (\<lambda>(name, n). (name, A_other (vector_type_name n))) (vector_fields spec) @
     map (\<lambda>name. (name, A_string)) (text_fields spec) @
     map (\<lambda>name. (name, A_string)) (metadata_fields spec) @
     [(WINDOW_SEQUENCE_COLUMN, A_int64), (SOURCE_SEQUENCE_COLUMN, A_int64), (EVENT_DIGEST_COLUMN, A_binary 32),
      (DELETED_COLUMN, A_bool)]"

definition terminal_table :: "dataset_spec_revision \<Rightarrow> terminal_row list \<Rightarrow> arrow_table" where
  "terminal_table spec rows =
     \<lparr>num_rows = length rows, columns =
       [\<lparr>col_name = ''record_id'', col_type = A_string, col_cells = map (\<lambda>r. map_option CText (tr_record_id r)) rows\<rparr>,
        \<lparr>col_name = ''ts'', col_type = A_other ''timestamp[us, tz=UTC]'', col_cells = map (\<lambda>r. Some (ts_cell (tr_ts r))) rows\<rparr>] @
       map (\<lambda>(name, n). \<lparr>col_name = name, col_type = A_other (vector_type_name n),
          col_cells = map (\<lambda>r. apply_fsl_cast n (map_of (tr_payload r) name)) rows\<rparr>) (vector_fields spec) @
       map (\<lambda>name. \<lparr>col_name = name, col_type = A_string,
          col_cells = map (\<lambda>r. text_cell (map_of (tr_payload r) name)) rows\<rparr>) (text_fields spec @ metadata_fields spec) @
       [\<lparr>col_name = WINDOW_SEQUENCE_COLUMN, col_type = A_int64, col_cells = map (\<lambda>r. Some (CInt (tr_window r))) rows\<rparr>,
        \<lparr>col_name = SOURCE_SEQUENCE_COLUMN, col_type = A_int64, col_cells = map (\<lambda>r. Some (CInt (tr_source r))) rows\<rparr>,
        \<lparr>col_name = EVENT_DIGEST_COLUMN, col_type = A_binary 32, col_cells = map (\<lambda>r. Some (CBytes (tr_digest r))) rows\<rparr>,
        \<lparr>col_name = DELETED_COLUMN, col_type = A_bool, col_cells = map (\<lambda>r. Some (CBool (tr_deleted r))) rows\<rparr>]\<rparr>"

text \<open>
  The casts of a batch: digests of 32 bytes, vectors of the frozen dimensions, and no vector of a live row
  lost by the cast.
\<close>

definition batch_table :: "dataset_spec_revision \<Rightarrow> terminal_row list \<Rightarrow> arrow_table result" where
  "batch_table spec rows =
     rbind (ensure (list_all (\<lambda>r. length (tr_digest r) = 32) rows) ValueError) (\<lambda>_.
     rbind (rmap (\<lambda>(name, n).
         rbind (ensure (\<not> n < 1) ValueError) (\<lambda>_.
         ensure (\<not> list_ex (\<lambda>r. \<not> tr_deleted r \<and> apply_fsl_cast n (map_of (tr_payload r) name) = None) rows) ValueError))
       (vector_fields spec)) (\<lambda>_.
     Inr (terminal_table spec rows)))"

definition table_slice :: "arrow_table \<Rightarrow> int \<times> int \<Rightarrow> arrow_table" where
  "table_slice t chunk =
     (case chunk of (offset, len) \<Rightarrow>
        \<lparr>num_rows = nat len,
          columns = map (\<lambda>c. c\<lparr>col_cells := take (nat len) (drop (nat offset) (col_cells c))\<rparr>) (columns t)\<rparr>)"

definition maximum_version :: "int option \<Rightarrow> int \<Rightarrow> int option" where
  "maximum_version best v = Some (max (case best of None \<Rightarrow> 0 | Some b \<Rightarrow> b) v)"

fun merge_tables ::
    "'d storage \<Rightarrow> int \<Rightarrow> arrow_table list \<Rightarrow> int option \<Rightarrow> ('d world, int option) action" where
  "merge_tables sg max_rows_per_file [] best w = (Inr best, w)"
| "merge_tables sg max_rows_per_file (t # ts) best w =
     (case replay_safe_merge (sg_lance sg) (sg_others sg) t ''record_id'' 10 max_rows_per_file w of
        (Inl e, w1) \<Rightarrow> (Inl e, w1)
      | (Inr result, w1) \<Rightarrow> merge_tables sg max_rows_per_file ts (maximum_version best (mr_version result)) w1)"

definition write_batch ::
    "spark_env \<Rightarrow> 'd storage \<Rightarrow> dataset_spec_revision \<Rightarrow> terminal_row list \<Rightarrow> int option \<Rightarrow> ('d world, int option) action" where
  "write_batch sp sg spec rows best w =
     (if rows = [] then (Inr best, w)
      else
        (case rbind (batch_table spec rows) (\<lambda>t.
            rbind (replay_table_chunks (int (num_rows t)) (sp_nbytes sp t) (sp_scale sp)
              (min (sr_merge_rows_per_chunk spec) (sr_write_rows_per_fragment spec)) (sr_merge_batch_bytes spec)) (\<lambda>chunks.
            Inr (map (table_slice t) chunks))) of
           Inl e \<Rightarrow> (Inl (Exc e []), w)
         | Inr ts \<Rightarrow> merge_tables sg (sr_write_rows_per_fragment spec) ts best w))"

fun write_batches ::
    "spark_env \<Rightarrow> 'd storage \<Rightarrow> dataset_spec_revision \<Rightarrow> terminal_row list list \<Rightarrow> int option \<Rightarrow> ('d world, int option) action" where
  "write_batches sp sg spec [] best w = (Inr best, w)"
| "write_batches sp sg spec (rows # batches) best w =
     (case write_batch sp sg spec rows best w of
        (Inl e, w1) \<Rightarrow> (Inl e, w1)
      | (Inr best1, w1) \<Rightarrow> write_batches sp sg spec batches best1 w1)"

fun write_parts ::
    "spark_env \<Rightarrow> 'd storage \<Rightarrow> dataset_spec_revision \<Rightarrow> terminal_row list list \<Rightarrow> ('d world, int list) action" where
  "write_parts sp sg spec [] w = (Inr [], w)"
| "write_parts sp sg spec (rows # parts) w =
     (case write_batches sp sg spec (sp_batches sp rows) None w of
        (Inl e, w1) \<Rightarrow> (Inl e, w1)
      | (Inr best, w1) \<Rightarrow>
          (case write_parts sp sg spec parts w1 of
             (Inl e, w2) \<Rightarrow> (Inl e, w2)
           | (Inr versions, w2) \<Rightarrow> (Inr (case best of None \<Rightarrow> versions | Some v \<Rightarrow> v # versions), w2)))"

definition write_terminal ::
    "spark_env \<Rightarrow> 'd storage \<Rightarrow> dataset_spec_revision \<Rightarrow> terminal_row list \<Rightarrow> ('d world, int list) action" where
  "write_terminal sp sg spec rows =
     job (write_parts sp sg spec (sp_hash_parts sp (sr_ingest_shuffle_partitions spec) rows))"

section \<open>The marker\<close>

definition finalize_marker ::
    "'d storage \<Rightarrow> work_execution_context \<Rightarrow> bytes \<Rightarrow> ('d world, completion_marker) action" where
  "finalize_marker sg context source_digest =
     job (on_store (finalize_completion_marker (sg_config sg) (sg_others sg) (c_seq (xc_claim context)) source_digest 10))"

definition probe_marker :: "'d storage \<Rightarrow> int \<Rightarrow> bytes \<Rightarrow> ('d cworld, completion_marker option) action" where
  "probe_marker sg window_seq source_digest w =
     (let w1 = cothers (sg_others sg) w in
      case open_dataset (sg_config sg) w1 of
        Inl e \<Rightarrow>
          if (exc_class e = FileNotFoundError \<or> is_value_error (exc_class e)) \<and> dataset_absent e then (Inr None, w1)
          else (Inl e, w1)
      | Inr d \<Rightarrow>
          (case check_marker (sg_config sg) window_seq source_digest d of
             Inl e \<Rightarrow> (Inl (Exc e []), w1)
           | Inr (marker, desired) \<Rightarrow> (Inr (if desired then marker else None), w1)))"

definition applied_completion_marker ::
    "'d storage \<Rightarrow> work_execution_context \<Rightarrow> bytes \<Rightarrow> ('d world, completion_marker option) action" where
  "applied_completion_marker sg context source_digest =
     job (on_store (probe_marker sg (c_seq (xc_claim context)) source_digest))"

section \<open>Running\<close>

definition error_result :: "result_kind \<Rightarrow> work_claim \<Rightarrow> string \<Rightarrow> string \<Rightarrow> work_result" where
  "error_result kind c ec message =
     \<lparr>wr_claim = c, wr_kind = kind, wr_data_version = None, wr_indexed_version = None, wr_row_count = None,
       wr_source_digest = None, wr_candidate_uri = None, wr_manifest_uri = None, wr_manifest_digest = None,
       wr_evidence = None, wr_error_code = Some ec, wr_error_message = Some message\<rparr>"

definition blocked_result :: "work_claim \<Rightarrow> string \<Rightarrow> string \<Rightarrow> work_result" where
  "blocked_result = error_result RESULT_BLOCKED"

definition retry_result :: "work_claim \<Rightarrow> string \<Rightarrow> string \<Rightarrow> work_result" where
  "retry_result = error_result RESULT_RETRY"

definition ingest_result :: "work_claim \<Rightarrow> int \<Rightarrow> nat \<Rightarrow> bytes \<Rightarrow> work_result" where
  "ingest_result c version source_rows source_digest =
     \<lparr>wr_claim = c, wr_kind = INGEST_SUCCEEDED, wr_data_version = Some version, wr_indexed_version = None,
       wr_row_count = Some (int source_rows), wr_source_digest = Some source_digest, wr_candidate_uri = None,
       wr_manifest_uri = None, wr_manifest_digest = None, wr_evidence = None, wr_error_code = None, wr_error_message = None\<rparr>"

fun window_kind_of :: "snapshot_kind \<Rightarrow> py_exc + window_kind" where
  "window_kind_of BASELINE = Inr WK_BASELINE"
| "window_kind_of APPEND = Inr WK_APPEND"
| "window_kind_of TRUSTED_MAINTENANCE = Inr WK_TRUSTED_MAINTENANCE"
| "window_kind_of REJECTED = Inl (Exc ValueError (quoted ''REJECTED'' @ '' is not a valid WindowKind''))"

definition context_target :: "work_execution_context \<Rightarrow> target_key" where
  "context_target context =
     (tenant_id (xc_identity context), namespace (xc_identity context), org_id (xc_identity context))"

definition context_snapshot :: "work_execution_context \<Rightarrow> snapshot_record" where
  "context_snapshot context =
     \<lparr>sn_table = uuid_str (table_uuid (xc_source context)), sn_id = xc_snapshot_id context,
       sn_parent = xc_parent_snapshot_id context, sn_seq = xc_iceberg_sequence_number context, sn_committed_ms = 0,
       sn_operation = ''append'', sn_spec = 0, sn_summary = []\<rparr>"

text \<open>The scan of the window, with the options of its kind.\<close>

definition scan_window :: "spark_env \<Rightarrow> work_execution_context \<Rightarrow> py_exc + (spark_schema \<times> source_event list)" where
  "scan_window sp context =
     (case window_kind_of (xc_source_snapshot_kind context) of
        Inl e \<Rightarrow> Inl e
      | Inr kind \<Rightarrow>
          (case snapshot_scan_options (context_snapshot context) kind of
             Inl e \<Rightarrow> Inl (Exc e [])
           | Inr options \<Rightarrow> sp_scan sp options (xc_source_table context) (context_target context)))"

definition profiled_rows :: "spark_env \<Rightarrow> work_execution_context \<Rightarrow> py_exc + (string \<times> pyvalue) list list" where
  "profiled_rows sp context =
     (case scan_window sp context of
        Inl e \<Rightarrow> Inl e
      | Inr (schema, rows) \<Rightarrow>
          (case validate_source_profile (xc_spec_revision context) schema rows of
             Inl e \<Rightarrow> Inl e
           | Inr _ \<Rightarrow> Inr (map (select_profile_fields (xc_spec_revision context)) rows)))"

text \<open>The exceptions that block the work instead of failing the attempt.\<close>

definition profile_violation :: "py_exc \<Rightarrow> bool" where
  "profile_violation e \<longleftrightarrow> exc_class e = AnalysisException \<or> is_value_error (exc_class e)"

definition conflicting :: "terminal_row list \<Rightarrow> bool" where
  "conflicting rows =
     list_ex (\<lambda>r. list_ex (\<lambda>q. tr_record_id q = tr_record_id r \<and> tr_digest q \<noteq> tr_digest r) rows) rows"

definition digest_rows :: "terminal_row list \<Rightarrow> digest_row list" where
  "digest_rows rows = map (\<lambda>r. (utf8 (case tr_record_id r of None \<Rightarrow> [] | Some t \<Rightarrow> t), tr_source r, tr_digest r)) rows"

definition apply_window ::
    "spark_env \<Rightarrow> 'd storage \<Rightarrow> work_execution_context \<Rightarrow> terminal_row list \<Rightarrow> ('d world, work_result) action" where
  "apply_window sp sg context collapsed w =
     (case compute_source_digest (sp_sha256 sp) (sp_directory sp) (sp_attempt sp) (sp_range_sort sp) (sp_parallelism sp)
         (digest_rows collapsed) of
        Inl e \<Rightarrow> (Inl (Exc e []), w)
      | Inr (source_digest, source_rows) \<Rightarrow>
          (case applied_completion_marker sg context source_digest w of
             (Inl e, w1) \<Rightarrow> (Inl e, w1)
           | (Inr (Some found), w1) \<Rightarrow>
               (Inr (ingest_result (xc_claim context) (cm_version found) source_rows source_digest), w1)
           | (Inr None, w1) \<Rightarrow>
               (case write_terminal sp sg (xc_spec_revision context) collapsed w1 of
                  (Inl e, w2) \<Rightarrow> (Inl e, w2)
                | (Inr versions, w2) \<Rightarrow>
                    if 0 < source_rows \<and> versions = []
                    then (Inl (Exc RuntimeError ''terminal write produced no verified executor result''), w2)
                    else
                      (case finalize_marker sg context source_digest w2 of
                         (Inl e, w3) \<Rightarrow> (Inl e, w3)
                       | (Inr marker, w3) \<Rightarrow>
                           (Inr (ingest_result (xc_claim context) (cm_version marker) source_rows source_digest), w3)))))"

text \<open>
  The driver evaluates lazily: the check for a null record identifier is a job with \<open>limit(1)\<close>, which
  normalises the rows \<open>sp_limit\<close> it visits and may stop at the first match; the conflict check is the
  first job that normalises every row.
\<close>

definition null_record :: "(string \<times> pyvalue) list \<Rightarrow> bool" where
  "null_record row = (case dict_get row ''record_id'' of Some (pyvalue.PStr t) \<Rightarrow> False | _ \<Rightarrow> True)"

definition ingest_run :: "spark_env \<Rightarrow> 'd storage \<Rightarrow> work_execution_context \<Rightarrow> ('d world, work_result) action" where
  "ingest_run sp sg context w =
     (let c = xc_claim context in
      if c_kind c \<noteq> INGEST then (Inl (Exc ValueError ''distributed ingest runner requires an INGEST claim''), w)
      else
        (case profiled_rows sp context of
           Inl e \<Rightarrow>
             if profile_violation e then (Inr (blocked_result c ''SOURCE_PROFILE_VIOLATION'' (exc_message e)), w) else (Inl e, w)
         | Inr rows \<Rightarrow>
             (case normalize_terminal (sp_sha256 sp) context (sp_limit sp null_record rows) of
                Inl e \<Rightarrow> (Inl (Exc e []), w)
              | Inr probed \<Rightarrow>
                  if list_ex (\<lambda>r. tr_record_id r = None) probed
                  then (Inr (blocked_result c ''NULL_RECORD_ID'' ''source contains a null record_id''), w)
                  else
                    (case normalize_terminal (sp_sha256 sp) context rows of
                       Inl e \<Rightarrow> (Inl (Exc e []), w)
                     | Inr terminal \<Rightarrow>
                         if conflicting terminal
                         then (Inr (blocked_result c ''SAME_SNAPSHOT_CONFLICT''
                           ''source snapshot contains distinct unordered mutations for one record_id''), w)
                         else apply_window sp sg context (sp_drop_duplicates sp terminal) w))))"

end
