(* ===== verification/Spool_Properties.thy ===== *)
theory Spool_Properties
  imports Spool
begin

text \<open>
  The spooled digest equals the canonical digest of the window for every range partitioning, and fails
  exactly when the canonical one does.
\<close>

section \<open>Records\<close>

definition row_record :: "digest_row \<Rightarrow> bytes result" where
  "row_record r = encode_source_digest_record (fst r) (fst (snd r)) (snd (snd r))"

lemma row_record_valid: "row_record r = encode_valid_row r"
  by (auto simp: row_record_def encode_source_digest_record_def encode_valid_row_def encode_source_row_def row_valid_def
      ensure_def)

lemma row_record_nonempty: "row_record r = Inr b \<Longrightarrow> b \<noteq> []"
  using encode_valid_row_nonempty [of r] by (auto simp: row_record_valid)

section \<open>Chunks\<close>

text \<open>A well-formed run of chunks of one partition, numbered from a given one on.\<close>

fun chunk_run :: "nat \<Rightarrow> nat \<Rightarrow> digest_chunk list \<Rightarrow> bool" where
  "chunk_run p n [] = True"
| "chunk_run p n (c # cs) =
     (dk_partition c = p \<and> dk_sequence c = n \<and> dk_payload c \<noteq> [] \<and> 1 \<le> dk_rows c \<and>
      (length (dk_payload c) \<le> SOURCE_DIGEST_CHUNK_BYTES \<or> dk_rows c = 1) \<and> chunk_run p (Suc n) cs)"

definition payload_of :: "digest_chunk list \<Rightarrow> bytes" where
  "payload_of cs = concat (map dk_payload cs)"

definition rows_of :: "digest_chunk list \<Rightarrow> nat" where
  "rows_of cs = sum_list (map dk_rows cs)"

text \<open>The state of the encoder between two rows.\<close>

definition encoder_state :: "nat \<Rightarrow> nat option \<Rightarrow> bytes \<Rightarrow> nat \<Rightarrow> bool" where
  "encoder_state p pid encoded n \<longleftrightarrow>
     (pid = Some p \<or> pid = None \<and> encoded = []) \<and> (encoded = [] \<longleftrightarrow> n = 0) \<and>
     (length encoded \<le> SOURCE_DIGEST_CHUNK_BYTES \<or> n = 1)"

lemma encode_batches_Inr:
  assumes "rmap row_record rows = Inr bs" and "encoder_state p pid encoded n"
  shows "\<exists>cs. encode_batches pid s encoded n (map (Pair p) rows) = Inr cs \<and> chunk_run p s cs \<and>
    payload_of cs = encoded @ concat bs \<and> rows_of cs = n + length rows"
  using assms
proof (induction rows arbitrary: pid s encoded n bs)
  case Nil
  then show ?case
    by (auto simp: encoder_state_def chunk_output_def payload_of_def rows_of_def)
next
  case (Cons r rows)
  obtain i q g where r: "r = (i, q, g)" by (cases r) auto
  from Cons.prems(1) obtain b bs' where b: "row_record r = Inr b" "rmap row_record rows = Inr bs'" "bs = b # bs'"
    by (auto simp: rbind_Inr_iff)
  have enc: "encode_source_digest_record i q g = Inr b" and ne: "b \<noteq> []"
    using b(1) row_record_nonempty [OF b(1)] by (simp_all add: row_record_def r)
  have pid: "pid = None \<or> pid = Some p" using Cons.prems(2) by (auto simp: encoder_state_def)
  show ?case
  proof (cases "encoded \<noteq> [] \<and> SOURCE_DIGEST_CHUNK_BYTES < length encoded + length b")
    case True
    have "encoder_state p (Some p) b 1" using ne by (simp add: encoder_state_def)
    from Cons.IH [OF b(2) this, of "Suc s"] obtain cs where cs: "encode_batches (Some p) (Suc s) b 1 (map (Pair p) rows) = Inr cs"
      "chunk_run p (Suc s) cs" "payload_of cs = b @ concat bs'" "rows_of cs = 1 + length rows" by blast
    have "pid = Some p" "0 < n" "length encoded \<le> SOURCE_DIGEST_CHUNK_BYTES \<or> n = 1"
      using Cons.prems(2) True by (auto simp: encoder_state_def)
    with cs True pid enc b(3) show ?thesis
      by (auto simp: r chunk_output_def payload_of_def rows_of_def)
  next
    case False
    have "encoder_state p (Some p) (encoded @ b) (Suc n)"
      using Cons.prems(2) False ne by (auto simp: encoder_state_def)
    from Cons.IH [OF b(2) this, of s] pid enc b(3) False show ?thesis by (auto simp: r)
  qed
qed

lemma encode_batches_Inl:
  assumes "rmap row_record rows = Inl e"
  shows "\<exists>e'. encode_batches pid s encoded n (map (Pair p) rows) = Inl e'"
  using assms
proof (induction rows arbitrary: pid s encoded n)
  case (Cons r rows)
  obtain i q g where r: "r = (i, q, g)" by (cases r) auto
  show ?case
  proof (cases "row_record r")
    case (Inl e')
    then show ?thesis
      by (cases "pid = None \<or> pid = Some p") (auto simp: r row_record_def ensure_def)
  next
    case (Inr b)
    with Cons.prems have e: "rmap row_record rows = Inl e" by (auto simp: rbind_def split: sum.splits)
    obtain e1 e2 where "encode_batches (Some p) (Suc s) b 1 (map (Pair p) rows) = Inl e1"
      "encode_batches (Some p) s (encoded @ b) (Suc n) (map (Pair p) rows) = Inl e2"
      using Cons.IH [OF e] by blast
    with Inr show ?thesis
      by (cases "chunk_output (Some p) s encoded n") (auto simp: r row_record_def ensure_def)
  qed
qed simp

definition encode_partition :: "nat \<times> digest_row list \<Rightarrow> digest_chunk list result" where
  "encode_partition = (\<lambda>(p, rows). case encode_batches None 0 [] 0 (map (Pair p) rows) of
      Inl _ \<Rightarrow> Inl SparkJobError | Inr cs \<Rightarrow> Inr cs)"

lemma encode_partition_Inr:
  assumes "rmap row_record rows = Inr bs"
  shows "\<exists>cs. encode_partition (p, rows) = Inr cs \<and> chunk_run p 0 cs \<and> payload_of cs = concat bs \<and> rows_of cs = length rows"
  using encode_batches_Inr [OF assms, of p None "[]" 0 0] by (auto simp: encode_partition_def encoder_state_def)

lemma encode_partition_Inl:
  assumes "rmap row_record rows = Inl e"
  shows "encode_partition (p, rows) = Inl SparkJobError"
  using encode_batches_Inl [OF assms, of None 0 "[]" 0 p] by (auto simp: encode_partition_def)

text \<open>All partitions.\<close>

fun chunk_runs :: "nat \<Rightarrow> digest_chunk list list \<Rightarrow> bool" where
  "chunk_runs p [] = True"
| "chunk_runs p (cs # css) = (chunk_run p 0 cs \<and> chunk_runs (Suc p) css)"

lemma rmap_append_Inr:
  "rmap f (xs @ ys) = Inr zs \<longleftrightarrow> (\<exists>as bs. rmap f xs = Inr as \<and> rmap f ys = Inr bs \<and> zs = as @ bs)"
  by (induction xs arbitrary: zs) (auto simp: rbind_Inr_iff)

lemma encode_partitions_Inr:
  assumes "rmap row_record (concat parts) = Inr bs"
  shows "\<exists>css. rmap encode_partition (zip [p..<p + length parts] parts) = Inr css \<and> chunk_runs p css \<and>
    length css = length parts \<and> concat (map payload_of css) = concat bs \<and> sum_list (map rows_of css) = length (concat parts)"
  using assms
proof (induction parts arbitrary: p bs)
  case (Cons rows parts)
  from Cons.prems obtain b1 b2 where b: "rmap row_record rows = Inr b1" "rmap row_record (concat parts) = Inr b2" "bs = b1 @ b2"
    by (auto simp: rmap_append_Inr)
  from encode_partition_Inr [OF b(1), of p] obtain cs where cs: "encode_partition (p, rows) = Inr cs" "chunk_run p 0 cs"
    "payload_of cs = concat b1" "rows_of cs = length rows" by blast
  from Cons.IH [OF b(2), of "Suc p"] obtain css where css: "rmap encode_partition (zip [Suc p..<Suc p + length parts] parts) = Inr css"
    "chunk_runs (Suc p) css" "length css = length parts" "concat (map payload_of css) = concat b2"
    "sum_list (map rows_of css) = length (concat parts)" by blast
  have "[p..<p + length (rows # parts)] = p # [Suc p..<Suc p + length parts]" by (subst upt_conv_Cons) simp_all
  with cs css b(3) show ?case by (intro exI [of _ "cs # css"]) simp
qed simp

lemma rmap_row_record_Inl: "(\<exists>e. rmap row_record xs = Inl e) \<longleftrightarrow> (\<exists>x\<in>set xs. \<exists>e. row_record x = Inl e)"
proof (induction xs)
  case (Cons x xs)
  then show ?case by (cases "row_record x"; cases "rmap row_record xs") auto
qed simp

lemma rmap_const_error:
  assumes "\<And>x e. x \<in> set xs \<Longrightarrow> f x = Inl e \<Longrightarrow> e = err" and "\<exists>x\<in>set xs. \<exists>e. f x = Inl e"
  shows "rmap f xs = Inl err"
  using assms
proof (induction xs)
  case (Cons x xs)
  show ?case
  proof (cases "f x")
    case (Inl e)
    with Cons.prems(1) [of x e] show ?thesis by simp
  next
    case (Inr b)
    with Cons.prems(2) have "\<exists>y\<in>set xs. \<exists>e. f y = Inl e" by auto
    moreover have "e = err" if "y \<in> set xs" "f y = Inl e" for y e
      by (rule Cons.prems(1) [of y]) (use that in simp_all)
    ultimately have "rmap f xs = Inl err" by (intro Cons.IH) blast+
    with Inr show ?thesis by simp
  qed
qed simp

lemma encode_partitions_Inl:
  assumes "rmap row_record (concat parts) = Inl e"
  shows "rmap encode_partition (zip [p..<p + length parts] parts) = Inl SparkJobError"
proof (rule rmap_const_error)
  from assms rmap_row_record_Inl obtain x e' where x: "x \<in> set (concat parts)" "row_record x = Inl e'" by blast
  then obtain rows where "rows \<in> set parts" "x \<in> set rows" by auto
  then obtain i where i: "i < length parts" "x \<in> set (parts ! i)" by (auto simp: in_set_conv_nth [of rows])
  with x obtain e'' where "rmap row_record (parts ! i) = Inl e''" using rmap_row_record_Inl by blast
  then have "encode_partition (p + i, parts ! i) = Inl SparkJobError" by (rule encode_partition_Inl)
  moreover have "(p + i, parts ! i) \<in> set (zip [p..<p + length parts] parts)"
    using i by (auto simp: set_zip intro!: exI [of _ i])
  ultimately show "\<exists>x\<in>set (zip [p..<p + length parts] parts). \<exists>e. encode_partition x = Inl e" by blast
qed (auto simp: encode_partition_def split: sum.splits)

section \<open>Files\<close>

lemma write_chunks_run:
  "chunk_run p n cs \<Longrightarrow> write_chunks p n written rows cs = Inr (written @ payload_of cs, rows + rows_of cs)"
  by (induction cs arbitrary: n written rows) (simp_all add: payload_of_def rows_of_def)

lemma replicate_prefix_eq:
  assumes "replicate a c @ xs = replicate b c @ ys" and "xs = [] \<or> hd xs \<noteq> c" and "ys = [] \<or> hd ys \<noteq> c"
  shows "xs = ys"
  using assms
proof (induction a arbitrary: b)
  case 0
  then show ?case by (cases b) auto
next
  case (Suc a)
  then show ?case by (cases b) auto
qed

lemma show_nat_hd: "0 < n \<Longrightarrow> hd (show_nat n) \<noteq> CHR ''0''"
proof (induction n rule: show_nat.induct)
  case (1 n)
  show ?case
  proof (cases "n < 10")
    case True
    then have "digit_char n \<noteq> digit_char 0" using "1.prems" digit_char_inj [of n 0] by simp
    then show ?thesis using True by (subst show_nat.simps) (simp add: digit_char_def)
  next
    case False
    then have "hd (show_nat n) = hd (show_nat (n div 10))"
      by (subst show_nat.simps) (simp add: hd_append)
    with "1.IH" [OF False] False show ?thesis by simp
  qed
qed

lemma pad5_zero: "pad5 0 = replicate 5 CHR ''0''"
  by code_simp

lemma pad5_inj: "pad5 m = pad5 n \<Longrightarrow> m = n"
proof -
  assume eq: "pad5 m = pad5 n"
  let ?core = "\<lambda>n. if n = 0 then [] else show_nat n"
  have core: "\<exists>a. pad5 n = replicate a CHR ''0'' @ ?core n" for n
    by (cases "n = 0") (simp_all add: pad5_def exI [of _ 5] pad5_zero [unfolded pad5_def] del: replicate.simps)
  obtain a b where "replicate a CHR ''0'' @ ?core m = replicate b CHR ''0'' @ ?core n" using core [of m] core [of n] eq by metis
  then have "?core m = ?core n" by (rule replicate_prefix_eq) (auto simp: show_nat_hd)
  then show "m = n" by (metis show_nat_inj show_nat_nonempty)
qed

lemma pad5_digits: "CHR ''-'' \<notin> set (pad5 n)"
  using minus_notin_show_nat by (auto simp: pad5_def)

lemma spool_path_inj: "spool_path_of directory attempt m = spool_path_of directory attempt n \<longleftrightarrow> m = n"
proof
  assume "spool_path_of directory attempt m = spool_path_of directory attempt n"
  then have "pad5 m @ CHR ''-'' # ''attempt-'' @ attempt m @ ''.digest'' = pad5 n @ CHR ''-'' # ''attempt-'' @ attempt n @ ''.digest''"
    by (simp add: spool_path_of_def)
  then have "pad5 m = pad5 n" using append_sep_eq [OF _ pad5_digits pad5_digits] by blast
  then show "m = n" by (rule pad5_inj)
qed simp

definition meta_of :: "string \<Rightarrow> (nat \<Rightarrow> string) \<Rightarrow> nat \<times> digest_chunk list \<Rightarrow> spool_metadata" where
  "meta_of directory attempt = (\<lambda>(p, cs). (p, spool_path_of directory attempt p, rows_of cs, length (payload_of cs)))"

definition file_of :: "string \<Rightarrow> (nat \<Rightarrow> string) \<Rightarrow> nat \<times> digest_chunk list \<Rightarrow> spool_path \<times> bytes" where
  "file_of directory attempt = (\<lambda>(p, cs). (spool_path_of directory attempt p, payload_of cs))"

lemma zip_upt_Cons: "zip [p..<p + length (x # xs)] (x # xs) = (p, x) # zip [Suc p..<Suc p + length xs] xs"
  by (subst upt_conv_Cons) simp_all

lemma spool_partitions_runs:
  assumes "chunk_runs p css" and "\<And>i. p \<le> i \<Longrightarrow> map_of files (spool_path_of directory attempt i) = None"
  shows "spool_partitions directory attempt p css files =
    Inr (map (meta_of directory attempt) (zip [p..<p + length css] css),
         rev (map (file_of directory attempt) (zip [p..<p + length css] css)) @ files)"
  using assms
proof (induction css arbitrary: p files)
  case (Cons cs css)
  let ?file = "(spool_path_of directory attempt p, payload_of cs)"
  have free: "map_of (?file # files) (spool_path_of directory attempt i) = None" if "Suc p \<le> i" for i
    using Cons.prems(2) [of i] that by (simp add: spool_path_inj)
  have "chunk_runs (Suc p) css" "chunk_run p 0 cs" using Cons.prems(1) by simp_all
  with Cons.IH [OF this(1), of "?file # files", OF free] Cons.prems(2) [of p] show ?case
    unfolding zip_upt_Cons
    by (simp add: spool_source_digest_partition_def Let_def write_chunks_run meta_of_def file_of_def)
qed simp

lemma consume_file:
  assumes "map_of files (spool_path_of directory attempt p) = Some (payload_of cs)"
  shows "consume_files directory files p hashed rows (meta_of directory attempt (p, cs) # ms) =
    consume_files directory files (Suc p) (hashed @ payload_of cs) (rows + rows_of cs) ms"
  using assms by (simp add: meta_of_def) (simp add: spool_path_of_def)

lemma consume_files_runs:
  assumes "\<And>x. x \<in> set (zip [p..<p + length css] css) \<Longrightarrow>
      map_of files (spool_path_of directory attempt (fst x)) = Some (payload_of (snd x))"
  shows "consume_files directory files p hashed rows (map (meta_of directory attempt) (zip [p..<p + length css] css)) =
    Inr (hashed @ concat (map payload_of css), rows + sum_list (map rows_of css))"
  using assms
proof (induction css arbitrary: p hashed rows)
  case (Cons cs css)
  have here: "map_of files (spool_path_of directory attempt p) = Some (payload_of cs)"
    using Cons.prems [of "(p, cs)"] unfolding zip_upt_Cons by simp
  have rest: "map_of files (spool_path_of directory attempt (fst x)) = Some (payload_of (snd x))"
    if "x \<in> set (zip [Suc p..<Suc p + length css] css)" for x
    using Cons.prems [of x] that unfolding zip_upt_Cons by simp
  have "consume_files directory files (Suc p) (hashed @ payload_of cs) (rows + rows_of cs)
      (map (meta_of directory attempt) (zip [Suc p..<Suc p + length css] css)) =
    Inr ((hashed @ payload_of cs) @ concat (map payload_of css), (rows + rows_of cs) + sum_list (map rows_of css))"
    by (rule Cons.IH) (rule rest)
  then show ?case
    unfolding zip_upt_Cons list.map consume_file [OF here] by (simp only: concat.simps sum_list.Cons append_assoc add.assoc)
qed simp

lemma sorted_meta: "sorted (map fst (map (meta_of directory attempt) (zip [p..<p + length css] css)))"
proof -
  have "fst (meta_of directory attempt x) = fst x" for x by (cases x) (simp add: meta_of_def)
  then have "map fst (map (meta_of directory attempt) (zip [p..<p + length css] css)) = [p..<p + length css]"
    by (simp add: comp_def)
  then show ?thesis by simp
qed

lemma sorted_sort_key_id: "sorted (map f xs) \<Longrightarrow> sort_key f xs = xs"
  by (rule sort_key_id_if_sorted)

lemma map_of_files:
  assumes "x \<in> set (zip [p..<p + length css] css)"
  shows "map_of (rev (map (file_of directory attempt) (zip [p..<p + length css] css))) (spool_path_of directory attempt (fst x)) =
    Some (payload_of (snd x))"
proof (rule map_of_is_SomeI)
  have "map fst (map (file_of directory attempt) (zip [p..<p + length css] css)) =
      map (spool_path_of directory attempt) (map fst (zip [p..<p + length css] css))"
    by (simp only: map_map) (rule map_cong, auto simp: file_of_def)
  also have "\<dots> = map (spool_path_of directory attempt) [p..<p + length css]" by simp
  also have "distinct \<dots>" by (simp add: distinct_map inj_on_def spool_path_inj)
  finally show "distinct (map fst (rev (map (file_of directory attempt) (zip [p..<p + length css] css))))"
    by (simp only: rev_map [symmetric] distinct_rev)
  show "(spool_path_of directory attempt (fst x), payload_of (snd x)) \<in>
      set (rev (map (file_of directory attempt) (zip [p..<p + length css] css)))"
    using assms by (force simp: file_of_def)
qed

lemma compute_spooled_runs:
  assumes "chunk_runs 0 css"
  shows "compute_spooled_source_digest sha256 directory attempt css =
    Inr (sha256 (SOURCE_DIGEST_HEADER @ concat (map payload_of css)), sum_list (map rows_of css))"
proof -
  have spool: "spool_partitions directory attempt 0 css [] =
    Inr (map (meta_of directory attempt) (zip [0..<0 + length css] css),
         rev (map (file_of directory attempt) (zip [0..<0 + length css] css)) @ [])"
    by (rule spool_partitions_runs [OF assms]) simp
  have "consume_files directory (rev (map (file_of directory attempt) (zip [0..<0 + length css] css))) 0 SOURCE_DIGEST_HEADER 0
      (map (meta_of directory attempt) (zip [0..<0 + length css] css)) =
    Inr (SOURCE_DIGEST_HEADER @ concat (map payload_of css), 0 + sum_list (map rows_of css))"
    by (rule consume_files_runs) (rule map_of_files)
  then show ?thesis
    unfolding compute_spooled_source_digest_def spool consume_source_digest_spool_def
    using sorted_sort_key_id [OF sorted_meta [where p = 0 and css = css and directory = directory and attempt = attempt]]
    by simp
qed

section \<open>Equivalence with the canonical digest\<close>

text \<open>
  What Spark promises of a range partitioning into \<open>n\<close> partitions followed by a local sort: the rows are
  the given ones, and in partition order their keys ascend.
\<close>

definition range_sorted :: "digest_row list \<Rightarrow> digest_row list list \<Rightarrow> bool" where
  "range_sorted rows parts \<longleftrightarrow> mset (concat parts) = mset rows \<and> sorted (map fst (concat parts))"

lemma range_sorted_concat:
  assumes "range_sorted (map utf8_row rows) parts" and "distinct (map fst rows)"
  shows "concat parts = sort_key fst (map utf8_row rows)"
proof -
  have "distinct (map fst (map utf8_row rows))"
    using assms(2) by (auto simp: distinct_map inj_on_def utf8_row_def)
  then have "sort_key fst (map utf8_row rows) = sort_key fst (concat parts)"
    using assms(1) by (intro sort_key_mset) (simp_all add: range_sorted_def)
  also have "\<dots> = concat parts" using assms(1) by (intro sort_key_id_if_sorted) (simp add: range_sorted_def)
  finally show ?thesis by simp
qed

lemma rmap_Inl_mem: "(\<forall>x\<in>set xs. f x \<noteq> Inl e') \<Longrightarrow> rmap f xs \<noteq> Inl e'"
  by (induction xs) (auto simp: rbind_Inl_iff)

lemma source_encoding_cases:
  assumes "distinct (map fst rows)"
  shows "source_encoding rows = (case rmap row_record (sort_key fst (map utf8_row rows)) of
    Inl _ \<Rightarrow> Inl ValueError | Inr bs \<Rightarrow> Inr (SOURCE_DIGEST_HEADER @ concat bs))"
proof (cases "rmap row_record (sort_key fst (map utf8_row rows))")
  case (Inr bs)
  have "row_record = encode_valid_row" by (rule ext) (rule row_record_valid)
  with Inr have enc: "rmap encode_valid_row (sort_key fst (map utf8_row rows)) = Inr bs" by simp
  have "row_valid x" if "x \<in> set (map utf8_row rows)" for x
  proof (rule ccontr)
    assume "\<not> row_valid x"
    then have "row_record x = Inl ValueError" by (simp add: row_record_valid encode_valid_row_def)
    with that have "\<exists>y\<in>set (sort_key fst (map utf8_row rows)). \<exists>e. row_record y = Inl e" by auto
    with rmap_row_record_Inl [of "sort_key fst (map utf8_row rows)"] Inr show False by simp
  qed
  then have "list_all (\<lambda>r. row_valid (utf8_row r)) rows" by (simp add: list_all_iff)
  with enc assms show ?thesis using Inr source_encoding_Inr [of rows "SOURCE_DIGEST_HEADER @ concat bs"] by simp
next
  case (Inl e)
  have "source_encoding rows \<noteq> Inr b" for b
  proof
    assume "source_encoding rows = Inr b"
    then obtain bs where "rmap encode_valid_row (sort_key fst (map utf8_row rows)) = Inr bs"
      by (auto simp: source_encoding_Inr)
    moreover have "row_record = encode_valid_row" by (rule ext) (rule row_record_valid)
    ultimately show False using Inl by simp
  qed
  then obtain e' where e': "source_encoding rows = Inl e'" by (cases "source_encoding rows") auto
  have "e' = ValueError"
  proof (rule ccontr)
    assume ne: "e' \<noteq> ValueError"
    have "encode_source_row x \<noteq> Inl e'" for x
      using ne by (auto simp: encode_source_row_def encode_bytes_def encode_length_def rbind_Inl_iff)
    then have "rmap encode_source_row xs \<noteq> Inl e'" for xs by (intro rmap_Inl_mem) blast
    with e' ne show False by (auto simp: source_encoding_def order_rows_eq rbind_Inl_iff split: if_splits)
  qed
  with e' Inl show ?thesis by simp
qed

lemma compute_source_digest_canonical:
  assumes "distinct (map fst rows)"
    and "range_sorted (map utf8_row rows) (range_sort (source_digest_partition_count n) (map utf8_row rows))"
  shows "compute_source_digest sha256 directory attempt range_sort n (map utf8_row rows) =
    (case canonical_source_digest sha256 rows of
       Inl _ \<Rightarrow> Inl SparkJobError
     | Inr digest \<Rightarrow> Inr (digest, length rows))"
proof -
  let ?parts = "range_sort (source_digest_partition_count n) (map utf8_row rows)"
  have parts: "concat ?parts = sort_key fst (map utf8_row rows)" by (rule range_sorted_concat [OF assms(2,1)])
  have positive: "\<not> source_digest_partition_count n < 1" by (simp add: source_digest_partition_count_def)
  have chunks: "source_digest_chunks ?parts (source_digest_partition_count n) =
      rmap encode_partition (zip [0..<0 + length ?parts] ?parts)"
    using positive by (simp add: source_digest_chunks_def encode_partition_def ensure_def)
  show ?thesis
  proof (cases "rmap row_record (concat ?parts)")
    case (Inl e)
    with encode_partitions_Inl [OF Inl, of 0] show ?thesis
      using source_encoding_cases [OF assms(1)] parts
      unfolding compute_source_digest_def Let_def chunks by (simp add: canonical_source_digest_def)
  next
    case (Inr bs)
    from encode_partitions_Inr [OF Inr, of 0] obtain css where css: "rmap encode_partition (zip [0..<0 + length ?parts] ?parts) = Inr css"
      "chunk_runs 0 css" "concat (map payload_of css) = concat bs" "sum_list (map rows_of css) = length (concat ?parts)" by blast
    have "length (concat ?parts) = length rows" unfolding parts by simp
    with css compute_spooled_runs [OF css(2)] Inr source_encoding_cases [OF assms(1)] parts show ?thesis
      unfolding compute_source_digest_def Let_def chunks by (simp add: canonical_source_digest_def)
  qed
qed

text \<open>
  C24. The distributed source digest is the canonical one. However Spark range-partitions and sorts the
  collapsed mutations of a window, and whatever its parallelism, chunking the partitions, spooling them to
  files and streaming the files gives exactly \<open>canonical_source_digest\<close> of the mutations with their number,
  and it fails exactly when that digest is undefined.
\<close>

theorem spooled_digest_canonical:
  assumes "distinct (map fst rows)"
    and "range_sorted (map utf8_row rows) (range_sort (source_digest_partition_count n) (map utf8_row rows))"
  shows "compute_source_digest sha256 directory attempt range_sort n (map utf8_row rows) =
    (case canonical_source_digest sha256 rows of
       Inl _ \<Rightarrow> Inl SparkJobError
     | Inr digest \<Rightarrow> Inr (digest, length rows))"
  using assms by (rule compute_source_digest_canonical)

definition halves :: "int \<Rightarrow> digest_row list \<Rightarrow> digest_row list list" where
  "halves n rows = [take 1 (sort_key fst rows), drop 1 (sort_key fst rows)]"

lemma halves_sorted: "range_sorted rows (halves n rows)"
proof -
  have "concat (halves n rows) = sort_key fst rows" unfolding halves_def by (simp only: concat.simps append_Nil2 append_take_drop_id)
  then show ?thesis by (simp add: range_sorted_def)
qed

theorem spooled_digest_canonical_witness:
  "compute_source_digest id ''/tmp/s'' (\<lambda>_. ''0-a'') halves 1
     (map utf8_row [(''b'', 7, replicate 32 1), (''a'', 6, replicate 32 2), (''c'', 5, replicate 32 3)]) =
   (case canonical_source_digest id [(''b'', 7, replicate 32 1), (''a'', 6, replicate 32 2), (''c'', 5, replicate 32 3)] of
      Inl _ \<Rightarrow> Inl SparkJobError | Inr digest \<Rightarrow> Inr (digest, 3))"
proof -
  let ?rows = "[(''b'', 7, replicate 32 1), (''a'', 6, replicate 32 2), (''c'', 5, replicate 32 3)] :: source_row_digest list"
  have "distinct (map fst ?rows)" by simp
  moreover have "range_sorted (map utf8_row ?rows) (halves (source_digest_partition_count 1) (map utf8_row ?rows))"
    by (rule halves_sorted)
  ultimately have "compute_source_digest id ''/tmp/s'' (\<lambda>_. ''0-a'') halves 1 (map utf8_row ?rows) =
      (case canonical_source_digest id ?rows of Inl _ \<Rightarrow> Inl SparkJobError | Inr digest \<Rightarrow> Inr (digest, length ?rows))"
    by (rule spooled_digest_canonical)
  moreover have "length ?rows = 3" by simp
  ultimately show ?thesis by (simp only:)
qed

end
