(* ===== verification/Ingest_Collapse.thy ===== *)
theory Ingest_Collapse
  imports Ingest_Runner Spool_Properties Mutation_Properties
begin

text \<open>
  The distributed normalisation of a window agrees with the reference collapse of \<open>etl/mutation.py\<close>: on a
  source that passes the profile, the executor computes the same terminal mutations, detects the same
  conflicts and derives the same source digest.
\<close>

section \<open>Operations\<close>

lemma strip_where_core:
  assumes "\<And>c. p c \<Longrightarrow> q c" and "\<And>c. c \<in> set (strip_where p s) \<Longrightarrow> \<not> q c" and "strip_where p s \<noteq> []"
  shows "strip_where q s = strip_where p s"
proof -
  let ?a = "dropWhile p s" and ?c = "strip_where p s"
  let ?pre = "takeWhile p s" and ?post = "rev (takeWhile p (rev ?a))"
  have "rev ?a = takeWhile p (rev ?a) @ dropWhile p (rev ?a)" by simp
  then have a: "?a = ?c @ ?post" unfolding strip_where_def by (metis rev_append rev_rev_ident)
  have pre: "dropWhile q (?pre @ ys) = dropWhile q ys" for ys
    by (rule dropWhile_append2) (auto dest: set_takeWhileD assms(1))
  have hd: "dropWhile q (?c @ ys) = ?c @ ys" for ys
    using assms(2,3) by (cases ?c) auto
  have "dropWhile q s = dropWhile q (?pre @ ?a)" by simp
  also have "\<dots> = dropWhile q ?a" by (rule pre)
  also have "\<dots> = dropWhile q (?c @ ?post)" using a by (rule arg_cong)
  also have "\<dots> = ?c @ ?post" by (rule hd)
  finally have "dropWhile q s = ?c @ ?post" .
  moreover have "dropWhile q (rev (?c @ ?post)) = rev ?c"
  proof -
    have "dropWhile q (takeWhile p (rev ?a) @ rev ?c) = dropWhile q (rev ?c)"
      by (rule dropWhile_append2) (auto dest: set_takeWhileD assms(1))
    also have "\<dots> = rev ?c" using assms(2,3) by (cases "rev ?c") auto
    finally show ?thesis by simp
  qed
  ultimately show ?thesis unfolding strip_where_def [of q] by simp
qed

lemma supported_not_space:
  assumes "py_lower t \<in> set (UPSERT_OPERATIONS @ DELETE_OPERATIONS)" and "c \<in> set t"
  shows "\<not> is_space c"
proof -
  have "lower_char c \<in> set (py_lower t)" using assms(2) by (simp add: py_lower_def)
  then have low: "97 \<le> code (lower_char c) \<and> code (lower_char c) \<le> 122"
    using assms(1) by (auto simp: UPSERT_OPERATIONS_def DELETE_OPERATIONS_def)
  show ?thesis
  proof
    assume sp: "is_space c"
    then have "lower_char c = c" by (auto simp: is_space_def lower_char_def)
    with low sp show False by (auto simp: is_space_def)
  qed
qed

lemma supported_nonempty: "py_lower t \<in> set (UPSERT_OPERATIONS @ DELETE_OPERATIONS) \<Longrightarrow> t \<noteq> []"
  by (auto simp: UPSERT_OPERATIONS_def DELETE_OPERATIONS_def py_lower_def)

lemma supported_strip:
  assumes "py_lower (strip_where (\<lambda>c. c = CHR '' '') t) \<in> set (UPSERT_OPERATIONS @ DELETE_OPERATIONS)"
  shows "py_strip t = strip_where (\<lambda>c. c = CHR '' '') t"
  unfolding py_strip_def
proof (rule strip_where_core)
  show "c = CHR '' '' \<Longrightarrow> is_space c" for c by (simp add: is_space_def)
qed (use supported_not_space [OF assms] supported_nonempty [OF assms] in auto)

lemma supported_operation:
  assumes "py_lower (strip_where (\<lambda>c. c = CHR '' '') t) \<in> set (UPSERT_OPERATIONS @ DELETE_OPERATIONS)"
  shows "normalize_operation t =
    Inr (if py_lower (strip_where (\<lambda>c. c = CHR '' '') t) \<in> set DELETE_OPERATIONS then ''delete'' else ''upsert'')"
proof -
  have disjoint: "x \<notin> set DELETE_OPERATIONS" if "x \<in> set UPSERT_OPERATIONS" for x
    using that by (auto simp: UPSERT_OPERATIONS_def DELETE_OPERATIONS_def)
  show ?thesis using assms disjoint unfolding normalize_operation_def supported_strip [OF assms] Let_def by auto
qed

section \<open>Rows that pass the profile\<close>

definition profile_ok :: "dataset_spec_revision \<Rightarrow> source_event \<Rightarrow> bool" where
  "profile_ok spec e \<longleftrightarrow> (\<forall>c\<in>set (source_profile_checks spec e). fst c \<noteq> Some True)"

lemma length_profile_checks: "length (source_profile_checks spec e) = check_count spec"
proof -
  have "length (vector_checks e f) = 3" for f by (cases f) (simp add: vector_checks_def Let_def)
  then have "length (concat (map (vector_checks e) fs)) = 3 * length fs" for fs by (induction fs) auto
  then show ?thesis by (simp add: source_profile_checks_def check_count_def)
qed

lemma validate_source_profile_Inr:
  "validate_source_profile spec schema rows = Inr () \<longleftrightarrow>
     validate_source_schema schema = Inr () \<and> (\<forall>e\<in>set rows. profile_ok spec e)"
proof -
  have "find (failed_check spec rows) [0..<check_count spec] = None \<longleftrightarrow>
      (\<forall>i<check_count spec. \<forall>e\<in>set rows. fst (source_profile_checks spec e ! i) \<noteq> Some True)"
    by (auto simp: find_None_iff failed_check_def list_ex_iff)
  also have "\<dots> \<longleftrightarrow> (\<forall>e\<in>set rows. profile_ok spec e)"
    unfolding profile_ok_def by (auto simp: all_set_conv_all_nth length_profile_checks)
  finally show ?thesis unfolding validate_source_profile_def by (auto split: sum.splits option.splits)
qed

lemma profile_ok_base:
  assumes "profile_ok spec e"
  obtains op ts where "se_op e = Some op" "se_ts e = Some ts"
    "py_lower (strip_where (\<lambda>c. c = CHR '' '') op) \<in> set (UPSERT_OPERATIONS @ DELETE_OPERATIONS)"
proof -
  from assms obtain ts where ts: "se_ts e = Some ts" by (auto simp: profile_ok_def source_profile_checks_def)
  from assms have chk: "sql_or (Some (se_op e = None)) (sql_not (sql_isin (normalized_operation e) (UPSERT_OPERATIONS @ DELETE_OPERATIONS))) \<noteq> Some True"
    by (auto simp: profile_ok_def source_profile_checks_def)
  then obtain op where op: "se_op e = Some op" by (cases "se_op e") auto
  with chk have "py_lower (strip_where (\<lambda>c. c = CHR '' '') op) \<in> set (UPSERT_OPERATIONS @ DELETE_OPERATIONS)"
    by (auto simp: sql_isin_def normalized_operation_def sql_not_def)
  with op ts show thesis by (rule that)
qed

lemma profile_ok_vector:
  assumes "profile_ok spec e" and "(name, n) \<in> set (vector_fields spec)" and "normalize_operation (the (se_op e)) \<noteq> Inr ''delete''"
  obtains v where "element_at (se_vectors e) name = Some v" "int (length v) = n"
    "\<forall>x\<in>set v. \<exists>w. x = Some w \<and> isfinite w"
proof -
  from profile_ok_base [OF assms(1)] obtain op where op: "se_op e = Some op"
    "py_lower (strip_where (\<lambda>c. c = CHR '' '') op) \<in> set (UPSERT_OPERATIONS @ DELETE_OPERATIONS)" by blast
  with assms(3) have nd: "py_lower (strip_where (\<lambda>c. c = CHR '' '') op) \<notin> set DELETE_OPERATIONS"
    using supported_operation [OF op(2)] by (auto split: if_splits)
  have "set (vector_checks e (name, n)) \<subseteq> set (source_profile_checks spec e)"
    using assms(2) by (auto simp: source_profile_checks_def)
  with assms(1) have ok: "\<forall>c\<in>set (vector_checks e (name, n)). fst c \<noteq> Some True" by (auto simp: profile_ok_def)
  then obtain v where v: "element_at (se_vectors e) name = Some v"
    using nd op by (cases "element_at (se_vectors e) name")
      (auto simp: vector_checks_def Let_def sql_isin_def normalized_operation_def sql_not_def)
  show thesis
    by (rule that [OF v]) (use ok v in \<open>auto simp: vector_checks_def Let_def list_ex_iff split: option.splits\<close>)
qed

section \<open>Normalisation is the reference terminal\<close>

definition mutation_of :: "work_execution_context \<Rightarrow> source_event \<Rightarrow> mutation_input" where
  "mutation_of context e =
     \<lparr>mi_tenant = tenant_id (xc_identity context), mi_namespace = namespace (xc_identity context),
       mi_org = org_id (xc_identity context), mi_record = (case se_record_id e of None \<Rightarrow> ''None'' | Some t \<Rightarrow> t),
       mi_operation = (case se_op e of None \<Rightarrow> ''None'' | Some t \<Rightarrow> t), mi_ts = se_ts e,
       mi_payload = map (map_prod KStr id) (payload_columns (xc_spec_revision context) e)\<rparr>"

definition row_of_terminal :: "source_event \<Rightarrow> (string \<times> pyvalue) list \<Rightarrow> terminal_mutation \<Rightarrow> terminal_row" where
  "row_of_terminal e payload t =
     \<lparr>tr_record_id = se_record_id e, tr_ts = the (se_ts e),
       tr_payload = map (\<lambda>(name, v). (name, if is_deleted t then pyvalue.PNone else v)) payload,
       tr_window = tm_window t, tr_source = tm_source t, tr_digest = tm_digest t, tr_deleted = is_deleted t\<rparr>"

text \<open>The payload columns do not shadow each other or the columns every row has.\<close>

definition columns_distinct :: "dataset_spec_revision \<Rightarrow> bool" where
  "columns_distinct spec \<longleftrightarrow> distinct ([''record_id'', ''op'', ''ts''] @ spec_payload_names spec)"

lemma payload_column_names: "map fst (payload_columns spec e) = spec_payload_names spec"
  by (simp add: payload_columns_def spec_payload_names_def comp_def case_prod_unfold)

lemma selected_names: "map fst (select_profile_fields spec e) = [''record_id'', ''op'', ''ts''] @ spec_payload_names spec"
  by (simp add: select_profile_fields_def payload_column_names)

lemma map_of_self: "distinct (map fst ps) \<Longrightarrow> map (\<lambda>k. (k, case map_of ps k of None \<Rightarrow> z | Some v \<Rightarrow> v)) (map fst ps) = ps"
proof (rule nth_equalityI)
  fix i assume d: "distinct (map fst ps)" and "i < length (map (\<lambda>k. (k, case map_of ps k of None \<Rightarrow> z | Some v \<Rightarrow> v)) (map fst ps))"
  then have i: "i < length ps" by simp
  then have "map_of ps (fst (ps ! i)) = Some (snd (ps ! i))" using d by (intro map_of_is_SomeI) simp_all
  with i show "map (\<lambda>k. (k, case map_of ps k of None \<Rightarrow> z | Some v \<Rightarrow> v)) (map fst ps) ! i = ps ! i" by simp
qed simp

lemma selected_lookup:
  assumes "columns_distinct spec"
  shows "dict_get (select_profile_fields spec e) ''op'' = Some (text_value (se_op e))"
    "dict_get (select_profile_fields spec e) ''record_id'' = Some (text_value (se_record_id e))"
    "dict_get (select_profile_fields spec e) ''ts'' = Some (case se_ts e of None \<Rightarrow> pyvalue.PNone | Some t \<Rightarrow> PDatetime (Some t))"
    "map (\<lambda>name. (name, case dict_get (select_profile_fields spec e) name of None \<Rightarrow> pyvalue.PNone | Some v \<Rightarrow> v))
       (spec_payload_names spec) = payload_columns spec e"
proof -
  have d: "distinct (map fst (select_profile_fields spec e))"
    using assms unfolding columns_distinct_def selected_names .
  note get = dict_get_distinct [OF d]
  show "dict_get (select_profile_fields spec e) ''op'' = Some (text_value (se_op e))"
    "dict_get (select_profile_fields spec e) ''record_id'' = Some (text_value (se_record_id e))"
    "dict_get (select_profile_fields spec e) ''ts'' = Some (case se_ts e of None \<Rightarrow> pyvalue.PNone | Some t \<Rightarrow> PDatetime (Some t))"
    unfolding get by (simp_all add: select_profile_fields_def)
  have dp: "distinct (map fst (payload_columns spec e))" using assms by (simp add: columns_distinct_def payload_column_names)
  have "map_of (select_profile_fields spec e) name = map_of (payload_columns spec e) name" if "name \<in> set (spec_payload_names spec)" for name
    using assms that by (auto simp: columns_distinct_def select_profile_fields_def)
  then have "map (\<lambda>name. (name, case dict_get (select_profile_fields spec e) name of None \<Rightarrow> pyvalue.PNone | Some v \<Rightarrow> v))
       (spec_payload_names spec) =
     map (\<lambda>name. (name, case map_of (payload_columns spec e) name of None \<Rightarrow> pyvalue.PNone | Some v \<Rightarrow> v)) (spec_payload_names spec)"
    unfolding get by simp
  also have "\<dots> = payload_columns spec e"
    using map_of_self [OF dp, of "pyvalue.PNone"] by (simp only: payload_column_names)
  finally show "map (\<lambda>name. (name, case dict_get (select_profile_fields spec e) name of None \<Rightarrow> pyvalue.PNone | Some v \<Rightarrow> v))
       (spec_payload_names spec) = payload_columns spec e" .
qed

lemma normalize_row_terminal:
  assumes "profile_ok (xc_spec_revision context) e" and "columns_distinct (xc_spec_revision context)"
  shows "normalize_row sha256 (context_target context) window source (spec_payload_names (xc_spec_revision context))
      (select_profile_fields (xc_spec_revision context) e) =
    rbind (terminal_of sha256 window source (mutation_of context e))
      (\<lambda>t. Inr (row_of_terminal e (payload_columns (xc_spec_revision context) e) t))"
proof -
  from profile_ok_base [OF assms(1)] obtain op ts where e: "se_op e = Some op" "se_ts e = Some ts" by blast
  have str: "str_of (Some (text_value v)) = Inr (case v of None \<Rightarrow> ''None'' | Some t \<Rightarrow> t)" for v
    by (simp add: str_of_def text_value_def split: option.splits)
  have rid: "(case Some (text_value v) of Some (pyvalue.PStr t) \<Rightarrow> Some t | _ \<Rightarrow> None) = v" for v
    by (simp add: text_value_def split: option.splits)
  show ?thesis
    unfolding normalize_row_def selected_lookup [OF assms(2)] str rid Let_def
    by (simp add: e ts_of_def terminal_of_def mutation_of_def mi_target_def context_target_def rbind_assoc row_of_terminal_def
        is_deleted_def)
qed

section \<open>The window\<close>

text \<open>
  What the model assumes of Spark: a \<open>limit(1)\<close> job that finds no match has visited every row,
  \<open>dropDuplicates\<close> keeps one row per record, a range partitioning with its local sort orders the rows by key, a hash partitioning and the Arrow batches keep the rows, and SHA-256
  has 32 bytes.
\<close>

definition spark_ok :: "spark_env \<Rightarrow> bool" where
  "spark_ok sp \<longleftrightarrow>
     (\<forall>rows. set (sp_drop_duplicates sp rows) \<subseteq> set rows \<and> distinct (map tr_record_id (sp_drop_duplicates sp rows)) \<and>
        tr_record_id ` set (sp_drop_duplicates sp rows) = tr_record_id ` set rows) \<and>
     (\<forall>p rows. set (sp_limit sp p rows) \<subseteq> set rows \<and>
        ((\<exists>r\<in>set (sp_limit sp p rows). p r) \<or> set (sp_limit sp p rows) = set rows)) \<and>
     (\<forall>n rows. 1 \<le> n \<longrightarrow> range_sorted rows (sp_range_sort sp n rows)) \<and>
     (\<forall>n rows. 1 \<le> n \<longrightarrow> mset (concat (sp_hash_parts sp n rows)) = mset rows) \<and>
     (\<forall>rows. concat (sp_batches sp rows) = rows) \<and> (\<forall>b. length (sp_sha256 sp b) = 32)"

lemma spark_okD:
  assumes "spark_ok sp"
  shows "set (sp_drop_duplicates sp rows) \<subseteq> set rows" "distinct (map tr_record_id (sp_drop_duplicates sp rows))"
    "tr_record_id ` set (sp_drop_duplicates sp rows) = tr_record_id ` set rows"
    "1 \<le> n \<Longrightarrow> range_sorted drows (sp_range_sort sp n drows)"
    "1 \<le> n \<Longrightarrow> mset (concat (sp_hash_parts sp n rows)) = mset rows"
    "concat (sp_batches sp rows) = rows" "length (sp_sha256 sp b) = 32"
    "set (sp_limit sp p srows) \<subseteq> set srows"
    "(\<exists>r\<in>set (sp_limit sp p srows). p r) \<or> set (sp_limit sp p srows) = set srows"
  using assms by (simp_all add: spark_ok_def)

definition row_triple :: "terminal_row \<Rightarrow> source_row_digest" where
  "row_triple r = (the (tr_record_id r), tr_source r, tr_digest r)"

definition mutation_triple :: "terminal_mutation \<Rightarrow> source_row_digest" where
  "mutation_triple t = (tm_record t, tm_source t, tm_digest t)"

definition reference_terminals :: "spark_env \<Rightarrow> work_execution_context \<Rightarrow> source_event list \<Rightarrow> terminal_mutation list result" where
  "reference_terminals sp context rows =
     rmap (terminal_of (sp_sha256 sp) (c_seq (xc_claim context)) (xc_iceberg_sequence_number context))
       (map (mutation_of context) rows)"

definition reference_collapse :: "spark_env \<Rightarrow> work_execution_context \<Rightarrow> source_event list \<Rightarrow> terminal_mutation list result" where
  "reference_collapse sp context rows =
     collapse_snapshot_mutations (sp_sha256 sp) (map (mutation_of context) rows) (c_seq (xc_claim context))
       (xc_iceberg_sequence_number context)"

definition paired_rows :: "work_execution_context \<Rightarrow> source_event list \<Rightarrow> terminal_mutation list \<Rightarrow> terminal_row list" where
  "paired_rows context rows us =
     map (\<lambda>(e, u). row_of_terminal e (payload_columns (xc_spec_revision context) e) u) (zip rows us)"

lemma rmap_paired:
  "rmap (\<lambda>e. rbind (f e) (\<lambda>t. Inr (g e t))) rows =
     (case rmap f rows of Inl e \<Rightarrow> Inl e | Inr us \<Rightarrow> Inr (map (\<lambda>(e, u). g e u) (zip rows us)))"
proof (induction rows)
  case (Cons e rows)
  then show ?case by (cases "f e"; cases "rmap f rows") simp_all
qed simp

lemma normalize_terminal_reference:
  assumes "\<forall>e\<in>set rows. profile_ok (xc_spec_revision context) e" and "columns_distinct (xc_spec_revision context)"
  shows "normalize_terminal (sp_sha256 sp) context (map (select_profile_fields (xc_spec_revision context)) rows) =
    (case reference_terminals sp context rows of
       Inl _ \<Rightarrow> Inl SparkJobError | Inr us \<Rightarrow> Inr (paired_rows context rows us))"
proof -
  let ?w = "c_seq (xc_claim context)" and ?s = "xc_iceberg_sequence_number context" and ?spec = "xc_spec_revision context"
  have "rmap (\<lambda>e. normalize_row (sp_sha256 sp) (context_target context) ?w ?s (spec_payload_names ?spec)
        (select_profile_fields ?spec e)) rows =
      rmap (\<lambda>e. rbind (terminal_of (sp_sha256 sp) ?w ?s (mutation_of context e))
        (\<lambda>t. Inr (row_of_terminal e (payload_columns ?spec e) t))) rows"
    by (rule rmap_cong [OF refl]) (rule normalize_row_terminal [OF bspec [OF assms(1)] assms(2)])
  then show ?thesis
    unfolding normalize_terminal_def reference_terminals_def rmap_map comp_def context_target_def [symmetric] rmap_paired paired_rows_def
    by (simp split: sum.splits)
qed

text \<open>A row and its reference terminal carry the same identity.\<close>

lemma reference_pairs:
  assumes "reference_terminals sp context rows = Inr us" and "\<forall>e\<in>set rows. se_record_id e \<noteq> None"
  shows "map row_triple (paired_rows context rows us) = map mutation_triple us"
    "\<forall>r\<in>set (paired_rows context rows us). tr_record_id r \<noteq> None"
    "\<forall>u\<in>set us. tm_target u = context_target context \<and> tm_source u = xc_iceberg_sequence_number context"
proof -
  have la: "list_all2 (\<lambda>e u. terminal_of (sp_sha256 sp) (c_seq (xc_claim context)) (xc_iceberg_sequence_number context)
      (mutation_of context e) = Inr u) rows us"
    using assms(1) by (simp add: reference_terminals_def rmap_map comp_def rmap_Inr_iff)
  then have "map row_triple (paired_rows context rows us) = map mutation_triple us \<and>
    (\<forall>r\<in>set (paired_rows context rows us). tr_record_id r \<noteq> None) \<and>
    (\<forall>u\<in>set us. tm_target u = context_target context \<and> tm_source u = xc_iceberg_sequence_number context)"
    using assms(2)
  proof (induction rows us rule: list_all2_induct)
    case (Cons e rows u us)
    then have "se_record_id e \<noteq> None" by simp
    with Cons.hyps(1) have "row_triple (row_of_terminal e (payload_columns (xc_spec_revision context) e) u) = mutation_triple u \<and>
        tr_record_id (row_of_terminal e (payload_columns (xc_spec_revision context) e) u) \<noteq> None \<and>
        tm_target u = context_target context \<and> tm_source u = xc_iceberg_sequence_number context"
      by (auto simp: terminal_of_def rbind_Inr_iff mutation_of_def mi_target_def context_target_def row_triple_def
          mutation_triple_def row_of_terminal_def)
    with Cons show ?case by (auto simp: paired_rows_def)
  qed (simp add: paired_rows_def)
  then show "map row_triple (paired_rows context rows us) = map mutation_triple us"
    "\<forall>r\<in>set (paired_rows context rows us). tr_record_id r \<noteq> None"
    "\<forall>u\<in>set us. tm_target u = context_target context \<and> tm_source u = xc_iceberg_sequence_number context" by blast+
qed

lemma single_valued_triples:
  assumes "\<forall>u\<in>set us. tm_target u = tgt"
  shows "agree us \<longleftrightarrow> (\<forall>a\<in>set (map mutation_triple us). \<forall>b\<in>set (map mutation_triple us). fst a = fst b \<longrightarrow> snd (snd a) = snd (snd b))"
proof
  assume a: "agree us"
  show "\<forall>a\<in>set (map mutation_triple us). \<forall>b\<in>set (map mutation_triple us). fst a = fst b \<longrightarrow> snd (snd a) = snd (snd b)"
  proof (intro ballI impI)
    fix x y assume "x \<in> set (map mutation_triple us)" "y \<in> set (map mutation_triple us)" and eq: "fst x = fst y"
    then obtain u v where u: "u \<in> set us" "x = mutation_triple u" and v: "v \<in> set us" "y = mutation_triple v" by auto
    with eq assms have "tm_key u = tm_key v" by (simp add: mutation_triple_def tm_key_def)
    from agreeD [OF a u(1) v(1) this] u v show "snd (snd x) = snd (snd y)" by (simp add: mutation_triple_def)
  qed
next
  assume r: "\<forall>a\<in>set (map mutation_triple us). \<forall>b\<in>set (map mutation_triple us). fst a = fst b \<longrightarrow> snd (snd a) = snd (snd b)"
  have "tm_digest u = tm_digest v" if "u \<in> set us" "v \<in> set us" "tm_key u = tm_key v" for u v
  proof -
    have "mutation_triple u \<in> set (map mutation_triple us)" "mutation_triple v \<in> set (map mutation_triple us)" using that by simp_all
    from r [rule_format, OF this] that(3) show ?thesis by (simp add: mutation_triple_def tm_key_def)
  qed
  then have "single_valued (key_digest ` set us)" unfolding single_valued_def key_digest_def image_iff by (metis prod.inject)
  then show "agree us" by (simp add: agree_def)
qed

lemma conflicting_triples:
  assumes "\<forall>r\<in>set rs. tr_record_id r \<noteq> None"
  shows "conflicting rs \<longleftrightarrow>
    \<not> (\<forall>a\<in>set (map row_triple rs). \<forall>b\<in>set (map row_triple rs). fst a = fst b \<longrightarrow> snd (snd a) = snd (snd b))"
proof -
  have "tr_record_id q = tr_record_id r \<longleftrightarrow> fst (row_triple q) = fst (row_triple r)" if "q \<in> set rs" "r \<in> set rs" for q r
  proof
    assume "fst (row_triple q) = fst (row_triple r)"
    then show "tr_record_id q = tr_record_id r"
      by (intro option.expand) (use assms that in \<open>auto simp: row_triple_def\<close>)
  qed (simp add: row_triple_def)
  then show ?thesis unfolding conflicting_def list_ex_iff by (auto simp: row_triple_def)
qed

lemma collapse_fold_error:
  assumes "rfold (collapse_row sha w s) rows d = Inl e" and "rmap (terminal_of sha w s) rows = Inr us"
  shows "e = MutationConflict"
  using assms
proof (induction rows arbitrary: d us)
  case (Cons r rows)
  from Cons.prems(2) obtain t us' where t: "terminal_of sha w s r = Inr t" "rmap (terminal_of sha w s) rows = Inr us'"
    by (auto simp: rbind_Inr_iff)
  show ?case
  proof (cases "collapse_row sha w s r d")
    case (Inl e')
    with t(1) have "e' = MutationConflict" by (auto simp: collapse_row_def split: option.splits if_splits)
    with Cons.prems(1) Inl show ?thesis by simp
  next
    case (Inr d')
    with Cons.prems(1) Cons.IH [OF _ t(2)] show ?thesis by simp
  qed
qed simp

lemma reference_collapse_error:
  assumes "reference_collapse sp context rows = Inl e" and "reference_terminals sp context rows = Inr us"
    and "seq_ok (c_seq (xc_claim context))" and "seq_ok (xc_iceberg_sequence_number context)"
  shows "e = MutationConflict"
  using assms collapse_fold_error
  by (auto simp: reference_collapse_def reference_terminals_def collapse_snapshot_mutations_def rbind_Inl_iff ensure_Inl_iff)

lemma digest_rows_triples: "\<forall>r\<in>set rs. tr_record_id r \<noteq> None \<Longrightarrow> digest_rows rs = map utf8_row (map row_triple rs)"
  by (auto simp: digest_rows_def utf8_row_def row_triple_def)

lemma distinct_same_set_mset: "distinct xs \<Longrightarrow> distinct ys \<Longrightarrow> set xs = set ys \<Longrightarrow> mset xs = mset ys"
  by (simp add: set_eq_iff_mset_eq_distinct)

lemma collapsed_triples:
  assumes "reference_terminals sp context rows = Inr us" and "reference_collapse sp context rows = Inr ts"
    and "\<forall>e\<in>set rows. se_record_id e \<noteq> None" and "spark_ok sp"
  shows "mset (map row_triple (sp_drop_duplicates sp (paired_rows context rows us))) = mset (map mutation_triple ts)"
    "distinct (map fst (map row_triple (sp_drop_duplicates sp (paired_rows context rows us))))"
proof -
  let ?rs = "paired_rows context rows us" and ?ds = "sp_drop_duplicates sp (paired_rows context rows us)"
  note pairs = reference_pairs [OF assms(1,3)] and dd = spark_okD [OF assms(4)]
  have fold: "collapse_snapshot_mutations (sp_sha256 sp) (map (mutation_of context) rows) (c_seq (xc_claim context))
       (xc_iceberg_sequence_number context) = Inr ts"
    and terms: "rmap (terminal_of (sp_sha256 sp) (c_seq (xc_claim context)) (xc_iceberg_sequence_number context))
       (map (mutation_of context) rows) = Inr us"
    using assms(1,2) by (simp_all add: reference_collapse_def reference_terminals_def)
  note mem = collapse_members [OF fold terms]
  have agree: "agree us" 
    using collapse_ok_iff [of "sp_sha256 sp" "map (mutation_of context) rows" "c_seq (xc_claim context)"
        "xc_iceberg_sequence_number context"] fold terms by simp
  have rec: "\<forall>r\<in>set ?ds. tr_record_id r \<noteq> None" using dd(1) [of ?rs] pairs(2) by blast
  have "inj_on the (tr_record_id ` set ?ds)" 
  proof (rule inj_onI)
    fix x y assume "x \<in> tr_record_id ` set ?ds" "y \<in> tr_record_id ` set ?ds" "the x = the y"
    moreover have "x \<noteq> None" "y \<noteq> None" using calculation rec by blast+
    ultimately show "x = y" by (cases x; cases y) simp_all
  qed
  then have "distinct (map the (map tr_record_id ?ds))" using dd(2) [of ?rs] by (simp add: distinct_map comp_inj_on_iff)
  then show dist: "distinct (map fst (map row_triple ?ds))" by (simp add: row_triple_def comp_def)
  have tgt: "\<forall>u\<in>set ts. tm_target u = context_target context" using mem(1) pairs(3) by auto
  have "distinct (map tm_key ts)" using mem(2) by (simp add: strict_sorted_iff)
  then have "inj_on tm_key (set ts)" "distinct ts" by (simp_all add: distinct_map)
  then have dts: "distinct (map fst (map mutation_triple ts))"
    using tgt by (auto simp: distinct_map inj_on_def tm_key_def mutation_triple_def)
  have keyed: "a \<in> set (map mutation_triple us) \<Longrightarrow> b \<in> set (map mutation_triple us) \<Longrightarrow> fst a = fst b \<Longrightarrow> a = b" for a b
  proof -
    assume "a \<in> set (map mutation_triple us)" "b \<in> set (map mutation_triple us)" and eq: "fst a = fst b"
    then obtain u v where u: "u \<in> set us" "a = mutation_triple u" and v: "v \<in> set us" "b = mutation_triple v" by auto
    with eq pairs(3) have "tm_key u = tm_key v" by (simp add: mutation_triple_def tm_key_def)
    from agreeD [OF agree u(1) v(1) this] u v eq pairs(3) show "a = b" by (simp add: mutation_triple_def)
  qed
  have sub1: "set (map row_triple ?ds) \<subseteq> set (map mutation_triple us)"
    unfolding pairs(1) [symmetric] using dd(1) [of ?rs] by (simp only: set_map image_mono)
  have sub2: "set (map mutation_triple ts) \<subseteq> set (map mutation_triple us)" using mem(1) by auto
  have "fst ` set (map row_triple ?ds) = the ` tr_record_id ` set ?rs"
    unfolding dd(3) [of ?rs, symmetric] by (simp add: image_image row_triple_def)
  also have "\<dots> = fst ` set (map row_triple ?rs)" by (simp add: image_image row_triple_def)
  also have "\<dots> = fst ` set (map mutation_triple us)" by (simp only: pairs(1))
  also have "\<dots> = snd ` tm_key ` set us" by (simp add: image_image mutation_triple_def tm_key_def)
  also have "\<dots> = fst ` set (map mutation_triple ts)"
    unfolding mem(3) [symmetric] by (simp add: image_image mutation_triple_def tm_key_def)
  finally have keys: "fst ` set (map row_triple ?ds) = fst ` set (map mutation_triple ts)" .
  have "inj_on fst (set (map mutation_triple us))" by (rule inj_onI) (rule keyed)
  from inj_on_image_eq_iff [OF this sub1 sub2] keys
  have "set (map row_triple ?ds) = set (map mutation_triple ts)" by blast
  moreover have "distinct xs" if "distinct (map fst xs)" for xs :: "source_row_digest list" using that by (simp add: distinct_map)
  note this [OF dist] this [OF dts]
  ultimately show "mset (map row_triple ?ds) = mset (map mutation_triple ts)"
    by (intro distinct_same_set_mset)
qed

section \<open>Equivalence\<close>

lemma reference_source_digest:
  assumes "\<forall>t\<in>set ts. tm_target t = tgt"
  shows "terminal_source_digest sha256 ts = canonical_source_digest sha256 (map mutation_triple ts)"
proof -
  have "set (map tm_target ts) \<subseteq> {tgt}" using assms by auto
  then have "card (set (map tm_target ts)) \<le> 1" using card_mono [of "{tgt}" "set (map tm_target ts)"] by simp
  then have "\<not> 1 < length (remdups (map tm_target ts))" by (simp add: length_remdups_card_conv)
  then show ?thesis by (simp add: terminal_source_digest_def mutation_triple_def [abs_def])
qed

lemma rmap_Inl_ex: "(\<exists>e. rmap f xs = Inl e) \<longleftrightarrow> (\<exists>x\<in>set xs. \<exists>e. f x = Inl e)"
proof (induction xs)
  case (Cons x xs)
  then show ?case by (cases "f x"; cases "rmap f xs") auto
qed simp

lemma normalized_records:
  assumes "normalize_terminal sha256 context rows = Inr ts"
  shows "list_ex (\<lambda>r. tr_record_id r = None) ts \<longleftrightarrow> (\<exists>r\<in>set rows. null_record r)"
proof -
  let ?f = "normalize_row sha256 (tenant_id (xc_identity context), namespace (xc_identity context), org_id (xc_identity context))
         (c_seq (xc_claim context)) (xc_iceberg_sequence_number context) (spec_payload_names (xc_spec_revision context))"
  have "rmap ?f rows = Inr ts" using assms by (auto simp: normalize_terminal_def split: sum.splits)
  then have "list_all2 (\<lambda>x t. ?f x = Inr t) rows ts" by (simp add: rmap_Inr_iff)
  then show ?thesis
  proof (induction rows ts rule: list_all2_induct)
    case (Cons x xs t ts)
    then have "tr_record_id t = None \<longleftrightarrow> null_record x"
      by (auto simp: normalize_row_def rbind_Inr_iff Let_def null_record_def split: option.splits pyvalue.splits)
    with Cons show ?case by simp
  qed simp
qed

lemma normalize_same_rows:
  assumes "set rows' = set rows" and "normalize_terminal sha256 context rows = Inl e"
  shows "normalize_terminal sha256 context rows' = Inl e"
proof -
  let ?f = "normalize_row sha256 (tenant_id (xc_identity context), namespace (xc_identity context), org_id (xc_identity context))
         (c_seq (xc_claim context)) (xc_iceberg_sequence_number context) (spec_payload_names (xc_spec_revision context))"
  have "\<exists>e. rmap ?f rows = Inl e" and e: "e = SparkJobError"
    using assms(2) by (auto simp: normalize_terminal_def split: sum.splits)
  then have "\<exists>e. rmap ?f rows' = Inl e" unfolding rmap_Inl_ex assms(1) by blast
  with e show ?thesis by (auto simp: normalize_terminal_def)
qed

lemma null_record_selected:
  assumes "columns_distinct spec"
  shows "null_record (select_profile_fields spec e) \<longleftrightarrow> se_record_id e = None"
  by (auto simp: null_record_def selected_lookup(2) [OF assms] text_value_def split: option.splits)

lemma ingest_run_terminal:
  assumes "spark_ok sp" and "c_kind (xc_claim context) = INGEST" and "scan_window sp context = Inr (schema, rows)"
    and "validate_source_profile (xc_spec_revision context) schema rows = Inr ()" and "columns_distinct (xc_spec_revision context)"
  shows "\<forall>e\<in>set rows. se_record_id e \<noteq> None \<Longrightarrow> ingest_run sp sg context w =
      (case reference_terminals sp context rows of
         Inl _ \<Rightarrow> (Inl (Exc SparkJobError []), w)
       | Inr us \<Rightarrow>
           if conflicting (paired_rows context rows us)
           then (Inr (blocked_result (xc_claim context) ''SAME_SNAPSHOT_CONFLICT''
             ''source snapshot contains distinct unordered mutations for one record_id''), w)
           else apply_window sp sg context (sp_drop_duplicates sp (paired_rows context rows us)) w)"
    and "\<exists>e\<in>set rows. se_record_id e = None \<Longrightarrow> ingest_run sp sg context w \<in>
      {(Inl (Exc SparkJobError []), w),
       (Inr (blocked_result (xc_claim context) ''NULL_RECORD_ID'' ''source contains a null record_id''), w)}"
proof -
  let ?sel = "map (select_profile_fields (xc_spec_revision context)) rows"
  let ?visited = "sp_limit sp null_record ?sel"
  let ?nt = "normalize_terminal (sp_sha256 sp) context"
  have "\<forall>e\<in>set rows. profile_ok (xc_spec_revision context) e"
    using assms(4) by (simp add: validate_source_profile_Inr)
  note nt = normalize_terminal_reference [OF this assms(5), of sp]
  have rows: "profiled_rows sp context = Inr ?sel" using assms(3,4) by (simp add: profiled_rows_def)
  have nulls: "(\<exists>r\<in>set ?sel. null_record r) \<longleftrightarrow> (\<exists>e\<in>set rows. se_record_id e = None)"
    by (simp add: null_record_selected [OF assms(5)])
  note lim = spark_okD(8,9) [OF assms(1), of null_record ?sel]
  have job: "e = SparkJobError" if "?nt xs = Inl e" for xs e
    using that by (auto simp: normalize_terminal_def split: sum.splits)
  show "ingest_run sp sg context w =
      (case reference_terminals sp context rows of
         Inl _ \<Rightarrow> (Inl (Exc SparkJobError []), w)
       | Inr us \<Rightarrow>
           if conflicting (paired_rows context rows us)
           then (Inr (blocked_result (xc_claim context) ''SAME_SNAPSHOT_CONFLICT''
             ''source snapshot contains distinct unordered mutations for one record_id''), w)
           else apply_window sp sg context (sp_drop_duplicates sp (paired_rows context rows us)) w)"
    if "\<forall>e\<in>set rows. se_record_id e \<noteq> None"
  proof -
    have none: "\<not> (\<exists>r\<in>set ?visited. null_record r)" and same: "set ?visited = set ?sel"
      using that nulls lim by blast+
    show ?thesis
    proof (cases "reference_terminals sp context rows")
      case (Inl e)
      then have "?nt ?sel = Inl SparkJobError" using nt by simp
      from normalize_same_rows [OF same this] Inl show ?thesis
        by (simp add: ingest_run_def Let_def assms(2) rows)
    next
      case (Inr us)
      then have sel: "?nt ?sel = Inr (paired_rows context rows us)" using nt by simp
      have "?nt ?visited \<noteq> Inl e" for e using normalize_same_rows [OF same [symmetric]] sel by fastforce
      then obtain probed where probed: "?nt ?visited = Inr probed" by (cases "?nt ?visited") auto
      have "\<not> list_ex (\<lambda>r. tr_record_id r = None) probed" using normalized_records [OF probed] none by blast
      with probed sel Inr show ?thesis by (simp add: ingest_run_def Let_def assms(2) rows)
    qed
  qed
  show "ingest_run sp sg context w \<in> {(Inl (Exc SparkJobError []), w),
       (Inr (blocked_result (xc_claim context) ''NULL_RECORD_ID'' ''source contains a null record_id''), w)}"
    if "\<exists>e\<in>set rows. se_record_id e = None"
  proof (cases "?nt ?visited")
    case (Inl e)
    with job [OF Inl] show ?thesis by (simp add: ingest_run_def Let_def assms(2) rows)
  next
    case (Inr probed)
    have "\<exists>r\<in>set ?visited. null_record r" using that nulls lim by blast
    with normalized_records [OF Inr] Inr show ?thesis by (simp add: ingest_run_def Let_def assms(2) rows)
  qed
qed

lemma profile_digest_rows:
  assumes "reference_terminals sp context rows = Inr us" and "reference_collapse sp context rows = Inr ts"
    and "\<forall>e\<in>set rows. se_record_id e \<noteq> None" and "spark_ok sp"
  shows "compute_source_digest (sp_sha256 sp) (sp_directory sp) (sp_attempt sp) (sp_range_sort sp) (sp_parallelism sp)
      (digest_rows (sp_drop_duplicates sp (paired_rows context rows us))) =
    (case terminal_source_digest (sp_sha256 sp) ts of Inl _ \<Rightarrow> Inl SparkJobError | Inr g \<Rightarrow> Inr (g, length ts))"
proof -
  let ?ds = "sp_drop_duplicates sp (paired_rows context rows us)"
  note trip = collapsed_triples [OF assms] and pairs = reference_pairs [OF assms(1,3)]
  have "\<forall>r\<in>set ?ds. tr_record_id r \<noteq> None" using spark_okD(1) [OF assms(4)] pairs(2) by blast
  then have rows: "digest_rows ?ds = map utf8_row (map row_triple ?ds)" by (rule digest_rows_triples)
  have one: "1 \<le> source_digest_partition_count n" for n by (simp add: source_digest_partition_count_def)
  have "length ts = length ?ds" using arg_cong [OF trip(1), of size] by simp
  moreover have "canonical_source_digest (sp_sha256 sp) (map row_triple ?ds) = canonical_source_digest (sp_sha256 sp) (map mutation_triple ts)"
    unfolding canonical_source_digest_def by (rule arg_cong [OF source_encoding_perm [OF trip(1)]])
  moreover have "\<forall>t\<in>set ts. tm_target t = context_target context"
    using collapse_members(1) [OF assms(2) [unfolded reference_collapse_def] assms(1) [unfolded reference_terminals_def]] pairs(3) by auto
  then have "terminal_source_digest (sp_sha256 sp) ts = canonical_source_digest (sp_sha256 sp) (map mutation_triple ts)"
    by (rule reference_source_digest)
  ultimately show ?thesis
    unfolding rows
    using compute_source_digest_canonical [OF trip(2), of "sp_range_sort sp" "sp_parallelism sp",
        OF spark_okD(4) [OF assms(4) one], of "sp_sha256 sp" "sp_directory sp" "sp_attempt sp"] by (simp only: length_map)
qed

text \<open>
  What a row of the target states: the record, sequence numbers and digest of a mutation, its event time,
  the tombstone flag, and its payload, every value of which is null when the mutation deletes the record.
\<close>

definition row_states :: "terminal_row \<Rightarrow> terminal_mutation \<Rightarrow> bool" where
  "row_states r t \<longleftrightarrow>
     tr_record_id r = Some (tm_record t) \<and> tr_window r = tm_window t \<and> tr_source r = tm_source t \<and> tr_digest r = tm_digest t \<and>
     tm_ts t = Some (tr_ts r) \<and> tr_deleted r = (tm_operation t = ''delete'') \<and>
     map (map_prod KStr id) (tr_payload r) =
       (if tm_operation t = ''delete'' then map (\<lambda>(k, _). (k, pyvalue.PNone)) (tm_payload t) else tm_payload t)"

lemma row_of_terminal_states:
  assumes "profile_ok (xc_spec_revision context) e" and "se_record_id e \<noteq> None"
    and "terminal_of sha256 window source (mutation_of context e) = Inr u"
  shows "row_states (row_of_terminal e (payload_columns (xc_spec_revision context) e) u) u"
proof -
  from profile_ok_base [OF assms(1)] obtain ts where "se_ts e = Some ts" by blast
  moreover from assms(2) obtain x where "se_record_id e = Some x" by blast
  ultimately show ?thesis
    using assms(3)
    by (auto simp: terminal_of_def rbind_Inr_iff mutation_of_def row_states_def row_of_terminal_def is_deleted_def
        comp_def case_prod_unfold map_prod_def)
qed

lemma collapsed_rows_state:
  assumes "reference_terminals sp context rows = Inr us" and "reference_collapse sp context rows = Inr ts"
    and "\<forall>e\<in>set rows. se_record_id e \<noteq> None" and "spark_ok sp" and "\<forall>e\<in>set rows. profile_ok (xc_spec_revision context) e"
    and "r \<in> set (sp_drop_duplicates sp (paired_rows context rows us))"
  shows "\<exists>e\<in>set rows. \<exists>u. \<exists>t\<in>set ts.
    terminal_of (sp_sha256 sp) (c_seq (xc_claim context)) (xc_iceberg_sequence_number context) (mutation_of context e) = Inr u \<and>
    row_states r u \<and> mutation_triple u = mutation_triple t \<and>
    (inj_on (sp_sha256 sp) (event_bytes (map (mutation_of context) rows)) \<longrightarrow> contents u = contents t)"
proof -
  let ?sha = "sp_sha256 sp" and ?w = "c_seq (xc_claim context)" and ?s = "xc_iceberg_sequence_number context"
  have terms: "rmap (terminal_of ?sha ?w ?s) (map (mutation_of context) rows) = Inr us"
    and fold: "collapse_snapshot_mutations ?sha (map (mutation_of context) rows) ?w ?s = Inr ts"
    using assms(1,2) by (simp_all add: reference_collapse_def reference_terminals_def)
  have la: "list_all2 (\<lambda>e u. terminal_of ?sha ?w ?s (mutation_of context e) = Inr u) rows us"
    using terms by (simp add: rmap_map comp_def rmap_Inr_iff)
  have "r \<in> set (paired_rows context rows us)" using spark_okD(1) [OF assms(4)] assms(6) by blast
  then obtain e u where eu: "(e, u) \<in> set (zip rows us)" "r = row_of_terminal e (payload_columns (xc_spec_revision context) e) u"
    by (auto simp: paired_rows_def)
  have e: "e \<in> set rows" and u: "u \<in> set us" using eu(1) by (auto dest: set_zip_leftD set_zip_rightD)
  have term_of: "terminal_of ?sha ?w ?s (mutation_of context e) = Inr u"
    using la eu(1) by (auto simp: list_all2_iff)
  have "row_states r u"
    unfolding eu(2) by (rule row_of_terminal_states [OF _ _ term_of]) (use assms(3,5) e in blast)+
  note mem = collapse_members [OF fold terms]
  from mem(3) u obtain t where t: "t \<in> set ts" "tm_key t = tm_key u" by (metis imageE image_eqI)
  then have tu: "t \<in> set us" using mem(1) by blast
  have "agree us"
    using collapse_ok_iff [of ?sha "map (mutation_of context) rows" ?w ?s] fold terms by simp
  from agreeD [OF this u tu t(2) [symmetric]] have dig: "tm_digest u = tm_digest t" .
  have "mutation_triple u = mutation_triple t"
    using dig t(2) reference_pairs(3) [OF assms(1,3)] u tu by (simp add: mutation_triple_def tm_key_def)
  moreover have "inj_on ?sha (event_bytes (map (mutation_of context) rows)) \<longrightarrow> contents u = contents t"
    using same_digest_contents [OF _ terms u tu dig] by blast
  ultimately show ?thesis using e term_of \<open>row_states r u\<close> t(1) by blast
qed

text \<open>
  C5. The distributed ingest computes the reference collapse. On a source that passes the profile, has no
  null record identifier and whose payload columns shadow no other column, the executor fails exactly when
  some row has no canonical encoding; otherwise it blocks the work as a same-snapshot conflict exactly when
  \<open>collapse_snapshot_mutations\<close> raises \<open>MutationConflict\<close>, and else it applies one row per collapsed
  mutation: the rows carry exactly the record identifiers, sequence numbers and event digests of the
  collapsed mutations, under the source digest \<open>terminal_source_digest\<close> gives them and with their number.
  Every applied row states a source event in full (window, sequence, digest, event time, tombstone flag,
  payload, which is null for a tombstone), and that event has the digest of the collapsed mutation of its
  record; where SHA-256 does not collide on the window's events it has the same operation, event time and
  payload too.
\<close>

theorem ingest_collapse_equivalent:
  assumes "spark_ok sp" and "c_kind (xc_claim context) = INGEST" and "scan_window sp context = Inr (schema, rows)"
    and "validate_source_profile (xc_spec_revision context) schema rows = Inr ()" and "columns_distinct (xc_spec_revision context)"
    and "\<forall>e\<in>set rows. se_record_id e \<noteq> None"
    and "seq_ok (c_seq (xc_claim context))" and "seq_ok (xc_iceberg_sequence_number context)"
  shows "(case reference_terminals sp context rows of
     Inl _ \<Rightarrow> ingest_run sp sg context w = (Inl (Exc SparkJobError []), w)
   | Inr us \<Rightarrow>
       (case reference_collapse sp context rows of
          Inl e \<Rightarrow> e = MutationConflict \<and>
            ingest_run sp sg context w = (Inr (blocked_result (xc_claim context) ''SAME_SNAPSHOT_CONFLICT''
              ''source snapshot contains distinct unordered mutations for one record_id''), w)
        | Inr ts \<Rightarrow> \<exists>collapsed. ingest_run sp sg context w = apply_window sp sg context collapsed w \<and>
            mset (map row_triple collapsed) = mset (map mutation_triple ts) \<and>
            (\<forall>r\<in>set collapsed. \<exists>e\<in>set rows. \<exists>u. \<exists>t\<in>set ts.
               terminal_of (sp_sha256 sp) (c_seq (xc_claim context)) (xc_iceberg_sequence_number context)
                 (mutation_of context e) = Inr u \<and>
               row_states r u \<and> mutation_triple u = mutation_triple t \<and>
               (inj_on (sp_sha256 sp) (event_bytes (map (mutation_of context) rows)) \<longrightarrow> contents u = contents t)) \<and>
            compute_source_digest (sp_sha256 sp) (sp_directory sp) (sp_attempt sp) (sp_range_sort sp) (sp_parallelism sp)
                (digest_rows collapsed) =
              (case terminal_source_digest (sp_sha256 sp) ts of Inl _ \<Rightarrow> Inl SparkJobError | Inr g \<Rightarrow> Inr (g, length ts))))"
proof (cases "reference_terminals sp context rows")
  case (Inl e)
  then show ?thesis using ingest_run_terminal(1) [OF assms(1-6)] by simp
next
  case (Inr us)
  note pairs = reference_pairs [OF Inr assms(6)]
  have agree: "agree us \<longleftrightarrow> \<not> conflicting (paired_rows context rows us)"
    using conflicting_triples [OF pairs(2)] single_valued_triples [of us "context_target context"] pairs(3)
    by (simp only: pairs(1)) blast
  have ok: "(\<exists>ts. reference_collapse sp context rows = Inr ts) \<longleftrightarrow> agree us"
    using assms(7,8) Inr unfolding reference_collapse_def reference_terminals_def collapse_ok_iff by auto
  show ?thesis
  proof (cases "reference_collapse sp context rows")
    case (Inl e)
    with ok agree have "conflicting (paired_rows context rows us)" by simp
    with Inl reference_collapse_error [OF Inl Inr assms(7,8)] Inr ingest_run_terminal(1) [OF assms(1-6)] show ?thesis by simp
  next
    case (Inr ts)
    note us = \<open>reference_terminals sp context rows = Inr us\<close>
    from Inr ok agree have "\<not> conflicting (paired_rows context rows us)" by simp
    with us ingest_run_terminal(1) [OF assms(1-6)]
    have "ingest_run sp sg context w = apply_window sp sg context (sp_drop_duplicates sp (paired_rows context rows us)) w" by simp
    moreover have "\<forall>e\<in>set rows. profile_ok (xc_spec_revision context) e"
      using assms(4) by (simp add: validate_source_profile_Inr)
    note collapsed_rows_state [OF us Inr assms(6,1) this]
    moreover note collapsed_triples [OF us Inr assms(6,1)] profile_digest_rows [OF us Inr assms(6,1)]
    ultimately show ?thesis
      unfolding us Inr sum.case by (intro exI conjI ballI) assumption+
  qed
qed

end
