(* ===== verification/Ingest_Safety.thy ===== *)
theory Ingest_Safety
  imports Ingest_Collapse Replay_Scenario Completion_Properties Spec_Properties
begin

text \<open>
  What an ingest run does to the dataset, whatever other clients that only move it forward do meanwhile: it
  never takes a mutation or a marker back, and a run that succeeds leaves every mutation of its window stored
  or superseded under a marker that proves the window complete.
\<close>

section \<open>The store\<close>

text \<open>
  Data and configuration of a dataset are independent: a merge keeps the configuration, an update of the
  configuration keeps the rows, and a created dataset has no marker.
\<close>

definition storage_ok :: "'d storage \<Rightarrow> ('d \<Rightarrow> arrow_row list) \<Rightarrow> bool" where
  "storage_ok sg rows \<longleftrightarrow>
     lance_ok (sg_lance sg) rows ''record_id'' \<and> config_store_ok (sg_config sg) \<and>
     (\<forall>d t b. cs_config (sg_config sg) (snd (ln_merge (sg_lance sg) d t b)) = cs_config (sg_config sg) d) \<and>
     (\<forall>d c p. mset (rows (snd (cs_update (sg_config sg) d c p))) = mset (rows c) \<and>
        ln_schema (sg_lance sg) (snd (cs_update (sg_config sg) d c p)) = ln_schema (sg_lance sg) c) \<and>
     (\<forall>s. marks (sg_config sg) (ln_create (sg_lance sg) s) None)"

definition sg_advances :: "'d storage \<Rightarrow> ('d \<Rightarrow> arrow_row list) \<Rightarrow> 'd option \<Rightarrow> 'd option \<Rightarrow> bool" where
  "sg_advances sg rows s s' \<longleftrightarrow>
     store_advances (sg_lance sg) rows ''record_id'' s s' \<and> marker_advances (sg_config sg) s s' \<and> (s \<noteq> None \<longrightarrow> s' \<noteq> None)"

text \<open>A marker at or beyond a window is true when the states of the window are stored or superseded.\<close>

definition truthful :: "'d storage \<Rightarrow> ('d \<Rightarrow> arrow_row list) \<Rightarrow> int \<Rightarrow> (string \<Rightarrow> key_state option) \<Rightarrow> 'd option \<Rightarrow> bool" where
  "truthful sg rows window target s \<longleftrightarrow>
     (\<forall>d m. s = Some d \<longrightarrow> marks (sg_config sg) d (Some m) \<longrightarrow> window \<le> fst m \<longrightarrow>
        advances target (states ''record_id'' (rows d)))"

definition others_ok :: "'d storage \<Rightarrow> ('d \<Rightarrow> arrow_row list) \<Rightarrow> int \<Rightarrow> (string \<Rightarrow> key_state option) \<Rightarrow> bool" where
  "others_ok sg rows window target \<longleftrightarrow>
     (\<forall>n s. sg_advances sg rows s (sg_others sg n s) \<and>
        (truthful sg rows window target s \<longrightarrow> truthful sg rows window target (sg_others sg n s)))"

lemma sg_advances_refl: "sg_advances sg rows s s"
  by (simp add: sg_advances_def store_advances_refl)

lemma sg_advances_trans: "sg_advances sg rows s s' \<Longrightarrow> sg_advances sg rows s' s'' \<Longrightarrow> sg_advances sg rows s s''"
  unfolding sg_advances_def using store_advances_trans marker_advances_trans by blast

lemma storage_okD:
  assumes "storage_ok sg rows"
  shows "lance_ok (sg_lance sg) rows ''record_id''" "config_store_ok (sg_config sg)"
    "ln_merge (sg_lance sg) d t (replay_merge_insert ''record_id'') = (r, d') \<Longrightarrow> cs_config (sg_config sg) d' = cs_config (sg_config sg) d"
    "cs_update (sg_config sg) d c p = (q, c') \<Longrightarrow> mset (rows c') = mset (rows c)"
    "cs_update (sg_config sg) d c p = (q, c') \<Longrightarrow> ln_schema (sg_lance sg) c' = ln_schema (sg_lance sg) c"
    "marks (sg_config sg) (ln_create (sg_lance sg) sc) None"
proof -
  note parts = assms [unfolded storage_ok_def]
  show "lance_ok (sg_lance sg) rows ''record_id''" "config_store_ok (sg_config sg)"
    "marks (sg_config sg) (ln_create (sg_lance sg) sc) None" using parts by blast+
  show "cs_config (sg_config sg) d' = cs_config (sg_config sg) d" if "ln_merge (sg_lance sg) d t (replay_merge_insert ''record_id'') = (r, d')"
    using parts that by (metis snd_conv)
  show "mset (rows c') = mset (rows c)" "ln_schema (sg_lance sg) c' = ln_schema (sg_lance sg) c"
    if "cs_update (sg_config sg) d c p = (q, c')" using parts that by (metis snd_conv)+
qed

section \<open>Relations the merge keeps\<close>

text \<open>
  A reflexive and transitive relation of stores that other clients, the creation of a dataset and a merge
  keep is kept by the whole replay-safe merge.
\<close>

lemma open_or_create_relation:
  assumes "reflp R" and "transp R" and "\<forall>n s. R s (others n s)"
    and "\<forall>sc. R None (Some (ln_create api sc))" and "open_or_create_replay_dataset api others schema m w = (r, w')"
  shows "R (store w) (store w')" and "r = Inr d \<Longrightarrow> store w' = Some d"
proof -
  let ?w1 = "others_act others w" and ?w2 = "others_act others (others_act others w)"
  have a1: "R (store w) (store ?w1)" using assms(3) by (simp add: others_act_def)
  have a2: "R (store w) (store ?w2)" by (rule transpD [OF assms(2) a1]) (use assms(3) in \<open>simp add: others_act_def\<close>)
  have a3: "R (store w) (store (others_act others ?w2))"
    by (rule transpD [OF assms(2) a2]) (use assms(3) in \<open>simp add: others_act_def\<close>)
  have cs: "w' = w \<and> r \<noteq> Inr d \<or> w' = ?w1 \<and> (r = Inr d \<longrightarrow> lance_dataset api ?w1 = Inr d) \<or>
      w' = ?w2 \<and> (r = Inr d \<longrightarrow> lance_dataset api ?w2 = r) \<or>
      w' = others_act others ?w2 \<and> lance_dataset api (others_act others ?w2) = r \<or>
      store ?w2 = None \<and> w' = ?w2\<lparr> store := Some (ln_create api schema) \<rparr> \<and> r = Inr (ln_create api schema)" for d
    using assms(5) unfolding open_or_create_replay_dataset_def Let_def
    by (auto split: if_splits sum.splits option.splits)
  have "R (store w) (store (?w2\<lparr> store := Some (ln_create api schema) \<rparr>))" if "store ?w2 = None"
    using transpD [OF assms(2) a2] assms(4) that by simp
  then show "R (store w) (store w')" using cs [of undefined] a1 a2 a3 reflpD [OF assms(1)] by auto
  show "store w' = Some d" if "r = Inr d" using cs [of d] that by (auto dest: lance_dataset_Inr)
qed

lemma merge_relation:
  assumes refl: "reflp R" and trans: "transp R" and oth: "\<forall>n s. R s (others n s)"
    and new: "\<forall>sc. R None (Some (ln_create api sc))" and present: "\<forall>n s. s \<noteq> None \<longrightarrow> others n s \<noteq> None"
    and merge: "\<forall>d r d'. unique_rows kc (table_rows t) \<longrightarrow> ln_merge api d t (replay_merge_insert kc) = (r, d') \<longrightarrow> R (Some d) (Some d')"
  shows "R (store w) (store (snd (replay_safe_merge api others t kc retries m w)))"
proof (cases "rbind (validate_replay_table t kc) (\<lambda>_. expected_key_states t kc)")
  case (Inl e)
  then show ?thesis by (simp add: replay_safe_merge_def reflpD [OF refl])
next
  case (Inr incoming)
  then have u: "unique_rows kc (table_rows t)" by (auto simp: rbind_Inr_iff expected_key_states_Inr)
  let ?Q = "\<lambda>v v'. R (store v) (store v')"
  have act: "?Q v (others_act others v)" for v using oth by (simp add: others_act_def)
  have attempt: "?Q v (snd (merge_attempt api others t kc m incoming v))" for v
  proof -
    obtain r v1 where o: "open_or_create_replay_dataset api others (schema_of t) m v = (r, v1)" by force
    note a = open_or_create_relation [where R = R, OF refl trans oth new o]
    show ?thesis
    proof (cases "\<exists>d. r = Inr d \<and> preflight api d t kc incoming = Inr True")
      case False
      then have "snd (merge_attempt api others t kc m incoming v) = v1"
        by (auto simp: merge_attempt_def o split: sum.split bool.split)
      with a(1) show ?thesis by simp
    next
      case True
      then obtain d where d: "r = Inr d" "preflight api d t kc incoming = Inr True" by blast
      have "store (others_act others v1) \<noteq> None" using a(2) [OF d(1)] present by (simp add: others_act_def)
      then obtain d2 where d2: "store (others_act others v1) = Some d2" by blast
      obtain q d' where q: "ln_merge api d2 t (replay_merge_insert kc) = (q, d')" by force
      have "snd (merge_attempt api others t kc m incoming v) = (others_act others v1)\<lparr> store := Some d' \<rparr>"
        using d d2 q by (simp add: merge_attempt_def o)
      moreover have "R (store v) (Some d2)" using transpD [OF trans a(1) act [of v1]] d2 by simp
      moreover have "R (Some d2) (Some d')" using merge u q by blast
      ultimately show ?thesis using transpD [OF trans, of "store v" "Some d2" "Some d'"] by simp
    qed
  qed
  let ?loop = "commit_with_retries (merge_attempt api others t kc m incoming) retries id (\<lambda>_. others_act others) w"
  have a: "?Q w (snd ?loop)"
  proof (rule commit_with_retries_relation [where R = ?Q])
    show "reflp ?Q" using refl by (simp add: reflp_def)
    show "transp ?Q" using trans unfolding transp_def by blast
  qed (use attempt act reflpD [OF refl] in auto)
  have "?Q w (others_act others (snd ?loop))" by (rule transpD [OF trans a act])
  with a Inr show ?thesis by (auto simp: replay_safe_merge_def Let_def split: sum.split prod.split)
qed

lemma marks_config: "cs_config api d = cs_config api d' \<Longrightarrow> marks api d m = marks api d' m"
  by (rule marks_cong) simp_all

lemma sg_advances_unique: "sg_advances sg rows s s' \<Longrightarrow> unique_store rows ''record_id'' s \<Longrightarrow> unique_store rows ''record_id'' s'"
  by (simp add: sg_advances_def store_advances_def)

lemma sg_advances_states:
  assumes "sg_advances sg rows (Some d) (Some d')" and "unique_rows ''record_id'' (rows d)"
  shows "advances (states ''record_id'' (rows d)) (states ''record_id'' (rows d'))"
  using assms by (simp add: sg_advances_def store_advances_def unique_store_def)

text \<open>Advancing and staying truthful, as one relation.\<close>

definition keeps :: "'d storage \<Rightarrow> ('d \<Rightarrow> arrow_row list) \<Rightarrow> int \<Rightarrow> (string \<Rightarrow> key_state option) \<Rightarrow> 'd option \<Rightarrow> 'd option \<Rightarrow> bool" where
  "keeps sg rows window target s s' \<longleftrightarrow>
     sg_advances sg rows s s' \<and>
     (unique_store rows ''record_id'' s \<and> truthful sg rows window target s \<longrightarrow> truthful sg rows window target s')"

lemma reflp_keeps: "reflp (keeps sg rows window target)"
  by (simp add: reflp_def keeps_def sg_advances_refl)

lemma transp_keeps: "transp (keeps sg rows window target)"
  unfolding transp_def keeps_def using sg_advances_trans sg_advances_unique by blast

lemma keeps_trans: "keeps sg rows window target s s' \<Longrightarrow> keeps sg rows window target s' s'' \<Longrightarrow> keeps sg rows window target s s''"
  using transp_keeps by (rule transpD)

lemma keeps_refl [simp]: "keeps sg rows window target s s"
  using reflp_keeps by (rule reflpD)

lemma others_keeps: "others_ok sg rows window target \<Longrightarrow> keeps sg rows window target s (sg_others sg n s)"
  by (simp add: others_ok_def keeps_def)

lemma others_present: "others_ok sg rows window target \<Longrightarrow> s \<noteq> None \<Longrightarrow> sg_others sg n s \<noteq> None"
  by (simp add: others_ok_def sg_advances_def)

lemma create_keeps:
  assumes "storage_ok sg rows"
  shows "keeps sg rows window target None (Some (ln_create (sg_lance sg) sc))"
proof -
  have "rows (ln_create (sg_lance sg) sc) = []" by (rule lance_ok_create(1) [OF storage_okD(1) [OF assms]])
  moreover have "\<not> marks (sg_config sg) (ln_create (sg_lance sg) sc) (Some m)" for m
    using marks_unique [OF storage_okD(6) [OF assms], of sc "Some m"] by auto
  ultimately show ?thesis
    by (simp add: keeps_def sg_advances_def store_advances_def unique_store_def unique_rows_def marker_advances_def truthful_def)
qed

lemma merge_keeps:
  assumes "storage_ok sg rows" and "unique_rows ''record_id'' (table_rows t)"
    and "ln_merge (sg_lance sg) d t (replay_merge_insert ''record_id'') = (r, d')"
  shows "keeps sg rows window target (Some d) (Some d')"
proof -
  have m: "marks (sg_config sg) d' x = marks (sg_config sg) d x" for x
    by (rule marks_config) (rule storage_okD(3) [OF assms(1,3)])
  have adv: "sg_advances sg rows (Some d) (Some d')"
    using merge_store_advances [OF storage_okD(1) [OF assms(1)] assms(2,3)] mark_le_refl
    by (auto simp: sg_advances_def marker_advances_def m)
  moreover have "truthful sg rows window target (Some d')"
    if "unique_rows ''record_id'' (rows d)" "truthful sg rows window target (Some d)"
    using that advances_trans [OF _ sg_advances_states [OF adv that(1)]] by (auto simp: truthful_def m)
  ultimately show ?thesis by (simp add: keeps_def unique_store_def)
qed

lemma merge_table_keeps:
  assumes "storage_ok sg rows" and "others_ok sg rows window target"
  shows "keeps sg rows window target (store w)
    (store (snd (replay_safe_merge (sg_lance sg) (sg_others sg) t ''record_id'' retries m w)))"
proof (rule merge_relation [OF reflp_keeps transp_keeps])
  show "\<forall>n s. keeps sg rows window target s (sg_others sg n s)" using others_keeps [OF assms(2)] by blast
  show "\<forall>sc. keeps sg rows window target None (Some (ln_create (sg_lance sg) sc))" using create_keeps [OF assms(1)] by blast
  show "\<forall>n s. s \<noteq> None \<longrightarrow> sg_others sg n s \<noteq> None" using others_present [OF assms(2)] by blast
  show "\<forall>d r d'. unique_rows ''record_id'' (table_rows t) \<longrightarrow> ln_merge (sg_lance sg) d t (replay_merge_insert ''record_id'') = (r, d') \<longrightarrow>
      keeps sg rows window target (Some d) (Some d')" using merge_keeps [OF assms(1)] by blast
qed

section \<open>Writing\<close>

text \<open>A mutation is in a dataset when its key holds it or a newer one.\<close>

definition stored_in :: "('d \<Rightarrow> arrow_row list) \<Rightarrow> 'd option \<Rightarrow> string \<times> key_state \<Rightarrow> bool" where
  "stored_in rows s kv \<longleftrightarrow>
     (\<exists>d x. s = Some d \<and> states ''record_id'' (rows d) (fst kv) = Some x \<and> (x = snd kv \<or> fst (snd kv) < fst x))"

lemma stored_in_advances:
  assumes "stored_in rows s kv" and "sg_advances sg rows s s'" and "unique_store rows ''record_id'' s"
  shows "stored_in rows s' kv"
proof -
  from assms(1) obtain d x where d: "s = Some d" "states ''record_id'' (rows d) (fst kv) = Some x" "x = snd kv \<or> fst (snd kv) < fst x"
    by (auto simp: stored_in_def)
  with assms(2) obtain d' where d': "s' = Some d'" by (auto simp: sg_advances_def)
  have "advances (states ''record_id'' (rows d)) (states ''record_id'' (rows d'))"
    using sg_advances_states [of sg rows d d'] assms(2,3) d(1) d' by (simp add: unique_store_def)
  with d(2) obtain y where "states ''record_id'' (rows d') (fst kv) = Some y" "y = x \<or> fst x < fst y"
    unfolding advances_def by blast
  moreover have "y = snd kv \<or> fst (snd kv) < fst y" using calculation(2) d(3) by auto
  ultimately show ?thesis using d' unfolding stored_in_def by blast
qed

lemma merge_table_stored:
  assumes "storage_ok sg rows" and "others_ok sg rows window target" and "unique_store rows ''record_id'' (store w)"
    and "replay_safe_merge (sg_lance sg) (sg_others sg) t ''record_id'' retries m w = (Inr res, w')"
  shows "\<forall>kv\<in>set (map (row_state ''record_id'') (table_rows t)). stored_in rows (store w') kv"
proof -
  have adv: "store_advances (sg_lance sg) rows ''record_id'' s (sg_others sg n s)" for n s
    using assms(2) by (simp add: others_ok_def sg_advances_def)
  from replay_merge_never_regresses_parts(3) [OF storage_okD(1) [OF assms(1)] adv assms(3,4) refl] obtain d'
    where d': "store w' = Some d'" "advances (states ''record_id'' (table_rows t)) (states ''record_id'' (rows d'))" by blast
  have u: "unique_rows ''record_id'' (table_rows t)"
    using assms(4) unfolding replay_safe_merge_def by (auto simp: rbind_Inr_iff expected_key_states_Inr split: sum.splits)
  show ?thesis
  proof
    fix kv assume "kv \<in> set (map (row_state ''record_id'') (table_rows t))"
    then have "states ''record_id'' (table_rows t) (fst kv) = Some (snd kv)" by (simp add: states_Some [OF u])
    with d' show "stored_in rows (store w') kv" unfolding advances_def stored_in_def by blast
  qed
qed

definition table_states :: "arrow_table list \<Rightarrow> (string \<times> key_state) list" where
  "table_states ts = concat (map (\<lambda>t. map (row_state ''record_id'') (table_rows t)) ts)"

lemma merge_tables_keeps:
  assumes "storage_ok sg rows" and "others_ok sg rows window target" and "merge_tables sg m ts best w = (r, w')"
  shows "keeps sg rows window target (store w) (store w')"
  using assms(3)
proof (induction ts arbitrary: best w)
  case (Cons t ts)
  obtain q w1 where q: "replay_safe_merge (sg_lance sg) (sg_others sg) t ''record_id'' 10 m w = (q, w1)" by force
  have k: "keeps sg rows window target (store w) (store w1)" using merge_table_keeps [OF assms(1,2), of w t 10 m] q by simp
  show ?case
  proof (cases q)
    case (Inl e)
    with Cons.prems q k show ?thesis by simp
  next
    case (Inr res)
    with Cons.prems q have "merge_tables sg m ts (maximum_version best (mr_version res)) w1 = (r, w')" by simp
    from keeps_trans [OF k Cons.IH [OF this]] show ?thesis .
  qed
qed simp

lemma merge_tables_stored:
  assumes "storage_ok sg rows" and "others_ok sg rows window target" and "unique_store rows ''record_id'' (store w)"
    and "merge_tables sg m ts best w = (Inr x, w')"
  shows "\<forall>kv\<in>set (table_states ts). stored_in rows (store w') kv"
  using assms(3,4)
proof (induction ts arbitrary: best w)
  case (Cons t ts)
  from Cons.prems(2) obtain res w1 where q: "replay_safe_merge (sg_lance sg) (sg_others sg) t ''record_id'' 10 m w = (Inr res, w1)"
    and rest: "merge_tables sg m ts (maximum_version best (mr_version res)) w1 = (Inr x, w')"
    by (auto split: prod.splits sum.splits)
  have k: "keeps sg rows window target (store w) (store w1)" using merge_table_keeps [OF assms(1,2), of w t 10 m] q by simp
  then have u: "unique_store rows ''record_id'' (store w1)" using Cons.prems(1) sg_advances_unique by (auto simp: keeps_def)
  have "sg_advances sg rows (store w1) (store w')" using merge_tables_keeps [OF assms(1,2) rest] by (simp add: keeps_def)
  then have "\<forall>kv\<in>set (map (row_state ''record_id'') (table_rows t)). stored_in rows (store w') kv"
    using merge_table_stored [OF assms(1,2) Cons.prems(1) q] stored_in_advances [OF _ _ u] by blast
  with Cons.IH [OF u rest] show ?case unfolding table_states_def by auto
qed (simp add: table_states_def)

subsection \<open>Tables of terminal rows\<close>

definition row_kv :: "terminal_row \<Rightarrow> string \<times> key_state" where
  "row_kv r = (case tr_record_id r of None \<Rightarrow> [] | Some t \<Rightarrow> t, tr_source r, tr_digest r)"

definition schema_distinct :: "dataset_spec_revision \<Rightarrow> bool" where
  "schema_distinct spec \<longleftrightarrow> distinct (map fst (persisted_arrow_schema spec))"

lemma terminal_table_names: "map col_name (columns (terminal_table spec rows)) = map fst (persisted_arrow_schema spec)"
  by (simp add: terminal_table_def persisted_arrow_schema_def comp_def case_prod_unfold)

lemma terminal_table_cells: "c \<in> set (columns (terminal_table spec rows)) \<Longrightarrow> length (col_cells c) = length rows"
  by (auto simp: terminal_table_def)

lemma row_at_cell:
  assumes "schema_distinct spec" and "c \<in> set (columns (terminal_table spec rows))"
  shows "cell_of (row_at (terminal_table spec rows) i) (col_name c) = col_cells c ! i"
proof -
  have "map_of (row_at (terminal_table spec rows) i) (col_name c) = Some (col_cells c ! i)"
  proof (rule map_of_is_SomeI)
    show "distinct (map fst (row_at (terminal_table spec rows) i))"
      using assms(1) by (simp add: row_at_def comp_def schema_distinct_def terminal_table_names [unfolded comp_def] del: map_map)
        (simp add: terminal_table_names comp_def)
    show "(col_name c, col_cells c ! i) \<in> set (row_at (terminal_table spec rows) i)" using assms(2) by (force simp: row_at_def)
  qed
  then show ?thesis by (simp add: cell_of_def split: option.split)
qed

lemma row_state_terminal:
  assumes "schema_distinct spec" and "i < length rows"
  shows "row_state ''record_id'' (row_at (terminal_table spec rows) i) = row_kv (rows ! i)"
proof -
  note cell = row_at_cell [OF assms(1), where rows = rows and i = i]
  have "cell_of (row_at (terminal_table spec rows) i) ''record_id'' = map_option CText (tr_record_id (rows ! i))"
    using cell [of "\<lparr>col_name = ''record_id'', col_type = A_string, col_cells = map (\<lambda>r. map_option CText (tr_record_id r)) rows\<rparr>"] assms(2)
    by (simp add: terminal_table_def)
  moreover have "cell_of (row_at (terminal_table spec rows) i) SOURCE_SEQUENCE_COLUMN = Some (CInt (tr_source (rows ! i)))"
    using cell [of "\<lparr>col_name = SOURCE_SEQUENCE_COLUMN, col_type = A_int64, col_cells = map (\<lambda>r. Some (CInt (tr_source r))) rows\<rparr>"] assms(2)
    by (simp add: terminal_table_def)
  moreover have "cell_of (row_at (terminal_table spec rows) i) EVENT_DIGEST_COLUMN = Some (CBytes (tr_digest (rows ! i)))"
    using cell [of "\<lparr>col_name = EVENT_DIGEST_COLUMN, col_type = A_binary 32, col_cells = map (\<lambda>r. Some (CBytes (tr_digest r))) rows\<rparr>"] assms(2)
    by (simp add: terminal_table_def)
  ultimately show ?thesis
    by (simp add: row_state_def text_at_def int_at_def bytes_at_def row_kv_def split: option.split)
qed

lemma slice_rows:
  assumes "0 \<le> off" and "0 \<le> len" and "off + len \<le> int (length rows)"
  shows "table_rows (table_slice (terminal_table spec rows) (off, len)) =
    map (\<lambda>i. row_at (terminal_table spec rows) (nat i)) [off..off + len - 1]"
proof -
  have up: "[off..off + len - 1] = map (\<lambda>i. off + int i) [0..<nat len]"
  proof (rule nth_equalityI)
    show "[off..off + len - 1] ! i = map (\<lambda>i. off + int i) [0..<nat len] ! i" if "i < length [off..off + len - 1]" for i
      using that assms by (simp add: nth_upto)
  qed (use assms in simp)
  have "row_at (table_slice (terminal_table spec rows) (off, len)) i = row_at (terminal_table spec rows) (nat (off + int i))"
    if "i < nat len" for i
  proof -
    have "take (nat len) (drop (nat off) (col_cells c)) ! i = col_cells c ! nat (off + int i)"
      if "c \<in> set (columns (terminal_table spec rows))" for c
      using \<open>i < nat len\<close> assms terminal_table_cells [OF that] by (simp add: nat_add_distrib)
    then show ?thesis by (simp add: row_at_def table_slice_def)
  qed
  then show ?thesis unfolding table_rows_def up by (simp add: table_slice_def)
qed

lemma slices_states:
  assumes "schema_distinct spec"
    and "replay_table_chunks (int (length rows)) nbytes scale mr mb = Inr chunks"
  shows "table_states (map (table_slice (terminal_table spec rows)) chunks) = map row_kv rows"
proof -
  let ?t = "terminal_table spec rows"
  from replay_table_chunks_partition_parts(2) [OF assms(2)]
  have part: "concat (map (\<lambda>(off, len). [off..off + len - 1]) chunks) = [0..int (length rows) - 1]"
    and pos: "\<forall>(off, len)\<in>set chunks. 1 \<le> len" by (auto simp: list_all_iff)
  have slice: "map (row_state ''record_id'') (table_rows (table_slice ?t c)) =
      map (\<lambda>i. row_kv (rows ! nat i)) (case c of (off, len) \<Rightarrow> [off..off + len - 1])" if c: "c \<in> set chunks" for c
  proof -
    obtain off len where ol: "c = (off, len)" by force
    have sub: "set [off..off + len - 1] \<subseteq> set [0..int (length rows) - 1]" unfolding part [symmetric] using c ol by auto
    have "1 \<le> len" using pos c ol by auto
    with sub have bounds: "0 \<le> off" "0 \<le> len" "off + len \<le> int (length rows)" by auto
    show ?thesis
      unfolding ol slice_rows [OF bounds] prod.case map_map
      by (rule map_cong [OF refl]) (use bounds in \<open>simp add: row_state_terminal [OF assms(1)] nat_less_iff\<close>)
  qed
  have "table_states (map (table_slice ?t) chunks) =
      concat (map (\<lambda>c. map (\<lambda>i. row_kv (rows ! nat i)) (case c of (off, len) \<Rightarrow> [off..off + len - 1])) chunks)"
    unfolding table_states_def map_map comp_def using slice by (intro arg_cong [of _ _ concat] map_cong) auto
  also have "\<dots> = map (\<lambda>i. row_kv (rows ! nat i)) (concat (map (\<lambda>(off, len). [off..off + len - 1]) chunks))"
    by (induction chunks) auto
  also have "\<dots> = map row_kv rows" unfolding part by (rule nth_equalityI) (auto simp: nth_upto)
  finally show ?thesis .
qed

lemma write_batch_keeps:
  assumes "storage_ok sg rows" and "others_ok sg rows window target" and "write_batch sp sg spec rs best w = (r, w')"
  shows "keeps sg rows window target (store w) (store w')"
  using assms(3) merge_tables_keeps [OF assms(1,2)] unfolding write_batch_def
  by (auto split: if_splits sum.splits)

lemma write_batch_stored:
  assumes "storage_ok sg rows" and "others_ok sg rows window target" and "unique_store rows ''record_id'' (store w)"
    and "schema_distinct spec" and "write_batch sp sg spec rs best w = (Inr x, w')"
  shows "\<forall>kv\<in>set (map row_kv rs). stored_in rows (store w') kv"
proof (cases "rs = []")
  case False
  with assms(5) obtain ts where ts: "rbind (batch_table spec rs) (\<lambda>t.
            rbind (replay_table_chunks (int (num_rows t)) (sp_nbytes sp t) (sp_scale sp)
              (min (sr_merge_rows_per_chunk spec) (sr_write_rows_per_fragment spec)) (sr_merge_batch_bytes spec)) (\<lambda>chunks.
            Inr (map (table_slice t) chunks))) = Inr ts"
    and m: "merge_tables sg (sr_write_rows_per_fragment spec) ts best w = (Inr x, w')"
    unfolding write_batch_def by (auto split: sum.splits)
  from ts have "table_states ts = map row_kv rs"
    by (auto simp: batch_table_def rbind_Inr_iff terminal_table_def [of spec rs, THEN arg_cong, of num_rows] intro!: slices_states [OF assms(4)])
  with merge_tables_stored [OF assms(1-3) m] show ?thesis by simp
qed simp

lemma write_batches_keeps:
  assumes "storage_ok sg rows" and "others_ok sg rows window target" and "write_batches sp sg spec bs best w = (r, w')"
  shows "keeps sg rows window target (store w) (store w')"
  using assms(3)
proof (induction bs arbitrary: best w)
  case (Cons rs bs)
  obtain q w1 where q: "write_batch sp sg spec rs best w = (q, w1)" by force
  note k = write_batch_keeps [OF assms(1,2) q]
  show ?case
  proof (cases q)
    case (Inr best1)
    with Cons.prems q have "write_batches sp sg spec bs best1 w1 = (r, w')" by simp
    from keeps_trans [OF k Cons.IH [OF this]] show ?thesis .
  qed (use Cons.prems q k in simp)
qed simp

lemma write_batches_stored:
  assumes "storage_ok sg rows" and "others_ok sg rows window target" and "unique_store rows ''record_id'' (store w)"
    and "schema_distinct spec" and "write_batches sp sg spec bs best w = (Inr x, w')"
  shows "\<forall>kv\<in>set (map row_kv (concat bs)). stored_in rows (store w') kv"
  using assms(3,5)
proof (induction bs arbitrary: best w)
  case (Cons rs bs)
  from Cons.prems(2) obtain best1 w1 where q: "write_batch sp sg spec rs best w = (Inr best1, w1)"
    and rest: "write_batches sp sg spec bs best1 w1 = (Inr x, w')" by (auto split: prod.splits sum.splits)
  have "sg_advances sg rows (store w) (store w1)" using write_batch_keeps [OF assms(1,2) q] by (simp add: keeps_def)
  then have u: "unique_store rows ''record_id'' (store w1)" using Cons.prems(1) by (rule sg_advances_unique)
  have "sg_advances sg rows (store w1) (store w')" using write_batches_keeps [OF assms(1,2) rest] by (simp add: keeps_def)
  then have "\<forall>kv\<in>set (map row_kv rs). stored_in rows (store w') kv"
    using write_batch_stored [OF assms(1,2) Cons.prems(1) assms(4) q] stored_in_advances [OF _ _ u] by blast
  with Cons.IH [OF u rest] show ?case by auto
qed simp

lemma write_parts_keeps:
  assumes "storage_ok sg rows" and "others_ok sg rows window target" and "write_parts sp sg spec ps w = (r, w')"
  shows "keeps sg rows window target (store w) (store w')"
  using assms(3)
proof (induction ps arbitrary: w r w')
  case (Cons rs ps)
  obtain q w1 where q: "write_batches sp sg spec (sp_batches sp rs) None w = (q, w1)" by force
  obtain q2 w2 where q2: "write_parts sp sg spec ps w1 = (q2, w2)" by force
  note k = write_batches_keeps [OF assms(1,2) q]
  from Cons.prems q q2 k keeps_trans [OF k Cons.IH [OF q2]] show ?case by (auto split: sum.splits)
qed simp

lemma write_parts_stored:
  assumes "storage_ok sg rows" and "others_ok sg rows window target" and "unique_store rows ''record_id'' (store w)"
    and "schema_distinct spec" and "spark_ok sp" and "write_parts sp sg spec ps w = (Inr x, w')"
  shows "\<forall>kv\<in>set (map row_kv (concat ps)). stored_in rows (store w') kv"
  using assms(3,6)
proof (induction ps arbitrary: w x)
  case (Cons rs ps)
  from Cons.prems(2) obtain best w1 y where q: "write_batches sp sg spec (sp_batches sp rs) None w = (Inr best, w1)"
    and rest: "write_parts sp sg spec ps w1 = (Inr y, w')" by (auto split: prod.splits sum.splits)
  have "sg_advances sg rows (store w) (store w1)" using write_batches_keeps [OF assms(1,2) q] by (simp add: keeps_def)
  then have u: "unique_store rows ''record_id'' (store w1)" using Cons.prems(1) by (rule sg_advances_unique)
  have "sg_advances sg rows (store w1) (store w')" using write_parts_keeps [OF assms(1,2) rest] by (simp add: keeps_def)
  then have "\<forall>kv\<in>set (map row_kv rs). stored_in rows (store w') kv"
    using write_batches_stored [OF assms(1,2) Cons.prems(1) assms(4) q] stored_in_advances [OF _ _ u]
    unfolding spark_okD(6) [OF assms(5)] by blast
  with Cons.IH [OF u rest] show ?case by auto
qed simp

section \<open>The marker\<close>

lemma finalize_relation:
  assumes refl: "reflp R" and trans: "transp R" and oth: "\<forall>n s. R s (others n s)"
    and present: "\<forall>n s. s \<noteq> None \<longrightarrow> others n s \<noteq> None"
    and update: "\<forall>p d c r c' mk. completion_payload n g = Inr p \<longrightarrow> check_marker api n g d = Inr (mk, False) \<longrightarrow>
      cs_update api d c p = (r, c') \<longrightarrow> R (Some c) (Some c')"
  shows "R (cstore w) (cstore (snd (finalize_completion_marker api others n g retries w)))"
proof (cases "completion_payload n g")
  case (Inl e)
  then show ?thesis by (simp add: finalize_completion_marker_def reflpD [OF refl])
next
  case (Inr p)
  let ?Q = "\<lambda>v v'. R (cstore v) (cstore v')"
  have act: "?Q v (cothers others v)" for v using oth by (simp add: cothers_def)
  have attempt: "?Q v (snd (update_attempt api others n g p v))" for v
  proof (cases "\<exists>d mk. open_dataset api (cothers others v) = Inr d \<and> check_marker api n g d = Inr (mk, False)")
    case False
    then have "snd (update_attempt api others n g p v) = cothers others v"
      by (auto simp: update_attempt_def Let_def split: sum.split bool.split)
    with act show ?thesis by simp
  next
    case True
    let ?v1 = "cothers others v"
    obtain d mk where d: "open_dataset api ?v1 = Inr d" "check_marker api n g d = Inr (mk, False)" using True by blast
    then have "cstore ?v1 = Some d" by (auto simp: open_dataset_def split: option.splits)
    then have "cstore (cothers others ?v1) \<noteq> None" using present by (simp add: cothers_def)
    then obtain c where c: "cstore (cothers others ?v1) = Some c" by blast
    obtain r c' where u: "cs_update api d c p = (r, c')" by force
    have "snd (update_attempt api others n g p v) = (cothers others ?v1)\<lparr>cstore := Some c'\<rparr>"
      using d c u by (simp add: update_attempt_def)
    moreover have "R (cstore v) (Some c)" using transpD [OF trans act [of v] act [of ?v1]] c by simp
    moreover have "R (Some c) (Some c')" using update Inr d(2) u by blast
    ultimately show ?thesis using transpD [OF trans, of "cstore v" "Some c" "Some c'"] by simp
  qed
  let ?loop = "commit_with_retries (update_attempt api others n g p) retries id (\<lambda>_. cothers others) w"
  have "?Q w (snd ?loop)"
  proof (rule commit_with_retries_relation [where R = ?Q])
    show "reflp ?Q" using refl by (simp add: reflp_def)
    show "transp ?Q" using trans unfolding transp_def by blast
  qed (use attempt act reflpD [OF refl] in auto)
  from transpD [OF trans this act] have "?Q w (cothers others (snd ?loop))" .
  moreover have "snd (finalize_completion_marker api others n g retries w) = cothers others (snd ?loop)"
    using Inr by (auto simp: finalize_completion_marker_def Let_def split: prod.split sum.split option.split bool.split)
  ultimately show ?thesis by simp
qed

lemma reflp_sg_advances: "reflp (sg_advances sg rows)"
  by (simp add: reflp_def sg_advances_refl)

lemma transp_sg_advances: "transp (sg_advances sg rows)"
  unfolding transp_def using sg_advances_trans by blast

lemma update_sg_advances:
  assumes "storage_ok sg rows" and "n < 2 ^ 63" and "completion_payload n g = Inr p"
    and "check_marker (sg_config sg) n g d = Inr (mk, False)" and "cs_update (sg_config sg) d c p = (r, c')"
  shows "sg_advances sg rows (Some c) (Some c')"
proof -
  have m: "mset (rows c') = mset (rows c)" by (rule storage_okD(4) [OF assms(1,5)])
  have "store_advances (sg_lance sg) rows ''record_id'' (Some c) (Some c')"
    using storage_okD(5) [OF assms(1,5)] unique_rows_mset [OF m] states_mset [OF m]
    by (auto simp: store_advances_def unique_store_def)
  moreover have "marker_advances (sg_config sg) (Some c) (Some c')"
    by (rule update_advances [OF storage_okD(2) [OF assms(1)] assms(3,2,4,5)])
  ultimately show ?thesis by (simp add: sg_advances_def)
qed

lemma finalize_marker_sound:
  assumes "storage_ok sg rows" and "others_ok sg rows window target" and "c_seq (xc_claim context) < 2 ^ 63"
    and "finalize_marker sg context g w = (r, w')"
  shows "sg_advances sg rows (store w) (store w')"
    and "r = Inr m \<Longrightarrow> \<exists>d'. store w' = Some d' \<and> parse_completion_marker (sg_config sg) d' = Inr (Some m) \<and>
      mark_le (Some (c_seq (xc_claim context), g)) (Some (cm_window m, cm_digest m))"
proof -
  let ?n = "c_seq (xc_claim context)" and ?c = "\<lparr>cclock = clock w, cstore = store w\<rparr>"
  obtain q c' where q: "finalize_completion_marker (sg_config sg) (sg_others sg) ?n g 10 ?c = (q, c')" by force
  have w': "store w' = cstore c'" and r: "r = Inr m \<Longrightarrow> q = Inr m"
    using assms(4) q by (auto simp: finalize_marker_def job_def on_store_def split: sum.splits)
  have oth: "\<forall>n s. sg_advances sg rows s (sg_others sg n s)" using assms(2) by (simp add: others_ok_def)
  have present: "\<forall>n s. s \<noteq> None \<longrightarrow> sg_others sg n s \<noteq> None" using others_present [OF assms(2)] by blast
  have update: "\<forall>p d c r c' mk. completion_payload ?n g = Inr p \<longrightarrow> check_marker (sg_config sg) ?n g d = Inr (mk, False) \<longrightarrow>
      cs_update (sg_config sg) d c p = (r, c') \<longrightarrow> sg_advances sg rows (Some c) (Some c')"
    using update_sg_advances [OF assms(1,3)] by blast
  from finalize_relation [OF reflp_sg_advances transp_sg_advances oth present update, of ?c 10] q w'
  show "sg_advances sg rows (store w) (store w')" by simp
  have adv: "marker_advances (sg_config sg) s (sg_others sg n s)" for n s using oth by (simp add: sg_advances_def)
  have pres: "s \<noteq> None \<Longrightarrow> sg_others sg n s \<noteq> None" for n s using present by blast
  show "\<exists>d'. store w' = Some d' \<and> parse_completion_marker (sg_config sg) d' = Inr (Some m) \<and>
      mark_le (Some (?n, g)) (Some (cm_window m, cm_digest m))" if "r = Inr m"
    using completion_marker_monotone_parts(2) [OF storage_okD(2) [OF assms(1)] adv pres assms(3) q r [OF that]] w' by simp
qed

lemma probe_sound:
  assumes "others_ok sg rows window target" and "applied_completion_marker sg context g w = (r, w')"
  shows "keeps sg rows window target (store w) (store w')"
    and "r = Inr (Some m) \<Longrightarrow> \<exists>d. store w' = Some d \<and> parse_completion_marker (sg_config sg) d = Inr (Some m) \<and>
      mark_le (Some (c_seq (xc_claim context), g)) (Some (cm_window m, cm_digest m))"
proof -
  let ?n = "c_seq (xc_claim context)" and ?c = "\<lparr>cclock = clock w, cstore = store w\<rparr>"
  obtain q c' where q: "probe_marker sg ?n g ?c = (q, c')" by force
  have w': "store w' = cstore c'" and r: "r = Inr (Some m) \<Longrightarrow> q = Inr (Some m)"
    using assms(2) q by (auto simp: applied_completion_marker_def job_def on_store_def split: sum.splits)
  have c': "c' = cothers (sg_others sg) ?c"
    using q by (auto simp: probe_marker_def Let_def split: sum.splits prod.splits if_splits)
  then show "keeps sg rows window target (store w) (store w')"
    using others_keeps [OF assms(1), of "store w" "clock w"] w' by (simp add: cothers_def)
  assume "r = Inr (Some m)"
  from q r [OF this] obtain d where d: "open_dataset (sg_config sg) c' = Inr d" "check_marker (sg_config sg) ?n g d = Inr (Some m, True)"
    unfolding probe_marker_def Let_def c' by (auto split: sum.splits prod.splits if_splits)
  then have "store w' = Some d" "parse_completion_marker (sg_config sg) d = Inr (Some m)"
    "completion_is_desired (Some m) ?n g = Inr True"
    using w' by (auto simp: open_dataset_def check_marker_def rbind_Inr_iff split: option.splits)
  then show "\<exists>d. store w' = Some d \<and> parse_completion_marker (sg_config sg) d = Inr (Some m) \<and>
      mark_le (Some (?n, g)) (Some (cm_window m, cm_digest m))"
    by (auto simp: completion_is_desired_def mark_le_def split: if_splits)
qed

section \<open>The window\<close>

definition target_states :: "terminal_row list \<Rightarrow> string \<Rightarrow> key_state option" where
  "target_states rs = map_of (map row_kv rs)"

lemma split_paired_Ball_set: "(\<forall>kv\<in>A. P kv) \<longleftrightarrow> (\<forall>k t. (k, t) \<in> A \<longrightarrow> P (k, t))"
  by auto

lemma target_stored:
  assumes "distinct (map fst (map row_kv rs))"
  shows "(\<forall>kv\<in>set (map row_kv rs). stored_in rows (Some d) kv) \<longleftrightarrow> advances (target_states rs) (states ''record_id'' (rows d))"
proof -
  have mem: "(k, t) \<in> set (map row_kv rs) \<longleftrightarrow> target_states rs k = Some t" for k t
    unfolding target_states_def using map_of_eq_Some_iff [OF assms] by blast
  have "(\<forall>kv\<in>set (map row_kv rs). stored_in rows (Some d) kv) \<longleftrightarrow>
      (\<forall>k t. target_states rs k = Some t \<longrightarrow> stored_in rows (Some d) (k, t))"
    unfolding mem [symmetric] by (rule split_paired_Ball_set)
  also have "\<dots> \<longleftrightarrow> advances (target_states rs) (states ''record_id'' (rows d))"
    unfolding advances_def stored_in_def fst_conv snd_conv option.inject by blast
  finally show ?thesis .
qed

lemma stored_truthful:
  assumes "distinct (map fst (map row_kv rs))" and "\<forall>kv\<in>set (map row_kv rs). stored_in rows s kv"
  shows "truthful sg rows window (target_states rs) s"
  unfolding truthful_def
proof (intro allI impI)
  fix d m
  assume "s = Some d"
  with assms(2) show "advances (target_states rs) (states ''record_id'' (rows d))" by (simp add: target_stored [OF assms(1), symmetric])
qed

definition window_done :: "'d storage \<Rightarrow> ('d \<Rightarrow> arrow_row list) \<Rightarrow> work_execution_context \<Rightarrow> terminal_row list \<Rightarrow> bytes \<Rightarrow> nat \<Rightarrow>
    'd option \<Rightarrow> work_result \<Rightarrow> bool" where
  "window_done sg rows context rs g n s res \<longleftrightarrow>
     (\<exists>d m. s = Some d \<and> parse_completion_marker (sg_config sg) d = Inr (Some m) \<and>
        mark_le (Some (c_seq (xc_claim context), g)) (Some (cm_window m, cm_digest m)) \<and>
        res = ingest_result (xc_claim context) (cm_version m) n g \<and>
        advances (target_states rs) (states ''record_id'' (rows d)))"

lemma probe_window:
  assumes "others_ok sg rows (c_seq (xc_claim context)) (target_states rs)"
    and "unique_store rows ''record_id'' (store w)" and "truthful sg rows (c_seq (xc_claim context)) (target_states rs) (store w)"
    and "applied_completion_marker sg context g w = (Inr (Some m), w1)"
  shows "window_done sg rows context rs g n (store w1) (ingest_result (xc_claim context) (cm_version m) n g)"
proof -
  note probe = probe_sound [OF assms(1,4)]
  have "truthful sg rows (c_seq (xc_claim context)) (target_states rs) (store w1)"
    using probe(1) assms(2,3) by (auto simp: keeps_def)
  moreover obtain d where d: "store w1 = Some d" "parse_completion_marker (sg_config sg) d = Inr (Some m)"
    "mark_le (Some (c_seq (xc_claim context), g)) (Some (cm_window m, cm_digest m))" using probe(2) by blast
  moreover have "marks (sg_config sg) d (Some (cm_window m, cm_digest m))" using d(2) by (simp add: marks_def mark_of_def)
  moreover have "c_seq (xc_claim context) \<le> cm_window m" using d(3) by (auto simp: mark_le_def)
  ultimately show ?thesis by (auto simp: truthful_def window_done_def)
qed

lemma write_window:
  assumes "storage_ok sg rows" "others_ok sg rows (c_seq (xc_claim context)) target" "unique_store rows ''record_id'' (store w)"
    and "spark_ok sp" and "write_terminal sp sg (xc_spec_revision context) rs w = (v, w')"
  shows "keeps sg rows (c_seq (xc_claim context)) target (store w) (store w')"
    and "schema_distinct (xc_spec_revision context) \<Longrightarrow> 1 \<le> sr_ingest_shuffle_partitions (xc_spec_revision context) \<Longrightarrow>
      v = Inr versions \<Longrightarrow> \<forall>kv\<in>set (map row_kv rs). stored_in rows (store w') kv"
proof -
  let ?spec = "xc_spec_revision context"
  let ?parts = "sp_hash_parts sp (sr_ingest_shuffle_partitions ?spec) rs"
  obtain q w2 where wr: "write_parts sp sg ?spec ?parts w = (q, w2)" by force
  with assms(5) have e: "w' = w2" "v = Inr versions \<Longrightarrow> q = Inr versions"
    by (auto simp: write_terminal_def job_def split: sum.splits)
  show "keeps sg rows (c_seq (xc_claim context)) target (store w) (store w')"
    unfolding e(1) by (rule write_parts_keeps [OF assms(1,2) wr])
  assume s: "schema_distinct ?spec" "1 \<le> sr_ingest_shuffle_partitions ?spec" "v = Inr versions"
  have "set (concat ?parts) = set rs" using mset_eq_setD [OF spark_okD(5) [OF assms(4) s(2)]] .
  then show "\<forall>kv\<in>set (map row_kv rs). stored_in rows (store w') kv"
    using write_parts_stored [OF assms(1-3) s(1) assms(4) wr [unfolded e(2) [OF s(3)]]] e(1) by (simp del: set_concat)
qed

lemma finish_window:
  assumes "storage_ok sg rows" "others_ok sg rows (c_seq (xc_claim context)) (target_states rs)"
    and "unique_store rows ''record_id'' (store w)" and "c_seq (xc_claim context) < 2 ^ 63"
    and "distinct (map fst (map row_kv rs))" and stored: "\<forall>kv\<in>set (map row_kv rs). stored_in rows (store w) kv"
    and "finalize_marker sg context g w = (f, w')"
  shows "keeps sg rows (c_seq (xc_claim context)) (target_states rs) (store w) (store w')"
    and "f = Inr m \<Longrightarrow> window_done sg rows context rs g n (store w') (ingest_result (xc_claim context) (cm_version m) n g)"
proof -
  note final = finalize_marker_sound [OF assms(1,2,4,7)]
  have stored': "\<forall>kv\<in>set (map row_kv rs). stored_in rows (store w') kv"
    using stored stored_in_advances [OF _ final(1) assms(3)] by blast
  show "keeps sg rows (c_seq (xc_claim context)) (target_states rs) (store w) (store w')"
    using final(1) stored_truthful [OF assms(5) stored'] by (simp add: keeps_def)
  assume "f = Inr m"
  from final(2) [OF this] obtain d where "store w' = Some d" "parse_completion_marker (sg_config sg) d = Inr (Some m)"
    "mark_le (Some (c_seq (xc_claim context), g)) (Some (cm_window m, cm_digest m))" by blast
  with stored' target_stored [OF assms(5), of rows d]
  show "window_done sg rows context rs g n (store w') (ingest_result (xc_claim context) (cm_version m) n g)"
    by (auto simp: window_done_def)
qed

text \<open>The steps of a run: it stops at the digest, at the probe, at the write, or after the marker.\<close>

lemma apply_window_sound:
  assumes ok: "storage_ok sg rows" "others_ok sg rows (c_seq (xc_claim context)) (target_states rs)"
    and start: "unique_store rows ''record_id'' (store w)" "truthful sg rows (c_seq (xc_claim context)) (target_states rs) (store w)"
    and spec: "schema_distinct (xc_spec_revision context)" "1 \<le> sr_ingest_shuffle_partitions (xc_spec_revision context)"
    and spark: "spark_ok sp" and window: "c_seq (xc_claim context) < 2 ^ 63" and dist: "distinct (map fst (map row_kv rs))"
    and run: "apply_window sp sg context rs w = (r, w')"
  shows "keeps sg rows (c_seq (xc_claim context)) (target_states rs) (store w) (store w') \<and>
    (\<forall>res. r = Inr res \<longrightarrow> (\<exists>g n. compute_source_digest (sp_sha256 sp) (sp_directory sp) (sp_attempt sp) (sp_range_sort sp)
        (sp_parallelism sp) (digest_rows rs) = Inr (g, n) \<and> window_done sg rows context rs g n (store w') res))"
proof (cases "compute_source_digest (sp_sha256 sp) (sp_directory sp) (sp_attempt sp) (sp_range_sort sp) (sp_parallelism sp) (digest_rows rs)")
  case (Inl e)
  then show ?thesis using run by (auto simp: apply_window_def)
next
  case (Inr gn)
  then obtain g n where gn: "compute_source_digest (sp_sha256 sp) (sp_directory sp) (sp_attempt sp) (sp_range_sort sp)
      (sp_parallelism sp) (digest_rows rs) = Inr (g, n)" by (cases gn) blast
  obtain q w1 where p: "applied_completion_marker sg context g w = (q, w1)" by force
  note probe = probe_sound(1) [OF ok(2) p]
  have u1: "unique_store rows ''record_id'' (store w1)" using probe start sg_advances_unique by (auto simp: keeps_def)
  obtain v w2 where wr: "write_terminal sp sg (xc_spec_revision context) rs w1 = (v, w2)" by force
  note wrote = write_window [OF ok u1 spark wr]
  have k2: "keeps sg rows (c_seq (xc_claim context)) (target_states rs) (store w) (store w2)" by (rule keeps_trans [OF probe wrote(1)])
  have u2: "unique_store rows ''record_id'' (store w2)" using k2 start sg_advances_unique by (auto simp: keeps_def)
  obtain f w3 where fin: "finalize_marker sg context g w2 = (f, w3)" by force
  consider (failed) e where "q = Inl e" | (found) m where "q = Inr (Some m)" | (stopped) e where "q = Inr None" "v = Inl e"
    | (written) versions where "q = Inr None" "v = Inr versions"
    by (metis (full_types) option.exhaust sum.exhaust)
  then show ?thesis
  proof cases
    case failed
    with run gn p probe show ?thesis by (auto simp: apply_window_def)
  next
    case found
    with run gn p probe probe_window [OF ok(2) start p [unfolded found], of n] show ?thesis by (auto simp: apply_window_def)
  next
    case stopped
    with run gn p wr k2 show ?thesis by (auto simp: apply_window_def)
  next
    case written
    note final = finish_window [OF ok u2 window dist wrote(2) [OF spec written(2)] fin]
    have k3: "keeps sg rows (c_seq (xc_claim context)) (target_states rs) (store w) (store w3)" by (rule keeps_trans [OF k2 final(1)])
    from run gn p wr fin written k2 k3 final(2) [of _ n] show ?thesis by (auto simp: apply_window_def split: if_splits sum.splits)
  qed
qed

section \<open>The run\<close>

text \<open>What the window asks of the store: the states of the mutations the reference collapse gives.\<close>

definition window_states :: "spark_env \<Rightarrow> work_execution_context \<Rightarrow> string \<Rightarrow> key_state option" where
  "window_states sp context =
     (case scan_window sp context of
        Inl _ \<Rightarrow> Map.empty
      | Inr (_, rows) \<Rightarrow>
          (case reference_collapse sp context rows of Inl _ \<Rightarrow> Map.empty | Inr ts \<Rightarrow> map_of (map mutation_triple ts)))"

lemma map_of_mset_eq:
  assumes "distinct (map fst xs)" and "mset xs = mset ys"
  shows "map_of xs = map_of ys"
proof
  fix k
  have "mset (map fst xs) = mset (map fst ys)" using assms(2) by simp
  then have d: "distinct (map fst ys)" using assms(1) mset_eq_imp_distinct_iff by blast
  have s: "set xs = set ys" using mset_eq_setD [OF assms(2)] .
  show "map_of xs k = map_of ys k"
  proof (rule option.expand)
    show "(map_of xs k = None) = (map_of ys k = None)" using s by (simp add: map_of_eq_None_iff)
    show "map_of xs k \<noteq> None \<Longrightarrow> map_of ys k \<noteq> None \<Longrightarrow> the (map_of xs k) = the (map_of ys k)"
      using s map_of_eq_Some_iff [OF assms(1)] map_of_eq_Some_iff [OF d] by (metis option.sel option.exhaust)
  qed
qed

lemma row_kv_triple: "tr_record_id r \<noteq> None \<Longrightarrow> row_kv r = row_triple r"
  by (auto simp: row_kv_def row_triple_def)

lemma collapsed_states:
  assumes "reference_terminals sp context rows = Inr us" and "reference_collapse sp context rows = Inr ts"
    and "\<forall>e\<in>set rows. se_record_id e \<noteq> None" and "spark_ok sp"
  shows "distinct (map fst (map row_kv (sp_drop_duplicates sp (paired_rows context rows us))))"
    and "target_states (sp_drop_duplicates sp (paired_rows context rows us)) = map_of (map mutation_triple ts)"
proof -
  let ?ds = "sp_drop_duplicates sp (paired_rows context rows us)"
  note trip = collapsed_triples [OF assms]
  have "\<forall>r\<in>set ?ds. tr_record_id r \<noteq> None"
    using spark_okD(1) [OF assms(4)] reference_pairs(2) [OF assms(1,3)] by blast
  then have kv: "map row_kv ?ds = map row_triple ?ds" by (auto intro: row_kv_triple)
  show "distinct (map fst (map row_kv ?ds))" unfolding kv by (rule trip(2))
  show "target_states ?ds = map_of (map mutation_triple ts)"
    unfolding target_states_def kv by (rule map_of_mset_eq [OF trip(2,1)])
qed

text \<open>A run that does not apply its window leaves the store alone and does not succeed.\<close>

lemma ingest_run_applies:
  assumes "spark_ok sp" and "columns_distinct (xc_spec_revision context)"
    and "seq_ok (c_seq (xc_claim context))" and "seq_ok (xc_iceberg_sequence_number context)"
    and "ingest_run sp sg context w = (r, w')"
  shows "(w' = w \<and> (\<forall>res. r = Inr res \<longrightarrow> wr_kind res \<noteq> INGEST_SUCCEEDED)) \<or>
    (\<exists>schema rows us ts. scan_window sp context = Inr (schema, rows) \<and> reference_terminals sp context rows = Inr us \<and>
       reference_collapse sp context rows = Inr ts \<and> (\<forall>e\<in>set rows. se_record_id e \<noteq> None) \<and>
       apply_window sp sg context (sp_drop_duplicates sp (paired_rows context rows us)) w = (r, w'))"
proof (cases "c_kind (xc_claim context) = INGEST \<and> (\<exists>schema rows. scan_window sp context = Inr (schema, rows) \<and>
    validate_source_profile (xc_spec_revision context) schema rows = Inr ())")
  case False
  then have "c_kind (xc_claim context) \<noteq> INGEST \<or> (\<exists>e. profiled_rows sp context = Inl e)"
    by (auto simp: profiled_rows_def split: sum.splits)
  with assms(5) show ?thesis
    by (auto simp: ingest_run_def Let_def blocked_result_def error_result_def split: if_splits sum.splits)
next
  case True
  then obtain schema rows where scan: "c_kind (xc_claim context) = INGEST" "scan_window sp context = Inr (schema, rows)"
    "validate_source_profile (xc_spec_revision context) schema rows = Inr ()" by blast
  note run = ingest_run_terminal [OF assms(1) scan assms(2), of sg w]
  show ?thesis
  proof (cases "\<exists>e\<in>set rows. se_record_id e = None")
    case True
    from run(2) [OF True] assms(5) show ?thesis by (auto simp: blocked_result_def error_result_def)
  next
    case False
    then have rec: "\<forall>e\<in>set rows. se_record_id e \<noteq> None" by simp
    show ?thesis
    proof (cases "reference_terminals sp context rows")
      case (Inl e)
      with run(1) [OF rec] assms(5) show ?thesis by simp
    next
      case (Inr us)
      let ?rs = "paired_rows context rows us"
      show ?thesis
      proof (cases "conflicting ?rs")
        case True
        with run(1) [OF rec] Inr assms(5) show ?thesis by (auto simp: blocked_result_def error_result_def)
      next
        case False
        note pairs = reference_pairs [OF Inr rec]
        have "agree us" using False conflicting_triples [OF pairs(2)] single_valued_triples [of us "context_target context"] pairs(3)
          by (simp only: pairs(1)) blast
        then obtain ts where "reference_collapse sp context rows = Inr ts"
          using assms(3,4) Inr unfolding reference_collapse_def reference_terminals_def by (metis collapse_ok_iff)
        with False run(1) [OF rec] Inr rec scan(2) assms(5) show ?thesis by auto
      qed
    qed
  qed
qed

text \<open>
  C4. Ingest is safe under concurrent clients. While other clients only move the dataset forward and write
  no false marker, a run of the ingest executor - successful, blocked, or failed at any step - never takes back
  a stored mutation or a completion marker and leaves every marker true of the window. When it reports
  \<open>INGEST_SUCCEEDED\<close>, the reported digest and row count are those of the reference collapse of the scanned
  window, the dataset carries a marker that proves the window complete, with the reported version, and every
  collapsed mutation is stored or superseded by a later one.
\<close>

theorem ingest_run_sound:
  assumes "storage_ok sg rows" and "others_ok sg rows (c_seq (xc_claim context)) (window_states sp context)"
    and "spark_ok sp" and "unique_store rows ''record_id'' (store w)"
    and "truthful sg rows (c_seq (xc_claim context)) (window_states sp context) (store w)"
    and "columns_distinct (xc_spec_revision context)" and "schema_distinct (xc_spec_revision context)"
    and "1 \<le> sr_ingest_shuffle_partitions (xc_spec_revision context)"
    and "seq_ok (c_seq (xc_claim context))" and "seq_ok (xc_iceberg_sequence_number context)"
    and "ingest_run sp sg context w = (r, w')"
  shows "sg_advances sg rows (store w) (store w') \<and>
    truthful sg rows (c_seq (xc_claim context)) (window_states sp context) (store w') \<and>
    (\<forall>res. r = Inr res \<longrightarrow> wr_kind res = INGEST_SUCCEEDED \<longrightarrow>
       (\<exists>schema events ts g d m. scan_window sp context = Inr (schema, events) \<and> reference_collapse sp context events = Inr ts \<and>
          terminal_source_digest (sp_sha256 sp) ts = Inr g \<and>
          res = ingest_result (xc_claim context) (cm_version m) (length ts) g \<and>
          store w' = Some d \<and> parse_completion_marker (sg_config sg) d = Inr (Some m) \<and>
          mark_le (Some (c_seq (xc_claim context), g)) (Some (cm_window m, cm_digest m)) \<and>
          advances (map_of (map mutation_triple ts)) (states ''record_id'' (rows d))))"
  using ingest_run_applies [OF assms(3,6,9-11)]
proof (elim disjE exE conjE)
  assume "w' = w" and "\<forall>res. r = Inr res \<longrightarrow> wr_kind res \<noteq> INGEST_SUCCEEDED"
  then show ?thesis using assms(5) by (auto simp: sg_advances_refl)
next
  fix schema events us ts
  let ?ds = "sp_drop_duplicates sp (paired_rows context events us)"
  assume scan: "scan_window sp context = Inr (schema, events)" and us: "reference_terminals sp context events = Inr us"
    and ts: "reference_collapse sp context events = Inr ts" and rec: "\<forall>e\<in>set events. se_record_id e \<noteq> None"
    and run: "apply_window sp sg context ?ds w = (r, w')"
  note st = collapsed_states [OF us ts rec assms(3)]
  have w: "window_states sp context = target_states ?ds" "window_states sp context = map_of (map mutation_triple ts)"
    using scan ts st(2) by (simp_all add: window_states_def)
  have lt: "c_seq (xc_claim context) < 2 ^ 63" using assms(9) by (simp add: seq_ok_def)
  note step = apply_window_sound [OF assms(1) assms(2) [unfolded w(1)] assms(4) assms(5) [unfolded w(1)] assms(7,8,3) lt st(1) run]
  note sound = conjunct1 [OF step] mp [OF spec [OF conjunct2 [OF step]]]
  have "sg_advances sg rows (store w) (store w')" "truthful sg rows (c_seq (xc_claim context)) (window_states sp context) (store w')"
    using sound(1) assms(4,5) by (simp_all add: keeps_def w(1))
  moreover have "\<exists>g d m. terminal_source_digest (sp_sha256 sp) ts = Inr g \<and>
      res = ingest_result (xc_claim context) (cm_version m) (length ts) g \<and> store w' = Some d \<and>
      parse_completion_marker (sg_config sg) d = Inr (Some m) \<and>
      mark_le (Some (c_seq (xc_claim context), g)) (Some (cm_window m, cm_digest m)) \<and>
      advances (map_of (map mutation_triple ts)) (states ''record_id'' (rows d))" if res: "r = Inr res" for res
  proof -
    from sound(2) [OF res] obtain g n where d: "compute_source_digest (sp_sha256 sp) (sp_directory sp) (sp_attempt sp)
        (sp_range_sort sp) (sp_parallelism sp) (digest_rows ?ds) = Inr (g, n)" "window_done sg rows context ?ds g n (store w') res" by blast
    then have g: "terminal_source_digest (sp_sha256 sp) ts = Inr g" "n = length ts"
      unfolding profile_digest_rows [OF us ts rec assms(3)] by (auto split: sum.splits)
    have "target_states ?ds = map_of (map mutation_triple ts)" by (rule st(2))
    with d(2) [unfolded window_done_def] g show ?thesis by auto
  qed
  ultimately show ?thesis using scan ts by blast
qed

end
