(* ===== verification/Ingest_Scenario.thy ===== *)
theory Ingest_Scenario
  imports Ingest_Safety
begin

text \<open>
  A window of two records over a dataset in memory, on which the properties of the ingest executor are
  exercised.
\<close>

section \<open>Spark on one machine\<close>

fun first_rows :: "string option list \<Rightarrow> terminal_row list \<Rightarrow> terminal_row list" where
  "first_rows seen [] = []"
| "first_rows seen (r # rs) =
     (if tr_record_id r \<in> set seen then first_rows seen rs else r # first_rows (tr_record_id r # seen) rs)"

lemma first_rows_set: "set (first_rows seen rs) \<subseteq> set rs"
  by (induction rs arbitrary: seen) auto

lemma first_rows_records: "tr_record_id ` set (first_rows seen rs) = tr_record_id ` set rs - set seen"
  by (induction rs arbitrary: seen) auto

lemma first_rows_distinct: "distinct (map tr_record_id (first_rows seen rs))"
proof (induction rs arbitrary: seen)
  case (Cons r rs)
  have "tr_record_id r \<notin> tr_record_id ` set (first_rows (tr_record_id r # seen) rs)" by (simp add: first_rows_records)
  with Cons show ?case by simp
qed simp

text \<open>A hash of the right length.\<close>

definition short_hash :: "bytes \<Rightarrow> bytes" where
  "short_hash b = take 32 (b @ replicate 32 0)"

definition local_schema :: spark_schema where
  "local_schema =
     [(''tenant_id'', StringType), (''namespace'', StringType), (''org_id'', StringType), (''record_id'', StringType),
      (''op'', StringType), (''ts'', TimestampType), (''vectors'', MapType StringType (ArrayType FloatType)),
      (''texts'', MapType StringType StringType), (''metadata'', MapType StringType StringType)]"

definition local_spark :: "source_event list \<Rightarrow> spark_env" where
  "local_spark events =
     \<lparr>sp_scan = (\<lambda>_ _ _. Inr (local_schema, events)), sp_limit = (\<lambda>_ rows. rows), sp_drop_duplicates = first_rows [], sp_range_sort = halves,
       sp_hash_parts = (\<lambda>_ rows. [rows]), sp_batches = (\<lambda>rows. [rows]), sp_parallelism = 1, sp_directory = ''/tmp/s'',
       sp_attempt = (\<lambda>_. ''0-a''), sp_sha256 = short_hash, sp_nbytes = (\<lambda>_ _ _. 64), sp_scale = (\<lambda>a b c. a * b div c)\<rparr>"

lemma local_spark_ok: "spark_ok (local_spark events)"
proof -
  have "length (short_hash b) = 32" for b by (cases "length b \<le> 32") (simp_all add: short_hash_def)
  then show ?thesis
  unfolding spark_ok_def
  by (simp add: local_spark_def first_rows_set first_rows_distinct first_rows_records halves_sorted)
qed

section \<open>A dataset with rows and configuration\<close>

type_synonym local_dataset = "memory \<times> (string \<times> string) list"

abbreviation local_rows :: "local_dataset \<Rightarrow> arrow_row list" where
  "local_rows d \<equiv> memory_rows (fst d)"

definition local_storage :: "local_dataset storage" where
  "local_storage =
     \<lparr>sg_lance = \<lparr>ln_schema = (\<lambda>d. ln_schema memory_lance (fst d)), ln_version = (\<lambda>d. ln_version memory_lance (fst d)),
        ln_scan = (\<lambda>d. ln_scan memory_lance (fst d)), ln_create = (\<lambda>s. (ln_create memory_lance s, [])),
        ln_merge = (\<lambda>d t b. case ln_merge memory_lance (fst d) t b of (r, m) \<Rightarrow> (r, m, snd d)),
        ln_open_error = (\<lambda>_. None), ln_create_error = (\<lambda>_. None)\<rparr>,
       sg_config = \<lparr>cs_config = snd, cs_version = (\<lambda>d. ln_version memory_lance (fst d)),
        cs_update = (\<lambda>d c p.
          (case cs_update memory_config (snd d, 0) (snd c, 0) p of (r, m) \<Rightarrow> (r, (fst (fst c), local_rows c, snd (snd (fst c)) + snd m), fst m))),
        cs_open_error = (\<lambda>_. None)\<rparr>,
       sg_others = (\<lambda>_ s. s)\<rparr>"

lemma local_lance_ok: "lance_ok (sg_lance local_storage) local_rows kc"
  using memory_lance_ok [of kc] by (simp add: lance_ok_def local_storage_def merge_effect_def case_prod_unfold)

lemma local_config_ok: "config_store_ok (sg_config local_storage)"
  unfolding config_store_ok_def
proof (intro allI)
  fix d c :: local_dataset and p
  obtain r m where u: "cs_update memory_config (snd d, 0) (snd c, 0) p = (r, m)" by (cases "cs_update memory_config (snd d, 0) (snd c, 0) p") blast
  have "cs_config memory_config = fst" by (simp add: memory_config_def)
  with config_store_okD [OF memory_config_ok u] u
  show "case cs_update (sg_config local_storage) d c p of (r, c') \<Rightarrow>
        same_keys p (cs_config (sg_config local_storage) d) (cs_config (sg_config local_storage) c) \<and>
        config_put (cs_config (sg_config local_storage) c) p (cs_config (sg_config local_storage) c') \<or>
        r \<noteq> Inr () \<and> config_put (cs_config (sg_config local_storage) c) [] (cs_config (sg_config local_storage) c')"
    by (simp add: local_storage_def)
qed

lemma local_storage_ok: "storage_ok local_storage local_rows"
proof -
  have "marks (sg_config local_storage) (ln_create (sg_lance local_storage) s) None" for s
    by (simp add: marks_def local_storage_def memory_lance_def parse_completion_marker_def mark_of_def dict_get_def)
  then show ?thesis
    unfolding storage_ok_def using local_lance_ok local_config_ok
    by (simp add: local_storage_def memory_lance_def case_prod_unfold)
qed

section \<open>A window\<close>

definition local_field :: "int \<Rightarrow> string \<Rightarrow> field_role \<Rightarrow> int option \<Rightarrow> dataset_field" where
  "local_field i name role n =
     \<lparr>df_field_id = of_int i, df_spec_revision_id = 0x101, df_ordinal = i, df_target_name = name, df_role = role,
       df_source_kind = MAP_KEY, df_source_column = (if role = VECTOR then ''vectors'' else ''texts''),
       df_source_key = Some name, df_data_type = (if role = VECTOR then ''fixed_size_list<float32,2>'' else ''string''),
       df_nullable = True, df_required_on_upsert = (role = VECTOR), df_vector_dimension = n\<rparr>"

definition local_revision :: dataset_spec_revision where
  "local_revision =
     \<lparr>sr_spec_id = 0x100, sr_spec_revision_id = 0x101, sr_revision_number = 1, sr_state = SPEC_ACTIVE,
       sr_supersedes_revision_id = None, sr_configuration_digest = replicate 32 0,
       sr_fields = [local_field 0 ''embedding'' VECTOR (Some 2), local_field 1 ''title'' TEXT None], sr_indexes = [],
       sr_ingest_shuffle_partitions = 2, sr_merge_rows_per_chunk = 100, sr_merge_batch_bytes = 1048576,
       sr_write_rows_per_fragment = 100, sr_compaction_enabled = True, sr_compaction_mode = REENCODE,
       sr_target_rows_per_fragment = 100, sr_max_source_fragments = None, sr_compaction_threads = None,
       sr_defer_index_remap = False, sr_materialize_deletions = False, sr_materialize_deletions_threshold = NInt 1,
       sr_cleanup_older_than_seconds = None, sr_retain_versions = None, sr_fragments_per_index_task = 1,
       sr_max_index_deltas = 1, sr_max_stale_replans = 1, sr_prewarm_required = False, sr_retained_publications = 2,
       sr_artifact_retention_seconds = 1, sr_record_retention_seconds = None\<rparr>"

definition local_claim :: work_claim where
  "local_claim =
     \<lparr>c_work = 11, c_dataset = 12, c_kind = INGEST, c_phase = PH_INGEST, c_token = 77, c_fence = 1, c_attempts = 1, c_seq = 1,
       c_spec = 0x101, c_uri = ''s3://lance/d'', c_version = None, c_expires = Some 102\<rparr>"

definition local_context :: work_execution_context where
  "local_context =
     \<lparr>xc_claim = local_claim, xc_identity = \<lparr>tenant_id = ''t'', namespace = ''n'', org_id = ''o''\<rparr>, xc_source_table = ''c.s.events'',
       xc_source = \<lparr>source_id = 1, source_name = ''demo'', spark_catalog = ''c'', table_namespace = ''s'', table_name = ''events'',
         table_uuid = 5, lance_base_uri = ''s3://lance'', lifecycle_state = SOURCE_ACTIVE, default_spec_id = 0x100,
         canonical_baseline_snapshot_id = Some 7, replay_horizon = 1\<rparr>,
       xc_spec_revision = local_revision, xc_snapshot_id = 7, xc_parent_snapshot_id = None, xc_iceberg_sequence_number = 3,
       xc_partition_spec_id = 0, xc_source_snapshot_kind = BASELINE, xc_candidate_lance_uri = None,
       xc_candidate_lance_version = None, xc_artifact_manifest_uri = None, xc_artifact_digest = None\<rparr>"

definition local_event :: "string \<Rightarrow> string \<Rightarrow> string \<Rightarrow> source_event" where
  "local_event rid op title =
     \<lparr>se_record_id = Some rid, se_op = Some op, se_ts = Some 1000, se_vectors = Some [(''embedding'', Some [Some 0, Some 0])],
       se_texts = Some [(''title'', Some title)], se_metadata = Some []\<rparr>"

definition local_events :: "source_event list" where
  "local_events = [local_event ''b'' '' Upsert'' ''two'', local_event ''a'' ''delete'' ''one'', local_event ''b'' ''insert'' ''two'']"

definition local_world :: "local_dataset world" where
  "local_world = \<lparr>clock = 0, store = None\<rparr>"

lemma local_scan: "scan_window (local_spark local_events) local_context = Inr (local_schema, local_events)"
  by (simp add: scan_window_def local_context_def local_spark_def snapshot_scan_options_def)

lemma local_hypotheses:
  "c_kind (xc_claim local_context) = INGEST" "columns_distinct (xc_spec_revision local_context)"
  "schema_distinct (xc_spec_revision local_context)"
  "1 \<le> sr_ingest_shuffle_partitions (xc_spec_revision local_context)"
  "seq_ok (c_seq (xc_claim local_context))" "seq_ok (xc_iceberg_sequence_number local_context)"
  "\<forall>e\<in>set local_events. se_record_id e \<noteq> None"
  by (simp_all add: local_context_def local_claim_def local_revision_def columns_distinct_def schema_distinct_def
      spec_payload_names_def persisted_arrow_schema_def vector_fields_def text_fields_def metadata_fields_def
      fields_for_role_def local_field_def seq_ok_def local_events_def local_event_def WINDOW_SEQUENCE_COLUMN_def
      SOURCE_SEQUENCE_COLUMN_def EVENT_DIGEST_COLUMN_def DELETED_COLUMN_def)

lemma local_source_schema: "validate_source_schema local_schema = Inr ()"
  by code_simp

lemma isfinite_code [code]: "isfinite w \<longleftrightarrow> uint w div 2 ^ 52 mod 2 ^ 11 \<noteq> 2047"
proof -
  have "uint w div 2 ^ 52 mod 2 ^ 11 = int (unat w div 2 ^ 52 mod 2 ^ 11)" by (simp add: zdiv_int zmod_int)
  then show ?thesis unfolding isfinite_def by linarith
qed

lemma local_profile_ok: "list_all (\<lambda>e. list_all (\<lambda>c. fst c \<noteq> Some True) (source_profile_checks local_revision e)) local_events"
  by code_simp

lemma encode_batches_code [code]:
  "encode_batches partition_id sequence encoded encoded_rows [] =
     (if encoded = [] then Inr []
      else rbind (chunk_output partition_id sequence encoded encoded_rows) (\<lambda>c. Inr [c]))"
  "encode_batches partition_id sequence encoded encoded_rows ((current, record_id, source_sequence, event_digest) # rows) =
     rbind (ensure (partition_id = None \<or> partition_id = Some current) RuntimeError) (\<lambda>_.
     rbind (encode_source_digest_record record_id source_sequence event_digest) (\<lambda>rec.
     if encoded \<noteq> [] \<and> 1048576 < int (length encoded) + int (length rec)
     then rbind (chunk_output (Some current) sequence encoded encoded_rows) (\<lambda>c.
          rbind (encode_batches (Some current) (Suc sequence) rec 1 rows) (\<lambda>cs. Inr (c # cs)))
     else encode_batches (Some current) sequence (encoded @ rec) (Suc encoded_rows) rows))"
proof -
  have "SOURCE_DIGEST_CHUNK_BYTES < a + b \<longleftrightarrow> 1048576 < int a + int b" for a b
    unfolding SOURCE_DIGEST_CHUNK_BYTES_def by linarith
  then show
  "encode_batches partition_id sequence encoded encoded_rows [] =
     (if encoded = [] then Inr []
      else rbind (chunk_output partition_id sequence encoded encoded_rows) (\<lambda>c. Inr [c]))"
  "encode_batches partition_id sequence encoded encoded_rows ((current, record_id, source_sequence, event_digest) # rows) =
     rbind (ensure (partition_id = None \<or> partition_id = Some current) RuntimeError) (\<lambda>_.
     rbind (encode_source_digest_record record_id source_sequence event_digest) (\<lambda>rec.
     if encoded \<noteq> [] \<and> 1048576 < int (length encoded) + int (length rec)
     then rbind (chunk_output (Some current) sequence encoded encoded_rows) (\<lambda>c.
          rbind (encode_batches (Some current) (Suc sequence) rec 1 rows) (\<lambda>cs. Inr (c # cs)))
     else encode_batches (Some current) sequence (encoded @ rec) (Suc encoded_rows) rows))" by simp_all
qed

lemma local_run: "(case ingest_run (local_spark local_events) local_storage local_context local_world of
    (Inl _, _) \<Rightarrow> False
  | (Inr res, w) \<Rightarrow> wr_kind res = INGEST_SUCCEEDED \<and> wr_row_count res = Some 2 \<and> wr_data_version res = Some 3)"
  by code_simp

lemma local_profile: "validate_source_profile (xc_spec_revision local_context) local_schema local_events = Inr ()"
  using local_profile_ok local_source_schema
  by (simp add: validate_source_profile_Inr profile_ok_def list_all_iff local_context_def)

lemma local_collapses:
  "(case reference_terminals (local_spark local_events) local_context local_events of Inl _ \<Rightarrow> False | Inr _ \<Rightarrow> True)"
  "(case reference_collapse (local_spark local_events) local_context local_events of Inl _ \<Rightarrow> False | Inr ts \<Rightarrow> map tm_record ts = [''a'', ''b''])"
  by code_simp+

theorem ingest_collapse_equivalent_witness:
  "\<exists>collapsed ts. reference_collapse (local_spark local_events) local_context local_events = Inr ts \<and> map tm_record ts = [''a'', ''b''] \<and>
     ingest_run (local_spark local_events) local_storage local_context local_world =
       apply_window (local_spark local_events) local_storage local_context collapsed local_world \<and>
     mset (map row_triple collapsed) = mset (map mutation_triple ts)"
proof -
  obtain us ts where r: "reference_terminals (local_spark local_events) local_context local_events = Inr us"
    "reference_collapse (local_spark local_events) local_context local_events = Inr ts" "map tm_record ts = [''a'', ''b'']"
    using local_collapses by (auto split: sum.splits)
  from ingest_collapse_equivalent [OF local_spark_ok local_hypotheses(1) local_scan local_profile local_hypotheses(2,7,5,6),
      of local_storage local_world] r
  show ?thesis by auto
qed

theorem ingest_run_sound_witness:
  "\<exists>res w' d m. ingest_run (local_spark local_events) local_storage local_context local_world = (Inr res, w') \<and>
     wr_kind res = INGEST_SUCCEEDED \<and> wr_row_count res = Some 2 \<and> wr_data_version res = Some 3 \<and>
     store w' = Some d \<and> parse_completion_marker (sg_config local_storage) d = Inr (Some m) \<and> cm_version m = 3"
proof -
  let ?target = "window_states (local_spark local_events) local_context"
  obtain res w' where run: "ingest_run (local_spark local_events) local_storage local_context local_world = (Inr res, w')"
    "wr_kind res = INGEST_SUCCEEDED" "wr_row_count res = Some 2" "wr_data_version res = Some 3"
    using local_run by (auto split: prod.splits sum.splits)
  have "others_ok local_storage local_rows (c_seq (xc_claim local_context)) ?target"
    by (simp add: others_ok_def sg_advances_refl local_storage_def)
  moreover have "unique_store local_rows ''record_id'' (store local_world)"
    "truthful local_storage local_rows (c_seq (xc_claim local_context)) ?target (store local_world)"
    by (simp_all add: unique_store_def truthful_def local_world_def)
  ultimately show ?thesis
    using ingest_run_sound [OF local_storage_ok _ local_spark_ok _ _ local_hypotheses(2-6) run(1)] run
    by (fastforce simp: ingest_result_def)
qed

end
