(* ===== verification/Operation_Field.thy ===== *)
theory Operation_Field
  imports Ingest_Scenario
begin












end
