(* ===== verification/Spec2Isabelle.thy ===== *)
theory Spec2Isabelle
  imports Source_Gate Identity_Properties Lineage_Properties Mutation_Properties Replay_Scenario
    Completion_Properties Ancestry_Properties Settings Planning_Scenario Sweep Execution_Context
    Operation_Field
begin

text \<open>
  \<^bold>\<open>lance-etl: a verified model of the control plane and the data path.\<close>

  The program (\<open>src/src/lance_etl\<close>) moves an append-only Iceberg event table into one Lance dataset per
  routing identity and serves published versions of them. PostgreSQL is the control plane: registered
  sources, sealed source snapshots, datasets, units of work with fenced leases, and publications. A
  reconciler process plans the next snapshots of a source, hands work to executors under claims, applies
  their outcomes, and sweeps superseded publications. Executors collapse a snapshot to terminal
  mutations, merge them replay-safely into Lance and mark the snapshot complete in the dataset.

  \<^bold>\<open>Conventions.\<close> Python exceptions are values: \<open>py_error\<close> is the closed set of exception classes, and
  a fallible operation returns \<open>py_error + 'a\<close>. A repository method that opens a transaction is a function
  of the database (\<open>db\<close>, a record of tables, each the list of its rows) that returns its value with the
  committed database, or the error: an error is a rollback. Every write goes through \<open>checked\<close>, which
  raises \<open>IntegrityError\<close> when a unique, foreign-key or check constraint of \<open>state/tables.py\<close> is violated.
  Instants and durations are whole microseconds; the clock is an argument. Strings are lists of the code
  points below 256, UUIDs are 128-bit words, bytes are 8-bit words, and \<open>float\<close> is binary64 arithmetic on
  rationals (\<open>Binary64\<close>).

  \<^bold>\<open>Parameters.\<close> Code outside the repository is an argument: SHA-1 and SHA-256 (\<open>sha1\<close>, \<open>sha256\<close>), the
  text of a float (\<open>float_repr\<close>), the lease tokens drawn (\<open>tok\<close>), the rows a \<open>SKIP LOCKED\<close> query finds locked
  (\<open>lockw\<close>, \<open>lockd\<close>), the order of publications with equal instants (\<open>tie\<close>), Lance and the configuration of a
  Lance dataset (records \<open>lance\<close> and \<open>config_store\<close> with the laws \<open>lance_ok\<close>, \<open>lance_quiet\<close>,
  \<open>config_store_ok\<close>, \<open>storage_ok\<close>, which an in-memory store satisfies), Iceberg as the planner reads it (record
  \<open>catalog\<close>), Spark as the ingest executor uses it (record \<open>spark_env\<close> with the laws \<open>spark_ok\<close>; a task that
  raises fails its job, which raises \<open>SparkJobError\<close> in the driver), the executor of a claim in the
  dispatcher, and other clients of the database or the dataset (\<open>others\<close>), who act before each access. The
  removal of a publication's pin and artifact, \<open>remove_publication_external\<close>, which only calls Lance and the
  object store, is an argument of the sweep too.

  \<^bold>\<open>Shared theories.\<close>
  \<^item> \<open>Prelude\<close>: errors, results, tables as lists with update, delete and insert-or-ignore, dictionaries;
    the collections \<open>result_simps\<close> and \<open>table_simps\<close>. \<open>Transition\<close>: the locale of a transition system with an
    invariant, interpreted for the protocol. \<open>Pytext\<close>: \<open>str\<close>, \<open>int\<close>, \<open>bytes\<close> and \<open>uuid\<close>. \<open>Binary64\<close>: rounding,
    \<open>timedelta\<close> and \<open>fromtimestamp\<close>, with the round trips exact below \<open>2 ^ 33\<close> seconds.

  \<^bold>\<open>Control plane\<close> (\<open>routing.py\<close>, \<open>state/types.py\<close>, \<open>state/tables.py\<close>, \<open>state/specs.py\<close>,
  \<open>state/repository.py\<close>).
  \<^item> \<open>Identity\<close>, \<open>Specs\<close>, \<open>Tables\<close>: routing identities, deterministic UUIDs and URIs, rows as dictionaries, the
    tables with their constraints. \<open>Enqueue\<close>: registration, sealing and rejecting snapshots, the source gate.
    \<open>Lease\<close>: the claim query and loop, expiry, renewal, checkpoints, retry, block. \<open>Terminal\<close>: completion of
    an ingest, publication, rebuilds, assignment of a revision. \<open>Retention\<close>: serving, retention floor, status,
    cleanup, audit deletion.
  \<^item> \<open>Protocol\<close> is the abstract specification: a step relation on databases that says what each kind of
    transaction may change. \<open>Protocol_Invariants\<close> proves its invariant \<open>cp_inv\<close> (lineage, lanes, publications,
    leases). \<open>Refinement\<close> and \<open>Refinement_Planning\<close> show that each repository method is a sequence of protocol
    steps; \<open>System\<close>, \<open>Claiming\<close> and \<open>Operations\<close> make the methods the operations of a system of clients that act
    under issued claims with fresh tokens. \<open>Scenario\<close> is a complete run on concrete data, the source of most
    witnesses.
  \<^item> \<open>Lease_Safety\<close>, \<open>Lease_Progress\<close>: a lost claim is inert, held claims exclude each other, what a claim call
    hands out, when lease operations succeed. \<open>Ingest_Completion\<close>, \<open>Serving\<close>: what completion and publication
    change, exactly-once completion, what is served, the retention floor. \<open>Control_Invariants\<close>,
    \<open>Source_Gate\<close>: refinement, no gaps in what is applied, linear lineage, monotone progress, the gate.
    \<open>Identity_Properties\<close>: hashed names determine their inputs, URIs determine their dataset.

  \<^bold>\<open>Dataset specifications\<close> (\<open>state/specs.py\<close> and their methods of \<open>state/repository.py\<close>).
  \<^item> \<open>Json\<close>, \<open>Spec_Model\<close>, \<open>Spec_Digest\<close>: the canonical JSON text, revisions with their fields, indexes, accessors,
    validation and semantic document. \<open>Spec_Rows\<close>, \<open>Spec_Checks\<close>: rows of the three specification tables, their
    column types and widths, and their check constraints in three-valued logic. \<open>Spec_Store\<close>: draft creation with
    its storage self-check, activation, source defaults, loading, and the execution context of a claim.
  \<^item> \<open>Spec_Roundtrip\<close>, \<open>Draft_Storage\<close>, \<open>Spec_Lifecycle\<close>, \<open>Spec_Properties\<close>, \<open>Activation\<close>, \<open>Execution_Context\<close>:
    what validation guarantees and accessors return, the digest identifies the configuration, drafts are stored
    and read back exactly, activation changes exactly one specification, a context exists exactly under a
    current lease.

  \<^bold>\<open>Source planning\<close> (\<open>source/\<close>, \<open>reconciler/iceberg.py\<close>, \<open>reconciler/planning.py\<close>).
  \<^item> \<open>Lineage\<close>, \<open>Ancestry\<close>, \<open>Planner\<close>: manifests and contracts, the walk of the parent chain with Floyd's cycle
    detection (a \<open>partial_function\<close>, since metadata may be cyclic), classification, target discovery, the
    baseline and incremental planner with its gates and rejections, and the enqueuer.
  \<^item> \<open>Lineage_Properties\<close>, \<open>Ancestry_Properties\<close>: exactness of the walks, classification and discovery;
    termination on every finite metadata generation. \<open>Planner_Properties\<close>, \<open>Planning_Cycle\<close>,
    \<open>Planning_Scenario\<close>: planned windows are admitted by the repository one after the other, a planning cycle
    moves the database along the protocol whatever interferes, and the rejection that is never recorded.

  \<^bold>\<open>Reconciler\<close> (\<open>state/settings.py\<close>, \<open>reconciler/results.py\<close>, \<open>reconciler/service.py\<close>,
  \<open>reconciler/retention.py\<close>).
  \<^item> \<open>Settings\<close>: environment overrides, validation, the retry delay and its bounds under floating point.
    \<open>Dispatch\<close>: outcomes, reconciliation, the bounded dispatcher, the sweep, retention and health decisions, one
    whole cycle, repairs. \<open>Dispatch_Properties\<close>, \<open>Sweep\<close>: the dispatcher only acts under claims it was issued,
    handles each once and counts the outcomes; the sweep never affects readers.

  \<^bold>\<open>Data path\<close> (\<open>etl/\<close>, \<open>telemetry.py\<close>).
  \<^item> \<open>Digest\<close>, \<open>Mutation\<close>: canonical encodings and digests, the collapse of a snapshot to one terminal mutation
    per key; \<open>Digest_Properties\<close>, \<open>Mutation_Properties\<close>: encodings identify events, the collapse is exact and
    independent of row order.
  \<^item> \<open>Commits\<close>, \<open>Replay\<close>, \<open>Completion\<close>: the commit retry loop, the replay-safe merge, the completion marker, against
    a dataset other clients change in between; \<open>Replay_Properties\<close>, \<open>Replay_Convergence\<close>, \<open>Replay_Scenario\<close>,
    \<open>Completion_Properties\<close>: merges never regress and converge in any order, chunking partitions, the marker is
    monotone and reads back.
  \<^item> \<open>Spool\<close>, \<open>Ingest_Runner\<close> (\<open>reconciler/workers.py\<close>): the streamed source digest over spooled chunks, and the
    distributed ingest executor: source profile, projection, normalisation, null and conflict checks in the order
    the driver runs its jobs, digest, replay-safe write of the partitions, completion marker.
    \<open>Spool_Properties\<close>, \<open>Ingest_Collapse\<close>, \<open>Ingest_Safety\<close>, \<open>Ingest_Scenario\<close>: the streamed digest is the
    canonical one, the executor computes the reference collapse, and it is safe beside other clients; a window
    on an in-memory Spark and dataset exercises them. \<open>Operation_Field\<close>: the one payload name that collides
    with a source column.

  \<^bold>\<open>Bounds and fuel.\<close> Loops are structural or have a measure; the commit retry loop runs for its attempt
  budget, the dispatcher for \<open>max_drain_batches\<close> batches. The only fuel-free partial function is the ancestry
  walk, whose value \<open>None\<close> (no end) is excluded for finite metadata by \<open>iter_snapshot_documents_exact\<close>. Column
  types and widths are checked for the specification tables; those of the run-time tables, and gaps in the
  snapshot sequence after a rollback, are not represented. Transactions are atomic and serial; other clients
  act between them, and the rows they hold locked are a parameter of the claim query. Finite floats of a
  specification are rationals, so negative zero is not told apart from zero.

  \<^bold>\<open>Not modelled.\<close> The publication runner of \<open>reconciler/workers.py\<close>, which drives compaction, index builds
  and qualification in Lance and Spark; process wiring (\<open>cli\<close>, \<open>config\<close>, \<open>launcher\<close>, \<open>runtime\<close>, \<open>prewarm\<close>); the
  readers of Java metadata and the Spark scan of the baseline qualifier; indexing, maintenance and recall jobs,
  which are calls of Lance, Ray and Spark; the Rust search service; migrations, which create the tables
  modelled here; metrics and logging; benchmarks.
\<close>

end
